(* ===== verification/Prelude.thy ===== *)
theory Prelude
  imports Main "HOL-Library.Word" "HOL-Library.Char_ord" "HOL-Library.List_Lexorder"
begin

text \<open>
  Shared material of the development: the collections of rewrite rules the components fill
  (\<open>status_simps\<close>, \<open>sched_simps\<close>), the fixed-width integer conversions the C++ code performs
  implicitly, decimal printing (\<open>std::to_string\<close>) and reading (\<open>std::stoll\<close>), and generic
  lemmas on lists, association lists and folds.
\<close>

named_theorems status_simps \<open>unfolding of Status values and RETURN_IF_ERROR\<close>
named_theorems sched_simps \<open>unfolding of the scheduler operations\<close>

section \<open>Fixed-width integers\<close>

text \<open>
  \<open>int64_t\<close>, \<open>int32_t\<close> and \<open>size_t\<close> values are kept as \<open>int\<close> or \<open>nat\<close> and brought back into
  range where the code can leave it. Signed overflow is undefined in C++; the model takes the
  two's complement value every supported compiler produces.
\<close>

definition wrap_s64 :: "int \<Rightarrow> int" where
  "wrap_s64 n = (n + 2 ^ 63) mod 2 ^ 64 - 2 ^ 63"

definition wrap_s32 :: "int \<Rightarrow> int" where
  "wrap_s32 n = (n + 2 ^ 31) mod 2 ^ 32 - 2 ^ 31"

definition wrap_u64 :: "int \<Rightarrow> int" where
  "wrap_u64 n = n mod 2 ^ 64"

definition in_s64 :: "int \<Rightarrow> bool" where
  "in_s64 n \<longleftrightarrow> - (2 ^ 63) \<le> n \<and> n < 2 ^ 63"

lemma wrap_s64_id [simp]: "in_s64 n \<Longrightarrow> wrap_s64 n = n"
  by (simp add: wrap_s64_def in_s64_def)

lemma wrap_s64_in_range: "in_s64 (wrap_s64 n)"
  by (simp add: wrap_s64_def in_s64_def)

lemma wrap_s32_id: "- (2 ^ 31) \<le> n \<Longrightarrow> n < 2 ^ 31 \<Longrightarrow> wrap_s32 n = n"
  by (simp add: wrap_s32_def)

lemma in_s64_between: "in_s64 a \<Longrightarrow> in_s64 c \<Longrightarrow> a \<le> b \<Longrightarrow> b \<le> c \<Longrightarrow> in_s64 b"
  by (simp add: in_s64_def)

section \<open>Decimal numbers\<close>

definition digit_char :: "nat \<Rightarrow> char" where
  "digit_char d = char_of (48 + d)"

definition char_digit :: "char \<Rightarrow> nat" where
  "char_digit c = of_char c - 48"

definition is_digit :: "char \<Rightarrow> bool" where
  "is_digit c \<longleftrightarrow> 48 \<le> (of_char c :: nat) \<and> (of_char c :: nat) \<le> 57"

fun show_nat :: "nat \<Rightarrow> string" where
  "show_nat n = (if n < 10 then [digit_char n] else show_nat (n div 10) @ [digit_char (n mod 10)])"

declare show_nat.simps [simp del]

definition show_int :: "int \<Rightarrow> string" where
  "show_int i = (if i < 0 then ''-'' @ show_nat (nat (- i)) else show_nat (nat i))"

definition digits_val :: "string \<Rightarrow> nat" where
  "digits_val s = foldl (\<lambda>acc c. 10 * acc + char_digit c) 0 s"

lemma digit_char_of_char: "d < 10 \<Longrightarrow> (of_char (digit_char d) :: nat) = 48 + d"
  by (simp add: digit_char_def)

lemma char_digit_digit_char [simp]: "d < 10 \<Longrightarrow> char_digit (digit_char d) = d"
  by (simp add: char_digit_def digit_char_of_char)

lemma is_digit_digit_char [simp]: "d < 10 \<Longrightarrow> is_digit (digit_char d)"
  by (simp add: is_digit_def digit_char_of_char)

lemma digits_val_snoc [simp]: "digits_val (s @ [c]) = 10 * digits_val s + char_digit c"
  by (simp add: digits_val_def)

lemma show_nat_digits: "\<forall>c \<in> set (show_nat n). is_digit c"
proof (induction n rule: show_nat.induct)
  case (1 n)
  show ?case
    using 1 by (cases "n < 10") (auto simp: show_nat.simps [of n])
qed

lemma show_nat_nonempty [simp]: "show_nat n \<noteq> []"
  by (simp add: show_nat.simps [of n])

lemma digits_val_show_nat [simp]: "digits_val (show_nat n) = n"
proof (induction n rule: show_nat.induct)
  case (1 n)
  show ?case
  proof (cases "n < 10")
    case True
    then show ?thesis by (simp add: show_nat.simps [of n] digits_val_def)
  next
    case False
    then show ?thesis using 1 by (simp add: show_nat.simps [of n])
  qed
qed

lemma show_nat_inj: "show_nat m = show_nat n \<Longrightarrow> m = n"
  by (metis digits_val_show_nat)

lemma hd_show_nat_digit: "is_digit (hd (show_nat n))"
  using show_nat_digits [of n] by (simp add: list.set_sel(1))

lemma minus_not_digit [simp]: "\<not> is_digit (CHR ''-'')"
  by (simp add: is_digit_def)

lemma comma_not_digit [simp]: "\<not> is_digit (CHR '','')"
  by (simp add: is_digit_def)

subsection \<open>Reading a decimal number as \<open>std::stoll\<close> does\<close>

datatype stoll_error = Stoll_invalid_argument | Stoll_out_of_range

definition is_space :: "char \<Rightarrow> bool" where
  "is_space c \<longleftrightarrow> of_char c \<in> {9, 10, 11, 12, 13, 32 :: nat}"

fun strip_sign :: "string \<Rightarrow> bool \<times> string" where
  "strip_sign [] = (False, [])"
| "strip_sign (c # cs) =
     (if c = CHR ''-'' then (True, cs) else if c = CHR ''+'' then (False, cs) else (False, c # cs))"

definition stoll :: "string \<Rightarrow> stoll_error + int" where
  "stoll s =
     (let (neg, u) = strip_sign (dropWhile is_space s);
          ds = takeWhile is_digit u;
          n = (if neg then - int (digits_val ds) else int (digits_val ds))
      in if ds = [] then Inl Stoll_invalid_argument
         else if in_s64 n then Inr n else Inl Stoll_out_of_range)"

lemma is_digit_not_space: "is_digit c \<Longrightarrow> \<not> is_space c"
  by (auto simp: is_digit_def is_space_def)

lemma minus_not_space [simp]: "\<not> is_space (CHR ''-'')"
  by (simp add: is_space_def)

lemma strip_sign_digit: "is_digit c \<Longrightarrow> strip_sign (c # cs) = (False, c # cs)"
  by (auto simp: is_digit_def)

lemma takeWhile_show_nat [simp]: "takeWhile is_digit (show_nat n) = show_nat n"
  using show_nat_digits by (simp add: takeWhile_eq_all_conv)

lemma stoll_show_nat_aux:
  "dropWhile is_space (show_nat n) = show_nat n"
  "strip_sign (show_nat n) = (False, show_nat n)"
proof -
  obtain c cs where s: "show_nat n = c # cs"
    by (meson list.exhaust show_nat_nonempty)
  then have d: "is_digit c"
    using hd_show_nat_digit [of n] by simp
  show "dropWhile is_space (show_nat n) = show_nat n"
    using s d is_digit_not_space by simp
  show "strip_sign (show_nat n) = (False, show_nat n)"
    using s d strip_sign_digit by simp
qed

lemma stoll_show_int: "in_s64 i \<Longrightarrow> stoll (show_int i) = Inr i"
  by (simp add: stoll_def show_int_def stoll_show_nat_aux)

lemma show_int_inj: "show_int i = show_int j \<Longrightarrow> i = j"
proof -
  assume eq: "show_int i = show_int j"
  have hd: "show_nat n \<noteq> CHR ''-'' # s" for n s
    using hd_show_nat_digit [of n] by (metis minus_not_digit list.sel(1))
  show "i = j"
    using eq by (auto simp: show_int_def hd hd [symmetric] dest!: show_nat_inj split: if_splits)
qed

lemma show_int_no_comma: "CHR '','' \<notin> set (show_int i)"
proof -
  have "CHR '','' \<notin> set (show_nat n)" for n
    using show_nat_digits [of n] comma_not_digit by blast
  then show ?thesis by (simp add: show_int_def)
qed

lemma show_int_nonempty [simp]: "show_int i \<noteq> []"
  by (simp add: show_int_def)

section \<open>Strings\<close>

text \<open>A name between single quotes, as the messages print it.\<close>

definition quote :: "string \<Rightarrow> string" where
  "quote s = [CHR 0x27] @ s @ [CHR 0x27]"

fun join_with :: "string \<Rightarrow> string list \<Rightarrow> string" where
  "join_with sep [] = []"
| "join_with sep [x] = x"
| "join_with sep (x # y # ys) = x @ sep @ join_with sep (y # ys)"

section \<open>Association lists and lists\<close>

text \<open>\<open>find\<close> on a map kept as an association list in iteration order is \<open>map_of\<close>.\<close>

lemma map_of_is_None [simp]: "map_of xs k = None \<longleftrightarrow> k \<notin> fst ` set xs"
  by (simp add: map_of_eq_None_iff)

lemma map_of_append_Some: "map_of xs k = Some v \<Longrightarrow> map_of (xs @ ys) k = Some v"
  by (simp add: map_add_Some_iff)

lemma sum_list_filter_le_nat: "sum_list (map f (filter P xs)) \<le> sum_list (map (f :: 'a \<Rightarrow> nat) xs)"
  by (induction xs) auto

lemma list_all2_refl_on: "(\<And>x. x \<in> set xs \<Longrightarrow> P x x) \<Longrightarrow> list_all2 P xs xs"
  by (simp add: list_all2_conv_all_nth)

section \<open>Transition systems\<close>

text \<open>
  The contract between a component's steps and its invariant, stated once: an invariant that
  holds initially and is kept by each step holds in every state a run reaches. Every stateful
  component interprets it on its own step relation.
\<close>

locale transition_system =
  fixes start :: "'s \<Rightarrow> bool"
    and step :: "'s \<Rightarrow> 's \<Rightarrow> bool"
    and inv :: "'s \<Rightarrow> bool"
  assumes start_inv: "start s \<Longrightarrow> inv s"
    and step_inv: "inv s \<Longrightarrow> step s t \<Longrightarrow> inv t"
begin

lemma run_inv: "step\<^sup>*\<^sup>* s t \<Longrightarrow> inv s \<Longrightarrow> inv t"
  by (induction rule: rtranclp_induct) (auto intro: step_inv)

lemma reachable_inv: "start s \<Longrightarrow> step\<^sup>*\<^sup>* s t \<Longrightarrow> inv t"
  using run_inv start_inv by blast

lemma reachable_step_inv: "start s \<Longrightarrow> step\<^sup>*\<^sup>* s t \<Longrightarrow> step t u \<Longrightarrow> inv u"
  using reachable_inv step_inv by blast

end

end
