(* ===== verification/Status.thy ===== *)
theory Status
  imports Prelude
begin

text \<open>
  \<open>src/core/status.h\<close>, \<open>status.cc\<close> and \<open>request_status.cc\<close>: the \<open>Status\<close> value every core
  operation returns, the RETURN_IF_ERROR macro, the translation of TensorFlow error codes and the
  \<open>RequestStatus\<close> message built from a status.
\<close>

section \<open>Status values\<close>

text \<open>\<open>RequestStatusCode\<close> is an open proto3 enum: \<open>CODE_OTHER\<close> stands for the values without a name.\<close>

datatype request_status_code =
    INVALID | SUCCESS | UNKNOWN | INTERNAL | NOT_FOUND | INVALID_ARG | UNAVAILABLE
  | UNSUPPORTED | ALREADY_EXISTS | CODE_OTHER int

record status =
  st_code :: request_status_code
  st_msg :: string

definition Status :: "request_status_code \<Rightarrow> string \<Rightarrow> status" where
  "Status c m = \<lparr>st_code = c, st_msg = m\<rparr>"

definition Status_Success :: status where
  "Status_Success = Status SUCCESS []"

definition IsOk :: "status \<Rightarrow> bool" where
  "IsOk s \<longleftrightarrow> st_code s = SUCCESS"

text \<open>\<open>RETURN_IF_ERROR(s); k\<close> in a function that returns a status, and in one that returns a value.\<close>

definition return_if_error :: "status \<Rightarrow> status \<Rightarrow> status" where
  "return_if_error s k = (if st_code s \<noteq> SUCCESS then s else k)"

definition return_if_error_val :: "status \<Rightarrow> status + 'a \<Rightarrow> status + 'a" where
  "return_if_error_val s k = (if st_code s \<noteq> SUCCESS then Inl s else k)"

definition bind_status :: "status + 'a \<Rightarrow> ('a \<Rightarrow> status + 'b) \<Rightarrow> status + 'b" where
  "bind_status r k = (case r of Inl e \<Rightarrow> Inl e | Inr v \<Rightarrow> k v)"

text \<open>A loop over \<open>xs\<close> whose body is RETURN_IF_ERROR of \<open>f\<close>.\<close>

fun first_error :: "('a \<Rightarrow> status) \<Rightarrow> 'a list \<Rightarrow> status" where
  "first_error f [] = Status_Success"
| "first_error f (x # xs) = return_if_error (f x) (first_error f xs)"

lemma Status_sel [simp, status_simps]:
  "st_code (Status c m) = c" "st_msg (Status c m) = m"
  by (simp_all add: Status_def)

lemma Status_eq [simp]: "Status c m = Status c' m' \<longleftrightarrow> c = c' \<and> m = m'"
  by (simp add: Status_def)

lemma IsOk_Status [simp, status_simps]: "IsOk (Status c m) \<longleftrightarrow> c = SUCCESS"
  by (simp add: IsOk_def)

lemma IsOk_Success [simp, status_simps]: "IsOk Status_Success"
  by (simp add: Status_Success_def)

lemma Success_code [simp]: "st_code Status_Success = SUCCESS"
  by (simp add: Status_Success_def)

lemma IsOk_return_if_error [simp, status_simps]:
  "IsOk (return_if_error s k) \<longleftrightarrow> IsOk s \<and> IsOk k"
  by (auto simp: return_if_error_def IsOk_def)

lemma return_if_error_ok [simp]: "IsOk s \<Longrightarrow> return_if_error s k = k"
  by (simp add: return_if_error_def IsOk_def)

lemma return_if_error_err [simp]: "\<not> IsOk s \<Longrightarrow> return_if_error s k = s"
  by (simp add: return_if_error_def IsOk_def)

lemma return_if_error_val_Inr [simp, status_simps]:
  "return_if_error_val s k = Inr v \<longleftrightarrow> IsOk s \<and> k = Inr v"
  by (simp add: return_if_error_val_def IsOk_def)

lemma bind_status_simps [simp, status_simps]:
  "bind_status (Inl e) k = Inl e" "bind_status (Inr v) k = k v"
  by (simp_all add: bind_status_def)

lemma bind_status_Inr [status_simps]:
  "bind_status r k = Inr w \<longleftrightarrow> (\<exists>v. r = Inr v \<and> k v = Inr w)"
  by (cases r) auto

lemma IsOk_first_error [simp, status_simps]:
  "IsOk (first_error f xs) \<longleftrightarrow> (\<forall>x \<in> set xs. IsOk (f x))"
  by (induction xs) auto

section \<open>Translation and printing\<close>

definition FromTFError :: "int \<Rightarrow> request_status_code" where
  "FromTFError tf_code =
     (if tf_code = 0 then SUCCESS
      else if tf_code = 3 then INVALID_ARG
      else if tf_code = 5 then NOT_FOUND
      else if tf_code = 6 then NOT_FOUND
      else if tf_code = 14 then UNAVAILABLE
      else if tf_code = 13 then INTERNAL
      else UNKNOWN)"

definition AsString :: "status \<Rightarrow> string" where
  "AsString s =
     (case st_code s of
        INVALID \<Rightarrow> ''Invalid''
      | SUCCESS \<Rightarrow> ''OK''
      | UNKNOWN \<Rightarrow> ''Unknown''
      | INTERNAL \<Rightarrow> ''Internal''
      | NOT_FOUND \<Rightarrow> ''Not found''
      | INVALID_ARG \<Rightarrow> ''Invalid argument''
      | UNAVAILABLE \<Rightarrow> ''Unavailable''
      | UNSUPPORTED \<Rightarrow> ''Unsupported''
      | ALREADY_EXISTS \<Rightarrow> ''Already exists''
      | CODE_OTHER n \<Rightarrow> ''Unknown status code ('' @ show_int n @ '')'')
     @ '': '' @ st_msg s"

section \<open>RequestStatus messages\<close>

record request_status =
  rs_code :: request_status_code
  rs_msg :: string
  rs_server_id :: string
  rs_request_id :: "64 word"

definition request_status_clear :: request_status where
  "request_status_clear = \<lparr>rs_code = INVALID, rs_msg = [], rs_server_id = [], rs_request_id = 0\<rparr>"

definition RequestStatus_Create_msg ::
  "request_status \<Rightarrow> 64 word \<Rightarrow> string \<Rightarrow> request_status_code \<Rightarrow> string \<Rightarrow> request_status" where
  "RequestStatus_Create_msg rs request_id server_id code msg =
     request_status_clear\<lparr>rs_code := code, rs_msg := msg, rs_server_id := server_id,
       rs_request_id := request_id\<rparr>"

definition RequestStatus_Create_code ::
  "request_status \<Rightarrow> 64 word \<Rightarrow> string \<Rightarrow> request_status_code \<Rightarrow> request_status" where
  "RequestStatus_Create_code rs request_id server_id code =
     request_status_clear\<lparr>rs_code := code, rs_server_id := server_id, rs_request_id := request_id\<rparr>"

definition RequestStatus_Create_status ::
  "request_status \<Rightarrow> 64 word \<Rightarrow> string \<Rightarrow> status \<Rightarrow> request_status" where
  "RequestStatus_Create_status rs request_id server_id isstatus =
     rs\<lparr>rs_code := st_code isstatus, rs_msg := st_msg isstatus, rs_server_id := server_id,
       rs_request_id := request_id\<rparr>"

lemma FromTFError_total: "FromTFError n = SUCCESS \<longleftrightarrow> n = 0"
  by (simp add: FromTFError_def)

end
