(* ===== verification/Model_Config.thy ===== *)
theory Model_Config
  imports Status
begin

text \<open>
  \<open>src/core/model_config.proto\<close> and \<open>src/core/model_config.cc\<close>: the messages of a model
  configuration as records and datatypes, element counts and byte sizes of tensors, shape
  comparison, platform names and thread priorities.
\<close>

section \<open>Configuration messages\<close>

text \<open>Open proto3 enums carry a constructor for the values without a name.\<close>

datatype data_type =
    TYPE_INVALID | TYPE_BOOL | TYPE_UINT8 | TYPE_UINT16 | TYPE_UINT32 | TYPE_UINT64
  | TYPE_INT8 | TYPE_INT16 | TYPE_INT32 | TYPE_INT64 | TYPE_FP16 | TYPE_FP32 | TYPE_FP64
  | TYPE_STRING | TYPE_OTHER int

datatype input_format = FORMAT_NONE | FORMAT_NHWC | FORMAT_NCHW | FORMAT_OTHER int

datatype group_kind = KIND_AUTO | KIND_GPU | KIND_CPU | KIND_OTHER int

datatype model_priority = PRIORITY_DEFAULT | PRIORITY_MAX | PRIORITY_MIN | PRIORITY_OTHER int

datatype control_kind = CONTROL_SEQUENCE_START | CONTROL_SEQUENCE_READY | CONTROL_OTHER int

datatype version_policy =
    Policy_not_set | Policy_latest "32 word" | Policy_all | Policy_specific "int list"

record model_input =
  mi_name :: string
  mi_data_type :: data_type
  mi_format :: input_format
  mi_dims :: "int list"
  mi_reshape :: "int list option"

record model_output =
  mo_name :: string
  mo_data_type :: data_type
  mo_dims :: "int list"
  mo_reshape :: "int list option"
  mo_label_filename :: string

record instance_group =
  ig_name :: string
  ig_kind :: group_kind
  ig_count :: int
  ig_gpus :: "int list"

text \<open>Floats of control tensors are only copied bytewise: they are kept as their 32 bits.\<close>

record control =
  ct_kind :: control_kind
  ct_int32_false_true :: "32 word list"
  ct_fp32_false_true :: "32 word list"

record control_input =
  ci_name :: string
  ci_control :: "control list"

record dynamic_batching =
  db_preferred_batch_size :: "int list"
  db_max_queue_delay_microseconds :: "64 word"

record sequence_batching =
  sb_max_sequence_idle_microseconds :: "64 word"
  sb_control_input :: "control_input list"

text \<open>A proto map is an association list with distinct keys, in iteration order.\<close>

record ensemble_step =
  es_model_name :: string
  es_model_version :: int
  es_input_map :: "(string \<times> string) list"
  es_output_map :: "(string \<times> string) list"

datatype scheduling_choice =
    Scheduling_not_set
  | Dynamic_batching dynamic_batching
  | Sequence_batching sequence_batching
  | Ensemble_scheduling "ensemble_step list"

record model_config =
  mc_name :: string
  mc_platform :: string
  mc_version_policy :: "version_policy option"
  mc_max_batch_size :: int
  mc_input :: "model_input list"
  mc_output :: "model_output list"
  mc_optimization :: "model_priority option"
  mc_scheduling :: scheduling_choice
  mc_instance_group :: "instance_group list"
  mc_default_model_filename :: string

definition model_config_clear :: model_config where
  "model_config_clear =
     \<lparr>mc_name = [], mc_platform = [], mc_version_policy = None, mc_max_batch_size = 0,
      mc_input = [], mc_output = [], mc_optimization = None, mc_scheduling = Scheduling_not_set,
      mc_instance_group = [], mc_default_model_filename = []\<rparr>"

fun get_dynamic_batching :: "model_config \<Rightarrow> dynamic_batching option" where
  "get_dynamic_batching c =
     (case mc_scheduling c of Dynamic_batching d \<Rightarrow> Some d | _ \<Rightarrow> None)"

fun get_sequence_batching :: "model_config \<Rightarrow> sequence_batching option" where
  "get_sequence_batching c =
     (case mc_scheduling c of Sequence_batching s \<Rightarrow> Some s | _ \<Rightarrow> None)"

fun get_ensemble_scheduling :: "model_config \<Rightarrow> ensemble_step list option" where
  "get_ensemble_scheduling c =
     (case mc_scheduling c of Ensemble_scheduling e \<Rightarrow> Some e | _ \<Rightarrow> None)"

abbreviation WILDCARD_DIM :: int where "WILDCARD_DIM \<equiv> - 1"

text \<open>The number of a data type, as \<open>std::to_string\<close> prints it and as messages order it.\<close>

fun data_type_number :: "data_type \<Rightarrow> int" where
  "data_type_number TYPE_INVALID = 0"
| "data_type_number TYPE_BOOL = 1"
| "data_type_number TYPE_UINT8 = 2"
| "data_type_number TYPE_UINT16 = 3"
| "data_type_number TYPE_UINT32 = 4"
| "data_type_number TYPE_UINT64 = 5"
| "data_type_number TYPE_INT8 = 6"
| "data_type_number TYPE_INT16 = 7"
| "data_type_number TYPE_INT32 = 8"
| "data_type_number TYPE_INT64 = 9"
| "data_type_number TYPE_FP16 = 10"
| "data_type_number TYPE_FP32 = 11"
| "data_type_number TYPE_FP64 = 12"
| "data_type_number TYPE_STRING = 13"
| "data_type_number (TYPE_OTHER n) = n"

section \<open>Element counts and byte sizes\<close>

definition IsFixedSizeDataType :: "data_type \<Rightarrow> bool" where
  "IsFixedSizeDataType dtype \<longleftrightarrow> dtype \<noteq> TYPE_STRING"

fun GetDataTypeByteSize :: "data_type \<Rightarrow> int" where
  "GetDataTypeByteSize TYPE_BOOL = 1"
| "GetDataTypeByteSize TYPE_UINT8 = 1"
| "GetDataTypeByteSize TYPE_UINT16 = 2"
| "GetDataTypeByteSize TYPE_UINT32 = 4"
| "GetDataTypeByteSize TYPE_UINT64 = 8"
| "GetDataTypeByteSize TYPE_INT8 = 1"
| "GetDataTypeByteSize TYPE_INT16 = 2"
| "GetDataTypeByteSize TYPE_INT32 = 4"
| "GetDataTypeByteSize TYPE_INT64 = 8"
| "GetDataTypeByteSize TYPE_FP16 = 2"
| "GetDataTypeByteSize TYPE_FP32 = 4"
| "GetDataTypeByteSize TYPE_FP64 = 8"
| "GetDataTypeByteSize TYPE_STRING = 0"
| "GetDataTypeByteSize _ = 0"

text \<open>The loop of \<open>GetElementCount\<close>: its state is the flag \<open>first\<close> and the count so far.\<close>

fun element_count_loop :: "bool \<Rightarrow> int \<Rightarrow> int list \<Rightarrow> int" where
  "element_count_loop first cnt [] = cnt"
| "element_count_loop first cnt (dim # dims) =
     (if dim = WILDCARD_DIM then -1
      else if first then element_count_loop False dim dims
      else element_count_loop False (wrap_s64 (cnt * dim)) dims)"

definition GetElementCount :: "int list \<Rightarrow> int" where
  "GetElementCount dims = element_count_loop True 0 dims"

definition GetElementCount_input :: "model_input \<Rightarrow> int" where
  "GetElementCount_input mio = GetElementCount (mi_dims mio)"

definition GetElementCount_output :: "model_output \<Rightarrow> int" where
  "GetElementCount_output mio = GetElementCount (mo_dims mio)"

definition GetByteSize :: "data_type \<Rightarrow> int list \<Rightarrow> int" where
  "GetByteSize dtype dims =
     (let dt_size = GetDataTypeByteSize dtype in
      if dt_size = 0 then -1
      else (let cnt = GetElementCount dims in
            if cnt = -1 then -1 else wrap_s64 (cnt * dt_size)))"

definition GetByteSize_batch :: "int \<Rightarrow> data_type \<Rightarrow> int list \<Rightarrow> int" where
  "GetByteSize_batch batch_size dtype dims =
     (if length dims = 0 then wrap_s64 (batch_size * GetDataTypeByteSize dtype)
      else (let bs = GetByteSize dtype dims in
            if bs = -1 then -1 else wrap_s64 (max 1 batch_size * bs)))"

definition GetByteSize_input :: "model_input \<Rightarrow> int" where
  "GetByteSize_input mio = GetByteSize (mi_data_type mio) (mi_dims mio)"

definition GetByteSize_output :: "model_output \<Rightarrow> int" where
  "GetByteSize_output mio = GetByteSize (mo_data_type mio) (mo_dims mio)"

section \<open>Platforms and priorities\<close>

datatype platform =
    PLATFORM_UNKNOWN | PLATFORM_TENSORRT_PLAN | PLATFORM_TENSORFLOW_GRAPHDEF
  | PLATFORM_TENSORFLOW_SAVEDMODEL | PLATFORM_CAFFE2_NETDEF | PLATFORM_CUSTOM
  | PLATFORM_ENSEMBLE | PLATFORM_ONNXRUNTIME_ONNX | PLATFORM_PYTORCH_LIBTORCH

abbreviation "kTensorFlowGraphDefPlatform \<equiv> ''tensorflow_graphdef''"
abbreviation "kTensorFlowSavedModelPlatform \<equiv> ''tensorflow_savedmodel''"
abbreviation "kTensorRTPlanPlatform \<equiv> ''tensorrt_plan''"
abbreviation "kCaffe2NetDefPlatform \<equiv> ''caffe2_netdef''"
abbreviation "kPyTorchLibTorchPlatform \<equiv> ''pytorch_libtorch''"
abbreviation "kCustomPlatform \<equiv> ''custom''"
abbreviation "kEnsemblePlatform \<equiv> ''ensemble''"
abbreviation "kOnnxRuntimeOnnxPlatform \<equiv> ''onnxruntime_onnx''"

definition GetPlatform :: "string \<Rightarrow> platform" where
  "GetPlatform platform_str =
     (if platform_str = kTensorFlowGraphDefPlatform then PLATFORM_TENSORFLOW_GRAPHDEF
      else if platform_str = kTensorFlowSavedModelPlatform then PLATFORM_TENSORFLOW_SAVEDMODEL
      else if platform_str = kTensorRTPlanPlatform then PLATFORM_TENSORRT_PLAN
      else if platform_str = kCaffe2NetDefPlatform then PLATFORM_CAFFE2_NETDEF
      else if platform_str = kCustomPlatform then PLATFORM_CUSTOM
      else if platform_str = kEnsemblePlatform then PLATFORM_ENSEMBLE
      else if platform_str = kOnnxRuntimeOnnxPlatform then PLATFORM_ONNXRUNTIME_ONNX
      else if platform_str = kPyTorchLibTorchPlatform then PLATFORM_PYTORCH_LIBTORCH
      else PLATFORM_UNKNOWN)"

abbreviation SCHEDULER_DEFAULT_NICE :: int where "SCHEDULER_DEFAULT_NICE \<equiv> 5"

definition GetCpuNiceLevel :: "model_config \<Rightarrow> int" where
  "GetCpuNiceLevel config =
     (case mc_optimization config of
        None \<Rightarrow> SCHEDULER_DEFAULT_NICE
      | Some PRIORITY_MAX \<Rightarrow> 0
      | Some PRIORITY_MIN \<Rightarrow> 19
      | Some _ \<Rightarrow> SCHEDULER_DEFAULT_NICE)"

section \<open>Shapes\<close>

text \<open>The index loops of the two comparisons; \<open>fuel\<close>-free, as the index only grows to the size.\<close>

fun compare_dims_from :: "(int \<Rightarrow> int \<Rightarrow> bool) \<Rightarrow> int list \<Rightarrow> int list \<Rightarrow> bool" where
  "compare_dims_from ok (d0 # ds0) (d1 # ds1) =
     (if \<not> ok d0 d1 then False else compare_dims_from ok ds0 ds1)"
| "compare_dims_from ok _ _ = True"

definition CompareDims :: "int list \<Rightarrow> int list \<Rightarrow> bool" where
  "CompareDims dims0 dims1 =
     (if length dims0 \<noteq> length dims1 then False
      else compare_dims_from (\<lambda>d0 d1. \<not> (d0 \<noteq> d1)) dims0 dims1)"

definition CompareDimsWithWildcard :: "int list \<Rightarrow> int list \<Rightarrow> bool" where
  "CompareDimsWithWildcard dims0 dims1 =
     (if length dims0 \<noteq> length dims1 then False
      else compare_dims_from
             (\<lambda>d0 d1. \<not> (d0 \<noteq> WILDCARD_DIM \<and> d1 \<noteq> WILDCARD_DIM \<and> d0 \<noteq> d1)) dims0 dims1)"

fun dims_to_string_loop :: "bool \<Rightarrow> string \<Rightarrow> int list \<Rightarrow> string" where
  "dims_to_string_loop first str [] = str"
| "dims_to_string_loop first str (dim # dims) =
     dims_to_string_loop False ((if first then str else str @ '','') @ show_int dim) dims"

definition DimsListToString :: "int list \<Rightarrow> string" where
  "DimsListToString dims = dims_to_string_loop True ''['' dims @ '']''"

section \<open>Lemmas\<close>

subsection \<open>Element counts\<close>

lemma element_count_loop_wildcard: "WILDCARD_DIM \<in> set dims \<Longrightarrow> element_count_loop f c dims = -1"
  by (induction f c dims rule: element_count_loop.induct) auto

lemma prod_list_pos: "\<forall>d \<in> set dims. 1 \<le> d \<Longrightarrow> (1::int) \<le> prod_list dims"
proof (induction dims)
  case (Cons d ds)
  then have "1 * 1 \<le> d * prod_list ds"
    by (intro mult_mono) auto
  then show ?case by simp
qed simp

lemma element_count_loop_prod:
  "\<forall>d \<in> set dims. 1 \<le> d \<Longrightarrow> 1 \<le> c \<Longrightarrow> c * prod_list dims < 2 ^ 63 \<Longrightarrow>
   element_count_loop False c dims = c * prod_list dims"
proof (induction dims arbitrary: c)
  case (Cons d ds)
  have ge: "1 \<le> prod_list ds" using Cons.prems prod_list_pos by simp
  have cd: "1 \<le> c * d"
    using Cons.prems mult_mono [of 1 c 1 d] by simp
  have "c * d * 1 \<le> c * d * prod_list ds"
    using ge cd by (intro mult_left_mono) auto
  then have "c * d \<le> c * prod_list (d # ds)"
    by (simp add: mult.assoc)
  then have "c * d < 2 ^ 63"
    using Cons.prems(3) by (rule le_less_trans)
  then have "in_s64 (c * d)"
    using cd by (simp add: in_s64_def)
  then show ?case
    using Cons.prems Cons.IH [of "c * d"] cd by (simp add: mult.assoc)
qed simp

lemma GetElementCount_wildcard: "WILDCARD_DIM \<in> set dims \<Longrightarrow> GetElementCount dims = -1"
  by (simp add: GetElementCount_def element_count_loop_wildcard)

lemma GetElementCount_Nil [simp]: "GetElementCount [] = 0"
  by (simp add: GetElementCount_def)

lemma GetElementCount_prod:
  "dims \<noteq> [] \<Longrightarrow> \<forall>d \<in> set dims. 1 \<le> d \<Longrightarrow> prod_list dims < 2 ^ 63 \<Longrightarrow>
   GetElementCount dims = prod_list dims"
  by (cases dims) (auto simp: GetElementCount_def element_count_loop_prod)

lemma GetDataTypeByteSize_zero:
  "GetDataTypeByteSize t = 0 \<longleftrightarrow> t \<in> {TYPE_INVALID, TYPE_STRING} \<or> (\<exists>n. t = TYPE_OTHER n)"
  by (cases t) auto

lemma GetDataTypeByteSize_bounds: "0 \<le> GetDataTypeByteSize t \<and> GetDataTypeByteSize t \<le> 8"
  by (cases t) auto

subsection \<open>Shape comparison\<close>

lemma compare_dims_from_iff:
  "length xs = length ys \<Longrightarrow> compare_dims_from ok xs ys \<longleftrightarrow> list_all2 ok xs ys"
  by (induction xs ys rule: list_induct2) auto

lemma CompareDims_iff [simp]: "CompareDims xs ys \<longleftrightarrow> xs = ys"
  by (auto simp: CompareDims_def compare_dims_from_iff list_all2_eq [symmetric])

lemma CompareDimsWithWildcard_iff:
  "CompareDimsWithWildcard xs ys \<longleftrightarrow>
   list_all2 (\<lambda>d0 d1. d0 = WILDCARD_DIM \<or> d1 = WILDCARD_DIM \<or> d0 = d1) xs ys"
  by (auto simp: CompareDimsWithWildcard_def compare_dims_from_iff list_all2_conv_all_nth)

subsection \<open>Printed shapes\<close>

text \<open>The reader used to show that a printed shape determines the shape.\<close>

fun split_comma :: "string \<Rightarrow> string list" where
  "split_comma s =
     (let w = takeWhile (\<lambda>c. c \<noteq> CHR '','') s; r = dropWhile (\<lambda>c. c \<noteq> CHR '','') s
      in case r of [] \<Rightarrow> [w] | c # r' \<Rightarrow> w # (if length r' < length s then split_comma r' else []))"

declare split_comma.simps [simp del]

fun dims_text :: "int list \<Rightarrow> string" where
  "dims_text [] = []"
| "dims_text [d] = show_int d"
| "dims_text (d # e # ds) = show_int d @ '','' @ dims_text (e # ds)"

lemma dims_to_string_loop_False:
  "dims_to_string_loop False s ds = s @ concat (map (\<lambda>d. '','' @ show_int d) ds)"
  by (induction ds arbitrary: s) simp_all

lemma dims_text_concat: "dims_text (d # ds) = show_int d @ concat (map (\<lambda>d. '','' @ show_int d) ds)"
  by (induction ds arbitrary: d) simp_all

lemma DimsListToString_text: "DimsListToString dims = ''['' @ dims_text dims @ '']''"
proof (cases dims)
  case (Cons d ds)
  then show ?thesis
    by (simp add: DimsListToString_def dims_to_string_loop_False dims_text_concat
        del: dims_text.simps)
qed (simp add: DimsListToString_def)

lemma split_comma_text: "ds \<noteq> [] \<Longrightarrow> split_comma (dims_text ds) = map show_int ds"
proof (induction ds rule: dims_text.induct)
  case (2 d)
  have "\<forall>c \<in> set (show_int d). c \<noteq> CHR '',''"
    using show_int_no_comma [of d] by auto
  then have t: "takeWhile (\<lambda>c. c \<noteq> CHR '','') (show_int d) = show_int d"
    and r: "dropWhile (\<lambda>c. c \<noteq> CHR '','') (show_int d) = []"
    by (simp_all add: takeWhile_eq_all_conv dropWhile_eq_Nil_conv)
  show ?case
    by (subst split_comma.simps) (simp add: Let_def t r)
next
  case (3 d e ds)
  have "\<forall>c \<in> set (show_int d). c \<noteq> CHR '',''"
    using show_int_no_comma [of d] by auto
  then show ?case
    using 3 by (subst split_comma.simps) (simp add: Let_def takeWhile_append2 dropWhile_append2)
qed simp

lemma dims_text_inj: "dims_text xs = dims_text ys \<Longrightarrow> xs = ys"
proof -
  assume eq: "dims_text xs = dims_text ys"
  have ne: "ds \<noteq> [] \<Longrightarrow> dims_text ds \<noteq> []" for ds
    by (cases ds rule: dims_text.cases) auto
  show "xs = ys"
  proof (cases "xs = [] \<or> ys = []")
    case True
    then show ?thesis using eq ne by (metis dims_text.simps(1))
  next
    case False
    then have "map show_int xs = map show_int ys"
      using eq split_comma_text by metis
    then show ?thesis
      by (simp add: inj_map_eq_map inj_def show_int_inj)
  qed
qed

end
