(* ===== verification/Scheduler.thy ===== *)
theory Scheduler
  imports Model_Config
begin

text \<open>
  \<open>src/core/scheduler.h\<close>, the request header of \<open>src/core/api.proto\<close> and the input overrides of
  \<open>src/core/provider.h\<close>: the data both batch schedulers queue, and the completion of a batch
  the schedulers hand to the backend together with the payloads.
\<close>

section \<open>Requests\<close>

record request_input =
  ri_name :: string
  ri_dims :: "int list"
  ri_batch_byte_size :: "64 word"

record request_output =
  ro_name :: string
  ro_cls :: "32 word option"

record request_header =
  rh_id :: "64 word"
  rh_flags :: "32 word"
  rh_correlation_id :: "64 word"
  rh_batch_size :: "32 word"
  rh_input :: "request_input list"
  rh_output :: "request_output list"

record input_override =
  io_content :: "8 word list"
  io_dims :: "int list"
  io_datatype :: data_type

text \<open>\<open>InputOverrideMap\<close>: a map from tensor name; \<open>insert\<close> keeps an entry that exists.\<close>

type_synonym input_override_map = "(string \<times> input_override) list"

definition override_insert :: "string \<Rightarrow> input_override \<Rightarrow> input_override_map \<Rightarrow> input_override_map" where
  "override_insert k v m = (if k \<in> fst ` set m then m else m @ [(k, v)])"

text \<open>
  A request provider as the schedulers see it: the identity of the object, its model's name, the
  header and the overrides set on it.
\<close>

record request_provider =
  rp_id :: nat
  rp_model_name :: string
  rp_header :: request_header
  rp_overrides :: "input_override_map option"

definition SetInputOverride :: "input_override_map \<Rightarrow> request_provider \<Rightarrow> request_provider" where
  "SetInputOverride override rp = rp\<lparr>rp_overrides := Some override\<rparr>"

section \<open>Payloads\<close>

text \<open>
  \<open>Scheduler::Payload\<close>. Null pointers are \<open>None\<close>; statistics objects, response providers and
  completion functions are known by identity. The queue timer is its start time in nanoseconds.
\<close>

record payload =
  pl_queue_timer :: "64 word option"
  pl_stats :: "nat option"
  pl_request_provider :: "request_provider option"
  pl_response_provider :: "nat option"
  pl_complete_function :: "nat option"
  pl_status :: status

definition Payload_new ::
  "64 word option \<Rightarrow> nat option \<Rightarrow> request_provider option \<Rightarrow> nat option \<Rightarrow> nat option \<Rightarrow> payload" where
  "Payload_new timer stats rp resp complete =
     \<lparr>pl_queue_timer = timer, pl_stats = stats, pl_request_provider = rp,
      pl_response_provider = resp, pl_complete_function = complete, pl_status = Status_Success\<rparr>"

definition request_header_clear :: request_header where
  "request_header_clear =
     \<lparr>rh_id = 0, rh_flags = 0, rh_correlation_id = 0, rh_batch_size = 0, rh_input = [],
      rh_output = []\<rparr>"

text \<open>The header of a payload that has a provider.\<close>

definition pl_header :: "payload \<Rightarrow> request_header" where
  "pl_header p =
     (case pl_request_provider p of Some rp \<Rightarrow> rp_header rp | None \<Rightarrow> request_header_clear)"

section \<open>Completion of an executed batch\<close>

text \<open>The effects of \<open>OnCompleteQueuedPayloads\<close>, in order.\<close>

datatype completion_event =
    Set_execution_count nat nat
  | Run_complete_function nat status

text \<open>
  The loop both schedulers run over the payloads: the first successful payload that has statistics
  is counted as the one execution, and every completion function runs once.
\<close>

fun complete_loop :: "bool \<Rightarrow> status \<Rightarrow> payload list \<Rightarrow> completion_event list" where
  "complete_loop found_success st [] = []"
| "complete_loop found_success st (p # ps) =
     (let final_status = (if IsOk st then pl_status p else st);
          count = (\<not> found_success \<and> IsOk final_status \<and> pl_stats p \<noteq> None)
      in (if count then [Set_execution_count (the (pl_stats p)) 1] else [])
         @ (case pl_complete_function p of
              None \<Rightarrow> []
            | Some f \<Rightarrow> [Run_complete_function f final_status])
         @ complete_loop (found_success \<or> count) st ps)"

fun completed :: "completion_event list \<Rightarrow> (nat \<times> status) list" where
  "completed [] = []"
| "completed (Run_complete_function f st # es) = (f, st) # completed es"
| "completed (Set_execution_count n k # es) = completed es"

fun execution_counts :: "completion_event list \<Rightarrow> nat list" where
  "execution_counts [] = []"
| "execution_counts (Run_complete_function f st # es) = execution_counts es"
| "execution_counts (Set_execution_count n k # es) = n # execution_counts es"

lemma completed_append [simp]: "completed (xs @ ys) = completed xs @ completed ys"
  by (induction xs rule: completed.induct) auto

lemma execution_counts_append [simp]:
  "execution_counts (xs @ ys) = execution_counts xs @ execution_counts ys"
  by (induction xs rule: execution_counts.induct) auto

lemma completed_complete_loop:
  "completed (complete_loop fs st ps) =
   [(f, if IsOk st then pl_status p else st). p \<leftarrow> ps, f \<leftarrow> (case pl_complete_function p of None \<Rightarrow> [] | Some f \<Rightarrow> [f])]"
  by (induction ps arbitrary: fs) (auto simp: Let_def split: option.splits)

lemma execution_counts_found: "execution_counts (complete_loop True st ps) = []"
  by (induction ps) (auto simp: Let_def split: option.splits)

lemma execution_counts_le_1: "length (execution_counts (complete_loop fs st ps)) \<le> 1"
  by (induction ps arbitrary: fs) (auto simp: Let_def execution_counts_found split: option.splits)

lemma execution_counts_error: "\<not> IsOk st \<Longrightarrow> execution_counts (complete_loop fs st ps) = []"
  by (induction ps arbitrary: fs) (auto simp: Let_def split: option.splits)

lemma execution_counts_success:
  "p \<in> set ps \<Longrightarrow> IsOk st \<Longrightarrow> IsOk (pl_status p) \<Longrightarrow> pl_stats p \<noteq> None \<Longrightarrow>
   length (execution_counts (complete_loop False st ps)) = 1"
proof (induction ps)
  case (Cons q qs)
  show ?case
  proof (cases "IsOk (pl_status q) \<and> pl_stats q \<noteq> None")
    case True
    then show ?thesis
      using Cons.prems by (auto simp: Let_def execution_counts_found split: option.splits)
  next
    case False
    then show ?thesis
      using Cons by (auto simp: Let_def split: option.splits)
  qed
qed simp

end
