(* ===== verification/Dynamic_Batch.thy ===== *)
theory Dynamic_Batch
  imports Scheduler
begin

text \<open>
  \<open>src/core/dynamic_batch_scheduler.cc\<close>: the queue of requests, the choice of the next batch
  (\<open>GetDynamicBatch\<close>) and the critical section of the scheduler threads. The specification of
  the choice is \<open>greedy_cnt\<close> / \<open>best_cnt\<close>; the runs of the whole scheduler are \<open>dyn_step\<close>.
\<close>

section \<open>State\<close>

text \<open>\<open>std::set\<close> and \<open>unordered_map\<close> members: a list used through membership, and a map.\<close>

record dyn_sched =
  ds_scheduler_thread_cnt :: nat
  ds_idle_scheduler_thread_cnt :: nat
  ds_dynamic_batching_enabled :: bool
  ds_queue :: "payload list"
  ds_scheduler_threads_exit :: bool
  ds_max_preferred_batch_size :: nat
  ds_preferred_batch_sizes :: "int list"
  ds_pending_batch_delay_ns :: "64 word"
  ds_pending_batch_size :: nat
  ds_pending_batch_queue_cnt :: nat
  ds_need_pending_shape :: bool
  ds_pending_batch_shapes :: "string \<rightharpoonup> int list"

definition size_t_of_int32 :: "int \<Rightarrow> nat" where
  "size_t_of_int32 n = nat (wrap_u64 n)"

definition DynamicBatchScheduler :: "model_config \<Rightarrow> nat \<Rightarrow> dyn_sched" where
  "DynamicBatchScheduler config runner_cnt =
     (let need = list_ex (\<lambda>io. GetElementCount_input io = -1) (mc_input config);
          base = \<lparr>ds_scheduler_thread_cnt = runner_cnt, ds_idle_scheduler_thread_cnt = 0,
            ds_dynamic_batching_enabled = (get_dynamic_batching config \<noteq> None),
            ds_queue = [], ds_scheduler_threads_exit = False,
            ds_max_preferred_batch_size = 0, ds_preferred_batch_sizes = [],
            ds_pending_batch_delay_ns = 0, ds_pending_batch_size = 0,
            ds_pending_batch_queue_cnt = 0, ds_need_pending_shape = need,
            ds_pending_batch_shapes = Map.empty\<rparr>
      in case get_dynamic_batching config of
           None \<Rightarrow> base
         | Some db \<Rightarrow>
             base\<lparr>ds_max_preferred_batch_size :=
                    foldl (\<lambda>m size. max m (size_t_of_int32 size)) 0 (db_preferred_batch_size db),
                  ds_preferred_batch_sizes := db_preferred_batch_size db,
                  ds_pending_batch_delay_ns := db_max_queue_delay_microseconds db * 1000\<rparr>)"

section \<open>Operations\<close>

text \<open>\<open>Enqueue\<close>: the new state and whether an idle runner is woken. \<open>now\<close> starts the queue timer.\<close>

definition dyn_Enqueue ::
  "64 word \<Rightarrow> nat \<Rightarrow> request_provider \<Rightarrow> nat option \<Rightarrow> nat option \<Rightarrow> dyn_sched \<Rightarrow> dyn_sched \<times> bool" where
  "dyn_Enqueue now stats rp resp complete s =
     (let s' = s\<lparr>ds_queue := ds_queue s @ [Payload_new (Some now) (Some stats) (Some rp) resp complete]\<rparr>
      in (s', 0 < ds_idle_scheduler_thread_cnt s))"

fun emplace_shapes :: "request_input list \<Rightarrow> (string \<rightharpoonup> int list) \<Rightarrow> (string \<rightharpoonup> int list)" where
  "emplace_shapes [] m = m"
| "emplace_shapes (i # is) m =
     emplace_shapes is (case m (ri_name i) of None \<Rightarrow> m(ri_name i \<mapsto> ri_dims i) | Some _ \<Rightarrow> m)"

definition InitPendingShape :: "request_header \<Rightarrow> (string \<rightharpoonup> int list)" where
  "InitPendingShape request = emplace_shapes (rh_input request) Map.empty"

fun compare_inputs :: "(string \<rightharpoonup> int list) \<Rightarrow> request_input list \<Rightarrow> bool" where
  "compare_inputs shapes [] = True"
| "compare_inputs shapes (i # is) =
     (case shapes (ri_name i) of
        None \<Rightarrow> False
      | Some dims \<Rightarrow> if \<not> CompareDims dims (ri_dims i) then False else compare_inputs shapes is)"

definition CompareWithPendingShape :: "(string \<rightharpoonup> int list) \<Rightarrow> request_header \<Rightarrow> bool" where
  "CompareWithPendingShape shapes request = compare_inputs shapes (rh_input request)"

text \<open>The variables of the search loop in \<open>GetDynamicBatch\<close>.\<close>

record search =
  sr_send_now :: bool
  sr_best_preferred_batch_size :: nat
  sr_best_preferred_batch_cnt :: nat
  sr_search_batch_size :: nat
  sr_search_batch_cnt :: nat
  sr_shapes :: "string \<rightharpoonup> int list"

definition pl_batch_size :: "payload \<Rightarrow> nat" where
  "pl_batch_size p = unat (rh_batch_size (pl_header p))"

definition is_preferred :: "dyn_sched \<Rightarrow> nat \<Rightarrow> bool" where
  "is_preferred s n \<longleftrightarrow> wrap_s32 (int n) \<in> set (ds_preferred_batch_sizes s)"

text \<open>The end of the loop body: the request joins the batch.\<close>

definition search_take :: "dyn_sched \<Rightarrow> nat \<Rightarrow> search \<Rightarrow> search" where
  "search_take s batch_size r =
     (let size = sr_search_batch_size r + batch_size; cnt = sr_search_batch_cnt r + 1;
          r' = r\<lparr>sr_search_batch_size := size, sr_search_batch_cnt := cnt\<rparr>
      in if is_preferred s size
         then r'\<lparr>sr_best_preferred_batch_size := size, sr_best_preferred_batch_cnt := cnt\<rparr>
         else r')"

fun search_loop :: "dyn_sched \<Rightarrow> payload list \<Rightarrow> search \<Rightarrow> search" where
  "search_loop s [] r = r"
| "search_loop s (p # ps) r =
     (let batch_size = pl_batch_size p in
      if sr_search_batch_cnt r = 0 then
        search_loop s ps
          (search_take s batch_size
             (if ds_need_pending_shape s then r\<lparr>sr_shapes := InitPendingShape (pl_header p)\<rparr> else r))
      else if sr_search_batch_size r + batch_size > ds_max_preferred_batch_size s then
        r\<lparr>sr_send_now := True\<rparr>
      else if ds_need_pending_shape s \<and> \<not> CompareWithPendingShape (sr_shapes r) (pl_header p) then
        r\<lparr>sr_send_now := True\<rparr>
      else search_loop s ps (search_take s batch_size r))"

definition search_init :: "dyn_sched \<Rightarrow> search" where
  "search_init s =
     \<lparr>sr_send_now = False, sr_best_preferred_batch_size = 0, sr_best_preferred_batch_cnt = 0,
      sr_search_batch_size = ds_pending_batch_size s,
      sr_search_batch_cnt = ds_pending_batch_queue_cnt s,
      sr_shapes = ds_pending_batch_shapes s\<rparr>"

definition queue_front_timer :: "dyn_sched \<Rightarrow> 64 word" where
  "queue_front_timer s =
     (case ds_queue s of
        [] \<Rightarrow> 0
      | p # _ \<Rightarrow> (case pl_queue_timer p of None \<Rightarrow> 0 | Some t \<Rightarrow> t))"

definition GetDynamicBatch :: "64 word \<Rightarrow> dyn_sched \<Rightarrow> dyn_sched \<times> 64 word" where
  "GetDynamicBatch now s =
     (let r = search_loop s (drop (ds_pending_batch_queue_cnt s) (ds_queue s)) (search_init s);
          s1 = s\<lparr>ds_pending_batch_shapes := sr_shapes r\<rparr>
      in if sr_best_preferred_batch_size r \<noteq> 0 then
           (s1\<lparr>ds_pending_batch_size := sr_best_preferred_batch_size r,
               ds_pending_batch_queue_cnt := sr_best_preferred_batch_cnt r\<rparr>, 0)
         else
           (let s2 = s1\<lparr>ds_pending_batch_size := sr_search_batch_size r,
                        ds_pending_batch_queue_cnt := sr_search_batch_cnt r\<rparr>
            in if ds_pending_batch_queue_cnt s2 = 0 then (s2, 0)
               else if sr_send_now r \<or> ds_pending_batch_delay_ns s2 = 0 \<or>
                       ds_pending_batch_size s2 \<ge> ds_max_preferred_batch_size s2 then (s2, 0)
               else (let delay_ns = now - queue_front_timer s2
                     in if delay_ns \<ge> ds_pending_batch_delay_ns s2 then (s2, 0)
                        else (s2, (ds_pending_batch_delay_ns s2 - delay_ns) div 1000))))"

text \<open>
  One pass of a scheduler thread through its critical section. \<open>delay_cnt\<close> is the thread's local
  TRTSERVER_DELAY_SCHEDULER counter. The result is the state, the new \<open>delay_cnt\<close>, the payloads to
  execute (\<open>None\<close> for the null pointer), whether another thread is woken, and the microseconds to
  wait; a positive wait leaves the thread counted as idle until \<open>dyn_wait_over\<close>.
\<close>

record pass =
  ps_state :: dyn_sched
  ps_delay_cnt :: nat
  ps_payloads :: "payload list option"
  ps_wake_thread :: bool
  ps_wait_microseconds :: "64 word"

definition dyn_take_batch :: "dyn_sched \<Rightarrow> payload list \<times> dyn_sched" where
  "dyn_take_batch s =
     (take (ds_pending_batch_queue_cnt s) (ds_queue s),
      s\<lparr>ds_queue := drop (ds_pending_batch_queue_cnt s) (ds_queue s),
        ds_pending_batch_size := 0, ds_pending_batch_queue_cnt := 0,
        ds_pending_batch_shapes := Map.empty\<rparr>)"

definition dyn_select :: "64 word \<Rightarrow> nat \<Rightarrow> dyn_sched \<Rightarrow> pass" where
  "dyn_select now delay_cnt s =
     (if delay_cnt > 0 then
        \<lparr>ps_state = s, ps_delay_cnt = (if length (ds_queue s) \<ge> delay_cnt then 0 else delay_cnt),
         ps_payloads = None, ps_wake_thread = False, ps_wait_microseconds = 10 * 1000\<rparr>
      else if ds_queue s = [] then
        \<lparr>ps_state = s, ps_delay_cnt = delay_cnt, ps_payloads = None, ps_wake_thread = False,
         ps_wait_microseconds = 500 * 1000\<rparr>
      else if ds_dynamic_batching_enabled s then
        (let (s1, wait) = GetDynamicBatch now s in
         if wait = 0 then
           (let (batch, s2) = dyn_take_batch s1 in
            \<lparr>ps_state = s2, ps_delay_cnt = delay_cnt, ps_payloads = Some batch,
             ps_wake_thread = (ds_queue s2 \<noteq> [] \<and> ds_idle_scheduler_thread_cnt s2 > 0),
             ps_wait_microseconds = wait\<rparr>)
         else
           \<lparr>ps_state = s1, ps_delay_cnt = delay_cnt, ps_payloads = None, ps_wake_thread = False,
            ps_wait_microseconds = wait\<rparr>)
      else
        \<lparr>ps_state = s\<lparr>ds_queue := tl (ds_queue s)\<rparr>, ps_delay_cnt = delay_cnt,
         ps_payloads = Some [hd (ds_queue s)], ps_wake_thread = False, ps_wait_microseconds = 0\<rparr>)"

definition dyn_pass :: "64 word \<Rightarrow> nat \<Rightarrow> dyn_sched \<Rightarrow> pass" where
  "dyn_pass now delay_cnt s =
     (let r = dyn_select now delay_cnt s in
      if ps_wait_microseconds r > 0
      then r\<lparr>ps_state := (ps_state r)
               \<lparr>ds_idle_scheduler_thread_cnt := ds_idle_scheduler_thread_cnt (ps_state r) + 1\<rparr>\<rparr>
      else r)"

definition dyn_wait_over :: "dyn_sched \<Rightarrow> dyn_sched" where
  "dyn_wait_over s = s\<lparr>ds_idle_scheduler_thread_cnt := ds_idle_scheduler_thread_cnt s - 1\<rparr>"

text \<open>The lambda \<open>OnCompleteQueuedPayloads\<close> the batch is handed to the backend with.\<close>

definition dyn_OnComplete :: "status \<Rightarrow> payload list \<Rightarrow> completion_event list" where
  "dyn_OnComplete st payloads = complete_loop False st payloads"

section \<open>Specification of the choice\<close>

text \<open>Total batch size of the first \<open>k\<close> queued requests.\<close>

definition total :: "payload list \<Rightarrow> nat \<Rightarrow> nat" where
  "total q k = sum_list (map pl_batch_size (take k q))"

text \<open>Request \<open>j\<close> may join the batch of the requests before it.\<close>

definition may_join :: "dyn_sched \<Rightarrow> payload list \<Rightarrow> nat \<Rightarrow> bool" where
  "may_join s q j \<longleftrightarrow>
     j = 0 \<or>
     (total q (Suc j) \<le> ds_max_preferred_batch_size s \<and>
      (ds_need_pending_shape s \<longrightarrow>
         CompareWithPendingShape (InitPendingShape (pl_header (hd q))) (pl_header (q ! j))))"

text \<open>The first \<open>k\<close> requests form one batch.\<close>

definition admissible :: "dyn_sched \<Rightarrow> payload list \<Rightarrow> nat \<Rightarrow> bool" where
  "admissible s q k \<longleftrightarrow> k \<le> length q \<and> (\<forall>j < k. may_join s q j)"

text \<open>A prefix whose total size is one of the preferred sizes.\<close>

definition preferred_cnt :: "dyn_sched \<Rightarrow> payload list \<Rightarrow> nat \<Rightarrow> bool" where
  "preferred_cnt s q k \<longleftrightarrow> is_preferred s (total q k) \<and> total q k \<noteq> 0"

text \<open>
  What \<open>GetDynamicBatch\<close> has to choose: the longest admissible prefix of preferred size if there
  is one, and the longest admissible prefix otherwise.
\<close>

definition best_cnt :: "dyn_sched \<Rightarrow> payload list \<Rightarrow> nat \<Rightarrow> bool" where
  "best_cnt s q k \<longleftrightarrow>
     admissible s q k \<and> preferred_cnt s q k \<and>
     (\<forall>j. admissible s q j \<and> preferred_cnt s q j \<longrightarrow> j \<le> k)"

definition greedy_cnt :: "dyn_sched \<Rightarrow> payload list \<Rightarrow> nat \<Rightarrow> bool" where
  "greedy_cnt s q k \<longleftrightarrow>
     admissible s q k \<and> (\<forall>j. admissible s q j \<longrightarrow> j \<le> k) \<and>
     (\<forall>j. admissible s q j \<longrightarrow> \<not> preferred_cnt s q j)"

text \<open>
  The invariant of the pending batch between two passes: it is an admissible prefix of the queue,
  its size and shapes are those of that prefix, and no prefix of it has a preferred size.
\<close>

definition pending_ok :: "dyn_sched \<Rightarrow> bool" where
  "pending_ok s \<longleftrightarrow>
     (let q = ds_queue s; k = ds_pending_batch_queue_cnt s in
      admissible s q k \<and> ds_pending_batch_size s = total q k \<and>
      (\<forall>j \<le> k. \<not> preferred_cnt s q j) \<and>
      (k > 0 \<and> ds_need_pending_shape s \<longrightarrow>
         ds_pending_batch_shapes s = InitPendingShape (pl_header (hd q))))"

lemma total_0 [simp]: "total q 0 = 0"
  by (simp add: total_def)

lemma total_Suc: "k < length q \<Longrightarrow> total q (Suc k) = total q k + pl_batch_size (q ! k)"
  by (simp add: total_def take_Suc_conv_app_nth)

lemma total_append: "k \<le> length q \<Longrightarrow> total (q @ r) k = total q k"
  by (simp add: total_def)

lemma total_mono: "j \<le> k \<Longrightarrow> total q j \<le> total q k"
proof -
  assume "j \<le> k"
  then have "take k q = take j q @ drop j (take k q)"
    by (metis append_take_drop_id min.absorb1 take_take)
  then show ?thesis
    by (metis le_add1 map_append sum_list_append total_def)
qed

lemma admissible_0 [simp]: "admissible s q 0"
  by (simp add: admissible_def)

lemma admissible_downward: "admissible s q k \<Longrightarrow> j \<le> k \<Longrightarrow> admissible s q j"
  by (simp add: admissible_def)

lemma admissible_Suc:
  "admissible s q (Suc k) \<longleftrightarrow> admissible s q k \<and> k < length q \<and> may_join s q k"
  by (auto simp: admissible_def less_Suc_eq)

lemma admissible_maximal:
  "admissible s q k \<Longrightarrow> \<not> admissible s q (Suc k) \<Longrightarrow> admissible s q j \<Longrightarrow> j \<le> k"
  by (meson admissible_downward not_less_eq_eq)

lemma not_preferred_0 [simp]: "\<not> preferred_cnt s q 0"
  by (simp add: preferred_cnt_def)

text \<open>
  Loop invariant of the search: what has been examined is an admissible prefix, the best candidate
  is the longest preferred prefix of it (from the \<open>n\<close> requests pending before the search on).
\<close>

definition search_inv :: "dyn_sched \<Rightarrow> payload list \<Rightarrow> search \<Rightarrow> bool" where
  "search_inv s q r \<longleftrightarrow>
     (let k = sr_search_batch_cnt r; b = sr_best_preferred_batch_cnt r in
      admissible s q k \<and> sr_search_batch_size r = total q k \<and>
      b \<le> k \<and> sr_best_preferred_batch_size r = total q b \<and>
      (sr_best_preferred_batch_size r \<noteq> 0 \<longrightarrow> preferred_cnt s q b) \<and>
      (\<forall>j \<le> k. preferred_cnt s q j \<longrightarrow> j \<le> b) \<and>
      (k > 0 \<and> ds_need_pending_shape s \<longrightarrow> sr_shapes r = InitPendingShape (pl_header (hd q))))"

lemma search_take_sel [simp]:
  "sr_search_batch_cnt (search_take s n r) = Suc (sr_search_batch_cnt r)"
  "sr_search_batch_size (search_take s n r) = sr_search_batch_size r + n"
  "sr_shapes (search_take s n r) = sr_shapes r"
  "sr_send_now (search_take s n r) = sr_send_now r"
  "sr_best_preferred_batch_cnt (search_take s n r) =
     (if is_preferred s (sr_search_batch_size r + n) then Suc (sr_search_batch_cnt r)
      else sr_best_preferred_batch_cnt r)"
  "sr_best_preferred_batch_size (search_take s n r) =
     (if is_preferred s (sr_search_batch_size r + n) then sr_search_batch_size r + n
      else sr_best_preferred_batch_size r)"
  by (simp_all add: search_take_def Let_def)

lemma search_take_inv:
  assumes inv: "search_inv s q r" and k: "sr_search_batch_cnt r = k" "k < length q"
    and join: "may_join s q k"
    and shapes: "k = 0 \<Longrightarrow> ds_need_pending_shape s \<Longrightarrow> shp = InitPendingShape (pl_header (hd q))"
    and keep: "k \<noteq> 0 \<Longrightarrow> shp = sr_shapes r"
  shows "search_inv s q (search_take s (pl_batch_size (q ! k)) (r\<lparr>sr_shapes := shp\<rparr>))"
proof -
  let ?r = "search_take s (pl_batch_size (q ! k)) (r\<lparr>sr_shapes := shp\<rparr>)"
  have adm: "admissible s q k" and size: "sr_search_batch_size r = total q k"
    and best: "\<forall>j \<le> k. preferred_cnt s q j \<longrightarrow> j \<le> sr_best_preferred_batch_cnt r"
    and bk: "sr_best_preferred_batch_cnt r \<le> k"
    using inv k(1) by (auto simp: search_inv_def Let_def)
  have tot: "total q k + pl_batch_size (q ! k) = total q (Suc k)"
    using k(2) by (simp add: total_Suc)
  have "admissible s q (Suc k)"
    using adm join k(2) by (simp add: admissible_Suc)
  moreover have "\<forall>j \<le> Suc k. preferred_cnt s q j \<longrightarrow> j \<le> sr_best_preferred_batch_cnt ?r"
    using best bk by (auto simp: size tot k(1) le_Suc_eq preferred_cnt_def)
  ultimately show ?thesis
    using inv shapes keep k(1) bk
    by (auto simp: search_inv_def Let_def size tot preferred_cnt_def le_SucI)
qed

text \<open>The search keeps its invariant and stops exactly where the next request may not join.\<close>

lemma search_loop_inv:
  assumes "search_inv s q r" and "drop (sr_search_batch_cnt r) q = rest" and "\<not> sr_send_now r"
  shows "search_inv s q (search_loop s rest r) \<and>
         sr_search_batch_cnt r \<le> sr_search_batch_cnt (search_loop s rest r) \<and>
         (rest \<noteq> [] \<and> sr_search_batch_cnt r = 0 \<longrightarrow> 0 < sr_search_batch_cnt (search_loop s rest r)) \<and>
         \<not> admissible s q (Suc (sr_search_batch_cnt (search_loop s rest r))) \<and>
         (sr_send_now (search_loop s rest r) \<longleftrightarrow>
            sr_search_batch_cnt (search_loop s rest r) < length q)"
  using assms
proof (induction rest arbitrary: r)
  case Nil
  then show ?case
    by (auto simp: admissible_def search_inv_def Let_def)
next
  case (Cons p ps)
  define k where "k = sr_search_batch_cnt r"
  have klt: "k < length q" and p: "p = q ! k" and ps: "drop (Suc k) q = ps"
  proof -
    show "k < length q"
      using Cons.prems(2) by (metis drop_eq_Nil k_def leI list.distinct(1))
    then show "p = q ! k" "drop (Suc k) q = ps"
      using Cons.prems(2) by (metis Cons_nth_drop_Suc k_def list.inject)+
  qed
  have size: "sr_search_batch_size r = total q k" and adm: "admissible s q k"
    and shp: "k > 0 \<and> ds_need_pending_shape s \<longrightarrow> sr_shapes r = InitPendingShape (pl_header (hd q))"
    using Cons.prems(1) by (auto simp: search_inv_def Let_def k_def)
  have step: "?case" if join: "may_join s q k"
    and loop: "search_loop s (p # ps) r =
      search_loop s ps (search_take s (pl_batch_size p) (r\<lparr>sr_shapes := shp\<rparr>))"
    and sh: "k = 0 \<Longrightarrow> ds_need_pending_shape s \<Longrightarrow> shp = InitPendingShape (pl_header (hd q))"
      "k \<noteq> 0 \<Longrightarrow> shp = sr_shapes r" for shp
  proof -
    let ?r = "search_take s (pl_batch_size p) (r\<lparr>sr_shapes := shp\<rparr>)"
    have i: "search_inv s q ?r"
      using search_take_inv [OF Cons.prems(1), of k shp] klt join sh by (simp add: p k_def)
    have d: "drop (sr_search_batch_cnt ?r) q = ps" "\<not> sr_send_now ?r"
      using ps Cons.prems(3) by (simp_all add: k_def)
    show ?thesis
      unfolding loop using Cons.IH [OF i d] by (auto simp: k_def [symmetric])
  qed
  have stop: "?case" if nj: "\<not> may_join s q k"
    and loop: "search_loop s (p # ps) r = r\<lparr>sr_send_now := True\<rparr>"
    unfolding loop using nj klt Cons.prems(1)
    by (auto simp: admissible_Suc search_inv_def Let_def k_def may_join_def)
  show ?case
  proof (cases "k = 0")
    case True
    have "hd q = p"
      using True p klt by (simp add: hd_conv_nth)
    then show ?thesis
      using True by (intro step [of "if ds_need_pending_shape s then InitPendingShape (pl_header p)
        else sr_shapes r"]) (auto simp: may_join_def Let_def k_def)
  next
    case False
    have tot: "sr_search_batch_size r + pl_batch_size p = total q (Suc k)"
      using klt by (simp add: total_Suc size p)
    show ?thesis
    proof (cases "may_join s q k")
      case True
      then show ?thesis
        using False shp tot
        by (intro step [of "sr_shapes r"]) (auto simp: may_join_def Let_def k_def p)
    next
      case no: False
      then have "search_loop s (p # ps) r = r\<lparr>sr_send_now := True\<rparr>"
        using False shp tot by (auto simp: may_join_def Let_def k_def p)
      then show ?thesis using no stop by blast
    qed
  qed
qed

lemma search_init_inv: "pending_ok s \<Longrightarrow> search_inv s (ds_queue s) (search_init s)"
  by (auto simp: pending_ok_def search_inv_def search_init_def Let_def)

text \<open>What a call of \<open>GetDynamicBatch\<close> leaves behind, in terms of the specification.\<close>

lemma GetDynamicBatch_frame:
  "GetDynamicBatch now s = (s', w) \<Longrightarrow>
   ds_queue s' = ds_queue s \<and> ds_need_pending_shape s' = ds_need_pending_shape s \<and>
   ds_max_preferred_batch_size s' = ds_max_preferred_batch_size s \<and>
   ds_preferred_batch_sizes s' = ds_preferred_batch_sizes s \<and>
   ds_pending_batch_delay_ns s' = ds_pending_batch_delay_ns s \<and>
   ds_dynamic_batching_enabled s' = ds_dynamic_batching_enabled s \<and>
   ds_idle_scheduler_thread_cnt s' = ds_idle_scheduler_thread_cnt s"
  by (auto simp: GetDynamicBatch_def Let_def split: if_splits)

lemma admissible_cong:
  "ds_need_pending_shape s' = ds_need_pending_shape s \<Longrightarrow>
   ds_max_preferred_batch_size s' = ds_max_preferred_batch_size s \<Longrightarrow>
   admissible s' q k = admissible s q k"
  by (simp add: admissible_def may_join_def)

lemma preferred_cnt_cong:
  "ds_preferred_batch_sizes s' = ds_preferred_batch_sizes s \<Longrightarrow>
   preferred_cnt s' q k = preferred_cnt s q k"
  by (simp add: preferred_cnt_def is_preferred_def)

text \<open>The search that \<open>GetDynamicBatch\<close> runs, named.\<close>

definition the_search :: "dyn_sched \<Rightarrow> search" where
  "the_search s = search_loop s (drop (ds_pending_batch_queue_cnt s) (ds_queue s)) (search_init s)"

lemma the_search_facts:
  assumes "pending_ok s" and "ds_queue s \<noteq> []"
  shows "search_inv s (ds_queue s) (the_search s)"
    and "0 < sr_search_batch_cnt (the_search s)"
    and "\<not> admissible s (ds_queue s) (Suc (sr_search_batch_cnt (the_search s)))"
    and "sr_send_now (the_search s) \<longleftrightarrow> sr_search_batch_cnt (the_search s) < length (ds_queue s)"
proof -
  have i: "search_inv s (ds_queue s) (search_init s)"
    using assms(1) by (rule search_init_inv)
  have l: "drop (sr_search_batch_cnt (search_init s)) (ds_queue s) =
      drop (ds_pending_batch_queue_cnt s) (ds_queue s)" "\<not> sr_send_now (search_init s)"
    by (simp_all add: search_init_def)
  note L = search_loop_inv [OF i l, folded the_search_def]
  have "sr_search_batch_cnt (search_init s) \<le> length (ds_queue s)"
    using i by (auto simp: search_inv_def Let_def admissible_def)
  then have "drop (ds_pending_batch_queue_cnt s) (ds_queue s) \<noteq> [] \<or>
      0 < sr_search_batch_cnt (search_init s)"
    using assms(2) by (cases "ds_pending_batch_queue_cnt s") (auto simp: search_init_def)
  then show "0 < sr_search_batch_cnt (the_search s)"
    using L by (metis gr0I le_zero_eq)
  show "search_inv s (ds_queue s) (the_search s)"
    and "\<not> admissible s (ds_queue s) (Suc (sr_search_batch_cnt (the_search s)))"
    and "sr_send_now (the_search s) \<longleftrightarrow> sr_search_batch_cnt (the_search s) < length (ds_queue s)"
    using L by simp_all
qed

lemma the_search_best:
  assumes "pending_ok s" and "ds_queue s \<noteq> []" and "sr_best_preferred_batch_size (the_search s) \<noteq> 0"
  shows "best_cnt s (ds_queue s) (sr_best_preferred_batch_cnt (the_search s))"
proof -
  note F = the_search_facts [OF assms(1,2)]
  have "j \<le> sr_best_preferred_batch_cnt (the_search s)"
    if "admissible s (ds_queue s) j" "preferred_cnt s (ds_queue s) j" for j
  proof -
    have "j \<le> sr_search_batch_cnt (the_search s)"
      using F(1,3) that(1) by (auto simp: search_inv_def Let_def intro: admissible_maximal)
    then show ?thesis
      using F(1) that(2) by (auto simp: search_inv_def Let_def)
  qed
  then show ?thesis
    using F(1) assms(3)
    by (auto simp: best_cnt_def search_inv_def Let_def intro: admissible_downward)
qed

lemma the_search_greedy:
  assumes "pending_ok s" and "ds_queue s \<noteq> []" and "sr_best_preferred_batch_size (the_search s) = 0"
  shows "greedy_cnt s (ds_queue s) (sr_search_batch_cnt (the_search s))"
proof -
  note F = the_search_facts [OF assms(1,2)]
  have max: "j \<le> sr_search_batch_cnt (the_search s)" if "admissible s (ds_queue s) j" for j
    using F(1,3) that by (auto simp: search_inv_def Let_def intro: admissible_maximal)
  have np: "\<not> preferred_cnt s (ds_queue s) j" if "admissible s (ds_queue s) j" for j
  proof
    assume p: "preferred_cnt s (ds_queue s) j"
    have le: "j \<le> sr_best_preferred_batch_cnt (the_search s)"
      and tot: "total (ds_queue s) (sr_best_preferred_batch_cnt (the_search s)) = 0"
      using F(1) p max [OF that] assms(3) by (auto simp: search_inv_def Let_def)
    have "total (ds_queue s) j = 0"
      using total_mono [OF le, of "ds_queue s"] tot by simp
    then show False using p by (simp add: preferred_cnt_def)
  qed
  show ?thesis
    using F(1) max np by (auto simp: greedy_cnt_def search_inv_def Let_def)
qed

lemma GetDynamicBatch_best:
  assumes "sr_best_preferred_batch_size (the_search s) \<noteq> 0" and "GetDynamicBatch now s = (s', w)"
  shows "w = 0 \<and> ds_pending_batch_queue_cnt s' = sr_best_preferred_batch_cnt (the_search s)"
  using assms by (auto simp: GetDynamicBatch_def the_search_def Let_def)

lemma GetDynamicBatch_greedy:
  assumes "sr_best_preferred_batch_size (the_search s) = 0" and "GetDynamicBatch now s = (s', w)"
  shows "ds_pending_batch_queue_cnt s' = sr_search_batch_cnt (the_search s) \<and>
    ds_pending_batch_size s' = sr_search_batch_size (the_search s) \<and>
    ds_pending_batch_shapes s' = sr_shapes (the_search s)"
  using assms by (auto simp: GetDynamicBatch_def the_search_def Let_def split: if_splits)

lemma GetDynamicBatch_wait_greedy:
  assumes "GetDynamicBatch now s = (s', w)" and "w \<noteq> 0"
  shows "sr_best_preferred_batch_size (the_search s) = 0"
  using GetDynamicBatch_best [OF _ assms(1)] assms(2) by blast

text \<open>A wait keeps the invariant: the pending batch stays the greedy prefix.\<close>

lemma GetDynamicBatch_pending_ok:
  assumes "pending_ok s" and "ds_queue s \<noteq> []" and "GetDynamicBatch now s = (s', w)" and "w \<noteq> 0"
  shows "pending_ok s'"
proof -
  have z: "sr_best_preferred_batch_size (the_search s) = 0"
    using GetDynamicBatch_wait_greedy assms(3,4) .
  note G = GetDynamicBatch_greedy [OF z assms(3)] and F = the_search_facts [OF assms(1,2)]
    and R = the_search_greedy [OF assms(1,2) z] and E = GetDynamicBatch_frame [OF assms(3)]
  have "admissible s' q k = admissible s q k" "preferred_cnt s' q k = preferred_cnt s q k" for q k
    using E by (intro admissible_cong preferred_cnt_cong; simp)+
  then show ?thesis
    using G F R E
    by (auto simp: pending_ok_def Let_def search_inv_def greedy_cnt_def intro: admissible_downward)
qed

lemma dyn_take_batch_pending_ok: "pending_ok (snd (dyn_take_batch s))"
  by (simp add: pending_ok_def dyn_take_batch_def)

lemma admissible_append:
  "k \<le> length q \<Longrightarrow> admissible s (q @ r) k \<longleftrightarrow> admissible s q k"
  by (auto simp: admissible_def may_join_def total_append nth_append hd_append)

lemma pending_ok_enqueue:
  assumes "pending_ok s" shows "pending_ok (s\<lparr>ds_queue := ds_queue s @ r\<rparr>)"
proof -
  let ?s = "s\<lparr>ds_queue := ds_queue s @ r\<rparr>" and ?k = "ds_pending_batch_queue_cnt s"
  have k: "?k \<le> length (ds_queue s)"
    using assms by (simp add: pending_ok_def Let_def admissible_def)
  have "admissible ?s q j = admissible s q j" "preferred_cnt ?s q j = preferred_cnt s q j" for q j
    by (intro admissible_cong preferred_cnt_cong; simp)+
  moreover have "preferred_cnt s (ds_queue s @ r) j = preferred_cnt s (ds_queue s) j" if "j \<le> ?k" for j
    using that k by (simp add: preferred_cnt_def total_append)
  ultimately show ?thesis
    using assms k
    by (auto simp: pending_ok_def Let_def admissible_append total_append hd_append)
qed

section \<open>Runs of the scheduler\<close>

text \<open>
  The scheduler with its threads: \<open>dy_accepted\<close> and \<open>dy_dispatched\<close> record the payloads enqueued
  and the batches handed to the backend, \<open>dy_waiting\<close> the number of threads inside
  \<open>cv_.wait_for\<close>. A step is one critical section: an \<open>Enqueue\<close>, a pass of some thread, or the
  end of a wait; their order and the clock are arbitrary.
\<close>

record dyn_sys =
  dy_sched :: dyn_sched
  dy_accepted :: "payload list"
  dy_dispatched :: "payload list list"
  dy_waiting :: nat

definition dyn_start :: "model_config \<Rightarrow> nat \<Rightarrow> dyn_sys" where
  "dyn_start config runner_cnt =
     \<lparr>dy_sched = DynamicBatchScheduler config runner_cnt, dy_accepted = [], dy_dispatched = [],
      dy_waiting = 0\<rparr>"

inductive dyn_step :: "dyn_sys \<Rightarrow> dyn_sys \<Rightarrow> bool" where
  enqueue: "dyn_Enqueue now stats rp resp complete (dy_sched y) = (s', wake) \<Longrightarrow>
    dyn_step y (y\<lparr>dy_sched := s',
      dy_accepted := dy_accepted y @ [Payload_new (Some now) (Some stats) (Some rp) resp complete]\<rparr>)"
| run_pass: "dyn_pass now delay_cnt (dy_sched y) = r \<Longrightarrow>
    dyn_step y (y\<lparr>dy_sched := ps_state r,
      dy_dispatched := dy_dispatched y @ (case ps_payloads r of None \<Rightarrow> [] | Some b \<Rightarrow> [b]),
      dy_waiting := dy_waiting y + (if ps_wait_microseconds r > 0 then 1 else 0)\<rparr>)"
| wait_over: "0 < dy_waiting y \<Longrightarrow>
    dyn_step y (y\<lparr>dy_sched := dyn_wait_over (dy_sched y), dy_waiting := dy_waiting y - 1\<rparr>)"

text \<open>A batch the scheduler may hand to the backend.\<close>

definition batch_ok :: "dyn_sched \<Rightarrow> payload list \<Rightarrow> bool" where
  "batch_ok s b \<longleftrightarrow>
     b \<noteq> [] \<and> (if ds_dynamic_batching_enabled s then admissible s b (length b) else length b = 1)"

definition same_config :: "dyn_sched \<Rightarrow> dyn_sched \<Rightarrow> bool" where
  "same_config s s' \<longleftrightarrow>
     ds_need_pending_shape s' = ds_need_pending_shape s \<and>
     ds_max_preferred_batch_size s' = ds_max_preferred_batch_size s \<and>
     ds_preferred_batch_sizes s' = ds_preferred_batch_sizes s \<and>
     ds_pending_batch_delay_ns s' = ds_pending_batch_delay_ns s \<and>
     ds_dynamic_batching_enabled s' = ds_dynamic_batching_enabled s"

text \<open>Without dynamic batching there is never a pending batch.\<close>

definition plain_idle :: "dyn_sched \<Rightarrow> bool" where
  "plain_idle s \<longleftrightarrow> ds_dynamic_batching_enabled s \<or>
     ds_pending_batch_queue_cnt s = 0 \<and> ds_pending_batch_size s = 0"

definition dyn_inv :: "dyn_sched \<Rightarrow> dyn_sys \<Rightarrow> bool" where
  "dyn_inv c y \<longleftrightarrow>
     same_config c (dy_sched y) \<and> pending_ok (dy_sched y) \<and>
     dy_accepted y = concat (dy_dispatched y) @ ds_queue (dy_sched y) \<and>
     (\<forall>b \<in> set (dy_dispatched y). batch_ok c b) \<and>
     ds_idle_scheduler_thread_cnt (dy_sched y) = dy_waiting y \<and>
     plain_idle (dy_sched y)"

lemma same_config_admissible:
  "same_config s s' \<Longrightarrow> admissible s' q k = admissible s q k"
  "same_config s s' \<Longrightarrow> preferred_cnt s' q k = preferred_cnt s q k"
  by (intro admissible_cong preferred_cnt_cong; simp add: same_config_def)+

lemma batch_ok_cong: "same_config s s' \<Longrightarrow> batch_ok s' b = batch_ok s b"
  using same_config_admissible [of s s' b "length b"] by (simp add: batch_ok_def same_config_def)

lemma pending_ok_cong:
  "same_config s s' \<Longrightarrow> ds_queue s' = ds_queue s \<Longrightarrow>
   ds_pending_batch_queue_cnt s' = ds_pending_batch_queue_cnt s \<Longrightarrow>
   ds_pending_batch_size s' = ds_pending_batch_size s \<Longrightarrow>
   ds_pending_batch_shapes s' = ds_pending_batch_shapes s \<Longrightarrow> pending_ok s \<Longrightarrow> pending_ok s'"
  using same_config_admissible [of s s'] by (simp add: pending_ok_def same_config_def Let_def)

lemma pending_ok_empty:
  "ds_pending_batch_queue_cnt s = 0 \<Longrightarrow> ds_pending_batch_size s = 0 \<Longrightarrow> pending_ok s"
  by (simp add: pending_ok_def)

lemma DynamicBatchScheduler_init [simp]:
  "ds_queue (DynamicBatchScheduler c n) = []"
  "ds_pending_batch_queue_cnt (DynamicBatchScheduler c n) = 0"
  "ds_pending_batch_size (DynamicBatchScheduler c n) = 0"
  "ds_idle_scheduler_thread_cnt (DynamicBatchScheduler c n) = 0"
  by (simp_all add: DynamicBatchScheduler_def Let_def split: option.splits)

text \<open>\<open>GetDynamicBatch\<close> chooses a non-empty admissible prefix of the queue.\<close>

lemma GetDynamicBatch_admissible:
  assumes "pending_ok s" and "ds_queue s \<noteq> []" and "GetDynamicBatch now s = (s', w)"
  shows "admissible s (ds_queue s) (ds_pending_batch_queue_cnt s') \<and>
    0 < ds_pending_batch_queue_cnt s'"
proof (cases "sr_best_preferred_batch_size (the_search s) = 0")
  case True
  then show ?thesis
    using the_search_greedy [OF assms(1,2)] the_search_facts(2) [OF assms(1,2)]
      GetDynamicBatch_greedy [OF _ assms(3)] by (simp add: greedy_cnt_def)
next
  case False
  then have "best_cnt s (ds_queue s) (ds_pending_batch_queue_cnt s')"
    using the_search_best [OF assms(1,2)] GetDynamicBatch_best [OF _ assms(3)] by simp
  then show ?thesis
    by (cases "ds_pending_batch_queue_cnt s'") (auto simp: best_cnt_def)
qed

lemma admissible_take: "admissible s q k \<Longrightarrow> admissible s (take k q) k"
  by (metis admissible_append admissible_def append_take_drop_id length_take min.absorb2 order_refl)

text \<open>What a pass of a thread does to queue, pending batch and batches, in one lemma.\<close>

definition pass_ok :: "dyn_sched \<Rightarrow> pass \<Rightarrow> bool" where
  "pass_ok s r \<longleftrightarrow>
     same_config s (ps_state r) \<and> pending_ok (ps_state r) \<and>
     ds_idle_scheduler_thread_cnt (ps_state r) = ds_idle_scheduler_thread_cnt s \<and>
     plain_idle (ps_state r) \<and>
     (case ps_payloads r of
        None \<Rightarrow> ds_queue (ps_state r) = ds_queue s
      | Some b \<Rightarrow> ds_queue s = b @ ds_queue (ps_state r) \<and> batch_ok s b)"

lemma same_config_refl [simp]: "same_config s s"
  by (simp add: same_config_def)

lemma dyn_select_batch_ok:
  assumes ok: "pending_ok s" and ne: "ds_queue s \<noteq> []" and en: "ds_dynamic_batching_enabled s"
    and g: "GetDynamicBatch now s = (s1, w)" and t: "dyn_take_batch s1 = (b, s2)"
  shows "ds_queue s = b @ ds_queue s2 \<and> batch_ok s b \<and> same_config s s2 \<and> pending_ok s2 \<and>
    ds_idle_scheduler_thread_cnt s2 = ds_idle_scheduler_thread_cnt s"
proof -
  note F = GetDynamicBatch_frame [OF g] and A = GetDynamicBatch_admissible [OF ok ne g]
  let ?k = "ds_pending_batch_queue_cnt s1"
  have b: "b = take ?k (ds_queue s)" "ds_queue s2 = drop ?k (ds_queue s)"
    using t F by (auto simp: dyn_take_batch_def)
  have "length b = ?k"
    using A b by (simp add: admissible_def)
  then have "batch_ok s b"
    using A en b admissible_take [of s "ds_queue s" ?k] by (auto simp: batch_ok_def)
  moreover have "pending_ok s2"
    using dyn_take_batch_pending_ok [of s1] t by simp
  ultimately show ?thesis
    using b F t by (auto simp: same_config_def dyn_take_batch_def)
qed

lemma dyn_select_ok:
  assumes ok: "pending_ok s" and e: "plain_idle s"
  shows "pass_ok s (dyn_select now dc s)"
proof -
  consider (idle) "dc > 0 \<or> ds_queue s = []"
    | (dyn) "dc = 0" "ds_queue s \<noteq> []" "ds_dynamic_batching_enabled s"
    | (plain) "dc = 0" "ds_queue s \<noteq> []" "\<not> ds_dynamic_batching_enabled s"
    by blast
  then show ?thesis
  proof cases
    case idle
    then show ?thesis using ok e by (auto simp: pass_ok_def dyn_select_def)
  next
    case dyn
    obtain s1 w where g: "GetDynamicBatch now s = (s1, w)" by fastforce
    obtain b s2 where t: "dyn_take_batch s1 = (b, s2)" by fastforce
    show ?thesis
      using dyn g t dyn_select_batch_ok [OF ok dyn(2,3) g t] GetDynamicBatch_frame [OF g]
        GetDynamicBatch_pending_ok [OF ok dyn(2) g]
      by (auto simp: pass_ok_def dyn_select_def same_config_def plain_idle_def)
  next
    case plain
    then show ?thesis
      using e by (auto simp: pass_ok_def dyn_select_def same_config_def batch_ok_def
          plain_idle_def intro!: pending_ok_empty)
  qed
qed

lemma idle_cnt_irrelevant [simp]:
  "pending_ok (t\<lparr>ds_idle_scheduler_thread_cnt := n\<rparr>) = pending_ok t"
  "plain_idle (t\<lparr>ds_idle_scheduler_thread_cnt := n\<rparr>) = plain_idle t"
  by (simp_all add: pending_ok_def plain_idle_def Let_def admissible_def may_join_def
      preferred_cnt_def is_preferred_def)

lemma dyn_pass_ok:
  assumes "pending_ok s" and "plain_idle s" and "dyn_pass now dc s = r"
  shows "same_config s (ps_state r) \<and> pending_ok (ps_state r) \<and> plain_idle (ps_state r) \<and>
    ds_idle_scheduler_thread_cnt (ps_state r) =
      ds_idle_scheduler_thread_cnt s + (if ps_wait_microseconds r > 0 then 1 else 0) \<and>
    (case ps_payloads r of
       None \<Rightarrow> ds_queue (ps_state r) = ds_queue s
     | Some b \<Rightarrow> ds_queue s = b @ ds_queue (ps_state r) \<and> batch_ok s b)"
proof -
  have "pass_ok s (dyn_select now dc s)"
    using dyn_select_ok assms(1,2) .
  then show ?thesis
    using assms(3) by (auto simp: pass_ok_def dyn_pass_def Let_def same_config_def
        split: if_splits option.splits)
qed

lemma dyn_inv_start: "dyn_inv (DynamicBatchScheduler c n) (dyn_start c n)"
  by (auto simp: dyn_inv_def dyn_start_def plain_idle_def intro: pending_ok_empty)

lemma dyn_inv_step: "dyn_inv c y \<Longrightarrow> dyn_step y z \<Longrightarrow> dyn_inv c z"
proof (erule dyn_step.cases, goal_cases)
  case (1 now stats rp resp complete y' s' wake)
  then show ?case
    by (auto simp: dyn_inv_def dyn_Enqueue_def Let_def same_config_def plain_idle_def
        pending_ok_enqueue)
next
  case (2 now dc y' r)
  then have "same_config c (dy_sched y')" "pending_ok (dy_sched y')" "plain_idle (dy_sched y')"
    by (auto simp: dyn_inv_def)
  with 2 dyn_pass_ok [of "dy_sched y'" now dc r] batch_ok_cong [of c "dy_sched y'"] show ?case
    by (auto simp: dyn_inv_def same_config_def split: option.splits)
next
  case (3 y')
  then show ?case
    by (auto simp: dyn_inv_def dyn_wait_over_def same_config_def)
qed

interpretation dyn: transition_system
  "\<lambda>y. y = dyn_start c n" dyn_step "dyn_inv (DynamicBatchScheduler c n)"
  by unfold_locales (auto simp: dyn_inv_start dyn_inv_step)

text \<open>What an admissible batch means for the sizes and shapes of its requests.\<close>

lemma admissible_total: "admissible s b (length b) \<Longrightarrow> 1 < length b \<Longrightarrow>
    sum_list (map pl_batch_size b) \<le> ds_max_preferred_batch_size s"
proof -
  assume a: "admissible s b (length b)" "1 < length b"
  then have "may_join s b (length b - 1)"
    by (simp add: admissible_def)
  then show ?thesis
    using a(2) by (simp add: may_join_def total_def)
qed

lemma compare_inputs_iff:
  "compare_inputs m is \<longleftrightarrow> (\<forall>i \<in> set is. m (ri_name i) = Some (ri_dims i))"
  by (induction "is") (auto split: option.splits)

lemma emplace_shapes_Some:
  "emplace_shapes is m n = Some d \<Longrightarrow> m n = Some d \<or> (\<exists>i \<in> set is. ri_name i = n \<and> ri_dims i = d)"
  by (induction "is" arbitrary: m) (fastforce split: option.splits if_splits)+

lemma CompareWithPendingShape_same:
  "CompareWithPendingShape (InitPendingShape h0) h \<Longrightarrow> i \<in> set (rh_input h) \<Longrightarrow>
   \<exists>i0 \<in> set (rh_input h0). ri_name i0 = ri_name i \<and> ri_dims i0 = ri_dims i"
  using emplace_shapes_Some [of "rh_input h0" Map.empty "ri_name i" "ri_dims i"]
  by (auto simp: CompareWithPendingShape_def InitPendingShape_def compare_inputs_iff)

lemma admissible_shapes:
  assumes "admissible s b (length b)" and "ds_need_pending_shape s" and "p \<in> set b"
    and "i \<in> set (rh_input (pl_header p))"
  shows "\<exists>i0 \<in> set (rh_input (pl_header (hd b))). ri_name i0 = ri_name i \<and> ri_dims i0 = ri_dims i"
proof -
  obtain j where j: "j < length b" "b ! j = p"
    using assms(3) by (auto simp: in_set_conv_nth)
  show ?thesis
  proof (cases "j = 0")
    case True
    then have "hd b = p" using j by (simp add: hd_conv_nth)
    then show ?thesis using assms(4) by blast
  next
    case False
    then have "CompareWithPendingShape (InitPendingShape (pl_header (hd b))) (pl_header p)"
      using assms(1,2) j by (auto simp: admissible_def may_join_def)
    then show ?thesis using assms(4) CompareWithPendingShape_same by blast
  qed
qed

section \<open>Properties\<close>

text \<open>A small instance for the witnesses: preferred size 4, a delay of 2 microseconds, sizes 1, 3, 2.\<close>

definition ex_header :: "32 word \<Rightarrow> int list \<Rightarrow> request_header" where
  "ex_header n dims = request_header_clear\<lparr>rh_batch_size := n,
     rh_input := [\<lparr>ri_name = ''in'', ri_dims = dims, ri_batch_byte_size = 0\<rparr>]\<rparr>"

definition ex_provider :: "nat \<Rightarrow> 32 word \<Rightarrow> int list \<Rightarrow> request_provider" where
  "ex_provider i n dims = \<lparr>rp_id = i, rp_model_name = ''m'', rp_header = ex_header n dims, rp_overrides = None\<rparr>"

definition ex_payload :: "nat \<Rightarrow> 32 word \<Rightarrow> int list \<Rightarrow> payload" where
  "ex_payload i n dims = Payload_new (Some 1000) (Some i) (Some (ex_provider i n dims)) None (Some i)"

definition ex_config :: model_config where
  "ex_config = model_config_clear\<lparr>mc_max_batch_size := 8,
     mc_input := [\<lparr>mi_name = ''in'', mi_data_type = TYPE_FP32, mi_format = FORMAT_NONE,
       mi_dims = [-1], mi_reshape = None\<rparr>],
     mc_scheduling := Dynamic_batching
       \<lparr>db_preferred_batch_size = [4], db_max_queue_delay_microseconds = 2\<rparr>\<rparr>"

definition ex_sched :: dyn_sched where
  "ex_sched = (DynamicBatchScheduler ex_config 1)
     \<lparr>ds_queue := [ex_payload 0 1 [2], ex_payload 1 3 [2], ex_payload 2 2 [2]]\<rparr>"

lemma ex_sched_ok: "pending_ok ex_sched \<and> ds_queue ex_sched \<noteq> []"
  by (auto simp: ex_sched_def intro: pending_ok_empty)

text \<open>Claim C2. \<open>GetDynamicBatch\<close> implements the specification of dynamic batching: on a non-empty
  queue it selects the longest prefix of joinable requests (total size within the largest preferred
  size, same input shapes) whose size is a preferred one, and sends it at once; if no prefix has a
  preferred size it selects the longest joinable prefix.\<close>

theorem GetDynamicBatch_selects:
  assumes "pending_ok s" and "ds_queue s \<noteq> []" and "GetDynamicBatch now s = (s', w)"
  shows "best_cnt s (ds_queue s) (ds_pending_batch_queue_cnt s') \<and> w = 0 \<or>
         greedy_cnt s (ds_queue s) (ds_pending_batch_queue_cnt s')"
proof (cases "sr_best_preferred_batch_size (the_search s) = 0")
  case True
  then show ?thesis
    using the_search_greedy [OF assms(1,2)] GetDynamicBatch_greedy [OF _ assms(3)] by simp
next
  case False
  then show ?thesis
    using the_search_best [OF assms(1,2)] GetDynamicBatch_best [OF _ assms(3)] by simp
qed

theorem GetDynamicBatch_selects_witness:
  "best_cnt ex_sched (ds_queue ex_sched)
     (ds_pending_batch_queue_cnt (fst (GetDynamicBatch 2000 ex_sched)))
   \<and> ds_pending_batch_queue_cnt (fst (GetDynamicBatch 2000 ex_sched)) = 2
   \<or> greedy_cnt ex_sched (ds_queue ex_sched)
     (ds_pending_batch_queue_cnt (fst (GetDynamicBatch 2000 ex_sched)))"
proof -
  have "ds_pending_batch_queue_cnt (fst (GetDynamicBatch 2000 ex_sched)) = 2"
    by code_simp
  then show ?thesis
    using GetDynamicBatch_selects [of ex_sched 2000] ex_sched_ok by (metis prod.collapse)
qed

text \<open>A run for the witnesses: two requests are enqueued, and a thread's pass dispatches them.\<close>

definition dy_do_enqueue :: "64 word \<Rightarrow> nat \<Rightarrow> request_provider \<Rightarrow> dyn_sys \<Rightarrow> dyn_sys" where
  "dy_do_enqueue now i rp y =
     y\<lparr>dy_sched := fst (dyn_Enqueue now i rp None (Some i) (dy_sched y)),
       dy_accepted := dy_accepted y @ [Payload_new (Some now) (Some i) (Some rp) None (Some i)]\<rparr>"

definition dy_do_pass :: "64 word \<Rightarrow> dyn_sys \<Rightarrow> dyn_sys" where
  "dy_do_pass now y =
     (let r = dyn_pass now 0 (dy_sched y) in
      y\<lparr>dy_sched := ps_state r,
        dy_dispatched := dy_dispatched y @ (case ps_payloads r of None \<Rightarrow> [] | Some b \<Rightarrow> [b]),
        dy_waiting := dy_waiting y + (if ps_wait_microseconds r > 0 then 1 else 0)\<rparr>)"

definition ex_run :: dyn_sys where
  "ex_run = dy_do_pass 9 (dy_do_enqueue 3 1 (ex_provider 1 3 [2])
     (dy_do_enqueue 2 0 (ex_provider 0 1 [2]) (dyn_start ex_config 1)))"

lemma dy_do_steps: "dyn_step y (dy_do_enqueue now i rp y)" "dyn_step y (dy_do_pass now y)"
  unfolding dy_do_enqueue_def dy_do_pass_def Let_def
  by (rule dyn_step.enqueue [OF prod.collapse [symmetric]], rule dyn_step.run_pass [OF refl])

lemma ex_run_reachable: "dyn_step\<^sup>*\<^sup>* (dyn_start ex_config 1) ex_run"
  unfolding ex_run_def
  by (rule rtranclp.rtrancl_into_rtrancl [rotated], rule dy_do_steps(2),
      rule rtranclp.rtrancl_into_rtrancl [rotated], rule dy_do_steps(1),
      rule rtranclp.rtrancl_into_rtrancl [rotated], rule dy_do_steps(1), rule rtranclp.rtrancl_refl)

text \<open>Claim C3. Every batch a run of the dynamic batch scheduler hands to the backend is non-empty,
  holds a single request when dynamic batching is off, and when it is on a batch of several
  requests never exceeds the largest preferred batch size; for a model with variable-size inputs
  every input tensor of every request in the batch has the shape it has in the first request.\<close>

theorem dyn_run_batches:
  assumes "dyn_step\<^sup>*\<^sup>* (dyn_start config n) y" and "b \<in> set (dy_dispatched y)"
    and "s = DynamicBatchScheduler config n"
  shows "b \<noteq> [] \<and>
    (\<not> ds_dynamic_batching_enabled s \<longrightarrow> length b = 1) \<and>
    (1 < length b \<longrightarrow> sum_list (map pl_batch_size b) \<le> ds_max_preferred_batch_size s) \<and>
    (ds_dynamic_batching_enabled s \<and> ds_need_pending_shape s \<longrightarrow>
      (\<forall>p \<in> set b. \<forall>i \<in> set (rh_input (pl_header p)).
         \<exists>i0 \<in> set (rh_input (pl_header (hd b))). ri_name i0 = ri_name i \<and> ri_dims i0 = ri_dims i))"
proof -
  have "dyn_inv s y"
    using dyn.reachable_inv [OF _ assms(1)] assms(3) by simp
  then have "batch_ok s b"
    using assms(2) by (simp add: dyn_inv_def)
  then show ?thesis
    using admissible_total [of s b] admissible_shapes [of s b] by (auto simp: batch_ok_def split: if_splits)
qed

theorem dyn_run_batches_witness:
  "dy_dispatched ex_run \<noteq> [] \<and> length (hd (dy_dispatched ex_run)) = 2 \<and>
   sum_list (map pl_batch_size (hd (dy_dispatched ex_run)))
     \<le> ds_max_preferred_batch_size (DynamicBatchScheduler ex_config 1)"
proof -
  have "length (dy_dispatched ex_run) = 1" and two: "length (hd (dy_dispatched ex_run)) = 2"
    by code_simp+
  then have "dy_dispatched ex_run \<noteq> []"
    by (metis length_0_conv zero_neq_one)
  then show ?thesis
    using dyn_run_batches [OF ex_run_reachable _ refl, of "hd (dy_dispatched ex_run)"] two by simp
qed

text \<open>Claim C7. No request is lost, duplicated or reordered: in every state a run reaches, the
  requests accepted by \<open>Enqueue\<close> are exactly those of the dispatched batches, in order, followed by
  the queue; and the idle counter is the number of threads waiting on the condition variable.\<close>

theorem dyn_run_fifo:
  assumes "dyn_step\<^sup>*\<^sup>* (dyn_start config n) y"
  shows "dy_accepted y = concat (dy_dispatched y) @ ds_queue (dy_sched y) \<and>
    ds_idle_scheduler_thread_cnt (dy_sched y) = dy_waiting y"
  using dyn.reachable_inv [OF _ assms] by (simp add: dyn_inv_def)

theorem dyn_run_fifo_witness:
  "map pl_complete_function (dy_accepted ex_run) = [Some 0, Some 1] \<and>
   dy_accepted ex_run = concat (dy_dispatched ex_run) @ ds_queue (dy_sched ex_run)"
proof
  show "map pl_complete_function (dy_accepted ex_run) = [Some 0, Some 1]"
    by code_simp
  show "dy_accepted ex_run = concat (dy_dispatched ex_run) @ ds_queue (dy_sched ex_run)"
    using dyn_run_fifo [OF ex_run_reachable] by blast
qed

text \<open>Claim C27. A thread whose pass finds the oldest request queued for at least the configured delay
  dispatches a batch; and when it decides to wait instead, the delay of the oldest request has not
  expired and the wait ends no later than the delay does.\<close>

theorem dyn_pass_deadline:
  assumes "pending_ok s" and "plain_idle s" and "ds_queue s \<noteq> []" and "dyn_pass now 0 s = r"
  shows "(ds_pending_batch_delay_ns s \<le> now - queue_front_timer s \<longrightarrow> ps_payloads r \<noteq> None) \<and>
    (ps_payloads r = None \<longrightarrow>
      now - queue_front_timer s < ds_pending_batch_delay_ns s \<and>
      unat (ps_wait_microseconds r) * 1000 \<le>
        unat (ds_pending_batch_delay_ns s - (now - queue_front_timer s)))"
proof -
  obtain s1 w where g: "GetDynamicBatch now s = (s1, w)" by fastforce
  note F = GetDynamicBatch_frame [OF g]
  have q: "queue_front_timer s1 = queue_front_timer s"
    using F by (simp add: queue_front_timer_def)
  have w: "w \<noteq> 0 \<Longrightarrow> now - queue_front_timer s < ds_pending_batch_delay_ns s \<and>
      w = (ds_pending_batch_delay_ns s - (now - queue_front_timer s)) div 1000"
    using g by (auto simp: GetDynamicBatch_def Let_def queue_front_timer_def not_le split: if_splits)
  have div: "unat (x div 1000) * 1000 \<le> unat x" for x :: "64 word"
    by (simp add: unat_div)
  have "ps_payloads r = None \<longleftrightarrow> ds_dynamic_batching_enabled s \<and> w \<noteq> 0"
    and "ps_payloads r = None \<Longrightarrow> ps_wait_microseconds r = w"
    using assms(3,4) g by (auto simp: dyn_pass_def dyn_select_def Let_def split: prod.splits if_splits)
  then show ?thesis
    using w div by (auto simp: not_le [symmetric])
qed

text \<open>One request of size 1, queued 500 nanoseconds before the clock of the pass.\<close>

definition ex_wait :: dyn_sched where
  "ex_wait = (DynamicBatchScheduler ex_config 1)\<lparr>ds_queue := [ex_payload 0 1 [2]]\<rparr>"

lemma ex_wait_ok: "pending_ok ex_wait" "plain_idle ex_wait" "ds_queue ex_wait \<noteq> []"
  by (auto simp: ex_wait_def plain_idle_def intro: pending_ok_empty)

theorem dyn_pass_deadline_witness:
  "ps_payloads (dyn_pass 4000 0 ex_wait) \<noteq> None \<and>
   ps_wait_microseconds (dyn_pass 1500 0 ex_wait) = 1 \<and> (1500 :: 64 word) - queue_front_timer ex_wait < 2000"
proof -
  have d: "ds_pending_batch_delay_ns ex_wait = 2000" "queue_front_timer ex_wait = 1000"
    by code_simp+
  have n: "ps_payloads (dyn_pass 1500 0 ex_wait) = None \<and> ps_wait_microseconds (dyn_pass 1500 0 ex_wait) = 1"
    by code_simp
  show ?thesis
    using dyn_pass_deadline [OF ex_wait_ok refl, of 4000] dyn_pass_deadline [OF ex_wait_ok refl, of 1500]
      n d by simp
qed

text \<open>A pending batch is sent up to one microsecond before its queue delay expires: when less
  than 1000 nanoseconds of the delay remain, the wait \<open>GetDynamicBatch\<close> computes is rounded to 0,
  the value that means send now, although the comment above the return announces a non-zero wait.\<close>

theorem GetDynamicBatch_sends_early:
  assumes "now - queue_front_timer s < ds_pending_batch_delay_ns s"
    and "unat (ds_pending_batch_delay_ns s - (now - queue_front_timer s)) < 1000"
  shows "snd (GetDynamicBatch now s) = 0"
proof -
  have "x div 1000 = 0" if "unat x < 1000" for x :: "64 word"
    using that by (simp add: word_unat_eq_iff unat_div)
  then show ?thesis
    using assms(2) by (auto simp: GetDynamicBatch_def Let_def queue_front_timer_def)
qed

theorem GetDynamicBatch_sends_early_witness:
  "snd (GetDynamicBatch 2500 ex_wait) = 0 \<and>
   (2500 :: 64 word) - queue_front_timer ex_wait < ds_pending_batch_delay_ns ex_wait"
proof -
  have d: "ds_pending_batch_delay_ns ex_wait = 2000" "queue_front_timer ex_wait = 1000"
    by code_simp+
  show ?thesis
    using GetDynamicBatch_sends_early [of 2500 ex_wait] d by simp
qed

text \<open>When the backend completes a batch, every request of it that has a completion function
  gets it called exactly once, in queue order, with the request's own status if the batch succeeded
  and with the batch's error otherwise; the batch is counted as one execution, in the first
  successful request, and a failed batch is not counted.\<close>

theorem dyn_OnComplete_completes:
  "completed (dyn_OnComplete st ps) =
     [(f, if IsOk st then pl_status p else st).
        p \<leftarrow> ps, f \<leftarrow> (case pl_complete_function p of None \<Rightarrow> [] | Some f \<Rightarrow> [f])] \<and>
   length (execution_counts (dyn_OnComplete st ps)) =
     (if IsOk st \<and> list_ex (\<lambda>p. IsOk (pl_status p) \<and> pl_stats p \<noteq> None) ps then 1 else 0)"
proof (intro conjI)
  show "completed (dyn_OnComplete st ps) =
      [(f, if IsOk st then pl_status p else st).
        p \<leftarrow> ps, f \<leftarrow> (case pl_complete_function p of None \<Rightarrow> [] | Some f \<Rightarrow> [f])]"
    by (simp add: dyn_OnComplete_def completed_complete_loop)
  have "execution_counts (complete_loop fs st ps) = []"
    if "\<not> list_ex (\<lambda>p. IsOk (pl_status p) \<and> pl_stats p \<noteq> None) ps" for fs
    using that by (induction ps arbitrary: fs) (auto simp: Let_def execution_counts_error split: option.splits)
  then show "length (execution_counts (dyn_OnComplete st ps)) =
      (if IsOk st \<and> list_ex (\<lambda>p. IsOk (pl_status p) \<and> pl_stats p \<noteq> None) ps then 1 else 0)"
    using execution_counts_success execution_counts_error
    by (auto simp: dyn_OnComplete_def list_ex_iff)
qed

end
