(* ===== verification/Paths.thy ===== *)
theory Paths
  imports Status
begin

text \<open>
  The path functions of \<open>src/core/filesystem.cc\<close>. Positions in a string are list indices; the two
  backward scans are recursive on the position.
\<close>

definition IsAbsolutePath :: "string \<Rightarrow> bool" where
  "IsAbsolutePath path \<longleftrightarrow> path \<noteq> [] \<and> path ! 0 = CHR ''/''"

fun join_segments :: "string \<Rightarrow> string list \<Rightarrow> string" where
  "join_segments joined [] = joined"
| "join_segments joined (seg # segs) =
     join_segments
       (if joined = [] then seg
        else if IsAbsolutePath seg then
          (if joined ! (length joined - 1) = CHR ''/'' then joined @ drop 1 seg else joined @ seg)
        else (if joined ! (length joined - 1) \<noteq> CHR ''/'' then joined @ ''/'' else joined) @ seg)
       segs"

definition JoinPath :: "string list \<Rightarrow> string" where
  "JoinPath segments = join_segments [] segments"

text \<open>The loop that steps back over trailing slashes, and \<open>find_last_of\<close> from a position down.\<close>

fun skip_slashes :: "string \<Rightarrow> nat \<Rightarrow> nat" where
  "skip_slashes path 0 = 0"
| "skip_slashes path (Suc n) =
     (if path ! Suc n = CHR ''/'' then skip_slashes path n else Suc n)"

fun find_last_slash :: "string \<Rightarrow> nat \<Rightarrow> nat option" where
  "find_last_slash path 0 = (if path ! 0 = CHR ''/'' then Some 0 else None)"
| "find_last_slash path (Suc n) =
     (if path ! Suc n = CHR ''/'' then Some (Suc n) else find_last_slash path n)"

definition BaseName :: "string \<Rightarrow> string" where
  "BaseName path =
     (if path = [] then path
      else (let last = skip_slashes path (length path - 1) in
            if path ! last = CHR ''/'' then []
            else (case find_last_slash path last of
                    None \<Rightarrow> take (last + 1) path
                  | Some idx \<Rightarrow> take (last - idx) (drop (idx + 1) path))))"

definition DirName :: "string \<Rightarrow> string" where
  "DirName path =
     (if path = [] then path
      else (let last = skip_slashes path (length path - 1) in
            if path ! last = CHR ''/'' then ''/''
            else (case find_last_slash path last of
                    None \<Rightarrow> ''.''
                  | Some idx \<Rightarrow> if idx = 0 then ''/'' else take idx path)))"

section \<open>Joining a name to a directory and splitting it off again\<close>

lemma skip_slashes_stop: "path ! n \<noteq> CHR ''/'' \<Longrightarrow> skip_slashes path n = n"
  by (cases n) auto

lemma find_last_slash_at:
  "m \<le> n \<Longrightarrow> path ! m = CHR ''/'' \<Longrightarrow> \<forall>i. m < i \<and> i \<le> n \<longrightarrow> path ! i \<noteq> CHR ''/'' \<Longrightarrow>
   find_last_slash path n = Some m"
proof (induction n)
  case (Suc n)
  then show ?case by (cases "m = Suc n") (auto simp: le_Suc_eq)
qed simp

text \<open>A directory with a trailing slash joined to a plain name.\<close>

lemma split_joined:
  assumes "name \<noteq> []" and "CHR ''/'' \<notin> set name" and "p = d @ ''/'' @ name"
  shows "BaseName p = name" and "DirName p = (if d = [] then ''/'' else d)"
proof -
  have len: "length p - 1 = length d + length name"
    using assms(3) by simp
  have nth: "p ! i \<noteq> CHR ''/''" if "length d < i" "i \<le> length d + length name" for i
  proof -
    have "p ! i = name ! (i - length d - 1)"
      using that assms(3) by (simp add: nth_append nth_Cons')
    moreover have "i - length d - 1 < length name"
      using that assms(1) by (cases name) auto
    ultimately show ?thesis using assms(2) by (metis nth_mem)
  qed
  have last: "skip_slashes p (length p - 1) = length d + length name"
    unfolding len using nth [of "length d + length name"] assms(1) by (intro skip_slashes_stop) simp
  have idx: "find_last_slash p (length d + length name) = Some (length d)"
    using nth assms(3) by (intro find_last_slash_at) (auto simp: nth_append)
  have nl: "p ! (length d + length name) \<noteq> CHR ''/''"
    using nth [of "length d + length name"] assms(1) by simp
  have ne: "p \<noteq> []" using assms(3) by simp
  have "BaseName p = take (length name) (drop (length d + 1) p)"
    using idx nl ne by (simp add: BaseName_def Let_def last del: One_nat_def)
  then show "BaseName p = name"
    using assms(3) by simp
  have "DirName p = (if length d = 0 then ''/'' else take (length d) p)"
    using idx nl ne by (simp add: DirName_def Let_def last del: One_nat_def)
  then show "DirName p = (if d = [] then ''/'' else d)"
    using assms(3) by simp
qed

lemma JoinPath_two:
  assumes "dir \<noteq> []" and "name \<noteq> []" and "CHR ''/'' \<notin> set name"
  shows "JoinPath [dir, name] = (if last dir = CHR ''/'' then butlast dir else dir) @ ''/'' @ name"
proof -
  have "\<not> IsAbsolutePath name"
    using assms(2,3) by (cases name) (auto simp: IsAbsolutePath_def)
  moreover have "dir ! (length dir - 1) = last dir"
    using assms(1) by (simp add: last_conv_nth)
  moreover have "last dir = CHR ''/'' \<Longrightarrow> butlast dir @ CHR ''/'' # name = dir @ name"
    using assms(1) by (metis append_Cons append_butlast_last_id append_assoc append_Nil)
  ultimately show ?thesis
    using assms(1) by (simp add: JoinPath_def del: One_nat_def)
qed

text \<open>Splitting undoes joining: for a non-empty directory and a non-empty name without a slash,
  \<open>BaseName\<close> of the joined path is the name, and \<open>DirName\<close> is the directory without its trailing
  slash (the root stays \<open>"/"\<close>).\<close>

theorem JoinPath_split:
  assumes "dir \<noteq> []" and "name \<noteq> []" and "CHR ''/'' \<notin> set name"
  shows "BaseName (JoinPath [dir, name]) = name \<and>
    DirName (JoinPath [dir, name]) =
      (if dir = ''/'' then ''/'' else if last dir = CHR ''/'' then butlast dir else dir)"
proof -
  let ?d = "if last dir = CHR ''/'' then butlast dir else dir"
  have "dir = ''/''" if "butlast dir = []" "last dir = CHR ''/''"
    using that assms(1) by (metis append_Nil append_butlast_last_id)
  then have "?d = [] \<longleftrightarrow> dir = ''/''"
    using assms(1) by auto
  then show ?thesis
    using split_joined [OF assms(2,3) refl, of ?d] JoinPath_two [OF assms] by auto
qed

theorem JoinPath_split_witness:
  "BaseName (JoinPath [''/models/'', ''resnet'']) = ''resnet'' \<and>
   DirName (JoinPath [''/models/'', ''resnet'']) = ''/models''"
  using JoinPath_split [of "''/models/''" "''resnet''"] by simp

end
