(* ===== verification/Dataflow.thy ===== *)
theory Dataflow
  imports Status "HOL-Library.AList"
begin

text \<open>
  The data flow check both ensemble validators run (\<open>src/core/model_config_utils.cc\<close> and
  \<open>src/core/ensemble_utils.cc\<close>): a worklist of tensors whose data is available. A tensor is a node
  of a graph keyed by name; the pointers \<open>prev_nodes\<close> and \<open>next_nodes\<close> are the names of the nodes
  they point to, and the \<open>ready\<close> flags are the list of names that are set.
\<close>

record links =
  ln_prev_nodes :: "string list"
  ln_next_nodes :: "string list"

type_synonym 'a graph = "(string \<times> 'a links_scheme) list"

definition prev_of :: "'a graph \<Rightarrow> string \<Rightarrow> string list" where
  "prev_of g n = (case map_of g n of None \<Rightarrow> [] | Some v \<Rightarrow> ln_prev_nodes v)"

definition next_of :: "'a graph \<Rightarrow> string \<Rightarrow> string list" where
  "next_of g n = (case map_of g n of None \<Rightarrow> [] | Some v \<Rightarrow> ln_next_nodes v)"

text \<open>The inner loop over the next nodes of the front of the queue.\<close>

fun visit_next :: "'a graph \<Rightarrow> string list \<Rightarrow> string list \<times> string list \<Rightarrow> string list \<times> string list" where
  "visit_next g [] (ready, queue) = (ready, queue)"
| "visit_next g (m # ms) (ready, queue) =
     (if m \<in> set ready then visit_next g ms (ready, queue)
      else if list_all (\<lambda>p. p \<in> set ready) (prev_of g m)
      then visit_next g ms (m # ready, queue @ [m])
      else visit_next g ms (ready, queue))"

definition targets :: "'a graph \<Rightarrow> string set" where
  "targets g = (\<Union>n \<in> fst ` set g. set (next_of g n))"

lemma finite_targets [simp]: "finite (targets g)"
  by (simp add: targets_def)

lemma next_of_targets: "set (next_of g n) \<subseteq> targets g"
proof
  fix m assume m: "m \<in> set (next_of g n)"
  then have "n \<in> fst ` set g"
    by (cases "map_of g n") (force simp: next_of_def dest: map_of_SomeD)+
  with m show "m \<in> targets g"
    by (auto simp: targets_def)
qed

lemma visit_next_measure:
  "set ms \<subseteq> targets g \<Longrightarrow> visit_next g ms (ready, queue) = (ready', queue') \<Longrightarrow>
   card (targets g - set ready') + length queue' = card (targets g - set ready) + length queue"
proof (induction g ms "(ready, queue)" arbitrary: ready queue rule: visit_next.induct)
  case (2 g m ms ready queue)
  have step: "card (targets g - set (m # ready)) + length (queue @ [m]) =
      card (targets g - set ready) + length queue" if "m \<notin> set ready"
  proof -
    have "m \<in> targets g - set ready" using "2.prems" that by auto
    then have "Suc (card (targets g - set ready - {m})) = card (targets g - set ready)"
      by (intro card_Suc_Diff1) auto
    moreover have "targets g - set (m # ready) = targets g - set ready - {m}" by auto
    ultimately show ?thesis by simp
  qed
  show ?case
    using 2 step by (auto split: if_splits)
qed auto

text \<open>The loop \<open>while (!ready_queue.empty())\<close>.\<close>

function data_flow :: "'a graph \<Rightarrow> string list \<Rightarrow> string list \<Rightarrow> string list" where
  "data_flow g ready [] = ready"
| "data_flow g ready (n # queue) =
     (let (ready', queue') = visit_next g (next_of g n) (ready, queue)
      in data_flow g ready' queue')"
  by pat_completeness auto
termination
proof (relation "measure (\<lambda>(g, ready, queue). card (targets g - set ready) + length queue)")
  fix g :: "'a graph" and ready queue :: "string list" and n p ready' queue'
  assume p: "p = visit_next g (next_of g n) (ready, queue)" "(ready', queue') = p"
  then have "visit_next g (next_of g n) (ready, queue) = (ready', queue')" by simp
  then show "((g, ready', queue'), (g, ready, n # queue)) \<in>
      measure (\<lambda>(g, ready, queue). card (targets g - set ready) + length queue)"
    using visit_next_measure [OF next_of_targets, of g n ready queue ready' queue'] by simp
qed simp

text \<open>
  Specification: the tensors data flows to. A tensor gets data when it is an input, or when some
  tensor with data feeds it and all the tensors it depends on have data.
\<close>

inductive produced :: "'a graph \<Rightarrow> string set \<Rightarrow> string \<Rightarrow> bool" for g ins where
  input: "n \<in> ins \<Longrightarrow> produced g ins n"
| feed: "produced g ins m \<Longrightarrow> n \<in> set (next_of g m) \<Longrightarrow>
    (\<And>p. p \<in> set (prev_of g n) \<Longrightarrow> produced g ins p) \<Longrightarrow> produced g ins n"

text \<open>Links come in pairs.\<close>

definition linked :: "'a graph \<Rightarrow> bool" where
  "linked g \<longleftrightarrow> (\<forall>m n. m \<in> set (prev_of g n) \<longleftrightarrow> n \<in> set (next_of g m))"

lemma visit_next_mono:
  "visit_next g ms (ready, queue) = (ready', queue') \<Longrightarrow>
   \<exists>new. queue' = queue @ new \<and> ready' = rev new @ ready \<and> set new \<subseteq> set ms \<and>
     (\<forall>i < length new. set (prev_of g (new ! i)) \<subseteq> set (take i new) \<union> set ready)"
proof (induction g ms "(ready, queue)" arbitrary: ready queue rule: visit_next.induct)
  case (2 g k ms ready queue)
  show ?case
  proof (cases "k \<notin> set ready \<and> list_all (\<lambda>p. p \<in> set ready) (prev_of g k)")
    case True
    then have "visit_next g ms (k # ready, queue @ [k]) = (ready', queue')"
      using "2.prems" by simp
    then obtain new where n: "queue' = (queue @ [k]) @ new" "ready' = rev new @ k # ready"
      "set new \<subseteq> set ms"
      "\<forall>i < length new. set (prev_of g (new ! i)) \<subseteq> set (take i new) \<union> set (k # ready)"
      using "2.hyps"(2) True by blast
    have "set (prev_of g ((k # new) ! i)) \<subseteq> set (take i (k # new)) \<union> set ready"
      if "i < length (k # new)" for i
      using n(4) True that by (cases i) (auto simp: list_all_iff)
    then show ?thesis
      using n by (intro exI [of _ "k # new"]) auto
  next
    case False
    then have "\<exists>new. queue' = queue @ new \<and> ready' = rev new @ ready \<and> set new \<subseteq> set ms \<and>
        (\<forall>i < length new. set (prev_of g (new ! i)) \<subseteq> set (take i new) \<union> set ready)"
      using 2 by (auto split: if_splits)
    then show ?thesis by (metis set_subset_Cons subset_trans)
  qed
qed simp

lemma visit_next_closed:
  "visit_next g ms (ready, queue) = (ready', queue') \<Longrightarrow> m \<in> set ms \<Longrightarrow>
   set (prev_of g m) \<subseteq> set ready \<Longrightarrow> m \<in> set ready'"
proof (induction g ms "(ready, queue)" arbitrary: ready queue rule: visit_next.induct)
  case (2 g k ms ready queue)
  have mono: "set r \<subseteq> set ready'" if "visit_next g ms (r, q) = (ready', queue')" for r q
    using visit_next_mono [OF that] by auto
  show ?case
  proof (cases "m = k")
    case True
    then show ?thesis
      using "2.prems" mono [of ready queue] mono [of "k # ready" "queue @ [k]"]
      by (auto split: if_splits simp: list_all_iff)
  next
    case False
    then have "m \<in> set ms" using "2.prems" by simp
    then show ?thesis
      using 2 by (auto split: if_splits)
  qed
qed simp

text \<open>Soundness: only produced tensors become ready.\<close>

lemma visit_next_sound:
  assumes "visit_next g (next_of g n) (ready, queue) = (ready', queue')"
    and "\<forall>m \<in> set ready. produced g ins m" and "produced g ins n"
  shows "\<forall>m \<in> set ready'. produced g ins m"
proof -
  obtain new where new: "ready' = rev new @ ready" "set new \<subseteq> set (next_of g n)"
    "\<forall>i < length new. set (prev_of g (new ! i)) \<subseteq> set (take i new) \<union> set ready"
    using visit_next_mono [OF assms(1)] by blast
  have "produced g ins (new ! i)" if "i < length new" for i
    using that
  proof (induction i rule: less_induct)
    case (less i)
    have "produced g ins p" if "p \<in> set (prev_of g (new ! i))" for p
    proof -
      consider "p \<in> set ready" | j where "j < i" "p = new ! j"
      proof (cases "p \<in> set ready")
        case False
        then have "p \<in> set (take i new)" using new(3) less.prems \<open>p \<in> _\<close> by blast
        then obtain j where "j < i" "p = new ! j"
          using less.prems by (auto simp: in_set_conv_nth)
        then show ?thesis using that by blast
      qed (use that in blast)
      then show ?thesis
        using assms(2) less by cases auto
    qed
    then show ?case
      using produced.feed [OF assms(3)] new(2) less.prems nth_mem by blast
  qed
  then show ?thesis
    using new(1) assms(2) by (auto simp: in_set_conv_nth)
qed

lemma data_flow_sound:
  "\<forall>m \<in> set ready. produced g ins m \<Longrightarrow> set queue \<subseteq> set ready \<Longrightarrow>
   m \<in> set (data_flow g ready queue) \<Longrightarrow> produced g ins m"
proof (induction g ready queue rule: data_flow.induct)
  case (2 g ready n queue)
  obtain ready' queue' where v: "visit_next g (next_of g n) (ready, queue) = (ready', queue')"
    by fastforce
  have "\<forall>m \<in> set ready'. produced g ins m"
    using visit_next_sound [OF v] "2.prems" by auto
  moreover have "set queue' \<subseteq> set ready'"
    using visit_next_mono [OF v] "2.prems"(2) by auto
  ultimately show ?case
    using "2.IH" [OF v [symmetric] refl] "2.prems"(3) v by simp
qed simp

text \<open>Completeness: a tensor all of whose sources are ready and off the queue is ready.\<close>

definition flow_closed :: "'a graph \<Rightarrow> string list \<Rightarrow> string list \<Rightarrow> bool" where
  "flow_closed g ready queue \<longleftrightarrow>
     (\<forall>m n. m \<in> set ready - set queue \<and> n \<in> set (next_of g m) \<and>
        set (prev_of g n) \<subseteq> set ready - set queue \<longrightarrow> n \<in> set ready)"

lemma data_flow_mono: "set ready \<subseteq> set (data_flow g ready queue)"
proof (induction g ready queue rule: data_flow.induct)
  case (2 g ready n queue)
  obtain ready' queue' where v: "visit_next g (next_of g n) (ready, queue) = (ready', queue')"
    by fastforce
  then show ?case
    using "2.IH" [OF v [symmetric] refl] visit_next_mono [OF v] by auto
qed simp

lemma flow_closed_step:
  assumes "linked g" and "flow_closed g ready (n # queue)" and "set (n # queue) \<subseteq> set ready"
    and v: "visit_next g (next_of g n) (ready, queue) = (ready', queue')"
  shows "flow_closed g ready' queue' \<and> set queue' \<subseteq> set ready'"
proof -
  obtain new where new: "queue' = queue @ new" "ready' = rev new @ ready"
    using visit_next_mono [OF v] by blast
  have "k \<in> set ready'" if m: "m \<in> set ready' - set queue'" "k \<in> set (next_of g m)"
    "set (prev_of g k) \<subseteq> set ready' - set queue'" for m k
  proof (cases "n \<in> set (prev_of g k)")
    case True
    then have "k \<in> set (next_of g n)" using assms(1) by (simp add: linked_def)
    moreover have "set (prev_of g k) \<subseteq> set ready" using m(3) new by auto
    ultimately show ?thesis using visit_next_closed [OF v] by blast
  next
    case False
    have "m \<noteq> n" using False m(2) assms(1) by (auto simp: linked_def)
    have sub: "set ready' - set queue' \<subseteq> set ready - set queue"
      using new by auto
    then have "m \<in> set ready - set (n # queue)"
      using m(1) \<open>m \<noteq> n\<close> by auto
    moreover have "set (prev_of g k) \<subseteq> set ready - set (n # queue)"
      using m(3) sub False by auto
    ultimately have "k \<in> set ready"
      using assms(2) m(2) unfolding flow_closed_def by blast
    then show ?thesis using new by simp
  qed
  then show ?thesis
    using new assms(3) by (auto simp: flow_closed_def)
qed

lemma data_flow_complete:
  "linked g \<Longrightarrow> flow_closed g ready queue \<Longrightarrow> set queue \<subseteq> set ready \<Longrightarrow>
   flow_closed g (data_flow g ready queue) []"
proof (induction g ready queue rule: data_flow.induct)
  case (2 g ready n queue)
  obtain ready' queue' where v: "visit_next g (next_of g n) (ready, queue) = (ready', queue')"
    by fastforce
  then show ?case
    using "2.IH" [OF v [symmetric] refl "2.prems"(1)] flow_closed_step [OF "2.prems" v] by simp
qed simp

text \<open>The worklist started from the inputs computes exactly the produced tensors.\<close>

lemma data_flow_produced:
  assumes "linked g"
  shows "m \<in> set (data_flow g (rev ins) ins) \<longleftrightarrow> produced g (set ins) m"
proof
  assume "m \<in> set (data_flow g (rev ins) ins)"
  then show "produced g (set ins) m"
    using data_flow_sound [of "rev ins" g "set ins" ins m] by (auto intro: produced.input)
next
  let ?r = "data_flow g (rev ins) ins"
  have c: "flow_closed g ?r []"
    using assms by (intro data_flow_complete) (auto simp: flow_closed_def)
  assume "produced g (set ins) m"
  then show "m \<in> set ?r"
  proof (induction rule: produced.induct)
    case (input n)
    then show ?case using data_flow_mono [of "rev ins" g ins] by auto
  next
    case (feed m n)
    then have "set (prev_of g n) \<subseteq> set ?r" by blast
    then show ?case using c feed by (simp add: flow_closed_def)
  qed
qed

text \<open>
  Produced tensors can be put in an order in which each comes after all it depends on, inputs
  first: there is no cycle among tensors that are not inputs.
\<close>

inductive_cases produced_cases: "produced g ins n"

lemma produced_prev:
  "produced g ins n \<Longrightarrow> n \<notin> ins \<Longrightarrow> p \<in> set (prev_of g n) \<Longrightarrow> produced g ins p"
  by (auto elim: produced_cases)

inductive depends :: "'a graph \<Rightarrow> string set \<Rightarrow> string \<Rightarrow> string \<Rightarrow> bool" for g ins where
  direct: "p \<in> set (prev_of g n) \<Longrightarrow> n \<notin> ins \<Longrightarrow> depends g ins p n"
| trans: "depends g ins p m \<Longrightarrow> m \<in> set (prev_of g n) \<Longrightarrow> n \<notin> ins \<Longrightarrow> depends g ins p n"

lemma depends_input: "depends g ins p n \<Longrightarrow> n \<notin> ins"
  by (induction rule: depends.induct) auto

lemma depends_append: "depends g ins b c \<Longrightarrow> depends g ins a b \<Longrightarrow> depends g ins a c"
  by (induction rule: depends.induct) (auto intro: depends.intros)

lemma depends_last: "depends g ins p n \<Longrightarrow> \<exists>m \<in> set (prev_of g n). m = p \<or> depends g ins p m"
  by (induction rule: depends.induct) auto

lemma produced_acyclic: "produced g ins n \<Longrightarrow> \<not> depends g ins n n"
proof (induction rule: produced.induct)
  case (input n)
  then show ?case using depends_input by blast
next
  case (feed m n)
  show ?case
  proof
    assume d: "depends g ins n n"
    then obtain p where p: "p \<in> set (prev_of g n)" "p = n \<or> depends g ins n p"
      using depends_last by blast
    have nn: "n \<notin> ins" using d depends_input by blast
    have "depends g ins p p"
    proof (cases "p = n")
      case True
      then show ?thesis using d by simp
    next
      case False
      then show ?thesis
        using p depends.direct [OF p(1) nn] depends_append by blast
    qed
    then show False using feed.IH(2) [OF p(1)] by blast
  qed
qed

end
