(* ===== verification/Config_Utils.thy ===== *)
theory Config_Utils
  imports Model_Config Paths Dataflow
begin

text \<open>
  \<open>src/core/model_config_utils.cc\<close>: the control tensors of sequence batching, the normalization of
  a model configuration and its validation, the graph of an ensemble. Files, protobuf text, the
  autofill of a configuration and the CUDA runtime are parameters.
\<close>

section \<open>Versions and sequence controls\<close>

text \<open>\<open>absl::SimpleAtoi\<close> is a parameter: the number a string denotes, if it does.\<close>

definition GetModelVersionFromPath :: "(string \<Rightarrow> int option) \<Rightarrow> string \<Rightarrow> status + int" where
  "GetModelVersionFromPath simple_atoi path =
     (let version_dir = BaseName path in
      case simple_atoi version_dir of
        None \<Rightarrow> Inl (Status INTERNAL (''unable to determine model version from '' @ path))
      | Some version \<Rightarrow> Inr version)"

text \<open>The out parameters of \<open>GetSequenceControlProperties\<close>; what it does not set keeps its value.\<close>

record control_props =
  cp_tensor_name :: string
  cp_tensor_datatype :: data_type
  cp_fp32_false_value :: "32 word"
  cp_fp32_true_value :: "32 word"
  cp_int32_false_value :: "32 word"
  cp_int32_true_value :: "32 word"

text \<open>The generated name function: the enumerator's name, empty for an unknown number.\<close>

fun Control_Kind_Name :: "control_kind \<Rightarrow> string" where
  "Control_Kind_Name CONTROL_SEQUENCE_START = ''CONTROL_SEQUENCE_START''"
| "Control_Kind_Name CONTROL_SEQUENCE_READY = ''CONTROL_SEQUENCE_READY''"
| "Control_Kind_Name (CONTROL_OTHER n) = []"

fun control_loop ::
  "string \<Rightarrow> control_kind \<Rightarrow> string \<Rightarrow> control list \<Rightarrow> bool \<Rightarrow> control_props \<Rightarrow>
   status + bool \<times> control_props" where
  "control_loop model_name kind name [] seen_control pr = Inr (seen_control, pr)"
| "control_loop model_name kind name (c # cs) seen_control pr =
     (if ct_kind c = kind then
        (if seen_control then
           Inl (Status INVALID_ARG (''sequence batching specifies multiple '' @
             Control_Kind_Name kind @ '' tensors for '' @ model_name))
         else if length (ct_int32_false_true c) > 0 then
           (if length (ct_fp32_false_true c) \<noteq> 0 then
              Inl (Status INVALID_ARG (''sequence batching specifies both 'int32_false_true' and 'fp32_false_true' for '' @
                Control_Kind_Name kind @ '' for '' @ model_name))
            else if length (ct_int32_false_true c) \<noteq> 2 then
              Inl (Status INVALID_ARG (''sequence batching control 'int32_false_true' must have exactly 2 entries for '' @
                Control_Kind_Name kind @ '' for '' @ model_name))
            else control_loop model_name kind name cs True
              (pr\<lparr>cp_tensor_name := name, cp_tensor_datatype := TYPE_INT32,
                  cp_int32_false_value := ct_int32_false_true c ! 0,
                  cp_int32_true_value := ct_int32_false_true c ! 1\<rparr>))
         else
           (if length (ct_fp32_false_true c) = 0 then
              Inl (Status INVALID_ARG (''sequence batching must specify either 'int32_false_true' or 'fp32_false_true' for '' @
                Control_Kind_Name kind @ '' for '' @ model_name))
            else if length (ct_fp32_false_true c) \<noteq> 2 then
              Inl (Status INVALID_ARG (''sequence batching control 'fp32_false_true' must have exactly 2 entries for '' @
                Control_Kind_Name kind @ '' for '' @ model_name))
            else control_loop model_name kind name cs True
              (pr\<lparr>cp_tensor_name := name, cp_tensor_datatype := TYPE_FP32,
                  cp_fp32_false_value := ct_fp32_false_true c ! 0,
                  cp_fp32_true_value := ct_fp32_false_true c ! 1\<rparr>)))
      else control_loop model_name kind name cs seen_control pr)"

fun control_input_loop ::
  "string \<Rightarrow> control_kind \<Rightarrow> string list \<Rightarrow> control_input list \<Rightarrow> bool \<Rightarrow> control_props \<Rightarrow>
   status + bool \<times> control_props" where
  "control_input_loop model_name kind seen_tensors [] seen_control pr = Inr (seen_control, pr)"
| "control_input_loop model_name kind seen_tensors (ci # cis) seen_control pr =
     (if ci_name ci = [] then
        Inl (Status INVALID_ARG (''sequence batching control tensor must have a name for '' @ model_name))
      else if ci_name ci \<in> set seen_tensors then
        Inl (Status INVALID_ARG (''sequence batching control tensor '' @ quote (ci_name ci) @
          '' is specified for multiple control kinds for '' @ model_name))
      else
        (case control_loop model_name kind (ci_name ci) (ci_control ci) seen_control pr of
           Inl e \<Rightarrow> Inl e
         | Inr (seen_control', pr') \<Rightarrow>
             control_input_loop model_name kind (ci_name ci # seen_tensors) cis seen_control' pr'))"

definition GetSequenceControlProperties ::
  "sequence_batching \<Rightarrow> string \<Rightarrow> control_kind \<Rightarrow> bool \<Rightarrow> control_props \<Rightarrow> status + control_props" where
  "GetSequenceControlProperties batcher model_name kind required pr =
     (case control_input_loop model_name kind [] (sb_control_input batcher) False pr of
        Inl e \<Rightarrow> Inl e
      | Inr (seen_control, pr') \<Rightarrow>
          if \<not> seen_control then
            (if required then
               Inl (Status INVALID_ARG (''sequence batching control tensor must specify a '' @
                 Control_Kind_Name kind @ '' value for '' @ model_name))
             else Inr (pr'\<lparr>cp_tensor_name := []\<rparr>))
          else Inr pr')"

section \<open>Normalization\<close>

datatype cuda_result = Cuda_success int | Cuda_error_no_device | Cuda_error string

text \<open>\<open>cudaGetDeviceCount\<close> as both users of it read its result.\<close>

definition device_count :: "string \<Rightarrow> cuda_result \<Rightarrow> status + int" where
  "device_count err_prefix r =
     (case r of
        Cuda_error_no_device \<Rightarrow> Inr 0
      | Cuda_success n \<Rightarrow> Inr n
      | Cuda_error s \<Rightarrow> Inl (Status INTERNAL (err_prefix @ s)))"

definition default_model_filename :: "model_config \<Rightarrow> status + model_config" where
  "default_model_filename c =
     (if mc_default_model_filename c = [] then
        (if mc_platform c = kTensorFlowGraphDefPlatform then
           Inr (c\<lparr>mc_default_model_filename := ''model.graphdef''\<rparr>)
         else if mc_platform c = kTensorFlowSavedModelPlatform then
           Inr (c\<lparr>mc_default_model_filename := ''model.savedmodel''\<rparr>)
         else if mc_platform c = kTensorRTPlanPlatform then
           Inr (c\<lparr>mc_default_model_filename := ''model.plan''\<rparr>)
         else if mc_platform c = kCaffe2NetDefPlatform then
           Inr (c\<lparr>mc_default_model_filename := ''model.netdef''\<rparr>)
         else if mc_platform c = kCustomPlatform then
           Inr (c\<lparr>mc_default_model_filename := ''libcustom.so''\<rparr>)
         else if mc_platform c = kEnsemblePlatform then Inr c
         else if mc_platform c = kOnnxRuntimeOnnxPlatform then
           Inr (c\<lparr>mc_default_model_filename := ''model.onnx''\<rparr>)
         else if mc_platform c = kPyTorchLibTorchPlatform then
           Inr (c\<lparr>mc_default_model_filename := ''model.pt''\<rparr>)
         else Inl (Status INTERNAL (''unexpected platform type '' @ mc_platform c @ '' for '' @ mc_name c)))
      else Inr c)"

definition default_version_policy :: "model_config \<Rightarrow> model_config" where
  "default_version_policy c =
     (if mc_version_policy c = None then c\<lparr>mc_version_policy := Some (Policy_latest 1)\<rparr> else c)"

definition default_scheduling :: "model_config \<Rightarrow> model_config" where
  "default_scheduling c =
     (case mc_scheduling c of
        Dynamic_batching db \<Rightarrow>
          (if length (db_preferred_batch_size db) = 0 then
             c\<lparr>mc_scheduling := Dynamic_batching (db\<lparr>db_preferred_batch_size :=
                 (if mc_max_batch_size c \<ge> 4 then [4] else []) @
                 (if mc_max_batch_size c \<ge> 8 then [8] else [])\<rparr>)\<rparr>
           else c)
      | Sequence_batching sb \<Rightarrow>
          (if sb_max_sequence_idle_microseconds sb = 0 then
             c\<lparr>mc_scheduling := Sequence_batching
                (sb\<lparr>sb_max_sequence_idle_microseconds := 1000 * 1000\<rparr>)\<rparr>
           else c)
      | _ \<Rightarrow> c)"

definition bad_gpu :: "int \<Rightarrow> int \<Rightarrow> bool" where
  "bad_gpu device_cnt gid \<longleftrightarrow> gid < 0 \<or> gid \<ge> device_cnt"

definition normalize_group :: "string \<Rightarrow> int \<Rightarrow> nat \<Rightarrow> instance_group \<Rightarrow> instance_group" where
  "normalize_group config_name device_cnt cnt g =
     (let g1 = (if ig_name g = [] then g\<lparr>ig_name := config_name @ ''_'' @ show_nat cnt\<rparr> else g);
          g2 = (if ig_kind g1 = KIND_AUTO then
                  (let k = (if device_cnt = 0 then KIND_CPU
                            else if list_ex (bad_gpu device_cnt) (ig_gpus g1) then KIND_CPU
                            else KIND_AUTO)
                   in g1\<lparr>ig_kind := (if k = KIND_AUTO then KIND_GPU else k)\<rparr>)
                else g1);
          g3 = (if ig_count g2 < 1 then g2\<lparr>ig_count := 1\<rparr> else g2)
      in if ig_kind g3 = KIND_GPU \<and> length (ig_gpus g3) = 0
         then g3\<lparr>ig_gpus := map int [0..<nat device_cnt]\<rparr> else g3)"

fun normalize_groups :: "string \<Rightarrow> int \<Rightarrow> nat \<Rightarrow> instance_group list \<Rightarrow> instance_group list" where
  "normalize_groups config_name device_cnt cnt [] = []"
| "normalize_groups config_name device_cnt cnt (g # gs) =
     normalize_group config_name device_cnt cnt g #
     normalize_groups config_name device_cnt (cnt + 1) gs"

definition default_instance_groups :: "cuda_result \<Rightarrow> model_config \<Rightarrow> status + model_config" where
  "default_instance_groups cuda c =
     (if get_ensemble_scheduling c = None then
        (let c1 = (if length (mc_instance_group c) = 0
                   then c\<lparr>mc_instance_group :=
                     [\<lparr>ig_name = mc_name c, ig_kind = KIND_AUTO, ig_count = 0, ig_gpus = []\<rparr>]\<rparr>
                   else c)
         in case device_count (''unable to get number of CUDA devices for '' @ mc_name c1 @ '': '') cuda of
              Inl e \<Rightarrow> Inl e
            | Inr device_cnt \<Rightarrow>
                Inr (c1\<lparr>mc_instance_group :=
                  normalize_groups (mc_name c1) device_cnt 0 (mc_instance_group c1)\<rparr>))
      else Inr c)"

text \<open>The part of \<open>GetNormalizedModelConfig\<close> after the configuration has been read and autofilled.\<close>

definition normalize_config :: "cuda_result \<Rightarrow> model_config \<Rightarrow> status + model_config" where
  "normalize_config cuda c =
     (if mc_platform c = [] then
        Inl (Status INVALID_ARG (''must specify platform for model '' @ quote (mc_name c)))
      else
        (case default_model_filename c of
           Inl e \<Rightarrow> Inl e
         | Inr c1 \<Rightarrow> default_instance_groups cuda (default_scheduling (default_version_policy c1))))"

text \<open>
  \<open>file_exists\<close>, \<open>read_text_proto\<close> are the file system and the protobuf text reader, \<open>autofill_fix\<close>
  the platform's autofill of a configuration.
\<close>

definition GetNormalizedModelConfig ::
  "(string \<Rightarrow> status + bool) \<Rightarrow> (string \<Rightarrow> status + model_config) \<Rightarrow>
   (string \<Rightarrow> string \<Rightarrow> model_config \<Rightarrow> status + model_config) \<Rightarrow> cuda_result \<Rightarrow>
   string \<Rightarrow> bool \<Rightarrow> status + model_config" where
  "GetNormalizedModelConfig file_exists read_text_proto autofill_fix cuda path autofill =
     (let config_path = JoinPath [path, ''config.pbtxt''] in
      bind_status (file_exists config_path) (\<lambda>model_config_exists.
      bind_status (if autofill \<and> \<not> model_config_exists then Inr model_config_clear
                   else read_text_proto config_path) (\<lambda>config.
      bind_status (if autofill then autofill_fix (BaseName path) path config else Inr config)
        (normalize_config cuda))))"

section \<open>Validation of inputs, outputs and the configuration\<close>

fun validate_dims :: "string \<Rightarrow> bool \<Rightarrow> int list \<Rightarrow> status" where
  "validate_dims io has_reshape [] = Status_Success"
| "validate_dims io has_reshape (dim # dims) =
     (if dim < 1 \<and> dim \<noteq> WILDCARD_DIM then
        Status INVALID_ARG (''model '' @ io @ '' dimension must be integer >= 1, or '' @
          show_int WILDCARD_DIM @ '' to indicate a variable-size dimension'')
      else if has_reshape \<and> dim = WILDCARD_DIM then
        Status INVALID_ARG (''model '' @ io @ '' using reshape cannot have variable-size dimension '' @
          show_int WILDCARD_DIM)
      else validate_dims io has_reshape dims)"

definition validate_reshape :: "string \<Rightarrow> int list \<Rightarrow> int list option \<Rightarrow> status" where
  "validate_reshape io dims reshape =
     (case reshape of
        None \<Rightarrow> Status_Success
      | Some shape \<Rightarrow>
          (if list_ex (\<lambda>dim. dim \<le> 0) shape then
             Status INVALID_ARG (''model '' @ io @ '' reshape dimensions must be integer >= 1'')
           else if GetElementCount dims \<noteq> max 1 (GetElementCount shape) then
             Status INVALID_ARG (''model '' @ io @ '' has different size for dims and reshape'')
           else Status_Success))"

definition ValidateModelInput :: "model_input \<Rightarrow> int \<Rightarrow> status" where
  "ValidateModelInput io max_batch_size =
     (if mi_name io = [] then Status INVALID_ARG (''model input must specify '' @ quote ''name'')
      else if mi_data_type io = TYPE_INVALID then
        Status INVALID_ARG (''model input must specify '' @ quote ''data_type'')
      else if length (mi_dims io) = 0 then Status INVALID_ARG (''model input must specify '' @ quote ''dims'')
      else if mi_reshape io = Some [] \<and> max_batch_size = 0 then
        Status INVALID_ARG ''model input cannot have empty reshape for non-batching model''
      else return_if_error (validate_dims ''input'' (mi_reshape io \<noteq> None) (mi_dims io))
        (return_if_error (validate_reshape ''input'' (mi_dims io) (mi_reshape io))
        (if (mi_format io = FORMAT_NHWC \<or> mi_format io = FORMAT_NCHW) \<and> length (mi_dims io) \<noteq> 3 then
           Status INVALID_ARG ''model input NHWC/NCHW require 3 dims''
         else Status_Success)))"

definition ValidateModelOutput :: "model_output \<Rightarrow> int \<Rightarrow> status" where
  "ValidateModelOutput io max_batch_size =
     (if mo_name io = [] then Status INVALID_ARG (''model output must specify '' @ quote ''name'')
      else if mo_data_type io = TYPE_INVALID then
        Status INVALID_ARG (''model output must specify '' @ quote ''data_type'')
      else if length (mo_dims io) = 0 then Status INVALID_ARG (''model output must specify '' @ quote ''dims'')
      else if mo_reshape io = Some [] \<and> max_batch_size = 0 then
        Status INVALID_ARG ''model output cannot have empty reshape for non-batching model''
      else return_if_error (validate_dims ''output'' (mo_reshape io \<noteq> None) (mo_dims io))
        (validate_reshape ''output'' (mo_dims io) (mo_reshape io)))"

text \<open>\<open>std::set<std::string>\<close> iterates in lexicographic order.\<close>

definition list_allowed :: "string set \<Rightarrow> string" where
  "list_allowed allowed =
     foldl (\<lambda>astr a. (if astr \<noteq> [] then astr @ '', '' else astr) @ a) [] (sorted_list_of_set allowed)"

definition CheckAllowedModelInput :: "model_input \<Rightarrow> string set \<Rightarrow> status" where
  "CheckAllowedModelInput io allowed =
     (if mi_name io \<notin> allowed then
        Status INVALID_ARG (''unexpected inference input '' @ quote (mi_name io) @
          '', allowed inputs are: '' @ list_allowed allowed)
      else Status_Success)"

definition CheckAllowedModelOutput :: "model_output \<Rightarrow> string set \<Rightarrow> status" where
  "CheckAllowedModelOutput io allowed =
     (if mo_name io \<notin> allowed then
        Status INVALID_ARG (''unexpected inference output '' @ quote (mo_name io) @
          '', allowed outputs are: '' @ list_allowed allowed)
      else Status_Success)"

subsection \<open>The graph of an ensemble\<close>

record ensemble_tensor = links +
  et_is_output :: bool

definition EnsembleTensor :: "bool \<Rightarrow> ensemble_tensor" where
  "EnsembleTensor is_output = \<lparr>ln_prev_nodes = [], ln_next_nodes = [], et_is_output = is_output\<rparr>"

text \<open>\<open>output->prev_nodes.push_back(&input); input.next_nodes.push_back(output)\<close>.\<close>

definition link_nodes :: "string \<Rightarrow> string \<Rightarrow> 'a graph \<Rightarrow> 'a graph" where
  "link_nodes out inp g =
     AList.map_entry inp (\<lambda>v. v\<lparr>ln_next_nodes := ln_next_nodes v @ [out]\<rparr>)
       (AList.map_entry out (\<lambda>v. v\<lparr>ln_prev_nodes := ln_prev_nodes v @ [inp]\<rparr>) g)"

fun graph_outputs ::
  "string \<Rightarrow> (string \<times> string) list \<Rightarrow> (string \<times> ensemble_tensor) list \<Rightarrow> string list \<Rightarrow>
   status + (string \<times> ensemble_tensor) list \<times> string list" where
  "graph_outputs name [] g outs = Inr (g, outs)"
| "graph_outputs name ((k, tensor) # om) g outs =
     (case map_of g tensor of
        Some v \<Rightarrow>
          (if et_is_output v then
             Inl (Status INVALID_ARG (''ensemble tensor '' @ tensor @
               '' can appear in an output map only once for ensemble '' @ name))
           else graph_outputs name om
             (AList.map_entry tensor (\<lambda>v. v\<lparr>et_is_output := True\<rparr>) g) (outs @ [tensor]))
      | None \<Rightarrow> graph_outputs name om (g @ [(tensor, EnsembleTensor True)]) (outs @ [tensor]))"

fun graph_inputs ::
  "string \<Rightarrow> string \<Rightarrow> string list \<Rightarrow> (string \<times> string) list \<Rightarrow> string list \<Rightarrow>
   (string \<times> ensemble_tensor) list \<Rightarrow> status + (string \<times> ensemble_tensor) list" where
  "graph_inputs name model outs [] model_inputs g = Inr g"
| "graph_inputs name model outs ((k, tensor) # im) model_inputs g =
     (if k \<in> set model_inputs then
        Inl (Status INVALID_ARG (''input '' @ k @ '' in model '' @ model @
          '' is mapped to multiple ensemble tensors in one step for ensemble '' @ name))
      else
        (let g1 = (if map_of g tensor = None then g @ [(tensor, EnsembleTensor False)] else g)
         in graph_inputs name model outs im (k # model_inputs)
              (foldl (\<lambda>g out. link_nodes out tensor g) g1 outs)))"

fun graph_steps ::
  "string \<Rightarrow> ensemble_step list \<Rightarrow> (string \<times> ensemble_tensor) list \<Rightarrow>
   status + (string \<times> ensemble_tensor) list" where
  "graph_steps name [] g = Inr g"
| "graph_steps name (e # es) g =
     (if es_model_name e = [] then
        Inl (Status INVALID_ARG (''must specify 'model_name' in step of ensemble '' @ name))
      else if length (es_input_map e) = 0 then
        Inl (Status INVALID_ARG (''must specify one or more 'input_map' in step of ensemble '' @ name))
      else if length (es_output_map e) = 0 then
        Inl (Status INVALID_ARG (''must specify one or more 'output_map' in step of ensemble '' @ name))
      else
        bind_status (graph_outputs name (es_output_map e) g []) (\<lambda>(g1, outs).
        bind_status (graph_inputs name (es_model_name e) outs (es_input_map e) [] g1) (\<lambda>g2.
        graph_steps name es g2)))"

definition ensemble_steps :: "model_config \<Rightarrow> ensemble_step list" where
  "ensemble_steps c = (case get_ensemble_scheduling c of None \<Rightarrow> [] | Some es \<Rightarrow> es)"

definition BuildEnsembleGraph :: "model_config \<Rightarrow> status + (string \<times> ensemble_tensor) list" where
  "BuildEnsembleGraph config = graph_steps (mc_name config) (ensemble_steps config) []"

text \<open>The loops of \<open>ValidateEnsembleSchedulingConfig\<close> before and after the data flow.\<close>

fun check_inputs_mapped :: "string \<Rightarrow> (string \<times> ensemble_tensor) list \<Rightarrow> model_input list \<Rightarrow> status" where
  "check_inputs_mapped name g [] = Status_Success"
| "check_inputs_mapped name g (i # is) =
     (if map_of g (mi_name i) = None then
        Status INVALID_ARG (''must map ensemble input '' @ mi_name i @ '' for ensemble '' @ name)
      else check_inputs_mapped name g is)"

fun check_outputs_ready ::
  "string \<Rightarrow> (string \<times> ensemble_tensor) list \<Rightarrow> string list \<Rightarrow> model_output list \<Rightarrow> status" where
  "check_outputs_ready name g ready [] = Status_Success"
| "check_outputs_ready name g ready (out # os) =
     (if map_of g (mo_name out) = None then
        Status INVALID_ARG (''must map ensemble output '' @ mo_name out @ '' for ensemble '' @ name)
      else if mo_name out \<notin> set ready then
        Status INVALID_ARG (''no data will be written to ensemble output '' @ mo_name out @
          '' for ensemble '' @ name)
      else check_outputs_ready name g ready os)"

fun check_redundant ::
  "string \<Rightarrow> string list \<Rightarrow> string list \<Rightarrow> (string \<times> ensemble_tensor) list \<Rightarrow> status" where
  "check_redundant name outputs ready [] = Status_Success"
| "check_redundant name outputs ready ((n, v) # g) =
     (if n \<in> set outputs then check_redundant name outputs ready g
      else if n \<notin> set ready then
        Status INVALID_ARG (''ensemble tensor '' @ n @
          '' is redundant as no data will be written to it for ensemble '' @ name)
      else if length (ln_next_nodes v) = 0 then
        Status INVALID_ARG (''ensemble tensor '' @ n @
          '' is redundant as it will not be used in any models for ensemble '' @ name)
      else check_redundant name outputs ready g)"

definition ValidateEnsembleSchedulingConfig :: "model_config \<Rightarrow> status" where
  "ValidateEnsembleSchedulingConfig config =
     (let name = mc_name config in
      if mc_platform config \<noteq> kEnsemblePlatform then
        Status INVALID_ARG (''ensemble scheduling can not be set for model '' @ name @
          '' whose platform is not '' @ kEnsemblePlatform)
      else if length (mc_instance_group config) \<noteq> 0 then
        Status INVALID_ARG (''instance group should not be specified for ensemble '' @ name)
      else if mc_optimization config \<noteq> None then
        Status INVALID_ARG (''optimization should not be specified for ensemble '' @ name)
      else if length (ensemble_steps config) = 0 then
        Status INVALID_ARG (''must specify 'step' for ensemble '' @ name)
      else
        (case BuildEnsembleGraph config of
           Inl e \<Rightarrow> e
         | Inr g \<Rightarrow>
             (let inputs = map mi_name (mc_input config);
                  ready = data_flow g (rev inputs) inputs
              in return_if_error (check_inputs_mapped name g (mc_input config))
                (return_if_error (check_outputs_ready name g ready (mc_output config))
                (check_redundant name (map mo_name (mc_output config)) ready g)))))"

subsection \<open>\<open>ValidateModelConfig\<close>\<close>

definition validate_preferred :: "model_config \<Rightarrow> int \<Rightarrow> status" where
  "validate_preferred c n =
     (if n \<le> 0 then
        Status INVALID_ARG (''dynamic batching preferred size must be positive for '' @ mc_name c)
      else if n > mc_max_batch_size c then
        Status INVALID_ARG (''dynamic batching preferred size must be <= max batch size for '' @ mc_name c)
      else Status_Success)"

definition control_props_init :: control_props where
  "control_props_init =
     \<lparr>cp_tensor_name = [], cp_tensor_datatype = TYPE_INVALID, cp_fp32_false_value = 0,
      cp_fp32_true_value = 0, cp_int32_false_value = 0, cp_int32_true_value = 0\<rparr>"

definition status_of :: "status + 'a \<Rightarrow> status" where
  "status_of r = (case r of Inl e \<Rightarrow> e | Inr _ \<Rightarrow> Status_Success)"

definition validate_sequence :: "model_config \<Rightarrow> sequence_batching \<Rightarrow> status" where
  "validate_sequence c batcher =
     (if length (sb_control_input batcher) = 0 then
        Status INVALID_ARG (''sequence batching must specify at least one control tensor for '' @ mc_name c)
      else return_if_error
        (status_of (GetSequenceControlProperties batcher (mc_name c) CONTROL_SEQUENCE_START True
           control_props_init))
        (status_of (GetSequenceControlProperties batcher (mc_name c) CONTROL_SEQUENCE_READY True
           control_props_init)))"

definition validate_group :: "model_config \<Rightarrow> int \<Rightarrow> instance_group \<Rightarrow> status" where
  "validate_group c dcnt g =
     (case ig_kind g of
        KIND_GPU \<Rightarrow>
          (if length (ig_gpus g) = 0 then
             Status INVALID_ARG (''instance group '' @ ig_name g @ '' of model '' @ mc_name c @
               '' has kind KIND_GPU but specifies no GPUs'')
           else first_error (\<lambda>gid.
             if gid < 0 \<or> gid \<ge> dcnt then
               Status INVALID_ARG (''instance group '' @ ig_name g @ '' of model '' @ mc_name c @
                 '' specifies invalid GPU id '' @ show_int gid @ '', valid GPUs are 0 - '' @
                 show_int (dcnt - 1))
             else Status_Success) (ig_gpus g))
      | KIND_CPU \<Rightarrow>
          (if length (ig_gpus g) > 0 then
             Status INVALID_ARG (''instance group '' @ ig_name g @ '' of model '' @ mc_name c @
               '' has kind KIND_CPU but specifies one or more GPUs'')
           else Status_Success)
      | _ \<Rightarrow>
          Status INTERNAL (''instance group '' @ ig_name g @ '' of model '' @ mc_name c @
            '' has unexpected kind KIND_AUTO''))"

definition validate_groups :: "cuda_result \<Rightarrow> model_config \<Rightarrow> status" where
  "validate_groups cuda c =
     (if mc_platform c = kEnsemblePlatform then
        Status INVALID_ARG (''ensemble scheduling must be set for ensemble '' @ mc_name c @
          '' whose platform is '' @ kEnsemblePlatform)
      else if length (mc_instance_group c) = 0 then
        Status INVALID_ARG (''must specify one or more '' @ quote ''instance group'' @ ''s for '' @ mc_name c)
      else
        (case device_count (''failed to get device count for validation of model '' @ mc_name c @ '': '') cuda of
           Inl e \<Rightarrow> e
         | Inr dcnt \<Rightarrow> first_error (validate_group c dcnt) (mc_instance_group c)))"

definition with_name :: "model_config \<Rightarrow> status \<Rightarrow> status" where
  "with_name c st =
     (if \<not> IsOk st then Status (st_code st) (st_msg st @ '' for '' @ mc_name c) else st)"

definition ValidateModelConfig :: "cuda_result \<Rightarrow> model_config \<Rightarrow> string \<Rightarrow> status" where
  "ValidateModelConfig cuda c expected_platform =
     (if mc_name c = [] then
        Status INVALID_ARG (''model configuration must specify '' @ quote ''name'')
      else if mc_platform c = [] then
        Status INVALID_ARG (''must specify '' @ quote ''platform'' @ '' for '' @ mc_name c)
      else if expected_platform \<noteq> [] \<and> mc_platform c \<noteq> expected_platform then
        Status NOT_FOUND (''expected model of type '' @ expected_platform @ '' for '' @ mc_name c)
      else if mc_version_policy c = None then
        Status INVALID_ARG (''must specify '' @ quote ''version policy'' @ '' for '' @ mc_name c)
      else return_if_error
        (first_error (\<lambda>io. with_name c (ValidateModelInput io (mc_max_batch_size c))) (mc_input c))
        (return_if_error
        (first_error (\<lambda>io. with_name c (ValidateModelOutput io (mc_max_batch_size c))) (mc_output c))
        (return_if_error
        (case get_dynamic_batching c of
           None \<Rightarrow> Status_Success
         | Some db \<Rightarrow> first_error (validate_preferred c) (db_preferred_batch_size db))
        (return_if_error
        (case get_sequence_batching c of
           None \<Rightarrow> Status_Success
         | Some batcher \<Rightarrow> validate_sequence c batcher)
        (if get_ensemble_scheduling c \<noteq> None
         then ValidateEnsembleSchedulingConfig c else validate_groups cuda c)))))"

section \<open>Lemmas on validation\<close>

lemma IsOk_with_name [simp]: "IsOk (with_name c st) = IsOk st"
  by (simp add: with_name_def IsOk_def)

lemma IsOk_validate_dims:
  "IsOk (validate_dims io rs dims) \<longleftrightarrow>
   (\<forall>d \<in> set dims. (1 \<le> d \<or> d = WILDCARD_DIM) \<and> (rs \<longrightarrow> d \<noteq> WILDCARD_DIM))"
  by (induction dims) auto

lemma IsOk_validate_reshape:
  "IsOk (validate_reshape io dims reshape) \<longleftrightarrow>
   (\<forall>shape. reshape = Some shape \<longrightarrow>
      (\<forall>d \<in> set shape. 1 \<le> d) \<and> GetElementCount dims = max 1 (GetElementCount shape))"
  by (auto simp: validate_reshape_def list_ex_iff int_one_le_iff_zero_less not_less split: option.splits)

lemma IsOk_ValidateModelInput:
  "IsOk (ValidateModelInput io n) \<longleftrightarrow>
   mi_name io \<noteq> [] \<and> mi_data_type io \<noteq> TYPE_INVALID \<and> mi_dims io \<noteq> [] \<and>
   \<not> (mi_reshape io = Some [] \<and> n = 0) \<and>
   (\<forall>d \<in> set (mi_dims io). (1 \<le> d \<or> d = WILDCARD_DIM) \<and> (mi_reshape io \<noteq> None \<longrightarrow> d \<noteq> WILDCARD_DIM)) \<and>
   (\<forall>shape. mi_reshape io = Some shape \<longrightarrow>
      (\<forall>d \<in> set shape. 1 \<le> d) \<and> GetElementCount (mi_dims io) = max 1 (GetElementCount shape)) \<and>
   (mi_format io \<in> {FORMAT_NHWC, FORMAT_NCHW} \<longrightarrow> length (mi_dims io) = 3)"
  by (auto simp: ValidateModelInput_def IsOk_validate_dims IsOk_validate_reshape)

lemma IsOk_ValidateModelOutput:
  "IsOk (ValidateModelOutput io n) \<longleftrightarrow>
   mo_name io \<noteq> [] \<and> mo_data_type io \<noteq> TYPE_INVALID \<and> mo_dims io \<noteq> [] \<and>
   \<not> (mo_reshape io = Some [] \<and> n = 0) \<and>
   (\<forall>d \<in> set (mo_dims io). (1 \<le> d \<or> d = WILDCARD_DIM) \<and> (mo_reshape io \<noteq> None \<longrightarrow> d \<noteq> WILDCARD_DIM)) \<and>
   (\<forall>shape. mo_reshape io = Some shape \<longrightarrow>
      (\<forall>d \<in> set shape. 1 \<le> d) \<and> GetElementCount (mo_dims io) = max 1 (GetElementCount shape))"
  by (auto simp: ValidateModelOutput_def IsOk_validate_dims IsOk_validate_reshape)

lemma IsOk_validate_preferred [simp]:
  "IsOk (validate_preferred c n) \<longleftrightarrow> 1 \<le> n \<and> n \<le> mc_max_batch_size c"
  by (auto simp: validate_preferred_def)

lemma IsOk_status_of [simp]:
  "(\<And>e. r = Inl e \<Longrightarrow> \<not> IsOk e) \<Longrightarrow> IsOk (status_of r) \<longleftrightarrow> (\<exists>v. r = Inr v)"
  by (cases r) (auto simp: status_of_def)

lemma IsOk_ValidateModelConfig:
  "IsOk (ValidateModelConfig cuda c plat) \<Longrightarrow>
   mc_name c \<noteq> [] \<and> mc_platform c \<noteq> [] \<and> (plat = [] \<or> mc_platform c = plat) \<and>
   mc_version_policy c \<noteq> None \<and>
   (\<forall>io \<in> set (mc_input c). IsOk (ValidateModelInput io (mc_max_batch_size c))) \<and>
   (\<forall>io \<in> set (mc_output c). IsOk (ValidateModelOutput io (mc_max_batch_size c))) \<and>
   (\<forall>db. get_dynamic_batching c = Some db \<longrightarrow>
      (\<forall>n \<in> set (db_preferred_batch_size db). 1 \<le> n \<and> n \<le> mc_max_batch_size c)) \<and>
   (\<forall>sb. get_sequence_batching c = Some sb \<longrightarrow> IsOk (validate_sequence c sb)) \<and>
   (if get_ensemble_scheduling c \<noteq> None then IsOk (ValidateEnsembleSchedulingConfig c)
    else IsOk (validate_groups cuda c))"
  by (auto simp: ValidateModelConfig_def simp del: get_dynamic_batching.simps
      get_sequence_batching.simps get_ensemble_scheduling.simps split: if_splits option.splits)

end
