(* ===== verification/Config_Facts.thy ===== *)
theory Config_Facts
  imports Config_Utils
begin

text \<open>
  Properties of \<open>src/core/model_config.cc\<close> and of the control, normalization and validation
  functions of \<open>src/core/model_config_utils.cc\<close>.
\<close>

section \<open>Sizes and shapes\<close>

text \<open>
  Claim C37. The byte size of a tensor of a fixed-size type is the product of its dimensions times
  the size of an element, as long as that fits a signed 64-bit integer.
\<close>

theorem GetByteSize_product:
  assumes "dims \<noteq> []" and "\<forall>d \<in> set dims. 1 \<le> d" and "GetDataTypeByteSize dtype \<noteq> 0"
    and "prod_list dims * GetDataTypeByteSize dtype < 2 ^ 63"
  shows "GetByteSize dtype dims = prod_list dims * GetDataTypeByteSize dtype"
proof -
  have size: "1 \<le> GetDataTypeByteSize dtype"
    using GetDataTypeByteSize_bounds [of dtype] assms(3) by linarith
  have pos: "1 \<le> prod_list dims" using prod_list_pos assms(2) by simp
  have "prod_list dims * 1 \<le> prod_list dims * GetDataTypeByteSize dtype"
    using size pos by (intro mult_left_mono) auto
  then have "prod_list dims < 2 ^ 63" "in_s64 (prod_list dims * GetDataTypeByteSize dtype)"
    using assms(4) pos unfolding in_s64_def by linarith+
  then show ?thesis
    using assms pos by (simp add: GetByteSize_def GetElementCount_prod)
qed

theorem GetByteSize_product_witness: "GetByteSize TYPE_FP32 [2, 3, 4] = 96"
  using GetByteSize_product [of "[2, 3, 4]" TYPE_FP32] by simp

text \<open>
  The element count of a validated shape is -1 exactly when some dimension has variable
  size, as long as the product of the fixed ones fits.
\<close>

theorem GetElementCount_variable:
  assumes "\<forall>d \<in> set dims. 1 \<le> d \<or> d = WILDCARD_DIM" and "\<bar>prod_list dims\<bar> < 2 ^ 63"
  shows "GetElementCount dims = WILDCARD_DIM \<longleftrightarrow> WILDCARD_DIM \<in> set dims"
proof (cases "WILDCARD_DIM \<in> set dims \<or> dims = []")
  case False
  then have "\<forall>d \<in> set dims. 1 \<le> d" using assms(1) by blast
  then have "GetElementCount dims = prod_list dims" "1 \<le> prod_list dims"
    using assms(2) False GetElementCount_prod prod_list_pos by auto
  then show ?thesis using False by simp
qed (auto simp: GetElementCount_wildcard)

theorem GetElementCount_variable_witness:
  "GetElementCount [2, WILDCARD_DIM, 3] = WILDCARD_DIM \<and> GetElementCount [2, 3] \<noteq> WILDCARD_DIM"
  using GetElementCount_variable [of "[2, WILDCARD_DIM, 3]"] GetElementCount_variable [of "[2, 3]"]
  by simp

text \<open>
  Two shapes that print the same are the same shape, so the text is a safe key and a
  faithful diagnostic.
\<close>

theorem DimsListToString_injective: "DimsListToString xs = DimsListToString ys \<longleftrightarrow> xs = ys"
  by (auto simp: DimsListToString_text dest: dims_text_inj)

section \<open>Sequence controls\<close>

definition controls_of :: "control_kind \<Rightarrow> control_input list \<Rightarrow> (string \<times> control) list" where
  "controls_of kind cis =
     concat (map (\<lambda>ci. map (Pair (ci_name ci)) (filter (\<lambda>c. ct_kind c = kind) (ci_control ci))) cis)"

definition control_values_ok :: "control \<Rightarrow> bool" where
  "control_values_ok c \<longleftrightarrow>
     (length (ct_int32_false_true c) = 2 \<and> ct_fp32_false_true c = []) \<or>
     (ct_int32_false_true c = [] \<and> length (ct_fp32_false_true c) = 2)"

definition set_control :: "string \<times> control \<Rightarrow> control_props \<Rightarrow> control_props" where
  "set_control nc pr =
     (let (n, c) = nc in
      if ct_int32_false_true c \<noteq> [] then
        pr\<lparr>cp_tensor_name := n, cp_tensor_datatype := TYPE_INT32,
           cp_int32_false_value := ct_int32_false_true c ! 0,
           cp_int32_true_value := ct_int32_false_true c ! 1\<rparr>
      else
        pr\<lparr>cp_tensor_name := n, cp_tensor_datatype := TYPE_FP32,
           cp_fp32_false_value := ct_fp32_false_true c ! 0,
           cp_fp32_true_value := ct_fp32_false_true c ! 1\<rparr>)"

lemma control_loop_Inr:
  "control_loop m kind n cs seen pr = Inr r \<longleftrightarrow>
   (case filter (\<lambda>c. ct_kind c = kind) cs of
      [] \<Rightarrow> r = (seen, pr)
    | [c] \<Rightarrow> \<not> seen \<and> control_values_ok c \<and> r = (True, set_control (n, c) pr)
    | _ \<Rightarrow> False)"
proof (induction m kind n cs seen pr rule: control_loop.induct)
  case (2 m kind n c cs seen pr)
  have len: "length xs = 2 \<Longrightarrow> xs \<noteq> []" for xs :: "32 word list" by auto
  show ?case
    using 2 len by (auto simp: control_values_ok_def set_control_def split: list.splits)
qed auto

lemma control_input_loop_Inr:
  "control_input_loop m kind seen cis s pr = Inr r \<longleftrightarrow>
   (\<forall>ci \<in> set cis. ci_name ci \<noteq> []) \<and> distinct (map ci_name cis) \<and>
   set (map ci_name cis) \<inter> set seen = {} \<and>
   (case controls_of kind cis of
      [] \<Rightarrow> r = (s, pr)
    | [nc] \<Rightarrow> \<not> s \<and> control_values_ok (snd nc) \<and> r = (True, set_control nc pr)
    | _ \<Rightarrow> False)"
proof (induction m kind seen cis s pr rule: control_input_loop.induct)
  case (2 m kind seen ci cis s pr)
  let ?F = "filter (\<lambda>c. ct_kind c = kind) (ci_control ci)"
  let ?C = "control_loop m kind (ci_name ci) (ci_control ci) s pr"
  have cons: "controls_of kind (ci # cis) = map (Pair (ci_name ci)) ?F @ controls_of kind cis"
    by (simp add: controls_of_def)
  note head = control_loop_Inr [of m kind "ci_name ci" "ci_control ci" s pr]
  consider (none) "?F = []" | (one) c where "?F = [c]" "\<not> s" "control_values_ok c"
    | (bad) e where "?C = Inl e" "case controls_of kind (ci # cis) of [] \<Rightarrow> False
        | [nc] \<Rightarrow> s \<or> \<not> control_values_ok (snd nc) | _ \<Rightarrow> True"
  proof -
    have err: "\<exists>e. ?C = Inl e" if "\<And>r. ?C \<noteq> Inr r"
      using that by (cases ?C) auto
    show ?thesis
    proof (cases ?F rule: remdups_adj.cases)
      case 1
      then show ?thesis by (rule none)
    next
      case (2 c)
      show ?thesis
      proof (cases "\<not> s \<and> control_values_ok c")
        case True
        then show ?thesis using one 2 by blast
      next
        case False
        then obtain e where "?C = Inl e" using err head 2 by auto
        then show ?thesis using bad False 2 unfolding cons by (auto split: list.splits)
      qed
    next
      case (3 c d es)
      then obtain e where "?C = Inl e" using err head by auto
      then show ?thesis using bad 3 unfolding cons by auto
    qed
  qed
  then show ?case
  proof cases
    case none
    then have "?C = Inr (s, pr)" unfolding head by simp
    then show ?thesis using 2 none unfolding cons by auto
  next
    case one
    then have "?C = Inr (True, set_control (ci_name ci, c) pr)" unfolding head by simp
    then show ?thesis using 2 one unfolding cons by (auto split: list.splits)
  next
    case bad
    then show ?thesis by (auto split: list.splits)
  qed
qed (auto simp: controls_of_def)

lemma control_spec:
  "GetSequenceControlProperties batcher m kind required pr = Inr pr' \<longleftrightarrow>
   (\<forall>ci \<in> set (sb_control_input batcher). ci_name ci \<noteq> []) \<and>
   distinct (map ci_name (sb_control_input batcher)) \<and>
   (case controls_of kind (sb_control_input batcher) of
      [] \<Rightarrow> \<not> required \<and> pr' = pr\<lparr>cp_tensor_name := []\<rparr>
    | [nc] \<Rightarrow> control_values_ok (snd nc) \<and> pr' = set_control nc pr
    | _ \<Rightarrow> False)"
proof -
  let ?run = "control_input_loop m kind [] (sb_control_input batcher) False pr"
  note loop = control_input_loop_Inr [of m kind "[]" "sb_control_input batcher" False pr]
  show ?thesis
  proof (cases ?run)
    case (Inl e)
    then have "\<not> (\<exists>r. ?run = Inr r)" by simp
    then show ?thesis using Inl unfolding loop
      by (auto simp: GetSequenceControlProperties_def split: list.splits)
  next
    case (Inr sp)
    then show ?thesis using loop [of sp]
      by (cases sp) (auto simp: GetSequenceControlProperties_def split: list.splits)
  qed
qed

text \<open>
  \<open>GetSequenceControlProperties\<close> succeeds exactly when the control tensors have different
  non-empty names and the configuration has at most one control of the wanted kind (exactly one,
  when it is required) whose values are a pair of integers or a pair of floats, not both; then it
  delivers that control's tensor, type and values, and an empty name when there is none.
\<close>

theorem GetSequenceControlProperties_spec:
  "GetSequenceControlProperties batcher m kind required pr = Inr pr' \<longleftrightarrow>
   (\<forall>ci \<in> set (sb_control_input batcher). ci_name ci \<noteq> []) \<and>
   distinct (map ci_name (sb_control_input batcher)) \<and>
   (case controls_of kind (sb_control_input batcher) of
      [] \<Rightarrow> \<not> required \<and> pr' = pr\<lparr>cp_tensor_name := []\<rparr>
    | [nc] \<Rightarrow> control_values_ok (snd nc) \<and> pr' = set_control nc pr
    | _ \<Rightarrow> False)"
  by (rule control_spec)


definition bert_controls :: sequence_batching where
  "bert_controls = \<lparr>sb_max_sequence_idle_microseconds = 0, sb_control_input =
     [\<lparr>ci_name = ''START'', ci_control = [\<lparr>ct_kind = CONTROL_SEQUENCE_START,
        ct_int32_false_true = [0, 1], ct_fp32_false_true = []\<rparr>]\<rparr>,
      \<lparr>ci_name = ''READY'', ci_control = [\<lparr>ct_kind = CONTROL_SEQUENCE_READY,
        ct_int32_false_true = [], ct_fp32_false_true = [0, 1065353216]\<rparr>]\<rparr>]\<rparr>"

theorem GetSequenceControlProperties_spec_witness:
  "\<exists>pr'. GetSequenceControlProperties bert_controls ''m'' CONTROL_SEQUENCE_READY True control_props_init = Inr pr'
     \<and> cp_tensor_name pr' = ''READY'' \<and> cp_fp32_true_value pr' = 1065353216"
  unfolding GetSequenceControlProperties_spec
  by (simp add: bert_controls_def controls_of_def control_values_ok_def set_control_def)

text \<open>
  The check that a tensor is not configured for several controls compares the names of different
  \<open>control_input\<close> entries only.

  One tensor that carries both a START and a READY control of integer values is accepted
  for both, so both kinds are read from the same tensor.
\<close>

theorem GetSequenceControlProperties_shared_tensor:
  assumes "sb_control_input batcher = [ci]" and "ci_name ci \<noteq> []"
    and "ci_control ci = [start, ready]"
    and "ct_kind start = CONTROL_SEQUENCE_START" and "ct_kind ready = CONTROL_SEQUENCE_READY"
    and "control_values_ok start" and "control_values_ok ready"
  shows "\<exists>p q. GetSequenceControlProperties batcher m CONTROL_SEQUENCE_START True pr = Inr p \<and>
    GetSequenceControlProperties batcher m CONTROL_SEQUENCE_READY True pr = Inr q \<and>
    cp_tensor_name p = ci_name ci \<and> cp_tensor_name q = ci_name ci"
proof -
  have "GetSequenceControlProperties batcher m CONTROL_SEQUENCE_START True pr =
      Inr (set_control (ci_name ci, start) pr)"
    unfolding control_spec using assms by (simp add: controls_of_def)
  moreover have "GetSequenceControlProperties batcher m CONTROL_SEQUENCE_READY True pr =
      Inr (set_control (ci_name ci, ready) pr)"
    unfolding control_spec using assms by (simp add: controls_of_def)
  ultimately show ?thesis by (simp add: set_control_def)
qed

definition shared_ci :: control_input where
  "shared_ci = \<lparr>ci_name = ''C'', ci_control =
     [\<lparr>ct_kind = CONTROL_SEQUENCE_START, ct_int32_false_true = [0, 1], ct_fp32_false_true = []\<rparr>,
      \<lparr>ct_kind = CONTROL_SEQUENCE_READY, ct_int32_false_true = [0, 1], ct_fp32_false_true = []\<rparr>]\<rparr>"

theorem GetSequenceControlProperties_shared_tensor_witness:
  "\<exists>p q. GetSequenceControlProperties
      \<lparr>sb_max_sequence_idle_microseconds = 0, sb_control_input = [shared_ci]\<rparr>
      ''m'' CONTROL_SEQUENCE_START True control_props_init = Inr p \<and>
    GetSequenceControlProperties
      \<lparr>sb_max_sequence_idle_microseconds = 0, sb_control_input = [shared_ci]\<rparr>
      ''m'' CONTROL_SEQUENCE_READY True control_props_init = Inr q \<and>
    cp_tensor_name p = ci_name shared_ci \<and> cp_tensor_name q = ci_name shared_ci"
  by (rule GetSequenceControlProperties_shared_tensor [where start = "ci_control shared_ci ! 0"
      and ready = "ci_control shared_ci ! 1"]) (simp_all add: shared_ci_def control_values_ok_def)

section \<open>Normalization\<close>

lemma normalize_group_sel:
  "ig_name (normalize_group n d k g) = (if ig_name g = [] then n @ ''_'' @ show_nat k else ig_name g)"
  "ig_kind (normalize_group n d k g) =
     (if ig_kind g = KIND_AUTO then
        (if d = 0 \<or> list_ex (bad_gpu d) (ig_gpus g) then KIND_CPU else KIND_GPU)
      else ig_kind g)"
  "ig_count (normalize_group n d k g) = (if ig_count g < 1 then 1 else ig_count g)"
  "ig_gpus (normalize_group n d k g) =
     (if ig_kind (normalize_group n d k g) = KIND_GPU \<and> ig_gpus g = [] then map int [0..<nat d]
      else ig_gpus g)"
  by (auto simp: normalize_group_def Let_def)

lemma normalize_group_idem [simp]:
  "normalize_group n' d k' (normalize_group n d k g) = normalize_group n d k g"
proof (rule instance_group.equality)
  let ?g = "normalize_group n d k g"
  have name: "ig_name ?g \<noteq> []" and kind: "ig_kind ?g \<noteq> KIND_AUTO" and count: "\<not> ig_count ?g < 1"
    by (simp_all add: normalize_group_sel)
  have gpus: "ig_kind ?g = KIND_GPU \<Longrightarrow> ig_gpus ?g = [] \<Longrightarrow> map int [0..<nat d] = []"
    using normalize_group_sel(4) [of n d k g] by presburger
  have kind': "ig_kind (normalize_group n' d k' ?g) = ig_kind ?g"
    using kind by (simp only: normalize_group_sel(2) [of n' d k' ?g] if_False)
  show "ig_name (normalize_group n' d k' ?g) = ig_name ?g"
    using name by (simp only: normalize_group_sel(1) [of n' d k' ?g] if_False)
  show "ig_kind (normalize_group n' d k' ?g) = ig_kind ?g" by (rule kind')
  show "ig_count (normalize_group n' d k' ?g) = ig_count ?g"
    using count by (simp only: normalize_group_sel(3) [of n' d k' ?g] if_False)
  show "ig_gpus (normalize_group n' d k' ?g) = ig_gpus ?g"
    unfolding normalize_group_sel(4) [of n' d k' ?g] kind' using gpus by presburger
qed simp

lemma normalize_groups_idem [simp]:
  "normalize_groups n' d k' (normalize_groups n d k gs) = normalize_groups n d k gs"
  by (induction n d k gs arbitrary: k' rule: normalize_groups.induct) simp_all

lemma length_normalize_groups [simp]: "length (normalize_groups n d k gs) = length gs"
  by (induction n d k gs rule: normalize_groups.induct) simp_all

lemma set_normalize_groups:
  "g \<in> set (normalize_groups n d k gs) \<Longrightarrow> \<exists>g0 \<in> set gs. \<exists>k'. g = normalize_group n d k' g0"
  by (induction n d k gs rule: normalize_groups.induct) auto

text \<open>The steps of the normalization as field updates.\<close>

declare get_ensemble_scheduling.simps [simp del]

definition filename_settled :: "model_config \<Rightarrow> bool" where
  "filename_settled c \<longleftrightarrow> mc_default_model_filename c \<noteq> [] \<or> mc_platform c = kEnsemblePlatform"

lemma default_model_filename_settled: "filename_settled c \<Longrightarrow> default_model_filename c = Inr c"
  by (auto simp: filename_settled_def default_model_filename_def)

lemma default_model_filename_Inr:
  "default_model_filename c = Inr c' \<Longrightarrow>
   filename_settled c' \<and> c' = c\<lparr>mc_default_model_filename := mc_default_model_filename c'\<rparr>"
  unfolding default_model_filename_def filename_settled_def
  by (simp split: if_split_asm) auto


lemma default_version_policy_sel [simp]:
  "mc_version_policy (default_version_policy c) \<noteq> None"
  "mc_scheduling (default_version_policy c) = mc_scheduling c"
  "mc_platform (default_version_policy c) = mc_platform c"
  "mc_name (default_version_policy c) = mc_name c"
  "mc_instance_group (default_version_policy c) = mc_instance_group c"
  "mc_default_model_filename (default_version_policy c) = mc_default_model_filename c"
  "mc_max_batch_size (default_version_policy c) = mc_max_batch_size c"
  by (auto simp: default_version_policy_def)

lemma default_version_policy_settled [simp]:
  "mc_version_policy c \<noteq> None \<Longrightarrow> default_version_policy c = c"
  by (simp add: default_version_policy_def)

lemma default_scheduling_sel [simp]:
  "mc_version_policy (default_scheduling c) = mc_version_policy c"
  "mc_platform (default_scheduling c) = mc_platform c"
  "mc_name (default_scheduling c) = mc_name c"
  "mc_instance_group (default_scheduling c) = mc_instance_group c"
  "mc_default_model_filename (default_scheduling c) = mc_default_model_filename c"
  "mc_max_batch_size (default_scheduling c) = mc_max_batch_size c"
  by (auto simp: default_scheduling_def split: scheduling_choice.splits)

definition scheduling_settled :: "model_config \<Rightarrow> bool" where
  "scheduling_settled c \<longleftrightarrow>
     (case mc_scheduling c of
        Dynamic_batching db \<Rightarrow> db_preferred_batch_size db \<noteq> [] \<or> mc_max_batch_size c < 4
      | Sequence_batching sb \<Rightarrow> sb_max_sequence_idle_microseconds sb \<noteq> 0
      | _ \<Rightarrow> True)"

lemma default_scheduling_settles: "scheduling_settled (default_scheduling c)"
  by (auto simp: scheduling_settled_def default_scheduling_def split: scheduling_choice.splits)

lemma default_scheduling_settled: "scheduling_settled c \<Longrightarrow> default_scheduling c = c"
  by (cases c) (auto simp: scheduling_settled_def default_scheduling_def split: scheduling_choice.splits)

lemma device_count_prefix: "device_count p cuda = Inr d \<Longrightarrow> device_count q cuda = Inr d"
  by (cases cuda) (auto simp: device_count_def)

lemma normalize_groups_Nil_iff [simp]: "normalize_groups n d k gs = [] \<longleftrightarrow> gs = []"
  by (cases gs) auto

text \<open>The groups the normalization starts from.\<close>

definition initial_groups :: "model_config \<Rightarrow> instance_group list" where
  "initial_groups c =
     (if mc_instance_group c = []
      then [\<lparr>ig_name = mc_name c, ig_kind = KIND_AUTO, ig_count = 0, ig_gpus = []\<rparr>]
      else mc_instance_group c)"

lemma default_instance_groups_Inr:
  "default_instance_groups cuda c = Inr c' \<longleftrightarrow>
   (if get_ensemble_scheduling c = None then
      (\<exists>d. device_count [] cuda = Inr d \<and>
         c' = c\<lparr>mc_instance_group := normalize_groups (mc_name c) d 0 (initial_groups c)\<rparr>)
    else c' = c)"
  by (cases cuda) (auto simp: default_instance_groups_def initial_groups_def device_count_def Let_def)

lemma get_ensemble_update [simp]:
  "get_ensemble_scheduling (c\<lparr>mc_instance_group := gs\<rparr>) = get_ensemble_scheduling c"
  "get_ensemble_scheduling (c\<lparr>mc_default_model_filename := f\<rparr>) = get_ensemble_scheduling c"
  "get_ensemble_scheduling (default_version_policy c) = get_ensemble_scheduling c"
  "get_ensemble_scheduling (default_scheduling c) = get_ensemble_scheduling c"
  by (auto simp: get_ensemble_scheduling.simps default_scheduling_def split: scheduling_choice.splits)

lemma default_instance_groups_idem:
  assumes "default_instance_groups cuda c = Inr c'"
  shows "default_instance_groups cuda c' = Inr c'"
proof (cases "get_ensemble_scheduling c = None")
  case True
  then obtain d where d: "device_count [] cuda = Inr d"
    "c' = c\<lparr>mc_instance_group := normalize_groups (mc_name c) d 0 (initial_groups c)\<rparr>"
    using assms unfolding default_instance_groups_Inr by auto
  have ne: "initial_groups c \<noteq> []" by (simp add: initial_groups_def)
  then have "initial_groups c' = mc_instance_group c'" using d(2) by (simp add: initial_groups_def)
  then show ?thesis
    using True d unfolding default_instance_groups_Inr by simp
next
  case False
  then have "c' = c" using assms unfolding default_instance_groups_Inr by simp
  then show ?thesis using assms by simp
qed

lemma normalize_config_parts:
  "normalize_config cuda c = Inr c' \<longleftrightarrow> mc_platform c \<noteq> [] \<and>
   (\<exists>c1. default_model_filename c = Inr c1 \<and>
      default_instance_groups cuda (default_scheduling (default_version_policy c1)) = Inr c')"
  by (auto simp: normalize_config_def split: sum.splits)

text \<open>What the last step keeps.\<close>

lemma default_instance_groups_keeps:
  assumes "default_instance_groups cuda c = Inr c'"
  shows "\<exists>gs. c' = c\<lparr>mc_instance_group := gs\<rparr>"
  using assms unfolding default_instance_groups_Inr
  by (auto split: if_splits intro: exI [of _ "mc_instance_group c"])

text \<open>
  Normalizing a normalized configuration again, with the same devices, changes nothing.
\<close>

theorem normalize_config_idempotent:
  assumes "normalize_config cuda c = Inr c'"
  shows "normalize_config cuda c' = Inr c'"
proof -
  obtain c1 where c1: "mc_platform c \<noteq> []" "default_model_filename c = Inr c1"
    "default_instance_groups cuda (default_scheduling (default_version_policy c1)) = Inr c'"
    using assms unfolding normalize_config_parts by blast
  let ?c2 = "default_scheduling (default_version_policy c1)"
  obtain gs where gs: "c' = ?c2\<lparr>mc_instance_group := gs\<rparr>"
    using default_instance_groups_keeps [OF c1(3)] by blast
  have c1': "filename_settled c1" "mc_platform c1 = mc_platform c"
    using default_model_filename_Inr [OF c1(2)] by (auto, metis model_config.select_convs(2) model_config.surjective model_config.update_convs(10))
  have "filename_settled c'" "mc_platform c' \<noteq> []" "mc_version_policy c' \<noteq> None"
    using c1' c1(1) gs by (auto simp: filename_settled_def)
  moreover have "scheduling_settled c'"
    using default_scheduling_settles [of "default_version_policy c1"] gs
    by (simp add: scheduling_settled_def split: scheduling_choice.splits)
  ultimately show ?thesis
    using default_instance_groups_idem [OF c1(3)]
    by (simp add: normalize_config_parts default_model_filename_settled default_scheduling_settled)
qed


definition gpu_config :: model_config where
  "gpu_config = model_config_clear\<lparr>mc_name := ''bert'', mc_platform := ''tensorrt_plan'',
     mc_max_batch_size := 8,
     mc_scheduling := Dynamic_batching
       \<lparr>db_preferred_batch_size = [], db_max_queue_delay_microseconds = 0\<rparr>\<rparr>"

definition gpu_config_normalized :: model_config where
  "gpu_config_normalized = gpu_config\<lparr>mc_default_model_filename := ''model.plan'',
     mc_version_policy := Some (Policy_latest 1),
     mc_scheduling := Dynamic_batching
       \<lparr>db_preferred_batch_size = [4, 8], db_max_queue_delay_microseconds = 0\<rparr>,
     mc_instance_group :=
       [\<lparr>ig_name = ''bert'', ig_kind = KIND_GPU, ig_count = 1, ig_gpus = [0, 1]\<rparr>]\<rparr>"

lemma gpu_config_normalizes:
  "normalize_config (Cuda_success 2) gpu_config = Inr gpu_config_normalized"
  by code_simp

theorem normalize_config_idempotent_witness:
  "normalize_config (Cuda_success 2) gpu_config_normalized = Inr gpu_config_normalized"
  by (rule normalize_config_idempotent [OF gpu_config_normalizes])

section \<open>Validation\<close>

lemma validate_group_normalized:
  assumes "ig_kind g = KIND_AUTO" and "ig_gpus g = []" and "0 \<le> d"
  shows "IsOk (validate_group c d (normalize_group n d k g))"
proof (cases "d = 0")
  case True
  then show ?thesis using assms by (simp add: validate_group_def normalize_group_sel)
next
  case False
  then have "\<forall>gid \<in> set (ig_gpus (normalize_group n d k g)). 0 \<le> gid \<and> gid < d"
    "ig_gpus (normalize_group n d k g) \<noteq> []"
    using assms by (auto simp: normalize_group_sel)
  then show ?thesis using assms False by (auto simp: validate_group_def normalize_group_sel(2))
qed

text \<open>
  A configuration that leaves the instance groups to the server always has valid groups
  after normalization: one group, on all the GPUs of the machine or on the CPU without any.
\<close>

theorem normalize_config_groups_valid:
  assumes "normalize_config cuda c = Inr c'" and "mc_instance_group c = []"
    and "get_ensemble_scheduling c = None" and "mc_platform c \<noteq> kEnsemblePlatform"
    and "\<forall>n. cuda = Cuda_success n \<longrightarrow> 0 \<le> n"
  shows "IsOk (validate_groups cuda c')"
proof -
  obtain c1 where c1: "default_model_filename c = Inr c1"
    "default_instance_groups cuda (default_scheduling (default_version_policy c1)) = Inr c'"
    using assms(1) unfolding normalize_config_parts by blast
  define c2 where "c2 = default_scheduling (default_version_policy c1)"
  obtain f where f: "c1 = c\<lparr>mc_default_model_filename := f\<rparr>"
    using default_model_filename_Inr [OF c1(1)] by blast
  have c2: "get_ensemble_scheduling c2 = None" "mc_instance_group c2 = []" "mc_platform c2 = mc_platform c"
    using assms f by (simp_all add: c2_def)
  then obtain d where d: "device_count [] cuda = Inr d"
    "c' = c2\<lparr>mc_instance_group := normalize_groups (mc_name c2) d 0 (initial_groups c2)\<rparr>"
    using c1(2) unfolding default_instance_groups_Inr c2_def [symmetric] by auto
  have "0 \<le> d" using d(1) assms(5) by (cases cuda) (auto simp: device_count_def)
  then show ?thesis
    using c2 d assms(4) device_count_prefix [OF d(1)]
    by (simp add: validate_groups_def initial_groups_def validate_group_normalized)
qed

theorem normalize_config_groups_valid_witness:
  "IsOk (validate_groups (Cuda_success 2) gpu_config_normalized)"
  by (rule normalize_config_groups_valid [OF gpu_config_normalizes])
    (simp_all add: gpu_config_def model_config_clear_def get_ensemble_scheduling.simps)

text \<open>
  The configuration documentation says that a KIND_AUTO group one of whose GPUs is not available
  runs on the CPU.

  Such a group is normalized to KIND_CPU with its list of GPUs kept, and validation then
  rejects every KIND_CPU group that lists a GPU: the fallback to the CPU is never accepted.
\<close>

theorem auto_group_absent_gpu_rejected:
  assumes "ig_kind g = KIND_AUTO" and "gid \<in> set (ig_gpus g)" and "d \<le> gid"
  shows "ig_kind (normalize_group n d k g) = KIND_CPU \<and>
    \<not> IsOk (validate_group c d (normalize_group n d k g))"
  using assms by (auto simp: normalize_group_sel validate_group_def list_ex_iff bad_gpu_def)

theorem auto_group_absent_gpu_rejected_witness:
  "\<not> IsOk (validate_group gpu_config 1 (normalize_group ''m'' 1 0
     \<lparr>ig_name = [], ig_kind = KIND_AUTO, ig_count = 0, ig_gpus = [0, 1]\<rparr>))"
  using auto_group_absent_gpu_rejected
    [of "\<lparr>ig_name = [], ig_kind = KIND_AUTO, ig_count = 0, ig_gpus = [0, 1]\<rparr>" 1 1 "''m''" 0 gpu_config]
  by simp

end
