(* ===== verification/Sequence_Batch.thy ===== *)
theory Sequence_Batch
  imports Scheduler Config_Facts "HOL-Library.Multiset"
begin

unbundle bit_operations_syntax

text \<open>
  \<open>src/core/sequence_batch_scheduler.cc\<close>: the assignment of sequences to batch slots, the backlog
  of sequences that wait for a slot, the batch each runner executes, the reaper of idle sequences.
  Backlog queues are shared objects (a queue is reached through \<open>backlog_queues_\<close> and through
  \<open>sequence_to_backlog_map_\<close>), so they live in an explicit store and are named by their address.
\<close>

section \<open>State\<close>

type_synonym correlation_id = "64 word"

record batch_slot =
  bs_batcher_idx :: nat
  bs_slot :: nat

definition BatchSlot :: "nat \<Rightarrow> nat \<Rightarrow> batch_slot" where
  "BatchSlot b s = \<lparr>bs_batcher_idx = b, bs_slot = s\<rparr>"

record seq_base =
  sq_max_sequence_idle_microseconds :: "64 word"
  sq_batchslot_map :: "correlation_id \<rightharpoonup> batch_slot"
  sq_backlog_map :: "correlation_id \<rightharpoonup> nat"
  sq_backlog_queues :: "nat list"
  sq_store :: "nat \<Rightarrow> payload list"
  sq_next_queue :: nat
  sq_ready_batch_slots :: "batch_slot list"
  sq_timestamps :: "(correlation_id \<times> 64 word) list"
  sq_backlog_delay_cnt :: nat
  sq_queue_request_cnts :: "nat list"

record seq_batch =
  bt_batcher_idx :: nat
  bt_scheduler_idle :: bool
  bt_null_request_header :: request_header
  bt_queues :: "payload list list"
  bt_max_active_slot :: int
  bt_slot_correlation_ids :: "correlation_id list"
  bt_start_input_overrides :: input_override_map
  bt_continue_input_overrides :: input_override_map
  bt_notready_input_overrides :: input_override_map

subsection \<open>The heap of ready slots\<close>

text \<open>
  \<open>std::priority_queue\<close> ordered by \<open>BatchSlotCompare\<close>: its top is a slot with the lowest slot
  number. The standard leaves the order of equal slots open; here the one pushed first is on top.
\<close>

fun slots_top :: "batch_slot list \<Rightarrow> batch_slot" where
  "slots_top [] = BatchSlot 0 0"
| "slots_top [x] = x"
| "slots_top (x # y # ys) =
     (let m = slots_top (y # ys) in if \<not> bs_slot x > bs_slot m then x else m)"

definition slots_push :: "batch_slot \<Rightarrow> batch_slot list \<Rightarrow> batch_slot list" where
  "slots_push x xs = xs @ [x]"

definition slots_pop :: "batch_slot list \<Rightarrow> batch_slot list" where
  "slots_pop xs = remove1 (slots_top xs) xs"

section \<open>Control tensors\<close>

text \<open>The four bytes of an \<open>int32_t\<close> or a \<open>float\<close> in memory, least significant first.\<close>

definition bytes_of :: "32 word \<Rightarrow> 8 word list" where
  "bytes_of w = map (\<lambda>i. ucast (drop_bit (8 * i) w)) [0, 1, 2, 3]"

definition control_override :: "control_props \<Rightarrow> bool \<Rightarrow> input_override" where
  "control_override pr v =
     \<lparr>io_content = bytes_of (if cp_tensor_datatype pr = TYPE_INT32
        then (if v then cp_int32_true_value pr else cp_int32_false_value pr)
        else (if v then cp_fp32_true_value pr else cp_fp32_false_value pr)),
      io_dims = [1], io_datatype = cp_tensor_datatype pr\<rparr>"

record control_tensors =
  ctl_start :: input_override_map
  ctl_continue :: input_override_map
  ctl_notready :: input_override_map

text \<open>The uninitialised locals the properties are read into are \<open>control_props_init\<close>.\<close>

definition CreateControlTensors :: "model_config \<Rightarrow> sequence_batching \<Rightarrow> status + control_tensors" where
  "CreateControlTensors config sb =
     bind_status (GetSequenceControlProperties sb (mc_name config) CONTROL_SEQUENCE_START True
       control_props_init) (\<lambda>p1.
     bind_status (GetSequenceControlProperties sb (mc_name config) CONTROL_SEQUENCE_READY True p1) (\<lambda>p2.
     Inr \<lparr>ctl_start = override_insert (cp_tensor_name p2) (control_override p2 True)
            (override_insert (cp_tensor_name p1) (control_override p1 True) []),
          ctl_continue = override_insert (cp_tensor_name p2) (control_override p2 True)
            (override_insert (cp_tensor_name p1) (control_override p1 False) []),
          ctl_notready = override_insert (cp_tensor_name p2) (control_override p2 False)
            (override_insert (cp_tensor_name p1) (control_override p1 False) [])\<rparr>))"

section \<open>Creation\<close>

text \<open>\<open>backlog_delay_cnt\<close> is the value of TRTSERVER_BACKLOG_DELAY_SCHEDULER, 0 when it is not set.\<close>

definition SequenceBatch_new :: "nat \<Rightarrow> nat \<Rightarrow> control_tensors \<Rightarrow> seq_batch" where
  "SequenceBatch_new batcher_idx batch_size ctl =
     \<lparr>bt_batcher_idx = batcher_idx, bt_scheduler_idle = False,
      bt_null_request_header = request_header_clear, bt_queues = replicate batch_size [],
      bt_max_active_slot = -1, bt_slot_correlation_ids = replicate batch_size 0,
      bt_start_input_overrides = ctl_start ctl, bt_continue_input_overrides = ctl_continue ctl,
      bt_notready_input_overrides = ctl_notready ctl\<rparr>"

definition seq_Create ::
  "model_config \<Rightarrow> sequence_batching \<Rightarrow> nat \<Rightarrow> nat \<Rightarrow> status + seq_base \<times> seq_batch list" where
  "seq_Create config sb runner_cnt backlog_delay_cnt =
     (let batch_size = nat (max 1 (mc_max_batch_size config)) in
      bind_status (CreateControlTensors config sb) (\<lambda>ctl.
      Inr (\<lparr>sq_max_sequence_idle_microseconds = sb_max_sequence_idle_microseconds sb,
            sq_batchslot_map = Map.empty, sq_backlog_map = Map.empty, sq_backlog_queues = [],
            sq_store = (\<lambda>_. []), sq_next_queue = 0,
            sq_ready_batch_slots =
              foldl (\<lambda>q x. slots_push x q) [] [BatchSlot c b. c \<leftarrow> [0..<runner_cnt], b \<leftarrow> [0..<batch_size]],
            sq_timestamps = [], sq_backlog_delay_cnt = backlog_delay_cnt,
            sq_queue_request_cnts = replicate runner_cnt 0\<rparr>,
           map (\<lambda>c. SequenceBatch_new c batch_size ctl) [0..<runner_cnt])))"

section \<open>Enqueue\<close>

abbreviation FLAG_SEQUENCE_START :: "32 word" where "FLAG_SEQUENCE_START \<equiv> 1"
abbreviation FLAG_SEQUENCE_END :: "32 word" where "FLAG_SEQUENCE_END \<equiv> 2"

definition seq_start :: "request_header \<Rightarrow> bool" where
  "seq_start h \<longleftrightarrow> rh_flags h AND FLAG_SEQUENCE_START \<noteq> 0"

definition seq_end :: "request_header \<Rightarrow> bool" where
  "seq_end h \<longleftrightarrow> rh_flags h AND FLAG_SEQUENCE_END \<noteq> 0"

text \<open>
  What the critical section of \<open>Enqueue\<close> decides: the request fails, it waits in the backlog, or it
  is to be enqueued, after the lock is released, in the batcher and slot given.
\<close>

datatype enqueue_result =
    Enqueue_complete status
  | Enqueue_backlog
  | Enqueue_slot batch_slot

text \<open>
  The end of \<open>Enqueue\<close>: a sequence that ends is forgotten before the slot is read through
  \<open>target\<close>. The pointer may then point into the erased map node; the model takes the value it had.
\<close>

definition assign_slot ::
  "correlation_id \<Rightarrow> bool \<Rightarrow> batch_slot \<Rightarrow> seq_base \<Rightarrow> enqueue_result \<times> seq_base" where
  "assign_slot cid ends target s =
     (Enqueue_slot target,
      if ends then s\<lparr>sq_batchslot_map := (sq_batchslot_map s)(cid := None)\<rparr> else s)"

definition seq_Enqueue ::
  "64 word \<Rightarrow> payload \<Rightarrow> request_provider \<Rightarrow> seq_base \<Rightarrow> enqueue_result \<times> seq_base" where
  "seq_Enqueue now_us p rp s =
     (let h = rp_header rp; cid = rh_correlation_id h in
      if rh_batch_size h \<noteq> 1 then
        (Enqueue_complete (Status INVALID_ARG (''inference request to model '' @ quote (rp_model_name rp) @
           '' must specify batch-size 1 due to requirements of sequence batcher'')), s)
      else if cid = 0 then
        (Enqueue_complete (Status INVALID_ARG (''inference request to model '' @ quote (rp_model_name rp) @
           '' must specify a non-zero correlation ID'')), s)
      else if \<not> seq_start h \<and> sq_batchslot_map s cid = None \<and> sq_backlog_map s cid = None then
        (Enqueue_complete (Status INVALID_ARG (''inference request for sequence '' @
           show_nat (unat cid) @ '' to model '' @ quote (rp_model_name rp) @
           '' must specify the START flag on the first request of the sequence'')), s)
      else
        (let s1 = s\<lparr>sq_timestamps := AList.update cid now_us (sq_timestamps s)\<rparr> in
         case sq_batchslot_map s1 cid of
           Some target \<Rightarrow> assign_slot cid (seq_end h) target s1
         | None \<Rightarrow>
             (case sq_backlog_map s1 cid of
                Some q \<Rightarrow>
                  (Enqueue_backlog,
                   s1\<lparr>sq_store := (sq_store s1)(q := sq_store s1 q @ [p]),
                      sq_backlog_map := (if seq_end h then (sq_backlog_map s1)(cid := None)
                                         else sq_backlog_map s1)\<rparr>)
              | None \<Rightarrow>
                  (if sq_ready_batch_slots s1 \<noteq> [] then
                     (let target = slots_top (sq_ready_batch_slots s1)
                      in assign_slot cid (seq_end h) target
                           (s1\<lparr>sq_batchslot_map := (sq_batchslot_map s1)(cid \<mapsto> target),
                               sq_ready_batch_slots := slots_pop (sq_ready_batch_slots s1)\<rparr>))
                   else
                     (let q = sq_next_queue s1
                      in (Enqueue_backlog,
                          s1\<lparr>sq_next_queue := q + 1,
                             sq_backlog_queues := sq_backlog_queues s1 @ [q],
                             sq_store := (sq_store s1)(q := [p]),
                             sq_backlog_map := (if \<not> seq_end h then (sq_backlog_map s1)(cid \<mapsto> q)
                                                else sq_backlog_map s1)\<rparr>))))))"

text \<open>\<open>SequenceBatch::Enqueue\<close>, and whether the runner is woken.\<close>

definition bt_Enqueue :: "nat \<Rightarrow> correlation_id \<Rightarrow> payload \<Rightarrow> seq_batch \<Rightarrow> seq_batch \<times> bool" where
  "bt_Enqueue slot cid p b =
     (b\<lparr>bt_null_request_header :=
          (if bt_max_active_slot b = -1 \<and> pl_request_provider p \<noteq> None then pl_header p
           else bt_null_request_header b),
        bt_queues := (bt_queues b)[slot := bt_queues b ! slot @ [p]],
        bt_slot_correlation_ids := (bt_slot_correlation_ids b)[slot := cid],
        bt_max_active_slot := max (bt_max_active_slot b) (int slot)\<rparr>,
      bt_scheduler_idle b)"

section \<open>Release of a slot\<close>

definition ReleaseBatchSlot ::
  "batch_slot \<Rightarrow> payload list \<Rightarrow> seq_base \<Rightarrow> bool \<times> payload list \<times> seq_base" where
  "ReleaseBatchSlot batch_slot payloads s =
     (case sq_backlog_queues s of
        [] \<Rightarrow> (True, payloads,
                s\<lparr>sq_ready_batch_slots := slots_push batch_slot (sq_ready_batch_slots s)\<rparr>)
      | q # qs \<Rightarrow>
          (let payloads' = sq_store s q;
               s1 = s\<lparr>sq_store := (sq_store s)(q := []), sq_backlog_queues := qs\<rparr>
           in if payloads' \<noteq> [] then
                (let h = pl_header (last payloads'); cid = rh_correlation_id h
                 in (False, payloads',
                     if \<not> seq_end h then
                       s1\<lparr>sq_backlog_map := (sq_backlog_map s1)(cid := None),
                          sq_batchslot_map := (sq_batchslot_map s1)(cid \<mapsto> batch_slot)\<rparr>
                     else s1))
              else (True, payloads',
                s1\<lparr>sq_ready_batch_slots := slots_push batch_slot (sq_ready_batch_slots s1)\<rparr>)))"

definition DelayScheduler :: "nat \<Rightarrow> nat \<Rightarrow> nat \<Rightarrow> seq_base \<Rightarrow> bool \<times> seq_base" where
  "DelayScheduler batcher_idx cnt tot s =
     (let s1 = s\<lparr>sq_queue_request_cnts := (sq_queue_request_cnts s)[batcher_idx := cnt]\<rparr>;
          seen = sum_list (sq_queue_request_cnts s1)
      in if seen < tot then (True, s1)
         else if sq_backlog_delay_cnt s1 > 0 \<and>
                 sum_list (map (\<lambda>q. length (sq_store s1 q)) (sq_backlog_queues s1)) < sq_backlog_delay_cnt s1
         then (True, s1) else (False, s1))"


section \<open>The reaper\<close>

text \<open>
  One pass of \<open>ReaperThread\<close> over the timestamps, in the order of the map. Its result is the
  scheduler, the timestamps it keeps, the microseconds to sleep and the force-end payloads it
  enqueues, with their slots, in order.
\<close>

record reaper_pass =
  rp_base :: seq_base
  rp_kept :: "(correlation_id \<times> 64 word) list"
  rp_wait_microseconds :: "64 word"
  rp_force_ends :: "(batch_slot \<times> correlation_id) list"

abbreviation backlog_idle_wait_microseconds :: "64 word" where
  "backlog_idle_wait_microseconds \<equiv> 50 * 1000"

definition remaining_microseconds :: "seq_base \<Rightarrow> 64 word \<Rightarrow> 64 word \<Rightarrow> int" where
  "remaining_microseconds s now_us ts = sint (sq_max_sequence_idle_microseconds s - (now_us - ts))"

fun reaper_loop :: "64 word \<Rightarrow> (correlation_id \<times> 64 word) list \<Rightarrow> reaper_pass \<Rightarrow> reaper_pass" where
  "reaper_loop now_us [] r = r"
| "reaper_loop now_us ((cid, ts) # rest) r =
     (let s = rp_base r; remaining = remaining_microseconds s now_us ts in
      if remaining > 0 then
        reaper_loop now_us rest
          (r\<lparr>rp_wait_microseconds := min (rp_wait_microseconds r) (word_of_int remaining + 1),
             rp_kept := rp_kept r @ [(cid, ts)]\<rparr>)
      else
        (case sq_batchslot_map s cid of
           Some slot \<Rightarrow>
             reaper_loop now_us rest
               (r\<lparr>rp_base := s\<lparr>sq_batchslot_map := (sq_batchslot_map s)(cid := None)\<rparr>,
                  rp_force_ends := rp_force_ends r @ [(slot, cid)]\<rparr>)
         | None \<Rightarrow>
             (case sq_backlog_map s cid of
                Some q \<Rightarrow>
                  reaper_loop now_us rest
                    (r\<lparr>rp_wait_microseconds := min (rp_wait_microseconds r) backlog_idle_wait_microseconds,
                       rp_kept := rp_kept r @ [(cid, ts)]\<rparr>)
              | None \<Rightarrow> reaper_loop now_us rest r)))"

definition seq_reap :: "64 word \<Rightarrow> seq_base \<Rightarrow> reaper_pass" where
  "seq_reap now_us s =
     (let r = reaper_loop now_us (sq_timestamps s)
                \<lparr>rp_base = s, rp_kept = [], rp_wait_microseconds = sq_max_sequence_idle_microseconds s,
                 rp_force_ends = []\<rparr>
      in r\<lparr>rp_base := (rp_base r)\<lparr>sq_timestamps := rp_kept r\<rparr>\<rparr>)"

text \<open>The payload with null providers and a null callback.\<close>

definition force_end_payload :: payload where
  "force_end_payload = Payload_new None None None None None"

definition deliver :: "batch_slot \<Rightarrow> correlation_id \<Rightarrow> payload \<Rightarrow> seq_batch list \<Rightarrow> seq_batch list" where
  "deliver slot cid p bs =
     bs[bs_batcher_idx slot := fst (bt_Enqueue (bs_slot slot) cid p (bs ! bs_batcher_idx slot))]"

section \<open>The scheduler thread of a batch\<close>

text \<open>The loop that looks for the largest slot with a payload: the index plus one, or 0.\<close>

fun max_slot_loop :: "payload list list \<Rightarrow> nat \<Rightarrow> nat" where
  "max_slot_loop queues 0 = 0"
| "max_slot_loop queues (Suc n) = (if queues ! n = [] then max_slot_loop queues n else Suc n)"

definition null_provider :: "request_header \<Rightarrow> request_provider" where
  "null_provider h =
     \<lparr>rp_id = 0, rp_model_name = ''<NULL>'', rp_header = h, rp_overrides = None\<rparr>"

text \<open>The state of the loop that collects the payloads.\<close>

record collect =
  cl_base :: seq_base
  cl_batch :: seq_batch
  cl_payloads :: "payload list"
  cl_adjust :: bool
  cl_clobbered :: "payload list"

text \<open>
  The part of the loop body that picks the payload of a slot: the payload, whether the sequence
  ended, and the queue that is left.
\<close>

definition null_payload :: "seq_batch \<Rightarrow> payload" where
  "null_payload b =
     Payload_new None None
       (Some (SetInputOverride (bt_notready_input_overrides b) (null_provider (bt_null_request_header b))))
       None None"

definition slot_payload :: "seq_batch \<Rightarrow> payload list \<Rightarrow> payload \<times> bool \<times> payload list" where
  "slot_payload b queue =
     (case queue of
        [] \<Rightarrow> (null_payload b, False, [])
      | p # rest \<Rightarrow>
          (case pl_request_provider p of
             None \<Rightarrow> (null_payload b, True, rest)
           | Some rp \<Rightarrow>
               (let h = rp_header rp;
                    rp' = SetInputOverride (if seq_start h then bt_start_input_overrides b
                                            else bt_continue_input_overrides b) rp
                in (Payload_new (pl_queue_timer p) (pl_stats p) (Some rp') (pl_response_provider p)
                      (pl_complete_function p), seq_end h, rest))))"

text \<open>
  The loop body for one slot. \<open>cl_clobbered\<close> is a ghost: the payloads that a backlog sequence
  overwrites when it is moved into a queue that is not empty.
\<close>

definition seq_slot :: "nat \<Rightarrow> collect \<Rightarrow> collect" where
  "seq_slot slot c =
     (let b = cl_batch c;
          (p, end_of_sequence, queue) = slot_payload b (bt_queues b ! slot);
          c1 = c\<lparr>cl_payloads := cl_payloads c @ [p],
                 cl_batch := b\<lparr>bt_queues := (bt_queues b)[slot := queue]\<rparr>\<rparr>
      in if end_of_sequence then
           (let (released, queue', base') =
                  ReleaseBatchSlot (BatchSlot (bt_batcher_idx b) slot) queue (cl_base c1);
                b1 = (cl_batch c1)\<lparr>bt_queues := (bt_queues (cl_batch c1))[slot := queue']\<rparr>;
                c2 = c1\<lparr>cl_base := base', cl_batch := b1,
                        cl_clobbered := cl_clobbered c1 @
                          (if sq_backlog_queues (cl_base c1) = [] then [] else queue)\<rparr>
            in if released then
                 c2\<lparr>cl_batch := b1\<lparr>bt_slot_correlation_ids := (bt_slot_correlation_ids b1)[slot := 0]\<rparr>,
                    cl_adjust := (cl_adjust c2 \<or> int slot = bt_max_active_slot b1)\<rparr>
               else c2)
         else c1)"

fun adjust_loop :: "correlation_id list \<Rightarrow> nat \<Rightarrow> nat" where
  "adjust_loop ids 0 = 0"
| "adjust_loop ids (Suc n) = (if ids ! n = 0 then adjust_loop ids n else Suc n)"

definition adjust_max_active_slot :: "seq_batch \<Rightarrow> seq_batch" where
  "adjust_max_active_slot b =
     b\<lparr>bt_max_active_slot :=
         int (adjust_loop (bt_slot_correlation_ids b) (nat (bt_max_active_slot b + 1))) - 1\<rparr>"

record seq_pass_result =
  sp_base :: seq_base
  sp_batch :: seq_batch
  sp_delay_cnt :: nat
  sp_payloads :: "payload list"
  sp_wait_microseconds :: "64 word"
  sp_clobbered :: "payload list"

definition seq_select :: "nat \<Rightarrow> seq_base \<Rightarrow> seq_batch \<Rightarrow> seq_pass_result" where
  "seq_select delay_cnt s b =
     (if delay_cnt > 0 then
        (let total_size = sum_list (map length (bt_queues b));
             (delay, s1) = DelayScheduler (bt_batcher_idx b) total_size delay_cnt s
         in \<lparr>sp_base = s1, sp_batch = b, sp_delay_cnt = (if \<not> delay then 0 else delay_cnt),
             sp_payloads = [], sp_wait_microseconds = 10 * 1000, sp_clobbered = []\<rparr>)
      else
        (let n = max_slot_loop (bt_queues b) (nat (bt_max_active_slot b + 1)) in
         if n = 0 then
           \<lparr>sp_base = s, sp_batch = b, sp_delay_cnt = delay_cnt, sp_payloads = [],
            sp_wait_microseconds = 500 * 1000, sp_clobbered = []\<rparr>
         else
           (let c = foldl (\<lambda>c slot. seq_slot slot c)
                      \<lparr>cl_base = s, cl_batch = b, cl_payloads = [], cl_adjust = False, cl_clobbered = []\<rparr>
                      [0..<n]
            in \<lparr>sp_base = cl_base c,
                sp_batch = (if cl_adjust c then adjust_max_active_slot (cl_batch c) else cl_batch c),
                sp_delay_cnt = delay_cnt, sp_payloads = cl_payloads c, sp_wait_microseconds = 0,
                sp_clobbered = cl_clobbered c\<rparr>)))"

text \<open>A pass of the thread through its critical section; a positive wait leaves it idle.\<close>

definition seq_pass :: "nat \<Rightarrow> seq_base \<Rightarrow> seq_batch \<Rightarrow> seq_pass_result" where
  "seq_pass delay_cnt s b =
     (let r = seq_select delay_cnt s b in
      if sp_wait_microseconds r > 0
      then r\<lparr>sp_batch := (sp_batch r)\<lparr>bt_scheduler_idle := True\<rparr>\<rparr> else r)"

definition seq_wait_over :: "seq_batch \<Rightarrow> seq_batch" where
  "seq_wait_over b = b\<lparr>bt_scheduler_idle := False\<rparr>"

section \<open>Completion of a batch\<close>

fun null_payload_error :: "payload list \<Rightarrow> status option" where
  "null_payload_error [] = None"
| "null_payload_error (p # ps) =
     (if pl_complete_function p = None then
        (if \<not> IsOk (pl_status p) then Some (pl_status p) else null_payload_error ps)
      else null_payload_error ps)"

definition seq_OnComplete :: "status \<Rightarrow> payload list \<Rightarrow> completion_event list" where
  "seq_OnComplete st payloads =
     (let st' = (if IsOk st then (case null_payload_error payloads of None \<Rightarrow> st | Some e \<Rightarrow> e) else st)
      in complete_loop False st' payloads)"

section \<open>The scheduler and its threads\<close>

text \<open>
  The threads interleave their critical sections. A request whose slot is known but that is not yet
  in its queue is in flight (\<open>sy_in_flight\<close>): the scheduler lock is released before the batch lock
  is taken. The runner of a batch holds its batch lock for a whole pass, but takes the scheduler
  lock for each slot it releases; \<open>sy_collecting\<close> holds the passes under way, with the slots still
  to visit. \<open>sy_accepted\<close>, \<open>sy_dispatched\<close> and \<open>sy_clobbered\<close> are ghosts: the requests accepted,
  the batches executed, the payloads overwritten.
\<close>

record seq_sys =
  sy_base :: seq_base
  sy_batches :: "seq_batch list"
  sy_in_flight :: "(batch_slot \<times> correlation_id \<times> payload) list"
  sy_collecting :: "nat \<rightharpoonup> collect \<times> nat list"
  sy_accepted :: "payload list"
  sy_rejected :: "status list"
  sy_dispatched :: "payload list list"
  sy_clobbered :: "payload list"

definition seq_system :: "seq_base \<times> seq_batch list \<Rightarrow> seq_sys" where
  "seq_system sb =
     \<lparr>sy_base = fst sb, sy_batches = snd sb, sy_in_flight = [], sy_collecting = Map.empty,
      sy_accepted = [], sy_rejected = [], sy_dispatched = [], sy_clobbered = []\<rparr>"


text \<open>What the caller of \<open>Enqueue\<close> goes on to do.\<close>

definition enqueue_done :: "enqueue_result \<Rightarrow> payload \<Rightarrow> seq_sys \<Rightarrow> seq_sys" where
  "enqueue_done res p y =
     (case res of
        Enqueue_complete st \<Rightarrow> y\<lparr>sy_rejected := sy_rejected y @ [st]\<rparr>
      | Enqueue_backlog \<Rightarrow> y\<lparr>sy_accepted := sy_accepted y @ [p]\<rparr>
      | Enqueue_slot t \<Rightarrow> y\<lparr>sy_accepted := sy_accepted y @ [p],
          sy_in_flight := sy_in_flight y @ [(t, rh_correlation_id (pl_header p), p)]\<rparr>)"

definition collect_begin :: "seq_base \<Rightarrow> seq_batch \<Rightarrow> collect" where
  "collect_begin s b =
     \<lparr>cl_base = s, cl_batch = b, cl_payloads = [], cl_adjust = False, cl_clobbered = []\<rparr>"

definition collect_end :: "collect \<Rightarrow> seq_batch" where
  "collect_end c = (if cl_adjust c then adjust_max_active_slot (cl_batch c) else cl_batch c)"

inductive seq_step :: "seq_sys \<Rightarrow> seq_sys \<Rightarrow> bool" where
  enqueue: "pl_request_provider p = Some rp \<Longrightarrow>
    seq_Enqueue now_us p rp (sy_base y) = (res, s') \<Longrightarrow>
    seq_step y (enqueue_done res p (y\<lparr>sy_base := s'\<rparr>))"
| deliver: "(t, cid, p) \<in> set (sy_in_flight y) \<Longrightarrow> sy_collecting y (bs_batcher_idx t) = None \<Longrightarrow>
    seq_step y (y\<lparr>sy_in_flight := remove1 (t, cid, p) (sy_in_flight y),
                  sy_batches := deliver t cid p (sy_batches y)\<rparr>)"
| reap: "seq_reap now_us (sy_base y) = r \<Longrightarrow>
    (\<forall>(t, cid) \<in> set (rp_force_ends r). sy_collecting y (bs_batcher_idx t) = None) \<Longrightarrow>
    seq_step y (y\<lparr>sy_base := rp_base r,
      sy_batches := foldl (\<lambda>bs (t, cid). deliver t cid force_end_payload bs) (sy_batches y) (rp_force_ends r)\<rparr>)"
| delay: "b < length (sy_batches y) \<Longrightarrow> sy_collecting y b = None \<Longrightarrow>
    seq_step y (y\<lparr>sy_base := snd (DelayScheduler b cnt tot (sy_base y))\<rparr>)"
| wait_begin: "b < length (sy_batches y) \<Longrightarrow> sy_collecting y b = None \<Longrightarrow>
    seq_step y (y\<lparr>sy_batches := (sy_batches y)[b := (sy_batches y ! b)\<lparr>bt_scheduler_idle := True\<rparr>]\<rparr>)"
| wait_over: "b < length (sy_batches y) \<Longrightarrow> sy_collecting y b = None \<Longrightarrow>
    seq_step y (y\<lparr>sy_batches := (sy_batches y)[b := seq_wait_over (sy_batches y ! b)]\<rparr>)"
| pass_begin: "b < length (sy_batches y) \<Longrightarrow> sy_collecting y b = None \<Longrightarrow> bt = sy_batches y ! b \<Longrightarrow>
    n = max_slot_loop (bt_queues bt) (nat (bt_max_active_slot bt + 1)) \<Longrightarrow> 0 < n \<Longrightarrow>
    seq_step y (y\<lparr>sy_collecting := (sy_collecting y)(b \<mapsto> (collect_begin (sy_base y) bt, [0..<n]))\<rparr>)"
| pass_slot: "sy_collecting y b = Some (c, i # rest) \<Longrightarrow>
    c' = seq_slot i (c\<lparr>cl_base := sy_base y\<rparr>) \<Longrightarrow>
    seq_step y (y\<lparr>sy_base := cl_base c', sy_collecting := (sy_collecting y)(b \<mapsto> (c', rest))\<rparr>)"
| pass_end: "sy_collecting y b = Some (c, []) \<Longrightarrow>
    seq_step y (y\<lparr>sy_batches := (sy_batches y)[b := collect_end c],
      sy_collecting := (sy_collecting y)(b := None),
      sy_dispatched := sy_dispatched y @ [cl_payloads c],
      sy_clobbered := sy_clobbered y @ cl_clobbered c\<rparr>)"

text \<open>A pass that nobody interrupts is \<open>seq_pass\<close>.\<close>

lemma seq_pass_collect:
  assumes "n = max_slot_loop (bt_queues b) (nat (bt_max_active_slot b + 1))" and "0 < n"
    and "c = foldl (\<lambda>c slot. seq_slot slot c) (collect_begin s b) [0..<n]"
  shows "sp_base (seq_pass 0 s b) = cl_base c \<and> sp_batch (seq_pass 0 s b) = collect_end c \<and>
    sp_payloads (seq_pass 0 s b) = cl_payloads c \<and> sp_clobbered (seq_pass 0 s b) = cl_clobbered c"
  using assms by (simp add: seq_pass_def seq_select_def collect_begin_def collect_end_def Let_def)

end
