(* ===== verification/Sequence_Safety.thy ===== *)
theory Sequence_Safety
  imports Sequence_Batch
begin

text \<open>
  Invariants of the sequence batcher: each batch slot has exactly one owner, the maps and the
  backlog agree, and a sequence waits only while every slot is taken.
\<close>

section \<open>The pool of ready slots\<close>

locale slot_pool =
  fixes top :: "'q \<Rightarrow> 'a" and push :: "'a \<Rightarrow> 'q \<Rightarrow> 'q" and pop :: "'q \<Rightarrow> 'q"
    and content :: "'q \<Rightarrow> 'a multiset" and rank :: "'a \<Rightarrow> nat"
  assumes content_push: "content (push x q) = add_mset x (content q)"
    and top_in: "content q \<noteq> {#} \<Longrightarrow> top q \<in># content q"
    and top_least: "x \<in># content q \<Longrightarrow> rank (top q) \<le> rank x"
    and content_pop: "content (pop q) = content q - {# top q #}"
begin

lemma count_push: "count (content (push x q)) y = count (content q) y + (if y = x then 1 else 0)"
  by (simp add: content_push)

lemma count_pop:
  "content q \<noteq> {#} \<Longrightarrow>
   count (content (pop q)) y + (if y = top q then 1 else 0) = count (content q) y"
  using top_in [of q] by (auto simp: content_pop count_greater_zero_iff [symmetric] simp del: count_greater_zero_iff)

end

lemma slots_top_in: "xs \<noteq> [] \<Longrightarrow> slots_top xs \<in> set xs"
  by (induction xs rule: slots_top.induct) (auto simp: Let_def)

lemma slots_top_least: "x \<in> set xs \<Longrightarrow> bs_slot (slots_top xs) \<le> bs_slot x"
  by (induction xs rule: slots_top.induct) (fastforce simp: Let_def)+

interpretation ready: slot_pool slots_top slots_push slots_pop mset bs_slot
  by unfold_locales (auto simp: slots_push_def slots_pop_def slots_top_in slots_top_least)

section \<open>The invariant of the scheduler\<close>

definition pl_cid :: "payload \<Rightarrow> correlation_id" where
  "pl_cid p = rh_correlation_id (pl_header p)"

definition is_end :: "payload \<Rightarrow> bool" where
  "is_end p \<longleftrightarrow> pl_request_provider p = None \<or> seq_end (pl_header p)"

definition cid_queue :: "payload list \<Rightarrow> bool" where
  "cid_queue ps \<longleftrightarrow> (\<forall>p \<in> set ps. pl_request_provider p \<noteq> None \<and> pl_cid p = pl_cid (last ps))"

lemma cid_queue_snoc:
  "cid_queue ps \<Longrightarrow> pl_request_provider p \<noteq> None \<Longrightarrow> (ps \<noteq> [] \<Longrightarrow> pl_cid p = pl_cid (last ps)) \<Longrightarrow>
   cid_queue (ps @ [p])"
  unfolding cid_queue_def by (cases ps rule: rev_cases) (simp, metis UnE butlast_snoc last_snoc list.set(1) list.set(2) set_append singletonD snoc_eq_iff_butlast)

definition queue_ok :: "seq_base \<Rightarrow> nat \<Rightarrow> bool" where
  "queue_ok s q \<longleftrightarrow> q < sq_next_queue s \<and> sq_store s q \<noteq> [] \<and>
     cid_queue (sq_store s q) \<and>
     (\<forall>p \<in> set (butlast (sq_store s q)). \<not> is_end p) \<and>
     (\<not> is_end (last (sq_store s q)) \<longrightarrow> sq_backlog_map s (pl_cid (last (sq_store s q))) = Some q)"

definition backlog_ok :: "seq_base \<Rightarrow> bool" where
  "backlog_ok s \<longleftrightarrow> distinct (sq_backlog_queues s) \<and> (\<forall>q \<in> set (sq_backlog_queues s). queue_ok s q) \<and>
     (\<forall>c q. sq_backlog_map s c = Some q \<longrightarrow> q \<in> set (sq_backlog_queues s) \<and>
        pl_cid (last (sq_store s q)) = c \<and> \<not> is_end (last (sq_store s q)))"

definition one_to_one :: "('a \<rightharpoonup> 'b) \<Rightarrow> bool" where
  "one_to_one m \<longleftrightarrow> (\<forall>a b t. m a = Some t \<longrightarrow> m b = Some t \<longrightarrow> a = b)"

definition base_inv :: "seq_base \<Rightarrow> bool" where
  "base_inv s \<longleftrightarrow> one_to_one (sq_batchslot_map s) \<and>
     dom (sq_batchslot_map s) \<inter> dom (sq_backlog_map s) = {} \<and> backlog_ok s \<and>
     (sq_backlog_queues s \<noteq> [] \<longrightarrow> sq_ready_batch_slots s = [])"

text \<open>How often a slot is ready or assigned.\<close>

definition owners :: "seq_base \<Rightarrow> batch_slot \<Rightarrow> nat" where
  "owners s t = count (mset (sq_ready_batch_slots s)) t + (if t \<in> ran (sq_batchslot_map s) then 1 else 0)"

lemma ran_erase: "one_to_one m \<Longrightarrow> m c = Some t \<Longrightarrow> u \<in> ran (m(c := None)) \<longleftrightarrow> u \<in> ran m \<and> u \<noteq> t"
  unfolding one_to_one_def ran_def by (auto split: if_splits) (metis option.inject)

lemma one_to_one_erase: "one_to_one m \<Longrightarrow> one_to_one (m(c := None))"
  by (simp add: one_to_one_def)

lemma one_to_one_add: "one_to_one m \<Longrightarrow> t \<notin> ran m \<Longrightarrow> one_to_one (m(c \<mapsto> t))"
  by (auto simp: one_to_one_def ran_def)

text \<open>What the parts of the invariant depend on.\<close>

lemma backlog_ok_cong:
  "sq_backlog_map s' = sq_backlog_map s \<Longrightarrow> sq_backlog_queues s' = sq_backlog_queues s \<Longrightarrow>
   sq_store s' = sq_store s \<Longrightarrow> sq_next_queue s' = sq_next_queue s \<Longrightarrow> backlog_ok s' = backlog_ok s"
  by (simp add: backlog_ok_def queue_ok_def)

lemma base_inv_timestamps [simp]: "base_inv (s\<lparr>sq_timestamps := ts\<rparr>) = base_inv s"
  using backlog_ok_cong [of "s\<lparr>sq_timestamps := ts\<rparr>" s] by (simp add: base_inv_def)

lemma owners_timestamps [simp]: "owners (s\<lparr>sq_timestamps := ts\<rparr>) t = owners s t"
  by (simp add: owners_def)

lemma base_inv_counts [simp]: "base_inv (s\<lparr>sq_queue_request_cnts := ts\<rparr>) = base_inv s"
  using backlog_ok_cong [of "s\<lparr>sq_queue_request_cnts := ts\<rparr>" s] by (simp add: base_inv_def)

lemma owners_counts [simp]: "owners (s\<lparr>sq_queue_request_cnts := ts\<rparr>) t = owners s t"
  by (simp add: owners_def)

subsection \<open>Erasing an assignment\<close>

definition forget :: "correlation_id \<Rightarrow> seq_base \<Rightarrow> seq_base" where
  "forget c s = s\<lparr>sq_batchslot_map := (sq_batchslot_map s)(c := None)\<rparr>"

lemma base_inv_forget: "base_inv s \<Longrightarrow> base_inv (forget c s)"
  using backlog_ok_cong [of "forget c s" s]
  by (auto simp: base_inv_def forget_def one_to_one_erase)

lemma owners_forget:
  assumes "base_inv s" and "sq_batchslot_map s c = Some t"
  shows "owners (forget c s) u + (if u = t then 1 else 0) = owners s u"
proof -
  have "one_to_one (sq_batchslot_map s)" using assms(1) by (simp add: base_inv_def)
  note r = ran_erase [OF this assms(2), of u]
  have "t \<in> ran (sq_batchslot_map s)" using assms(2) by (rule ranI)
  then show ?thesis using r by (auto simp: owners_def forget_def)
qed

subsection \<open>Assigning a ready slot\<close>

definition occupy :: "correlation_id \<Rightarrow> seq_base \<Rightarrow> seq_base" where
  "occupy c s =
     s\<lparr>sq_batchslot_map := (sq_batchslot_map s)(c \<mapsto> slots_top (sq_ready_batch_slots s)),
       sq_ready_batch_slots := slots_pop (sq_ready_batch_slots s)\<rparr>"

lemma owners_occupy:
  assumes "sq_ready_batch_slots s \<noteq> []" and "sq_batchslot_map s c = None" and "\<forall>t. owners s t \<le> 1"
  shows "owners (occupy c s) u = owners s u" and "slots_top (sq_ready_batch_slots s) \<notin> ran (sq_batchslot_map s)"
proof -
  let ?t = "slots_top (sq_ready_batch_slots s)"
  have c: "count (mset (slots_pop (sq_ready_batch_slots s))) u + (if u = ?t then 1 else 0) =
      count (mset (sq_ready_batch_slots s)) u"
    using ready.count_pop [of "sq_ready_batch_slots s" u] assms(1) by simp
  have "0 < count (mset (sq_ready_batch_slots s)) ?t"
    using ready.top_in [of "sq_ready_batch_slots s"] assms(1) by (simp add: count_greater_zero_iff)
  then show t: "?t \<notin> ran (sq_batchslot_map s)"
    using assms(3) by (auto simp: owners_def dest: spec [of _ ?t])
  show "owners (occupy c s) u = owners s u"
    using c t assms(2) by (cases "u = ?t") (auto simp: owners_def occupy_def)
qed

lemma base_inv_occupy:
  assumes "base_inv s" and "sq_ready_batch_slots s \<noteq> []" and "sq_batchslot_map s c = None"
    and "sq_backlog_map s c = None" and "\<forall>t. owners s t \<le> 1"
  shows "base_inv (occupy c s)"
  using assms owners_occupy(2) [OF assms(2,3,5)] backlog_ok_cong [of "occupy c s" s]
  by (auto simp: base_inv_def occupy_def one_to_one_add)

subsection \<open>The backlog\<close>

lemma queue_ok_mono:
  "queue_ok s r \<Longrightarrow> sq_store s' r = sq_store s r \<Longrightarrow> sq_next_queue s \<le> sq_next_queue s' \<Longrightarrow>
   (\<And>c. sq_backlog_map s c = Some r \<Longrightarrow> sq_backlog_map s' c = Some r) \<Longrightarrow> queue_ok s' r"
  by (simp add: queue_ok_def)

lemma backlog_okD:
  assumes "backlog_ok s" and "sq_backlog_map s c = Some q"
  shows "q \<in> set (sq_backlog_queues s)" and "pl_cid (last (sq_store s q)) = c"
    and "\<not> is_end (last (sq_store s q))" and "queue_ok s q"
  using assms unfolding backlog_ok_def by blast+

definition backlog_append :: "correlation_id \<Rightarrow> nat \<Rightarrow> payload \<Rightarrow> seq_base \<Rightarrow> seq_base" where
  "backlog_append c q p s =
     s\<lparr>sq_store := (sq_store s)(q := sq_store s q @ [p]),
       sq_backlog_map := (if is_end p then (sq_backlog_map s)(c := None) else sq_backlog_map s)\<rparr>"

lemma backlog_append_sel [simp]:
  "sq_store (backlog_append c q p s) = (sq_store s)(q := sq_store s q @ [p])"
  "sq_backlog_map (backlog_append c q p s) =
     (if is_end p then (sq_backlog_map s)(c := None) else sq_backlog_map s)"
  "sq_backlog_queues (backlog_append c q p s) = sq_backlog_queues s"
  "sq_next_queue (backlog_append c q p s) = sq_next_queue s"
  "sq_batchslot_map (backlog_append c q p s) = sq_batchslot_map s"
  "sq_ready_batch_slots (backlog_append c q p s) = sq_ready_batch_slots s"
  by (simp_all add: backlog_append_def)

lemma backlog_ok_append:
  assumes ok: "backlog_ok s" and q: "sq_backlog_map s c = Some q"
    and p: "pl_request_provider p \<noteq> None" "pl_cid p = c"
  shows "backlog_ok (backlog_append c q p s)"
proof -
  let ?s = "backlog_append c q p s"
  note qd = backlog_okD [OF ok q]
  have inj: "c' = c \<longleftrightarrow> r = q" if "sq_backlog_map s c' = Some r" for c' r
  proof
    assume "c' = c" then show "r = q" using that q by simp
  next
    assume "r = q" then show "c' = c" using backlog_okD(2) [OF ok that] qd(2) by simp
  qed
  have "queue_ok ?s q"
  proof -
    have "\<forall>x \<in> set (sq_store s q). \<not> is_end x"
      using qd(3,4) unfolding queue_ok_def by (cases "sq_store s q" rule: rev_cases) auto
    moreover have "cid_queue (sq_store s q @ [p])"
      using qd(2,4) p by (intro cid_queue_snoc) (simp_all add: queue_ok_def)
    ultimately show ?thesis
      using qd(4) q p by (simp add: queue_ok_def)
  qed
  moreover have "queue_ok ?s r" if "r \<in> set (sq_backlog_queues s)" "r \<noteq> q" for r
  proof (rule queue_ok_mono [of s])
    show "queue_ok s r" using ok that(1) by (simp add: backlog_ok_def)
    show "sq_store ?s r = sq_store s r" using that(2) by simp
    show "sq_backlog_map ?s c' = Some r" if "sq_backlog_map s c' = Some r" for c'
      using inj [OF that] that \<open>r \<noteq> q\<close> by simp
  qed simp
  moreover have "r \<in> set (sq_backlog_queues s) \<and> pl_cid (last (sq_store ?s r)) = c' \<and> \<not> is_end (last (sq_store ?s r))"
    if "sq_backlog_map ?s c' = Some r" for c' r
  proof -
    have m: "sq_backlog_map s c' = Some r" "is_end p \<Longrightarrow> c' \<noteq> c" using that by (auto split: if_splits)
    show ?thesis
    proof (cases "r = q")
      case True
      then have "c' = c" using inj [OF m(1)] by simp
      then show ?thesis using True m qd(1) p by auto
    next
      case False
      then show ?thesis using backlog_okD(1-3) [OF ok m(1)] by simp
    qed
  qed
  ultimately show ?thesis
    using ok unfolding backlog_ok_def by (metis backlog_append_sel(3))
qed

definition backlog_new :: "correlation_id \<Rightarrow> payload \<Rightarrow> seq_base \<Rightarrow> seq_base" where
  "backlog_new c p s =
     s\<lparr>sq_next_queue := sq_next_queue s + 1,
       sq_backlog_queues := sq_backlog_queues s @ [sq_next_queue s],
       sq_store := (sq_store s)(sq_next_queue s := [p]),
       sq_backlog_map := (if \<not> is_end p then (sq_backlog_map s)(c \<mapsto> sq_next_queue s)
                          else sq_backlog_map s)\<rparr>"

lemma backlog_new_sel [simp]:
  "sq_store (backlog_new c p s) = (sq_store s)(sq_next_queue s := [p])"
  "sq_backlog_map (backlog_new c p s) =
     (if \<not> is_end p then (sq_backlog_map s)(c \<mapsto> sq_next_queue s) else sq_backlog_map s)"
  "sq_backlog_queues (backlog_new c p s) = sq_backlog_queues s @ [sq_next_queue s]"
  "sq_next_queue (backlog_new c p s) = sq_next_queue s + 1"
  "sq_batchslot_map (backlog_new c p s) = sq_batchslot_map s"
  "sq_ready_batch_slots (backlog_new c p s) = sq_ready_batch_slots s"
  by (simp_all add: backlog_new_def)

lemma backlog_ok_new:
  assumes ok: "backlog_ok s" and c: "sq_backlog_map s c = None"
    and p: "pl_request_provider p \<noteq> None" "pl_cid p = c"
  shows "backlog_ok (backlog_new c p s)"
proof -
  let ?s = "backlog_new c p s" and ?n = "sq_next_queue s"
  have qok: "queue_ok s r" if "r \<in> set (sq_backlog_queues s)" for r
    using ok that by (simp add: backlog_ok_def)
  have fresh: "?n \<notin> set (sq_backlog_queues s)" using qok by (auto simp: queue_ok_def)
  have "queue_ok ?s r" if "r \<in> set (sq_backlog_queues s)" for r
  proof (rule queue_ok_mono [OF qok [OF that]])
    show "sq_store ?s r = sq_store s r" using fresh that by auto
    show "sq_backlog_map ?s c' = Some r" if "sq_backlog_map s c' = Some r" for c'
      using that c by (cases "c' = c") simp_all
  qed simp
  moreover have "queue_ok ?s ?n"
    using p by (simp add: queue_ok_def cid_queue_def)
  moreover have "r \<in> set (sq_backlog_queues ?s) \<and> pl_cid (last (sq_store ?s r)) = c' \<and> \<not> is_end (last (sq_store ?s r))"
    if "sq_backlog_map ?s c' = Some r" for c' r
  proof (cases "sq_backlog_map s c' = Some r")
    case True
    then have "r \<noteq> ?n" using backlog_okD(1) [OF ok True] fresh by auto
    then show ?thesis using backlog_okD [OF ok True] by simp
  next
    case False
    then show ?thesis using that p by (auto split: if_splits)
  qed
  ultimately show ?thesis
    using ok fresh unfolding backlog_ok_def by simp
qed

subsection \<open>\<open>Enqueue\<close> keeps the invariant\<close>

lemma seq_Enqueue_cases:
  assumes "seq_Enqueue now_us p rp s = (res, s')" and p: "pl_request_provider p = Some rp"
  defines "c \<equiv> pl_cid p" and "s1 \<equiv> s\<lparr>sq_timestamps := AList.update (pl_cid p) now_us (sq_timestamps s)\<rparr>"
  obtains
    (rejected) st where "res = Enqueue_complete st" "\<not> IsOk st" "s' = s"
  | (assigned) t where "sq_batchslot_map s c = Some t" "res = Enqueue_slot t"
      "s' = (if is_end p then forget c s1 else s1)"
  | (backlogged) q where "sq_batchslot_map s c = None" "sq_backlog_map s c = Some q"
      "res = Enqueue_backlog" "s' = backlog_append c q p s1"
  | (ready) "sq_batchslot_map s c = None" "sq_backlog_map s c = None" "sq_ready_batch_slots s \<noteq> []"
      "res = Enqueue_slot (slots_top (sq_ready_batch_slots s))"
      "s' = (if is_end p then forget c (occupy c s1) else occupy c s1)"
  | (waiting) "sq_batchslot_map s c = None" "sq_backlog_map s c = None" "sq_ready_batch_slots s = []"
      "res = Enqueue_backlog" "s' = backlog_new c p s1"
proof -
  have h: "pl_header p = rp_header rp" "pl_cid p = rh_correlation_id (rp_header rp)"
    using p by (simp_all add: pl_header_def pl_cid_def)
  have e: "is_end p = seq_end (rp_header rp)" using p h by (simp add: is_end_def)
  have u: "assign_slot cid b t x = (Enqueue_slot t, if b then forget cid x else x)" for cid b t x
    by (simp add: assign_slot_def forget_def)
  have run: "(res, s') = seq_Enqueue now_us p rp s" using assms(1) by simp
  consider (r) st where "res = Enqueue_complete st" "\<not> IsOk st" "s' = s" | (a) t where "sq_batchslot_map s c = Some t"
      "(res, s') = assign_slot c (is_end p) t s1"
    | (b) q where "sq_batchslot_map s c = None" "sq_backlog_map s c = Some q"
        "(res, s') = (Enqueue_backlog, backlog_append c q p s1)"
    | (d) "sq_batchslot_map s c = None" "sq_backlog_map s c = None" "sq_ready_batch_slots s \<noteq> []"
        "(res, s') = assign_slot c (is_end p) (slots_top (sq_ready_batch_slots s)) (occupy c s1)"
    | (w) "sq_batchslot_map s c = None" "sq_backlog_map s c = None" "sq_ready_batch_slots s = []"
        "(res, s') = (Enqueue_backlog, backlog_new c p s1)"
  proof -
    let ?h = "rp_header rp"
    have c: "rh_correlation_id ?h = c" using h c_def by simp
    show ?thesis
    proof (cases "rh_batch_size ?h \<noteq> 1 \<or> c = 0 \<or>
        \<not> seq_start ?h \<and> sq_batchslot_map s c = None \<and> sq_backlog_map s c = None")
      case True
      then have "\<exists>st. res = Enqueue_complete st \<and> \<not> IsOk st \<and> s' = s"
        using run unfolding seq_Enqueue_def Let_def c by (auto split: if_split_asm)
      then show ?thesis using r by blast
    next
      case False
      have f: "rh_batch_size ?h = 1" "c \<noteq> 0"
        "(\<not> seq_start ?h \<and> sq_batchslot_map s c = None \<and> sq_backlog_map s c = None) = False"
        using False by blast+
      have run': "(res, s') =
         (case sq_batchslot_map s c of
           Some target \<Rightarrow> assign_slot c (is_end p) target s1
         | None \<Rightarrow>
             (case sq_backlog_map s c of
                Some q \<Rightarrow> (Enqueue_backlog, backlog_append c q p s1)
              | None \<Rightarrow>
                  (if sq_ready_batch_slots s \<noteq> [] then
                     assign_slot c (is_end p) (slots_top (sq_ready_batch_slots s)) (occupy c s1)
                   else (Enqueue_backlog, backlog_new c p s1))))"
        using run unfolding seq_Enqueue_def Let_def c f(3) if_False
        by (simp add: f(1,2) e s1_def c_def [symmetric] occupy_def backlog_append_def backlog_new_def cong: option.case_cong)
      show ?thesis
        using run' a b d w by (cases "sq_batchslot_map s c"; cases "sq_backlog_map s c";
            cases "sq_ready_batch_slots s = []") simp_all
    qed
  qed
  then show ?thesis
    using rejected assigned backlogged ready waiting by cases (auto simp: u)
qed

lemma seq_Enqueue_inv:
  assumes "seq_Enqueue now_us p rp s = (res, s')" and "pl_request_provider p = Some rp"
    and "base_inv s" and "\<forall>t. owners s t \<le> 1"
  shows "base_inv s'" and "owners s' u + (if res = Enqueue_slot u \<and> is_end p then 1 else 0) = owners s u"
    and "res = Enqueue_slot u \<Longrightarrow> owners s u = 1"
proof -
  let ?c = "pl_cid p" and ?s1 = "s\<lparr>sq_timestamps := AList.update (pl_cid p) now_us (sq_timestamps s)\<rparr>"
  have s1: "base_inv ?s1" "\<forall>t. owners ?s1 t \<le> 1" using assms(3,4) by simp_all
  have one: "owners s t = 1" if "0 < owners s t" for t
    using assms(4) [rule_format, of t] that by linarith
  have "base_inv s' \<and> owners s' u + (if res = Enqueue_slot u \<and> is_end p then 1 else 0) = owners s u \<and>
      (res = Enqueue_slot u \<longrightarrow> owners s u = 1)"
    using assms(1,2)
  proof (cases rule: seq_Enqueue_cases)
    case rejected
    then show ?thesis using assms(3) by simp
  next
    case (assigned t)
    have "t \<in> ran (sq_batchslot_map s)" using assigned(1) by (rule ranI)
    then have "0 < owners s t" by (simp add: owners_def)
    then show ?thesis
      using assigned s1 base_inv_forget [OF s1(1), of ?c] owners_forget [OF s1(1), of ?c t u] one [of t] by auto
  next
    case (backlogged q)
    then show ?thesis
      using assms(2,3) backlog_ok_append [of ?s1 ?c q p]
        backlog_ok_cong [of ?s1 s]
      by (auto simp: base_inv_def owners_def backlog_append_def)
  next
    case ready
    let ?t = "slots_top (sq_ready_batch_slots s)"
    have o: "base_inv (occupy ?c ?s1)" "\<And>v. owners (occupy ?c ?s1) v = owners s v"
      using base_inv_occupy [OF s1(1), of ?c] owners_occupy(1) [of ?s1 ?c] s1(2) ready(1-3) by auto
    have "sq_batchslot_map (occupy ?c ?s1) ?c = Some ?t" by (simp add: occupy_def)
    note f = base_inv_forget [OF o(1), of ?c] owners_forget [OF o(1) this, of u]
    have "0 < count (mset (sq_ready_batch_slots s)) ?t"
      using slots_top_in [OF ready(3)] by (simp add: count_greater_zero_iff)
    then have "owners s ?t = 1" using one [of ?t] by (simp add: owners_def)
    then show ?thesis using ready(4,5) o f by auto
  next
    case waiting
    then show ?thesis
      using assms(2,3) backlog_ok_new [of ?s1 ?c p] backlog_ok_cong [of ?s1 s]
      by (auto simp: base_inv_def owners_def backlog_new_def)
  qed
  then show "base_inv s'" "owners s' u + (if res = Enqueue_slot u \<and> is_end p then 1 else 0) = owners s u"
    "res = Enqueue_slot u \<Longrightarrow> owners s u = 1" by blast+
qed

subsection \<open>Releasing a slot\<close>

definition ends :: "payload list \<Rightarrow> nat" where
  "ends ps = length (filter is_end ps)"

lemma ends_simps [simp]:
  "ends [] = 0" "ends (p # ps) = (if is_end p then 1 else 0) + ends ps"
  "ends (ps @ qs) = ends ps + ends qs"
  by (simp_all add: ends_def)

lemma ends_zero: "(\<forall>p \<in> set ps. \<not> is_end p) \<Longrightarrow> ends ps = 0"
  by (simp add: ends_def)

lemma ends_last: "ps \<noteq> [] \<Longrightarrow> \<forall>p \<in> set (butlast ps). \<not> is_end p \<Longrightarrow> ends ps = (if is_end (last ps) then 1 else 0)"
  by (cases ps rule: rev_cases) (auto simp: ends_zero)

text \<open>Taking the first queue of the backlog.\<close>

definition backlog_take :: "batch_slot \<Rightarrow> seq_base \<Rightarrow> seq_base" where
  "backlog_take t s =
     (let q = hd (sq_backlog_queues s); p = last (sq_store s q);
          s1 = s\<lparr>sq_store := (sq_store s)(q := []), sq_backlog_queues := tl (sq_backlog_queues s)\<rparr>
      in if is_end p then s1
         else s1\<lparr>sq_backlog_map := (sq_backlog_map s)(pl_cid p := None),
                 sq_batchslot_map := (sq_batchslot_map s)(pl_cid p \<mapsto> t)\<rparr>)"

lemma ReleaseBatchSlot_cases:
  assumes "backlog_ok s"
  shows "ReleaseBatchSlot t ps s =
    (if sq_backlog_queues s = []
     then (True, ps, s\<lparr>sq_ready_batch_slots := slots_push t (sq_ready_batch_slots s)\<rparr>)
     else (False, sq_store s (hd (sq_backlog_queues s)), backlog_take t s))"
proof (cases "sq_backlog_queues s")
  case (Cons q qs)
  then have q: "queue_ok s q" using assms by (simp add: backlog_ok_def)
  then have "pl_request_provider (last (sq_store s q)) \<noteq> None" "sq_store s q \<noteq> []"
    by (auto simp: queue_ok_def cid_queue_def)
  then show ?thesis
    using Cons by (auto simp: ReleaseBatchSlot_def backlog_take_def Let_def is_end_def pl_cid_def)
qed (simp add: ReleaseBatchSlot_def)

lemma base_inv_take:
  assumes inv: "base_inv s" and ne: "sq_backlog_queues s \<noteq> []" and t: "owners s t = 0"
  shows "base_inv (backlog_take t s)"
proof -
  let ?s = "backlog_take t s" and ?q = "hd (sq_backlog_queues s)"
  let ?p = "last (sq_store s ?q)"
  have ok: "backlog_ok s" and one: "one_to_one (sq_batchslot_map s)"
    and disj: "dom (sq_batchslot_map s) \<inter> dom (sq_backlog_map s) = {}"
    and ready: "sq_ready_batch_slots s = []"
    using inv ne by (auto simp: base_inv_def)
  obtain qs where qs: "sq_backlog_queues s = ?q # qs" using ne by (cases "sq_backlog_queues s") auto
  have dist: "?q \<notin> set qs" "distinct qs"
    using ok qs unfolding backlog_ok_def by (metis distinct.simps(2))+
  have q: "queue_ok s ?q" using ok ne by (simp add: backlog_ok_def)
  have store: "sq_store ?s = (sq_store s)(?q := [])" "sq_backlog_queues ?s = qs"
    "sq_next_queue ?s = sq_next_queue s" "sq_ready_batch_slots ?s = []"
    and map: "sq_backlog_map ?s = (if is_end ?p then sq_backlog_map s else (sq_backlog_map s)(pl_cid ?p := None))"
    and slots: "sq_batchslot_map ?s = (if is_end ?p then sq_batchslot_map s else (sq_batchslot_map s)(pl_cid ?p \<mapsto> t))"
    using qs ready by (simp_all add: backlog_take_def Let_def, (metis list.sel(3))+)
  have mq: "sq_backlog_map s (pl_cid ?p) = Some ?q" if "\<not> is_end ?p"
    using q that by (simp add: queue_ok_def)
  have keep: "sq_backlog_map ?s c = Some r \<longleftrightarrow> sq_backlog_map s c = Some r \<and> r \<noteq> ?q" for c r
  proof
    assume m: "sq_backlog_map ?s c = Some r"
    then have m': "sq_backlog_map s c = Some r" "\<not> is_end ?p \<Longrightarrow> c \<noteq> pl_cid ?p"
      by (auto simp: map split: if_splits)
    have "r \<noteq> ?q"
    proof
      assume "r = ?q"
      then have "\<not> is_end ?p" "pl_cid ?p = c" using backlog_okD(2,3) [OF ok m'(1)] by simp_all
      then show False using m'(2) by simp
    qed
    then show "sq_backlog_map s c = Some r \<and> r \<noteq> ?q" using m' by simp
  next
    assume m: "sq_backlog_map s c = Some r \<and> r \<noteq> ?q"
    then have "\<not> is_end ?p \<Longrightarrow> c \<noteq> pl_cid ?p" using mq by auto
    then show "sq_backlog_map ?s c = Some r" using m by (simp add: map)
  qed
  have "queue_ok ?s r" if "r \<in> set qs" for r
  proof (rule queue_ok_mono [of s])
    show "queue_ok s r" using ok that qs unfolding backlog_ok_def by (metis list.set_intros(2))
    show "sq_store ?s r = sq_store s r" using that dist store by auto
    show "sq_backlog_map ?s c = Some r" if "sq_backlog_map s c = Some r" for c
      using that \<open>r \<in> set qs\<close> dist keep by auto
  qed (simp add: store)
  moreover have "r \<in> set qs \<and> pl_cid (last (sq_store ?s r)) = c \<and> \<not> is_end (last (sq_store ?s r))"
    if "sq_backlog_map ?s c = Some r" for c r
  proof -
    have m: "sq_backlog_map s c = Some r" "r \<noteq> ?q" using that keep by blast+
    then have "r \<in> set qs" using backlog_okD(1) [OF ok m(1)] qs by (metis set_ConsD)
    then show ?thesis using backlog_okD(2,3) [OF ok m(1)] m(2) by (simp add: store)
  qed
  ultimately have "backlog_ok ?s" using dist by (simp add: backlog_ok_def store)
  moreover have "t \<notin> ran (sq_batchslot_map s)" using t by (auto simp: owners_def split: if_splits)
  then have "one_to_one (sq_batchslot_map ?s)" using one by (simp add: slots one_to_one_add)
  moreover have "dom (sq_batchslot_map ?s) \<inter> dom (sq_backlog_map ?s) = {}"
    using disj by (auto simp: slots map split: if_splits)
  ultimately show ?thesis by (simp add: base_inv_def store)
qed

lemma ReleaseBatchSlot_inv:
  assumes "ReleaseBatchSlot t ps s = (released, ps', s')" and "base_inv s" and "owners s t = 0"
  shows "base_inv s'" and "owners s' t + ends ps' = 1 + (if sq_backlog_queues s = [] then ends ps else 0)"
    and "u \<noteq> t \<Longrightarrow> owners s' u = owners s u"
    and "released \<longleftrightarrow> sq_backlog_queues s = []"
    and "sq_backlog_queues s = [] \<Longrightarrow> ps' = ps"
    and "\<not> released \<Longrightarrow> ps' \<noteq> [] \<and> (\<forall>p \<in> set (butlast ps'). \<not> is_end p)"
proof -
  have b: "backlog_ok s" using assms(2) by (simp add: base_inv_def)
  note run = assms(1) [unfolded ReleaseBatchSlot_cases [OF b]]
  have "base_inv s' \<and> owners s' t + ends ps' = 1 + (if sq_backlog_queues s = [] then ends ps else 0) \<and>
    (u \<noteq> t \<longrightarrow> owners s' u = owners s u) \<and> (released \<longleftrightarrow> sq_backlog_queues s = []) \<and>
    (sq_backlog_queues s = [] \<longrightarrow> ps' = ps) \<and>
    (\<not> released \<longrightarrow> ps' \<noteq> [] \<and> (\<forall>p \<in> set (butlast ps'). \<not> is_end p))"
  proof (cases "sq_backlog_queues s = []")
    case True
    then have s': "s' = s\<lparr>sq_ready_batch_slots := slots_push t (sq_ready_batch_slots s)\<rparr>" "released" "ps' = ps"
      using run by auto
    have "base_inv s'" using assms(2) True backlog_ok_cong [of s' s] by (simp add: s' base_inv_def)
    moreover have "owners s' v = owners s v + (if v = t then 1 else 0)" for v
      by (simp add: s' owners_def ready.count_push)
    ultimately show ?thesis using True s' assms(3) by simp
  next
    case False
    let ?q = "hd (sq_backlog_queues s)"
    have s': "s' = backlog_take t s" "\<not> released" "ps' = sq_store s ?q" using run False by auto
    have q: "queue_ok s ?q" using b False by (simp add: backlog_ok_def)
    then have shape: "ps' \<noteq> []" "\<forall>p \<in> set (butlast ps'). \<not> is_end p"
      by (simp_all add: queue_ok_def s')
    then have e: "ends ps' = (if is_end (last ps') then 1 else 0)" by (rule ends_last)
    have "sq_batchslot_map s (pl_cid (last ps')) = None" if "\<not> is_end (last ps')"
      using q that assms(2) unfolding queue_ok_def base_inv_def s' by blast
    then have "owners s' v = owners s v + (if v = t \<and> \<not> is_end (last ps') then 1 else 0)" for v
      using assms(3) s'(3) by (auto simp: s'(1) backlog_take_def Let_def owners_def ran_map_upd)
    then show ?thesis
      using base_inv_take [OF assms(2) False assms(3)] s' shape e False assms(3) by simp
  qed
  then show "base_inv s'" "owners s' t + ends ps' = 1 + (if sq_backlog_queues s = [] then ends ps else 0)"
    "u \<noteq> t \<Longrightarrow> owners s' u = owners s u" "released \<longleftrightarrow> sq_backlog_queues s = []"
    "sq_backlog_queues s = [] \<Longrightarrow> ps' = ps"
    "\<not> released \<Longrightarrow> ps' \<noteq> [] \<and> (\<forall>p \<in> set (butlast ps'). \<not> is_end p)" by blast+
qed


subsection \<open>The reaper\<close>

definition force_ends_for :: "reaper_pass \<Rightarrow> batch_slot \<Rightarrow> nat" where
  "force_ends_for r t = length (filter (\<lambda>x. fst x = t) (rp_force_ends r))"

lemma reaper_loop_inv:
  "base_inv (rp_base r) \<Longrightarrow>
   base_inv (rp_base (reaper_loop now_us ts r)) \<and>
   owners (rp_base (reaper_loop now_us ts r)) u + force_ends_for (reaper_loop now_us ts r) u =
     owners (rp_base r) u + force_ends_for r u"
proof (induction now_us ts r rule: reaper_loop.induct)
  case (2 now_us cid ts rest r)
  let ?s = "rp_base r"
  show ?case
  proof (cases "remaining_microseconds ?s now_us ts > 0")
    case True
    then show ?thesis using "2.IH"(1) [OF refl refl] "2.prems" by (simp add: force_ends_for_def)
  next
    case False
    note IH = "2.IH"(2-4) [OF refl refl False]
    show ?thesis
    proof (cases "sq_batchslot_map ?s cid")
      case (Some t)
      have "owners (forget cid ?s) u + (if u = t then 1 else 0) = owners ?s u"
        using owners_forget [OF "2.prems" Some] .
      then show ?thesis
        using IH(3) [OF Some] base_inv_forget [OF "2.prems", of cid] False Some
        by (auto simp: force_ends_for_def forget_def Let_def)
    next
      case None
      then show ?thesis
        using IH(1,2) [OF None] "2.prems" False
        by (cases "sq_backlog_map ?s cid") (simp_all add: force_ends_for_def)
    qed
  qed
qed simp

lemma seq_reap_inv:
  assumes "base_inv s"
  shows "base_inv (rp_base (seq_reap now_us s))"
    and "owners (rp_base (seq_reap now_us s)) u + force_ends_for (seq_reap now_us s) u = owners s u"
proof -
  let ?r = "\<lparr>rp_base = s, rp_kept = [], rp_wait_microseconds = sq_max_sequence_idle_microseconds s,
    rp_force_ends = []\<rparr>"
  have "base_inv (rp_base ?r)" using assms by simp
  note l = reaper_loop_inv [OF this, of now_us "sq_timestamps s" u]
  show "base_inv (rp_base (seq_reap now_us s))"
    using l by (simp add: seq_reap_def Let_def)
  show "owners (rp_base (seq_reap now_us s)) u + force_ends_for (seq_reap now_us s) u = owners s u"
    using l by (simp add: seq_reap_def Let_def force_ends_for_def)
qed

section \<open>The invariant of the whole scheduler\<close>

text \<open>A batch of \<open>k\<close> slots that belongs to runner \<open>b\<close>.\<close>

definition batch_shape :: "nat \<Rightarrow> nat \<Rightarrow> seq_batch \<Rightarrow> bool" where
  "batch_shape k b bt \<longleftrightarrow> bt_batcher_idx bt = b \<and> length (bt_queues bt) = k \<and>
     length (bt_slot_correlation_ids bt) = k \<and> -1 \<le> bt_max_active_slot bt \<and> bt_max_active_slot bt < int k"

definition cur_batch :: "seq_sys \<Rightarrow> nat \<Rightarrow> seq_batch" where
  "cur_batch y b = (case sy_collecting y b of None \<Rightarrow> sy_batches y ! b | Some (c, _) \<Rightarrow> cl_batch c)"

definition slot_queue :: "seq_sys \<Rightarrow> batch_slot \<Rightarrow> payload list" where
  "slot_queue y t = bt_queues (cur_batch y (bs_batcher_idx t)) ! bs_slot t"

definition flying :: "seq_sys \<Rightarrow> batch_slot \<Rightarrow> payload list" where
  "flying y t = map (snd \<circ> snd) (filter (\<lambda>x. fst x = t) (sy_in_flight y))"

definition valid_slot :: "nat \<Rightarrow> nat \<Rightarrow> batch_slot \<Rightarrow> bool" where
  "valid_slot n k t \<longleftrightarrow> bs_batcher_idx t < n \<and> bs_slot t < k"

definition slot_tokens :: "seq_sys \<Rightarrow> batch_slot \<Rightarrow> nat" where
  "slot_tokens y t = owners (sy_base y) t + ends (flying y t) + ends (slot_queue y t)"

definition sys_inv :: "nat \<Rightarrow> nat \<Rightarrow> seq_sys \<Rightarrow> bool" where
  "sys_inv n k y \<longleftrightarrow> base_inv (sy_base y) \<and> length (sy_batches y) = n \<and>
     (\<forall>b. sy_collecting y b \<noteq> None \<longrightarrow> b < n) \<and>
     (\<forall>b < n. batch_shape k b (cur_batch y b)) \<and>
     (\<forall>b c is. sy_collecting y b = Some (c, is) \<longrightarrow> set is \<subseteq> {..<k}) \<and>
     (\<forall>t. valid_slot n k t \<longrightarrow> slot_tokens y t = 1) \<and>
     (\<forall>t. \<not> valid_slot n k t \<longrightarrow> owners (sy_base y) t = 0 \<and> flying y t = [])"

lemma sys_inv_owners: "sys_inv n k y \<Longrightarrow> owners (sy_base y) t \<le> 1"
  unfolding sys_inv_def slot_tokens_def
  by (cases "valid_slot n k t") (metis add_leD1 le_refl, simp)

lemma owners_valid: "sys_inv n k y \<Longrightarrow> 0 < owners (sy_base y) t \<Longrightarrow> valid_slot n k t"
  unfolding sys_inv_def by auto

lemma flying_valid: "sys_inv n k y \<Longrightarrow> (t, cid, p) \<in> set (sy_in_flight y) \<Longrightarrow> valid_slot n k t"
proof -
  assume inv: "sys_inv n k y" and m: "(t, cid, p) \<in> set (sy_in_flight y)"
  have "p \<in> set (flying y t)" using m by (force simp: flying_def)
  then show ?thesis using inv unfolding sys_inv_def by (metis empty_iff list.set(1))
qed

text \<open>Steps that only touch the base or the flags of a batch.\<close>

lemma sys_inv_same:
  assumes "sys_inv n k y" and "base_inv (sy_base y')" and "length (sy_batches y') = n"
    and "\<And>b. sy_collecting y' b \<noteq> None \<Longrightarrow> b < n"
    and "\<And>b. b < n \<Longrightarrow> batch_shape k b (cur_batch y' b)"
    and "\<And>b c is. sy_collecting y' b = Some (c, is) \<Longrightarrow> set is \<subseteq> {..<k}"
    and "\<And>t. valid_slot n k t \<Longrightarrow> slot_tokens y' t = slot_tokens y t"
    and "\<And>t. \<not> valid_slot n k t \<Longrightarrow> owners (sy_base y') t = 0 \<and> flying y' t = []"
  shows "sys_inv n k y'"
  using assms unfolding sys_inv_def by simp


subsection \<open>Enqueue and delivery\<close>

lemma flying_append [simp]:
  "flying (y\<lparr>sy_in_flight := sy_in_flight y @ [(t', cid, p)]\<rparr>) t = flying y t @ (if t' = t then [p] else [])"
  by (simp add: flying_def)

lemma view_simps [simp]:
  "cur_batch (y\<lparr>sy_base := s\<rparr>) = cur_batch y" "cur_batch (y\<lparr>sy_accepted := ps\<rparr>) = cur_batch y"
  "cur_batch (y\<lparr>sy_rejected := sts\<rparr>) = cur_batch y" "cur_batch (y\<lparr>sy_in_flight := fs\<rparr>) = cur_batch y"
  "cur_batch (y\<lparr>sy_dispatched := ds\<rparr>) = cur_batch y" "cur_batch (y\<lparr>sy_clobbered := ps\<rparr>) = cur_batch y"
  "flying (y\<lparr>sy_base := s\<rparr>) = flying y" "flying (y\<lparr>sy_accepted := ps\<rparr>) = flying y"
  "flying (y\<lparr>sy_rejected := sts\<rparr>) = flying y" "flying (y\<lparr>sy_batches := bs\<rparr>) = flying y"
  "flying (y\<lparr>sy_collecting := cs\<rparr>) = flying y" "flying (y\<lparr>sy_dispatched := ds\<rparr>) = flying y"
  "flying (y\<lparr>sy_clobbered := ps\<rparr>) = flying y"
  by (auto simp: cur_batch_def flying_def fun_eq_iff split: option.splits)

lemma slot_queue_simps [simp]:
  "slot_queue (y\<lparr>sy_base := s\<rparr>) = slot_queue y" "slot_queue (y\<lparr>sy_accepted := ps\<rparr>) = slot_queue y"
  "slot_queue (y\<lparr>sy_rejected := sts\<rparr>) = slot_queue y" "slot_queue (y\<lparr>sy_in_flight := fs\<rparr>) = slot_queue y"
  "slot_queue (y\<lparr>sy_dispatched := ds\<rparr>) = slot_queue y" "slot_queue (y\<lparr>sy_clobbered := ps\<rparr>) = slot_queue y"
  by (auto simp: slot_queue_def fun_eq_iff)

lemma sys_inv_enqueue:
  assumes inv: "sys_inv n k y" and p: "pl_request_provider p = Some rp"
    and run: "seq_Enqueue now_us p rp (sy_base y) = (res, s')"
  shows "sys_inv n k (enqueue_done res p (y\<lparr>sy_base := s'\<rparr>))"
proof -
  have "base_inv (sy_base y)" "\<forall>t. owners (sy_base y) t \<le> 1"
    using inv sys_inv_owners [OF inv] by (simp_all add: sys_inv_def)
  note e = seq_Enqueue_inv [OF run p this]
  let ?y = "enqueue_done res p (y\<lparr>sy_base := s'\<rparr>)"
  have sel: "sy_base ?y = s'" "sy_batches ?y = sy_batches y" "sy_collecting ?y = sy_collecting y"
    "cur_batch ?y = cur_batch y" "slot_queue ?y = slot_queue y"
    "flying ?y t = flying y t @ (if res = Enqueue_slot t then [p] else [])" for t
    by (auto simp: enqueue_done_def flying_def split: enqueue_result.splits)
  show ?thesis
  proof (rule sys_inv_same [OF inv])
    show "base_inv (sy_base ?y)" using e(1) sel by simp
    show "slot_tokens ?y t = slot_tokens y t" for t
      using e(2) [of t] by (auto simp: slot_tokens_def sel split: if_splits)
    show "owners (sy_base ?y) t = 0 \<and> flying ?y t = []" if "\<not> valid_slot n k t" for t
      using e(2,3) [of t] that inv by (auto simp: sel sys_inv_def)
  qed (use inv in \<open>auto simp: sel sys_inv_def\<close>)
qed

lemma bt_Enqueue_shape:
  "batch_shape k b bt \<Longrightarrow> i < k \<Longrightarrow> batch_shape k b (fst (bt_Enqueue i cid p bt))"
  by (auto simp: batch_shape_def bt_Enqueue_def)

lemma bt_Enqueue_queues:
  "bt_queues (fst (bt_Enqueue i cid p bt)) = (bt_queues bt)[i := bt_queues bt ! i @ [p]]"
  by (simp add: bt_Enqueue_def)

text \<open>A delivery while the batch is not collecting.\<close>

definition view_ok :: "nat \<Rightarrow> nat \<Rightarrow> seq_sys \<Rightarrow> bool" where
  "view_ok n k y \<longleftrightarrow> length (sy_batches y) = n \<and> (\<forall>b < n. batch_shape k b (cur_batch y b))"

lemma sys_inv_view: "sys_inv n k y \<Longrightarrow> view_ok n k y"
  by (simp add: sys_inv_def view_ok_def)

definition delivered :: "batch_slot \<Rightarrow> correlation_id \<Rightarrow> payload \<Rightarrow> seq_sys \<Rightarrow> seq_sys" where
  "delivered t cid p y = y\<lparr>sy_batches := deliver t cid p (sy_batches y)\<rparr>"

lemma delivered_view:
  assumes "view_ok n k y" and "valid_slot n k t" and "sy_collecting y (bs_batcher_idx t) = None"
  shows "b < n \<Longrightarrow> batch_shape k b (cur_batch (delivered t cid p y) b)"
    and "valid_slot n k u \<Longrightarrow> slot_queue (delivered t cid p y) u = slot_queue y u @ (if u = t then [p] else [])"
    and "length (sy_batches (delivered t cid p y)) = n"
proof -
  let ?b = "bs_batcher_idx t"
  have l: "length (sy_batches y) = n" "?b < n" "bs_slot t < k"
    using assms by (auto simp: view_ok_def valid_slot_def)
  have sh: "batch_shape k ?b (sy_batches y ! ?b)"
    using assms l unfolding view_ok_def cur_batch_def by (metis option.simps(4))
  have cur: "cur_batch (delivered t cid p y) b =
      (if b = ?b then fst (bt_Enqueue (bs_slot t) cid p (sy_batches y ! ?b)) else cur_batch y b)" for b
    using assms(3) l by (auto simp: delivered_def deliver_def cur_batch_def split: option.splits)
  show "b < n \<Longrightarrow> batch_shape k b (cur_batch (delivered t cid p y) b)"
    using assms(1) bt_Enqueue_shape [OF sh l(3)] by (auto simp: cur view_ok_def)
  show "slot_queue (delivered t cid p y) u = slot_queue y u @ (if u = t then [p] else [])"
    if "valid_slot n k u"
  proof (cases "bs_batcher_idx u = ?b")
    case True
    then have "u = t \<longleftrightarrow> bs_slot u = bs_slot t" by auto
    moreover have "cur_batch y ?b = sy_batches y ! ?b" using assms(3) by (simp add: cur_batch_def)
    ultimately show ?thesis
      using True sh l that by (auto simp: slot_queue_def cur bt_Enqueue_queues batch_shape_def valid_slot_def)
  next
    case False
    then show ?thesis by (auto simp: slot_queue_def cur)
  qed
  show "length (sy_batches (delivered t cid p y)) = n"
    using l by (simp add: delivered_def deliver_def)
qed

lemma ends_remove1: "x \<in> set xs \<Longrightarrow>
  ends (map (snd \<circ> snd) (filter (\<lambda>x. fst x = t) (remove1 x xs))) +
    (if fst x = t \<and> is_end (snd (snd x)) then 1 else 0) =
  ends (map (snd \<circ> snd) (filter (\<lambda>x. fst x = t) xs))"
  by (induction xs) auto

lemma sys_inv_deliver:
  assumes inv: "sys_inv n k y" and m: "(t, cid, p) \<in> set (sy_in_flight y)"
    and c: "sy_collecting y (bs_batcher_idx t) = None"
  shows "sys_inv n k (y\<lparr>sy_in_flight := remove1 (t, cid, p) (sy_in_flight y),
    sy_batches := deliver t cid p (sy_batches y)\<rparr>)"
proof -
  have v: "valid_slot n k t" using flying_valid [OF inv m] .
  note d = delivered_view [OF sys_inv_view [OF inv] v c, where cid = cid and p = p]
  let ?y = "y\<lparr>sy_in_flight := remove1 (t, cid, p) (sy_in_flight y), sy_batches := deliver t cid p (sy_batches y)\<rparr>"
  have y: "?y = (delivered t cid p y)\<lparr>sy_in_flight := remove1 (t, cid, p) (sy_in_flight y)\<rparr>"
    by (simp add: delivered_def)
  have sel: "sy_base ?y = sy_base y" "sy_collecting ?y = sy_collecting y"
    "cur_batch ?y = cur_batch (delivered t cid p y)" "slot_queue ?y = slot_queue (delivered t cid p y)"
    "sy_batches ?y = sy_batches (delivered t cid p y)"
    unfolding y by (simp_all add: delivered_def)
  have fly: "ends (flying ?y u) + (if t = u \<and> is_end p then 1 else 0) = ends (flying y u)" for u
    using ends_remove1 [OF m, of u] by (simp add: flying_def)
  show ?thesis
  proof (rule sys_inv_same [OF inv])
    show "slot_tokens ?y u = slot_tokens y u" if "valid_slot n k u" for u
      using fly [of u] d(2) [OF that] by (auto simp: slot_tokens_def sel)
    show "owners (sy_base ?y) u = 0 \<and> flying ?y u = []" if "\<not> valid_slot n k u" for u
    proof -
      have "flying y u = []" "owners (sy_base y) u = 0" using that inv by (simp_all add: sys_inv_def)
      then show ?thesis
        by (auto simp: sel(1) flying_def filter_empty_conv dest: set_remove1_subset [THEN subsetD])
    qed
  qed (use inv d(1,3) sel in \<open>auto simp: sys_inv_def\<close>)
qed


subsection \<open>The reaper\<close>

text \<open>The deliveries of the reaper: the base may have been updated before them.\<close>

lemma delivered_all:
  assumes "view_ok n k y" and "\<forall>(t, cid) \<in> set fs. valid_slot n k t \<and> sy_collecting y (bs_batcher_idx t) = None"
  defines "bs \<equiv> foldl (\<lambda>bs (t, cid). deliver t cid force_end_payload bs) (sy_batches y) fs"
  shows "view_ok n k (y\<lparr>sy_batches := bs\<rparr>) \<and>
    (valid_slot n k u \<longrightarrow> slot_queue (y\<lparr>sy_batches := bs\<rparr>) u =
       slot_queue y u @ replicate (length (filter (\<lambda>x. fst x = u) fs)) force_end_payload)"
  using assms(1,2) unfolding bs_def
proof (induction fs arbitrary: y)
  case (Cons f fs)
  obtain t cid where f: "f = (t, cid)" by (cases f)
  have v: "valid_slot n k t" "sy_collecting y (bs_batcher_idx t) = None" using Cons.prems f by auto
  let ?y = "delivered t cid force_end_payload y"
  have vy: "view_ok n k y"
    "\<forall>(t, cid) \<in> set fs. valid_slot n k t \<and> sy_collecting ?y (bs_batcher_idx t) = None"
    using Cons.prems by (auto simp: delivered_def)
  note d = delivered_view [OF vy(1) v, where cid = cid and p = force_end_payload]
  have y1: "view_ok n k ?y" using d by (simp add: view_ok_def)
  have eq: "?y\<lparr>sy_batches := bs\<rparr> = y\<lparr>sy_batches := bs\<rparr>" for bs by (simp add: delivered_def)
  have b1: "sy_batches ?y = deliver t cid force_end_payload (sy_batches y)" by (simp add: delivered_def)
  show ?case
    using Cons.IH [OF y1 vy(2)] d(2) by (auto simp: f eq b1)
qed (simp add: view_ok_def)

lemma ends_replicate_force [simp]: "ends (replicate m force_end_payload) = m"
  by (induction m) (auto simp: is_end_def force_end_payload_def Payload_new_def)

lemma force_ends_member:
  assumes "base_inv s" and "(t, cid) \<in> set (rp_force_ends (seq_reap now_us s))"
  shows "0 < owners s t"
proof -
  have "0 < force_ends_for (seq_reap now_us s) t"
    using assms(2) by (force simp: force_ends_for_def filter_empty_conv)
  then show ?thesis using seq_reap_inv(2) [OF assms(1), of now_us t] by linarith
qed

lemma sys_inv_reap:
  assumes inv: "sys_inv n k y"
    and c: "\<forall>(t, cid) \<in> set (rp_force_ends (seq_reap now_us (sy_base y))). sy_collecting y (bs_batcher_idx t) = None"
  shows "sys_inv n k (y\<lparr>sy_base := rp_base (seq_reap now_us (sy_base y)),
    sy_batches := foldl (\<lambda>bs (t, cid). deliver t cid force_end_payload bs) (sy_batches y)
      (rp_force_ends (seq_reap now_us (sy_base y)))\<rparr>)"
proof -
  let ?r = "seq_reap now_us (sy_base y)"
  let ?bs = "foldl (\<lambda>bs (t, cid). deliver t cid force_end_payload bs) (sy_batches y) (rp_force_ends ?r)"
  have base: "base_inv (sy_base y)" using inv by (simp add: sys_inv_def)
  have fs: "\<forall>(t, cid) \<in> set (rp_force_ends ?r). valid_slot n k t \<and> sy_collecting y (bs_batcher_idx t) = None"
    using c force_ends_member [OF base] owners_valid [OF inv] by blast
  note d = delivered_all [OF sys_inv_view [OF inv] fs]
  let ?y = "y\<lparr>sy_base := rp_base ?r, sy_batches := ?bs\<rparr>"
  have y: "?y = (y\<lparr>sy_batches := ?bs\<rparr>)\<lparr>sy_base := rp_base ?r\<rparr>" by simp
  have sel: "sy_base ?y = rp_base ?r" "sy_collecting ?y = sy_collecting y" "flying ?y = flying y"
    "cur_batch ?y = cur_batch (y\<lparr>sy_batches := ?bs\<rparr>)" "slot_queue ?y = slot_queue (y\<lparr>sy_batches := ?bs\<rparr>)"
    unfolding y by (simp_all only: view_simps slot_queue_simps) simp_all
  note o = seq_reap_inv [OF base, of now_us]
  show ?thesis
  proof (rule sys_inv_same [OF inv])
    show "base_inv (sy_base ?y)" using o(1) sel by simp
    show "slot_tokens ?y u = slot_tokens y u" if "valid_slot n k u" for u
      using o(2) [of u] d [of u] that by (simp add: slot_tokens_def sel force_ends_for_def)
    show "owners (sy_base ?y) u = 0 \<and> flying ?y u = []" if "\<not> valid_slot n k u" for u
      using o(2) [of u] that inv by (simp add: sel sys_inv_def)
    show "length (sy_batches ?y) = n" using d by (simp add: view_ok_def)
    show "batch_shape k b (cur_batch ?y b)" if "b < n" for b
      using d that by (simp add: sel view_ok_def)
  qed (use inv sel in \<open>auto simp: sys_inv_def\<close>)
qed

subsection \<open>The pass of a runner\<close>

lemma slot_payload_ends:
  "slot_payload bt ps = (p, fin, rest) \<Longrightarrow>
   ends ps = (if fin then 1 else 0) + ends rest \<and> rest = tl ps \<and> (fin \<longrightarrow> ps \<noteq> [] \<and> is_end (hd ps))"
  by (auto simp: slot_payload_def is_end_def pl_header_def Let_def split: list.splits option.splits)

lemma seq_slot_inv:
  assumes "base_inv (cl_base c)" and sh: "batch_shape k b (cl_batch c)" and i: "i < k"
    and tok: "owners (cl_base c) (BatchSlot b i) + ends (bt_queues (cl_batch c) ! i) \<le> 1"
    and le: "\<forall>t. owners (cl_base c) t \<le> 1"
    and c': "c' = seq_slot i c"
  shows "base_inv (cl_base c')" and "batch_shape k b (cl_batch c')"
    and "owners (cl_base c') (BatchSlot b i) + ends (bt_queues (cl_batch c') ! i) =
         owners (cl_base c) (BatchSlot b i) + ends (bt_queues (cl_batch c) ! i)"
    and "t \<noteq> BatchSlot b i \<Longrightarrow> owners (cl_base c') t = owners (cl_base c) t"
    and "j \<noteq> i \<Longrightarrow> bt_queues (cl_batch c') ! j = bt_queues (cl_batch c) ! j"
proof -
  let ?b = "cl_batch c" and ?t = "BatchSlot b i"
  obtain p fin rest where sp: "slot_payload ?b (bt_queues ?b ! i) = (p, fin, rest)"
    by (metis prod_cases3)
  note e = slot_payload_ends [OF sp]
  have idx: "bt_batcher_idx ?b = b" "length (bt_queues ?b) = k" "length (bt_slot_correlation_ids ?b) = k"
    using sh by (simp_all add: batch_shape_def)
  have "base_inv (cl_base c') \<and> batch_shape k b (cl_batch c') \<and>
    owners (cl_base c') ?t + ends (bt_queues (cl_batch c') ! i) =
      owners (cl_base c) ?t + ends (bt_queues ?b ! i) \<and>
    (t \<noteq> ?t \<longrightarrow> owners (cl_base c') t = owners (cl_base c) t) \<and>
    (j \<noteq> i \<longrightarrow> bt_queues (cl_batch c') ! j = bt_queues ?b ! j)"
  proof (cases fin)
    case False
    then show ?thesis
      using c' sp e sh i assms(1) idx by (simp add: seq_slot_def Let_def batch_shape_def)
  next
    case True
    obtain rel q s' where r: "ReleaseBatchSlot ?t rest (cl_base c) = (rel, q, s')"
      by (metis prod_cases3)
    have "owners (cl_base c) ?t = 0" "ends rest = 0" using tok e True by simp_all
    note rel = ReleaseBatchSlot_inv [OF r assms(1) this(1)] this(2)
    have sel: "cl_base c' = s'" "bt_queues (cl_batch c') = (bt_queues ?b)[i := q]"
      "bt_batcher_idx (cl_batch c') = b" "bt_max_active_slot (cl_batch c') = bt_max_active_slot ?b"
      "length (bt_slot_correlation_ids (cl_batch c')) = k"
      using c' sp r True idx by (simp_all add: seq_slot_def Let_def)
    have "ends (bt_queues ?b ! i) = 1" using e True \<open>ends rest = 0\<close> by simp
    moreover have "owners s' ?t + ends q = 1"
      using rel(2) \<open>ends rest = 0\<close> by (simp split: if_splits)
    ultimately show ?thesis
      using rel(1,3) sh i idx \<open>owners (cl_base c) ?t = 0\<close> by (simp add: sel batch_shape_def)
  qed
  then show "base_inv (cl_base c')" "batch_shape k b (cl_batch c')"
    "owners (cl_base c') ?t + ends (bt_queues (cl_batch c') ! i) =
      owners (cl_base c) ?t + ends (bt_queues ?b ! i)"
    "t \<noteq> ?t \<Longrightarrow> owners (cl_base c') t = owners (cl_base c) t"
    "j \<noteq> i \<Longrightarrow> bt_queues (cl_batch c') ! j = bt_queues ?b ! j" by blast+
qed

lemma adjust_loop_le: "adjust_loop ids m \<le> m"
  by (induction m) (auto simp: le_Suc_eq)

lemma collect_end_shape: "batch_shape k b (cl_batch c) \<Longrightarrow> batch_shape k b (collect_end c)"
  using adjust_loop_le [of "bt_slot_correlation_ids (cl_batch c)" "nat (bt_max_active_slot (cl_batch c) + 1)"]
  by (auto simp: collect_end_def adjust_max_active_slot_def batch_shape_def)

lemma collect_end_queues [simp]: "bt_queues (collect_end c) = bt_queues (cl_batch c)"
  by (simp add: collect_end_def adjust_max_active_slot_def)

lemma max_slot_loop_le: "max_slot_loop qs m \<le> m"
  by (induction m) (auto simp: le_Suc_eq)


lemma sys_inv_pass_begin:
  assumes inv: "sys_inv n k y" and b: "b < n" and c: "sy_collecting y b = None"
    and m: "m = max_slot_loop (bt_queues (sy_batches y ! b)) (nat (bt_max_active_slot (sy_batches y ! b) + 1))"
  shows "sys_inv n k (y\<lparr>sy_collecting := (sy_collecting y)(b \<mapsto> (collect_begin (sy_base y) (sy_batches y ! b), [0..<m]))\<rparr>)"
proof -
  let ?y = "y\<lparr>sy_collecting := (sy_collecting y)(b \<mapsto> (collect_begin (sy_base y) (sy_batches y ! b), [0..<m]))\<rparr>"
  have cur: "cur_batch ?y = cur_batch y"
    using c by (auto simp: cur_batch_def collect_begin_def fun_eq_iff split: option.splits)
  have "cur_batch y b = sy_batches y ! b" using c by (simp add: cur_batch_def)
  then have "batch_shape k b (sy_batches y ! b)" using inv b unfolding sys_inv_def by metis
  then have "m \<le> k"
    using max_slot_loop_le [of "bt_queues (sy_batches y ! b)" "nat (bt_max_active_slot (sy_batches y ! b) + 1)"] m
    unfolding batch_shape_def by linarith
  then have "set [0..<m] \<subseteq> {..<k}" by auto
  then show ?thesis
    using inv b cur unfolding sys_inv_def slot_tokens_def slot_queue_def by (auto simp: fun_upd_apply)
qed

lemma sys_inv_pass_slot:
  assumes inv: "sys_inv n k y" and c: "sy_collecting y b = Some (c, i # rest)"
    and c': "c' = seq_slot i (c\<lparr>cl_base := sy_base y\<rparr>)"
  shows "sys_inv n k (y\<lparr>sy_base := cl_base c', sy_collecting := (sy_collecting y)(b \<mapsto> (c', rest))\<rparr>)"
proof -
  let ?y = "y\<lparr>sy_base := cl_base c', sy_collecting := (sy_collecting y)(b \<mapsto> (c', rest))\<rparr>"
  let ?t = "BatchSlot b i"
  have b: "b < n" and i: "i < k" "set rest \<subseteq> {..<k}"
    using inv c unfolding sys_inv_def by fastforce+
  have cur: "cur_batch y b = cl_batch c" using c by (simp add: cur_batch_def)
  have cur': "cur_batch ?y d = (if d = b then cl_batch c' else cur_batch y d)" for d
    by (simp add: cur_batch_def split: option.splits)
  have sh: "batch_shape k b (cl_batch (c\<lparr>cl_base := sy_base y\<rparr>))"
    using inv b cur unfolding sys_inv_def by (metis collect.select_convs(2) collect.surjective collect.update_convs(1))
  have v: "valid_slot n k ?t" using b i by (simp add: valid_slot_def BatchSlot_def)
  have q: "slot_queue y ?t = bt_queues (cl_batch c) ! i" by (simp add: slot_queue_def cur BatchSlot_def)
  have "slot_tokens y ?t = 1" using inv v by (simp add: sys_inv_def)
  then have tok: "owners (cl_base (c\<lparr>cl_base := sy_base y\<rparr>)) ?t +
      ends (bt_queues (cl_batch (c\<lparr>cl_base := sy_base y\<rparr>)) ! i) \<le> 1"
    by (simp add: slot_tokens_def q)
  have base: "base_inv (cl_base (c\<lparr>cl_base := sy_base y\<rparr>))"
    "\<forall>t. owners (cl_base (c\<lparr>cl_base := sy_base y\<rparr>)) t \<le> 1"
    using inv sys_inv_owners [OF inv] by (simp_all add: sys_inv_def)
  note st = seq_slot_inv [OF base(1) sh i(1) tok base(2) c']
  show ?thesis
  proof (rule sys_inv_same [OF inv])
    show "slot_tokens ?y u = slot_tokens y u" if "valid_slot n k u" for u
    proof (cases "u = ?t")
      case True
      then show ?thesis
        using st(3) by (simp add: slot_tokens_def slot_queue_def cur' cur BatchSlot_def)
    next
      case False
      have "slot_queue ?y u = slot_queue y u"
      proof (cases "bs_batcher_idx u = b")
        case True
        then have "bs_slot u \<noteq> i" using False by (auto simp: BatchSlot_def)
        then show ?thesis using st(5) True by (simp add: slot_queue_def cur' cur)
      qed (simp add: slot_queue_def cur')
      then show ?thesis using st(4) [OF False] by (simp add: slot_tokens_def)
    qed
    show "owners (sy_base ?y) u = 0 \<and> flying ?y u = []" if "\<not> valid_slot n k u" for u
    proof -
      have "u \<noteq> ?t" using that v by auto
      then show ?thesis using st(4) [of u] that inv by (simp add: sys_inv_def)
    qed
  qed (use inv st(1,2) b i in \<open>auto simp: sys_inv_def cur' split: if_splits\<close>)
qed

lemma sys_inv_pass_end:
  assumes inv: "sys_inv n k y" and c: "sy_collecting y b = Some (c, [])"
  shows "sys_inv n k (y\<lparr>sy_batches := (sy_batches y)[b := collect_end c],
      sy_collecting := (sy_collecting y)(b := None),
      sy_dispatched := sy_dispatched y @ [cl_payloads c],
      sy_clobbered := sy_clobbered y @ cl_clobbered c\<rparr>)"
proof -
  let ?y = "y\<lparr>sy_batches := (sy_batches y)[b := collect_end c],
      sy_collecting := (sy_collecting y)(b := None),
      sy_dispatched := sy_dispatched y @ [cl_payloads c],
      sy_clobbered := sy_clobbered y @ cl_clobbered c\<rparr>"
  have b: "b < n" "length (sy_batches y) = n" using inv c by (auto simp: sys_inv_def)
  have cur: "cur_batch y b = cl_batch c" using c by (simp add: cur_batch_def)
  have cur': "cur_batch ?y d = (if d = b then collect_end c else cur_batch y d)" for d
    using b by (auto simp: cur_batch_def split: option.splits)
  have q: "slot_queue ?y u = slot_queue y u" for u unfolding slot_queue_def cur' by (simp add: cur)
  have f: "flying ?y = flying y" by (simp add: flying_def fun_eq_iff)
  have "batch_shape k b (collect_end c)"
    using inv b cur collect_end_shape unfolding sys_inv_def by metis
  then have "batch_shape k d (cur_batch ?y d)" if "d < n" for d
    using inv that unfolding cur' sys_inv_def by auto
  moreover have "slot_tokens ?y u = slot_tokens y u" for u
    unfolding slot_tokens_def q f by simp
  ultimately show ?thesis
    using inv b f by (intro sys_inv_same [OF inv]) (auto simp: sys_inv_def split: if_splits)
qed

lemma sys_inv_flag:
  assumes inv: "sys_inv n k y" and b: "b < n" "sy_collecting y b = None"
  shows "sys_inv n k (y\<lparr>sy_batches := (sy_batches y)[b := (sy_batches y ! b)\<lparr>bt_scheduler_idle := v\<rparr>]\<rparr>)"
proof -
  let ?y = "y\<lparr>sy_batches := (sy_batches y)[b := (sy_batches y ! b)\<lparr>bt_scheduler_idle := v\<rparr>]\<rparr>"
  have l: "length (sy_batches y) = n" using inv by (simp add: sys_inv_def)
  have cur': "cur_batch ?y d = (if d = b then (cur_batch y b)\<lparr>bt_scheduler_idle := v\<rparr> else cur_batch y d)" for d
    using b l by (auto simp: cur_batch_def split: option.splits)
  have q: "slot_queue ?y = slot_queue y" by (auto simp: slot_queue_def cur' fun_eq_iff)
  show ?thesis
    using inv b q cur' unfolding sys_inv_def slot_tokens_def by (auto simp: batch_shape_def)
qed

lemma sys_inv_step:
  assumes "sys_inv n k y" and "seq_step y y'"
  shows "sys_inv n k y'"
  using assms(2,1)
proof (induction rule: seq_step.induct)
  case (enqueue p rp now_us y res s')
  then show ?case by (rule sys_inv_enqueue [rotated])
next
  case (deliver t cid p y)
  then show ?case by (intro sys_inv_deliver)
next
  case (reap now_us y r)
  then show ?case using sys_inv_reap by blast
next
  case (delay b y cnt tot)
  then show ?case by (simp add: sys_inv_def slot_tokens_def DelayScheduler_def Let_def)
next
  case (wait_begin b y)
  then show ?case by (intro sys_inv_flag) (simp_all add: sys_inv_def)
next
  case (wait_over b y)
  then show ?case unfolding seq_wait_over_def by (intro sys_inv_flag) (simp_all add: sys_inv_def)
next
  case (pass_begin b y bt m)
  then show ?case using sys_inv_pass_begin [of n k y b m] by (simp add: sys_inv_def)
next
  case (pass_slot y b c i rest c')
  then show ?case by (intro sys_inv_pass_slot)
next
  case (pass_end y b c)
  then show ?case by (intro sys_inv_pass_end)
qed


section \<open>Runs\<close>

text \<open>A scheduler for a configuration: what \<open>Create\<close> delivers, with no request yet.\<close>

definition batch_slots :: "model_config \<Rightarrow> nat" where
  "batch_slots config = nat (max 1 (mc_max_batch_size config))"

definition seq_started :: "model_config \<Rightarrow> sequence_batching \<Rightarrow> nat \<Rightarrow> seq_sys \<Rightarrow> bool" where
  "seq_started config sb n y \<longleftrightarrow> (\<exists>bd init. seq_Create config sb n bd = Inr init \<and> y = seq_system init)"

lemma foldl_push: "foldl (\<lambda>q x. slots_push x q) qs xs = qs @ xs"
  by (induction xs arbitrary: qs) (simp_all add: slots_push_def)

lemma count_slots: "count (mset [BatchSlot c b. c \<leftarrow> [0..<n], b \<leftarrow> [0..<k]]) t = (if valid_slot n k t then 1 else 0)"
proof (induction n)
  case (Suc n)
  have "count (mset (map (BatchSlot n) [0..<k])) t = (if bs_batcher_idx t = n \<and> bs_slot t < k then 1 else 0)"
  proof (induction k)
    case (Suc k)
    have "BatchSlot n k = t \<longleftrightarrow> bs_batcher_idx t = n \<and> bs_slot t = k" by (auto simp: BatchSlot_def)
    then show ?case using Suc by (auto simp: less_Suc_eq)
  qed simp
  then show ?case using Suc by (auto simp: valid_slot_def less_Suc_eq)
qed (simp add: valid_slot_def)

lemma seq_started_inv:
  assumes "seq_started config sb n y"
  shows "sys_inv n (batch_slots config) y"
proof -
  let ?k = "batch_slots config"
  obtain bd s bs where c: "seq_Create config sb n bd = Inr (s, bs)" "y = seq_system (s, bs)"
    using assms by (auto simp: seq_started_def)
  from c(1) obtain ctl where ctl: "CreateControlTensors config sb = Inr ctl"
    by (cases "CreateControlTensors config sb") (auto simp: seq_Create_def Let_def)
  have y: "sq_batchslot_map s = Map.empty" "sq_backlog_map s = Map.empty"
    "sq_backlog_queues s = []" "sq_ready_batch_slots s = [BatchSlot c b. c \<leftarrow> [0..<n], b \<leftarrow> [0..<?k]]"
    "bs = map (\<lambda>c. SequenceBatch_new c ?k ctl) [0..<n]"
    using c(1) ctl by (auto simp: seq_Create_def Let_def batch_slots_def foldl_push)
  have "base_inv s" by (simp add: y base_inv_def backlog_ok_def one_to_one_def)
  moreover have "owners s t = (if valid_slot n ?k t then 1 else 0)" for t
    by (simp add: owners_def y count_slots)
  moreover have "1 \<le> ?k" by (simp add: batch_slots_def)
  ultimately show ?thesis
    by (auto simp: c(2) sys_inv_def seq_system_def y(5) batch_shape_def SequenceBatch_new_def
        cur_batch_def slot_tokens_def slot_queue_def flying_def valid_slot_def)
qed

interpretation seq: transition_system "seq_started config sb n" seq_step "sys_inv n (batch_slots config)"
  for config sb n
  by unfold_locales (auto intro: seq_started_inv sys_inv_step)

text \<open>Concrete runs: actions that pick a step, when its guard holds.\<close>

datatype seq_action =
    Act_enqueue "64 word" payload
  | Act_deliver nat
  | Act_begin nat
  | Act_slot nat
  | Act_end nat

fun seq_act :: "seq_action \<Rightarrow> seq_sys \<Rightarrow> seq_sys option" where
  "seq_act (Act_enqueue now_us p) y =
     (case pl_request_provider p of
        None \<Rightarrow> None
      | Some rp \<Rightarrow> (let (res, s') = seq_Enqueue now_us p rp (sy_base y)
                   in Some (enqueue_done res p (y\<lparr>sy_base := s'\<rparr>))))"
| "seq_act (Act_deliver i) y =
     (if i < length (sy_in_flight y) then
        (let x = sy_in_flight y ! i; (t, cid, p) = x
         in if sy_collecting y (bs_batcher_idx t) = None then
              Some (y\<lparr>sy_in_flight := remove1 x (sy_in_flight y), sy_batches := deliver t cid p (sy_batches y)\<rparr>)
            else None)
      else None)"
| "seq_act (Act_begin b) y =
     (let bt = sy_batches y ! b; n = max_slot_loop (bt_queues bt) (nat (bt_max_active_slot bt + 1))
      in if b < length (sy_batches y) \<and> sy_collecting y b = None \<and> 0 < n then
           Some (y\<lparr>sy_collecting := (sy_collecting y)(b \<mapsto> (collect_begin (sy_base y) bt, [0..<n]))\<rparr>)
         else None)"
| "seq_act (Act_slot b) y =
     (case sy_collecting y b of
        Some (c, i # rest) \<Rightarrow>
          (let c' = seq_slot i (c\<lparr>cl_base := sy_base y\<rparr>)
           in Some (y\<lparr>sy_base := cl_base c', sy_collecting := (sy_collecting y)(b \<mapsto> (c', rest))\<rparr>))
      | _ \<Rightarrow> None)"
| "seq_act (Act_end b) y =
     (case sy_collecting y b of
        Some (c, []) \<Rightarrow>
          Some (y\<lparr>sy_batches := (sy_batches y)[b := collect_end c],
            sy_collecting := (sy_collecting y)(b := None),
            sy_dispatched := sy_dispatched y @ [cl_payloads c],
            sy_clobbered := sy_clobbered y @ cl_clobbered c\<rparr>)
      | _ \<Rightarrow> None)"

fun seq_acts :: "seq_action list \<Rightarrow> seq_sys \<Rightarrow> seq_sys option" where
  "seq_acts [] y = Some y"
| "seq_acts (a # as) y = (case seq_act a y of None \<Rightarrow> None | Some y' \<Rightarrow> seq_acts as y')"

lemma seq_act_step: "seq_act a y = Some y' \<Longrightarrow> seq_step y y'"
proof (induction a y rule: seq_act.induct)
  case (1 now_us p y)
  then show ?case by (auto split: option.splits prod.splits intro: seq_step.enqueue)
next
  case (2 i y)
  obtain t cid p where x: "sy_in_flight y ! i = (t, cid, p)" by (metis prod_cases3)
  show ?case
    using 2 x nth_mem [of i "sy_in_flight y"]
    by (auto simp: Let_def split: if_splits intro!: seq_step.deliver)
next
  case (3 b y)
  then show ?case by (auto simp: Let_def split: if_splits intro: seq_step.pass_begin)
next
  case (4 b y)
  then show ?case by (auto simp: Let_def split: option.splits list.splits intro: seq_step.pass_slot)
next
  case (5 b y)
  then show ?case by (auto split: option.splits list.splits intro: seq_step.pass_end)
qed

lemma seq_acts_run: "seq_acts as y = Some y' \<Longrightarrow> seq_step\<^sup>*\<^sup>* y y'"
  by (induction as y rule: seq_acts.induct)
    (auto split: option.splits intro: converse_rtranclp_into_rtranclp dest: seq_act_step)

lemma seq_acts_the: "seq_acts as y \<noteq> None \<Longrightarrow> seq_step\<^sup>*\<^sup>* y (the (seq_acts as y))"
  using seq_acts_run by fastforce

definition sequence_config :: model_config where
  "sequence_config = model_config_clear\<lparr>mc_name := ''seq'', mc_platform := ''custom'', mc_max_batch_size := 2,
     mc_scheduling := Sequence_batching bert_controls\<rparr>"

definition sequence_request :: "nat \<Rightarrow> correlation_id \<Rightarrow> 32 word \<Rightarrow> payload" where
  "sequence_request i cid flags =
     Payload_new (Some 0) (Some i)
       (Some \<lparr>rp_id = i, rp_model_name = ''seq'',
          rp_header = request_header_clear\<lparr>rh_flags := flags, rh_correlation_id := cid, rh_batch_size := 1\<rparr>,
          rp_overrides = None\<rparr>)
       (Some i) (Some i)"

definition sequence_system :: "nat \<Rightarrow> seq_sys" where
  "sequence_system runners =
     (case seq_Create sequence_config bert_controls runners 0 of Inr init \<Rightarrow> seq_system init)"

lemma sequence_system_started: "seq_started sequence_config bert_controls 1 (sequence_system 1)"
proof -
  have "\<not> (case seq_Create sequence_config bert_controls 1 0 of Inl _ \<Rightarrow> True | Inr _ \<Rightarrow> False)"
    by code_simp
  then show ?thesis
    by (auto simp: seq_started_def sequence_system_def split: sum.splits)
qed

text \<open>Two sequences fill the two slots of the runner, a third waits; the first one then ends.\<close>

definition sequence_run :: seq_sys where
  "sequence_run = the (seq_acts
     [Act_enqueue 0 (sequence_request 1 7 1), Act_deliver 0, Act_enqueue 0 (sequence_request 2 8 1),
      Act_deliver 0, Act_enqueue 0 (sequence_request 3 9 1), Act_begin 0, Act_slot 0, Act_slot 0, Act_end 0,
      Act_enqueue 0 (sequence_request 4 7 2)] (sequence_system 1))"

lemma sequence_run_reached: "seq_step\<^sup>*\<^sup>* (sequence_system 1) sequence_run"
  unfolding sequence_run_def by (rule seq_acts_the) code_simp

text \<open>
  Claim C4. Each slot of each batch has exactly one owner at every moment of every run, however the
  threads interleave: it is in the heap of ready slots, or it is assigned to a sequence, or the end
  of its sequence (an END request or a force-end of the reaper) is on its way to the slot or waits
  in the slot's queue.
\<close>

theorem seq_run_slots:
  assumes "seq_started config sb n y" and "seq_step\<^sup>*\<^sup>* y y'" and "valid_slot n (batch_slots config) t"
  shows "count (mset (sq_ready_batch_slots (sy_base y'))) t +
    (if t \<in> ran (sq_batchslot_map (sy_base y')) then 1 else 0) +
    ends (flying y' t) + ends (slot_queue y' t) = 1"
  using seq.reachable_inv [OF assms(1,2)] assms(3) by (simp add: sys_inv_def slot_tokens_def owners_def)

theorem seq_run_slots_witness:
  "count (mset (sq_ready_batch_slots (sy_base sequence_run))) (BatchSlot 0 0) +
    (if BatchSlot 0 0 \<in> ran (sq_batchslot_map (sy_base sequence_run)) then 1 else 0) +
    ends (flying sequence_run (BatchSlot 0 0)) + ends (slot_queue sequence_run (BatchSlot 0 0)) = 1"
  by (rule seq_run_slots [OF sequence_system_started sequence_run_reached])
    (simp add: valid_slot_def BatchSlot_def batch_slots_def sequence_config_def)

text \<open>
  Claim C8. In every run no two sequences share a slot, no sequence has both a slot and a backlog
  queue, the requests collected in a backlog queue belong to one sequence that has not ended before
  its last request, and a sequence waits in the backlog only while no slot is ready.
\<close>

theorem seq_run_assignment:
  assumes "seq_started config sb n y" and "seq_step\<^sup>*\<^sup>* y y'"
  shows "one_to_one (sq_batchslot_map (sy_base y')) \<and>
    dom (sq_batchslot_map (sy_base y')) \<inter> dom (sq_backlog_map (sy_base y')) = {} \<and>
    (\<forall>q \<in> set (sq_backlog_queues (sy_base y')). queue_ok (sy_base y') q) \<and>
    (sq_backlog_queues (sy_base y') = [] \<or> sq_ready_batch_slots (sy_base y') = [])"
  using seq.reachable_inv [OF assms] unfolding sys_inv_def base_inv_def backlog_ok_def by blast


lemma sequence_run_backlog: "sq_backlog_queues (sy_base sequence_run) = [0]"
  unfolding sequence_run_def by code_simp

theorem seq_run_assignment_witness:
  "sq_backlog_queues (sy_base sequence_run) = [0] \<and> queue_ok (sy_base sequence_run) 0"
  using seq_run_assignment [OF sequence_system_started sequence_run_reached]
  by (simp add: sequence_run_backlog)

end
