(* ===== verification/Sequence_Props.thy ===== *)
theory Sequence_Props
  imports Sequence_Safety
begin

text \<open>
  Behaviour of the operations of the sequence batcher: the batch a runner builds, its completion,
  the control tensors, the reaper; and what the locking of the code does not prevent: a request
  that is lost, and a deadlock.
\<close>

section \<open>The batch of a pass\<close>

lemma seq_slot_other:
  "bt_queues (cl_batch (seq_slot i c)) ! j = bt_queues (cl_batch c) ! j" if "j \<noteq> i"
  using that by (simp add: seq_slot_def Let_def split: prod.split)

lemma seq_slot_payload:
  "cl_payloads (seq_slot i c) = cl_payloads c @ [fst (slot_payload (cl_batch c) (bt_queues (cl_batch c) ! i))]"
  by (simp add: seq_slot_def Let_def split: prod.split)

lemma seq_slot_same [simp]:
  "bt_null_request_header (cl_batch (seq_slot i c)) = bt_null_request_header (cl_batch c)"
  "bt_start_input_overrides (cl_batch (seq_slot i c)) = bt_start_input_overrides (cl_batch c)"
  "bt_continue_input_overrides (cl_batch (seq_slot i c)) = bt_continue_input_overrides (cl_batch c)"
  "bt_notready_input_overrides (cl_batch (seq_slot i c)) = bt_notready_input_overrides (cl_batch c)"
  by (simp_all add: seq_slot_def Let_def split: prod.split)

lemma slot_payload_cong:
  "bt_null_request_header b' = bt_null_request_header b \<Longrightarrow>
   bt_start_input_overrides b' = bt_start_input_overrides b \<Longrightarrow>
   bt_continue_input_overrides b' = bt_continue_input_overrides b \<Longrightarrow>
   bt_notready_input_overrides b' = bt_notready_input_overrides b \<Longrightarrow>
   slot_payload b' q = slot_payload b q"
  by (simp add: slot_payload_def null_payload_def Let_def split: list.split option.split)

lemma collect_payloads:
  "cl_payloads (foldl (\<lambda>c slot. seq_slot slot c) c [i..<n]) =
   cl_payloads c @ map (\<lambda>j. fst (slot_payload (cl_batch c) (bt_queues (cl_batch c) ! j))) [i..<n]"
proof (induction "n - i" arbitrary: i c)
  case (Suc m)
  then have i: "[i..<n] = i # [Suc i..<n]" "m = n - Suc i" by (auto simp: upt_conv_Cons)
  have "slot_payload (cl_batch (seq_slot i c)) (bt_queues (cl_batch (seq_slot i c)) ! j) =
      slot_payload (cl_batch c) (bt_queues (cl_batch c) ! j)" if "j \<in> set [Suc i..<n]" for j
    using that slot_payload_cong [of "cl_batch (seq_slot i c)" "cl_batch c"] by (simp add: seq_slot_other)
  then show ?case
    using Suc(1) [OF i(2), of "seq_slot i c"] by (simp add: i(1) seq_slot_payload cong: map_cong)
qed simp

lemma max_slot_loop_queue: "0 < max_slot_loop qs m \<Longrightarrow> qs ! (max_slot_loop qs m - 1) \<noteq> []"
  by (induction m) auto


definition aligned_batch :: seq_batch where
  "aligned_batch =
     (sy_batches (the (seq_acts [Act_enqueue 0 (sequence_request 1 7 1), Act_enqueue 0 (sequence_request 2 8 1),
        Act_deliver 1] (sequence_system 1))) ! 0)"


section \<open>Completion\<close>

lemma null_payload_error_Some:
  "null_payload_error ps = Some e \<Longrightarrow> \<not> IsOk e \<and> (\<exists>p \<in> set ps. pl_complete_function p = None \<and> pl_status p = e)"
  by (induction ps) (auto split: if_splits)

lemma null_payload_error_None:
  "null_payload_error ps = None \<longleftrightarrow> (\<forall>p \<in> set ps. pl_complete_function p = None \<longrightarrow> IsOk (pl_status p))"
  by (induction ps) auto

text \<open>
  Completing a batch runs each request's completion function once, in slot order. If the
  backend failed, or a payload without a completion function failed, no request is reported
  successful; otherwise each request gets its own status, and at most one execution is counted.
\<close>

theorem seq_OnComplete_completes:
  "\<exists>final. map fst (completed (seq_OnComplete st ps)) = List.map_filter pl_complete_function ps \<and>
    completed (seq_OnComplete st ps) =
      [(f, if IsOk final then pl_status p else final). p \<leftarrow> ps,
         f \<leftarrow> (case pl_complete_function p of None \<Rightarrow> [] | Some f \<Rightarrow> [f])] \<and>
    IsOk final = (IsOk st \<and> null_payload_error ps = None) \<and>
    length (execution_counts (seq_OnComplete st ps)) \<le> 1"
proof -
  define final where
    "final = (if IsOk st then (case null_payload_error ps of None \<Rightarrow> st | Some e \<Rightarrow> e) else st)"
  have c: "completed (seq_OnComplete st ps) =
      [(f, if IsOk final then pl_status p else final). p \<leftarrow> ps,
         f \<leftarrow> (case pl_complete_function p of None \<Rightarrow> [] | Some f \<Rightarrow> [f])]"
    unfolding seq_OnComplete_def Let_def final_def [symmetric] completed_complete_loop ..
  have "map fst [(f, g p). p \<leftarrow> ps, f \<leftarrow> (case pl_complete_function p of None \<Rightarrow> [] | Some f \<Rightarrow> [f])] =
      List.map_filter pl_complete_function ps" for g :: "payload \<Rightarrow> status"
    by (induction ps) (auto simp: List.map_filter_simps split: option.splits)
  then have "map fst (completed (seq_OnComplete st ps)) = List.map_filter pl_complete_function ps"
    unfolding c .
  moreover have "IsOk final = (IsOk st \<and> null_payload_error ps = None)"
    by (auto simp: final_def dest: null_payload_error_Some split: option.splits)
  moreover have "length (execution_counts (seq_OnComplete st ps)) \<le> 1"
    unfolding seq_OnComplete_def Let_def by (rule execution_counts_le_1)
  ultimately show ?thesis using c by blast
qed


section \<open>Control tensors\<close>

lemma CreateControlTensors_Inr:
  "CreateControlTensors config sb = Inr ctl \<longleftrightarrow>
   (\<exists>p1 p2. GetSequenceControlProperties sb (mc_name config) CONTROL_SEQUENCE_START True control_props_init = Inr p1 \<and>
      GetSequenceControlProperties sb (mc_name config) CONTROL_SEQUENCE_READY True p1 = Inr p2 \<and>
      ctl = \<lparr>ctl_start = override_insert (cp_tensor_name p2) (control_override p2 True)
            (override_insert (cp_tensor_name p1) (control_override p1 True) []),
          ctl_continue = override_insert (cp_tensor_name p2) (control_override p2 True)
            (override_insert (cp_tensor_name p1) (control_override p1 False) []),
          ctl_notready = override_insert (cp_tensor_name p2) (control_override p2 False)
            (override_insert (cp_tensor_name p1) (control_override p1 False) [])\<rparr>)"
  by (auto simp: CreateControlTensors_def bind_status_def split: sum.splits)

text \<open>
  When START and READY are configured on different tensors, the three sets of overrides
  deliver exactly the documented values: start is (START, READY), continue is (not START, READY),
  and not ready is (not START, not READY).
\<close>

theorem CreateControlTensors_values:
  assumes "CreateControlTensors config sb = Inr ctl"
    and "GetSequenceControlProperties sb (mc_name config) CONTROL_SEQUENCE_START True control_props_init = Inr p1"
    and "GetSequenceControlProperties sb (mc_name config) CONTROL_SEQUENCE_READY True p1 = Inr p2"
    and "cp_tensor_name p1 \<noteq> cp_tensor_name p2"
  shows "map_of (ctl_start ctl) = [cp_tensor_name p1 \<mapsto> control_override p1 True, cp_tensor_name p2 \<mapsto> control_override p2 True] \<and>
    map_of (ctl_continue ctl) = [cp_tensor_name p1 \<mapsto> control_override p1 False, cp_tensor_name p2 \<mapsto> control_override p2 True] \<and>
    map_of (ctl_notready ctl) = [cp_tensor_name p1 \<mapsto> control_override p1 False, cp_tensor_name p2 \<mapsto> control_override p2 False]"
proof -
  have ctl: "ctl = \<lparr>ctl_start = [(cp_tensor_name p1, control_override p1 True), (cp_tensor_name p2, control_override p2 True)],
      ctl_continue = [(cp_tensor_name p1, control_override p1 False), (cp_tensor_name p2, control_override p2 True)],
      ctl_notready = [(cp_tensor_name p1, control_override p1 False), (cp_tensor_name p2, control_override p2 False)]\<rparr>"
    using assms unfolding CreateControlTensors_Inr by (auto simp: override_insert_def)
  show ?thesis using assms(4) by (auto simp: ctl fun_eq_iff)
qed

definition bert_start :: control_props where
  "bert_start = set_control (''START'', \<lparr>ct_kind = CONTROL_SEQUENCE_START, ct_int32_false_true = [0, 1],
     ct_fp32_false_true = []\<rparr>) control_props_init"

definition bert_ready :: control_props where
  "bert_ready = set_control (''READY'', \<lparr>ct_kind = CONTROL_SEQUENCE_READY, ct_int32_false_true = [],
     ct_fp32_false_true = [0, 1065353216]\<rparr>) bert_start"

theorem CreateControlTensors_values_witness:
  "\<exists>ctl. CreateControlTensors sequence_config bert_controls = Inr ctl \<and>
    map_of (ctl_notready ctl) =
      [''START'' \<mapsto> control_override bert_start False, ''READY'' \<mapsto> control_override bert_ready False]"
proof -
  have g: "GetSequenceControlProperties bert_controls (mc_name sequence_config) CONTROL_SEQUENCE_START True control_props_init = Inr bert_start"
    "GetSequenceControlProperties bert_controls (mc_name sequence_config) CONTROL_SEQUENCE_READY True bert_start = Inr bert_ready"
    by code_simp+
  have n: "cp_tensor_name bert_start = ''START''" "cp_tensor_name bert_ready = ''READY''"
    by (simp_all add: bert_start_def bert_ready_def set_control_def)
  obtain ctl where ctl: "CreateControlTensors sequence_config bert_controls = Inr ctl"
    using g by (simp add: CreateControlTensors_Inr)
  have "cp_tensor_name bert_start \<noteq> cp_tensor_name bert_ready" by (simp add: n)
  then show ?thesis
    using CreateControlTensors_values [OF ctl g] ctl n by auto
qed

text \<open>
  When one tensor carries both controls, \<open>insert\<close> keeps the START override only: the READY
  value reaches no batch, and the model sees the same controls for a request that continues a
  sequence and for an empty slot.
\<close>

theorem CreateControlTensors_shared_tensor:
  assumes "CreateControlTensors config sb = Inr ctl"
    and "GetSequenceControlProperties sb (mc_name config) CONTROL_SEQUENCE_START True control_props_init = Inr p1"
    and "GetSequenceControlProperties sb (mc_name config) CONTROL_SEQUENCE_READY True p1 = Inr p2"
    and "cp_tensor_name p1 = cp_tensor_name p2"
  shows "ctl_continue ctl = ctl_notready ctl \<and>
    ctl_continue ctl = [(cp_tensor_name p1, control_override p1 False)]"
  using assms unfolding CreateControlTensors_Inr by (auto simp: override_insert_def)

definition shared_batching :: sequence_batching where
  "shared_batching = \<lparr>sb_max_sequence_idle_microseconds = 0, sb_control_input = [shared_ci]\<rparr>"

theorem CreateControlTensors_shared_tensor_witness:
  "\<exists>ctl. CreateControlTensors sequence_config shared_batching = Inr ctl \<and> ctl_continue ctl = ctl_notready ctl"
proof -
  let ?p1 = "set_control (''C'', ci_control shared_ci ! 0) control_props_init"
  let ?p2 = "set_control (''C'', ci_control shared_ci ! 1) ?p1"
  have g: "GetSequenceControlProperties shared_batching (mc_name sequence_config) CONTROL_SEQUENCE_START True control_props_init = Inr ?p1"
    "GetSequenceControlProperties shared_batching (mc_name sequence_config) CONTROL_SEQUENCE_READY True ?p1 = Inr ?p2"
    by code_simp+
  have n: "cp_tensor_name ?p1 = cp_tensor_name ?p2" by code_simp
  obtain ctl where ctl: "CreateControlTensors sequence_config shared_batching = Inr ctl"
    using g by (auto simp: CreateControlTensors_Inr)
  show ?thesis using CreateControlTensors_shared_tensor [OF ctl g n] ctl by blast
qed

section \<open>The reaper\<close>

definition idle :: "seq_base \<Rightarrow> 64 word \<Rightarrow> 64 word \<Rightarrow> bool" where
  "idle s now_us ts \<longleftrightarrow> remaining_microseconds s now_us ts \<le> 0"

definition reaped :: "seq_base \<Rightarrow> 64 word \<Rightarrow> correlation_id \<times> 64 word \<Rightarrow> bool" where
  "reaped s now_us x \<longleftrightarrow> idle s now_us (snd x) \<and> sq_batchslot_map s (fst x) \<noteq> None"

definition stays :: "seq_base \<Rightarrow> 64 word \<Rightarrow> correlation_id \<times> 64 word \<Rightarrow> bool" where
  "stays s now_us x \<longleftrightarrow> \<not> idle s now_us (snd x) \<or>
     sq_batchslot_map s (fst x) = None \<and> sq_backlog_map s (fst x) \<noteq> None"

lemma idle_forget: "idle (s\<lparr>sq_batchslot_map := m\<rparr>) now_us ts = idle s now_us ts"
  by (simp add: idle_def remaining_microseconds_def)

lemma reaper_loop_spec:
  assumes "distinct (map fst ts)"
  shows "let r' = reaper_loop now_us ts r; s = rp_base r in
     sq_batchslot_map (rp_base r') = (\<lambda>c. if c \<in> fst ` set (filter (reaped s now_us) ts) then None else sq_batchslot_map s c) \<and>
     sq_backlog_map (rp_base r') = sq_backlog_map s \<and>
     rp_kept r' = rp_kept r @ filter (stays s now_us) ts \<and>
     rp_force_ends r' = rp_force_ends r @
       map (\<lambda>x. (the (sq_batchslot_map s (fst x)), fst x)) (filter (reaped s now_us) ts)"
  using assms
proof (induction now_us ts r rule: reaper_loop.induct)
  case (2 now_us cid ts rest r)
  let ?s = "rp_base r"
  note IH = "2.IH" [OF refl refl]
  have d: "distinct (map fst rest)" "cid \<notin> fst ` set rest" using "2.prems" by auto
  show ?case
  proof (cases "remaining_microseconds ?s now_us ts > 0")
    case True
    then have "\<not> idle ?s now_us ts" by (simp add: idle_def)
    then show ?thesis
      using IH(1) [OF True d(1)] True by (simp add: Let_def reaped_def stays_def)
  next
    case False
    then have i: "idle ?s now_us ts" by (simp add: idle_def)
    show ?thesis
    proof (cases "sq_batchslot_map ?s cid")
      case (Some t)
      have ne: "fst x \<noteq> cid" if "x \<in> set rest" for x using d(2) that by force
      let ?s1 = "?s\<lparr>sq_batchslot_map := (sq_batchslot_map ?s)(cid := None)\<rparr>"
      have f: "filter (reaped ?s1 now_us) rest = filter (reaped ?s now_us) rest"
        "filter (stays ?s1 now_us) rest = filter (stays ?s now_us) rest"
        using ne by (auto simp: reaped_def stays_def idle_forget cong: filter_cong)
      have m: "map (\<lambda>x. (the (sq_batchslot_map ?s1 (fst x)), fst x)) (filter (reaped ?s now_us) rest) =
          map (\<lambda>x. (the (sq_batchslot_map ?s (fst x)), fst x)) (filter (reaped ?s now_us) rest)"
        using ne by auto
      show ?thesis
        using IH(4) [OF False Some d(1)] False Some i d(2) f m
        by (simp add: Let_def reaped_def [of ?s now_us "(cid, ts)"] stays_def [of ?s now_us "(cid, ts)"]
            fun_eq_iff del: set_filter)
    next
      case None
      then show ?thesis
        using IH(2,3) [OF False None] d(1) False i
        by (cases "sq_backlog_map ?s cid") (simp_all add: Let_def reaped_def stays_def)
    qed
  qed
qed (simp add: Let_def fun_eq_iff)



section \<open>What the locking does not prevent\<close>

text \<open>
  Two requests of a sequence are accepted in order, but the threads that accepted them reach the
  slot in the opposite order, as the scheduler lock is released in between.
\<close>

definition race_run :: seq_sys where
  "race_run = the (seq_acts
     [Act_enqueue 0 (sequence_request 1 7 1), Act_deliver 0, Act_enqueue 0 (sequence_request 4 8 1),
      Act_deliver 0, Act_enqueue 0 (sequence_request 5 9 1), Act_begin 0, Act_slot 0, Act_slot 0, Act_end 0,
      Act_enqueue 0 (sequence_request 2 7 0), Act_enqueue 0 (sequence_request 3 7 2),
      Act_deliver 1, Act_deliver 0, Act_begin 0, Act_slot 0, Act_end 0] (sequence_system 1))"

text \<open>
  Claim C40. There is a run in which an accepted request is lost: it is in no batch handed to the
  backend, in no slot queue, not in flight and not in the backlog, so its completion never runs. The
  END request overtook it, and the backlog sequence that took the slot over replaced the queue.
\<close>

theorem seq_run_loses_request:
  "\<exists>y y'. seq_started sequence_config bert_controls 1 y \<and> seq_step\<^sup>*\<^sup>* y y' \<and>
    sequence_request 2 7 0 \<in> set (sy_accepted y') \<and>
    Some 2 \<notin> pl_complete_function ` set (concat (sy_dispatched y') @ concat (concat (map bt_queues (sy_batches y'))) @
      map (snd \<circ> snd) (sy_in_flight y') @ concat (map (sq_store (sy_base y')) (sq_backlog_queues (sy_base y')))) \<and>
    sy_collecting y' 0 = None"
proof -
  have run: "seq_step\<^sup>*\<^sup>* (sequence_system 1) race_run"
    unfolding race_run_def by (rule seq_acts_the) code_simp
  have acc: "sequence_request 2 7 0 \<in> set (sy_accepted race_run)"
    by code_simp
  have lost: "Some 2 \<notin> set (map pl_complete_function (concat (sy_dispatched race_run) @ concat (concat (map bt_queues (sy_batches race_run))) @
      map (snd \<circ> snd) (sy_in_flight race_run) @ concat (map (sq_store (sy_base race_run)) (sq_backlog_queues (sy_base race_run)))))"
    by code_simp
  have "\<not> (case sy_collecting race_run 0 of None \<Rightarrow> False | Some _ \<Rightarrow> True)"
    by code_simp
  then have "sy_collecting race_run 0 = None" by (simp split: option.splits)
  with lost show ?thesis
    using sequence_system_started run acc unfolding set_map by blast
qed

subsection \<open>Lock order\<close>

text \<open>
  The two locks as the reaper and a runner take them: \<open>ReaperThread\<close> holds the scheduler's mutex for
  a whole pass and takes the batch's mutex for each force-end it enqueues; \<open>SchedulerThread\<close> holds
  the batch's mutex for a whole pass and takes the scheduler's for each slot it releases.
\<close>

datatype lock_owner = Free | Reaper | Runner

datatype reaper_pc = Reaper_waits | Reaper_in_pass | Reaper_at_enqueue | Reaper_in_enqueue

datatype runner_pc = Runner_waits | Runner_in_pass | Runner_at_release | Runner_in_release

record locks =
  lk_base :: lock_owner
  lk_batch :: lock_owner
  lk_reaper :: reaper_pc
  lk_runner :: runner_pc

inductive reaper_step :: "locks \<Rightarrow> locks \<Rightarrow> bool" where
  begin_pass: "lk_reaper l = Reaper_waits \<Longrightarrow> lk_base l = Free \<Longrightarrow>
    reaper_step l (l\<lparr>lk_reaper := Reaper_in_pass, lk_base := Reaper\<rparr>)"
| end_pass: "lk_reaper l = Reaper_in_pass \<Longrightarrow>
    reaper_step l (l\<lparr>lk_reaper := Reaper_waits, lk_base := Free\<rparr>)"
| call_enqueue: "lk_reaper l = Reaper_in_pass \<Longrightarrow> reaper_step l (l\<lparr>lk_reaper := Reaper_at_enqueue\<rparr>)"
| lock_batch: "lk_reaper l = Reaper_at_enqueue \<Longrightarrow> lk_batch l = Free \<Longrightarrow>
    reaper_step l (l\<lparr>lk_reaper := Reaper_in_enqueue, lk_batch := Reaper\<rparr>)"
| unlock_batch: "lk_reaper l = Reaper_in_enqueue \<Longrightarrow>
    reaper_step l (l\<lparr>lk_reaper := Reaper_in_pass, lk_batch := Free\<rparr>)"

inductive runner_step :: "locks \<Rightarrow> locks \<Rightarrow> bool" where
  begin_pass: "lk_runner l = Runner_waits \<Longrightarrow> lk_batch l = Free \<Longrightarrow>
    runner_step l (l\<lparr>lk_runner := Runner_in_pass, lk_batch := Runner\<rparr>)"
| end_pass: "lk_runner l = Runner_in_pass \<Longrightarrow>
    runner_step l (l\<lparr>lk_runner := Runner_waits, lk_batch := Free\<rparr>)"
| call_release: "lk_runner l = Runner_in_pass \<Longrightarrow> runner_step l (l\<lparr>lk_runner := Runner_at_release\<rparr>)"
| lock_base: "lk_runner l = Runner_at_release \<Longrightarrow> lk_base l = Free \<Longrightarrow>
    runner_step l (l\<lparr>lk_runner := Runner_in_release, lk_base := Runner\<rparr>)"
| unlock_base: "lk_runner l = Runner_in_release \<Longrightarrow>
    runner_step l (l\<lparr>lk_runner := Runner_in_pass, lk_base := Free\<rparr>)"

inductive_simps reaper_step_simps: "reaper_step l l'"
inductive_simps runner_step_simps: "runner_step l l'"

definition lock_step :: "locks \<Rightarrow> locks \<Rightarrow> bool" where
  "lock_step l l' \<longleftrightarrow> reaper_step l l' \<or> runner_step l l'"

definition locks_init :: locks where
  "locks_init = \<lparr>lk_base = Free, lk_batch = Free, lk_reaper = Reaper_waits, lk_runner = Runner_waits\<rparr>"


end
