(* ===== verification/System_Memory.thy ===== *)
theory System_Memory
  imports Scheduler
begin

text \<open>
  \<open>SystemMemory\<close> of \<open>src/core/provider.h\<close> and \<open>src/core/provider.cc\<close>: the memory that holds an
  input or output tensor as blocks, either references to buffers of others or one allocated buffer.
  A pointer with its byte size is the list of the bytes it points to, a null pointer is \<open>None\<close>.
\<close>

type_synonym bytes = "8 word list"

section \<open>The two kinds of memory\<close>

record memory_reference =
  smr_total_byte_size :: "64 word"
  smr_buffer :: "bytes list"

definition SystemMemoryReference :: memory_reference where
  "SystemMemoryReference = \<lparr>smr_total_byte_size = 0, smr_buffer = []\<rparr>"

definition smr_BufferAt :: "memory_reference \<Rightarrow> nat \<Rightarrow> bytes option" where
  "smr_BufferAt m idx = (if idx \<ge> length (smr_buffer m) then None else Some (smr_buffer m ! idx))"

definition AddBuffer :: "bytes \<Rightarrow> memory_reference \<Rightarrow> nat \<times> memory_reference" where
  "AddBuffer buffer m =
     (let m' = m\<lparr>smr_total_byte_size := smr_total_byte_size m + of_nat (length buffer),
                 smr_buffer := smr_buffer m @ [buffer]\<rparr>
      in (length (smr_buffer m') - 1, m'))"

record allocated_memory =
  asm_total_byte_size :: "64 word"
  asm_buffer :: bytes

text \<open>A fresh buffer is not initialised: its bytes are an argument of the model.\<close>

definition AllocatedSystemMemory :: "bytes \<Rightarrow> allocated_memory" where
  "AllocatedSystemMemory garbage =
     \<lparr>asm_total_byte_size = of_nat (length garbage), asm_buffer = garbage\<rparr>"

definition asm_BufferAt :: "allocated_memory \<Rightarrow> nat \<Rightarrow> bytes option" where
  "asm_BufferAt m idx = (if idx \<noteq> 0 then None else Some (asm_buffer m))"

datatype system_memory = Reference memory_reference | Allocated allocated_memory

fun BufferAt :: "system_memory \<Rightarrow> nat \<Rightarrow> bytes option" where
  "BufferAt (Reference m) idx = smr_BufferAt m idx"
| "BufferAt (Allocated m) idx = asm_BufferAt m idx"

fun TotalByteSize :: "system_memory \<Rightarrow> 64 word" where
  "TotalByteSize (Reference m) = smr_total_byte_size m"
| "TotalByteSize (Allocated m) = asm_total_byte_size m"

section \<open>The interface\<close>

text \<open>
  What a reader relies on: the blocks have the indices from 0 on without a gap, and the total size
  is the size of all of them. The well-formed memories are those the constructors and \<open>AddBuffer\<close>
  build.
\<close>

locale block_memory =
  fixes buffer_at :: "'m \<Rightarrow> nat \<Rightarrow> bytes option"
    and total :: "'m \<Rightarrow> 64 word"
    and wf :: "'m \<Rightarrow> bool"
    and blocks :: "'m \<Rightarrow> bytes list"
  assumes buffer_at_blocks: "buffer_at m i = (if i < length (blocks m) then Some (blocks m ! i) else None)"
    and total_blocks: "wf m \<Longrightarrow> total m = of_nat (length (concat (blocks m)))"
begin

lemma at_end_iff: "buffer_at m i = None \<longleftrightarrow> length (blocks m) \<le> i"
  by (auto simp: buffer_at_blocks)

lemma drop_next:
  assumes "buffer_at m i = Some b"
  shows "concat (drop i (blocks m)) = b @ concat (drop (Suc i) (blocks m))"
proof -
  have "i < length (blocks m)" "b = blocks m ! i"
    using assms by (auto simp: buffer_at_blocks split: if_splits)
  then show ?thesis
    by (simp add: Cons_nth_drop_Suc [symmetric])
qed

lemma drop_end: "buffer_at m i = None \<Longrightarrow> concat (drop i (blocks m)) = []"
  by (simp add: at_end_iff)

lemma gathered:
  assumes "i \<le> j"
  shows "concat (map (\<lambda>k. case buffer_at m k of None \<Rightarrow> [] | Some b \<Rightarrow> b) [i..<j]) =
    concat (take (j - i) (drop i (blocks m)))"
  using assms
proof (induction j)
  case 0
  then show ?case by simp
next
  case (Suc j)
  show ?case
  proof (cases "i = Suc j")
    case True
    then show ?thesis by simp
  next
    case False
    then have ij: "i \<le> j"
      using Suc.prems by simp
    then have "take (Suc j - i) (drop i (blocks m)) =
        take (j - i) (drop i (blocks m)) @ (case buffer_at m j of None \<Rightarrow> [] | Some b \<Rightarrow> [b])"
      by (simp add: buffer_at_blocks Suc_diff_le take_Suc_conv_app_nth)
    then show ?thesis
      using ij Suc.IH by (auto split: option.splits)
  qed
qed

end

definition smr_ok :: "memory_reference \<Rightarrow> bool" where
  "smr_ok m \<longleftrightarrow> smr_total_byte_size m = of_nat (length (concat (smr_buffer m)))"

definition asm_ok :: "allocated_memory \<Rightarrow> bool" where
  "asm_ok m \<longleftrightarrow> asm_total_byte_size m = of_nat (length (asm_buffer m))"

fun memory_ok :: "system_memory \<Rightarrow> bool" where
  "memory_ok (Reference m) = smr_ok m"
| "memory_ok (Allocated m) = asm_ok m"

fun memory_blocks :: "system_memory \<Rightarrow> bytes list" where
  "memory_blocks (Reference m) = smr_buffer m"
| "memory_blocks (Allocated m) = [asm_buffer m]"

definition memory_bytes :: "system_memory \<Rightarrow> bytes" where
  "memory_bytes m = concat (memory_blocks m)"

interpretation smr: block_memory smr_BufferAt smr_total_byte_size smr_ok smr_buffer
  by unfold_locales (auto simp: smr_BufferAt_def smr_ok_def)

interpretation asm: block_memory asm_BufferAt asm_total_byte_size asm_ok "\<lambda>m. [asm_buffer m]"
  by unfold_locales (auto simp: asm_BufferAt_def asm_ok_def)

interpretation mem: block_memory BufferAt TotalByteSize memory_ok memory_blocks
proof unfold_locales
  fix m i
  show "BufferAt m i = (if i < length (memory_blocks m) then Some (memory_blocks m ! i) else None)"
    by (cases m) (simp_all add: smr.buffer_at_blocks asm.buffer_at_blocks)
next
  fix m
  assume "memory_ok m"
  then show "TotalByteSize m = of_nat (length (concat (memory_blocks m)))"
    by (cases m) (simp_all add: smr.total_blocks asm.total_blocks)
qed

section \<open>The constructors and \<open>AddBuffer\<close> build well-formed memories\<close>

lemma smr_ok_new [simp]: "smr_ok SystemMemoryReference"
  by (simp add: smr_ok_def SystemMemoryReference_def)

lemma smr_ok_AddBuffer [simp]: "smr_ok m \<Longrightarrow> smr_ok (snd (AddBuffer b m))"
  by (simp add: smr_ok_def AddBuffer_def Let_def)

lemma smr_buffer_AddBuffer [simp]: "smr_buffer (snd (AddBuffer b m)) = smr_buffer m @ [b]"
  by (simp add: AddBuffer_def Let_def)

lemma smr_buffer_new [simp]: "smr_buffer SystemMemoryReference = []"
  by (simp add: SystemMemoryReference_def)

lemma asm_ok_new [simp]: "asm_ok (AllocatedSystemMemory g)"
  by (simp add: asm_ok_def AllocatedSystemMemory_def)

lemma AddBuffer_BufferAt:
  "AddBuffer b m = (i, m') \<Longrightarrow> smr_BufferAt m' i = Some b \<and> (\<forall>j < i. smr_BufferAt m' j = smr_BufferAt m j)"
  by (auto simp: AddBuffer_def Let_def smr_BufferAt_def nth_append)

lemma memory_bytes_total: "memory_ok m \<Longrightarrow> TotalByteSize m = of_nat (length (memory_bytes m))"
  by (simp add: mem.total_blocks memory_bytes_def)

end
