(* ===== verification/Request_Provider.thy ===== *)
theory Request_Provider
  imports System_Memory
begin

text \<open>
  \<open>InferRequestProvider\<close> and \<open>NULLInferRequestProvider\<close> of \<open>src/core/provider.cc\<close>: a request's
  header together with the content of its inputs, which a backend reads chunk by chunk.
\<close>

section \<open>State and creation\<close>

record infer_request_provider =
  ip_model_name :: string
  ip_version :: int
  ip_request_header :: request_header
  ip_overrides :: "input_override_map option"
  ip_overrides_consumed :: "string set"
  ip_contiguous_buffers :: "bytes list"
  ip_input_buffer :: "string \<rightharpoonup> system_memory \<times> nat"

definition InferRequestProvider :: "string \<Rightarrow> int \<Rightarrow> infer_request_provider" where
  "InferRequestProvider model_name version =
     \<lparr>ip_model_name = model_name, ip_version = version, ip_request_header = request_header_clear,
      ip_overrides = None, ip_overrides_consumed = {}, ip_contiguous_buffers = [],
      ip_input_buffer = Map.empty\<rparr>"

fun bind_inputs ::
  "(string \<rightharpoonup> system_memory) \<Rightarrow> request_input list \<Rightarrow> infer_request_provider \<Rightarrow>
   status + infer_request_provider" where
  "bind_inputs input_buffer [] p = Inr p"
| "bind_inputs input_buffer (io # ios) p =
     (case input_buffer (ri_name io) of
        None \<Rightarrow> Inl (Status INVALID_ARG (''input '' @ quote (ri_name io) @
          '' is specified in request header but not found in memory block mapping for model '' @
          quote (ip_model_name p)))
      | Some m \<Rightarrow>
          (if ri_batch_byte_size io \<noteq> TotalByteSize m then
             Inl (Status INVALID_ARG (''unexpected size '' @ show_nat (unat (TotalByteSize m)) @
               '' for input '' @ quote (ri_name io) @ '', expecting '' @
               show_nat (unat (ri_batch_byte_size io)) @ '' for model '' @ quote (ip_model_name p)))
           else bind_inputs input_buffer ios
             (p\<lparr>ip_input_buffer := (ip_input_buffer p)(ri_name io \<mapsto> (m, 0))\<rparr>)))"

definition provider_Create ::
  "string \<Rightarrow> int \<Rightarrow> request_header \<Rightarrow> (string \<rightharpoonup> system_memory) \<Rightarrow> status + infer_request_provider" where
  "provider_Create model_name model_version request_header input_buffer =
     bind_inputs input_buffer (rh_input request_header)
       ((InferRequestProvider model_name model_version)\<lparr>ip_request_header := request_header\<rparr>)"

definition ip_SetInputOverride :: "input_override_map \<Rightarrow> infer_request_provider \<Rightarrow> infer_request_provider" where
  "ip_SetInputOverride override p = p\<lparr>ip_overrides := Some override\<rparr>"

section \<open>Reading an input\<close>

text \<open>The out parameters \<open>content\<close> and \<open>content_byte_size\<close>.\<close>

type_synonym chunk = "bytes option \<times> nat"

definition GetInputOverrideContent ::
  "string \<Rightarrow> chunk \<Rightarrow> infer_request_provider \<Rightarrow> bool \<times> chunk \<times> infer_request_provider" where
  "GetInputOverrideContent name out p =
     (case ip_overrides p of
        None \<Rightarrow> (False, out, p)
      | Some ovr \<Rightarrow>
          (case map_of ovr name of
             None \<Rightarrow> (False, out, p)
           | Some override \<Rightarrow>
               (if snd out = 0 \<or> name \<in> ip_overrides_consumed p then (True, (None, 0), p)
                else (True, (Some (io_content override), length (io_content override)),
                      p\<lparr>ip_overrides_consumed := insert name (ip_overrides_consumed p)\<rparr>))))"

definition block_size :: "bytes option \<Rightarrow> nat" where
  "block_size b = (case b of None \<Rightarrow> 0 | Some bs \<Rightarrow> length bs)"

text \<open>The loop that runs to the null block: the index after it and the total size.\<close>

function gather_end :: "system_memory \<Rightarrow> nat \<Rightarrow> nat \<Rightarrow> nat \<times> nat" where
  "gather_end m idx total_size =
     (let block = BufferAt m idx; total_size = total_size + block_size block
      in if block = None then (idx + 1, total_size) else gather_end m (idx + 1) total_size)"
  by auto

termination
  by (relation "measure (\<lambda>(m, idx, total). length (memory_blocks m) - idx)")
    (auto simp: mem.at_end_iff)

declare gather_end.simps [simp del]

text \<open>Taking the address of the first byte of an empty buffer is not modelled as an error.\<close>

definition GetNextInputContent ::
  "string \<Rightarrow> chunk \<Rightarrow> bool \<Rightarrow> infer_request_provider \<Rightarrow> status \<times> chunk \<times> infer_request_provider" where
  "GetNextInputContent name out force_contiguous p =
     (if snd out = 0 then (Status_Success, (None, 0), p)
      else
        (let (found, out1, p1) = GetInputOverrideContent name out p in
         if found then (Status_Success, out1, p1)
         else
           (case ip_input_buffer p name of
              None \<Rightarrow> (Status INTERNAL (''unexpected input '' @ quote name), out, p)
            | Some (m, idx) \<Rightarrow>
                (let isLastChunk = (BufferAt m (idx + 1) = None) in
                 if \<not> force_contiguous \<or> isLastChunk then
                   (Status_Success, (BufferAt m idx, block_size (BufferAt m idx)),
                    p\<lparr>ip_input_buffer := (ip_input_buffer p)(name \<mapsto> (m, idx + 1))\<rparr>)
                 else
                   (let (end_idx, total_size) = gather_end m idx 0;
                        buf = concat (map (\<lambda>i. case BufferAt m i of None \<Rightarrow> [] | Some b \<Rightarrow> b) [idx..<end_idx]);
                        p2 = p\<lparr>ip_input_buffer := (ip_input_buffer p)(name \<mapsto> (m, end_idx)),
                               ip_contiguous_buffers := ip_contiguous_buffers p @ [buf]\<rparr>
                    in if length buf \<noteq> total_size then
                         (Status INTERNAL ''contiguous input failed'', (None, 0), p2)
                       else (Status_Success, (Some buf, total_size), p2))))))"

definition provider_GetSystemMemory :: "string \<Rightarrow> infer_request_provider \<Rightarrow> status + system_memory" where
  "provider_GetSystemMemory name p =
     (case ip_input_buffer p name of
        None \<Rightarrow> Inl (Status INVALID_ARG (''input '' @ quote name @ '' is not found in the provider''))
      | Some (m, idx) \<Rightarrow> Inr m)"

section \<open>The null provider\<close>

definition NULLInferRequestProvider :: "request_header \<Rightarrow> infer_request_provider" where
  "NULLInferRequestProvider h = (InferRequestProvider ''<NULL>'' (-1))\<lparr>ip_request_header := h\<rparr>"

definition resize :: "nat \<Rightarrow> bytes \<Rightarrow> bytes" where
  "resize n b = (if n \<le> length b then take n b else b @ replicate (n - length b) 0)"

text \<open>
  \<open>buf\<close> is the static buffer all null providers share. The content is a pointer to all of it; the
  byte size keeps the value the caller asked for.
\<close>

definition null_GetNextInputContent ::
  "string \<Rightarrow> chunk \<Rightarrow> infer_request_provider \<Rightarrow> bytes \<Rightarrow>
   status \<times> chunk \<times> infer_request_provider \<times> bytes" where
  "null_GetNextInputContent name out p buf =
     (if snd out = 0 then (Status_Success, (None, 0), p, buf)
      else
        (let (found, out1, p1) = GetInputOverrideContent name out p in
         if found then (Status_Success, out1, p1, buf)
         else
           (let buf' = (if length buf < snd out then resize (min (16 * 1024 * 1024) (snd out)) buf else buf)
            in (Status_Success, (Some buf', snd out), p, buf'))))"

section \<open>What a reader gets\<close>

text \<open>
  A backend reads chunks until the content is null. \<open>fuel\<close> bounds the number of calls; without
  enough of it, or after an error, the result is \<open>None\<close>.
\<close>

fun read_input :: "nat \<Rightarrow> string \<Rightarrow> nat \<Rightarrow> bool \<Rightarrow> infer_request_provider \<Rightarrow> bytes option" where
  "read_input 0 name hint force p = None"
| "read_input (Suc fuel) name hint force p =
     (case GetNextInputContent name (None, hint) force p of
        (st, (content, n), p') \<Rightarrow>
          (if \<not> IsOk st then None
           else (case content of
                   None \<Rightarrow> Some []
                 | Some b \<Rightarrow> map_option (\<lambda>bs. b @ bs) (read_input fuel name hint force p'))))"

definition overridden :: "string \<Rightarrow> infer_request_provider \<Rightarrow> bool" where
  "overridden name p \<longleftrightarrow> (\<exists>ovr. ip_overrides p = Some ovr \<and> map_of ovr name \<noteq> None)"

lemma not_overridden [simp]:
  "\<not> overridden name p \<Longrightarrow> GetInputOverrideContent name out p = (False, out, p)"
  by (auto simp: overridden_def GetInputOverrideContent_def simp del: map_of_is_None split: option.splits)

lemma overridden_buffer [simp]:
  "overridden name (p\<lparr>ip_input_buffer := b\<rparr>) = overridden name p"
  "overridden name (p\<lparr>ip_contiguous_buffers := c\<rparr>) = overridden name p"
  by (simp_all add: overridden_def)

text \<open>The gathering loop stops one behind the last block and has added up the sizes.\<close>

lemma gather_end_blocks:
  "gather_end m i n =
   (max i (length (memory_blocks m)) + 1, n + length (concat (drop i (memory_blocks m))))"
proof (induction m i n rule: gather_end.induct)
  case (1 m i n)
  show ?case
  proof (cases "BufferAt m i")
    case None
    then have "length (memory_blocks m) \<le> i"
      by (simp add: mem.at_end_iff)
    with None show ?thesis
      by (simp add: gather_end.simps [of m i n] block_size_def)
  next
    case (Some b)
    then have "i < length (memory_blocks m)"
      using mem.at_end_iff [of m i] by auto
    with Some show ?thesis
      using 1 mem.drop_next [OF Some]
      by (simp add: gather_end.simps [of m i n] block_size_def max_def)
  qed
qed

lemma gathered_blocks:
  "i \<le> length (memory_blocks m) \<Longrightarrow>
   concat (map (\<lambda>k. case BufferAt m k of None \<Rightarrow> [] | Some b \<Rightarrow> b) [i..<length (memory_blocks m) + 1]) =
   concat (drop i (memory_blocks m))"
  using mem.gathered [of i "length (memory_blocks m) + 1" m] by simp

text \<open>One call, without and with the gathering of the blocks.\<close>

lemma GetNextInputContent_chunk:
  assumes "\<not> overridden name p" and "ip_input_buffer p name = Some (m, i)" and "hint \<noteq> 0"
    and "\<not> force \<or> BufferAt m (i + 1) = None"
  shows "GetNextInputContent name (c, hint) force p =
    (Status_Success, (BufferAt m i, block_size (BufferAt m i)),
     p\<lparr>ip_input_buffer := (ip_input_buffer p)(name \<mapsto> (m, i + 1))\<rparr>)"
  using assms by (simp add: GetNextInputContent_def)

lemma GetNextInputContent_gather:
  assumes "\<not> overridden name p" and "ip_input_buffer p name = Some (m, i)" and "hint \<noteq> 0"
    and "BufferAt m (i + 1) \<noteq> None"
  shows "\<exists>p'. GetNextInputContent name (c, hint) True p =
      (Status_Success, (Some (concat (drop i (memory_blocks m))), length (concat (drop i (memory_blocks m)))), p') \<and>
    \<not> overridden name p' \<and> ip_input_buffer p' name = Some (m, length (memory_blocks m) + 1)"
proof -
  have i: "i + 1 < length (memory_blocks m)"
    using assms(4) by (simp add: mem.at_end_iff)
  then have mx: "max i (length (memory_blocks m)) = length (memory_blocks m)"
    by simp
  show ?thesis
    using assms i gathered_blocks [of i m]
    by (simp add: GetNextInputContent_def gather_end_blocks mx Let_def)
qed

lemma read_input_rest:
  assumes "\<not> overridden name p" and "ip_input_buffer p name = Some (m, i)" and "hint \<noteq> 0"
    and "length (memory_blocks m) + 2 \<le> fuel + i" and "0 < fuel"
  shows "read_input fuel name hint force p = Some (concat (drop i (memory_blocks m)))"
  using assms
proof (induction fuel arbitrary: i p)
  case 0
  then show ?case by simp
next
  case (Suc fuel)
  show ?case
  proof (cases "force \<and> BufferAt m (i + 1) \<noteq> None")
    case True
    then obtain p' where p': "GetNextInputContent name (None, hint) force p =
        (Status_Success, (Some (concat (drop i (memory_blocks m))), length (concat (drop i (memory_blocks m)))), p')"
      "\<not> overridden name p'" "ip_input_buffer p' name = Some (m, length (memory_blocks m) + 1)"
      using GetNextInputContent_gather [OF Suc.prems(1-3)] by auto
    have "0 < fuel"
      using True Suc.prems(4) by (simp add: mem.at_end_iff)
    then show ?thesis
      using Suc.IH [OF p'(2,3) Suc.prems(3)] p'(1) by simp
  next
    case False
    let ?p = "p\<lparr>ip_input_buffer := (ip_input_buffer p)(name \<mapsto> (m, i + 1))\<rparr>"
    have call: "GetNextInputContent name (None, hint) force p =
        (Status_Success, (BufferAt m i, block_size (BufferAt m i)), ?p)"
      using False by (intro GetNextInputContent_chunk Suc.prems) auto
    show ?thesis
    proof (cases "BufferAt m i")
      case None
      then show ?thesis
        using call mem.drop_end by simp
    next
      case (Some b)
      then have "0 < fuel"
        using Suc.prems(4) mem.at_end_iff [of m i] by (cases fuel) auto
      then have "read_input fuel name hint force ?p = Some (concat (drop (i + 1) (memory_blocks m)))"
        using Suc.prems by (intro Suc.IH) auto
      then show ?thesis
        using call Some mem.drop_next [OF Some] by simp
    qed
  qed
qed

lemma read_input_all:
  assumes "\<not> overridden name p" and "ip_input_buffer p name = Some (m, 0)" and "hint \<noteq> 0"
    and "length (memory_blocks m) + 2 \<le> fuel"
  shows "read_input fuel name hint force p = Some (memory_bytes m)"
  using read_input_rest [OF assms(1-3), of fuel] assms(4) by (simp add: memory_bytes_def)

lemma read_input_override:
  assumes "map_of ovr name = Some o'" and "ip_overrides p = Some ovr"
    and "name \<notin> ip_overrides_consumed p" and "hint \<noteq> 0" and "2 \<le> fuel"
  shows "read_input fuel name hint force p = Some (io_content o')"
proof -
  obtain k where "fuel = Suc (Suc k)"
    using assms(5) by (metis add_2_eq_Suc le_Suc_ex)
  with assms show ?thesis
    by (simp add: GetNextInputContent_def GetInputOverrideContent_def)
qed

text \<open>What \<open>Create\<close> binds.\<close>

lemma bind_inputs_sel:
  "bind_inputs bufs ios p = Inr p' \<Longrightarrow>
   ip_overrides p' = ip_overrides p \<and> ip_overrides_consumed p' = ip_overrides_consumed p \<and>
   ip_request_header p' = ip_request_header p \<and>
   (\<forall>io \<in> set ios. \<exists>m. bufs (ri_name io) = Some m \<and> ri_batch_byte_size io = TotalByteSize m) \<and>
   (\<forall>name. ip_input_buffer p' name =
      (if name \<in> ri_name ` set ios then map_option (\<lambda>m. (m, 0)) (bufs name) else ip_input_buffer p name))"
proof (induction bufs ios p rule: bind_inputs.induct)
  case (1 bufs p)
  then show ?case by simp
next
  case (2 bufs io ios p)
  then obtain m where m: "bufs (ri_name io) = Some m" "ri_batch_byte_size io = TotalByteSize m"
    "bind_inputs bufs ios (p\<lparr>ip_input_buffer := (ip_input_buffer p)(ri_name io \<mapsto> (m, 0))\<rparr>) = Inr p'"
    by (auto split: option.splits if_splits)
  show ?case
    using "2.IH" [OF m(1)] m by auto
qed

lemma provider_Create_sel:
  assumes "provider_Create model version h bufs = Inr p" and "io \<in> set (rh_input h)"
    and "bufs (ri_name io) = Some m"
  shows "ip_input_buffer p (ri_name io) = Some (m, 0)" and "ri_batch_byte_size io = TotalByteSize m"
    and "ip_overrides p = None" and "ip_overrides_consumed p = {}"
  using bind_inputs_sel [OF assms(1) [unfolded provider_Create_def]] assms(2,3)
  by (fastforce simp: InferRequestProvider_def)+

definition small_memory :: system_memory where
  "small_memory = Reference (snd (AddBuffer [2, 3] (snd (AddBuffer [1] SystemMemoryReference))))"

definition small_header :: request_header where
  "small_header = request_header_clear\<lparr>rh_batch_size := 1,
     rh_input := [\<lparr>ri_name = ''INPUT0'', ri_dims = [3], ri_batch_byte_size = 3\<rparr>]\<rparr>"

definition small_provider :: infer_request_provider where
  "small_provider = projr (provider_Create ''m'' 1 small_header [''INPUT0'' \<mapsto> small_memory])"

lemma small_provider_Create:
  "provider_Create ''m'' 1 small_header [''INPUT0'' \<mapsto> small_memory] = Inr small_provider"
  by (simp add: small_provider_def provider_Create_def small_header_def small_memory_def
      SystemMemoryReference_def AddBuffer_def)

text \<open>
  Reading an input of a provider that \<open>Create\<close> built, chunk by chunk or contiguously and
  with any size hint, ends and gives exactly the bytes of the memory bound to the input, as many as
  the header says; after an override is set for the input it gives the override's bytes instead.
\<close>

theorem provider_reads_input:
  assumes "provider_Create model version h bufs = Inr p" and "io \<in> set (rh_input h)"
    and "bufs (ri_name io) = Some m" and "memory_ok m"
    and "hint \<noteq> 0" and "length (memory_blocks m) + 2 \<le> fuel"
  shows "read_input fuel (ri_name io) hint force p = Some (memory_bytes m) \<and>
    of_nat (length (memory_bytes m)) = ri_batch_byte_size io \<and>
    (\<forall>ovr o'. map_of ovr (ri_name io) = Some o' \<longrightarrow>
       read_input fuel (ri_name io) hint force (ip_SetInputOverride ovr p) = Some (io_content o'))"
proof (intro conjI allI impI)
  note p = provider_Create_sel [OF assms(1-3)]
  show "read_input fuel (ri_name io) hint force p = Some (memory_bytes m)"
    using p assms(5,6) by (intro read_input_all) (auto simp: overridden_def)
  show "of_nat (length (memory_bytes m)) = ri_batch_byte_size io"
    using p assms(4) by (simp add: memory_bytes_total)
  fix ovr :: input_override_map and o'
  assume "map_of ovr (ri_name io) = Some o'"
  then show "read_input fuel (ri_name io) hint force (ip_SetInputOverride ovr p) = Some (io_content o')"
    using p assms(5,6) by (intro read_input_override [of ovr]) (auto simp: ip_SetInputOverride_def)
qed

theorem provider_reads_input_witness:
  "read_input 4 ''INPUT0'' 3 True small_provider = Some [1, 2, 3]"
proof -
  have m: "memory_ok small_memory" "memory_bytes small_memory = [1, 2, 3]" "length (memory_blocks small_memory) = 2"
    by (simp_all add: small_memory_def memory_bytes_def)
  have io: "\<lparr>ri_name = ''INPUT0'', ri_dims = [3], ri_batch_byte_size = 3\<rparr> \<in> set (rh_input small_header)"
    by (simp add: small_header_def)
  show ?thesis
    using provider_reads_input [OF small_provider_Create io, of small_memory 3 4 True] m by simp
qed

section \<open>The null provider\<close>

lemma resize_zero: "set b \<subseteq> {0} \<Longrightarrow> set (resize n b) \<subseteq> {0}"
  by (auto simp: resize_def split: if_splits dest: in_set_takeD)

lemma length_resize [simp]: "length (resize n b) = n"
  by (simp add: resize_def)

text \<open>
  The null provider delivers zero bytes for every input that has no override and reports
  the size asked for. Its shared buffer never exceeds 16 MB, so the content is as long as reported
  exactly when at most 16 MB are asked for; a larger request is told of bytes beyond the buffer.
\<close>

theorem null_content_zero:
  assumes "\<not> overridden name p" and "hint \<noteq> 0" and "set buf \<subseteq> {0}" and "length buf \<le> 16 * 1024 * 1024"
  shows "\<exists>buf'. null_GetNextInputContent name (c, hint) p buf = (Status_Success, (Some buf', hint), p, buf') \<and>
    set buf' \<subseteq> {0} \<and> length buf' \<le> 16 * 1024 * 1024 \<and>
    (hint \<le> length buf' \<longleftrightarrow> hint \<le> 16 * 1024 * 1024)"
  using assms using resize_zero [OF assms(3)] by (simp add: null_GetNextInputContent_def Let_def)

theorem null_content_zero_witness:
  "\<exists>buf'. null_GetNextInputContent ''INPUT0'' (None, 16 * 1024 * 1024 + 1) (NULLInferRequestProvider small_header) [] =
      (Status_Success, (Some buf', 16 * 1024 * 1024 + 1), NULLInferRequestProvider small_header, buf') \<and>
    length buf' < 16 * 1024 * 1024 + 1"
  using null_content_zero [of "''INPUT0''" "NULLInferRequestProvider small_header" "16 * 1024 * 1024 + 1" "[]" None]
  by (auto simp: overridden_def NULLInferRequestProvider_def InferRequestProvider_def)

end
