(* ===== verification/Backend.thy ===== *)
theory Backend
  imports Config_Utils
begin

text \<open>
  \<open>src/core/backend.cc\<close> and \<open>src/core/label_provider.cc\<close>: the configuration of a loaded model with
  its inputs and outputs by name, the labels of its outputs, and the scheduler it runs requests on.
  The reading of a label file is a parameter.
\<close>

section \<open>Labels\<close>

type_synonym label_map = "string \<rightharpoonup> string list"

definition GetLabel :: "label_map \<Rightarrow> string \<Rightarrow> nat \<Rightarrow> string" where
  "GetLabel m name index =
     (case m name of
        None \<Rightarrow> []
      | Some labels \<Rightarrow> (if length labels \<le> index then [] else labels ! index))"

text \<open>The loop over \<open>std::getline\<close>: lines end at a newline, an empty last line is not delivered.\<close>

fun getlines :: "string \<Rightarrow> string \<Rightarrow> string list" where
  "getlines line [] = (if line = [] then [] else [line])"
| "getlines line (c # cs) = (if c = CHR 0x0A then line # getlines [] cs else getlines (line @ [c]) cs)"

definition AddLabels ::
  "(string \<Rightarrow> status + string) \<Rightarrow> string \<Rightarrow> string \<Rightarrow> label_map \<Rightarrow> status \<times> label_map" where
  "AddLabels read_text_file name filepath m =
     (case read_text_file filepath of
        Inl e \<Rightarrow> (e, m)
      | Inr contents \<Rightarrow>
          (if m name \<noteq> None then (Status INTERNAL (''multiple label files for '' @ quote name), m)
           else (Status_Success, m(name \<mapsto> getlines [] contents))))"

section \<open>The backend of a model\<close>

datatype scheduler_kind = Dynamic_scheduler | Sequence_scheduler | Ensemble_scheduler_kind

record inference_backend =
  ib_config :: model_config
  ib_version :: int
  ib_input_map :: "string \<rightharpoonup> model_input"
  ib_output_map :: "string \<rightharpoonup> model_output"
  ib_label_provider :: label_map
  ib_scheduler :: "scheduler_kind option"

definition inference_backend_new :: inference_backend where
  "inference_backend_new =
     \<lparr>ib_config = model_config_clear, ib_version = 0, ib_input_map = Map.empty,
      ib_output_map = Map.empty, ib_label_provider = Map.empty, ib_scheduler = None\<rparr>"

abbreviation ib_Name :: "inference_backend \<Rightarrow> string" where
  "ib_Name is \<equiv> mc_name (ib_config is)"

definition GetInput :: "inference_backend \<Rightarrow> string \<Rightarrow> status + model_input" where
  "GetInput is name =
     (case ib_input_map is name of
        None \<Rightarrow> Inl (Status INVALID_ARG (''unexpected inference input '' @ quote name @
          '' for model '' @ quote (ib_Name is)))
      | Some io \<Rightarrow> Inr io)"

definition GetOutput :: "inference_backend \<Rightarrow> string \<Rightarrow> status + model_output" where
  "GetOutput is name =
     (case ib_output_map is name of
        None \<Rightarrow> Inl (Status INVALID_ARG (''unexpected inference output '' @ quote name @
          '' for model '' @ quote (ib_Name is)))
      | Some io \<Rightarrow> Inr io)"

text \<open>\<open>insert\<close> keeps the first entry of a name.\<close>

definition map_insert :: "'k \<Rightarrow> 'v \<Rightarrow> ('k \<rightharpoonup> 'v) \<Rightarrow> ('k \<rightharpoonup> 'v)" where
  "map_insert k v m = (if m k = None then m(k \<mapsto> v) else m)"

fun set_outputs ::
  "(string \<Rightarrow> status + string) \<Rightarrow> string \<Rightarrow> model_output list \<Rightarrow> inference_backend \<Rightarrow>
   status \<times> inference_backend" where
  "set_outputs read_text_file model_dir [] is = (Status_Success, is)"
| "set_outputs read_text_file model_dir (io # ios) is =
     (let is1 = is\<lparr>ib_output_map := map_insert (mo_name io) io (ib_output_map is)\<rparr> in
      if mo_label_filename io \<noteq> [] then
        (let (st, lp) = AddLabels read_text_file (mo_name io)
                          (JoinPath [model_dir, mo_label_filename io]) (ib_label_provider is1);
             is2 = is1\<lparr>ib_label_provider := lp\<rparr>
         in if \<not> IsOk st then (st, is2) else set_outputs read_text_file model_dir ios is2)
      else set_outputs read_text_file model_dir ios is1)"

definition SetModelConfig ::
  "(string \<Rightarrow> int option) \<Rightarrow> (string \<Rightarrow> status + string) \<Rightarrow> string \<Rightarrow> model_config \<Rightarrow>
   inference_backend \<Rightarrow> status \<times> inference_backend" where
  "SetModelConfig simple_atoi read_text_file path config is =
     (let is1 = is\<lparr>ib_config := config\<rparr> in
      case GetModelVersionFromPath simple_atoi path of
        Inl e \<Rightarrow> (e, is1)
      | Inr v \<Rightarrow>
          (let is2 = is1\<lparr>ib_version := v,
                 ib_input_map := foldl (\<lambda>m io. map_insert (mi_name io) io m) (ib_input_map is1) (mc_input config),
                 ib_label_provider := Map.empty\<rparr>
           in set_outputs read_text_file (DirName path) (mc_output config) is2))"

definition SetScheduler :: "scheduler_kind \<Rightarrow> inference_backend \<Rightarrow> status \<times> inference_backend" where
  "SetScheduler k is =
     (if ib_scheduler is \<noteq> None then
        (Status INTERNAL ''Attempt to change scheduler not allowed'', is)
      else (Status_Success, is\<lparr>ib_scheduler := Some k\<rparr>))"

text \<open>\<open>create_sequence\<close> is the status of \<open>SequenceBatchScheduler::Create\<close> for the configuration.\<close>

definition SetConfiguredScheduler ::
  "(model_config \<Rightarrow> status) \<Rightarrow> inference_backend \<Rightarrow> status \<times> inference_backend" where
  "SetConfiguredScheduler create_sequence is =
     (if get_sequence_batching (ib_config is) \<noteq> None then
        (let st = create_sequence (ib_config is)
         in if \<not> IsOk st then (st, is) else SetScheduler Sequence_scheduler is)
      else SetScheduler Dynamic_scheduler is)"

section \<open>Lemmas\<close>

lemma GetInput_Inr [simp]: "GetInput is name = Inr io \<longleftrightarrow> ib_input_map is name = Some io"
  by (auto simp: GetInput_def split: option.splits)

lemma GetOutput_Inr [simp]: "GetOutput is name = Inr io \<longleftrightarrow> ib_output_map is name = Some io"
  by (auto simp: GetOutput_def split: option.splits)

lemma fold_map_insert:
  "foldl (\<lambda>m io. map_insert (f io) io m) m ios k =
   (case m k of Some v \<Rightarrow> Some v | None \<Rightarrow> find (\<lambda>io. f io = k) ios)"
  by (induction ios arbitrary: m) (auto simp: map_insert_def split: option.splits)

lemma set_outputs_keeps:
  "set_outputs rd dir ios is = (st, is') \<Longrightarrow>
   ib_config is' = ib_config is \<and> ib_version is' = ib_version is \<and> ib_input_map is' = ib_input_map is \<and>
   ib_scheduler is' = ib_scheduler is"
  by (induction rd dir ios "is" rule: set_outputs.induct)
    (auto simp: Let_def split: if_splits prod.splits)

lemma set_outputs_map:
  "set_outputs rd dir ios is = (st, is') \<Longrightarrow> IsOk st \<Longrightarrow>
   ib_output_map is' k =
     (case ib_output_map is k of Some v \<Rightarrow> Some v | None \<Rightarrow> find (\<lambda>io. mo_name io = k) ios)"
  by (induction rd dir ios "is" rule: set_outputs.induct)
    (auto simp: Let_def map_insert_def split: if_splits prod.splits option.splits)

end
