(* ===== verification/Provider_Utils.thy ===== *)
theory Provider_Utils
  imports Request_Provider Backend
begin

text \<open>
  \<open>src/core/provider_utils.cc\<close>: a request header is checked against the model's configuration and
  every input gets its shape and byte size; then the body of an HTTP request (the blocks of an
  evbuffer, a parameter) or the raw contents of a GRPC request are divided among the inputs.
\<close>

section \<open>\<open>NormalizeRequestHeader\<close>\<close>

fun add_dims :: "status \<Rightarrow> int list \<Rightarrow> request_input \<Rightarrow> status \<times> request_input" where
  "add_dims err [] io = (Status_Success, io)"
| "add_dims err (d # ds) io =
     (if d < 0 then (err, io) else add_dims err ds (io\<lparr>ri_dims := ri_dims io @ [d]\<rparr>))"

definition input_byte_size :: "model_config \<Rightarrow> 32 word \<Rightarrow> model_input \<Rightarrow> int list \<Rightarrow> 64 word" where
  "input_byte_size config batch_size input_config dims =
     (let bs = word_of_int (GetByteSize (mi_data_type input_config) dims) in
      if mc_max_batch_size config > 0 then
        (if length dims = 0 then
           word_of_int (GetDataTypeByteSize (mi_data_type input_config)) * ucast batch_size
         else bs * ucast batch_size)
      else bs)"

definition normalize_size ::
  "model_config \<Rightarrow> 32 word \<Rightarrow> model_input \<Rightarrow> request_input \<Rightarrow> status \<times> request_input" where
  "normalize_size config batch_size input_config io =
     (if IsFixedSizeDataType (mi_data_type input_config) then
        (let bs = input_byte_size config batch_size input_config (ri_dims io) in
         if ri_batch_byte_size io \<noteq> 0 \<and> ri_batch_byte_size io \<noteq> bs then
           (Status INVALID_ARG (''specific batch-byte-size for input '' @ quote (ri_name io) @
              '' does not match expected byte-size calculated from shape and datatype for model '' @
              quote (mc_name config)), io)
         else (Status_Success, io\<lparr>ri_batch_byte_size := bs\<rparr>))
      else (Status_Success, io))"

definition normalize_input ::
  "inference_backend \<Rightarrow> 32 word \<Rightarrow> request_input \<Rightarrow> status \<times> request_input" where
  "normalize_input is batch_size io =
     (case GetInput is (ri_name io) of
        Inl e \<Rightarrow> (e, io)
      | Inr input_config \<Rightarrow>
          (if length (ri_dims io) > 0 \<and> \<not> CompareDimsWithWildcard (ri_dims io) (mi_dims input_config) then
             (Status INVALID_ARG (''unexpected shape for input '' @ quote (ri_name io) @ '' for model '' @
                quote (ib_Name is) @ ''. Expected '' @ DimsListToString (mi_dims input_config) @ '', got '' @
                DimsListToString (ri_dims io)), io)
           else
             (let io1 = (if length (ri_dims io) > 0 \<and> mi_reshape input_config \<noteq> None
                         then io\<lparr>ri_dims := []\<rparr> else io);
                  (st, io2) =
                    (if length (ri_dims io1) = 0 then
                       add_dims (Status INVALID_ARG (''model supports variable-size for input '' @
                           quote (ri_name io) @ '', request must specify input shape for model '' @
                           quote (ib_Name is)))
                         (case mi_reshape input_config of Some s \<Rightarrow> s | None \<Rightarrow> mi_dims input_config) io1
                     else (Status_Success, io1))
              in if \<not> IsOk st then (st, io2)
                 else normalize_size (ib_config is) batch_size input_config io2)))"

text \<open>The header is changed in place: an error leaves the inputs before it normalized.\<close>

fun normalize_inputs ::
  "inference_backend \<Rightarrow> 32 word \<Rightarrow> request_input list \<Rightarrow> status \<times> request_input list" where
  "normalize_inputs is batch_size [] = (Status_Success, [])"
| "normalize_inputs is batch_size (io # ios) =
     (let (st, io') = normalize_input is batch_size io in
      if \<not> IsOk st then (st, io' # ios)
      else (let (st', ios') = normalize_inputs is batch_size ios in (st', io' # ios')))"

definition NormalizeRequestHeader ::
  "inference_backend \<Rightarrow> request_header \<Rightarrow> status \<times> request_header" where
  "NormalizeRequestHeader is h =
     (if rh_batch_size h < 1 then
        (Status INVALID_ARG (''inference request batch-size must be >= 1 for '' @ quote (ib_Name is)), h)
      else if rh_batch_size h \<noteq> 1 \<and> sint (rh_batch_size h) > mc_max_batch_size (ib_config is) then
        (Status INVALID_ARG (''inference request batch-size must be <= '' @
           show_int (mc_max_batch_size (ib_config is)) @ '' for '' @ quote (ib_Name is)), h)
      else if length (rh_input h) \<noteq> length (mc_input (ib_config is)) then
        (Status INVALID_ARG (''expected '' @ show_nat (length (mc_input (ib_config is))) @
           '' inputs but got '' @ show_nat (length (rh_input h)) @ '' inputs for model '' @ quote (ib_Name is)), h)
      else
        (let (st, ios) = normalize_inputs is (rh_batch_size h) (rh_input h)
         in (st, h\<lparr>rh_input := ios\<rparr>)))"

section \<open>The blocks of an HTTP request\<close>

text \<open>
  The loop that takes the blocks of one input: the bytes it still needs, the blocks that are left,
  the memory of the input.
\<close>

fun take_blocks :: "nat \<Rightarrow> bytes list \<Rightarrow> memory_reference \<Rightarrow> nat \<times> bytes list \<times> memory_reference" where
  "take_blocks byte_size [] m = (byte_size, [], m)"
| "take_blocks byte_size (v # vs) m =
     (if byte_size = 0 then (0, v # vs, m)
      else if length v > byte_size then
        (0, drop byte_size v # vs, snd (AddBuffer (take byte_size v) m))
      else take_blocks (byte_size - length v) vs (snd (AddBuffer v m)))"

text \<open>
  The memory is put into the map before it is filled; \<open>emplace\<close> keeps the memory of an earlier input
  of the same name.
\<close>

fun ev_inputs ::
  "string \<Rightarrow> request_input list \<Rightarrow> bytes list \<Rightarrow> (string \<rightharpoonup> system_memory) \<Rightarrow>
   status \<times> bytes list \<times> (string \<rightharpoonup> system_memory)" where
  "ev_inputs model_name [] v input_map = (Status_Success, v, input_map)"
| "ev_inputs model_name (io # ios) v input_map =
     (let (byte_size, v', memory_ref) = take_blocks (unat (ri_batch_byte_size io)) v SystemMemoryReference;
          input_map' = map_insert (ri_name io) (Reference memory_ref) input_map
      in if byte_size \<noteq> 0 then
           (Status INVALID_ARG (''unexpected size for input '' @ quote (ri_name io) @ '', expecting '' @
              show_nat byte_size @ '' bytes for model '' @ quote model_name), v', input_map')
         else ev_inputs model_name ios v' input_map')"

text \<open>
  \<open>peek_count\<close> is the number \<open>evbuffer_peek\<close> first gives, \<open>peek n\<close> its second result for a vector of
  \<open>n\<close> entries and the blocks it stores there.
\<close>

definition EVBufferToInputMap ::
  "int \<Rightarrow> (int \<Rightarrow> int \<times> bytes list) \<Rightarrow> string \<Rightarrow> request_header \<Rightarrow> (string \<rightharpoonup> system_memory) \<Rightarrow>
   status \<times> (string \<rightharpoonup> system_memory)" where
  "EVBufferToInputMap peek_count peek model_name h input_map =
     (if peek_count > 0 \<and> fst (peek peek_count) \<noteq> peek_count then
        (Status INTERNAL ''unexpected error getting input buffers '', input_map)
      else
        (let v = (if peek_count > 0 then snd (peek peek_count) else []);
             (st, v', input_map') = ev_inputs model_name (rh_input h) v input_map
         in if \<not> IsOk st then (st, input_map')
            else if v' \<noteq> [] \<or> peek_count < 0 then
              (Status INVALID_ARG (''unexpected additional input data for model '' @ quote model_name), input_map')
            else (Status_Success, input_map')))"

section \<open>The raw contents of a GRPC request\<close>

fun grpc_inputs ::
  "string \<Rightarrow> request_input list \<Rightarrow> bytes list \<Rightarrow> (string \<rightharpoonup> system_memory) \<Rightarrow>
   status \<times> (string \<rightharpoonup> system_memory)" where
  "grpc_inputs model_name (io # ios) (raw # raws) input_map =
     (if ri_batch_byte_size io \<noteq> of_nat (length raw) then
        (Status INVALID_ARG (''unexpected size '' @ show_nat (length raw) @ '' for input '' @
           quote (ri_name io) @ '', expecting '' @ show_nat (unat (ri_batch_byte_size io)) @
           '' for model '' @ quote model_name),
         map_insert (ri_name io) (Reference SystemMemoryReference) input_map)
      else grpc_inputs model_name ios raws
             (map_insert (ri_name io) (Reference (snd (AddBuffer raw SystemMemoryReference))) input_map))"
| "grpc_inputs model_name ios raws input_map = (Status_Success, input_map)"

definition GRPCInferRequestToInputMap ::
  "string \<Rightarrow> bytes list \<Rightarrow> request_header \<Rightarrow> (string \<rightharpoonup> system_memory) \<Rightarrow>
   status \<times> (string \<rightharpoonup> system_memory)" where
  "GRPCInferRequestToInputMap model_name raw_input h input_map =
     (if length (rh_input h) \<noteq> length raw_input then
        (Status INVALID_ARG (''expected tensor data for '' @ show_nat (length (rh_input h)) @
           '' inputs but got '' @ show_nat (length raw_input) @ '' sets of data for model '' @
           quote model_name), input_map)
      else grpc_inputs model_name (rh_input h) raw_input input_map)"

end
