(* ===== verification/Provider_Utils_Facts.thy ===== *)
theory Provider_Utils_Facts
  imports Provider_Utils
begin

text \<open>
  When a request header is accepted and what it becomes, and how the content of a request is divided
  among its inputs.
\<close>

section \<open>Normalized headers\<close>

text \<open>The shape the backend sees: the reshape, else the requested shape, else the configured one.\<close>

definition final_dims :: "model_input \<Rightarrow> request_input \<Rightarrow> int list" where
  "final_dims c io =
     (case mi_reshape c of
        Some s \<Rightarrow> s
      | None \<Rightarrow> (if ri_dims io = [] then mi_dims c else ri_dims io))"

definition final_size :: "inference_backend \<Rightarrow> 32 word \<Rightarrow> model_input \<Rightarrow> request_input \<Rightarrow> 64 word" where
  "final_size is batch_size c io =
     (if IsFixedSizeDataType (mi_data_type c)
      then input_byte_size (ib_config is) batch_size c (final_dims c io) else ri_batch_byte_size io)"

definition input_accepted :: "inference_backend \<Rightarrow> 32 word \<Rightarrow> request_input \<Rightarrow> bool" where
  "input_accepted is batch_size io \<longleftrightarrow>
     (\<exists>c. ib_input_map is (ri_name io) = Some c \<and>
        (ri_dims io = [] \<or> CompareDimsWithWildcard (ri_dims io) (mi_dims c)) \<and>
        (mi_reshape c = None \<and> ri_dims io \<noteq> [] \<or> (\<forall>d \<in> set (final_dims c io). 0 \<le> d)) \<and>
        (ri_batch_byte_size io = 0 \<or> ri_batch_byte_size io = final_size is batch_size c io))"

definition normalized :: "inference_backend \<Rightarrow> 32 word \<Rightarrow> request_input \<Rightarrow> request_input \<Rightarrow> bool" where
  "normalized is batch_size io io' \<longleftrightarrow>
     (\<exists>c. ib_input_map is (ri_name io) = Some c \<and>
        io' = io\<lparr>ri_dims := final_dims c io, ri_batch_byte_size := final_size is batch_size c io\<rparr>)"

lemma add_dims_spec:
  "add_dims err ds io =
   (if \<forall>d \<in> set ds. 0 \<le> d then (Status_Success, io\<lparr>ri_dims := ri_dims io @ ds\<rparr>)
    else (err, io\<lparr>ri_dims := ri_dims io @ takeWhile (\<lambda>d. 0 \<le> d) ds\<rparr>))"
  by (induction err ds io rule: add_dims.induct) auto

lemma normalize_size_spec:
  assumes "normalize_size config bs c io = (st, io')"
  shows "IsOk st \<longleftrightarrow> \<not> IsFixedSizeDataType (mi_data_type c) \<or> ri_batch_byte_size io = 0 \<or>
      ri_batch_byte_size io = input_byte_size config bs c (ri_dims io)"
    and "IsOk st \<Longrightarrow> io' = io\<lparr>ri_batch_byte_size :=
      (if IsFixedSizeDataType (mi_data_type c) then input_byte_size config bs c (ri_dims io)
       else ri_batch_byte_size io)\<rparr>"
  using assms by (auto simp: normalize_size_def Let_def split: if_splits)

text \<open>The steps before the size: the shape is checked, cleared by a reshape, and filled in.\<close>

lemma normalize_input_spec:
  assumes "normalize_input is bs io = (st, io')"
  shows "(IsOk st \<longleftrightarrow> input_accepted is bs io) \<and> (IsOk st \<longrightarrow> normalized is bs io io')"
proof (cases "ib_input_map is (ri_name io)")
  case None
  then show ?thesis
    using assms by (auto simp: normalize_input_def GetInput_def input_accepted_def)
next
  case (Some c)
  then have c: "GetInput is (ri_name io) = Inr c"
    by simp
  let ?shape_ok = "ri_dims io = [] \<or> CompareDimsWithWildcard (ri_dims io) (mi_dims c)"
  let ?fill_ok = "mi_reshape c = None \<and> ri_dims io \<noteq> [] \<or> (\<forall>d \<in> set (final_dims c io). 0 \<le> d)"
  let ?io = "io\<lparr>ri_dims := final_dims c io\<rparr>"
  consider (shape) "\<not> ?shape_ok" | (fill) "?shape_ok" "\<not> ?fill_ok" | (size) "?shape_ok" "?fill_ok"
    by blast
  then show ?thesis
  proof cases
    case shape
    then have "\<not> IsOk st"
      using assms by (auto simp: normalize_input_def c)
    then show ?thesis
      using shape Some by (auto simp: input_accepted_def)
  next
    case fill
    then have "\<not> IsOk st"
      using assms by (auto simp: normalize_input_def c add_dims_spec final_dims_def Let_def split: option.splits if_splits)
    then show ?thesis
      using fill Some by (auto simp: input_accepted_def)
  next
    case size
    then have "normalize_size (ib_config is) bs c ?io = (st, io')"
      using assms by (auto simp: normalize_input_def c add_dims_spec final_dims_def Let_def split: option.splits if_splits)
    from normalize_size_spec [OF this] show ?thesis
      using size Some
      by (auto simp: input_accepted_def normalized_def final_size_def)
  qed
qed

lemma normalize_inputs_spec:
  "normalize_inputs is bs ios = (st, ios') \<Longrightarrow>
   (IsOk st \<longleftrightarrow> (\<forall>io \<in> set ios. input_accepted is bs io)) \<and>
   (IsOk st \<longrightarrow> list_all2 (normalized is bs) ios ios')"
proof (induction ios arbitrary: st ios')
  case Nil
  then show ?case by auto
next
  case (Cons io ios)
  obtain st1 io1 where one: "normalize_input is bs io = (st1, io1)"
    by fastforce
  obtain st2 ios2 where rest: "normalize_inputs is bs ios = (st2, ios2)"
    by fastforce
  show ?case
    using Cons.prems normalize_input_spec [OF one] Cons.IH [OF rest]
    by (auto simp: one rest Let_def split: if_splits)
qed

lemma NormalizeRequestHeader_split:
  assumes "NormalizeRequestHeader is h = (st, h')"
  shows "(IsOk st \<longleftrightarrow>
      rh_batch_size h \<noteq> 0 \<and>
      (rh_batch_size h = 1 \<or> sint (rh_batch_size h) \<le> mc_max_batch_size (ib_config is)) \<and>
      length (rh_input h) = length (mc_input (ib_config is)) \<and>
      (\<forall>io \<in> set (rh_input h). input_accepted is (rh_batch_size h) io)) \<and>
    (IsOk st \<longrightarrow> rh_batch_size h' = rh_batch_size h \<and>
       list_all2 (normalized is (rh_batch_size h)) (rh_input h) (rh_input h'))"
proof -
  obtain st1 ios where ios: "normalize_inputs is (rh_batch_size h) (rh_input h) = (st1, ios)"
    by fastforce
  have pos: "rh_batch_size h < 1 \<longleftrightarrow> rh_batch_size h = 0"
    by simp
  show ?thesis
    using assms normalize_inputs_spec [OF ios]
    by (auto simp: NormalizeRequestHeader_def ios pos split: if_splits)
qed

text \<open>
  Claim C24. A request is accepted exactly when its batch size is at least 1 and, unless it is 1, at
  most the model's when read as a signed number, it has as many inputs as the model, and each input
  is one of the model's with a matching shape (or a fully known configured one) and no other byte
  size than the computed one. The accepted header has for each input the shape the backend sees and
  the byte size of the whole batch.
\<close>

theorem NormalizeRequestHeader_spec:
  assumes "NormalizeRequestHeader is h = (st, h')"
  shows "(IsOk st \<longleftrightarrow>
      rh_batch_size h \<noteq> 0 \<and>
      (rh_batch_size h = 1 \<or> sint (rh_batch_size h) \<le> mc_max_batch_size (ib_config is)) \<and>
      length (rh_input h) = length (mc_input (ib_config is)) \<and>
      (\<forall>io \<in> set (rh_input h). input_accepted is (rh_batch_size h) io)) \<and>
    (IsOk st \<longrightarrow> rh_batch_size h' = rh_batch_size h \<and>
       list_all2 (normalized is (rh_batch_size h)) (rh_input h) (rh_input h'))"
  by (rule NormalizeRequestHeader_split [OF assms])

definition image_input :: model_input where
  "image_input = \<lparr>mi_name = ''DATA'', mi_data_type = TYPE_FP32, mi_format = FORMAT_NONE, mi_dims = [3, -1],
     mi_reshape = None\<rparr>"

definition image_backend :: inference_backend where
  "image_backend = inference_backend_new\<lparr>ib_config := model_config_clear\<lparr>mc_name := ''m'', mc_max_batch_size := 8,
     mc_input := [image_input]\<rparr>, ib_input_map := [''DATA'' \<mapsto> image_input]\<rparr>"

definition image_request :: "32 word \<Rightarrow> request_header" where
  "image_request batch = request_header_clear\<lparr>rh_batch_size := batch,
     rh_input := [\<lparr>ri_name = ''DATA'', ri_dims = [3, 5], ri_batch_byte_size = 0\<rparr>]\<rparr>"

lemma image_input_accepted:
  "input_accepted image_backend batch \<lparr>ri_name = ''DATA'', ri_dims = [3, 5], ri_batch_byte_size = 0\<rparr>"
  by (simp add: input_accepted_def image_backend_def image_input_def CompareDimsWithWildcard_iff)

theorem NormalizeRequestHeader_spec_witness:
  "IsOk (fst (NormalizeRequestHeader image_backend (image_request 2))) \<and>
   ri_batch_byte_size (rh_input (snd (NormalizeRequestHeader image_backend (image_request 2))) ! 0) = 120"
proof -
  have ok: "IsOk (fst (NormalizeRequestHeader image_backend (image_request 2)))"
    and norm: "list_all2 (normalized image_backend 2) (rh_input (image_request 2))
      (rh_input (snd (NormalizeRequestHeader image_backend (image_request 2))))"
    using NormalizeRequestHeader_spec [of image_backend "image_request 2" _ _, OF surjective_pairing] image_input_accepted
    by (simp_all add: image_request_def, simp_all add: image_backend_def)
  have "input_byte_size (ib_config image_backend) 2 image_input [3, 5] = 120"
    by code_simp
  then have "\<forall>io'. normalized image_backend 2 \<lparr>ri_name = ''DATA'', ri_dims = [3, 5], ri_batch_byte_size = 0\<rparr> io' \<longrightarrow>
      ri_batch_byte_size io' = 120"
    by (auto simp: normalized_def final_size_def final_dims_def image_input_def IsFixedSizeDataType_def,
        auto simp: image_backend_def image_input_def)
  then show ?thesis
    using ok norm by (auto simp: image_request_def list_all2_Cons1)
qed

text \<open>
  The batch size is unsigned but compared as a signed number: a request for 2^31 or more
  batch entries is accepted by a model whose largest batch is 8.
\<close>

theorem NormalizeRequestHeader_huge_batch:
  "IsOk (fst (NormalizeRequestHeader image_backend (image_request 0x80000000))) \<and>
   mc_max_batch_size (ib_config image_backend) < uint (rh_batch_size (image_request 0x80000000))"
  by code_simp

section \<open>The blocks of the inputs\<close>

lemma take_blocks_spec:
  assumes "take_blocks n vs m = (n', vs', m')" and "[] \<notin> set vs"
  shows "concat (smr_buffer m') @ concat vs' = concat (smr_buffer m) @ concat vs \<and>
    length (concat (smr_buffer m')) + n' = length (concat (smr_buffer m)) + n \<and>
    (n' = 0 \<or> vs' = []) \<and> [] \<notin> set vs' \<and> (smr_ok m \<longrightarrow> smr_ok m')"
  using assms
proof (induction n vs m rule: take_blocks.induct)
  case (1 n m)
  then show ?case by simp
next
  case (2 n v vs m)
  consider "n = 0" | "n \<noteq> 0" "length v > n" | "n \<noteq> 0" "length v \<le> n"
    by linarith
  then show ?case
  proof cases
    case 3
    then have "take_blocks (n - length v) vs (snd (AddBuffer v m)) = (n', vs', m')" "[] \<notin> set vs"
      using "2.prems" by auto
    from "2.IH" [OF 3(1) _ this] 3 show ?thesis by auto
  qed (use "2.prems" in auto)
qed

lemma take_blocks_enough:
  assumes "take_blocks n vs m = (n', vs', m')" and "[] \<notin> set vs"
  shows "n' = 0 \<longleftrightarrow> n \<le> length (concat vs)"
proof -
  note s = take_blocks_spec [OF assms]
  have "length (concat (smr_buffer m')) + length (concat vs') = length (concat (smr_buffer m)) + length (concat vs)"
    using s by (metis length_append)
  then show ?thesis
    using s by auto
qed

text \<open>What the inputs get: a well-formed memory of the size the header says.\<close>

definition bound :: "(string \<rightharpoonup> system_memory) \<Rightarrow> request_input \<Rightarrow> bool" where
  "bound input_map io \<longleftrightarrow>
     (\<exists>m. input_map (ri_name io) = Some m \<and> memory_ok m \<and>
        length (memory_bytes m) = unat (ri_batch_byte_size io))"

definition content :: "(string \<rightharpoonup> system_memory) \<Rightarrow> request_input \<Rightarrow> bytes" where
  "content input_map io = memory_bytes (the (input_map (ri_name io)))"

lemma map_insert_keeps: "m k = Some v \<Longrightarrow> map_insert k' v' m k = Some v"
  by (auto simp: map_insert_def)

lemma ev_inputs_keeps:
  "ev_inputs name ios v input_map = (st, v', input_map') \<Longrightarrow> input_map k = Some m \<Longrightarrow> input_map' k = Some m"
  by (induction name ios v input_map rule: ev_inputs.induct)
    (auto simp: Let_def map_insert_keeps split: prod.splits if_splits)

lemma ev_inputs_spec:
  assumes "ev_inputs name ios v input_map = (st, v', input_map')" and "[] \<notin> set v"
    and "distinct (map ri_name ios)" and "\<forall>io \<in> set ios. input_map (ri_name io) = None"
  shows "(IsOk st \<longleftrightarrow> (\<Sum>io\<leftarrow>ios. unat (ri_batch_byte_size io)) \<le> length (concat v)) \<and>
    (IsOk st \<longrightarrow> [] \<notin> set v' \<and> (\<forall>io \<in> set ios. bound input_map' io) \<and>
       concat (map (content input_map') ios) @ concat v' = concat v)"
  using assms
proof (induction ios arbitrary: v input_map)
  case Nil
  then show ?case by simp
next
  case (Cons io ios)
  obtain n w m where tb: "take_blocks (unat (ri_batch_byte_size io)) v SystemMemoryReference = (n, w, m)"
    by (metis prod_cases3)
  note spec = take_blocks_spec [OF tb Cons.prems(2)]
  have enough: "n = 0 \<longleftrightarrow> unat (ri_batch_byte_size io) \<le> length (concat v)"
    by (rule take_blocks_enough [OF tb Cons.prems(2)])
  let ?map = "map_insert (ri_name io) (Reference m) input_map"
  show ?case
  proof (cases "n = 0")
    case False
    then show ?thesis
      using Cons.prems(1) enough by (auto simp: tb Let_def split: if_splits)
  next
    case True
    then have rest: "ev_inputs name ios w ?map = (st, v', input_map')"
      using Cons.prems(1) by (simp add: tb Let_def)
    have free: "\<forall>io' \<in> set ios. ?map (ri_name io') = None"
      using Cons.prems(3,4) by (auto simp: map_insert_def image_iff)
    have IH: "(IsOk st \<longleftrightarrow> (\<Sum>io\<leftarrow>ios. unat (ri_batch_byte_size io)) \<le> length (concat w)) \<and>
        (IsOk st \<longrightarrow> [] \<notin> set v' \<and> (\<forall>io \<in> set ios. bound input_map' io) \<and>
          concat (map (content input_map') ios) @ concat v' = concat w)"
      using Cons.IH [OF rest _ _ free] spec Cons.prems(3) by simp
    have "input_map' (ri_name io) = Some (Reference m)"
      using ev_inputs_keeps [OF rest] Cons.prems(4) by (simp add: map_insert_def)
    moreover have v: "memory_bytes (Reference m) @ concat w = concat v"
      and len: "length (memory_bytes (Reference m)) = unat (ri_batch_byte_size io)" and "smr_ok m"
      using spec True by (simp_all add: memory_bytes_def)
    ultimately have io: "bound input_map' io" "content input_map' io = memory_bytes (Reference m)"
      by (simp_all add: bound_def content_def)
    have "length (concat v) = unat (ri_batch_byte_size io) + length (concat w)"
      using v len by (metis length_append)
    then show ?thesis
      using IH io v by auto
  qed
qed

lemma EVBufferToInputMap_parts:
  assumes "peek (int (length blocks)) = (int (length blocks), blocks)" and "[] \<notin> set blocks"
    and "distinct (map ri_name (rh_input h))"
    and "EVBufferToInputMap (int (length blocks)) peek name h Map.empty = (st, input_map)"
  shows "(IsOk st \<longleftrightarrow> (\<Sum>io\<leftarrow>rh_input h. unat (ri_batch_byte_size io)) = length (concat blocks)) \<and>
    (IsOk st \<longrightarrow> (\<forall>io \<in> set (rh_input h). bound input_map io) \<and>
       concat (map (content input_map) (rh_input h)) = concat blocks)"
proof -
  have v: "(if int (length blocks) > 0 then snd (peek (int (length blocks))) else []) = blocks"
    using assms(1) by auto
  obtain st1 v' map' where ev: "ev_inputs name (rh_input h) blocks Map.empty = (st1, v', map')"
    by (metis prod_cases3)
  have res: "(st, input_map) =
      (if \<not> IsOk st1 then (st1, map')
       else if v' \<noteq> [] then (Status INVALID_ARG (''unexpected additional input data for model '' @ quote name), map')
       else (Status_Success, map'))"
    using assms(4) unfolding EVBufferToInputMap_def v by (simp add: assms(1) ev split: if_splits)
  have spec: "(IsOk st1 \<longleftrightarrow> (\<Sum>io\<leftarrow>rh_input h. unat (ri_batch_byte_size io)) \<le> length (concat blocks)) \<and>
      (IsOk st1 \<longrightarrow> [] \<notin> set v' \<and> (\<forall>io \<in> set (rh_input h). bound map' io) \<and>
        concat (map (content map') (rh_input h)) @ concat v' = concat blocks)"
    by (rule ev_inputs_spec [OF ev assms(2,3)]) simp
  have total: "length (concat (map (content map') (rh_input h))) = (\<Sum>io\<leftarrow>rh_input h. unat (ri_batch_byte_size io))"
    if "\<forall>io \<in> set (rh_input h). bound map' io"
    using that by (fastforce simp: length_concat comp_def bound_def content_def intro!: arg_cong [of _ _ sum_list])
  show ?thesis
  proof (cases "IsOk st1")
    case True
    then have bytes: "concat (map (content map') (rh_input h)) @ concat v' = concat blocks"
      and bnd: "\<forall>io \<in> set (rh_input h). bound map' io" and ne: "[] \<notin> set v'"
      using spec by auto
    then have "v' = [] \<longleftrightarrow> (\<Sum>io\<leftarrow>rh_input h. unat (ri_batch_byte_size io)) = length (concat blocks)"
      using total [OF bnd] by (cases v') (auto simp flip: bytes)
    then show ?thesis
      using res True bytes bnd by (auto split: if_splits)
  next
    case False
    then show ?thesis
      using res spec by auto
  qed
qed

text \<open>
  The body of an HTTP request is accepted exactly when it has as many bytes as the inputs of
  its header together. Every input then has a memory of its size, and the memories in the order of
  the inputs are the body, whatever blocks the evbuffer divides it into.
\<close>

theorem EVBufferToInputMap_splits:
  assumes "peek (int (length blocks)) = (int (length blocks), blocks)" and "[] \<notin> set blocks"
    and "distinct (map ri_name (rh_input h))"
    and "EVBufferToInputMap (int (length blocks)) peek name h Map.empty = (st, input_map)"
  shows "(IsOk st \<longleftrightarrow> (\<Sum>io\<leftarrow>rh_input h. unat (ri_batch_byte_size io)) = length (concat blocks)) \<and>
    (IsOk st \<longrightarrow> (\<forall>io \<in> set (rh_input h). bound input_map io) \<and>
       concat (map (content input_map) (rh_input h)) = concat blocks)"
  by (rule EVBufferToInputMap_parts [OF assms])

definition pair_input :: "string \<Rightarrow> model_input" where
  "pair_input name = \<lparr>mi_name = name, mi_data_type = TYPE_UINT8, mi_format = FORMAT_NONE, mi_dims = [2],
     mi_reshape = None\<rparr>"

definition pair_request :: "string \<Rightarrow> string \<Rightarrow> request_header" where
  "pair_request a b = request_header_clear\<lparr>rh_batch_size := 1,
     rh_input := [\<lparr>ri_name = a, ri_dims = [], ri_batch_byte_size = 2\<rparr>,
                  \<lparr>ri_name = b, ri_dims = [], ri_batch_byte_size = 2\<rparr>]\<rparr>"

definition pair_backend :: inference_backend where
  "pair_backend = inference_backend_new\<lparr>ib_config := model_config_clear\<lparr>mc_name := ''m'',
       mc_input := [pair_input ''A'', pair_input ''B'']\<rparr>,
     ib_input_map := [''A'' \<mapsto> pair_input ''A'', ''B'' \<mapsto> pair_input ''B'']\<rparr>"

definition pair_blocks :: "bytes list" where
  "pair_blocks = [[1], [2, 3], [4]]"

definition pair_peek :: "int \<Rightarrow> int \<times> bytes list" where
  "pair_peek n = (int (length pair_blocks), pair_blocks)"

theorem EVBufferToInputMap_splits_witness:
  "concat (map (content (snd (EVBufferToInputMap (int (length pair_blocks)) pair_peek ''m'' (pair_request ''A'' ''B'') Map.empty)))
     (rh_input (pair_request ''A'' ''B''))) = [1, 2, 3, 4]"
  using EVBufferToInputMap_splits [of pair_peek pair_blocks "pair_request ''A'' ''B''" "''m''" _ _, OF _ _ _ surjective_pairing]
  by (simp add: pair_peek_def pair_blocks_def, simp add: pair_request_def)

text \<open>
  Only the number of inputs is compared: a request that names one input twice and omits
  another is accepted, the second content of the named input is dropped without an error, and the
  provider that is created has no content for the omitted input.
\<close>

theorem duplicate_input_accepted:
  "let (st, h) = NormalizeRequestHeader pair_backend (pair_request ''A'' ''A'');
       (st', input_map) = EVBufferToInputMap (int (length pair_blocks)) pair_peek ''m'' h Map.empty
   in IsOk st \<and> IsOk st' \<and> map_option memory_bytes (input_map ''A'') = Some [1, 2] \<and>
      (case provider_Create ''m'' 1 h input_map of Inl e \<Rightarrow> False | Inr p \<Rightarrow> ip_input_buffer p ''B'' = None)"
  by code_simp

section \<open>Raw contents\<close>

lemma grpc_inputs_keeps:
  "grpc_inputs name ios raws input_map = (st, input_map') \<Longrightarrow> input_map k = Some m \<Longrightarrow> input_map' k = Some m"
  by (induction name ios raws input_map rule: grpc_inputs.induct)
    (auto simp: map_insert_keeps split: if_splits)

lemma grpc_inputs_spec:
  assumes "grpc_inputs name ios raws input_map = (st, input_map')" and "length ios = length raws"
    and "distinct (map ri_name ios)" and "\<forall>io \<in> set ios. input_map (ri_name io) = None"
  shows "(IsOk st \<longleftrightarrow> list_all2 (\<lambda>io raw. ri_batch_byte_size io = of_nat (length raw)) ios raws) \<and>
    (IsOk st \<longrightarrow> map (content input_map') ios = raws \<and>
       (\<forall>io \<in> set ios. \<exists>m. input_map' (ri_name io) = Some m \<and> memory_ok m))"
  using assms
proof (induction name ios raws input_map rule: grpc_inputs.induct)
  case (1 name io ios raw raws input_map)
  let ?m = "snd (AddBuffer raw SystemMemoryReference)"
  let ?map = "map_insert (ri_name io) (Reference ?m) input_map"
  show ?case
  proof (cases "ri_batch_byte_size io = of_nat (length raw)")
    case True
    then have rest: "grpc_inputs name ios raws ?map = (st, input_map')"
      using "1.prems"(1) by simp
    have free: "\<forall>io' \<in> set ios. ?map (ri_name io') = None"
      using "1.prems"(3,4) by (auto simp: map_insert_def image_iff)
    have "input_map' (ri_name io) = Some (Reference ?m)"
      using grpc_inputs_keeps [OF rest] "1.prems"(4) by (simp add: map_insert_def)
    then have "content input_map' io = raw" "\<exists>m. input_map' (ri_name io) = Some m \<and> memory_ok m"
      by (simp_all add: content_def memory_bytes_def)
    moreover have "\<not> ri_batch_byte_size io \<noteq> of_nat (length raw)"
      using True by simp
    ultimately show ?thesis
      using "1.IH" [OF _ rest _ _ free] "1.prems"(2,3) True by simp
  next
    case False
    then show ?thesis
      using "1.prems"(1) by auto
  qed
qed auto

text \<open>
  A GRPC request is accepted exactly when it has one raw content for each input of its
  header, of the size the header gives; every input then has its own content.
\<close>

theorem GRPCInferRequestToInputMap_binds:
  assumes "distinct (map ri_name (rh_input h))"
    and "GRPCInferRequestToInputMap name raws h Map.empty = (st, input_map)"
  shows "(IsOk st \<longleftrightarrow> list_all2 (\<lambda>io raw. ri_batch_byte_size io = of_nat (length raw)) (rh_input h) raws) \<and>
    (IsOk st \<longrightarrow> map (content input_map) (rh_input h) = raws \<and>
       (\<forall>io \<in> set (rh_input h). \<exists>m. input_map (ri_name io) = Some m \<and> memory_ok m))"
proof (cases "length (rh_input h) = length raws")
  case True
  then show ?thesis
    using assms grpc_inputs_spec [of name "rh_input h" raws Map.empty]
    by (simp add: GRPCInferRequestToInputMap_def)
next
  case False
  then show ?thesis
    using assms(2) by (auto simp: GRPCInferRequestToInputMap_def dest: list_all2_lengthD)
qed

theorem GRPCInferRequestToInputMap_binds_witness:
  "map (content (snd (GRPCInferRequestToInputMap ''m'' [[1, 2], [3, 4]] (pair_request ''A'' ''B'') Map.empty)))
     (rh_input (pair_request ''A'' ''B'')) = [[1, 2], [3, 4]]"
  using GRPCInferRequestToInputMap_binds [of "pair_request ''A'' ''B''" "''m''" "[[1, 2], [3, 4]]" _ _, OF _ surjective_pairing]
  by (simp add: pair_request_def)

end
