(* ===== verification/Response_Provider.thy ===== *)
theory Response_Provider
  imports System_Memory Backend "HOL-Library.Multiset"
begin

text \<open>
  \<open>InferResponseProvider\<close> and its variants of \<open>src/core/provider.cc\<close>: the buffers a backend writes
  the outputs to, and the response header with raw sizes or the top classes of every output. The
  evbuffer of libevent is a parameter, as are the float comparison and conversion. A buffer that is
  allocated is not initialised; its bytes are an argument.
\<close>

section \<open>Response headers\<close>

record class_result =
  cr_idx :: int
  cr_label :: string
  cr_value :: "32 word"

record raw_result =
  rr_dims :: "int list"
  rr_batch_byte_size :: "64 word"

record response_output =
  so_name :: string
  so_raw :: "raw_result option"
  so_batch_classes :: "class_result list list"

record response_header =
  sh_id :: "64 word"
  sh_model_name :: string
  sh_model_version :: int
  sh_batch_size :: "32 word"
  sh_output :: "response_output list"

definition response_header_clear :: response_header where
  "response_header_clear =
     \<lparr>sh_id = 0, sh_model_name = [], sh_model_version = 0, sh_batch_size = 0, sh_output = []\<rparr>"

section \<open>Classification results\<close>

text \<open>A secondary label provider: the name it knows the output by, and its labels.\<close>

type_synonym secondary_map = "string \<rightharpoonup> string \<times> label_map"

definition class_label :: "label_map \<Rightarrow> secondary_map \<Rightarrow> string \<Rightarrow> nat \<Rightarrow> string" where
  "class_label label_provider lookup_map name idx =
     (let label = GetLabel label_provider name idx in
      if label = [] then
        (case lookup_map name of
           None \<Rightarrow> label
         | Some (name', provider) \<Rightarrow> GetLabel provider name' idx)
      else label)"

text \<open>
  \<open>std_sort less xs\<close> is \<open>std::sort\<close>: it may leave elements of equal rank in any order. \<open>probs\<close> holds
  the values of all batch entries, \<open>gt\<close> is the comparison of their type.
\<close>

definition batch_classes ::
  "((nat \<Rightarrow> nat \<Rightarrow> bool) \<Rightarrow> nat list \<Rightarrow> nat list) \<Rightarrow> ('v \<Rightarrow> 'v \<Rightarrow> bool) \<Rightarrow> ('v \<Rightarrow> 32 word) \<Rightarrow>
   'v list \<Rightarrow> nat \<Rightarrow> nat \<Rightarrow> label_map \<Rightarrow> secondary_map \<Rightarrow> string \<Rightarrow> class_result list" where
  "batch_classes std_sort gt to_float probs entry_cnt class_cnt label_provider lookup_map name =
     (let idx = std_sort (\<lambda>i1 i2. gt (probs ! i1) (probs ! i2)) [0..<entry_cnt] in
      map (\<lambda>k. \<lparr>cr_idx = wrap_s32 (int (idx ! k)),
                cr_label = class_label label_provider lookup_map name (idx ! k),
                cr_value = to_float (probs ! (idx ! k))\<rparr>) [0..<class_cnt])"

fun class_results_loop ::
  "(nat \<Rightarrow> 'v list \<Rightarrow> class_result list) \<Rightarrow> nat \<Rightarrow> 'v list \<Rightarrow> nat \<Rightarrow> response_output \<Rightarrow> response_output" where
  "class_results_loop classes entry_cnt probs 0 poutput = poutput"
| "class_results_loop classes entry_cnt probs (Suc n) poutput =
     class_results_loop classes entry_cnt (drop entry_cnt probs) n
       (poutput\<lparr>so_batch_classes := so_batch_classes poutput @ [classes entry_cnt probs]\<rparr>)"

definition AddClassResults ::
  "((nat \<Rightarrow> nat \<Rightarrow> bool) \<Rightarrow> nat list \<Rightarrow> nat list) \<Rightarrow> ('v \<Rightarrow> 'v \<Rightarrow> bool) \<Rightarrow> ('v \<Rightarrow> 32 word) \<Rightarrow>
   response_output \<Rightarrow> 'v list \<Rightarrow> nat \<Rightarrow> nat \<Rightarrow> nat \<Rightarrow> label_map \<Rightarrow> secondary_map \<Rightarrow> response_output" where
  "AddClassResults std_sort gt to_float poutput probs batch1_element_count batch_size cls_count
     label_provider lookup_map =
     (let class_cnt = min cls_count batch1_element_count in
      class_results_loop
        (\<lambda>entry_cnt probs. batch_classes std_sort gt to_float probs entry_cnt class_cnt
           label_provider lookup_map (so_name poutput))
        batch1_element_count probs batch_size poutput)"

text \<open>The values in a buffer of a type, and their order; bytes are little-endian.\<close>

definition elements :: "nat \<Rightarrow> bytes \<Rightarrow> bytes list" where
  "elements elem_size buffer = map (\<lambda>k. take elem_size (drop (k * elem_size) buffer)) [0..<length buffer div elem_size]"

definition int_value :: "data_type \<Rightarrow> bytes \<Rightarrow> int" where
  "int_value dt bs =
     (let u = horner_sum uint 256 bs; w = 2 ^ (8 * length bs) in
      if dt \<in> {TYPE_INT8, TYPE_INT16, TYPE_INT32, TYPE_INT64} \<and> 2 * u \<ge> w then u - w else u)"

definition value_gt :: "(bytes \<Rightarrow> bytes \<Rightarrow> bool) \<Rightarrow> data_type \<Rightarrow> bytes \<Rightarrow> bytes \<Rightarrow> bool" where
  "value_gt float_gt dt a b =
     (if dt = TYPE_FP32 \<or> dt = TYPE_FP64 then float_gt a b else int_value dt a > int_value dt b)"

definition class_types :: "data_type list" where
  "class_types = [TYPE_UINT8, TYPE_UINT16, TYPE_UINT32, TYPE_UINT64, TYPE_INT8, TYPE_INT16,
     TYPE_INT32, TYPE_INT64, TYPE_FP32, TYPE_FP64]"

section \<open>The response provider\<close>

text \<open>Where an output pointer points: nowhere, to the buffer of the output itself or of a variant.\<close>

datatype out_ptr =
    Null_ptr
  | Own_buffer nat
  | Internal_memory string
  | Raw_output nat
  | Ev_space nat

record provider_output =
  op_name :: string
  op_shape :: "int list"
  op_cls_count :: nat
  op_ptr :: out_ptr
  op_byte_size :: nat
  op_buffer :: "bytes option"

record response_provider =
  rv_request_header :: request_header
  rv_output_map :: "string \<rightharpoonup> request_output"
  rv_outputs :: "provider_output list"
  rv_label_provider :: label_map
  rv_secondary_label_provider_map :: secondary_map
  rv_response_header :: response_header

definition InferResponseProvider :: "request_header \<Rightarrow> label_map \<Rightarrow> response_provider" where
  "InferResponseProvider h label_provider =
     \<lparr>rv_request_header = h,
      rv_output_map = foldl (\<lambda>m o'. map_insert (ro_name o') o' m) Map.empty (rh_output h),
      rv_outputs = [], rv_label_provider = label_provider,
      rv_secondary_label_provider_map = Map.empty, rv_response_header = response_header_clear\<rparr>"

definition RequiresOutput :: "string \<Rightarrow> 'a response_provider_scheme \<Rightarrow> bool" where
  "RequiresOutput name p \<longleftrightarrow> rv_output_map p name \<noteq> None"

fun output_contents :: "string \<Rightarrow> provider_output list \<Rightarrow> status + out_ptr \<times> nat" where
  "output_contents name [] = Inl (Status UNAVAILABLE (''request for unallocated output '' @ quote name))"
| "output_contents name (o' # os) =
     (if name = op_name o' \<and> op_cls_count o' = 0 then Inr (op_ptr o', op_byte_size o')
      else output_contents name os)"

definition OutputBufferContents :: "string \<Rightarrow> 'a response_provider_scheme \<Rightarrow> status + out_ptr \<times> nat" where
  "OutputBufferContents name p = output_contents name (rv_outputs p)"

definition GetSecondaryLabelProvider ::
  "string \<Rightarrow> 'a response_provider_scheme \<Rightarrow> (string \<times> label_map) option" where
  "GetSecondaryLabelProvider name p = rv_secondary_label_provider_map p name"

definition SetSecondaryLabelProvider ::
  "string \<Rightarrow> string \<times> label_map \<Rightarrow> 'a response_provider_scheme \<Rightarrow> 'a response_provider_scheme" where
  "SetSecondaryLabelProvider name provider p =
     p\<lparr>rv_secondary_label_provider_map := (rv_secondary_label_provider_map p)(name \<mapsto> provider)\<rparr>"

text \<open>The new output is the last of \<open>rv_outputs\<close>; \<open>content\<close> is the out parameter.\<close>

definition CheckAndSetIfBufferedOutput ::
  "(nat \<Rightarrow> 8 word) \<Rightarrow> string \<Rightarrow> out_ptr \<Rightarrow> nat \<Rightarrow> int list \<Rightarrow> 'a response_provider_scheme \<Rightarrow>
   status + out_ptr \<times> 'a response_provider_scheme" where
  "CheckAndSetIfBufferedOutput garbage name content content_byte_size content_shape p =
     (case rv_output_map p name of
        None \<Rightarrow> Inl (Status INTERNAL (''unexpected output '' @ quote name))
      | Some pr \<Rightarrow>
          (let loutput = \<lparr>op_name = name, op_shape = content_shape, op_cls_count = 0, op_ptr = Null_ptr,
                          op_byte_size = content_byte_size, op_buffer = None\<rparr>;
               n = length (rv_outputs p)
           in case ro_cls pr of
                None \<Rightarrow> Inr (content, p\<lparr>rv_outputs := rv_outputs p @ [loutput]\<rparr>)
              | Some cls_count \<Rightarrow>
                  Inr (Own_buffer n, p\<lparr>rv_outputs := rv_outputs p @
                    [loutput\<lparr>op_cls_count := unat cls_count, op_ptr := Own_buffer n,
                             op_buffer := Some (map garbage [0..<content_byte_size])\<rparr>]\<rparr>)))"

definition set_last_output :: "(provider_output \<Rightarrow> provider_output) \<Rightarrow> 'a response_provider_scheme \<Rightarrow> 'a response_provider_scheme" where
  "set_last_output f p = p\<lparr>rv_outputs := butlast (rv_outputs p) @ [f (last (rv_outputs p))]\<rparr>"

section \<open>The variants\<close>

subsection \<open>Internal requests\<close>

record internal_provider = response_provider +
  iv_output_buffer :: "string \<rightharpoonup> allocated_memory"

definition internal_Create :: "request_header \<Rightarrow> label_map \<Rightarrow> internal_provider" where
  "internal_Create h label_provider =
     response_provider.extend (InferResponseProvider h label_provider) (internal_provider.fields Map.empty)"

definition internal_AllocateOutputBuffer ::
  "(nat \<Rightarrow> 8 word) \<Rightarrow> string \<Rightarrow> nat \<Rightarrow> int list \<Rightarrow> internal_provider \<Rightarrow>
   status \<times> out_ptr \<times> internal_provider" where
  "internal_AllocateOutputBuffer garbage name content_byte_size content_shape p =
     (case CheckAndSetIfBufferedOutput garbage name Null_ptr content_byte_size content_shape p of
        Inl e \<Rightarrow> (e, Null_ptr, p)
      | Inr (content, p1) \<Rightarrow>
          (let m = (case iv_output_buffer p1 name of
                      None \<Rightarrow> AllocatedSystemMemory (map garbage [0..<content_byte_size])
                    | Some m \<Rightarrow> m);
               p2 = p1\<lparr>iv_output_buffer := (iv_output_buffer p1)(name \<mapsto> m)\<rparr>
           in if of_nat content_byte_size \<noteq> asm_total_byte_size m then
                (Status INVALID_ARG (''unexpected size '' @ show_nat (unat (asm_total_byte_size m)) @
                   '' for output '' @ quote name @ '', expecting '' @ show_nat content_byte_size), content, p2)
              else (Status_Success, Internal_memory name,
                    set_last_output (op_ptr_update (\<lambda>_. Internal_memory name)) p2)))"

definition internal_GetSystemMemory :: "string \<Rightarrow> internal_provider \<Rightarrow> status + system_memory" where
  "internal_GetSystemMemory name p =
     (case iv_output_buffer p name of
        None \<Rightarrow> Inl (Status INVALID_ARG (''output '' @ quote name @ '' is not found in response provider''))
      | Some m \<Rightarrow> Inr (Allocated m))"

subsection \<open>GRPC requests\<close>

record grpc_provider = response_provider +
  gv_raw_output :: "bytes list"

text \<open>The response of a new request has no raw contents yet.\<close>

definition grpc_Create :: "request_header \<Rightarrow> label_map \<Rightarrow> grpc_provider" where
  "grpc_Create h label_provider =
     response_provider.extend (InferResponseProvider h label_provider) (grpc_provider.fields [])"

definition grpc_AllocateOutputBuffer ::
  "(nat \<Rightarrow> 8 word) \<Rightarrow> string \<Rightarrow> out_ptr \<Rightarrow> nat \<Rightarrow> int list \<Rightarrow> grpc_provider \<Rightarrow>
   status \<times> out_ptr \<times> grpc_provider" where
  "grpc_AllocateOutputBuffer garbage name content0 content_byte_size content_shape p =
     (case CheckAndSetIfBufferedOutput garbage name content0 content_byte_size content_shape p of
        Inl e \<Rightarrow> (e, content0, p)
      | Inr (content, p1) \<Rightarrow>
          (let k = length (gv_raw_output p1) in
           if op_ptr (last (rv_outputs p1)) = Null_ptr then
             (Status_Success, Raw_output k,
              set_last_output (op_ptr_update (\<lambda>_. Raw_output k))
                (p1\<lparr>gv_raw_output := gv_raw_output p1 @ [replicate content_byte_size 0]\<rparr>))
           else (Status_Success, content, p1\<lparr>gv_raw_output := gv_raw_output p1 @ [[]]\<rparr>)))"

subsection \<open>HTTP requests\<close>

text \<open>
  \<open>reserve n ev\<close> is \<open>evbuffer_reserve_space\<close> for one vector of \<open>n\<close> bytes: how many vectors it used, the
  address and length of the first and the buffer; \<open>commit\<close> is \<open>evbuffer_commit_space\<close> with its result.
\<close>

record 'ev http_provider = response_provider +
  hv_output_buffer :: 'ev

definition http_Create :: "'ev \<Rightarrow> request_header \<Rightarrow> label_map \<Rightarrow> 'ev http_provider" where
  "http_Create output_buffer h label_provider =
     response_provider.extend (InferResponseProvider h label_provider) (http_provider.fields output_buffer)"

definition http_AllocateOutputBuffer ::
  "(nat \<Rightarrow> 'ev \<Rightarrow> int \<times> nat \<times> nat \<times> 'ev) \<Rightarrow> (nat \<Rightarrow> nat \<Rightarrow> 'ev \<Rightarrow> int \<times> 'ev) \<Rightarrow> (nat \<Rightarrow> 8 word) \<Rightarrow>
   string \<Rightarrow> nat \<Rightarrow> int list \<Rightarrow> 'ev http_provider \<Rightarrow> status \<times> out_ptr \<times> 'ev http_provider" where
  "http_AllocateOutputBuffer reserve commit garbage name content_byte_size content_shape p =
     (case CheckAndSetIfBufferedOutput garbage name Null_ptr content_byte_size content_shape p of
        Inl e \<Rightarrow> (e, Null_ptr, p)
      | Inr (content, p1) \<Rightarrow>
          (if op_ptr (last (rv_outputs p1)) = Null_ptr \<and> content_byte_size > 0 then
             (case reserve content_byte_size (hv_output_buffer p1) of
                (n, iov_base, iov_len, ev) \<Rightarrow>
                  (let p2 = p1\<lparr>hv_output_buffer := ev\<rparr> in
                   if n \<noteq> 1 then
                     (Status INTERNAL (''failed to reserve '' @ show_nat content_byte_size @
                        '' bytes in output tensor buffer''), content, p2)
                   else if iov_len < content_byte_size then
                     (Status INTERNAL (''reserved '' @ show_nat iov_len @
                        '' bytes in output tensor buffer, need '' @ show_nat content_byte_size), content, p2)
                   else
                     (let (rc, ev') = commit iov_base content_byte_size ev;
                          p3 = p2\<lparr>hv_output_buffer := ev'\<rparr>
                      in if rc \<noteq> 0 then
                           (Status INTERNAL ''failed to commit output tensors to output buffer'', Null_ptr,
                            set_last_output (op_ptr_update (\<lambda>_. Null_ptr)) p3)
                         else (Status_Success, Ev_space iov_base,
                               set_last_output (op_ptr_update (\<lambda>_. Ev_space iov_base)) p3))))
           else (Status_Success, content, p1)))"

subsection \<open>Requests of the C interface\<close>

definition delegating_AllocateOutputBuffer ::
  "(nat \<Rightarrow> 8 word) \<Rightarrow> string \<Rightarrow> nat \<Rightarrow> int list \<Rightarrow> response_provider \<Rightarrow>
   status \<times> out_ptr \<times> response_provider" where
  "delegating_AllocateOutputBuffer garbage name content_byte_size content_shape p =
     (case CheckAndSetIfBufferedOutput garbage name Null_ptr content_byte_size content_shape p of
        Inl e \<Rightarrow> (e, Null_ptr, p)
      | Inr (content, p1) \<Rightarrow>
          (if op_buffer (last (rv_outputs p1)) = None \<and> content_byte_size > 0 then
             (let own = Own_buffer (length (rv_outputs p1) - 1) in
              (Status_Success, own,
               set_last_output (\<lambda>o'. o'\<lparr>op_ptr := own, op_buffer := Some (map garbage [0..<content_byte_size])\<rparr>) p1))
           else (Status_Success, content, p1)))"

section \<open>The final response\<close>

text \<open>The shape without the batch dimension, and its element count in a \<open>size_t\<close>.\<close>

fun batch1_shape :: "bool \<Rightarrow> int list \<Rightarrow> int list \<Rightarrow> 64 word \<Rightarrow> int list \<times> 64 word" where
  "batch1_shape skip_batch [] shape cnt = (shape, cnt)"
| "batch1_shape skip_batch (d # ds) shape cnt =
     (if \<not> skip_batch then batch1_shape False ds (shape @ [d]) (cnt * of_int d)
      else batch1_shape False ds shape cnt)"

fun DataType_Name :: "data_type \<Rightarrow> string" where
  "DataType_Name TYPE_INVALID = ''TYPE_INVALID''"
| "DataType_Name TYPE_BOOL = ''TYPE_BOOL''"
| "DataType_Name TYPE_UINT8 = ''TYPE_UINT8''"
| "DataType_Name TYPE_UINT16 = ''TYPE_UINT16''"
| "DataType_Name TYPE_UINT32 = ''TYPE_UINT32''"
| "DataType_Name TYPE_UINT64 = ''TYPE_UINT64''"
| "DataType_Name TYPE_INT8 = ''TYPE_INT8''"
| "DataType_Name TYPE_INT16 = ''TYPE_INT16''"
| "DataType_Name TYPE_INT32 = ''TYPE_INT32''"
| "DataType_Name TYPE_INT64 = ''TYPE_INT64''"
| "DataType_Name TYPE_FP16 = ''TYPE_FP16''"
| "DataType_Name TYPE_FP32 = ''TYPE_FP32''"
| "DataType_Name TYPE_FP64 = ''TYPE_FP64''"
| "DataType_Name TYPE_STRING = ''TYPE_STRING''"
| "DataType_Name (TYPE_OTHER n) = []"

text \<open>What the conversion of values needs of the standard library and of floats.\<close>

record value_ops =
  vo_sort :: "(nat \<Rightarrow> nat \<Rightarrow> bool) \<Rightarrow> nat list \<Rightarrow> nat list"
  vo_float_gt :: "bytes \<Rightarrow> bytes \<Rightarrow> bool"
  vo_to_float :: "data_type \<Rightarrow> bytes \<Rightarrow> 32 word"

fun finalize_outputs ::
  "value_ops \<Rightarrow> inference_backend \<Rightarrow> 'a response_provider_scheme \<Rightarrow> nat \<Rightarrow> provider_output list \<Rightarrow>
   response_header \<Rightarrow> status \<times> response_header" where
  "finalize_outputs ops is p batch_size [] hdr = (Status_Success, hdr)"
| "finalize_outputs ops is p batch_size (o' # os) hdr =
     (case GetOutput is (op_name o') of
        Inl e \<Rightarrow> (e, hdr)
      | Inr output_config \<Rightarrow>
          (let (batch1_backend_shape, batch1_element_count) =
                 batch1_shape (mc_max_batch_size (ib_config is) \<noteq> 0) (op_shape o') [] 1;
               expected_shape = (case mo_reshape output_config of Some s \<Rightarrow> s | None \<Rightarrow> mo_dims output_config)
           in if \<not> CompareDimsWithWildcard expected_shape batch1_backend_shape then
                (Status INVALID_ARG (''output '' @ quote (op_name o') @ '' for model '' @ quote (ib_Name is) @
                   '' has shape '' @ DimsListToString batch1_backend_shape @
                   '' but model configuration specifies shape '' @ DimsListToString expected_shape), hdr)
              else
                (let poutput = \<lparr>so_name = op_name o', so_raw = None, so_batch_classes = []\<rparr>;
                     dt = mo_data_type output_config
                 in if op_cls_count o' = 0 then
                      finalize_outputs ops is p batch_size os
                        (hdr\<lparr>sh_output := sh_output hdr @ [poutput\<lparr>so_raw := Some
                           \<lparr>rr_dims = (if mo_reshape output_config \<noteq> None then mo_dims output_config
                                       else batch1_backend_shape),
                            rr_batch_byte_size = of_nat (op_byte_size o')\<rparr>\<rparr>]\<rparr>)
                    else if dt \<in> set class_types then
                      finalize_outputs ops is p batch_size os
                        (hdr\<lparr>sh_output := sh_output hdr @
                           [AddClassResults (vo_sort ops) (value_gt (vo_float_gt ops) dt) (vo_to_float ops dt) poutput
                              (elements (nat (GetDataTypeByteSize dt))
                                 (case op_buffer o' of Some b \<Rightarrow> b | None \<Rightarrow> []))
                              (unat batch1_element_count) batch_size (op_cls_count o')
                              (rv_label_provider p) (rv_secondary_label_provider_map p)]\<rparr>)
                    else
                      (Status INVALID_ARG (''class result not available for output '' @ quote (op_name o') @
                         '' due to unsupported type '' @ quote (DataType_Name dt)),
                       hdr\<lparr>sh_output := sh_output hdr @ [poutput]\<rparr>))))"

definition FinalizeResponse ::
  "value_ops \<Rightarrow> inference_backend \<Rightarrow> 'a response_provider_scheme \<Rightarrow> status \<times> 'a response_provider_scheme" where
  "FinalizeResponse ops is p =
     (let hdr = response_header_clear\<lparr>sh_model_name := ib_Name is, sh_model_version := ib_version is,
                  sh_batch_size := rh_batch_size (rv_request_header p)\<rparr>;
          (st, hdr') = finalize_outputs ops is p (unat (rh_batch_size (rv_request_header p))) (rv_outputs p) hdr
      in (st, p\<lparr>rv_response_header := hdr'\<rparr>))"

end
