(* ===== verification/Ensemble_Scheduler.thy ===== *)
theory Ensemble_Scheduler
  imports Provider_Utils Response_Provider
begin

text \<open>
  \<open>src/core/ensemble_scheduler.cc\<close>: how an ensemble request flows through the steps of its ensemble.
  A context keeps the data of every tensor; each completed step updates tensors, the steps whose
  inputs are all set are started, and the request completes when no step is under way. Parameters
  are the creation of backend handles, the operations on values and the virtual
  \<open>AllocateOutputBuffer\<close> of the request's response provider (\<open>Response_Provider\<close> has its variants).
\<close>

section \<open>The ensemble\<close>

text \<open>Unordered maps are association lists in the order of their iteration, sets are sorted lists.\<close>

definition emplace :: "'k \<Rightarrow> 'v \<Rightarrow> ('k \<times> 'v) list \<Rightarrow> ('k \<times> 'v) list" where
  "emplace k v m = (if k \<in> fst ` set m then m else m @ [(k, v)])"

definition set_insert :: "nat \<Rightarrow> nat list \<Rightarrow> nat list" where
  "set_insert x xs = (if x \<in> set xs then xs else insort x xs)"

record step_info =
  si_model_name :: string
  si_model_version :: int
  si_input_to_tensor :: "(string \<times> nat) list"
  si_output_to_tensor :: "(string \<times> nat) list"

record ensemble_info =
  ei_ensemble_name :: string
  ei_allow_batching :: bool
  ei_input_to_tensor :: "(string \<times> nat) list"
  ei_output_to_tensor :: "(string \<times> nat) list"
  ei_steps :: "step_info list"
  ei_tensor_to_step :: "nat list list"

section \<open>Building the ensemble from its configuration\<close>

text \<open>The tensor of a name: its index, and the tensors with it.\<close>

definition tensor_index ::
  "string \<Rightarrow> (string \<rightharpoonup> nat) \<Rightarrow> nat list list \<Rightarrow> nat \<times> (string \<rightharpoonup> nat) \<times> nat list list" where
  "tensor_index name name_to_idx tensors =
     (case name_to_idx name of
        None \<Rightarrow> (length tensors, name_to_idx(name \<mapsto> length tensors), tensors @ [[]])
      | Some idx \<Rightarrow> (idx, name_to_idx, tensors))"

text \<open>The loops over the inputs and outputs of the ensemble reserve a tensor for each.\<close>

fun reserve_tensors ::
  "string list \<Rightarrow> (string \<times> nat) list \<Rightarrow> (string \<rightharpoonup> nat) \<Rightarrow> nat list list \<Rightarrow>
   (string \<times> nat) list \<times> (string \<rightharpoonup> nat) \<times> nat list list" where
  "reserve_tensors [] to_tensor name_to_idx tensors = (to_tensor, name_to_idx, tensors)"
| "reserve_tensors (name # names) to_tensor name_to_idx tensors =
     (let idx = length tensors in
      reserve_tensors names (AList.update name idx to_tensor) (name_to_idx(name \<mapsto> idx)) (tensors @ [[]]))"

fun add_step_inputs ::
  "nat \<Rightarrow> (string \<times> string) list \<Rightarrow> (string \<times> nat) list \<Rightarrow> (string \<rightharpoonup> nat) \<Rightarrow> nat list list \<Rightarrow>
   (string \<times> nat) list \<times> (string \<rightharpoonup> nat) \<times> nat list list" where
  "add_step_inputs step_idx [] to_tensor name_to_idx tensors = (to_tensor, name_to_idx, tensors)"
| "add_step_inputs step_idx ((first, second) # ps) to_tensor name_to_idx tensors =
     (let (idx, name_to_idx', tensors') = tensor_index second name_to_idx tensors in
      add_step_inputs step_idx ps (emplace first idx to_tensor) name_to_idx'
        (tensors'[idx := set_insert step_idx (tensors' ! idx)]))"

fun add_step_outputs ::
  "(string \<times> string) list \<Rightarrow> (string \<times> nat) list \<Rightarrow> (string \<rightharpoonup> nat) \<Rightarrow> nat list list \<Rightarrow>
   (string \<times> nat) list \<times> (string \<rightharpoonup> nat) \<times> nat list list" where
  "add_step_outputs [] to_tensor name_to_idx tensors = (to_tensor, name_to_idx, tensors)"
| "add_step_outputs ((first, second) # ps) to_tensor name_to_idx tensors =
     (let (idx, name_to_idx', tensors') = tensor_index second name_to_idx tensors in
      add_step_outputs ps (emplace first idx to_tensor) name_to_idx' tensors')"

fun add_steps ::
  "ensemble_step list \<Rightarrow> step_info list \<Rightarrow> (string \<rightharpoonup> nat) \<Rightarrow> nat list list \<Rightarrow>
   step_info list \<times> nat list list" where
  "add_steps [] steps name_to_idx tensors = (steps, tensors)"
| "add_steps (e # es) steps name_to_idx tensors =
     (let (ins, n1, t1) = add_step_inputs (length steps) (es_input_map e) [] name_to_idx tensors;
          (outs, n2, t2) = add_step_outputs (es_output_map e) [] n1 t1
      in add_steps es
           (steps @ [\<lparr>si_model_name = es_model_name e, si_model_version = es_model_version e,
                      si_input_to_tensor = ins, si_output_to_tensor = outs\<rparr>]) n2 t2)"

definition EnsembleScheduler :: "model_config \<Rightarrow> ensemble_info" where
  "EnsembleScheduler config =
     (let (ins, n1, t1) = reserve_tensors (map mi_name (mc_input config)) [] Map.empty [];
          (outs, n2, t2) = reserve_tensors (map mo_name (mc_output config)) [] n1 t1;
          (steps, t3) = add_steps (ensemble_steps config) [] n2 t2
      in \<lparr>ei_ensemble_name = mc_name config, ei_allow_batching = (mc_max_batch_size config \<noteq> 0),
          ei_input_to_tensor = ins, ei_output_to_tensor = outs, ei_steps = steps,
          ei_tensor_to_step = t3\<rparr>)"

section \<open>The context of a request\<close>

record 'a ensemble_env =
  ee_backend :: "string \<Rightarrow> int \<Rightarrow> status + inference_backend"
  ee_ops :: value_ops
  ee_allocate :: "string \<Rightarrow> nat \<Rightarrow> int list \<Rightarrow> 'a response_provider_scheme \<Rightarrow>
    status \<times> out_ptr \<times> 'a response_provider_scheme"

record running_step =
  ru_backend :: inference_backend
  ru_request_provider :: infer_request_provider
  ru_response_provider :: internal_provider
  ru_request_status :: request_status
  ru_step_idx :: nat

text \<open>
  \<open>ec_copied\<close> and \<open>ec_completed\<close> record effects: the bytes copied to the buffers of the response, the
  statuses the completion function was called with.
\<close>

record 'a ensemble_context =
  ec_info :: ensemble_info
  ec_inflight_step_counter :: nat
  ec_tensor_data :: "(request_input \<times> system_memory option) list"
  ec_handles :: "string \<times> int \<rightharpoonup> inference_backend"
  ec_flags :: "32 word"
  ec_correlation_id :: "64 word"
  ec_batch_size :: "32 word"
  ec_ensemble_status :: status
  ec_request_provider :: infer_request_provider
  ec_response_provider :: "'a response_provider_scheme"
  ec_no_label_tensors :: "nat \<rightharpoonup> string"
  ec_copied :: "(out_ptr \<times> bytes) list"
  ec_completed :: "status list"

definition request_input_clear :: request_input where
  "request_input_clear = \<lparr>ri_name = [], ri_dims = [], ri_batch_byte_size = 0\<rparr>"

fun open_handles ::
  "(string \<Rightarrow> int \<Rightarrow> status + inference_backend) \<Rightarrow> step_info list \<Rightarrow> (string \<times> int \<rightharpoonup> inference_backend) \<Rightarrow>
   status \<times> (string \<times> int \<rightharpoonup> inference_backend)" where
  "open_handles create [] handles = (Status_Success, handles)"
| "open_handles create (si # sis) handles =
     (case handles (si_model_name si, si_model_version si) of
        Some backend \<Rightarrow> open_handles create sis handles
      | None \<Rightarrow>
          (case create (si_model_name si) (si_model_version si) of
             Inl e \<Rightarrow> (e, handles)
           | Inr backend \<Rightarrow> open_handles create sis (handles((si_model_name si, si_model_version si) \<mapsto> backend))))"

text \<open>An input without a tensor sets the status; the loop goes on.\<close>

fun bind_ensemble_inputs ::
  "request_input list \<Rightarrow> 'a ensemble_context \<Rightarrow> 'a ensemble_context" where
  "bind_ensemble_inputs [] c = c"
| "bind_ensemble_inputs (input # ins) c =
     (case map_of (ei_input_to_tensor (ec_info c)) (ri_name input) of
        Some idx \<Rightarrow>
          (let data = (case provider_GetSystemMemory (ri_name input) (ec_request_provider c) of
                         Inl e \<Rightarrow> snd (ec_tensor_data c ! idx)
                       | Inr m \<Rightarrow> Some m)
           in bind_ensemble_inputs ins (c\<lparr>ec_tensor_data := (ec_tensor_data c)[idx := (input, data)]\<rparr>))
      | None \<Rightarrow>
          bind_ensemble_inputs ins
            (c\<lparr>ec_ensemble_status := Status INVALID_ARG (''unexpected input '' @ quote (ri_name input) @
                 '' in request header that does not map to any ensemble inputs'')\<rparr>))"

fun no_labels :: "label_map \<Rightarrow> (string \<times> nat) list \<Rightarrow> (nat \<rightharpoonup> string) \<Rightarrow> (nat \<rightharpoonup> string)" where
  "no_labels label_provider [] m = m"
| "no_labels label_provider ((name, idx) # ps) m =
     no_labels label_provider ps (if GetLabel label_provider name 0 = [] then m(idx \<mapsto> name) else m)"

definition EnsembleContext ::
  "'a ensemble_env \<Rightarrow> ensemble_info \<Rightarrow> infer_request_provider \<Rightarrow> 'a response_provider_scheme \<Rightarrow>
   'a ensemble_context" where
  "EnsembleContext env info rp resp =
     (let (st, handles) = open_handles (ee_backend env) (ei_steps info) Map.empty;
          c = \<lparr>ec_info = info, ec_inflight_step_counter = 0,
               ec_tensor_data = replicate (length (ei_tensor_to_step info)) (request_input_clear, None),
               ec_handles = handles, ec_flags = 0, ec_correlation_id = 0, ec_batch_size = 0,
               ec_ensemble_status = st, ec_request_provider = rp, ec_response_provider = resp,
               ec_no_label_tensors = Map.empty, ec_copied = [], ec_completed = []\<rparr>;
          h = ip_request_header rp;
          c1 = (if IsOk st then
                  bind_ensemble_inputs (rh_input h)
                    (c\<lparr>ec_batch_size := rh_batch_size h, ec_correlation_id := rh_correlation_id h,
                       ec_flags := rh_flags h\<rparr>)
                else c)
      in if IsOk (ec_ensemble_status c1) then
           c1\<lparr>ec_no_label_tensors :=
                no_labels (rv_label_provider resp) (ei_output_to_tensor info) Map.empty\<rparr>
         else c1)"

section \<open>The steps of a context\<close>

text \<open>The loop over the outputs of a step's response; \<open>updated\<close> collects the tensors it sets.\<close>

definition set_label_provider ::
  "internal_provider \<Rightarrow> string \<Rightarrow> nat \<Rightarrow> 'a ensemble_context \<Rightarrow> 'a ensemble_context" where
  "set_label_provider p name tensor c =
     (case ec_no_label_tensors c tensor of
        None \<Rightarrow> c
      | Some ensemble_output \<Rightarrow>
          (let provider = (case GetSecondaryLabelProvider name p of
                             Some provider \<Rightarrow> provider
                           | None \<Rightarrow> (name, rv_label_provider p))
           in c\<lparr>ec_response_provider := SetSecondaryLabelProvider ensemble_output provider (ec_response_provider c),
                ec_no_label_tensors := (ec_no_label_tensors c)(tensor := None)\<rparr>))"

fun update_outputs ::
  "internal_provider \<Rightarrow> (string \<times> nat) list \<Rightarrow> response_output list \<Rightarrow> 'a ensemble_context \<Rightarrow> nat list \<Rightarrow>
   status \<times> nat list \<times> 'a ensemble_context" where
  "update_outputs p to_tensor [] c updated = (Status_Success, updated, c)"
| "update_outputs p to_tensor (out # outs) c updated =
     (case so_raw out of
        None \<Rightarrow>
          (Status INTERNAL (''internal response header should return output '' @ quote (so_name out) @
             '' as raw data instead of classification result''), updated, c)
      | Some raw \<Rightarrow>
          (case map_of to_tensor (so_name out) of
             None \<Rightarrow>
               (Status INTERNAL (''internal response header specified output '' @ quote (so_name out) @
                  '' that does not map to any ensemble tensors''), updated, c)
           | Some tensor \<Rightarrow>
               (let (input, data) = ec_tensor_data c ! tensor;
                    input' = input\<lparr>ri_dims := rr_dims raw, ri_batch_byte_size := rr_batch_byte_size raw\<rparr>
                in case internal_GetSystemMemory (so_name out) p of
                     Inl e \<Rightarrow> (e, updated, c\<lparr>ec_tensor_data := (ec_tensor_data c)[tensor := (input', data)]\<rparr>)
                   | Inr m \<Rightarrow>
                       update_outputs p to_tensor outs
                         (set_label_provider p (so_name out) tensor
                            (c\<lparr>ec_tensor_data := (ec_tensor_data c)[tensor := (input', Some m)]\<rparr>))
                         (updated @ [tensor]))))"

definition set_tensors :: "'a ensemble_context \<Rightarrow> nat list" where
  "set_tensors c =
     filter (\<lambda>i. snd (ec_tensor_data c ! i) \<noteq> None) [0..<length (ec_tensor_data c)]"

definition UpdateEnsembleState ::
  "value_ops \<Rightarrow> running_step option \<Rightarrow> 'a ensemble_context \<Rightarrow> status \<times> nat list \<times> 'a ensemble_context" where
  "UpdateEnsembleState ops completed_step c =
     (case completed_step of
        None \<Rightarrow> (Status_Success, set_tensors c, c)
      | Some s \<Rightarrow>
          (let c1 = c\<lparr>ec_inflight_step_counter := ec_inflight_step_counter c - 1\<rparr> in
           if rs_code (ru_request_status s) \<noteq> SUCCESS then
             (Status (rs_code (ru_request_status s)) (rs_msg (ru_request_status s)), [], c1)
           else
             (let (st, p) = FinalizeResponse ops (ru_backend s) (ru_response_provider s) in
              if \<not> IsOk st then (st, [], c1)
              else update_outputs p (si_output_to_tensor (ei_steps (ec_info c) ! ru_step_idx s))
                     (sh_output (rv_response_header p)) c1 [])))"

definition step_ready :: "'a ensemble_context \<Rightarrow> nat \<Rightarrow> bool" where
  "step_ready c idx \<longleftrightarrow>
     list_all (\<lambda>(name, tensor). snd (ec_tensor_data c ! tensor) \<noteq> None)
       (si_input_to_tensor (ei_steps (ec_info c) ! idx))"

definition next_step_idx :: "'a ensemble_context \<Rightarrow> nat list \<Rightarrow> nat list" where
  "next_step_idx c updated_tensors =
     fold set_insert
       (filter (step_ready c) (concat (map (\<lambda>t. ei_tensor_to_step (ec_info c) ! t) updated_tensors))) []"

definition step_header :: "'a ensemble_context \<Rightarrow> step_info \<Rightarrow> request_header" where
  "step_header c si =
     request_header_clear\<lparr>rh_correlation_id := ec_correlation_id c, rh_batch_size := ec_batch_size c,
       rh_flags := ec_flags c,
       rh_input := map (\<lambda>(name, tensor). (fst (ec_tensor_data c ! tensor))\<lparr>ri_name := name\<rparr>) (si_input_to_tensor si),
       rh_output := map (\<lambda>(name, tensor). \<lparr>ro_name = name, ro_cls = None\<rparr>) (si_output_to_tensor si)\<rparr>"

text \<open>The handles of all models are open when a step starts.\<close>

definition InitStep :: "nat \<Rightarrow> 'a ensemble_context \<Rightarrow> status + running_step" where
  "InitStep step_idx c =
     (let si = ei_steps (ec_info c) ! step_idx;
          backend = the (ec_handles c (si_model_name si, si_model_version si));
          input_map = (\<lambda>name. case map_of (si_input_to_tensor si) name of
                                None \<Rightarrow> None
                              | Some tensor \<Rightarrow> snd (ec_tensor_data c ! tensor));
          (st, h) = NormalizeRequestHeader backend (step_header c si)
      in if \<not> IsOk st then Inl st
         else bind_status (provider_Create (si_model_name si) (si_model_version si) h input_map) (\<lambda>rp.
           Inr \<lparr>ru_backend = backend, ru_request_provider = rp,
                ru_response_provider = internal_Create (ip_request_header rp) (ib_label_provider backend),
                ru_request_status = request_status_clear, ru_step_idx = step_idx\<rparr>))"

fun init_steps :: "nat list \<Rightarrow> 'a ensemble_context \<Rightarrow> status \<times> running_step list" where
  "init_steps [] c = (Status_Success, [])"
| "init_steps (idx # idxs) c =
     (case InitStep idx c of
        Inl e \<Rightarrow> (e, [])
      | Inr s \<Rightarrow> (let (st, steps) = init_steps idxs c in (st, s # steps)))"

definition GetNextSteps ::
  "nat list \<Rightarrow> 'a ensemble_context \<Rightarrow> status \<times> running_step list \<times> 'a ensemble_context" where
  "GetNextSteps updated_tensors c =
     (let (st, steps) = init_steps (next_step_idx c updated_tensors) c in
      if \<not> IsOk st then (st, steps, c)
      else (Status_Success, steps,
            c\<lparr>ec_inflight_step_counter := ec_inflight_step_counter c + length steps\<rparr>))"

section \<open>Completion\<close>

text \<open>The loop that copies the blocks of a tensor to the output buffer.\<close>

function copy_blocks :: "system_memory \<Rightarrow> nat \<Rightarrow> bytes" where
  "copy_blocks m idx = (case BufferAt m idx of None \<Rightarrow> [] | Some b \<Rightarrow> b @ copy_blocks m (idx + 1))"
  by auto

termination
  by (relation "measure (\<lambda>(m, idx). length (memory_blocks m) - idx)")
    (auto simp: mem.buffer_at_blocks split: if_splits)

declare copy_blocks.simps [simp del]

fun set_ensemble_outputs ::
  "'a ensemble_env \<Rightarrow> (string \<times> nat) list \<Rightarrow> 'a ensemble_context \<Rightarrow> status \<times> 'a ensemble_context" where
  "set_ensemble_outputs env [] c = (Status_Success, c)"
| "set_ensemble_outputs env ((name, tensor) # ps) c =
     (if \<not> RequiresOutput name (ec_response_provider c) then set_ensemble_outputs env ps c
      else
        (let (input, data) = ec_tensor_data c ! tensor in
         case data of
           None \<Rightarrow>
             (Status INVALID_ARG (''unexpected deadlock, output '' @ quote name @
                '' is not set while no more ensemble steps can be made''), c)
         | Some m \<Rightarrow>
             (if ri_batch_byte_size input \<noteq> TotalByteSize m then
                (Status INTERNAL (''unexpected size for output '' @ quote name @ '', byte-size '' @
                   show_nat (unat (ri_batch_byte_size input)) @ '' does not equal '' @
                   show_nat (unat (TotalByteSize m))), c)
              else
                (let shape = (if ei_allow_batching (ec_info c) then [uint (ec_batch_size c)] else []) @ ri_dims input;
                     (st, buffer, p) = ee_allocate env name (unat (ri_batch_byte_size input)) shape
                                         (ec_response_provider c);
                     c1 = c\<lparr>ec_response_provider := p\<rparr>
                 in if \<not> IsOk st then (st, c1)
                    else set_ensemble_outputs env ps
                           (c1\<lparr>ec_copied := ec_copied c1 @ [(buffer, copy_blocks m 0)]\<rparr>)))))"

definition CheckAndSetEnsembleOutput :: "'a ensemble_env \<Rightarrow> 'a ensemble_context \<Rightarrow> status \<times> 'a ensemble_context" where
  "CheckAndSetEnsembleOutput env c = set_ensemble_outputs env (ei_output_to_tensor (ec_info c)) c"

definition FinishEnsemble :: "'a ensemble_env \<Rightarrow> 'a ensemble_context \<Rightarrow> 'a ensemble_context" where
  "FinishEnsemble env c =
     (let (st, c1) = (if IsOk (ec_ensemble_status c) then CheckAndSetEnsembleOutput env c
                      else (ec_ensemble_status c, c));
          st' = (if \<not> IsOk st then Status (st_code st) (''in ensemble '' @
                   quote (ei_ensemble_name (ec_info c)) @ '', '' @ st_msg st) else st)
      in c1\<lparr>ec_ensemble_status := st', ec_completed := ec_completed c1 @ [st']\<rparr>)"

section \<open>Proceeding\<close>

text \<open>The critical section: the steps that are ready, empty when the request has completed.\<close>

definition PrepareSteps ::
  "'a ensemble_env \<Rightarrow> running_step option \<Rightarrow> 'a ensemble_context \<Rightarrow> running_step list \<times> 'a ensemble_context" where
  "PrepareSteps env completed_step c =
     (let c1 = (case completed_step of
                  None \<Rightarrow> (if \<not> IsOk (ec_ensemble_status c) then FinishEnsemble env c else c)
                | Some s \<Rightarrow> c) in
      if IsOk (ec_ensemble_status c1) then
        (let (st, updated, c2) = UpdateEnsembleState (ee_ops env) completed_step c1;
             (st', res, c3) = (if IsOk st then GetNextSteps updated c2 else (st, [], c2));
             c4 = c3\<lparr>ec_ensemble_status := st'\<rparr>
         in if \<not> IsOk st' \<or> ec_inflight_step_counter c4 = 0 then ([], FinishEnsemble env c4)
            else (res, c4))
      else ([], c1))"

text \<open>\<open>Proceed\<close> starts the steps when the status it gets back is not an error.\<close>

definition Proceed ::
  "'a ensemble_env \<Rightarrow> running_step option \<Rightarrow> 'a ensemble_context \<Rightarrow> running_step list \<times> 'a ensemble_context" where
  "Proceed env completed_step c =
     (let (ready_steps, c') = PrepareSteps env completed_step c
      in (if IsOk (ec_ensemble_status c') then ready_steps else [], c'))"

text \<open>
  A request under way: its context and the steps the server executes. Steps complete in any order,
  each with any request status and any state of its response provider.
\<close>

record 'a ensemble_run =
  er_context :: "'a ensemble_context"
  er_running :: "running_step list"
  er_started :: "nat list"

definition Enqueue_ensemble ::
  "'a ensemble_env \<Rightarrow> ensemble_info \<Rightarrow> infer_request_provider \<Rightarrow> 'a response_provider_scheme \<Rightarrow> 'a ensemble_run" where
  "Enqueue_ensemble env info rp resp =
     (let (steps, c) = Proceed env None (EnsembleContext env info rp resp)
      in \<lparr>er_context = c, er_running = steps, er_started = map ru_step_idx steps\<rparr>)"

definition complete_step ::
  "'a ensemble_env \<Rightarrow> nat \<Rightarrow> request_status \<Rightarrow> internal_provider \<Rightarrow> 'a ensemble_run \<Rightarrow> 'a ensemble_run" where
  "complete_step env i rs p r =
     (let s = (er_running r ! i)\<lparr>ru_request_status := rs, ru_response_provider := p\<rparr>;
          (steps, c) = Proceed env (Some s) (er_context r)
      in \<lparr>er_context = c, er_running = take i (er_running r) @ drop (Suc i) (er_running r) @ steps,
          er_started = er_started r @ map ru_step_idx steps\<rparr>)"

inductive ensemble_proceeds :: "'a ensemble_env \<Rightarrow> 'a ensemble_run \<Rightarrow> 'a ensemble_run \<Rightarrow> bool" for env where
  complete: "i < length (er_running r) \<Longrightarrow> ensemble_proceeds env r (complete_step env i rs p r)"

end
