(* ===== verification/Ensemble_Graph.thy ===== *)
theory Ensemble_Graph
  imports Config_Utils
begin

text \<open>
  What the validation of an ensemble (\<open>BuildEnsembleGraph\<close> and
  \<open>ValidateEnsembleSchedulingConfig\<close> of \<open>src/core/model_config_utils.cc\<close>) establishes, stated on
  the steps of the configuration and not on the graph the code builds.
\<close>

section \<open>Specification\<close>

definition step_inputs :: "ensemble_step \<Rightarrow> string set" where
  "step_inputs e = snd ` set (es_input_map e)"

definition step_outputs :: "ensemble_step \<Rightarrow> string set" where
  "step_outputs e = snd ` set (es_output_map e)"

text \<open>The tensors that get data: the ensemble inputs, and the outputs of the steps that can run.\<close>

inductive available :: "ensemble_step list \<Rightarrow> string set \<Rightarrow> string \<Rightarrow> bool" for es ins where
  input: "n \<in> ins \<Longrightarrow> available es ins n"
| step: "e \<in> set es \<Longrightarrow> (\<And>p. p \<in> step_inputs e \<Longrightarrow> available es ins p) \<Longrightarrow>
    n \<in> step_outputs e \<Longrightarrow> available es ins n"

text \<open>The graph that represents a list of steps.\<close>

definition keys :: "(string \<times> 'a) list \<Rightarrow> string set" where
  "keys g = fst ` set g"

definition flagged :: "(string \<times> ensemble_tensor) list \<Rightarrow> string set" where
  "flagged g = {n. \<exists>v. map_of g n = Some v \<and> et_is_output v}"

definition represents :: "ensemble_step list \<Rightarrow> (string \<times> ensemble_tensor) list \<Rightarrow> bool" where
  "represents es g \<longleftrightarrow>
     keys g = (\<Union>e \<in> set es. step_inputs e \<union> step_outputs e) \<and>
     flagged g = (\<Union>e \<in> set es. step_outputs e) \<and>
     (\<forall>m n. m \<in> set (prev_of g n) \<longleftrightarrow> (\<exists>e \<in> set es. n \<in> step_outputs e \<and> m \<in> step_inputs e)) \<and>
     linked g"

section \<open>The graph is built from the steps\<close>

declare map_of_is_None [simp del]

lemma keys_append [simp]: "keys (g @ h) = keys g \<union> keys h"
  by (simp add: keys_def image_Un)

lemma keys_Nil [simp]: "keys [] = {}"
  by (simp add: keys_def)

lemma keys_Cons [simp]: "keys ((k, v) # g) = insert k (keys g)"
  by (simp add: keys_def)

lemma keys_map_entry [simp]: "keys (AList.map_entry k f g) = keys g"
  by (simp add: keys_def AList.dom_map_entry)

lemma map_of_keys: "map_of g k = None \<longleftrightarrow> k \<notin> keys g"
  by (simp add: keys_def map_of_is_None)

lemma keys_iff: "k \<in> keys g \<longleftrightarrow> (\<exists>v. map_of g k = Some v)"
  using map_of_keys [of g k] by (cases "map_of g k") auto

lemma keys_link [simp]: "keys (link_nodes out inp g) = keys g"
  by (simp add: link_nodes_def)

lemma map_of_map_entry: "map_of (AList.map_entry k f g) n = (if n = k then map_option f (map_of g k) else map_of g n)"
  by (induction g) auto

lemma prev_of_link:
  "prev_of (link_nodes out inp g) n = prev_of g n @ (if n = out \<and> out \<in> keys g then [inp] else [])"
  by (cases "map_of g out"; cases "map_of g inp")
    (auto simp: prev_of_def link_nodes_def map_of_map_entry keys_iff split: option.splits)

lemma next_of_link:
  "next_of (link_nodes out inp g) n = next_of g n @ (if n = inp \<and> inp \<in> keys g then [out] else [])"
  by (cases "map_of g out"; cases "map_of g inp")
    (auto simp: next_of_def link_nodes_def map_of_map_entry keys_iff split: option.splits)

lemma flagged_link [simp]: "flagged (link_nodes out inp g) = flagged g"
  by (auto simp: flagged_def link_nodes_def map_of_map_entry split: if_splits)

lemma linked_link: "linked g \<Longrightarrow> out \<in> keys g \<Longrightarrow> inp \<in> keys g \<Longrightarrow> linked (link_nodes out inp g)"
  by (auto simp: linked_def prev_of_link next_of_link)

lemma link_all:
  assumes "linked g" and "set outs \<subseteq> keys g" and "inp \<in> keys g"
  shows "linked (foldl (\<lambda>g out. link_nodes out inp g) g outs) \<and>
    keys (foldl (\<lambda>g out. link_nodes out inp g) g outs) = keys g \<and>
    flagged (foldl (\<lambda>g out. link_nodes out inp g) g outs) = flagged g \<and>
    (\<forall>n. set (prev_of (foldl (\<lambda>g out. link_nodes out inp g) g outs) n) =
       set (prev_of g n) \<union> (if n \<in> set outs then {inp} else {}))"
  using assms
proof (induction outs arbitrary: g)
  case (Cons out outs)
  then show ?case
    by (simp add: linked_link prev_of_link) auto
qed simp

text \<open>Adding a fresh node, or a flag, leaves the links as they are.\<close>

lemma prev_of_fresh [simp]: "t \<notin> keys g \<Longrightarrow> prev_of (g @ [(t, EnsembleTensor b)]) n = prev_of g n"
  by (auto simp: prev_of_def EnsembleTensor_def keys_iff map_add_def split: option.splits)

lemma next_of_fresh [simp]: "t \<notin> keys g \<Longrightarrow> next_of (g @ [(t, EnsembleTensor b)]) n = next_of g n"
  by (auto simp: next_of_def EnsembleTensor_def keys_iff map_add_def split: option.splits)

lemma flagged_fresh:
  "t \<notin> keys g \<Longrightarrow> flagged (g @ [(t, EnsembleTensor b)]) = flagged g \<union> (if b then {t} else {})"
  by (auto simp: flagged_def EnsembleTensor_def keys_iff map_add_def split: option.splits if_splits)

lemma prev_of_flag [simp]: "prev_of (AList.map_entry t (\<lambda>v. v\<lparr>et_is_output := True\<rparr>) g) n = prev_of g n"
  by (cases "map_of g t") (auto simp: prev_of_def map_of_map_entry)

lemma next_of_flag [simp]: "next_of (AList.map_entry t (\<lambda>v. v\<lparr>et_is_output := True\<rparr>) g) n = next_of g n"
  by (cases "map_of g t") (auto simp: next_of_def map_of_map_entry)

lemma flagged_flag:
  "t \<in> keys g \<Longrightarrow> flagged (AList.map_entry t (\<lambda>v. v\<lparr>et_is_output := True\<rparr>) g) = insert t (flagged g)"
  by (auto simp: flagged_def map_of_map_entry keys_iff split: if_splits)

lemma graph_outputs_Inr:
  "graph_outputs name om g outs = Inr (g', outs') \<Longrightarrow>
   outs' = outs @ map snd om \<and> keys g' = keys g \<union> snd ` set om \<and>
   (\<forall>n. prev_of g' n = prev_of g n \<and> next_of g' n = next_of g n) \<and>
   distinct (map snd om) \<and> snd ` set om \<inter> flagged g = {} \<and> flagged g' = flagged g \<union> snd ` set om"
proof (induction name om g outs rule: graph_outputs.induct)
  case (2 name k t om g outs)
  show ?case
  proof (cases "map_of g t")
    case None
    then have "t \<notin> keys g" "t \<notin> flagged g" by (auto simp: keys_iff flagged_def)
    then show ?thesis
      using 2 None by (auto simp: flagged_fresh)
  next
    case (Some v)
    then have "t \<in> keys g" by (auto simp: keys_iff)
    moreover have "\<not> et_is_output v" using "2.prems" Some by (auto split: if_splits)
    moreover from this have "t \<notin> flagged g" using Some by (simp add: flagged_def)
    ultimately show ?thesis
      using 2 Some by (auto simp: flagged_flag)
  qed
qed simp

lemma graph_inputs_Inr:
  "graph_inputs name model outs im mis g = Inr g' \<Longrightarrow> linked g \<Longrightarrow> set outs \<subseteq> keys g \<Longrightarrow>
   linked g' \<and> keys g' = keys g \<union> snd ` set im \<and> flagged g' = flagged g \<and>
   (\<forall>n. set (prev_of g' n) = set (prev_of g n) \<union> (if n \<in> set outs then snd ` set im else {}))"
proof (induction name model outs im mis g rule: graph_inputs.induct)
  case (2 name model outs k t im mis g)
  define g1 where "g1 = (if map_of g t = None then g @ [(t, EnsembleTensor False)] else g)"
  have g1: "linked g1" "keys g1 = insert t (keys g)" "flagged g1 = flagged g" "\<forall>n. prev_of g1 n = prev_of g n"
    using "2.prems" map_of_keys [of g t] by (auto simp: g1_def linked_def flagged_fresh)
  define g2 where "g2 = foldl (\<lambda>g out. link_nodes out t g) g1 outs"
  have g2: "linked g2" "keys g2 = insert t (keys g)" "flagged g2 = flagged g"
    "\<forall>n. set (prev_of g2 n) = set (prev_of g n) \<union> (if n \<in> set outs then {t} else {})"
    using link_all [OF g1(1) _, of outs t] g1 subset_insertI2 [OF "2.prems"(3)] by (auto simp: g2_def)
  have run: "k \<notin> set mis" "graph_inputs name model outs im (k # mis) g2 = Inr g'"
    using "2.prems"(1) by (auto simp: g1_def g2_def Let_def split: if_splits)
  have "linked g' \<and> keys g' = keys g2 \<union> snd ` set im \<and> flagged g' = flagged g2 \<and>
     (\<forall>n. set (prev_of g' n) = set (prev_of g2 n) \<union> (if n \<in> set outs then snd ` set im else {}))"
    using "2.IH" [OF run(1) g1_def] run(2) g2(1,2) "2.prems"(3) unfolding g2_def by blast
  then show ?case
    using g2 by auto
qed simp

text \<open>What the well-formed steps are: the outputs of all the steps are different tensors.\<close>

definition steps_ok :: "ensemble_step list \<Rightarrow> bool" where
  "steps_ok es \<longleftrightarrow>
     distinct (concat (map (map snd \<circ> es_output_map) es)) \<and>
     (\<forall>e \<in> set es. es_model_name e \<noteq> [] \<and> es_input_map e \<noteq> [] \<and> es_output_map e \<noteq> [])"

lemma set_concat_outputs [simp]:
  "set (concat (map (map snd \<circ> es_output_map) es)) = (\<Union>e \<in> set es. step_outputs e)"
  by (auto simp: step_outputs_def)

lemma steps_ok_snoc:
  "steps_ok (es @ [e]) \<longleftrightarrow> steps_ok es \<and> distinct (map snd (es_output_map e)) \<and>
     step_outputs e \<inter> (\<Union>e \<in> set es. step_outputs e) = {} \<and>
     es_model_name e \<noteq> [] \<and> es_input_map e \<noteq> [] \<and> es_output_map e \<noteq> []"
  unfolding steps_ok_def map_append concat_append distinct_append set_concat_outputs
  by (auto simp: step_outputs_def)

text \<open>A failure to build the graph is an error status.\<close>

lemma graph_outputs_Inl: "graph_outputs name om g outs = Inl e \<Longrightarrow> \<not> IsOk e"
  by (induction name om g outs rule: graph_outputs.induct) (auto split: option.splits if_splits)

lemma graph_inputs_Inl: "graph_inputs name model outs im mis g = Inl e \<Longrightarrow> \<not> IsOk e"
  by (induction name model outs im mis g rule: graph_inputs.induct) (auto simp: Let_def split: if_splits)

lemma graph_steps_Inl: "graph_steps name es g = Inl e \<Longrightarrow> \<not> IsOk e"
  by (induction name es g rule: graph_steps.induct)
    (auto simp: bind_status_def dest: graph_outputs_Inl split: sum.splits if_splits,
     use graph_inputs_Inl in blast)

lemma graph_error_not_ok: "BuildEnsembleGraph c = Inl e \<Longrightarrow> \<not> IsOk e"
  unfolding BuildEnsembleGraph_def by (rule graph_steps_Inl)

lemma represents_Nil [simp]: "represents [] []"
  by (auto simp: represents_def flagged_def prev_of_def next_of_def linked_def)

lemma graph_step_represents:
  assumes "represents es g" and "steps_ok es"
    and "graph_steps name [e] g = Inr g'"
  shows "represents (es @ [e]) g' \<and> steps_ok (es @ [e])"
proof -
  from assms(3) obtain g1 outs where ne: "es_model_name e \<noteq> []" "es_input_map e \<noteq> []" "es_output_map e \<noteq> []"
    and out: "graph_outputs name (es_output_map e) g [] = Inr (g1, outs)"
    and inp: "graph_inputs name (es_model_name e) outs (es_input_map e) [] g1 = Inr g'"
    by (auto simp: bind_status_def split: if_splits sum.splits)
  note o = graph_outputs_Inr [OF out]
  have l1: "linked g1" using assms(1) o by (auto simp: represents_def linked_def)
  have "set outs \<subseteq> keys g1" using o by auto
  note i = graph_inputs_Inr [OF inp l1 this]
  have outs: "set outs = step_outputs e" using o by (simp add: step_outputs_def)
  have k: "keys g' = (\<Union>e \<in> set (es @ [e]). step_inputs e \<union> step_outputs e)"
    using i o assms(1) by (auto simp: represents_def step_inputs_def step_outputs_def)
  have f: "flagged g' = (\<Union>e \<in> set (es @ [e]). step_outputs e)"
    using i o assms(1) by (auto simp: represents_def step_outputs_def)
  have p: "m \<in> set (prev_of g' n) \<longleftrightarrow> (\<exists>e \<in> set (es @ [e]). n \<in> step_outputs e \<and> m \<in> step_inputs e)" for m n
    using i o assms(1) outs unfolding represents_def by (auto simp: step_inputs_def)
  have d: "distinct (map snd (es_output_map e))" "step_outputs e \<inter> (\<Union>e \<in> set es. step_outputs e) = {}"
    using o assms(1) by (auto simp: represents_def step_outputs_def)
  then have "steps_ok (es @ [e])"
    using assms(2) ne by (simp add: steps_ok_snoc)
  then show ?thesis using k f p i by (simp add: represents_def)
qed

lemma graph_steps_Cons:
  "graph_steps name (e # es) g = bind_status (graph_steps name [e] g) (graph_steps name es)"
  by (auto simp: bind_status_def split: sum.splits)

lemma graph_steps_represents:
  "graph_steps name es g = Inr g' \<Longrightarrow> represents es0 g \<Longrightarrow> steps_ok es0 \<Longrightarrow>
   represents (es0 @ es) g' \<and> steps_ok (es0 @ es)"
proof (induction es arbitrary: es0 g)
  case (Cons e es)
  from Cons.prems(1) obtain g1 where g1: "graph_steps name [e] g = Inr g1" "graph_steps name es g1 = Inr g'"
    unfolding graph_steps_Cons [of name e es] by (auto simp: bind_status_def split: sum.splits)
  from graph_step_represents [OF Cons.prems(2,3) g1(1)] Cons.IH [OF g1(2)]
  have "represents ((es0 @ [e]) @ es) g' \<and> steps_ok ((es0 @ [e]) @ es)" by blast
  then show ?case by simp
qed simp

lemma BuildEnsembleGraph_represents:
  "BuildEnsembleGraph c = Inr g \<Longrightarrow> represents (ensemble_steps c) g \<and> steps_ok (ensemble_steps c)"
  using graph_steps_represents [of "mc_name c" "ensemble_steps c" "[]" g "[]"]
  by (simp add: BuildEnsembleGraph_def steps_ok_def)

text \<open>On a graph that represents the steps, the data flow computes the available tensors.\<close>

lemma steps_ok_writer:
  "steps_ok es \<Longrightarrow> e \<in> set es \<Longrightarrow> e' \<in> set es \<Longrightarrow> n \<in> step_outputs e \<Longrightarrow> n \<in> step_outputs e' \<Longrightarrow> e = e'"
proof (induction es rule: rev_induct)
  case (snoc x es)
  then show ?case unfolding steps_ok_snoc by auto
qed simp

lemma produced_available:
  assumes "represents es g" and "steps_ok es"
  shows "produced g ins n \<longleftrightarrow> available es ins n"
proof
  assume "produced g ins n"
  then show "available es ins n"
  proof (induction rule: produced.induct)
    case (feed m n)
    have "m \<in> set (prev_of g n)" using feed.hyps assms(1) by (auto simp: represents_def linked_def)
    then obtain e where e: "e \<in> set es" "n \<in> step_outputs e"
      using assms(1) by (auto simp: represents_def)
    have "available es ins p" if "p \<in> step_inputs e" for p
      using feed.IH(2) assms(1) e that by (auto simp: represents_def)
    then show ?case using e available.step by blast
  qed (rule available.input)
next
  assume "available es ins n"
  then show "produced g ins n"
  proof (induction rule: available.induct)
    case (step e n)
    have "e' = e" if "e' \<in> set es" "n \<in> step_outputs e'" for e'
      using steps_ok_writer [OF assms(2) that(1) step(1) that(2) step(3)] .
    moreover have "m \<in> set (prev_of g n) \<longleftrightarrow> (\<exists>e \<in> set es. n \<in> step_outputs e \<and> m \<in> step_inputs e)" for m
      using assms(1) by (simp add: represents_def)
    ultimately have prev: "set (prev_of g n) = step_inputs e"
      using step(1,3) by blast
    have "es_input_map e \<noteq> []" using assms(2) step(1) by (simp add: steps_ok_def)
    then obtain p where "p \<in> step_inputs e" unfolding step_inputs_def by (cases "es_input_map e") auto
    moreover from this have "n \<in> set (next_of g p)"
      using assms(1) prev unfolding represents_def linked_def by metis
    ultimately show ?case
      using step.IH prev by (intro produced.feed [of g ins p n]) auto
  qed (rule produced.input)
qed

lemma available_input_cases:
  "available es ins n \<Longrightarrow> n \<in> ins \<or>
   (\<exists>e \<in> set es. n \<in> step_outputs e \<and> (\<forall>p \<in> step_inputs e. available es ins p))"
  by (induction rule: available.induct) auto

section \<open>The checks around the data flow\<close>

lemma IsOk_check_inputs_mapped [simp]:
  "IsOk (check_inputs_mapped name g is) \<longleftrightarrow> mi_name ` set is \<subseteq> keys g"
  by (induction "is") (auto simp: map_of_keys)

lemma IsOk_check_outputs_ready [simp]:
  "IsOk (check_outputs_ready name g ready os) \<longleftrightarrow> mo_name ` set os \<subseteq> keys g \<inter> set ready"
  by (induction os) (auto simp: map_of_keys)

lemma IsOk_check_redundant [simp]:
  "IsOk (check_redundant name outs ready g) \<longleftrightarrow>
   (\<forall>(n, v) \<in> set g. n \<in> set outs \<or> n \<in> set ready \<and> ln_next_nodes v \<noteq> [])"
  by (induction name outs ready g rule: check_redundant.induct) auto

definition input_names :: "model_config \<Rightarrow> string set" where
  "input_names c = mi_name ` set (mc_input c)"

definition output_names :: "model_config \<Rightarrow> string set" where
  "output_names c = mo_name ` set (mc_output c)"

definition tensors :: "model_config \<Rightarrow> string set" where
  "tensors c = (\<Union>e \<in> set (ensemble_steps c). step_inputs e \<union> step_outputs e)"

definition dead_end :: "model_config \<Rightarrow> string \<Rightarrow> bool" where
  "dead_end c t \<longleftrightarrow> t \<notin> output_names c \<and> (\<forall>e \<in> set (ensemble_steps c). t \<notin> step_inputs e)"

text \<open>What acceptance means for the graph the validator built.\<close>

lemma ValidateEnsembleSchedulingConfig_graph:
  assumes "IsOk (ValidateEnsembleSchedulingConfig c)"
  obtains g where "BuildEnsembleGraph c = Inr g" and "ensemble_steps c \<noteq> []"
    and "mc_platform c = kEnsemblePlatform"
    and "input_names c \<subseteq> keys g" and "output_names c \<subseteq> keys g"
    and "\<forall>n \<in> output_names c. produced g (input_names c) n"
    and "\<forall>(n, v) \<in> set g. n \<in> output_names c \<or> produced g (input_names c) n \<and> ln_next_nodes v \<noteq> []"
proof -
  from assms obtain g where g: "BuildEnsembleGraph c = Inr g"
    by (auto simp: ValidateEnsembleSchedulingConfig_def Let_def graph_error_not_ok
        split: if_splits sum.splits)
  have "linked g" using BuildEnsembleGraph_represents [OF g] by (simp add: represents_def)
  note flow = data_flow_produced [OF this, of _ "map mi_name (mc_input c)"]
  have out: "\<forall>n \<in> output_names c. produced g (input_names c) n"
    using assms g flow
    by (auto simp: ValidateEnsembleSchedulingConfig_def Let_def input_names_def output_names_def
        split: if_splits)
  show ?thesis
    using assms g flow out that [OF g]
    by (auto simp: ValidateEnsembleSchedulingConfig_def Let_def input_names_def output_names_def
        split: if_splits)
qed


text \<open>A two-step pipeline: the first model feeds the second.\<close>

definition pipeline_config :: model_config where
  "pipeline_config = model_config_clear\<lparr>mc_name := ''bert'', mc_platform := ''ensemble'',
     mc_input := [\<lparr>mi_name = ''TEXT'', mi_data_type = TYPE_STRING, mi_format = FORMAT_NONE,
       mi_dims = [1], mi_reshape = None\<rparr>],
     mc_output := [\<lparr>mo_name = ''LOGITS'', mo_data_type = TYPE_FP32, mo_dims = [2],
       mo_reshape = None, mo_label_filename = []\<rparr>],
     mc_scheduling := Ensemble_scheduling
       [\<lparr>es_model_name = ''tokenize'', es_model_version = -1, es_input_map = [(''IN'', ''TEXT'')],
         es_output_map = [(''OUT'', ''ids'')]\<rparr>,
        \<lparr>es_model_name = ''classify'', es_model_version = -1, es_input_map = [(''IDS'', ''ids'')],
         es_output_map = [(''OUT'', ''LOGITS'')]\<rparr>]\<rparr>"

lemma pipeline_config_ok: "IsOk (ValidateEnsembleSchedulingConfig pipeline_config)"
  by code_simp


end
