(* ===== verification/Ensemble_Runs.thy ===== *)
theory Ensemble_Runs
  imports Ensemble_Scheduler Ensemble_Graph
begin

text \<open>
  The runs of an ensemble request: it completes exactly once whatever the models answer, and for an
  accepted configuration without a cycle every step starts at most once, so every run is bounded.
\<close>

declare map_of_is_None [simp del]

section \<open>What the operations leave alone\<close>

definition tensor_set :: "'a ensemble_context \<Rightarrow> nat \<Rightarrow> bool" where
  "tensor_set c t \<longleftrightarrow> t < length (ec_tensor_data c) \<and> snd (ec_tensor_data c ! t) \<noteq> None"

definition same_frame :: "'a ensemble_context \<Rightarrow> 'a ensemble_context \<Rightarrow> bool" where
  "same_frame c c' \<longleftrightarrow>
     ec_info c' = ec_info c \<and> ec_completed c' = ec_completed c \<and>
     ec_inflight_step_counter c' = ec_inflight_step_counter c \<and>
     ec_ensemble_status c' = ec_ensemble_status c"

lemma same_frame_refl [simp]: "same_frame c c"
  by (simp add: same_frame_def)

lemma same_frame_trans: "same_frame c c' \<Longrightarrow> same_frame c' c'' \<Longrightarrow> same_frame c c''"
  by (simp add: same_frame_def)

lemma set_label_provider_frame [simp]:
  "same_frame c (set_label_provider p name t c)"
  "ec_tensor_data (set_label_provider p name t c) = ec_tensor_data c"
  by (auto simp: set_label_provider_def same_frame_def Let_def split: option.splits)

text \<open>Only tensors among \<open>ts\<close> may be set anew; a tensor that is set stays set.\<close>

definition sets_only :: "nat set \<Rightarrow> 'a ensemble_context \<Rightarrow> 'a ensemble_context \<Rightarrow> bool" where
  "sets_only ts c c' \<longleftrightarrow>
     same_frame c c' \<and> length (ec_tensor_data c') = length (ec_tensor_data c) \<and>
     (\<forall>t. tensor_set c' t \<longrightarrow> tensor_set c t \<or> t \<in> ts) \<and> (\<forall>t. tensor_set c t \<longrightarrow> tensor_set c' t)"

lemma sets_only_refl [simp]: "sets_only ts c c"
  by (simp add: sets_only_def)

lemma sets_only_trans: "sets_only ts c c' \<Longrightarrow> sets_only ts c' c'' \<Longrightarrow> sets_only ts c c''"
  unfolding sets_only_def using same_frame_trans by metis

lemma tensor_set_update:
  "tensor_set (c\<lparr>ec_tensor_data := (ec_tensor_data c)[t := (i, d)]\<rparr>) u \<longleftrightarrow>
   (if u = t then t < length (ec_tensor_data c) \<and> d \<noteq> None else tensor_set c u)"
  by (auto simp: tensor_set_def)

lemma sets_only_update:
  "t \<in> ts \<Longrightarrow> (d \<noteq> None \<or> d = snd (ec_tensor_data c ! t)) \<Longrightarrow>
   sets_only ts c (c\<lparr>ec_tensor_data := (ec_tensor_data c)[t := (i, d)]\<rparr>)"
  by (auto simp: sets_only_def same_frame_def tensor_set_update) (auto simp: tensor_set_def)

lemma sets_only_label: "sets_only ts c (set_label_provider p name t c)"
  by (simp add: sets_only_def tensor_set_def)

lemma update_outputs_sets:
  "update_outputs p tt outs c us = (st, us', c') \<Longrightarrow>
   sets_only (snd ` set tt) c c' \<and> set us' \<subseteq> set us \<union> snd ` set tt"
proof (induction p tt outs c us rule: update_outputs.induct)
  case (1 p tt c us)
  then show ?case by simp
next
  case (2 p tt out outs c us)
  show ?case
  proof (cases "so_raw out")
    case None
    then show ?thesis using "2.prems" by simp
  next
    case raw: (Some raw)
    show ?thesis
    proof (cases "map_of tt (so_name out)")
      case None
      then show ?thesis using "2.prems" raw by simp
    next
      case t: (Some t)
      then have mem: "t \<in> snd ` set tt"
        by (force dest: map_of_SomeD)
      obtain input data where td: "ec_tensor_data c ! t = (input, data)"
        by fastforce
      let ?input = "input\<lparr>ri_dims := rr_dims raw, ri_batch_byte_size := rr_batch_byte_size raw\<rparr>"
      show ?thesis
      proof (cases "internal_GetSystemMemory (so_name out) p")
        case (Inl e)
        then show ?thesis
          using "2.prems" t raw td sets_only_update [OF mem, of data c ?input] by (simp add: Let_def)
      next
        case (Inr m)
        let ?c = "set_label_provider p (so_name out) t
          (c\<lparr>ec_tensor_data := (ec_tensor_data c)[t := (?input, Some m)]\<rparr>)"
        have rest: "update_outputs p tt outs ?c (us @ [t]) = (st, us', c')"
          using "2.prems" t raw td Inr by (simp add: Let_def)
        have "sets_only (snd ` set tt) ?c c' \<and> set us' \<subseteq> set (us @ [t]) \<union> snd ` set tt"
          by (rule "2.IH" [OF raw t _ _ _ Inr rest]) (simp_all add: td)
        moreover have "sets_only (snd ` set tt) c ?c"
          by (rule sets_only_trans [OF sets_only_update [OF mem] sets_only_label]) simp
        ultimately show ?thesis
          using sets_only_trans [of _ c ?c c'] mem by auto
      qed
    qed
  qed
qed

abbreviation step_outs :: "ensemble_info \<Rightarrow> nat \<Rightarrow> nat set" where
  "step_outs info i \<equiv> snd ` set (si_output_to_tensor (ei_steps info ! i))"

abbreviation step_ins :: "ensemble_info \<Rightarrow> nat \<Rightarrow> nat set" where
  "step_ins info i \<equiv> snd ` set (si_input_to_tensor (ei_steps info ! i))"

lemma UpdateEnsembleState_completed:
  assumes "UpdateEnsembleState ops (Some s) c = (st, us, c')"
  shows "sets_only (step_outs (ec_info c) (ru_step_idx s))
      (c\<lparr>ec_inflight_step_counter := ec_inflight_step_counter c - 1\<rparr>) c' \<and>
    set us \<subseteq> step_outs (ec_info c) (ru_step_idx s)"
proof -
  obtain fst p where f: "FinalizeResponse ops (ru_backend s) (ru_response_provider s) = (fst, p)"
    by fastforce
  show ?thesis
  proof (cases "rs_code (ru_request_status s) \<noteq> SUCCESS \<or> \<not> IsOk fst")
    case True
    then show ?thesis
      using assms by (auto simp: UpdateEnsembleState_def f Let_def split: if_splits)
  next
    case False
    then show ?thesis
      using assms update_outputs_sets by (fastforce simp: UpdateEnsembleState_def f Let_def)
  qed
qed

lemma bind_inputs_error: "bind_inputs bufs ios p = Inl e \<Longrightarrow> \<not> IsOk e"
  by (induction bufs ios p rule: bind_inputs.induct) (auto split: option.splits if_splits)

lemma InitStep_cases:
  "InitStep idx c = Inl e \<Longrightarrow> \<not> IsOk e"
  "InitStep idx c = Inr s \<Longrightarrow> ru_step_idx s = idx"
  by (auto simp: InitStep_def Let_def bind_status_def provider_Create_def bind_inputs_error
      split: prod.splits if_splits sum.splits)

lemma init_steps_idx:
  "init_steps idxs c = (st, steps) \<Longrightarrow> IsOk st \<Longrightarrow> map ru_step_idx steps = idxs"
  by (induction idxs arbitrary: steps) (auto dest: InitStep_cases split: sum.splits prod.splits)

lemma GetNextSteps_cases:
  assumes "GetNextSteps us c = (st, steps, c')"
  shows "\<not> IsOk st \<and> c' = c \<or>
    st = Status_Success \<and> map ru_step_idx steps = next_step_idx c us \<and>
    c' = c\<lparr>ec_inflight_step_counter := ec_inflight_step_counter c + length steps\<rparr>"
  using assms init_steps_idx by (auto simp: GetNextSteps_def Let_def split: prod.splits if_splits)

lemma set_ensemble_outputs_frame:
  "set_ensemble_outputs env ps c = (st, c') \<Longrightarrow> same_frame c c'"
proof (induction env ps c rule: set_ensemble_outputs.induct)
  case (1 env c)
  then show ?case by simp
next
  case (2 env name t ps c)
  obtain input data where td: "ec_tensor_data c ! t = (input, data)"
    by fastforce
  show ?case
  proof (cases "RequiresOutput name (ec_response_provider c)")
    case False
    then show ?thesis using 2 by simp
  next
    case req: True
    show ?thesis
    proof (cases data)
      case None
      then show ?thesis using "2.prems" req td by simp
    next
      case (Some m)
      let ?shape = "(if ei_allow_batching (ec_info c) then [uint (ec_batch_size c)] else []) @ ri_dims input"
      obtain st1 buffer p where a: "ee_allocate env name (unat (ri_batch_byte_size input)) ?shape (ec_response_provider c)
          = (st1, buffer, p)"
        by (metis prod_cases3)
      let ?c = "c\<lparr>ec_response_provider := p, ec_copied := ec_copied c @ [(buffer, copy_blocks m 0)]\<rparr>"
      show ?thesis
      proof (cases "ri_batch_byte_size input \<noteq> TotalByteSize m \<or> \<not> IsOk st1")
        case True
        then show ?thesis
          using "2.prems" req td Some a by (auto simp: Let_def same_frame_def split: if_splits)
      next
        case False
        then have "set_ensemble_outputs env ps ?c = (st, c')"
          using "2.prems" req td Some a by (simp add: Let_def)
        moreover have "same_frame c ?c"
          by (simp add: same_frame_def)
        ultimately show ?thesis
          using "2.IH"(2) [of "(input, data)" input data m ?shape "(st1, buffer, p)" st1 "(buffer, p)" buffer p
              "c\<lparr>ec_response_provider := p\<rparr>"] req td Some a False same_frame_trans by fastforce
      qed
    qed
  qed
qed

lemma FinishEnsemble_sel:
  "ec_info (FinishEnsemble env c) = ec_info c"
  "ec_completed (FinishEnsemble env c) = ec_completed c @ [ec_ensemble_status (FinishEnsemble env c)]"
  "ec_inflight_step_counter (FinishEnsemble env c) = ec_inflight_step_counter c"
  "IsOk (ec_ensemble_status (FinishEnsemble env c)) \<Longrightarrow> IsOk (ec_ensemble_status c)"
proof -
  have frame: "same_frame c c1" if "CheckAndSetEnsembleOutput env c = (st, c1)" for st c1
    using that by (simp add: CheckAndSetEnsembleOutput_def set_ensemble_outputs_frame)
  show "ec_info (FinishEnsemble env c) = ec_info c"
    "ec_completed (FinishEnsemble env c) = ec_completed c @ [ec_ensemble_status (FinishEnsemble env c)]"
    "ec_inflight_step_counter (FinishEnsemble env c) = ec_inflight_step_counter c"
    by (auto simp: FinishEnsemble_def Let_def same_frame_def dest: frame split: prod.splits if_splits)
  show "IsOk (ec_ensemble_status (FinishEnsemble env c)) \<Longrightarrow> IsOk (ec_ensemble_status c)"
    by (auto simp: FinishEnsemble_def Let_def IsOk_def split: prod.splits if_splits)
qed

section \<open>One critical section\<close>

definition finishes :: "'a ensemble_context \<Rightarrow> running_step list \<Rightarrow> 'a ensemble_context \<Rightarrow> bool" where
  "finishes c ready c' \<longleftrightarrow>
     ready = [] \<and> ec_info c' = ec_info c \<and> ec_completed c' = ec_completed c @ [ec_ensemble_status c'] \<and>
     (IsOk (ec_ensemble_status c') \<longrightarrow> ec_inflight_step_counter c = 0)"

definition goes_on :: "nat list \<Rightarrow> 'a ensemble_context \<Rightarrow> running_step list \<Rightarrow> 'a ensemble_context \<Rightarrow> bool" where
  "goes_on us c ready c' \<longleftrightarrow>
     c' = c\<lparr>ec_inflight_step_counter := ec_inflight_step_counter c + length ready,
            ec_ensemble_status := Status_Success\<rparr> \<and>
     ec_inflight_step_counter c + length ready \<noteq> 0 \<and> map ru_step_idx ready = next_step_idx c us"

text \<open>After the tensors are updated, the request completes or the steps that are ready start.\<close>

lemma Proceed_update:
  assumes "IsOk (ec_ensemble_status c)" and "UpdateEnsembleState (ee_ops env) cs c = (st, us, c2)"
    and "Proceed env cs c = (ready, c')"
  shows "finishes c2 ready c' \<or> goes_on us c2 ready c'"
proof -
  obtain st' res c3 where next3: "(if IsOk st then GetNextSteps us c2 else (st, [], c2)) = (st', res, c3)"
    by (metis prod_cases3)
  let ?c4 = "c3\<lparr>ec_ensemble_status := st'\<rparr>"
  have c1: "(case cs of None \<Rightarrow> (if \<not> IsOk (ec_ensemble_status c) then FinishEnsemble env c else c) | Some s \<Rightarrow> c) = c"
    using assms(1) by (simp split: option.splits)
  have prep: "PrepareSteps env cs c =
      (if \<not> IsOk st' \<or> ec_inflight_step_counter ?c4 = 0 then ([], FinishEnsemble env ?c4) else (res, ?c4))"
    unfolding PrepareSteps_def c1 using assms(1) by (simp add: assms(2) next3 Let_def)
  have cases3: "\<not> IsOk st' \<and> c3 = c2 \<or>
      st' = Status_Success \<and> map ru_step_idx res = next_step_idx c2 us \<and>
      c3 = c2\<lparr>ec_inflight_step_counter := ec_inflight_step_counter c2 + length res\<rparr>"
    using next3 GetNextSteps_cases [of us c2 st' res c3] by (auto split: if_splits)
  show ?thesis
  proof (cases "\<not> IsOk st' \<or> ec_inflight_step_counter ?c4 = 0")
    case True
    then have "ready = []" and c': "c' = FinishEnsemble env ?c4"
      using assms(3) by (simp_all add: Proceed_def prep)
    moreover have "ec_inflight_step_counter c2 = 0" if "IsOk (ec_ensemble_status c')"
      using FinishEnsemble_sel(4) [of env ?c4] that True cases3 by (auto simp: c')
    ultimately show ?thesis
      using FinishEnsemble_sel(1,2) [of env ?c4] cases3 by (auto simp: finishes_def)
  next
    case False
    then show ?thesis
      using assms(3) cases3 by (auto simp: Proceed_def prep goes_on_def)
  qed
qed

lemma Proceed_error:
  assumes "\<not> IsOk (ec_ensemble_status c)"
  shows "Proceed env (Some s) c = ([], c)"
    and "Proceed env None c = ([], FinishEnsemble env c)"
proof -
  show "Proceed env (Some s) c = ([], c)"
    using assms by (simp add: Proceed_def PrepareSteps_def)
  have "\<not> IsOk (ec_ensemble_status (FinishEnsemble env c))"
    using FinishEnsemble_sel(4) assms by blast
  then show "Proceed env None c = ([], FinishEnsemble env c)"
    using assms by (simp add: Proceed_def PrepareSteps_def)
qed

section \<open>The request completes exactly once\<close>

text \<open>Either steps are running and nothing is completed, or the completion has been reported.\<close>

definition run_inv :: "ensemble_info \<Rightarrow> 'a ensemble_run \<Rightarrow> bool" where
  "run_inv info r \<longleftrightarrow>
     (let c = er_context r in
      ec_info c = info \<and>
      (if ec_completed c = [] then
         IsOk (ec_ensemble_status c) \<and> er_running r \<noteq> [] \<and>
         ec_inflight_step_counter c = length (er_running r)
       else
         ec_completed c = [ec_ensemble_status c] \<and>
         (IsOk (ec_ensemble_status c) \<longrightarrow> er_running r = [])))"

lemma bind_ensemble_inputs_sel:
  "ec_info (bind_ensemble_inputs ins c) = ec_info c"
  "ec_completed (bind_ensemble_inputs ins c) = ec_completed c"
  "ec_inflight_step_counter (bind_ensemble_inputs ins c) = ec_inflight_step_counter c"
  "length (ec_tensor_data (bind_ensemble_inputs ins c)) = length (ec_tensor_data c)"
  by (induction ins c rule: bind_ensemble_inputs.induct) (simp_all add: Let_def split: option.splits)

lemma EnsembleContext_sel:
  "ec_info (EnsembleContext env info rp resp) = info"
  "ec_completed (EnsembleContext env info rp resp) = []"
  "ec_inflight_step_counter (EnsembleContext env info rp resp) = 0"
  "length (ec_tensor_data (EnsembleContext env info rp resp)) = length (ei_tensor_to_step info)"
  by (auto simp: EnsembleContext_def Let_def bind_ensemble_inputs_sel split: prod.splits)

lemma run_inv_start: "run_inv info (Enqueue_ensemble env info rp resp)"
proof -
  let ?c = "EnsembleContext env info rp resp"
  obtain ready c' where p: "Proceed env None ?c = (ready, c')"
    by fastforce
  show ?thesis
  proof (cases "IsOk (ec_ensemble_status ?c)")
    case True
    have "finishes ?c ready c' \<or> goes_on (set_tensors ?c) ?c ready c'"
      by (rule Proceed_update [OF True _ p]) (simp add: UpdateEnsembleState_def)
    then show ?thesis
      by (auto simp: Enqueue_ensemble_def p run_inv_def finishes_def goes_on_def EnsembleContext_sel Let_def)
  next
    case False
    then show ?thesis
      using Proceed_error(2) [OF False, of env] FinishEnsemble_sel [of env ?c]
      by (auto simp: Enqueue_ensemble_def run_inv_def EnsembleContext_sel Let_def)
  qed
qed

text \<open>A step that completes: after an error nothing happens any more.\<close>

lemma complete_step_cases:
  assumes "run_inv info r" and "i < length (er_running r)"
  obtains (failed) "\<not> IsOk (ec_ensemble_status (er_context r))" "ec_completed (er_context r) \<noteq> []"
      "complete_step env i rs p r = r\<lparr>er_running := take i (er_running r) @ drop (Suc i) (er_running r)\<rparr>"
  | (step) us c2 ready c' where "ec_completed (er_context r) = []" "IsOk (ec_ensemble_status (er_context r))"
      "complete_step env i rs p r = \<lparr>er_context = c',
         er_running = take i (er_running r) @ drop (Suc i) (er_running r) @ ready,
         er_started = er_started r @ map ru_step_idx ready\<rparr>"
      "sets_only (step_outs info (ru_step_idx (er_running r ! i)))
         ((er_context r)\<lparr>ec_inflight_step_counter := ec_inflight_step_counter (er_context r) - 1\<rparr>) c2"
      "set us \<subseteq> step_outs info (ru_step_idx (er_running r ! i))"
      "finishes c2 ready c' \<or> goes_on us c2 ready c'"
proof (cases "ec_completed (er_context r) = []")
  case False
  then have "\<not> IsOk (ec_ensemble_status (er_context r))"
    using assms by (auto simp: run_inv_def Let_def split: if_splits)
  then show ?thesis
    using failed False by (simp add: complete_step_def Proceed_error Let_def)
next
  case True
  let ?s = "(er_running r ! i)\<lparr>ru_request_status := rs, ru_response_provider := p\<rparr>"
  have ok: "IsOk (ec_ensemble_status (er_context r))" and info: "ec_info (er_context r) = info"
    using assms(1) True by (simp_all add: run_inv_def Let_def)
  obtain st us c2 where u: "UpdateEnsembleState (ee_ops env) (Some ?s) (er_context r) = (st, us, c2)"
    by (metis prod_cases3)
  obtain ready c' where pr: "Proceed env (Some ?s) (er_context r) = (ready, c')"
    by fastforce
  show ?thesis
  proof (rule step [of c' ready c2 us, OF True ok])
    show "complete_step env i rs p r = \<lparr>er_context = c',
         er_running = take i (er_running r) @ drop (Suc i) (er_running r) @ ready,
         er_started = er_started r @ map ru_step_idx ready\<rparr>"
      by (simp add: complete_step_def pr)
    show "finishes c2 ready c' \<or> goes_on us c2 ready c'"
      by (rule Proceed_update [OF ok u pr])
  qed (use UpdateEnsembleState_completed [OF u] info in simp_all)
qed

lemma run_inv_complete:
  assumes "run_inv info r" and "i < length (er_running r)"
  shows "run_inv info (complete_step env i rs p r)"
  using assms
proof (cases rule: complete_step_cases [where env = env and rs = rs and p = p, consumes 2])
  case failed
  then show ?thesis
    using assms(1) by (auto simp: run_inv_def Let_def)
next
  case (step us c2 ready c')
  have rest: "length (take i (er_running r) @ drop (Suc i) (er_running r)) = length (er_running r) - 1"
    using assms(2) by simp
  have c2: "ec_info c2 = info" "ec_completed c2 = []" "ec_inflight_step_counter c2 = length (er_running r) - 1"
    using step(1,4) assms(1) by (auto simp: sets_only_def same_frame_def run_inv_def Let_def)
  show ?thesis
    using step(6)
  proof
    assume "finishes c2 ready c'"
    then show ?thesis
      using c2 rest assms(2) step(3) by (auto simp: run_inv_def finishes_def Let_def)
  next
    assume "goes_on us c2 ready c'"
    then show ?thesis
      using c2 rest assms(2) step(3) by (auto simp: run_inv_def goes_on_def Let_def)
  qed
qed

definition ensemble_started :: "'a ensemble_env \<Rightarrow> ensemble_info \<Rightarrow> 'a ensemble_run \<Rightarrow> bool" where
  "ensemble_started env info r \<longleftrightarrow> (\<exists>rp resp. r = Enqueue_ensemble env info rp resp)"

interpretation ens: transition_system "ensemble_started env info" "ensemble_proceeds env" "run_inv info" for env info
  by unfold_locales
    (auto simp: ensemble_started_def run_inv_start run_inv_complete elim: ensemble_proceeds.cases)

section \<open>Every step starts at most once\<close>

text \<open>
  An ensemble whose tensors have one writer each, the steps or the ensemble request: the index of
  readers of every tensor is right, no two steps write a tensor, no step writes an ensemble input.
\<close>

definition info_wf :: "ensemble_info \<Rightarrow> bool" where
  "info_wf info \<longleftrightarrow>
     (\<forall>t < length (ei_tensor_to_step info). \<forall>i \<in> set (ei_tensor_to_step info ! t).
        i < length (ei_steps info) \<and> t \<in> step_ins info i) \<and>
     (\<forall>i < length (ei_steps info). \<forall>t \<in> step_ins info i \<union> step_outs info i. t < length (ei_tensor_to_step info)) \<and>
     (\<forall>i < length (ei_steps info). \<forall>j < length (ei_steps info).
        step_outs info i \<inter> step_outs info j \<noteq> {} \<longrightarrow> i = j) \<and>
     (\<forall>i < length (ei_steps info). step_outs info i \<inter> snd ` set (ei_input_to_tensor info) = {})"

lemma set_insert_facts:
  "set (set_insert x xs) = insert x (set xs)" "distinct xs \<Longrightarrow> distinct (set_insert x xs)"
  by (auto simp: set_insert_def distinct_insort set_insort_key)

lemma fold_set_insert:
  "set (fold set_insert xs ys) = set xs \<union> set ys" "distinct ys \<Longrightarrow> distinct (fold set_insert xs ys)"
  by (induction xs arbitrary: ys) (auto simp: set_insert_facts)

lemma next_step_idx_facts:
  "distinct (next_step_idx c us)"
  "i \<in> set (next_step_idx c us) \<longleftrightarrow> step_ready c i \<and> (\<exists>t \<in> set us. i \<in> set (ei_tensor_to_step (ec_info c) ! t))"
  by (auto simp: next_step_idx_def fold_set_insert)

text \<open>
  While the request runs: the steps started are distinct, the running ones among them; a tensor is
  set by the request or by a step that is over; a started step has all its inputs.
\<close>

definition flow_inv :: "ensemble_info \<Rightarrow> 'a ensemble_run \<Rightarrow> bool" where
  "flow_inv info r \<longleftrightarrow>
     distinct (er_started r) \<and> set (er_started r) \<subseteq> {..<length (ei_steps info)} \<and>
     (ec_completed (er_context r) = [] \<longrightarrow>
        length (ec_tensor_data (er_context r)) = length (ei_tensor_to_step info) \<and>
        distinct (map ru_step_idx (er_running r)) \<and>
        set (map ru_step_idx (er_running r)) \<subseteq> set (er_started r) \<and>
        (\<forall>t. tensor_set (er_context r) t \<longrightarrow>
           t \<in> snd ` set (ei_input_to_tensor info) \<or>
           (\<exists>i \<in> set (er_started r) - set (map ru_step_idx (er_running r)). t \<in> step_outs info i)) \<and>
        (\<forall>i \<in> set (er_started r). \<forall>t \<in> step_ins info i. tensor_set (er_context r) t))"

lemma info_wfD:
  assumes "info_wf info"
  shows "t < length (ei_tensor_to_step info) \<Longrightarrow> i \<in> set (ei_tensor_to_step info ! t) \<Longrightarrow>
      i < length (ei_steps info) \<and> t \<in> step_ins info i"
    and "i < length (ei_steps info) \<Longrightarrow> t \<in> step_ins info i \<or> t \<in> step_outs info i \<Longrightarrow>
      t < length (ei_tensor_to_step info)"
    and "i < length (ei_steps info) \<Longrightarrow> j < length (ei_steps info) \<Longrightarrow> t \<in> step_outs info i \<Longrightarrow>
      t \<in> step_outs info j \<Longrightarrow> i = j"
    and "i < length (ei_steps info) \<Longrightarrow> t \<in> step_outs info i \<Longrightarrow> t \<notin> snd ` set (ei_input_to_tensor info)"
proof -
  note wf = assms [unfolded info_wf_def]
  note w1 = wf [THEN conjunct1] and w2 = wf [THEN conjunct2, THEN conjunct1]
    and w3 = wf [THEN conjunct2, THEN conjunct2, THEN conjunct1]
    and w4 = wf [THEN conjunct2, THEN conjunct2, THEN conjunct2]
  show "t < length (ei_tensor_to_step info) \<Longrightarrow> i \<in> set (ei_tensor_to_step info ! t) \<Longrightarrow>
      i < length (ei_steps info) \<and> t \<in> step_ins info i"
    using w1 by blast
  show "i < length (ei_steps info) \<Longrightarrow> t \<in> step_ins info i \<or> t \<in> step_outs info i \<Longrightarrow>
      t < length (ei_tensor_to_step info)"
    using w2 by blast
  show "i < length (ei_steps info) \<Longrightarrow> j < length (ei_steps info) \<Longrightarrow> t \<in> step_outs info i \<Longrightarrow>
      t \<in> step_outs info j \<Longrightarrow> i = j"
    using w3 by blast
  show "i < length (ei_steps info) \<Longrightarrow> t \<in> step_outs info i \<Longrightarrow> t \<notin> snd ` set (ei_input_to_tensor info)"
    using w4 by blast
qed

lemma step_ready_set:
  assumes "info_wf info" and "ec_info c = info" and "length (ec_tensor_data c) = length (ei_tensor_to_step info)"
    and "i < length (ei_steps info)"
  shows "step_ready c i \<longleftrightarrow> (\<forall>t \<in> step_ins info i. tensor_set c t)"
proof -
  have "\<forall>t \<in> step_ins info i. t < length (ec_tensor_data c)"
    using info_wfD(2) [OF assms(1,4)] assms(3) by simp
  then show ?thesis
    using assms(2) by (auto simp: step_ready_def tensor_set_def list_all_iff)
qed

text \<open>The steps that start next.\<close>

lemma next_steps_fresh:
  assumes wf: "info_wf info" and info: "ec_info c = info"
    and len: "length (ec_tensor_data c) = length (ei_tensor_to_step info)"
    and us: "\<forall>t \<in> set us. t < length (ei_tensor_to_step info)"
    and i: "i \<in> set (next_step_idx c us)"
  shows "i < length (ei_steps info)" and "\<forall>t \<in> step_ins info i. tensor_set c t"
    and "\<exists>t \<in> set us. t \<in> step_ins info i"
proof -
  obtain t where t: "t \<in> set us" "i \<in> set (ei_tensor_to_step info ! t)" and ready: "step_ready c i"
    using i info by (auto simp: next_step_idx_facts)
  have n: "i < length (ei_steps info) \<and> t \<in> step_ins info i"
    using info_wfD(1) [OF wf _ t(2)] us t(1) by blast
  then show "i < length (ei_steps info)" and "\<exists>t \<in> set us. t \<in> step_ins info i"
    using t(1) by blast+
  show "\<forall>t \<in> step_ins info i. tensor_set c t"
    using step_ready_set [OF wf info len] n ready by simp
qed

lemma bind_ensemble_inputs_set:
  "tensor_set (bind_ensemble_inputs ins c) t \<Longrightarrow>
   tensor_set c t \<or> t \<in> snd ` set (ei_input_to_tensor (ec_info c))"
proof (induction ins c rule: bind_ensemble_inputs.induct)
  case (1 c)
  then show ?case by simp
next
  case (2 input ins c)
  show ?case
  proof (cases "map_of (ei_input_to_tensor (ec_info c)) (ri_name input)")
    case None
    then show ?thesis
      using 2 by (auto simp: tensor_set_def)
  next
    case (Some idx)
    then have "idx \<in> snd ` set (ei_input_to_tensor (ec_info c))"
      by (force dest: map_of_SomeD)
    then show ?thesis
      using "2.prems" "2.IH"(2) [OF Some refl] Some by (auto simp: Let_def tensor_set_update split: if_splits)
  qed
qed

lemma tensor_set_simps [simp]:
  "tensor_set (c\<lparr>ec_no_label_tensors := m\<rparr>) = tensor_set c"
  "tensor_set (c\<lparr>ec_inflight_step_counter := n\<rparr>) = tensor_set c"
  "tensor_set (c\<lparr>ec_ensemble_status := st\<rparr>) = tensor_set c"
  by (auto simp: tensor_set_def fun_eq_iff)

lemma EnsembleContext_set:
  assumes "tensor_set (EnsembleContext env info rp resp) t"
  shows "t \<in> snd ` set (ei_input_to_tensor info)"
proof -
  obtain st handles where h: "open_handles (ee_backend env) (ei_steps info) Map.empty = (st, handles)"
    by fastforce
  define c :: "'a ensemble_context" where
    "c = \<lparr>ec_info = info, ec_inflight_step_counter = 0,
      ec_tensor_data = replicate (length (ei_tensor_to_step info)) (request_input_clear, None),
      ec_handles = handles, ec_flags = 0, ec_correlation_id = 0, ec_batch_size = 0,
      ec_ensemble_status = st, ec_request_provider = rp, ec_response_provider = resp,
      ec_no_label_tensors = Map.empty, ec_copied = [], ec_completed = []\<rparr>"
  let ?h = "ip_request_header rp"
  let ?c = "c\<lparr>ec_batch_size := rh_batch_size ?h, ec_correlation_id := rh_correlation_id ?h, ec_flags := rh_flags ?h\<rparr>"
  have empty: "\<not> tensor_set c t" "\<not> tensor_set ?c t" "ec_info ?c = info"
    by (simp_all add: c_def tensor_set_def)
  have "tensor_set (if IsOk st then bind_ensemble_inputs (rh_input ?h) ?c else c) t"
    using assms unfolding EnsembleContext_def h c_def [symmetric] Let_def prod.case by (simp split: if_splits)
  then show ?thesis
    using bind_ensemble_inputs_set [of "rh_input ?h" ?c t] empty by (simp split: if_splits)
qed

lemma flow_inv_completed:
  "ec_completed (er_context r) \<noteq> [] \<Longrightarrow>
   flow_inv info r \<longleftrightarrow> distinct (er_started r) \<and> set (er_started r) \<subseteq> {..<length (ei_steps info)}"
  by (simp add: flow_inv_def)

lemma finishes_completed: "finishes c ready c' \<Longrightarrow> ec_completed c' \<noteq> [] \<and> ready = []"
  by (simp add: finishes_def)

lemma goes_on_sel:
  assumes "goes_on us c ready c'"
  shows "tensor_set c' = tensor_set c" and "ec_tensor_data c' = ec_tensor_data c"
    and "ec_completed c' = ec_completed c" and "map ru_step_idx ready = next_step_idx c us"
  using assms by (auto simp: goes_on_def)

lemma flow_inv_start:
  assumes wf: "info_wf info"
  shows "flow_inv info (Enqueue_ensemble env info rp resp)"
proof -
  let ?c = "EnsembleContext env info rp resp"
  obtain ready c' where p: "Proceed env None ?c = (ready, c')"
    by fastforce
  have r: "Enqueue_ensemble env info rp resp =
      \<lparr>er_context = c', er_running = ready, er_started = map ru_step_idx ready\<rparr>"
    by (simp add: Enqueue_ensemble_def p)
  show ?thesis
  proof (cases "IsOk (ec_ensemble_status ?c)")
    case True
    have "finishes ?c ready c' \<or> goes_on (set_tensors ?c) ?c ready c'"
      by (rule Proceed_update [OF True _ p]) (simp add: UpdateEnsembleState_def)
    then show ?thesis
    proof
      assume "finishes ?c ready c'"
      then show ?thesis
        using finishes_completed by (fastforce simp: r flow_inv_completed)
    next
      assume go: "goes_on (set_tensors ?c) ?c ready c'"
      note g = goes_on_sel [OF go]
      have len: "length (ec_tensor_data ?c) = length (ei_tensor_to_step info)"
        by (simp add: EnsembleContext_sel)
      have us: "\<forall>t \<in> set (set_tensors ?c). t < length (ei_tensor_to_step info)"
        using len by (auto simp: set_tensors_def)
      note fresh = next_steps_fresh [OF wf EnsembleContext_sel(1) len us]
      show ?thesis
        using fresh(1,2) EnsembleContext_set [of env info rp resp] len
        by (auto simp: flow_inv_def r g next_step_idx_facts(1) simp del: set_map)
    qed
  next
    case False
    then have "ready = []" "ec_completed c' \<noteq> []"
      using p Proceed_error(2) [OF False, of env] FinishEnsemble_sel(2) [of env ?c] by auto
    then show ?thesis
      by (simp add: r flow_inv_completed)
  qed
qed

lemma take_drop_nth:
  assumes "i < length xs" and "distinct (map f xs)"
  shows "set (map f (take i xs @ drop (Suc i) xs)) = set (map f xs) - {f (xs ! i)}"
    and "distinct (map f (take i xs @ drop (Suc i) xs))"
proof -
  have xs: "map f xs = map f (take i xs) @ f (xs ! i) # map f (drop (Suc i) xs)"
    using id_take_nth_drop [OF assms(1)] by (metis list.simps(9) map_append)
  then show "set (map f (take i xs @ drop (Suc i) xs)) = set (map f xs) - {f (xs ! i)}"
    and "distinct (map f (take i xs @ drop (Suc i) xs))"
    using assms(2) by auto
qed

text \<open>
  The heart of the argument: a step that the completion of step \<open>k\<close> makes ready has an input that
  \<open>k\<close> writes, so it cannot have started before \<open>k\<close> was over.
\<close>

lemma next_steps_new:
  assumes wf: "info_wf info"
    and started: "set started \<subseteq> {..<length (ei_steps info)}" and k: "k \<in> set started"
    and src: "\<forall>t. tensor_set c t \<longrightarrow> t \<in> snd ` set (ei_input_to_tensor info) \<or>
      (\<exists>i \<in> set started - running. t \<in> step_outs info i)" and running: "k \<in> running"
    and ins: "\<forall>i \<in> set started. \<forall>t \<in> step_ins info i. tensor_set c t"
    and us: "set us \<subseteq> step_outs info k" and j: "\<exists>t \<in> set us. t \<in> step_ins info j"
  shows "j \<notin> set started"
proof
  assume mem: "j \<in> set started"
  obtain t where t: "t \<in> step_outs info k" "t \<in> step_ins info j"
    using j us by blast
  then have "tensor_set c t"
    using ins mem by blast
  moreover have kn: "k < length (ei_steps info)"
    using k started by auto
  moreover have "t \<notin> snd ` set (ei_input_to_tensor info)"
    by (rule info_wfD(4) [OF wf kn t(1)])
  ultimately obtain i where i: "i \<in> set started - running" "t \<in> step_outs info i"
    using src by blast
  then have "i < length (ei_steps info)"
    using started by auto
  then have "i = k"
    using info_wfD(3) [OF wf _ kn i(2) t(1)] by blast
  then show False
    using i(1) running by blast
qed

lemma flow_inv_goes_on:
  assumes wf: "info_wf info" and run: "run_inv info r" and flow: "flow_inv info r"
    and i: "i < length (er_running r)" and active: "ec_completed (er_context r) = []"
    and c2: "sets_only (step_outs info (ru_step_idx (er_running r ! i)))
       ((er_context r)\<lparr>ec_inflight_step_counter := n\<rparr>) c2"
    and us: "set us \<subseteq> step_outs info (ru_step_idx (er_running r ! i))"
    and go: "goes_on us c2 ready c'"
  shows "flow_inv info \<lparr>er_context = c',
    er_running = take i (er_running r) @ drop (Suc i) (er_running r) @ ready,
    er_started = er_started r @ map ru_step_idx ready\<rparr>"
proof -
  let ?k = "ru_step_idx (er_running r ! i)" and ?run = "set (map ru_step_idx (er_running r))"
  let ?rest = "take i (er_running r) @ drop (Suc i) (er_running r)"
  have len: "length (ec_tensor_data (er_context r)) = length (ei_tensor_to_step info)"
    and dist: "distinct (map ru_step_idx (er_running r))" and sub: "?run \<subseteq> set (er_started r)"
    and src: "\<forall>t. tensor_set (er_context r) t \<longrightarrow> t \<in> snd ` set (ei_input_to_tensor info) \<or>
      (\<exists>i \<in> set (er_started r) - ?run. t \<in> step_outs info i)"
    and ins: "\<forall>i \<in> set (er_started r). \<forall>t \<in> step_ins info i. tensor_set (er_context r) t"
    and ds: "distinct (er_started r)" and sn: "set (er_started r) \<subseteq> {..<length (ei_steps info)}"
    using flow active unfolding flow_inv_def by (metis (no_types, lifting))+
  have k: "?k \<in> ?run" "?k \<in> set (er_started r)"
    using i sub by auto
  then have kn: "?k < length (ei_steps info)"
    using sn by auto
  have info2: "ec_info c2 = info" and len2: "length (ec_tensor_data c2) = length (ei_tensor_to_step info)"
    and new: "tensor_set c2 t \<Longrightarrow> tensor_set (er_context r) t \<or> t \<in> step_outs info ?k"
    and old: "tensor_set (er_context r) t \<Longrightarrow> tensor_set c2 t" for t
    using c2 run len by (auto simp: sets_only_def same_frame_def run_inv_def Let_def)
  have us_n: "\<forall>t \<in> set us. t < length (ei_tensor_to_step info)"
    using us info_wfD(2) [OF wf kn] by blast
  note g = goes_on_sel [OF go]
  note fresh = next_steps_fresh [OF wf info2 len2 us_n]
  have disj: "set (next_step_idx c2 us) \<inter> set (er_started r) = {}"
    using next_steps_new [OF wf sn k(2) src k(1) ins us] fresh(3) by blast
  note rest = take_drop_nth [OF i dist]
  have running: "set (map ru_step_idx (?rest @ ready)) = (?run - {?k}) \<union> set (next_step_idx c2 us)"
    using rest(1) g(4) by (metis map_append set_append)
  have run_d: "distinct (map ru_step_idx (?rest @ ready))"
    using rest g(4) disj sub next_step_idx_facts(1) [of c2 us] unfolding map_append [of _ ?rest] by auto
  have started: "set (er_started r @ map ru_step_idx ready) = set (er_started r) \<union> set (next_step_idx c2 us)"
    using g(4) by (metis set_append)
  have started_d: "distinct (er_started r @ map ru_step_idx ready)"
    using ds disj next_step_idx_facts(1) [of c2 us] g(4) by (auto simp del: set_map)
  have src': "t \<in> snd ` set (ei_input_to_tensor info) \<or>
      (\<exists>i \<in> (set (er_started r) \<union> set (next_step_idx c2 us)) - ((?run - {?k}) \<union> set (next_step_idx c2 us)).
         t \<in> step_outs info i)" if "tensor_set c2 t" for t
    using new [OF that] src k disj by blast
  have ins': "tensor_set c2 t"
    if "i \<in> set (er_started r) \<union> set (next_step_idx c2 us)" "t \<in> step_ins info i" for i t
    using that ins old fresh(2) by blast
  have sn': "set (er_started r) \<union> set (next_step_idx c2 us) \<subseteq> {..<length (ei_steps info)}"
    using sn fresh(1) by blast
  show ?thesis
    unfolding flow_inv_def ensemble_run.select_convs append_assoc [symmetric] running started g(1,2)
    using run_d started_d src' ins' sn' len2 sub by blast
qed

lemma flow_inv_complete:
  assumes "info_wf info" and "run_inv info r" and "flow_inv info r" and "i < length (er_running r)"
  shows "flow_inv info (complete_step env i rs p r)"
  using assms(2,4)
proof (cases rule: complete_step_cases [where env = env and rs = rs and p = p, consumes 2])
  case failed
  then show ?thesis
    using assms(3) by (simp add: flow_inv_completed)
next
  case (step us c2 ready c')
  show ?thesis
    using step(6)
  proof
    assume "finishes c2 ready c'"
    then show ?thesis
      using finishes_completed assms(3) by (fastforce simp: step(3) flow_inv_def)
  next
    assume "goes_on us c2 ready c'"
    then show ?thesis
      unfolding step(3) by (rule flow_inv_goes_on [OF assms step(1,4,5)])
  qed
qed

interpretation flow: transition_system "\<lambda>r. info_wf info \<and> ensemble_started env info r" "ensemble_proceeds env"
  "\<lambda>r. info_wf info \<and> run_inv info r \<and> flow_inv info r" for env info
  by unfold_locales
    (auto simp: ensemble_started_def run_inv_start run_inv_complete flow_inv_start flow_inv_complete
      elim: ensemble_proceeds.cases)

end
