(* ===== verification/Ensemble_Build.thy ===== *)
theory Ensemble_Build
  imports Ensemble_Runs
begin

text \<open>
  The ensemble built from a configuration: every name gets one tensor, and for a configuration the
  validation accepts, in which no step writes an ensemble input, each tensor has one writer and the
  index of readers is right. So the runs of such an ensemble are bounded.
\<close>

section \<open>Numbering the tensors\<close>

definition numbering :: "(string \<rightharpoonup> nat) \<Rightarrow> nat \<Rightarrow> bool" where
  "numbering N k \<longleftrightarrow> (\<forall>a b i. N a = Some i \<longrightarrow> N b = Some i \<longrightarrow> a = b) \<and> (\<forall>a i. N a = Some i \<longrightarrow> i < k)"

lemma numberingD:
  assumes "numbering N k"
  shows "N a = Some i \<Longrightarrow> N b = Some i \<Longrightarrow> a = b" and "N a = Some i \<Longrightarrow> i < k"
  using assms unfolding numbering_def by blast+

lemma numbering_new: "numbering N k \<Longrightarrow> numbering (N(a \<mapsto> k)) (Suc k)"
  by (auto simp: numbering_def less_Suc_eq split: if_splits)

text \<open>A later stage keeps the numbers and may add tensors without readers.\<close>

definition readers_of :: "nat list list \<Rightarrow> nat \<Rightarrow> nat set" where
  "readers_of tts t = (if t < length tts then set (tts ! t) else {})"

definition extends :: "(string \<rightharpoonup> nat) \<Rightarrow> nat list list \<Rightarrow> (string \<rightharpoonup> nat) \<Rightarrow> nat list list \<Rightarrow> bool" where
  "extends N tts N' tts' \<longleftrightarrow>
     numbering N' (length tts') \<and> N \<subseteq>\<^sub>m N' \<and> length tts \<le> length tts'"

lemma extends_refl: "numbering N (length tts) \<Longrightarrow> extends N tts N tts"
  by (simp add: extends_def)

lemma extends_trans: "extends N tts N1 t1 \<Longrightarrow> extends N1 t1 N2 t2 \<Longrightarrow> extends N tts N2 t2"
  by (auto simp: extends_def intro: map_le_trans)

lemma extends_Some: "extends N tts N' tts' \<Longrightarrow> N a = Some i \<Longrightarrow> N' a = Some i"
  by (auto simp: extends_def map_le_def dom_def)

lemma tensor_index_spec:
  assumes "tensor_index name N tts = (idx, N', tts')" and "numbering N (length tts)"
  shows "extends N tts N' tts' \<and> N' name = Some idx \<and> idx < length tts' \<and>
    (\<forall>t. readers_of tts' t = readers_of tts t)"
proof (cases "N name")
  case None
  then have r: "idx = length tts" "N' = N(name \<mapsto> length tts)" "tts' = tts @ [[]]"
    using assms(1) by (auto simp: tensor_index_def)
  have "N \<subseteq>\<^sub>m N(name \<mapsto> length tts)"
    using None by (auto simp: map_le_def)
  then show ?thesis
    using r numbering_new [OF assms(2)] by (auto simp: extends_def readers_of_def nth_append)
next
  case (Some i)
  then show ?thesis
    using assms numberingD(2) [OF assms(2) Some] by (auto simp: tensor_index_def extends_refl)
qed

lemma emplace_set: "set (emplace k v m) = (if k \<in> fst ` set m then set m else insert (k, v) (set m))"
  by (simp add: emplace_def)

lemma add_step_inputs_spec:
  assumes "add_step_inputs s ps to_t N tts = (to_t', N', tts')" and "numbering N (length tts)"
    and "distinct (map fst ps)" and "fst ` set ps \<inter> fst ` set to_t = {}"
  shows "extends N tts N' tts' \<and> set to_t \<subseteq> set to_t' \<and>
    (\<forall>t \<in> snd ` set to_t'. t \<in> snd ` set to_t \<or> (\<exists>b. N' b = Some t)) \<and>
    (\<forall>t. readers_of tts' t \<subseteq> readers_of tts t \<union> (if t \<in> snd ` set to_t' then {s} else {}))"
  using assms
proof (induction s ps to_t N tts rule: add_step_inputs.induct)
  case (1 s to_t N tts)
  then show ?case by (auto simp: extends_refl)
next
  case (2 s a b ps to_t N tts)
  obtain idx N1 t1 where ti: "tensor_index b N tts = (idx, N1, t1)"
    by (metis prod_cases3)
  note spec = tensor_index_spec [OF ti "2.prems"(2)]
  let ?to = "emplace a idx to_t" and ?t1 = "t1[idx := set_insert s (t1 ! idx)]"
  have to: "set ?to = insert (a, idx) (set to_t)"
    using "2.prems"(4) by (auto simp: emplace_set)
  have rest: "add_step_inputs s ps ?to N1 ?t1 = (to_t', N', tts')"
    using "2.prems"(1) by (simp add: ti)
  have num1: "numbering N1 (length ?t1)" and ext1: "extends N tts N1 ?t1"
    using spec by (simp_all add: extends_def)
  have "extends N1 ?t1 N' tts' \<and> set ?to \<subseteq> set to_t' \<and>
    (\<forall>t \<in> snd ` set to_t'. t \<in> snd ` set ?to \<or> (\<exists>b. N' b = Some t)) \<and>
    (\<forall>t. readers_of tts' t \<subseteq> readers_of ?t1 t \<union> (if t \<in> snd ` set to_t' then {s} else {}))"
  proof (rule "2.IH" [OF ti [symmetric] refl refl rest num1])
    show "distinct (map fst ps)" "fst ` set ps \<inter> fst ` set ?to = {}"
      using "2.prems"(3,4) to by auto
  qed
  note IH = this
  have idx: "N' b = Some idx"
    by (rule extends_Some [OF conjunct1 [OF IH]]) (simp add: spec)
  have mem: "idx \<in> snd ` set to_t'"
  proof -
    have "(a, idx) \<in> set to_t'"
      using IH [THEN conjunct2, THEN conjunct1] to by blast
    then show ?thesis by force
  qed
  have "readers_of ?t1 t \<subseteq> readers_of t1 t \<union> (if t = idx then {s} else {})" for t
    by (cases "t = idx") (auto simp: readers_of_def set_insert_facts)
  then have "readers_of ?t1 t \<subseteq> readers_of tts t \<union> (if t = idx then {s} else {})" for t
    using spec by simp
  then have readers: "readers_of tts' t \<subseteq> readers_of tts t \<union> (if t \<in> snd ` set to_t' then {s} else {})" for t
    using IH [THEN conjunct2, THEN conjunct2, THEN conjunct2] mem by (cases "t = idx") (force split: if_splits)+
  have known: "t \<in> snd ` set to_t \<or> (\<exists>b. N' b = Some t)" if "t \<in> snd ` set to_t'" for t
  proof -
    have "t \<in> snd ` set ?to \<or> (\<exists>b. N' b = Some t)"
      using IH [THEN conjunct2, THEN conjunct2, THEN conjunct1] that by blast
    then show ?thesis
      unfolding to image_insert using idx by auto
  qed
  have "extends N tts N' tts'" "set to_t \<subseteq> set to_t'"
    using extends_trans [OF ext1 conjunct1 [OF IH]] IH [THEN conjunct2, THEN conjunct1] to by auto
  then show ?case
    using readers known by blast
qed

lemma add_step_outputs_spec:
  assumes "add_step_outputs ps to_t N tts = (to_t', N', tts')" and "numbering N (length tts)"
  shows "extends N tts N' tts' \<and>
    (\<forall>t \<in> snd ` set to_t'. t \<in> snd ` set to_t \<or> (\<exists>b \<in> snd ` set ps. N' b = Some t)) \<and>
    (\<forall>t. readers_of tts' t = readers_of tts t)"
  using assms
proof (induction ps to_t N tts rule: add_step_outputs.induct)
  case (1 to_t N tts)
  then show ?case by (auto simp: extends_refl)
next
  case (2 a b ps to_t N tts)
  obtain idx N1 t1 where ti: "tensor_index b N tts = (idx, N1, t1)"
    by (metis prod_cases3)
  note spec = tensor_index_spec [OF ti "2.prems"(2)]
  have rest: "add_step_outputs ps (emplace a idx to_t) N1 t1 = (to_t', N', tts')"
    using "2.prems"(1) by (simp add: ti)
  have "extends N1 t1 N' tts' \<and>
    (\<forall>t \<in> snd ` set to_t'. t \<in> snd ` set (emplace a idx to_t) \<or> (\<exists>b \<in> snd ` set ps. N' b = Some t)) \<and>
    (\<forall>t. readers_of tts' t = readers_of t1 t)"
    by (rule "2.IH" [OF ti [symmetric] refl refl rest]) (use spec in \<open>simp add: extends_def\<close>)
  note IH = this
  have "N' b = Some idx"
    by (rule extends_Some [OF conjunct1 [OF IH]]) (simp add: spec)
  moreover have "snd ` set (emplace a idx to_t) \<subseteq> insert idx (snd ` set to_t)"
    by (auto simp: emplace_set split: if_splits)
  moreover have "\<forall>t \<in> snd ` set to_t'. t \<in> snd ` set (emplace a idx to_t) \<or> (\<exists>b \<in> snd ` set ps. N' b = Some t)"
    using IH by blast
  ultimately have "\<forall>t \<in> snd ` set to_t'. t \<in> snd ` set to_t \<or> (\<exists>b' \<in> insert b (snd ` set ps). N' b' = Some t)"
    by blast
  moreover have "extends N tts N' tts'"
    by (rule extends_trans [OF conjunct1 [OF spec] conjunct1 [OF IH]])
  ultimately show ?case
    using IH spec by simp
qed

text \<open>The loop over the steps.\<close>

definition built :: "ensemble_step list \<Rightarrow> step_info list \<Rightarrow> (string \<rightharpoonup> nat) \<Rightarrow> nat list list \<Rightarrow> bool" where
  "built es steps N tts \<longleftrightarrow>
     numbering N (length tts) \<and> length steps = length es \<and>
     (\<forall>i < length es. (\<forall>t \<in> snd ` set (si_input_to_tensor (steps ! i)). \<exists>b. N b = Some t) \<and>
        (\<forall>t \<in> snd ` set (si_output_to_tensor (steps ! i)). \<exists>b \<in> step_outputs (es ! i). N b = Some t)) \<and>
     (\<forall>t. \<forall>i \<in> readers_of tts t. i < length es \<and> t \<in> snd ` set (si_input_to_tensor (steps ! i)))"

lemma built_extend:
  assumes "built es steps N tts" and "extends N tts N' tts'"
    and "\<forall>t. readers_of tts' t \<subseteq> readers_of tts t \<union> (if t \<in> snd ` set ins then {length steps} else {})"
    and "\<forall>t \<in> snd ` set ins. \<exists>b. N' b = Some t"
    and "\<forall>t \<in> snd ` set outs. \<exists>b \<in> step_outputs e. N' b = Some t"
  shows "built (es @ [e]) (steps @ [\<lparr>si_model_name = m, si_model_version = v,
    si_input_to_tensor = ins, si_output_to_tensor = outs\<rparr>]) N' tts'"
proof -
  have keep: "\<And>a t. N a = Some t \<Longrightarrow> N' a = Some t"
    using extends_Some [OF assms(2)] .
  have len: "length steps = length es" and num: "numbering N' (length tts')"
    using assms(1,2) by (auto simp: built_def extends_def)
  have steps: "\<forall>i < length es. (\<forall>t \<in> snd ` set (si_input_to_tensor (steps ! i)). \<exists>b. N' b = Some t) \<and>
      (\<forall>t \<in> snd ` set (si_output_to_tensor (steps ! i)). \<exists>b \<in> step_outputs (es ! i). N' b = Some t)"
    using assms(1) keep unfolding built_def by (metis (no_types, lifting))
  have readers: "i < length es \<and> t \<in> snd ` set (si_input_to_tensor (steps ! i)) \<or> i = length es \<and> t \<in> snd ` set ins"
    if "i \<in> readers_of tts' t" for t i
  proof (cases "i \<in> readers_of tts t")
    case True
    then show ?thesis
      using assms(1) unfolding built_def by blast
  next
    case False
    then show ?thesis
      using that assms(3) len by (auto split: if_splits dest!: spec [of _ t])
  qed
  show ?thesis
    unfolding built_def
  proof (intro conjI allI impI ballI)
    fix i t
    assume "i \<in> readers_of tts' t"
    then show "i < length (es @ [e])" and "t \<in> snd ` set (si_input_to_tensor ((steps @ [\<lparr>si_model_name = m,
        si_model_version = v, si_input_to_tensor = ins, si_output_to_tensor = outs\<rparr>]) ! i))"
      using readers [of i t] len by (auto simp: nth_append)
  next
    fix i t
    let ?steps = "steps @ [\<lparr>si_model_name = m, si_model_version = v, si_input_to_tensor = ins, si_output_to_tensor = outs\<rparr>]"
    assume i: "i < length (es @ [e])"
    have old: "i < length es \<Longrightarrow> ?steps ! i = steps ! i \<and> (es @ [e]) ! i = es ! i"
      and new: "\<not> i < length es \<Longrightarrow> si_input_to_tensor (?steps ! i) = ins \<and>
        si_output_to_tensor (?steps ! i) = outs \<and> (es @ [e]) ! i = e"
      using i len by (simp_all add: nth_append less_Suc_eq)
    show "\<exists>b. N' b = Some t" if "t \<in> snd ` set (si_input_to_tensor (?steps ! i))"
      using that old new steps assms(4) by (cases "i < length es") (metis (no_types))+
    show "\<exists>b \<in> step_outputs ((es @ [e]) ! i). N' b = Some t" if "t \<in> snd ` set (si_output_to_tensor (?steps ! i))"
      using that old new steps assms(5) by (cases "i < length es") (metis (no_types))+
  qed (use num len in simp_all)
qed

lemma add_steps_spec:
  assumes "add_steps es steps N tts = (steps', tts')" and "built done steps N tts"
    and "\<forall>e \<in> set es. distinct (map fst (es_input_map e))"
  shows "\<exists>N'. built (done @ es) steps' N' tts' \<and> N \<subseteq>\<^sub>m N'"
  using assms
proof (induction es arbitrary: steps N tts "done")
  case Nil
  then show ?case by auto
next
  case (Cons e es)
  obtain ins N1 t1 where i: "add_step_inputs (length steps) (es_input_map e) [] N tts = (ins, N1, t1)"
    by (metis prod_cases3)
  obtain outs N2 t2 where o: "add_step_outputs (es_output_map e) [] N1 t1 = (outs, N2, t2)"
    by (metis prod_cases3)
  let ?step = "\<lparr>si_model_name = es_model_name e, si_model_version = es_model_version e,
    si_input_to_tensor = ins, si_output_to_tensor = outs\<rparr>"
  have num: "numbering N (length tts)"
    using Cons.prems(2) by (simp add: built_def)
  have si: "extends N tts N1 t1 \<and> (\<forall>t \<in> snd ` set ins. \<exists>b. N1 b = Some t) \<and>
      (\<forall>t. readers_of t1 t \<subseteq> readers_of tts t \<union> (if t \<in> snd ` set ins then {length steps} else {}))"
    using add_step_inputs_spec [OF i num] Cons.prems(3) by simp
  have so: "extends N1 t1 N2 t2 \<and> (\<forall>t \<in> snd ` set outs. \<exists>b \<in> snd ` set (es_output_map e). N2 b = Some t) \<and>
      (\<forall>t. readers_of t2 t = readers_of t1 t)"
    using add_step_outputs_spec [OF o] si by (simp add: extends_def)
  have ext: "extends N tts N2 t2"
    by (rule extends_trans [OF conjunct1 [OF si] conjunct1 [OF so]])
  have ins2: "\<forall>t \<in> snd ` set ins. \<exists>b. N2 b = Some t"
    using si extends_Some [OF conjunct1 [OF so]] by blast
  have "built (done @ [e]) (steps @ [?step]) N2 t2"
    by (rule built_extend [OF Cons.prems(2) ext]) (use si so ins2 in \<open>simp_all add: step_outputs_def\<close>)
  moreover have "add_steps es (steps @ [?step]) N2 t2 = (steps', tts')"
    using Cons.prems(1) by (simp add: i o)
  ultimately obtain N' where "built ((done @ [e]) @ es) steps' N' tts'" "N2 \<subseteq>\<^sub>m N'"
    using Cons.IH Cons.prems(3) by (metis list.set_intros(2))
  then show ?case
    using ext by (auto simp: extends_def intro: map_le_trans)
qed

text \<open>The loops over the ensemble inputs and outputs.\<close>

lemma reserve_tensors_spec:
  assumes "reserve_tensors names to_t N tts = (to_t', N', tts')" and "numbering N (length tts)"
    and "\<forall>t. readers_of tts t = {}" and "distinct (map fst to_t)" and "\<forall>(a, t) \<in> set to_t. N a = Some t"
  shows "numbering N' (length tts') \<and> (\<forall>t. readers_of tts' t = {}) \<and>
    (\<forall>(a, t) \<in> set to_t'. N' a = Some t) \<and> fst ` set to_t' = fst ` set to_t \<union> set names \<and>
    (\<forall>a. a \<notin> set names \<longrightarrow> N' a = N a)"
  using assms
proof (induction names to_t N tts rule: reserve_tensors.induct)
  case (1 to_t N tts)
  then show ?case by simp
next
  case (2 a names to_t N tts)
  let ?to = "AList.update a (length tts) to_t" and ?N = "N(a \<mapsto> length tts)"
  have rest: "reserve_tensors names ?to ?N (tts @ [[]]) = (to_t', N', tts')"
    using "2.prems"(1) by (simp add: Let_def)
  have d: "distinct (map fst ?to)"
    using "2.prems"(4) by (rule distinct_update)
  have N: "\<forall>(b, t) \<in> set ?to. ?N b = Some t"
  proof clarify
    fix b t
    assume "(b, t) \<in> set ?to"
    then have "map_of ?to b = Some t"
      using d by simp
    then have "(if b = a then Some (length tts) else map_of to_t b) = Some t"
      by (simp add: update_conv split: if_splits)
    then show "?N b = Some t"
      using "2.prems"(5) by (auto split: if_splits dest: map_of_SomeD)
  qed
  have r: "\<forall>t. readers_of (tts @ [[]]) t = {}"
    using "2.prems"(3) by (auto simp: readers_of_def nth_append split: if_splits)
  have "numbering ?N (length (tts @ [[]]))"
    using numbering_new [OF "2.prems"(2)] by simp
  from "2.IH" [OF refl rest this r d N] show ?case
    by (auto simp: dom_update)
qed

section \<open>The ensemble of an accepted configuration\<close>

text \<open>No step writes an ensemble input, and no ensemble input is also an ensemble output.\<close>

definition inputs_only_read :: "model_config \<Rightarrow> bool" where
  "inputs_only_read c \<longleftrightarrow>
     (\<forall>e \<in> set (ensemble_steps c). step_outputs e \<inter> input_names c = {} \<and> distinct (map fst (es_input_map e))) \<and>
     input_names c \<inter> output_names c = {}"

lemma distinct_concat_index:
  "distinct (concat xss) \<Longrightarrow> i < length xss \<Longrightarrow> j < length xss \<Longrightarrow> x \<in> set (xss ! i) \<Longrightarrow> x \<in> set (xss ! j) \<Longrightarrow> i = j"
proof (induction xss arbitrary: i j)
  case Nil
  then show ?case by simp
next
  case (Cons xs xss)
  have "k < length xss \<Longrightarrow> x \<in> set (xss ! k) \<Longrightarrow> x \<notin> set xs" for k
    using Cons.prems(1) by (auto dest!: nth_mem)
  then show ?case
    using Cons by (cases i; cases j) auto
qed

lemma built_info:
  assumes "\<forall>e \<in> set (ensemble_steps c). distinct (map fst (es_input_map e))" and "input_names c \<inter> output_names c = {}"
  shows "\<exists>N. built (ensemble_steps c) (ei_steps (EnsembleScheduler c)) N (ei_tensor_to_step (EnsembleScheduler c)) \<and>
    (\<forall>(a, t) \<in> set (ei_input_to_tensor (EnsembleScheduler c)). N a = Some t \<and> a \<in> input_names c)"
proof -
  obtain ins N1 t1 where i: "reserve_tensors (map mi_name (mc_input c)) [] Map.empty [] = (ins, N1, t1)"
    by (metis prod_cases3)
  obtain outs N2 t2 where o: "reserve_tensors (map mo_name (mc_output c)) [] N1 t1 = (outs, N2, t2)"
    by (metis prod_cases3)
  obtain steps t3 where st: "add_steps (ensemble_steps c) [] N2 t2 = (steps, t3)"
    by fastforce
  have info: "ei_steps (EnsembleScheduler c) = steps" "ei_tensor_to_step (EnsembleScheduler c) = t3"
    "ei_input_to_tensor (EnsembleScheduler c) = ins"
    by (simp_all add: EnsembleScheduler_def i o st)
  have si: "numbering N1 (length t1) \<and> (\<forall>t. readers_of t1 t = {}) \<and> (\<forall>(a, t) \<in> set ins. N1 a = Some t) \<and>
      fst ` set ins = input_names c"
    using reserve_tensors_spec [OF i] by (simp add: numbering_def readers_of_def input_names_def)
  then have so: "numbering N2 (length t2) \<and> (\<forall>t. readers_of t2 t = {}) \<and> (\<forall>a. a \<notin> output_names c \<longrightarrow> N2 a = N1 a)"
    using reserve_tensors_spec [OF o] by (simp add: output_names_def)
  have ins2: "\<forall>(a, t) \<in> set ins. N2 a = Some t \<and> a \<in> input_names c"
  proof clarify
    fix a t
    assume mem: "(a, t) \<in> set ins"
    then have "a \<in> fst ` set ins"
      by force
    then have "a \<in> input_names c" "a \<notin> output_names c"
      using si assms(2) by blast+
    then show "N2 a = Some t \<and> a \<in> input_names c"
      using mem si so by auto
  qed
  have none: "built [] [] N2 t2"
    using so by (simp add: built_def)
  then obtain N where N: "built (ensemble_steps c) steps N t3" "N2 \<subseteq>\<^sub>m N"
    using add_steps_spec [OF st none assms(1)] by auto
  have "\<forall>(a, t) \<in> set ins. N a = Some t \<and> a \<in> input_names c"
    using ins2 N(2) by (fastforce simp: map_le_def dom_def)
  then show ?thesis
    using N(1) unfolding info by blast
qed

lemma EnsembleScheduler_wf:
  assumes "IsOk (ValidateEnsembleSchedulingConfig c)" and "inputs_only_read c"
  shows "info_wf (EnsembleScheduler c)"
proof -
  let ?info = "EnsembleScheduler c" and ?es = "ensemble_steps c"
  obtain N where b: "built ?es (ei_steps ?info) N (ei_tensor_to_step ?info)"
    and ins: "\<forall>(a, t) \<in> set (ei_input_to_tensor ?info). N a = Some t \<and> a \<in> input_names c"
    using built_info assms(2) unfolding inputs_only_read_def by blast
  have num: "numbering N (length (ei_tensor_to_step ?info))" and len: "length (ei_steps ?info) = length ?es"
    and inp: "\<And>i t. i < length ?es \<Longrightarrow> t \<in> step_ins ?info i \<Longrightarrow> \<exists>b. N b = Some t"
    and out: "\<And>i t. i < length ?es \<Longrightarrow> t \<in> step_outs ?info i \<Longrightarrow> \<exists>b \<in> step_outputs (?es ! i). N b = Some t"
    and rd: "\<And>t i. i \<in> readers_of (ei_tensor_to_step ?info) t \<Longrightarrow> i < length ?es \<and> t \<in> step_ins ?info i"
    using b unfolding built_def by blast+
  have dist: "distinct (concat (map (map snd \<circ> es_output_map) ?es))"
    by (rule ValidateEnsembleSchedulingConfig_graph [OF assms(1)])
      (auto dest!: BuildEnsembleGraph_represents simp: steps_ok_def)
  have writer: "i = j" if "i < length ?es" "j < length ?es" "b \<in> step_outputs (?es ! i)" "b \<in> step_outputs (?es ! j)" for i j b
    using distinct_concat_index [OF dist, of i j b] that by (simp add: step_outputs_def)
  show ?thesis
    unfolding info_wf_def len
  proof (intro conjI allI impI ballI)
    fix t i
    assume "t < length (ei_tensor_to_step ?info)" and "i \<in> set (ei_tensor_to_step ?info ! t)"
    then have "i \<in> readers_of (ei_tensor_to_step ?info) t"
      by (simp add: readers_of_def)
    then show "i < length ?es" and "t \<in> step_ins ?info i"
      using rd by blast+
  next
    fix i t
    assume i: "i < length ?es" and "t \<in> step_ins ?info i \<union> step_outs ?info i"
    then have "\<exists>b. N b = Some t"
      using inp out by blast
    then show "t < length (ei_tensor_to_step ?info)"
      using numberingD(2) [OF num] by blast
  next
    fix i j
    assume ij: "i < length ?es" "j < length ?es" and "step_outs ?info i \<inter> step_outs ?info j \<noteq> {}"
    then obtain t where t: "t \<in> step_outs ?info i" "t \<in> step_outs ?info j"
      by blast
    obtain b b' where b: "b \<in> step_outputs (?es ! i)" "N b = Some t" "b' \<in> step_outputs (?es ! j)" "N b' = Some t"
      using out [OF ij(1) t(1)] out [OF ij(2) t(2)] by blast
    have "b = b'"
      by (rule numberingD(1) [OF num b(2,4)])
    then show "i = j"
      using writer [OF ij b(1)] b(3) by simp
  next
    fix i
    assume i: "i < length ?es"
    have "t \<notin> snd ` set (ei_input_to_tensor ?info)" if t: "t \<in> step_outs ?info i" for t
    proof
      assume "t \<in> snd ` set (ei_input_to_tensor ?info)"
      then obtain a where a: "N a = Some t" "a \<in> input_names c"
        using ins by fastforce
      obtain b where b: "b \<in> step_outputs (?es ! i)" "N b = Some t"
        using out [OF i t] by blast
      then have "a = b"
        using numberingD(1) [OF num a(1)] by blast
      then show False
        using a(2) b(1) assms(2) i unfolding inputs_only_read_def by (meson disjoint_iff nth_mem)
    qed
    then show "step_outs ?info i \<inter> snd ` set (ei_input_to_tensor ?info) = {}"
      by blast
  qed
qed

end
