(* ===== verification/Response_Facts.thy ===== *)
theory Response_Facts
  imports Response_Provider
begin

text \<open>
  Properties of the response providers: the classes reported for an output are its top classes, the
  response header describes the outputs, the raw contents of a GRPC response match the header.
\<close>

section \<open>Top classes\<close>

definition weak_order :: "('v \<Rightarrow> 'v \<Rightarrow> bool) \<Rightarrow> bool" where
  "weak_order gt \<longleftrightarrow> (\<forall>a b. gt a b \<longrightarrow> \<not> gt b a) \<and> (\<forall>a b c. \<not> gt a b \<longrightarrow> \<not> gt b c \<longrightarrow> \<not> gt a c)"

text \<open>What the standard promises of \<open>std::sort\<close>.\<close>

definition sorts :: "((nat \<Rightarrow> nat \<Rightarrow> bool) \<Rightarrow> nat list \<Rightarrow> nat list) \<Rightarrow> bool" where
  "sorts std_sort \<longleftrightarrow>
     (\<forall>lt xs. mset (std_sort lt xs) = mset xs \<and>
        (weak_order lt \<longrightarrow> sorted_wrt (\<lambda>a b. \<not> lt b a) (std_sort lt xs)))"

text \<open>\<open>js\<close> are \<open>k\<close> of the indexes below \<open>n\<close>, by falling value, and no other has a larger value.\<close>

definition top_indexes :: "('v \<Rightarrow> 'v \<Rightarrow> bool) \<Rightarrow> (nat \<Rightarrow> 'v) \<Rightarrow> nat \<Rightarrow> nat \<Rightarrow> nat list \<Rightarrow> bool" where
  "top_indexes gt val n k js \<longleftrightarrow>
     length js = k \<and> distinct js \<and> set js \<subseteq> {..<n} \<and>
     sorted_wrt (\<lambda>a b. \<not> gt (val b) (val a)) js \<and>
     (\<forall>j \<in> set js. \<forall>l < n. l \<notin> set js \<longrightarrow> \<not> gt (val l) (val j))"

lemma weak_order_image: "weak_order gt \<Longrightarrow> weak_order (\<lambda>a b. gt (f a) (f b))"
  unfolding weak_order_def by blast

lemma take_of_sorted_wrt:
  assumes "sorted_wrt P s" and "a \<in> set (take k s)" and "b \<in> set s" and "b \<notin> set (take k s)"
  shows "P a b"
proof -
  have split: "s = take k s @ drop k s"
    by simp
  have "b \<in> set (drop k s)"
    using assms(3,4) by (metis UnE split set_append)
  moreover have "sorted_wrt P (take k s @ drop k s)"
    using assms(1) by simp
  ultimately show ?thesis
    using assms(2) unfolding sorted_wrt_append by blast
qed

lemma take_top:
  assumes "mset s = mset [0..<n]" and "sorted_wrt (\<lambda>a b. \<not> gt (val b) (val a)) s" and "k \<le> n"
  shows "top_indexes gt val n k (take k s)"
proof -
  have st: "set s = {..<n}" and len: "length s = n" and di: "distinct s"
    using mset_eq_setD [OF assms(1)] mset_eq_length [OF assms(1)] mset_eq_imp_distinct_iff [OF assms(1)]
    by (simp_all add: atLeast0LessThan)
  show ?thesis
    unfolding top_indexes_def
  proof (intro conjI ballI allI impI)
    show "length (take k s) = k"
      using len assms(3) by simp
    show "distinct (take k s)"
      using di by simp
    show "set (take k s) \<subseteq> {..<n}"
      using st by (metis set_take_subset)
    show "sorted_wrt (\<lambda>a b. \<not> gt (val b) (val a)) (take k s)"
      using assms(2) by (rule sorted_wrt_take)
    fix j l
    assume "j \<in> set (take k s)" and "l < n" and "l \<notin> set (take k s)"
    then show "\<not> gt (val l) (val j)"
      using take_of_sorted_wrt [OF assms(2), of j k l] st by blast
  qed
qed

lemma sorted_top:
  assumes "sorts std_sort" and "weak_order gt" and "k \<le> n"
  shows "top_indexes gt val n k (take k (std_sort (\<lambda>a b. gt (val a) (val b)) [0..<n]))"
  using assms(1) weak_order_image [OF assms(2), of val] assms(3)
  unfolding sorts_def by (intro take_top) blast+

definition classes_of :: "('v \<Rightarrow> 32 word) \<Rightarrow> (nat \<Rightarrow> string) \<Rightarrow> (nat \<Rightarrow> 'v) \<Rightarrow> nat list \<Rightarrow> class_result list" where
  "classes_of to_float label val js =
     map (\<lambda>j. \<lparr>cr_idx = int j, cr_label = label j, cr_value = to_float (val j)\<rparr>) js"

lemma batch_classes_top:
  assumes "sorts std_sort" and "weak_order gt" and "k \<le> n" and "n < 2 ^ 31"
  shows "\<exists>js. top_indexes gt (\<lambda>j. probs ! j) n k js \<and>
    batch_classes std_sort gt to_float probs n k lp lm name =
      classes_of to_float (class_label lp lm name) (\<lambda>j. probs ! j) js"
proof -
  let ?s = "std_sort (\<lambda>a b. gt (probs ! a) (probs ! b)) [0..<n]"
  have top: "top_indexes gt (\<lambda>j. probs ! j) n k (take k ?s)"
    by (rule sorted_top [OF assms(1-3)])
  then have len: "length (take k ?s) = k" and st: "set (take k ?s) \<subseteq> {..<n}"
    unfolding top_indexes_def by blast+
  have "batch_classes std_sort gt to_float probs n k lp lm name =
      classes_of to_float (class_label lp lm name) (\<lambda>j. probs ! j) (take k ?s)"
  proof (rule nth_equalityI)
    show "length (batch_classes std_sort gt to_float probs n k lp lm name) =
        length (classes_of to_float (class_label lp lm name) ((!) probs) (take k ?s))"
      using len by (simp add: batch_classes_def classes_of_def Let_def)
  next
    fix i
    assume "i < length (batch_classes std_sort gt to_float probs n k lp lm name)"
    then have i: "i < k"
      by (simp add: batch_classes_def Let_def)
    then have "take k ?s ! i \<in> set (take k ?s)"
      by (intro nth_mem) (simp only: len)
    then have "?s ! i < n"
      using st i by auto
    then have "wrap_s32 (int (?s ! i)) = int (?s ! i)"
      using assms(4) by (intro wrap_s32_id) auto
    then show "batch_classes std_sort gt to_float probs n k lp lm name ! i =
        classes_of to_float (class_label lp lm name) ((!) probs) (take k ?s) ! i"
      using i len by (simp add: batch_classes_def classes_of_def Let_def)
  qed
  with top show ?thesis by blast
qed

lemma class_results_loop_map:
  "so_batch_classes (class_results_loop classes n probs k out) =
   so_batch_classes out @ map (\<lambda>i. classes n (drop (i * n) probs)) [0..<k]"
  "so_name (class_results_loop classes n probs k out) = so_name out"
  "so_raw (class_results_loop classes n probs k out) = so_raw out"
  by (induction classes n probs k out rule: class_results_loop.induct)
    (simp_all add: map_upt_Suc add.commute del: upt_Suc)

lemma AddClassResults_sel [simp]:
  "so_name (AddClassResults s gt tf out probs n bs k lp lm) = so_name out"
  "so_raw (AddClassResults s gt tf out probs n bs k lp lm) = so_raw out"
  "length (so_batch_classes (AddClassResults s gt tf out probs n bs k lp lm)) =
     length (so_batch_classes out) + bs"
  by (simp_all add: AddClassResults_def class_results_loop_map Let_def)

text \<open>
  Claim C30. When the values of an output are ordered, a classification reports for every entry of
  the batch the \<open>cls_count\<close> largest of the entry's values (all of them when there are fewer), each
  index once and by falling value, with the label of the index and the value itself.
\<close>

theorem AddClassResults_top:
  assumes "sorts std_sort" and "weak_order gt" and "n < 2 ^ 31" and "batch_size * n \<le> length probs"
    and "so_batch_classes out = []" and "i < batch_size"
  shows "\<exists>js. top_indexes gt (\<lambda>j. probs ! (i * n + j)) n (min cls_count n) js \<and>
    so_batch_classes (AddClassResults std_sort gt to_float out probs n batch_size cls_count lp lm) ! i =
      classes_of to_float (class_label lp lm (so_name out)) (\<lambda>j. probs ! (i * n + j)) js"
proof -
  have "i * n \<le> length probs"
    using assms(4,6) by (metis le_trans less_imp_le mult_le_mono1)
  then have nth: "drop (i * n) probs ! j = probs ! (i * n + j)" for j
    by simp
  have "so_batch_classes (AddClassResults std_sort gt to_float out probs n batch_size cls_count lp lm) ! i =
      batch_classes std_sort gt to_float (drop (i * n) probs) n (min cls_count n) lp lm (so_name out)"
    using assms(5,6) by (simp add: AddClassResults_def class_results_loop_map Let_def)
  then show ?thesis
    using batch_classes_top [OF assms(1,2) _ assms(3), of "min cls_count n" "drop (i * n) probs"]
    by (simp add: nth)
qed

text \<open>Insertion sort, as a sort that meets the promise.\<close>

fun insert_by :: "(nat \<Rightarrow> nat \<Rightarrow> bool) \<Rightarrow> nat \<Rightarrow> nat list \<Rightarrow> nat list" where
  "insert_by lt x [] = [x]"
| "insert_by lt x (y # ys) = (if lt y x then y # insert_by lt x ys else x # y # ys)"

definition insertion_sort :: "(nat \<Rightarrow> nat \<Rightarrow> bool) \<Rightarrow> nat list \<Rightarrow> nat list" where
  "insertion_sort lt xs = foldr (insert_by lt) xs []"

lemma mset_insert_by [simp]: "mset (insert_by lt x ys) = add_mset x (mset ys)"
  by (induction lt x ys rule: insert_by.induct) auto

lemma set_insert_by [simp]: "set (insert_by lt x ys) = insert x (set ys)"
  by (metis mset_insert_by set_mset_add_mset_insert set_mset_mset)

lemma weak_orderD:
  assumes "weak_order gt"
  shows "gt a b \<Longrightarrow> \<not> gt b a" and "\<not> gt a b \<Longrightarrow> \<not> gt b c \<Longrightarrow> \<not> gt a c"
  using assms unfolding weak_order_def by blast+

lemma sorted_insert_by:
  assumes "weak_order lt" and "sorted_wrt (\<lambda>a b. \<not> lt b a) ys"
  shows "sorted_wrt (\<lambda>a b. \<not> lt b a) (insert_by lt x ys)"
  using assms(2)
proof (induction ys)
  case Nil
  then show ?case by simp
next
  case (Cons y ys)
  then have y: "\<forall>z \<in> set ys. \<not> lt z y"
    and ys: "sorted_wrt (\<lambda>a b. \<not> lt b a) ys" "sorted_wrt (\<lambda>a b. \<not> lt b a) (insert_by lt x ys)"
    by simp_all
  show ?case
  proof (cases "lt y x")
    case True
    then show ?thesis
      using y ys weak_orderD(1) [OF assms(1) True] by simp
  next
    case False
    then have "\<forall>z \<in> set ys. \<not> lt z x"
      using y weak_orderD(2) [OF assms(1)] by blast
    then show ?thesis
      using y ys False by simp
  qed
qed

lemma insertion_sort_sorts: "sorts insertion_sort"
proof -
  have "mset (insertion_sort lt xs) = mset xs \<and>
      (weak_order lt \<longrightarrow> sorted_wrt (\<lambda>a b. \<not> lt b a) (insertion_sort lt xs))" for lt xs
    by (induction xs) (auto simp: insertion_sort_def sorted_insert_by)
  then show ?thesis
    unfolding sorts_def by blast
qed

theorem AddClassResults_top_witness:
  "\<exists>js. top_indexes (>) (\<lambda>j. [3, 9, 5, 1::int] ! (0 * 4 + j)) 4 (min 2 4) js \<and>
    so_batch_classes (AddClassResults insertion_sort (>) (\<lambda>v. word_of_int v)
      \<lparr>so_name = ''OUT'', so_raw = None, so_batch_classes = []\<rparr> [3, 9, 5, 1] 4 1 2 Map.empty Map.empty) ! 0 =
      classes_of (\<lambda>v. word_of_int v) (class_label Map.empty Map.empty ''OUT'') (\<lambda>j. [3, 9, 5, 1] ! (0 * 4 + j)) js"
  using AddClassResults_top [OF insertion_sort_sorts, of "(>)" 4 1 "[3, 9, 5, 1::int]"
      "\<lparr>so_name = ''OUT'', so_raw = None, so_batch_classes = []\<rparr>" 0 2 "\<lambda>v. word_of_int v" Map.empty Map.empty]
  by (simp add: weak_order_def)

section \<open>A small response\<close>

text \<open>A sequence of calls of \<open>AllocateOutputBuffer\<close>, each for a name, a size and a shape.\<close>

fun grpc_allocate_all ::
  "(nat \<Rightarrow> 8 word) \<Rightarrow> (string \<times> nat \<times> int list) list \<Rightarrow> grpc_provider \<Rightarrow> grpc_provider" where
  "grpc_allocate_all garbage [] p = p"
| "grpc_allocate_all garbage ((name, byte_size, shape) # cs) p =
     grpc_allocate_all garbage cs (snd (snd (grpc_AllocateOutputBuffer garbage name Null_ptr byte_size shape p)))"

definition small_backend :: inference_backend where
  "small_backend = inference_backend_new\<lparr>ib_config := model_config_clear\<lparr>mc_name := ''m'', mc_max_batch_size := 8\<rparr>,
     ib_version := 1,
     ib_output_map := [''OUT'' \<mapsto> \<lparr>mo_name = ''OUT'', mo_data_type = TYPE_FP32, mo_dims = [4], mo_reshape = None,
        mo_label_filename = []\<rparr>]\<rparr>"

definition small_ops :: value_ops where
  "small_ops = \<lparr>vo_sort = insertion_sort, vo_float_gt = (\<lambda>a b. False), vo_to_float = (\<lambda>dt b. 0)\<rparr>"

definition small_response :: grpc_provider where
  "small_response = grpc_Create (request_header_clear\<lparr>rh_batch_size := 2,
     rh_output := [\<lparr>ro_name = ''OUT'', ro_cls = None\<rparr>]\<rparr>) Map.empty"

definition small_allocated :: grpc_provider where
  "small_allocated = grpc_allocate_all (\<lambda>_. 0) [(''OUT'', 32, [2, 4]), (''NONE'', 8, [2])] small_response"

section \<open>The response header\<close>

definition expected_shape :: "model_output \<Rightarrow> int list" where
  "expected_shape c = (case mo_reshape c of Some s \<Rightarrow> s | None \<Rightarrow> mo_dims c)"

text \<open>The shape of one batch entry: without the first dimension when the model batches.\<close>

definition entry_shape :: "inference_backend \<Rightarrow> provider_output \<Rightarrow> int list" where
  "entry_shape is o' = (if mc_max_batch_size (ib_config is) \<noteq> 0 then tl (op_shape o') else op_shape o')"

lemma batch1_shape_False: "fst (batch1_shape False ds shape cnt) = shape @ ds"
  by (induction ds arbitrary: shape cnt) auto

lemma batch1_shape_entry:
  "fst (batch1_shape (mc_max_batch_size (ib_config is) \<noteq> 0) (op_shape o') [] 1) = entry_shape is o'"
  by (cases "op_shape o'") (auto simp: entry_shape_def batch1_shape_False)

text \<open>An output the model has, of the shape the model declares, classified only for a type with classes.\<close>

definition output_fits :: "inference_backend \<Rightarrow> provider_output \<Rightarrow> bool" where
  "output_fits is o' \<longleftrightarrow>
     (\<exists>c. ib_output_map is (op_name o') = Some c \<and> CompareDimsWithWildcard (expected_shape c) (entry_shape is o') \<and>
        (op_cls_count o' = 0 \<or> mo_data_type c \<in> set class_types))"

definition describes :: "inference_backend \<Rightarrow> nat \<Rightarrow> provider_output \<Rightarrow> response_output \<Rightarrow> bool" where
  "describes is batch_size o' so \<longleftrightarrow>
     so_name so = op_name o' \<and>
     (if op_cls_count o' = 0 then
        so_batch_classes so = [] \<and>
        (\<exists>c. ib_output_map is (op_name o') = Some c \<and>
           so_raw so = Some \<lparr>rr_dims = (if mo_reshape c \<noteq> None then mo_dims c else entry_shape is o'),
                             rr_batch_byte_size = of_nat (op_byte_size o')\<rparr>)
      else so_raw so = None \<and> length (so_batch_classes so) = batch_size)"

definition output_of ::
  "value_ops \<Rightarrow> inference_backend \<Rightarrow> 'a response_provider_scheme \<Rightarrow> nat \<Rightarrow> provider_output \<Rightarrow> response_output" where
  "output_of ops is p batch_size o' =
     (let c = the (ib_output_map is (op_name o')); dt = mo_data_type c;
          poutput = \<lparr>so_name = op_name o', so_raw = None, so_batch_classes = []\<rparr>
      in if op_cls_count o' = 0 then
           poutput\<lparr>so_raw := Some
             \<lparr>rr_dims = (if mo_reshape c \<noteq> None then mo_dims c else entry_shape is o'),
              rr_batch_byte_size = of_nat (op_byte_size o')\<rparr>\<rparr>
         else AddClassResults (vo_sort ops) (value_gt (vo_float_gt ops) dt) (vo_to_float ops dt) poutput
                (elements (nat (GetDataTypeByteSize dt)) (case op_buffer o' of Some b \<Rightarrow> b | None \<Rightarrow> []))
                (unat (snd (batch1_shape (mc_max_batch_size (ib_config is) \<noteq> 0) (op_shape o') [] 1)))
                batch_size (op_cls_count o') (rv_label_provider p) (rv_secondary_label_provider_map p))"

lemma output_of_describes: "output_fits is o' \<Longrightarrow> describes is bs o' (output_of ops is p bs o')"
  by (auto simp: output_fits_def describes_def output_of_def Let_def)

lemma finalize_outputs_Cons:
  assumes "output_fits is o'"
  shows "finalize_outputs ops is p bs (o' # os) hdr =
    finalize_outputs ops is p bs os (hdr\<lparr>sh_output := sh_output hdr @ [output_of ops is p bs o']\<rparr>)"
proof -
  obtain c where c: "ib_output_map is (op_name o') = Some c" "GetOutput is (op_name o') = Inr c"
    "CompareDimsWithWildcard (expected_shape c) (entry_shape is o')"
    "op_cls_count o' = 0 \<or> mo_data_type c \<in> set class_types"
    using assms by (auto simp: output_fits_def)
  show ?thesis
    using c(1,3,4)
    by (cases "op_cls_count o' = 0")
      (simp_all add: c(2) output_of_def Let_def expected_shape_def split_beta batch1_shape_entry)
qed

lemma finalize_outputs_unfit:
  assumes "\<not> output_fits is o'"
  shows "\<not> IsOk (fst (finalize_outputs ops is p bs (o' # os) hdr))"
proof (cases "ib_output_map is (op_name o')")
  case None
  then show ?thesis
    by (simp add: GetOutput_def)
next
  case (Some c)
  then have c: "GetOutput is (op_name o') = Inr c"
    by simp
  show ?thesis
    using assms Some by (auto simp: c output_fits_def Let_def expected_shape_def split_beta batch1_shape_entry)
qed

lemma finalize_outputs_spec:
  "finalize_outputs ops is p bs os hdr = (st, hdr') \<Longrightarrow>
   (IsOk st \<longleftrightarrow> (\<forall>o' \<in> set os. output_fits is o')) \<and>
   (IsOk st \<longrightarrow> (\<exists>sos. hdr' = hdr\<lparr>sh_output := sh_output hdr @ sos\<rparr> \<and> list_all2 (describes is bs) os sos))"
proof (induction os arbitrary: hdr)
  case Nil
  then show ?case by auto
next
  case (Cons o' os)
  show ?case
  proof (cases "output_fits is o'")
    case True
    then have "finalize_outputs ops is p bs os (hdr\<lparr>sh_output := sh_output hdr @ [output_of ops is p bs o']\<rparr>) = (st, hdr')"
      using Cons.prems by (simp only: finalize_outputs_Cons)
    from Cons.IH [OF this] True output_of_describes [OF True, of bs ops p] show ?thesis
      by fastforce
  next
    case False
    then show ?thesis
      using finalize_outputs_unfit [OF False, of ops p bs os hdr] Cons.prems by simp
  qed
qed

text \<open>
  Claim C29. \<open>FinalizeResponse\<close> succeeds exactly when every buffered output is one of the model's, has
  the declared shape and, if it is classified, a type with classes. The response then names the
  model, its version and the batch size, and describes each output once, in the order of allocation:
  by the raw size and dims, or by one list of classes for each entry of the batch.
\<close>

theorem FinalizeResponse_describes:
  assumes "FinalizeResponse ops is p = (st, p')"
  shows "(IsOk st \<longleftrightarrow> (\<forall>o' \<in> set (rv_outputs p). output_fits is o')) \<and>
    (IsOk st \<longrightarrow>
       sh_model_name (rv_response_header p') = ib_Name is \<and>
       sh_model_version (rv_response_header p') = ib_version is \<and>
       sh_batch_size (rv_response_header p') = rh_batch_size (rv_request_header p) \<and>
       list_all2 (describes is (unat (rh_batch_size (rv_request_header p)))) (rv_outputs p)
         (sh_output (rv_response_header p')))"
proof -
  let ?bs = "unat (rh_batch_size (rv_request_header p))"
  let ?hdr = "response_header_clear\<lparr>sh_model_name := ib_Name is, sh_model_version := ib_version is,
    sh_batch_size := rh_batch_size (rv_request_header p)\<rparr>"
  obtain hdr' where f: "finalize_outputs ops is p ?bs (rv_outputs p) ?hdr = (st, hdr')" and p': "p' = p\<lparr>rv_response_header := hdr'\<rparr>"
    using assms by (auto simp: FinalizeResponse_def Let_def split: prod.splits)
  from finalize_outputs_spec [OF f] show ?thesis
    by (auto simp: p' response_header_clear_def)
qed

theorem FinalizeResponse_describes_witness:
  "IsOk (fst (FinalizeResponse small_ops small_backend small_allocated)) \<and>
   length (sh_output (rv_response_header (snd (FinalizeResponse small_ops small_backend small_allocated)))) = 1"
proof -
  have outs: "rv_outputs small_allocated = [\<lparr>op_name = ''OUT'', op_shape = [2, 4], op_cls_count = 0,
      op_ptr = Raw_output 0, op_byte_size = 32, op_buffer = None\<rparr>]"
    by (simp add: small_allocated_def small_response_def grpc_Create_def response_provider.defs grpc_provider.defs
        InferResponseProvider_def grpc_AllocateOutputBuffer_def CheckAndSetIfBufferedOutput_def
        map_insert_def set_last_output_def)
  then have "\<forall>o' \<in> set (rv_outputs small_allocated). output_fits small_backend o'"
    by (simp add: output_fits_def small_backend_def expected_shape_def entry_shape_def CompareDimsWithWildcard_iff)
  then show ?thesis
    using FinalizeResponse_describes [of small_ops small_backend small_allocated _ _, OF surjective_pairing]
      list_all2_lengthD outs by fastforce
qed

section \<open>Raw contents of a GRPC response\<close>

definition raw_of :: "provider_output \<Rightarrow> bytes \<Rightarrow> bool" where
  "raw_of o' raw \<longleftrightarrow> (if op_buffer o' = None then length raw = op_byte_size o' else raw = [])"

definition raw_matches :: "grpc_provider \<Rightarrow> bool" where
  "raw_matches p \<longleftrightarrow> list_all2 raw_of (rv_outputs p) (gv_raw_output p)"

lemma raw_matches_allocate:
  "raw_matches p \<Longrightarrow> raw_matches (snd (snd (grpc_AllocateOutputBuffer garbage name c n shape p)))"
  by (cases "rv_output_map p name"; cases "ro_cls (the (rv_output_map p name))")
    (auto simp: raw_matches_def grpc_AllocateOutputBuffer_def CheckAndSetIfBufferedOutput_def
      set_last_output_def Let_def raw_of_def intro!: list_all2_appendI)

text \<open>
  Whatever outputs a backend allocates, with or without errors, the raw contents of a GRPC
  response are as many as the outputs and in their order; the content of an output that is not
  classified has the size that was asked for, the content of a classified one stays empty.
\<close>

theorem grpc_raw_outputs_match:
  assumes "rv_outputs p = []" and "gv_raw_output p = []"
  shows "list_all2 raw_of (rv_outputs (grpc_allocate_all garbage cs p)) (gv_raw_output (grpc_allocate_all garbage cs p))"
proof -
  have "raw_matches p \<Longrightarrow> raw_matches (grpc_allocate_all garbage cs p)"
    by (induction garbage cs p rule: grpc_allocate_all.induct) (simp_all add: raw_matches_allocate)
  then show ?thesis
    using assms unfolding raw_matches_def by simp
qed

theorem grpc_raw_outputs_match_witness: "list_all2 raw_of (rv_outputs small_allocated) (gv_raw_output small_allocated)"
  unfolding small_allocated_def
  by (rule grpc_raw_outputs_match)
    (simp_all add: small_response_def grpc_Create_def response_provider.defs grpc_provider.defs InferResponseProvider_def)

end
