(* ===== verification/Backend_Life_Cycle.thy ===== *)
theory Backend_Life_Cycle
  imports Backend
begin

text \<open>
  \<open>ModelRepositoryManager::BackendLifeCycle\<close> (\<open>src/core/model_repository_manager.cc\<close>): the
  versions of the models the server has loaded, is loading or is unloading. Every function that holds
  the mutex of a \<open>BackendInfo\<close> for its whole body is a function on the state; the threads that
  load a backend, the detached threads that run when the last reference to a backend handle is
  dropped, the calls of \<open>AsyncLoad\<close> (which releases the mutex of a version before it takes the
  next one) and the requests that hold handles interleave in the step relation \<open>lc_step\<close>.
\<close>

section \<open>Data\<close>

datatype model_ready_state =
  MODEL_UNKNOWN | MODEL_READY | MODEL_UNAVAILABLE | MODEL_LOADING | MODEL_UNLOADING

fun ready_state_number :: "model_ready_state \<Rightarrow> int" where
  "ready_state_number MODEL_UNKNOWN = 0"
| "ready_state_number MODEL_READY = 1"
| "ready_state_number MODEL_UNAVAILABLE = 2"
| "ready_state_number MODEL_LOADING = 3"
| "ready_state_number MODEL_UNLOADING = 4"

datatype action_type = NO_ACTION | LOAD | UNLOAD

text \<open>A \<open>shared_ptr\<close> to a handle is the address of the handle, \<open>None\<close> the null pointer.\<close>

record backend_info =
  bi_platform :: platform
  bi_state :: model_ready_state
  bi_next_action :: action_type
  bi_model_config :: model_config
  bi_handle :: "nat option"

definition BackendInfo :: "model_ready_state \<Rightarrow> action_type \<Rightarrow> model_config \<Rightarrow> backend_info" where
  "BackendInfo state next_action config =
     \<lparr>bi_platform = GetPlatform (mc_platform config), bi_state = state, bi_next_action = next_action,
      bi_model_config = config, bi_handle = None\<rparr>"

text \<open>
  \<open>BackendHandleImpl\<close>: the backend (\<open>None\<close> for the null pointer), what the destroy callback
  captures, and the number of \<open>shared_ptr\<close>s that own the handle. \<open>bh_config\<close> is a ghost: the
  configuration the backend was created from.
\<close>

record backend_handle =
  bh_name :: string
  bh_version :: int
  bh_config :: model_config
  bh_backend :: "inference_backend option"
  bh_use_count :: nat

text \<open>A thread that runs \<open>CreateBackendHandle\<close>; the configuration once it has been copied.\<close>

record load_thread =
  lt_name :: string
  lt_version :: int
  lt_config :: "model_config option"

text \<open>A detached thread that runs the destroy callback of a handle.\<close>

record destroy_thread =
  dt_name :: string
  dt_version :: int
  dt_backend :: "inference_backend option"

type_synonym version_map = "(int \<times> backend_info) list"

record life_cycle =
  lc_map :: "string \<rightharpoonup> version_map"
  lc_load_threads :: "load_thread list"
  lc_handles :: "nat \<rightharpoonup> backend_handle"
  lc_next_handle :: nat
  lc_destroy_threads :: "destroy_thread list"
  lc_release_queue :: "inference_backend option list"
  lc_release_done :: bool

definition life_cycle_new :: life_cycle where
  "life_cycle_new =
     \<lparr>lc_map = Map.empty, lc_load_threads = [], lc_handles = Map.empty, lc_next_handle = 0,
      lc_destroy_threads = [], lc_release_queue = [], lc_release_done = False\<rparr>"

text \<open>A \<open>std::map\<close> with integer keys: an association list in ascending order.\<close>

fun vm_put :: "int \<Rightarrow> 'a \<Rightarrow> (int \<times> 'a) list \<Rightarrow> (int \<times> 'a) list" where
  "vm_put k v [] = [(k, v)]"
| "vm_put k v ((k', v') # m) =
     (if k < k' then (k, v) # (k', v') # m
      else if k = k' then (k, v) # m
      else (k', v') # vm_put k v m)"

text \<open>The \<open>BackendInfo*\<close> of a version; the entries of the map are never removed.\<close>

definition get_info :: "life_cycle \<Rightarrow> string \<Rightarrow> int \<Rightarrow> backend_info option" where
  "get_info lc name version =
     (case lc_map lc name of None \<Rightarrow> None | Some vm \<Rightarrow> map_of vm version)"

definition set_info :: "string \<Rightarrow> int \<Rightarrow> backend_info \<Rightarrow> life_cycle \<Rightarrow> life_cycle" where
  "set_info name version bi lc =
     lc\<lparr>lc_map := (lc_map lc)(name \<mapsto>
       vm_put version bi (case lc_map lc name of None \<Rightarrow> [] | Some vm \<Rightarrow> vm))\<rparr>"

section \<open>Loading and unloading a version\<close>

text \<open>
  One owner of a handle lets it go. The destructor of the handle, which runs with the last owner,
  starts a thread with the destroy callback.
\<close>

definition drop_handle :: "nat \<Rightarrow> life_cycle \<Rightarrow> life_cycle" where
  "drop_handle h lc =
     (case lc_handles lc h of
        None \<Rightarrow> lc
      | Some bh \<Rightarrow>
          if bh_use_count bh \<le> 1 then
            lc\<lparr>lc_handles := (lc_handles lc)(h := None),
               lc_destroy_threads := lc_destroy_threads lc @
                 [\<lparr>dt_name = bh_name bh, dt_version = bh_version bh, dt_backend = bh_backend bh\<rparr>]\<rparr>
          else lc\<lparr>lc_handles := (lc_handles lc)(h \<mapsto> bh\<lparr>bh_use_count := bh_use_count bh - 1\<rparr>)\<rparr>)"

definition Load :: "string \<Rightarrow> int \<Rightarrow> backend_info \<Rightarrow> life_cycle \<Rightarrow> status \<times> backend_info \<times> life_cycle" where
  "Load name version bi lc =
     (let bi1 = bi\<lparr>bi_next_action := NO_ACTION\<rparr> in
      case bi_state bi of
        MODEL_READY \<Rightarrow>
          (Status ALREADY_EXISTS (''tried to load model '' @ quote name @ '' version '' @
             show_int version @ '' which is being served''), bi1, lc)
      | MODEL_LOADING \<Rightarrow> (Status_Success, bi1\<lparr>bi_next_action := LOAD\<rparr>, lc)
      | MODEL_UNLOADING \<Rightarrow> (Status_Success, bi1\<lparr>bi_next_action := LOAD\<rparr>, lc)
      | _ \<Rightarrow>
          (Status_Success, bi1\<lparr>bi_state := MODEL_LOADING\<rparr>,
           lc\<lparr>lc_load_threads := lc_load_threads lc @
             [\<lparr>lt_name = name, lt_version = version, lt_config = None\<rparr>]\<rparr>))"

definition Unload :: "string \<Rightarrow> int \<Rightarrow> backend_info \<Rightarrow> life_cycle \<Rightarrow> status \<times> backend_info \<times> life_cycle" where
  "Unload name version bi lc =
     (let bi1 = bi\<lparr>bi_next_action := NO_ACTION\<rparr> in
      case bi_state bi of
        MODEL_READY \<Rightarrow>
          (Status_Success, bi1\<lparr>bi_state := MODEL_UNLOADING, bi_handle := None\<rparr>,
           (case bi_handle bi of None \<Rightarrow> lc | Some h \<Rightarrow> drop_handle h lc))
      | MODEL_LOADING \<Rightarrow> (Status_Success, bi1\<lparr>bi_next_action := UNLOAD\<rparr>, lc)
      | MODEL_UNLOADING \<Rightarrow> (Status_Success, bi1\<lparr>bi_next_action := UNLOAD\<rparr>, lc)
      | _ \<Rightarrow>
          (Status NOT_FOUND (''tried to unload model '' @ quote name @ '' version '' @
             show_int version @ '' which is at model state: '' @
             show_int (ready_state_number (bi_state bi))), bi1, lc))"

definition TriggerNextAction ::
  "string \<Rightarrow> int \<Rightarrow> backend_info \<Rightarrow> life_cycle \<Rightarrow> status \<times> backend_info \<times> life_cycle" where
  "TriggerNextAction name version bi lc =
     (let bi1 = bi\<lparr>bi_next_action := NO_ACTION\<rparr> in
      case bi_next_action bi of
        LOAD \<Rightarrow> (let (_, bi2, lc2) = Unload name version bi1 lc in Load name version bi2 lc2)
      | UNLOAD \<Rightarrow> Unload name version bi1 lc
      | NO_ACTION \<Rightarrow> (Status_Success, bi1, lc))"

text \<open>
  \<open>CreateBackendHandle\<close> copies the configuration under the mutex, creates the backend without it
  and takes it again for the rest. The outcome of the backend's factory is an argument; the factory
  of an unknown platform is not called, and the backend stays null with the status still a success.
\<close>

definition create_copy :: "load_thread \<Rightarrow> life_cycle \<Rightarrow> life_cycle" where
  "create_copy t lc =
     (case get_info lc (lt_name t) (lt_version t) of
        None \<Rightarrow> lc
      | Some bi \<Rightarrow>
          lc\<lparr>lc_load_threads := remove1 t (lc_load_threads lc) @
               [t\<lparr>lt_config := Some (bi_model_config bi)\<rparr>]\<rparr>)"

definition create_backend ::
  "platform \<Rightarrow> status + inference_backend \<Rightarrow> status + inference_backend option" where
  "create_backend p outcome =
     (if p = PLATFORM_UNKNOWN then Inr None
      else case outcome of Inl e \<Rightarrow> Inl e | Inr is \<Rightarrow> Inr (Some is))"

definition CreateBackendHandle ::
  "string \<Rightarrow> int \<Rightarrow> model_config \<Rightarrow> status + inference_backend \<Rightarrow> backend_info \<Rightarrow> life_cycle \<Rightarrow>
   status \<times> backend_info \<times> life_cycle" where
  "CreateBackendHandle name version config outcome bi lc =
     (let (bi1, lc1) =
        (if bi_handle bi \<noteq> None then (bi, lc)
         else case create_backend (bi_platform bi) outcome of
             Inr is \<Rightarrow>
               (bi\<lparr>bi_state := MODEL_READY, bi_handle := Some (lc_next_handle lc)\<rparr>,
                lc\<lparr>lc_handles := (lc_handles lc)(lc_next_handle lc \<mapsto>
                     \<lparr>bh_name = name, bh_version = version, bh_config = config, bh_backend = is,
                      bh_use_count = 1\<rparr>),
                   lc_next_handle := Suc (lc_next_handle lc)\<rparr>)
           | Inl e \<Rightarrow> (bi\<lparr>bi_state := MODEL_UNAVAILABLE\<rparr>, lc))
      in TriggerNextAction name version bi1 lc1)"

text \<open>The end of a loading thread, and the thread that runs the destroy callback.\<close>

definition load_finish :: "load_thread \<Rightarrow> status + inference_backend \<Rightarrow> life_cycle \<Rightarrow> life_cycle" where
  "load_finish t outcome lc =
     (case (get_info lc (lt_name t) (lt_version t), lt_config t) of
        (Some bi, Some config) \<Rightarrow>
          (let (_, bi', lc') = CreateBackendHandle (lt_name t) (lt_version t) config outcome bi
                 (lc\<lparr>lc_load_threads := remove1 t (lc_load_threads lc)\<rparr>)
           in set_info (lt_name t) (lt_version t) bi' lc')
      | _ \<Rightarrow> lc)"

definition on_destroy :: "destroy_thread \<Rightarrow> life_cycle \<Rightarrow> life_cycle" where
  "on_destroy d lc =
     (case get_info lc (dt_name d) (dt_version d) of
        None \<Rightarrow> lc
      | Some bi \<Rightarrow>
          (let (_, bi', lc') = TriggerNextAction (dt_name d) (dt_version d)
                 (bi\<lparr>bi_state := MODEL_UNAVAILABLE\<rparr>)
                 (lc\<lparr>lc_destroy_threads := remove1 d (lc_destroy_threads lc)\<rparr>);
               lc2 = set_info (dt_name d) (dt_version d) bi' lc'
           in lc2\<lparr>lc_release_queue := lc_release_queue lc2 @ [dt_backend d]\<rparr>))"

text \<open>The body of the release thread, which is not in a loop.\<close>

definition release_pass :: "life_cycle \<Rightarrow> life_cycle" where
  "release_pass lc = lc\<lparr>lc_release_queue := [], lc_release_done := True\<rparr>"

section \<open>The operations of the manager\<close>

text \<open>
  \<open>AsyncLoad\<close> is a sequence of sections, one for every time it holds the mutex of a version:
  the versions that exist are unloaded when the caller forces it, then the requested versions are
  loaded again.
\<close>

datatype lc_section = Unload_section int | Reload_section int

definition async_sections :: "life_cycle \<Rightarrow> string \<Rightarrow> int list \<Rightarrow> bool \<Rightarrow> lc_section list" where
  "async_sections lc name versions force_unload =
     (if force_unload then
        map (Unload_section \<circ> fst) (case lc_map lc name of None \<Rightarrow> [] | Some vm \<Rightarrow> vm)
      else []) @ map Reload_section versions"

definition async_begin :: "string \<Rightarrow> life_cycle \<Rightarrow> life_cycle" where
  "async_begin name lc =
     (if lc_map lc name = None then lc\<lparr>lc_map := (lc_map lc)(name \<mapsto> [])\<rparr> else lc)"

fun run_section :: "string \<Rightarrow> model_config \<Rightarrow> lc_section \<Rightarrow> life_cycle \<Rightarrow> status \<times> life_cycle" where
  "run_section name config (Unload_section version) lc =
     (case get_info lc name version of
        None \<Rightarrow> (Status_Success, lc)
      | Some bi \<Rightarrow>
          (let (_, bi1, lc1) = Unload name version bi lc
           in (Status_Success, set_info name version bi1 lc1)))"
| "run_section name config (Reload_section version) lc =
     (let bi = (case get_info lc name version of
                  None \<Rightarrow> BackendInfo MODEL_UNKNOWN NO_ACTION config
                | Some bi \<Rightarrow> bi);
          (_, bi1, lc1) = Unload name version (bi\<lparr>bi_model_config := config\<rparr>) lc;
          (st, bi2, lc2) = Load name version bi1 lc1
      in (st, set_info name version bi2 lc2))"

fun run_sections :: "string \<Rightarrow> model_config \<Rightarrow> lc_section list \<Rightarrow> life_cycle \<Rightarrow> status \<times> life_cycle" where
  "run_sections name config [] lc = (Status_Success, lc)"
| "run_sections name config (sec # secs) lc =
     (let (st, lc1) = run_section name config sec lc
      in if \<not> IsOk st then (st, lc1) else run_sections name config secs lc1)"

definition AsyncLoad ::
  "string \<Rightarrow> int list \<Rightarrow> model_config \<Rightarrow> bool \<Rightarrow> life_cycle \<Rightarrow> status \<times> life_cycle" where
  "AsyncLoad name versions config force_unload lc =
     (let lc1 = async_begin name lc
      in run_sections name config (async_sections lc1 name versions force_unload) lc1)"

definition live_state :: "model_ready_state \<Rightarrow> bool" where
  "live_state state \<longleftrightarrow> state \<noteq> MODEL_UNKNOWN \<and> state \<noteq> MODEL_UNAVAILABLE"

definition live_versions :: "version_map \<Rightarrow> (int \<times> model_ready_state) list" where
  "live_versions vm =
     [(v, bi_state bi). (v, bi) \<leftarrow> vm, live_state (bi_state bi)]"

definition GetLiveBackendStates :: "life_cycle \<Rightarrow> string \<rightharpoonup> (int \<times> model_ready_state) list" where
  "GetLiveBackendStates lc = (\<lambda>name.
     (case lc_map lc name of
        None \<Rightarrow> None
      | Some vm \<Rightarrow> if live_versions vm = [] then None else Some (live_versions vm)))"

definition GetVersionStates :: "life_cycle \<Rightarrow> string \<Rightarrow> (int \<times> model_ready_state) list" where
  "GetVersionStates lc name =
     (case lc_map lc name of None \<Rightarrow> [] | Some vm \<Rightarrow> map (\<lambda>(v, bi). (v, bi_state bi)) vm)"

text \<open>The loop over the versions when the latest one is asked for.\<close>

fun latest_loop :: "version_map \<Rightarrow> int \<Rightarrow> nat option \<Rightarrow> int \<times> nat option" where
  "latest_loop [] latest handle = (latest, handle)"
| "latest_loop ((v, bi) # vm) latest handle =
     (if v > latest \<and> bi_state bi = MODEL_READY then latest_loop vm v (bi_handle bi)
      else latest_loop vm latest handle)"

definition GetBackendHandle :: "life_cycle \<Rightarrow> string \<Rightarrow> int \<Rightarrow> status \<times> nat option" where
  "GetBackendHandle lc name version =
     (case lc_map lc name of
        None \<Rightarrow> (Status NOT_FOUND (''model '' @ quote name @ '' is not found''), None)
      | Some vm \<Rightarrow>
          (case map_of vm version of
             None \<Rightarrow>
               (let (latest, handle) = (if version = -1 then latest_loop vm (-1) None else (-1, None))
                in if latest = -1 then
                     (Status NOT_FOUND (''model '' @ quote name @ '' version '' @ show_int version @
                        '' is not found''), handle)
                   else (Status_Success, handle))
           | Some bi \<Rightarrow>
               if bi_state bi = MODEL_READY then (Status_Success, bi_handle bi)
               else (Status UNAVAILABLE (''model '' @ quote name @ '' version '' @ show_int version @
                       '' is not at ready state''), None)))"

text \<open>The caller's \<open>shared_ptr\<close> is one more owner of the handle.\<close>

definition take_handle :: "nat \<Rightarrow> life_cycle \<Rightarrow> life_cycle" where
  "take_handle h lc =
     (case lc_handles lc h of
        None \<Rightarrow> lc
      | Some bh \<Rightarrow> lc\<lparr>lc_handles := (lc_handles lc)(h \<mapsto> bh\<lparr>bh_use_count := Suc (bh_use_count bh)\<rparr>)\<rparr>)"

section \<open>The interleavings\<close>

text \<open>
  The system: the life cycle, the call of \<open>AsyncLoad\<close> that holds the mutex of the map (the
  sections it still has to run), and the owners of handles outside the life cycle. The versions are
  examined one by one in \<open>GetBackendHandle\<close>; as a version that is ready stays ready while the
  mutex of the map is held (\<open>lc_worker_keeps_ready\<close>), the call is one step here.
\<close>

record lc_system =
  sy_lc :: life_cycle
  sy_call :: "(string \<times> model_config \<times> lc_section list) option"
  sy_clients :: "nat list"

definition lc_system_new :: lc_system where
  "lc_system_new = \<lparr>sy_lc = life_cycle_new, sy_call = None, sy_clients = []\<rparr>"

datatype lc_event =
    Ev_load string int model_config
  | Ev_unload string int
  | Ev_failed string int
  | Ev_worker
  | Ev_client

fun section_event :: "string \<Rightarrow> model_config \<Rightarrow> lc_section \<Rightarrow> lc_event" where
  "section_event name config (Unload_section v) = Ev_unload name v"
| "section_event name config (Reload_section v) = Ev_load name v config"

inductive lc_step :: "lc_system \<Rightarrow> lc_event \<Rightarrow> lc_system \<Rightarrow> bool" where
  step_call: "sy_call s = None \<Longrightarrow>
    lc_step s Ev_client
      (s\<lparr>sy_lc := async_begin name (sy_lc s),
         sy_call := Some (name, config,
           async_sections (async_begin name (sy_lc s)) name versions force_unload)\<rparr>)"
| step_section: "sy_call s = Some (name, config, sec # secs) \<Longrightarrow>
    run_section name config sec (sy_lc s) = (st, lc) \<Longrightarrow>
    lc_step s (section_event name config sec)
      (s\<lparr>sy_lc := lc, sy_call := (if IsOk st then Some (name, config, secs) else None)\<rparr>)"
| step_return: "sy_call s = Some (name, config, []) \<Longrightarrow> lc_step s Ev_client (s\<lparr>sy_call := None\<rparr>)"
| step_get: "sy_call s = None \<Longrightarrow> GetBackendHandle (sy_lc s) name version = (st, Some h) \<Longrightarrow>
    lc_step s Ev_client (s\<lparr>sy_lc := take_handle h (sy_lc s), sy_clients := h # sy_clients s\<rparr>)"
| step_release: "h \<in> set (sy_clients s) \<Longrightarrow>
    lc_step s Ev_client (s\<lparr>sy_lc := drop_handle h (sy_lc s), sy_clients := remove1 h (sy_clients s)\<rparr>)"
| step_copy: "t \<in> set (lc_load_threads (sy_lc s)) \<Longrightarrow> lt_config t = None \<Longrightarrow>
    lc_step s Ev_worker (s\<lparr>sy_lc := create_copy t (sy_lc s)\<rparr>)"
| step_loaded: "t \<in> set (lc_load_threads (sy_lc s)) \<Longrightarrow> lt_config t \<noteq> None \<Longrightarrow>
    lc_step s Ev_worker (s\<lparr>sy_lc := load_finish t (Inr is) (sy_lc s)\<rparr>)"
| step_failed: "t \<in> set (lc_load_threads (sy_lc s)) \<Longrightarrow> lt_config t \<noteq> None \<Longrightarrow> \<not> IsOk e \<Longrightarrow>
    lc_step s (Ev_failed (lt_name t) (lt_version t)) (s\<lparr>sy_lc := load_finish t (Inl e) (sy_lc s)\<rparr>)"
| step_destroy: "d \<in> set (lc_destroy_threads (sy_lc s)) \<Longrightarrow>
    lc_step s Ev_worker (s\<lparr>sy_lc := on_destroy d (sy_lc s)\<rparr>)"
| step_queue: "\<not> lc_release_done (sy_lc s) \<Longrightarrow>
    lc_step s Ev_worker (s\<lparr>sy_lc := release_pass (sy_lc s)\<rparr>)"

inductive lc_run :: "lc_system \<Rightarrow> lc_event list \<Rightarrow> lc_system \<Rightarrow> bool" where
  run_nil: "lc_run s [] s"
| run_snoc: "lc_run s es t \<Longrightarrow> lc_step t e u \<Longrightarrow> lc_run s (es @ [e]) u"

end
