(* ===== verification/Server_Status.thy ===== *)
theory Server_Status
  imports Backend_Life_Cycle
begin

text \<open>
  \<open>src/core/server_status.cc\<close>: the statistics the server keeps of its models, the timers that
  measure the durations and the status it reports. Every operation of the manager holds its mutex for
  its whole body and is a function on the status; the counters are 64-bit words that wrap around.
\<close>

section \<open>Data\<close>

record stat_duration =
  sd_count :: "64 word"
  sd_total_time_ns :: "64 word"

record infer_request_stats =
  is_success :: stat_duration
  is_failed :: stat_duration
  is_compute :: stat_duration
  is_queue :: stat_duration

record model_version_status =
  vs_ready_state :: model_ready_state
  vs_infer_stats :: "32 word \<rightharpoonup> infer_request_stats"
  vs_model_execution_count :: "64 word"
  vs_model_inference_count :: "64 word"

record model_status =
  ms_config :: model_config
  ms_version_status :: "int \<rightharpoonup> model_version_status"

datatype server_ready_state =
  SERVER_INVALID | SERVER_INITIALIZING | SERVER_READY | SERVER_EXITING | SERVER_FAILED_TO_INITIALIZE

record server_status =
  ss_id :: string
  ss_version :: string
  ss_ready_state :: server_ready_state
  ss_uptime_ns :: "64 word"
  ss_model_status :: "string \<rightharpoonup> model_status"
  ss_status_stats :: stat_duration
  ss_profile_stats :: stat_duration
  ss_health_stats :: stat_duration

definition stat_zero :: stat_duration where
  "stat_zero = \<lparr>sd_count = 0, sd_total_time_ns = 0\<rparr>"

definition stats_zero :: infer_request_stats where
  "stats_zero = \<lparr>is_success = stat_zero, is_failed = stat_zero, is_compute = stat_zero, is_queue = stat_zero\<rparr>"

definition version_status_new :: model_version_status where
  "version_status_new =
     \<lparr>vs_ready_state = MODEL_UNKNOWN, vs_infer_stats = Map.empty, vs_model_execution_count = 0,
      vs_model_inference_count = 0\<rparr>"

definition server_status_clear :: server_status where
  "server_status_clear =
     \<lparr>ss_id = [], ss_version = [], ss_ready_state = SERVER_INVALID, ss_uptime_ns = 0,
      ss_model_status = Map.empty, ss_status_stats = stat_zero, ss_profile_stats = stat_zero,
      ss_health_stats = stat_zero\<rparr>"

section \<open>The status of the models\<close>

definition ServerStatusManager :: "string \<Rightarrow> server_status" where
  "ServerStatusManager version =
     (if version \<noteq> [] then server_status_clear\<lparr>ss_version := version\<rparr> else server_status_clear)"

definition InitForModel :: "string \<Rightarrow> model_config \<Rightarrow> server_status \<Rightarrow> status \<times> server_status" where
  "InitForModel name config ss =
     (Status_Success,
      ss\<lparr>ss_model_status := (ss_model_status ss)(name \<mapsto>
        \<lparr>ms_config = config, ms_version_status = Map.empty\<rparr>)\<rparr>)"

definition UpdateConfigForModel :: "string \<Rightarrow> model_config \<Rightarrow> server_status \<Rightarrow> status \<times> server_status" where
  "UpdateConfigForModel name config ss =
     (case ss_model_status ss name of
        None \<Rightarrow> (Status INVALID_ARG (''try to update config for non-existing model '' @ quote name), ss)
      | Some ms \<Rightarrow>
          (Status_Success, ss\<lparr>ss_model_status := (ss_model_status ss)(name \<mapsto> ms\<lparr>ms_config := config\<rparr>)\<rparr>))"

text \<open>
  Every version with a status becomes unavailable, then the versions the life cycle knows get their
  state; \<open>states\<close> is the result of \<open>GetVersionStates\<close> for the name in the configuration.
\<close>

fun set_version_states ::
  "(int \<times> model_ready_state) list \<Rightarrow> (int \<rightharpoonup> model_version_status) \<Rightarrow> (int \<rightharpoonup> model_version_status)" where
  "set_version_states [] mvs = mvs"
| "set_version_states ((v, state) # states) mvs =
     set_version_states states (mvs(v \<mapsto>
       (case mvs v of None \<Rightarrow> version_status_new | Some vs \<Rightarrow> vs)\<lparr>vs_ready_state := state\<rparr>))"

definition SetModelVersionReadyState :: "(string \<Rightarrow> (int \<times> model_ready_state) list) \<Rightarrow> model_status \<Rightarrow> model_status" where
  "SetModelVersionReadyState states ms =
     ms\<lparr>ms_version_status := set_version_states (states (mc_name (ms_config ms)))
       (\<lambda>v. map_option (vs_ready_state_update (\<lambda>_. MODEL_UNAVAILABLE)) (ms_version_status ms v))\<rparr>"

definition Get_all ::
  "string \<Rightarrow> server_ready_state \<Rightarrow> 64 word \<Rightarrow> (string \<Rightarrow> (int \<times> model_ready_state) list) \<Rightarrow>
   server_status \<Rightarrow> status + server_status" where
  "Get_all server_id ready_state uptime_ns states ss =
     Inr (ss\<lparr>ss_id := server_id, ss_ready_state := ready_state, ss_uptime_ns := uptime_ns,
             ss_model_status := (\<lambda>name.
               map_option (SetModelVersionReadyState states) (ss_model_status ss name))\<rparr>)"

definition Get_model ::
  "string \<Rightarrow> server_ready_state \<Rightarrow> 64 word \<Rightarrow> string \<Rightarrow> (string \<Rightarrow> (int \<times> model_ready_state) list) \<Rightarrow>
   server_status \<Rightarrow> status + server_status" where
  "Get_model server_id ready_state uptime_ns model_name states ss =
     (case ss_model_status ss model_name of
        None \<Rightarrow> Inl (Status INVALID_ARG (''no status available for unknown model '' @ quote model_name))
      | Some ms \<Rightarrow>
          Inr (server_status_clear\<lparr>ss_version := ss_version ss, ss_id := server_id,
                 ss_ready_state := ready_state, ss_uptime_ns := uptime_ns,
                 ss_model_status := [model_name \<mapsto> SetModelVersionReadyState states ms]\<rparr>))"

section \<open>Statistics\<close>

datatype server_stat_kind = STAT_STATUS | STAT_PROFILE | STAT_HEALTH

definition add_duration :: "64 word \<Rightarrow> stat_duration \<Rightarrow> stat_duration" where
  "add_duration duration d = \<lparr>sd_count = sd_count d + 1, sd_total_time_ns = sd_total_time_ns d + duration\<rparr>"

definition UpdateServerStat :: "64 word \<Rightarrow> server_stat_kind \<Rightarrow> server_status \<Rightarrow> server_status" where
  "UpdateServerStat duration kind ss =
     (case kind of
        STAT_STATUS \<Rightarrow> ss\<lparr>ss_status_stats := add_duration duration (ss_status_stats ss)\<rparr>
      | STAT_PROFILE \<Rightarrow> ss\<lparr>ss_profile_stats := add_duration duration (ss_profile_stats ss)\<rparr>
      | STAT_HEALTH \<Rightarrow> ss\<lparr>ss_health_stats := add_duration duration (ss_health_stats ss)\<rparr>)"

definition set_duration :: "64 word \<Rightarrow> stat_duration" where
  "set_duration duration = \<lparr>sd_count = 1, sd_total_time_ns = duration\<rparr>"

definition update_model ::
  "string \<Rightarrow> (model_status \<Rightarrow> model_status) \<Rightarrow> server_status \<Rightarrow> server_status" where
  "update_model name f ss =
     (case ss_model_status ss name of
        None \<Rightarrow> ss
      | Some ms \<Rightarrow> ss\<lparr>ss_model_status := (ss_model_status ss)(name \<mapsto> f ms)\<rparr>)"

text \<open>The key of the statistics is a 32-bit word, the batch size a 64-bit one.\<close>

definition failed_stats :: "64 word \<Rightarrow> infer_request_stats option \<Rightarrow> infer_request_stats" where
  "failed_stats duration old =
     (case old of
        None \<Rightarrow> stats_zero\<lparr>is_failed := set_duration duration\<rparr>
      | Some stats \<Rightarrow> stats\<lparr>is_failed := add_duration duration (is_failed stats)\<rparr>)"

definition UpdateFailedInferStats ::
  "string \<Rightarrow> int \<Rightarrow> 64 word \<Rightarrow> 64 word \<Rightarrow> server_status \<Rightarrow> server_status" where
  "UpdateFailedInferStats model_name model_version batch_size request_duration_ns =
     update_model model_name (\<lambda>ms.
       ms\<lparr>ms_version_status := (ms_version_status ms)(model_version \<mapsto>
         (case ms_version_status ms model_version of
            None \<Rightarrow> version_status_new\<lparr>vs_infer_stats := [ucast batch_size \<mapsto> failed_stats request_duration_ns None]\<rparr>
          | Some vs \<Rightarrow> vs\<lparr>vs_infer_stats := (vs_infer_stats vs)(ucast batch_size \<mapsto>
              failed_stats request_duration_ns (vs_infer_stats vs (ucast batch_size)))\<rparr>))\<rparr>)"

definition success_stats ::
  "64 word \<Rightarrow> 64 word \<Rightarrow> 64 word \<Rightarrow> infer_request_stats option \<Rightarrow> infer_request_stats" where
  "success_stats request_ns queue_ns compute_ns old =
     (case old of
        None \<Rightarrow> stats_zero\<lparr>is_success := set_duration request_ns, is_compute := set_duration compute_ns,
                  is_queue := set_duration queue_ns\<rparr>
      | Some stats \<Rightarrow> stats\<lparr>is_success := add_duration request_ns (is_success stats),
                  is_compute := add_duration compute_ns (is_compute stats),
                  is_queue := add_duration queue_ns (is_queue stats)\<rparr>)"

definition UpdateSuccessInferStats ::
  "string \<Rightarrow> int \<Rightarrow> 64 word \<Rightarrow> 32 word \<Rightarrow> 64 word \<Rightarrow> 64 word \<Rightarrow> 64 word \<Rightarrow> server_status \<Rightarrow> server_status" where
  "UpdateSuccessInferStats model_name model_version batch_size execution_cnt request_ns queue_ns compute_ns ss =
     (if batch_size = 0 then ss
      else update_model model_name (\<lambda>ms.
        ms\<lparr>ms_version_status := (ms_version_status ms)(model_version \<mapsto>
          (case ms_version_status ms model_version of
             None \<Rightarrow> version_status_new\<lparr>vs_model_inference_count := batch_size,
               vs_model_execution_count := ucast execution_cnt,
               vs_infer_stats := [ucast batch_size \<mapsto> success_stats request_ns queue_ns compute_ns None]\<rparr>
           | Some vs \<Rightarrow> vs\<lparr>vs_model_inference_count := vs_model_inference_count vs + batch_size,
               vs_model_execution_count := vs_model_execution_count vs + ucast execution_cnt,
               vs_infer_stats := (vs_infer_stats vs)(ucast batch_size \<mapsto>
                 success_stats request_ns queue_ns compute_ns (vs_infer_stats vs (ucast batch_size)))\<rparr>))\<rparr>) ss)"

section \<open>Timers\<close>

text \<open>
  A \<open>timespec\<close> of the monotonic clock; the arguments of the operations are the times the clock
  returns. \<open>duration_ptr_\<close> is the field of the statistics the destructor writes to.
\<close>

type_synonym timespec = "64 word \<times> 64 word"

definition timespec_ns :: "timespec \<Rightarrow> 64 word" where
  "timespec_ns ts = fst ts * 1000000000 + snd ts"

definition elapsed_ns :: "timespec \<Rightarrow> timespec \<Rightarrow> 64 word" where
  "elapsed_ns start finish =
     (if timespec_ns start > timespec_ns finish then 0 else timespec_ns finish - timespec_ns start)"

datatype duration_ptr = Request_duration | Queue_duration | Compute_duration

record scoped_timer =
  tm_start :: timespec
  tm_cummulative_duration_ns :: "64 word"
  tm_duration_ptr :: "duration_ptr option"

record model_infer_stats =
  st_model_name :: string
  st_requested_model_version :: int
  st_batch_size :: "64 word"
  st_failed :: bool
  st_execution_count :: "32 word"
  st_request_duration_ns :: "64 word"
  st_queue_duration_ns :: "64 word"
  st_compute_duration_ns :: "64 word"

definition ScopedTimer :: scoped_timer where
  "ScopedTimer = \<lparr>tm_start = (0, 0), tm_cummulative_duration_ns = 0, tm_duration_ptr = None\<rparr>"

definition ModelInferStats :: "string \<Rightarrow> model_infer_stats" where
  "ModelInferStats name =
     \<lparr>st_model_name = name, st_requested_model_version = -1, st_batch_size = 0, st_failed = False,
      st_execution_count = 0, st_request_duration_ns = 0, st_queue_duration_ns = 0,
      st_compute_duration_ns = 0\<rparr>"

definition timer_Start :: "timespec \<Rightarrow> scoped_timer \<Rightarrow> scoped_timer" where
  "timer_Start now tm = tm\<lparr>tm_start := now\<rparr>"

definition timer_Stop :: "timespec \<Rightarrow> scoped_timer \<Rightarrow> scoped_timer" where
  "timer_Stop now tm =
     (if fst (tm_start tm) \<noteq> 0 then
        tm\<lparr>tm_cummulative_duration_ns := tm_cummulative_duration_ns tm + elapsed_ns (tm_start tm) now,
           tm_start := (0, 0)\<rparr>
      else tm)"

definition StartTimer :: "duration_ptr \<Rightarrow> timespec \<Rightarrow> scoped_timer \<Rightarrow> scoped_timer" where
  "StartTimer p now tm = timer_Start now (tm\<lparr>tm_duration_ptr := Some p\<rparr>)"

definition timer_destroy :: "timespec \<Rightarrow> scoped_timer \<Rightarrow> model_infer_stats \<Rightarrow> model_infer_stats" where
  "timer_destroy now tm st =
     (let d = tm_cummulative_duration_ns (timer_Stop now tm) in
      case tm_duration_ptr tm of
        None \<Rightarrow> st
      | Some Request_duration \<Rightarrow> st\<lparr>st_request_duration_ns := d\<rparr>
      | Some Queue_duration \<Rightarrow> st\<lparr>st_queue_duration_ns := d\<rparr>
      | Some Compute_duration \<Rightarrow> st\<lparr>st_compute_duration_ns := d\<rparr>)"

text \<open>\<open>reporter\<close> is the model version of the metric reporter, if there is one.\<close>

definition ModelInferStats_destroy :: "int option \<Rightarrow> model_infer_stats \<Rightarrow> server_status \<Rightarrow> server_status" where
  "ModelInferStats_destroy reporter st ss =
     (let model_version = (case reporter of None \<Rightarrow> st_requested_model_version st | Some v \<Rightarrow> v) in
      if st_failed st then
        UpdateFailedInferStats (st_model_name st) model_version (st_batch_size st) (st_request_duration_ns st) ss
      else
        UpdateSuccessInferStats (st_model_name st) model_version (st_batch_size st) (st_execution_count st)
          (st_request_duration_ns st) (st_queue_duration_ns st) (st_compute_duration_ns st) ss)"

definition ServerStatTimer_destroy ::
  "bool \<Rightarrow> timespec \<Rightarrow> timespec \<Rightarrow> server_stat_kind \<Rightarrow> server_status \<Rightarrow> server_status" where
  "ServerStatTimer_destroy enabled start now kind ss =
     (if enabled then UpdateServerStat (elapsed_ns start now) kind ss else ss)"

end
