(* ===== verification/Model_Repository.thy ===== *)
theory Model_Repository
  imports Server_Status
begin

text \<open>
  \<open>ModelRepositoryManager\<close> (\<open>src/core/model_repository_manager.cc\<close>): polling the repository for
  added, changed and deleted models, the versions to load of each, and the calls of the life cycle
  that follow. The file system and the configuration's readers are the fields of \<open>repository\<close>.
\<close>

section \<open>The repository\<close>

text \<open>
  \<open>rp_subdirs\<close> is \<open>GetDirectorySubdirs\<close>, a \<open>std::set\<close>, so its list is in ascending order without
  repetitions; \<open>rp_modified_time\<close> is \<open>GetModifiedTime\<close>.
\<close>

record repository =
  rp_path :: string
  rp_is_directory :: "string \<Rightarrow> status + bool"
  rp_subdirs :: "string \<Rightarrow> status + string list"
  rp_modified_time :: "string \<Rightarrow> int"
  rp_file_exists :: "string \<Rightarrow> status + bool"
  rp_read_text_proto :: "string \<Rightarrow> status + model_config"
  rp_autofill_fix :: "string \<Rightarrow> string \<Rightarrow> model_config \<Rightarrow> status + model_config"
  rp_cuda :: cuda_result

text \<open>
  \<open>GetModifiedTime\<close> on a file system given by its functions; the fuel is the depth of the
  directories visited, and a tree deeper than the fuel gives \<open>None\<close>.
\<close>

fun max_over :: "(string \<Rightarrow> int option) \<Rightarrow> string list \<Rightarrow> int \<Rightarrow> int option" where
  "max_over f [] m = Some m"
| "max_over f (child # children) m =
     (case f child of None \<Rightarrow> None | Some t \<Rightarrow> max_over f children (max m t))"

fun GetModifiedTime ::
  "(string \<Rightarrow> status + bool) \<Rightarrow> (string \<Rightarrow> status + int) \<Rightarrow> (string \<Rightarrow> status + string list) \<Rightarrow>
   nat \<Rightarrow> string \<Rightarrow> int option" where
  "GetModifiedTime is_directory mtime contents 0 path = None"
| "GetModifiedTime is_directory mtime contents (Suc fuel) path =
     (case is_directory path of
        Inl e \<Rightarrow> Some 0
      | Inr path_is_dir \<Rightarrow>
          (case mtime path of
             Inl e \<Rightarrow> Some 0
           | Inr t \<Rightarrow>
               if \<not> path_is_dir then Some t
               else
                 (case contents path of
                    Inl e \<Rightarrow> Some 0
                  | Inr children \<Rightarrow>
                      max_over (\<lambda>child. GetModifiedTime is_directory mtime contents fuel (JoinPath [path, child]))
                        children t)))"

definition IsModified :: "int \<Rightarrow> int \<Rightarrow> bool \<times> int" where
  "IsModified repo_ns last_ns = (repo_ns > last_ns, repo_ns)"

record model_info =
  in_mtime_nsec :: int
  in_model_config :: model_config
  in_platform :: platform

text \<open>The map from names to information; the order is that of its construction.\<close>

type_synonym model_info_map = "(string \<times> model_info) list"

section \<open>The versions to load\<close>

text \<open>
  \<open>std::stoll\<close> throws \<open>invalid_argument\<close>, which is caught, or \<open>out_of_range\<close>, which is not: the
  exception then leaves \<open>VersionsToLoad\<close>.
\<close>

datatype 'a outcome = Thrown | Returned 'a

text \<open>A \<open>std::set<int64_t, std::greater<int64_t>>\<close>: a descending list without repetitions.\<close>

fun desc_insert :: "int \<Rightarrow> int list \<Rightarrow> int list" where
  "desc_insert v [] = [v]"
| "desc_insert v (w # ws) =
     (if v > w then v # w # ws else if v = w then w # ws else w # desc_insert v ws)"

fun existing_loop :: "string list \<Rightarrow> int list \<Rightarrow> int list outcome" where
  "existing_loop [] existing = Returned existing"
| "existing_loop (subdir # subdirs) existing =
     (case stoll subdir of
        Inr version \<Rightarrow> existing_loop subdirs (desc_insert version existing)
      | Inl Stoll_invalid_argument \<Rightarrow> existing_loop subdirs existing
      | Inl Stoll_out_of_range \<Rightarrow> Thrown)"

fun specific_loop :: "int list \<Rightarrow> int list \<Rightarrow> int list \<Rightarrow> int list" where
  "specific_loop [] existing versions = versions"
| "specific_loop (v # vs) existing versions =
     (if v \<notin> set existing then specific_loop vs (desc_insert v existing) versions
      else specific_loop vs existing (versions @ [v]))"

fun latest_versions :: "int list \<Rightarrow> nat \<Rightarrow> int list \<Rightarrow> int list" where
  "latest_versions [] n versions = versions"
| "latest_versions (v # vs) n versions =
     (if length versions \<ge> n then versions else latest_versions vs n (versions @ [v]))"

definition choose_versions :: "version_policy option \<Rightarrow> int list \<Rightarrow> int list" where
  "choose_versions policy existing =
     (case policy of
        Some (Policy_specific vs) \<Rightarrow> specific_loop vs existing []
      | Some (Policy_latest n) \<Rightarrow> latest_versions existing (unat n) []
      | _ \<Rightarrow> existing)"

definition VersionsToLoad :: "repository \<Rightarrow> string \<Rightarrow> model_config \<Rightarrow> (status + int list) outcome" where
  "VersionsToLoad rp name config =
     (case rp_subdirs rp (JoinPath [rp_path rp, name]) of
        Inl e \<Rightarrow> Returned (Inl e)
      | Inr subdirs \<Rightarrow>
          (case existing_loop subdirs [] of
             Thrown \<Rightarrow> Thrown
           | Returned existing \<Rightarrow> Returned (Inr (choose_versions (mc_version_policy config) existing))))"

section \<open>Polling\<close>

record poll_result =
  pr_added :: "string list"
  pr_deleted :: "string list"
  pr_modified :: "string list"
  pr_unmodified :: "string list"
  pr_infos :: model_info_map

definition load_info :: "repository \<Rightarrow> bool \<Rightarrow> string \<Rightarrow> int \<Rightarrow> status + model_info" where
  "load_info rp autofill child mtime_ns =
     bind_status (GetNormalizedModelConfig (rp_file_exists rp) (rp_read_text_proto rp) (rp_autofill_fix rp)
         (rp_cuda rp) (JoinPath [rp_path rp, child]) autofill) (\<lambda>config.
       (let st = ValidateModelConfig (rp_cuda rp) config [] in
        if \<not> IsOk st then Inl st
        else if mc_name config \<noteq> child then
          Inl (Status INVALID_ARG (''unexpected directory name '' @ quote child @ '' for model '' @
            quote (mc_name config) @ '', directory name must equal model name''))
        else Inr \<lparr>in_mtime_nsec = mtime_ns, in_model_config = config,
                  in_platform = GetPlatform (mc_platform config)\<rparr>))"

definition emplace_info :: "string \<Rightarrow> model_info_map \<Rightarrow> (model_info_map \<Rightarrow> status + 'a) \<Rightarrow> status + 'a" where
  "emplace_info child new_infos k =
     (if child \<in> fst ` set new_infos then
        Inl (Status ALREADY_EXISTS (''unexpected model info for model '' @ quote child))
      else k new_infos)"

fun poll_loop ::
  "repository \<Rightarrow> bool \<Rightarrow> model_info_map \<Rightarrow> string list \<Rightarrow> poll_result \<Rightarrow> status + poll_result" where
  "poll_loop rp autofill infos [] pr = Inr pr"
| "poll_loop rp autofill infos (child # subdirs) pr =
     (let repo_ns = rp_modified_time rp (JoinPath [rp_path rp, child]) in
      case map_of infos child of
        None \<Rightarrow>
          emplace_info child (pr_infos pr) (\<lambda>new_infos.
            bind_status (load_info rp autofill child repo_ns) (\<lambda>info.
              poll_loop rp autofill infos subdirs
                (pr\<lparr>pr_added := pr_added pr @ [child], pr_infos := new_infos @ [(child, info)]\<rparr>)))
      | Some old \<Rightarrow>
          (let (modified, mtime_ns) = IsModified repo_ns (in_mtime_nsec old) in
           if modified then
             emplace_info child (pr_infos pr) (\<lambda>new_infos.
               bind_status (load_info rp autofill child mtime_ns) (\<lambda>info.
                 poll_loop rp autofill infos subdirs
                   (pr\<lparr>pr_modified := pr_modified pr @ [child], pr_infos := new_infos @ [(child, info)]\<rparr>)))
           else
             emplace_info child (pr_infos pr) (\<lambda>new_infos.
               poll_loop rp autofill infos subdirs
                 (pr\<lparr>pr_unmodified := pr_unmodified pr @ [child], pr_infos := new_infos @ [(child, old)]\<rparr>))))"

definition Poll :: "repository \<Rightarrow> bool \<Rightarrow> model_info_map \<Rightarrow> status + poll_result" where
  "Poll rp autofill infos =
     bind_status (rp_subdirs rp (rp_path rp)) (\<lambda>subdirs.
     bind_status (poll_loop rp autofill infos subdirs
         \<lparr>pr_added = [], pr_deleted = [], pr_modified = [], pr_unmodified = [], pr_infos = []\<rparr>) (\<lambda>pr.
       Inr (pr\<lparr>pr_deleted := sort (filter (\<lambda>name. name \<notin> set (pr_added pr) \<and>
         name \<notin> set (pr_modified pr) \<and> name \<notin> set (pr_unmodified pr)) (map fst infos))\<rparr>)))"

section \<open>The manager\<close>

record repository_manager =
  rm_autofill :: bool
  rm_polling_enabled :: bool
  rm_infos :: model_info_map
  rm_status :: server_status
  rm_life_cycle :: life_cycle

definition GetModelConfig :: "model_info_map \<Rightarrow> string \<Rightarrow> status + model_config" where
  "GetModelConfig infos name =
     (case map_of infos name of
        None \<Rightarrow> Inl (Status NOT_FOUND (''no configuration for model '' @ quote name))
      | Some info \<Rightarrow> Inr (in_model_config info))"

text \<open>
  The body of the loops over the added and the modified models: \<open>init\<close> is \<open>InitForModel\<close> or
  \<open>UpdateConfigForModel\<close>; \<open>check\<close> says whether an error of AsyncLoad ends the loop.
\<close>

definition serve_model ::
  "(string \<Rightarrow> model_config \<Rightarrow> server_status \<Rightarrow> status \<times> server_status) \<Rightarrow> bool \<Rightarrow> repository \<Rightarrow> string \<Rightarrow>
   repository_manager \<Rightarrow> (status \<times> repository_manager) outcome" where
  "serve_model init check rp name rm =
     (case GetModelConfig (rm_infos rm) name of
        Inl e \<Rightarrow> Returned (e, rm)
      | Inr config \<Rightarrow>
          (let (st, ss) = init name config (rm_status rm); rm1 = rm\<lparr>rm_status := ss\<rparr> in
           if \<not> IsOk st then Returned (st, rm1)
           else
             (case VersionsToLoad rp name config of
                Thrown \<Rightarrow> Thrown
              | Returned (Inl e) \<Rightarrow> Returned (e, rm1)
              | Returned (Inr versions) \<Rightarrow>
                  (let (st2, lc) = AsyncLoad name versions config True (rm_life_cycle rm1)
                   in Returned (if check then st2 else Status_Success, rm1\<lparr>rm_life_cycle := lc\<rparr>)))))"

fun serve_models ::
  "(string \<Rightarrow> model_config \<Rightarrow> server_status \<Rightarrow> status \<times> server_status) \<Rightarrow> bool \<Rightarrow> repository \<Rightarrow> string list \<Rightarrow>
   repository_manager \<Rightarrow> (status \<times> repository_manager) outcome" where
  "serve_models init check rp [] rm = Returned (Status_Success, rm)"
| "serve_models init check rp (name # names) rm =
     (case serve_model init check rp name rm of
        Thrown \<Rightarrow> Thrown
      | Returned (st, rm1) \<Rightarrow>
          if \<not> IsOk st then Returned (st, rm1) else serve_models init check rp names rm1)"

definition unload_model :: "string \<Rightarrow> repository_manager \<Rightarrow> repository_manager" where
  "unload_model name rm =
     rm\<lparr>rm_life_cycle := snd (AsyncLoad name [] model_config_clear True (rm_life_cycle rm))\<rparr>"

definition PollAndUpdate :: "repository \<Rightarrow> repository_manager \<Rightarrow> (status \<times> repository_manager) outcome" where
  "PollAndUpdate rp rm =
     (if \<not> rm_polling_enabled rm then Returned (Status INVALID ''polling is disabled'', rm)
      else
        (case Poll rp (rm_autofill rm) (rm_infos rm) of
           Inl e \<Rightarrow> Returned (e, rm)
         | Inr pr \<Rightarrow>
             (let rm1 = rm\<lparr>rm_infos := pr_infos pr\<rparr> in
              if pr_added pr = [] \<and> pr_deleted pr = [] \<and> pr_modified pr = [] then
                Returned (Status_Success, rm1)
              else
                (case serve_models InitForModel False rp (pr_added pr) rm1 of
                   Thrown \<Rightarrow> Thrown
                 | Returned (st2, rm2) \<Rightarrow>
                     if \<not> IsOk st2 then Returned (st2, rm2)
                     else
                       (case serve_models UpdateConfigForModel False rp (pr_modified pr) rm2 of
                          Thrown \<Rightarrow> Thrown
                        | Returned (st3, rm3) \<Rightarrow>
                            if \<not> IsOk st3 then Returned (st3, rm3)
                            else Returned (Status_Success, fold unload_model (pr_deleted pr) rm3))))))"

text \<open>The status of the call, the status manager, which the server shares, and the new manager.\<close>

definition ModelRepositoryManager_Create ::
  "repository \<Rightarrow> bool \<Rightarrow> bool \<Rightarrow> server_status \<Rightarrow> (status \<times> server_status \<times> repository_manager option) outcome" where
  "ModelRepositoryManager_Create rp strict_model_config polling_enabled ss =
     (case rp_is_directory rp (rp_path rp) of
        Inl e \<Rightarrow> Returned (e, ss, None)
      | Inr path_is_dir \<Rightarrow>
          if \<not> path_is_dir then
            Returned (Status INVALID_ARG ''repository path is not a valid directory'', ss, None)
          else
            (let rm = \<lparr>rm_autofill = \<not> strict_model_config, rm_polling_enabled = polling_enabled, rm_infos = [],
                       rm_status = ss, rm_life_cycle = life_cycle_new\<rparr>;
                 polled = (if polling_enabled then Poll rp (\<not> strict_model_config) []
                           else Inr \<lparr>pr_added = [], pr_deleted = [], pr_modified = [], pr_unmodified = [], pr_infos = []\<rparr>)
             in case polled of
                  Inl e \<Rightarrow> Returned (e, ss, None)
                | Inr pr \<Rightarrow>
                    if pr_deleted pr \<noteq> [] \<or> pr_modified pr \<noteq> [] \<or> pr_unmodified pr \<noteq> [] then
                      Returned (Status INTERNAL ''Unexpected initial state for model repository'', ss, None)
                    else
                      (case serve_models InitForModel True rp (pr_added pr) (rm\<lparr>rm_infos := pr_infos pr\<rparr>) of
                         Thrown \<Rightarrow> Thrown
                       | Returned (st, rm1) \<Rightarrow>
                           Returned (st, rm_status rm1, if \<not> IsOk st then None else Some rm1))))"

text \<open>The second argument says which action; the completion function gets the same status.\<close>

definition LoadUnloadModel :: "repository_manager \<Rightarrow> string \<Rightarrow> action_type \<Rightarrow> status" where
  "LoadUnloadModel rm name action =
     (if rm_polling_enabled rm then
        Status INVALID ''explicit model load / unload is not allowed if polling is enabled''
      else Status UNSUPPORTED ''not implemented'')"

definition UnloadAllModels :: "repository_manager \<Rightarrow> status \<times> repository_manager" where
  "UnloadAllModels rm = (Status_Success, fold unload_model (map fst (rm_infos rm)) rm)"

definition manager_GetBackendHandle :: "repository_manager \<Rightarrow> string \<Rightarrow> int \<Rightarrow> status \<times> nat option" where
  "manager_GetBackendHandle rm name version =
     (let (st, h) = GetBackendHandle (rm_life_cycle rm) name version in
      if \<not> IsOk st then
        (Status UNAVAILABLE (''Inference request for unknown model '' @ quote name), None)
      else (st, h))"

end
