(* ===== verification/Server.thy ===== *)
theory Server
  imports Model_Repository Request_Provider Response_Provider
begin

text \<open>
  \<open>src/core/server.cc\<close> and \<open>profile.cc\<close>: the inference server. The status manager is shared by the
  server and the repository manager; it is a field of the server, put into the manager before a call
  and taken back after it. A null manager that is dereferenced is the outcome \<open>Thrown\<close>.
\<close>

section \<open>Profiling\<close>

text \<open>The results of \<open>cudaSetDevice\<close> and \<open>cudaProfilerStart\<close> or \<open>cudaProfilerStop\<close> per device: an error or none.\<close>

fun profile_loop :: "string \<Rightarrow> (nat \<Rightarrow> string option) \<Rightarrow> (nat \<Rightarrow> string option) \<Rightarrow> nat list \<Rightarrow> status" where
  "profile_loop verb set_device profiler [] = Status_Success"
| "profile_loop verb set_device profiler (i # is) =
     (case set_device i of
        Some err \<Rightarrow> Status INTERNAL (''failed to set device for profiling: '' @ err)
      | None \<Rightarrow>
          (case profiler i of
             Some err \<Rightarrow> Status INTERNAL (''failed to '' @ verb @ '' profiling: '' @ err)
           | None \<Rightarrow> profile_loop verb set_device profiler is))"

definition ProfileAll ::
  "string \<Rightarrow> cuda_result \<Rightarrow> (nat \<Rightarrow> string option) \<Rightarrow> (nat \<Rightarrow> string option) \<Rightarrow> status" where
  "ProfileAll verb cuda set_device profiler =
     (case device_count ''failed to get device count for profiling: '' cuda of
        Inl e \<Rightarrow> e
      | Inr dcnt \<Rightarrow> profile_loop verb set_device profiler [0..<nat dcnt])"

definition ProfileStartAll :: "cuda_result \<Rightarrow> (nat \<Rightarrow> string option) \<Rightarrow> (nat \<Rightarrow> string option) \<Rightarrow> status" where
  "ProfileStartAll = ProfileAll ''start''"

definition ProfileStopAll :: "cuda_result \<Rightarrow> (nat \<Rightarrow> string option) \<Rightarrow> (nat \<Rightarrow> string option) \<Rightarrow> status" where
  "ProfileStopAll = ProfileAll ''stop''"

section \<open>The server\<close>

record inference_server =
  sv_id :: string
  sv_version :: string
  sv_start_time_ns :: "64 word"
  sv_model_store_path :: string
  sv_strict_model_config :: bool
  sv_strict_readiness :: bool
  sv_profiling_enabled :: bool
  sv_exit_timeout_secs :: "32 word"
  sv_ready_state :: server_ready_state
  sv_next_request_id :: "64 word"
  sv_inflight_request_counter :: "64 word"
  sv_status :: server_status
  sv_manager :: "repository_manager option"

definition InferenceServer :: "timespec \<Rightarrow> string option \<Rightarrow> inference_server" where
  "InferenceServer now version_env =
     (let version = (case version_env of None \<Rightarrow> [] | Some v \<Rightarrow> v) in
      \<lparr>sv_id = ''inference:0'', sv_version = version, sv_start_time_ns = timespec_ns now,
       sv_model_store_path = [], sv_strict_model_config = True, sv_strict_readiness = True,
       sv_profiling_enabled = False, sv_exit_timeout_secs = 30, sv_ready_state = SERVER_INVALID,
       sv_next_request_id = 1, sv_inflight_request_counter = 0,
       sv_status = ServerStatusManager version, sv_manager = None\<rparr>)"

definition put_manager :: "repository_manager \<Rightarrow> inference_server \<Rightarrow> inference_server" where
  "put_manager rm sv = sv\<lparr>sv_manager := Some rm, sv_status := rm_status rm\<rparr>"

definition NextRequestId :: "inference_server \<Rightarrow> 64 word \<times> inference_server" where
  "NextRequestId sv = (sv_next_request_id sv, sv\<lparr>sv_next_request_id := sv_next_request_id sv + 1\<rparr>)"

definition UptimeNs :: "timespec \<Rightarrow> inference_server \<Rightarrow> 64 word" where
  "UptimeNs now sv = timespec_ns now - sv_start_time_ns sv"

text \<open>\<open>Init\<close>: polling is always enabled; a manager whose creation fails is never set.\<close>

definition Init :: "repository \<Rightarrow> status \<Rightarrow> inference_server \<Rightarrow> (bool \<times> inference_server) outcome" where
  "Init rp profile_stop sv0 =
     (let sv = sv0\<lparr>sv_ready_state := SERVER_INITIALIZING\<rparr>;
          failed = sv\<lparr>sv_ready_state := SERVER_FAILED_TO_INITIALIZE\<rparr> in
      if sv_model_store_path sv = [] then Returned (False, failed)
      else if \<not> IsOk profile_stop then Returned (False, failed)
      else
        (case ModelRepositoryManager_Create rp (sv_strict_model_config sv) True (sv_status sv) of
           Thrown \<Rightarrow> Thrown
         | Returned (st, ss, None) \<Rightarrow>
             Returned (False, if sv_manager sv = None then failed\<lparr>sv_status := ss\<rparr>
                              else sv\<lparr>sv_status := ss, sv_ready_state := SERVER_READY\<rparr>)
         | Returned (st, ss, Some rm) \<Rightarrow>
             Returned (True, (put_manager rm sv)\<lparr>sv_ready_state := SERVER_READY\<rparr>)))"

text \<open>
  The loop of \<open>Stop\<close>: \<open>obs i\<close> is what iteration \<open>i\<close> finds, the number of live models and of
  requests in flight.
\<close>

fun stop_loop :: "(nat \<Rightarrow> nat \<times> 64 word) \<Rightarrow> nat \<Rightarrow> nat \<Rightarrow> bool" where
  "stop_loop obs i exit_timeout_iters =
     (if fst (obs i) = 0 \<and> snd (obs i) = 0 then True
      else (case exit_timeout_iters of 0 \<Rightarrow> False | Suc iters \<Rightarrow> stop_loop obs (Suc i) iters))"

definition Stop :: "(nat \<Rightarrow> nat \<times> 64 word) \<Rightarrow> inference_server \<Rightarrow> bool \<times> inference_server" where
  "Stop obs sv0 =
     (let sv = sv0\<lparr>sv_ready_state := SERVER_EXITING\<rparr> in
      case sv_manager sv of
        None \<Rightarrow> (True, sv)
      | Some rm \<Rightarrow>
          (let (st, rm1) = UnloadAllModels (rm\<lparr>rm_status := sv_status sv\<rparr>)
           in (stop_loop obs 0 (unat (sv_exit_timeout_secs sv)), put_manager rm1 sv)))"

definition PollModelRepository :: "repository \<Rightarrow> inference_server \<Rightarrow> (status \<times> inference_server) outcome" where
  "PollModelRepository rp sv =
     (if sv_ready_state sv = SERVER_READY then
        (case sv_manager sv of
           None \<Rightarrow> Thrown
         | Some rm \<Rightarrow>
             (case PollAndUpdate rp (rm\<lparr>rm_status := sv_status sv\<rparr>) of
                Thrown \<Rightarrow> Thrown
              | Returned (st, rm1) \<Rightarrow> Returned (if \<not> IsOk st then st else Status_Success, put_manager rm1 sv)))
      else Returned (Status_Success, sv))"

section \<open>Requests for the state of the server\<close>

text \<open>
  The request counter is raised while the body runs and lowered at its end, so it is the same before
  and after. A version whose state is asked for needs the manager.
\<close>

definition version_states :: "inference_server \<Rightarrow> string \<Rightarrow> (int \<times> model_ready_state) list" where
  "version_states sv =
     (case sv_manager sv of None \<Rightarrow> (\<lambda>_. []) | Some rm \<Rightarrow> GetVersionStates (rm_life_cycle rm))"

definition all_versions_ready :: "server_status \<Rightarrow> bool" where
  "all_versions_ready ss \<longleftrightarrow>
     (\<forall>n \<in> dom (ss_model_status ss). \<forall>v \<in> dom (ms_version_status (the (ss_model_status ss n))).
        vs_ready_state (the (ms_version_status (the (ss_model_status ss n)) v)) = MODEL_READY)"

definition HandleHealth ::
  "timespec \<Rightarrow> string \<Rightarrow> inference_server \<Rightarrow> request_status \<times> bool \<times> inference_server" where
  "HandleHealth now mode sv =
     (if sv_ready_state sv = SERVER_EXITING then
        (RequestStatus_Create_msg request_status_clear 0 (sv_id sv) UNAVAILABLE ''Server exiting'', False, sv)
      else
        (let (request_id, sv1) = NextRequestId sv in
         if mode = ''live'' then
           (RequestStatus_Create_code request_status_clear request_id (sv_id sv) SUCCESS,
            sv_ready_state sv \<noteq> SERVER_INVALID \<and> sv_ready_state sv \<noteq> SERVER_FAILED_TO_INITIALIZE, sv1)
         else if mode = ''ready'' then
           (RequestStatus_Create_code request_status_clear request_id (sv_id sv) SUCCESS,
            if sv_ready_state sv = SERVER_READY \<and> sv_strict_readiness sv then
              (case Get_all (sv_id sv) (sv_ready_state sv) (UptimeNs now sv) (version_states sv) (sv_status sv) of
                 Inl e \<Rightarrow> False
               | Inr server_status \<Rightarrow> all_versions_ready server_status)
            else sv_ready_state sv = SERVER_READY, sv1)
         else
           (RequestStatus_Create_msg request_status_clear request_id (sv_id sv) UNKNOWN
              (''unknown health mode '' @ quote mode), False, sv1)))"

definition HandleProfile :: "status \<Rightarrow> status \<Rightarrow> string \<Rightarrow> inference_server \<Rightarrow> request_status \<times> inference_server" where
  "HandleProfile start_all stop_all cmd sv =
     (if sv_ready_state sv \<noteq> SERVER_READY then
        (RequestStatus_Create_msg request_status_clear 0 (sv_id sv) UNAVAILABLE ''Server not ready'', sv)
      else
        (let (request_id, sv1) = NextRequestId sv in
         (if \<not> sv_profiling_enabled sv then
            RequestStatus_Create_msg request_status_clear request_id (sv_id sv) UNSUPPORTED ''Profile API not enabled''
          else if cmd = ''start'' then
            RequestStatus_Create_status request_status_clear request_id (sv_id sv) start_all
          else if cmd = ''stop'' then
            RequestStatus_Create_status request_status_clear request_id (sv_id sv) stop_all
          else
            RequestStatus_Create_msg request_status_clear request_id (sv_id sv) INVALID_ARG
              (''Unknown profile command '' @ quote cmd), sv1)))"

definition HandleStatus ::
  "timespec \<Rightarrow> string \<Rightarrow> inference_server \<Rightarrow> (request_status \<times> server_status option \<times> inference_server) outcome" where
  "HandleStatus now model_name sv =
     (if sv_ready_state sv = SERVER_EXITING then
        Returned (RequestStatus_Create_msg request_status_clear 0 (sv_id sv) UNAVAILABLE ''Server exiting'', None, sv)
      else
        (let (request_id, sv1) = NextRequestId sv;
             asked = (if model_name = [] then ss_model_status (sv_status sv) \<noteq> Map.empty
                      else ss_model_status (sv_status sv) model_name \<noteq> None);
             r = (if model_name = [] then
                    Get_all (sv_id sv) (sv_ready_state sv) (UptimeNs now sv) (version_states sv) (sv_status sv)
                  else
                    Get_model (sv_id sv) (sv_ready_state sv) (UptimeNs now sv) model_name (version_states sv) (sv_status sv))
         in if asked \<and> sv_manager sv = None then Thrown
            else
              (case r of
                 Inl e \<Rightarrow> Returned (RequestStatus_Create_status request_status_clear request_id (sv_id sv) e, None, sv1)
               | Inr server_status \<Rightarrow>
                   Returned (RequestStatus_Create_status request_status_clear request_id (sv_id sv) Status_Success,
                     Some server_status, sv1))))"

section \<open>Inference requests\<close>

text \<open>\<open>InferBackendHandle::Create\<close>, for a server whose manager is set.\<close>

definition InferBackendHandle_Create :: "inference_server \<Rightarrow> string \<Rightarrow> int \<Rightarrow> (status \<times> nat option) outcome" where
  "InferBackendHandle_Create sv model_name model_version =
     (case sv_manager sv of
        None \<Rightarrow> Thrown
      | Some rm \<Rightarrow> Returned (manager_GetBackendHandle rm model_name model_version))"

text \<open>
  \<open>HandleInfer\<close> answers at once if the server is not ready, and otherwise counts the request and
  hands it to the backend with the completion \<open>OnCompleteHandleInfer\<close>.
\<close>

datatype infer_start = Infer_done request_status | Infer_running "64 word"

definition infer_enter :: "inference_server \<Rightarrow> 64 word \<times> inference_server" where
  "infer_enter sv =
     NextRequestId (sv\<lparr>sv_inflight_request_counter := sv_inflight_request_counter sv + 1\<rparr>)"

definition HandleInfer :: "inference_server \<Rightarrow> infer_start \<times> inference_server" where
  "HandleInfer sv =
     (if sv_ready_state sv \<noteq> SERVER_READY then
        (Infer_done (RequestStatus_Create_msg request_status_clear 0 (sv_id sv) UNAVAILABLE ''Server not ready''), sv)
      else (let (request_id, sv1) = infer_enter sv in (Infer_running request_id, sv1)))"

text \<open>
  The completion: \<open>finalize\<close> is the status \<open>FinalizeResponse\<close> returns when it is called. The result
  is the status of the request and the statistics, which are marked as failed on an error; the
  completion of the caller is called once.
\<close>

definition OnCompleteHandleInfer ::
  "string \<Rightarrow> 64 word \<Rightarrow> status \<Rightarrow> status \<Rightarrow> model_infer_stats \<Rightarrow> request_status \<times> model_infer_stats" where
  "OnCompleteHandleInfer server_id request_id finalize st stats =
     (let st1 = (if IsOk st then finalize else st) in
      if IsOk st \<and> IsOk st1 then (RequestStatus_Create_status request_status_clear request_id server_id st1, stats)
      else (RequestStatus_Create_status request_status_clear request_id server_id st1, stats\<lparr>st_failed := True\<rparr>))"

text \<open>The last owner of the completion is gone: the request is no longer in flight.\<close>

definition release_inflight :: "inference_server \<Rightarrow> inference_server" where
  "release_inflight sv = sv\<lparr>sv_inflight_request_counter := sv_inflight_request_counter sv - 1\<rparr>"

text \<open>
  The server and its inference requests. Another thread may run between the test of the ready state
  and the count of the request: \<open>ssy_admitted\<close> is the number of requests in between, \<open>ssy_running\<close>
  the ids of the requests whose completion is not gone, \<open>ssy_answers\<close> the answers given.
\<close>

record server_system =
  ssy_server :: inference_server
  ssy_admitted :: nat
  ssy_running :: "64 word list"
  ssy_answers :: "request_status list"

inductive sv_step :: "server_system \<Rightarrow> server_system \<Rightarrow> bool" where
  sv_admit: "sv_ready_state (ssy_server s) = SERVER_READY \<Longrightarrow>
    sv_step s (s\<lparr>ssy_admitted := Suc (ssy_admitted s)\<rparr>)"
| sv_accept: "ssy_admitted s = Suc k \<Longrightarrow> infer_enter (ssy_server s) = (i, sv) \<Longrightarrow>
    sv_step s (s\<lparr>ssy_server := sv, ssy_admitted := k, ssy_running := i # ssy_running s\<rparr>)"
| sv_reject: "HandleInfer (ssy_server s) = (Infer_done rs, sv) \<Longrightarrow>
    sv_step s (s\<lparr>ssy_server := sv, ssy_answers := rs # ssy_answers s\<rparr>)"
| sv_complete: "i \<in> set (ssy_running s) \<Longrightarrow>
    OnCompleteHandleInfer (sv_id (ssy_server s)) i finalize st stats = (rs, stats') \<Longrightarrow>
    sv_step s (s\<lparr>ssy_server := release_inflight (ssy_server s), ssy_running := remove1 i (ssy_running s),
                ssy_answers := rs # ssy_answers s\<rparr>)"
| sv_health: "HandleHealth now mode (ssy_server s) = (rs, health, sv) \<Longrightarrow> sv_step s (s\<lparr>ssy_server := sv\<rparr>)"
| sv_profile: "HandleProfile start_all stop_all cmd (ssy_server s) = (rs, sv) \<Longrightarrow> sv_step s (s\<lparr>ssy_server := sv\<rparr>)"
| sv_status: "HandleStatus now model_name (ssy_server s) = Returned (rs, ss, sv) \<Longrightarrow> sv_step s (s\<lparr>ssy_server := sv\<rparr>)"
| sv_poll: "PollModelRepository rp (ssy_server s) = Returned (st, sv) \<Longrightarrow> sv_step s (s\<lparr>ssy_server := sv\<rparr>)"
| sv_init: "sv_ready_state (ssy_server s) = SERVER_INVALID \<Longrightarrow>
    Init rp profile_stop (ssy_server s) = Returned (b, sv) \<Longrightarrow> sv_step s (s\<lparr>ssy_server := sv\<rparr>)"
| sv_stop: "Stop obs (ssy_server s) = (b, sv) \<Longrightarrow> sv_step s (s\<lparr>ssy_server := sv\<rparr>)"

definition server_start :: "server_system \<Rightarrow> bool" where
  "server_start s \<longleftrightarrow> sv_ready_state (ssy_server s) = SERVER_INVALID \<and>
     sv_inflight_request_counter (ssy_server s) = 0 \<and> sv_next_request_id (ssy_server s) = 1 \<and>
     sv_manager (ssy_server s) = None \<and> ssy_admitted s = 0 \<and> ssy_running s = [] \<and> ssy_answers s = []"

end
