(* ===== verification/Life_Cycle_Facts.thy ===== *)
theory Life_Cycle_Facts
  imports Backend_Life_Cycle
begin

text \<open>
  What the life cycle of the backends guarantees in every interleaving: the invariant of a version
  (who loads, owns and destroys its handle in each state), and that the versions follow the last
  request made for them.
\<close>

declare map_of_is_None [simp del]

named_theorems lc_view \<open>what an operation makes of the part of the state that belongs to a version\<close>

section \<open>The part of the state that belongs to a version\<close>

definition loads_of :: "life_cycle \<Rightarrow> string \<Rightarrow> int \<Rightarrow> load_thread list" where
  "loads_of lc n v = filter (\<lambda>t. lt_name t = n \<and> lt_version t = v) (lc_load_threads lc)"

definition destroys_of :: "life_cycle \<Rightarrow> string \<Rightarrow> int \<Rightarrow> destroy_thread list" where
  "destroys_of lc n v = filter (\<lambda>d. dt_name d = n \<and> dt_version d = v) (lc_destroy_threads lc)"

definition handles_of :: "life_cycle \<Rightarrow> string \<Rightarrow> int \<Rightarrow> nat \<rightharpoonup> backend_handle" where
  "handles_of lc n v = (\<lambda>h.
     (case lc_handles lc h of
        None \<Rightarrow> None
      | Some bh \<Rightarrow> if bh_name bh = n \<and> bh_version bh = v then Some bh else None))"

lemma map_of_vm_put [simp]: "map_of (vm_put k v m) = (map_of m)(k \<mapsto> v)"
  by (induction k v m rule: vm_put.induct) (auto simp: fun_eq_iff)

lemma get_info_set_info [simp]:
  "get_info (set_info n v bi lc) n' v' = (if n' = n \<and> v' = v then Some bi else get_info lc n' v')"
  by (auto simp: get_info_def set_info_def split: option.splits)

lemma get_info_same_map: "lc_map lc' = lc_map lc \<Longrightarrow> get_info lc' = get_info lc"
  by (simp add: get_info_def fun_eq_iff)

lemma get_info_update [simp]:
  "get_info (lc\<lparr>lc_load_threads := ts\<rparr>) = get_info lc"
  "get_info (lc\<lparr>lc_destroy_threads := ds\<rparr>) = get_info lc"
  "get_info (lc\<lparr>lc_handles := hs\<rparr>) = get_info lc"
  "get_info (lc\<lparr>lc_next_handle := k\<rparr>) = get_info lc"
  "get_info (lc\<lparr>lc_release_queue := q\<rparr>) = get_info lc"
  "get_info (lc\<lparr>lc_release_done := r\<rparr>) = get_info lc"
  by (rule get_info_same_map, simp)+

lemma get_info_async_begin [simp]: "get_info (async_begin name lc) = get_info lc"
  by (auto simp: async_begin_def get_info_def fun_eq_iff split: option.splits)

lemma set_info_fields [simp]:
  "lc_load_threads (set_info n v bi lc) = lc_load_threads lc"
  "lc_destroy_threads (set_info n v bi lc) = lc_destroy_threads lc"
  "lc_handles (set_info n v bi lc) = lc_handles lc"
  "lc_next_handle (set_info n v bi lc) = lc_next_handle lc"
  by (simp_all add: set_info_def)

lemma async_begin_fields [simp]:
  "lc_load_threads (async_begin n lc) = lc_load_threads lc"
  "lc_destroy_threads (async_begin n lc) = lc_destroy_threads lc"
  "lc_handles (async_begin n lc) = lc_handles lc"
  "lc_next_handle (async_begin n lc) = lc_next_handle lc"
  by (simp_all add: async_begin_def)

lemma drop_handle_map [simp]: "lc_map (drop_handle h lc) = lc_map lc"
  "lc_load_threads (drop_handle h lc) = lc_load_threads lc"
  "lc_next_handle (drop_handle h lc) = lc_next_handle lc"
  by (auto simp: drop_handle_def split: option.splits)

lemma take_handle_map [simp]: "lc_map (take_handle h lc) = lc_map lc"
  "lc_load_threads (take_handle h lc) = lc_load_threads lc"
  "lc_destroy_threads (take_handle h lc) = lc_destroy_threads lc"
  "lc_next_handle (take_handle h lc) = lc_next_handle lc"
  by (auto simp: take_handle_def split: option.splits)

text \<open>The invariant of a version: \<open>L\<close>, \<open>D\<close>, \<open>H\<close> are its threads and handles, \<open>cl\<close> the owners outside.\<close>

definition owner :: "backend_info option \<Rightarrow> nat option" where
  "owner obi = (case obi of None \<Rightarrow> None | Some bi \<Rightarrow> bi_handle bi)"

definition phase_inv ::
  "backend_info \<Rightarrow> load_thread list \<Rightarrow> destroy_thread list \<Rightarrow> (nat \<rightharpoonup> backend_handle) \<Rightarrow> bool" where
  "phase_inv bi L D H =
     (case bi_state bi of
        MODEL_UNKNOWN \<Rightarrow>
          L = [] \<and> D = [] \<and> H = Map.empty \<and> bi_handle bi = None \<and> bi_next_action bi = NO_ACTION
      | MODEL_UNAVAILABLE \<Rightarrow>
          L = [] \<and> D = [] \<and> H = Map.empty \<and> bi_handle bi = None \<and> bi_next_action bi = NO_ACTION
      | MODEL_LOADING \<Rightarrow> D = [] \<and> H = Map.empty \<and> bi_handle bi = None \<and>
          (\<exists>t. L = [t] \<and>
            (bi_next_action bi = NO_ACTION \<longrightarrow> lt_config t \<in> {None, Some (bi_model_config bi)}))
      | MODEL_READY \<Rightarrow> L = [] \<and> D = [] \<and> bi_next_action bi = NO_ACTION \<and>
          (\<exists>h bh. bi_handle bi = Some h \<and> H = [h \<mapsto> bh] \<and> bh_config bh = bi_model_config bi)
      | MODEL_UNLOADING \<Rightarrow> L = [] \<and> bi_handle bi = None \<and>
          ((\<exists>d. D = [d]) \<and> H = Map.empty \<or> D = [] \<and> (\<exists>h bh. H = [h \<mapsto> bh])))"

definition counted :: "(nat \<rightharpoonup> backend_handle) \<Rightarrow> nat list \<Rightarrow> nat option \<Rightarrow> bool" where
  "counted H cl own \<longleftrightarrow>
     (\<forall>h bh. H h = Some bh \<longrightarrow> 0 < bh_use_count bh \<and>
        bh_use_count bh = count_list cl h + (if own = Some h then 1 else 0))"

lemma countedD:
  "counted H cl own \<Longrightarrow> H h = Some bh \<Longrightarrow>
   0 < bh_use_count bh \<and> bh_use_count bh = count_list cl h + (if own = Some h then 1 else 0)"
  unfolding counted_def by blast

lemma singleton_map_eq [simp]: "[h \<mapsto> a] = [h' \<mapsto> b] \<longleftrightarrow> h = h' \<and> a = b"
  by (auto simp: fun_eq_iff split: if_splits)

lemma counted_empty [simp]: "counted Map.empty cl own"
  by (simp add: counted_def)

definition ver_inv ::
  "backend_info option \<Rightarrow> load_thread list \<Rightarrow> destroy_thread list \<Rightarrow> (nat \<rightharpoonup> backend_handle) \<Rightarrow>
   nat list \<Rightarrow> bool" where
  "ver_inv obi L D H cl \<longleftrightarrow>
     counted H cl (owner obi) \<and>
     (case obi of None \<Rightarrow> L = [] \<and> D = [] \<and> H = Map.empty | Some bi \<Rightarrow> phase_inv bi L D H)"

abbreviation ver_inv_of :: "life_cycle \<Rightarrow> nat list \<Rightarrow> string \<Rightarrow> int \<Rightarrow> bool" where
  "ver_inv_of lc cl n v \<equiv>
     ver_inv (get_info lc n v) (loads_of lc n v) (destroys_of lc n v) (handles_of lc n v) cl"

definition glob_inv :: "life_cycle \<Rightarrow> nat list \<Rightarrow> bool" where
  "glob_inv lc cl \<longleftrightarrow>
     (\<forall>h \<in> dom (lc_handles lc). h < lc_next_handle lc) \<and> set cl \<subseteq> dom (lc_handles lc)"

definition sys_inv :: "life_cycle \<Rightarrow> nat list \<Rightarrow> bool" where
  "sys_inv lc cl \<longleftrightarrow> glob_inv lc cl \<and> (\<forall>n v. ver_inv_of lc cl n v)"

text \<open>The last request made for a version, and whether a load has failed since.\<close>

datatype goal = Never | Serve model_config | Failed model_config | Gone

fun goal_step :: "string \<Rightarrow> int \<Rightarrow> goal \<Rightarrow> lc_event \<Rightarrow> goal" where
  "goal_step n v g (Ev_load n' v' c) = (if n' = n \<and> v' = v then Serve c else g)"
| "goal_step n v g (Ev_unload n' v') = (if n' = n \<and> v' = v \<and> g \<noteq> Never then Gone else g)"
| "goal_step n v g (Ev_failed n' v') =
     (if n' = n \<and> v' = v then (case g of Serve c \<Rightarrow> Failed c | _ \<Rightarrow> g) else g)"
| "goal_step n v g Ev_worker = g"
| "goal_step n v g Ev_client = g"

definition goal_of :: "lc_event list \<Rightarrow> string \<Rightarrow> int \<Rightarrow> goal" where
  "goal_of es n v = foldl (goal_step n v) Never es"

definition pursues :: "backend_info \<Rightarrow> bool" where
  "pursues bi \<longleftrightarrow> bi_state bi = MODEL_READY \<or>
     bi_state bi = MODEL_LOADING \<and> bi_next_action bi \<noteq> UNLOAD \<or>
     bi_state bi = MODEL_UNLOADING \<and> bi_next_action bi = LOAD"

definition goal_ok :: "goal \<Rightarrow> backend_info option \<Rightarrow> bool" where
  "goal_ok g obi =
     (case g of
        Never \<Rightarrow> obi = None
      | Serve c \<Rightarrow> (\<exists>bi. obi = Some bi \<and> bi_model_config bi = c \<and> pursues bi)
      | Failed c \<Rightarrow> (\<exists>bi. obi = Some bi \<and> bi_model_config bi = c \<and>
          (pursues bi \<or> bi_state bi = MODEL_UNAVAILABLE))
      | Gone \<Rightarrow> (\<exists>bi. obi = Some bi \<and> \<not> pursues bi))"


section \<open>What the operations change\<close>

definition same_elsewhere :: "string \<Rightarrow> int \<Rightarrow> life_cycle \<Rightarrow> life_cycle \<Rightarrow> bool" where
  "same_elsewhere n v lc lc' \<longleftrightarrow>
     (\<forall>n' v'. (n', v') \<noteq> (n, v) \<longrightarrow>
        get_info lc' n' v' = get_info lc n' v' \<and> loads_of lc' n' v' = loads_of lc n' v' \<and>
        destroys_of lc' n' v' = destroys_of lc n' v' \<and> handles_of lc' n' v' = handles_of lc n' v')"

lemma same_elsewhere_refl [simp]: "same_elsewhere n v lc lc"
  by (simp add: same_elsewhere_def)

lemma same_elsewhere_trans:
  "same_elsewhere n v lc lc' \<Longrightarrow> same_elsewhere n v lc' lc'' \<Longrightarrow> same_elsewhere n v lc lc''"
  by (simp add: same_elsewhere_def)

lemma loads_of_update [lc_view]:
  "loads_of (lc\<lparr>lc_load_threads := ts\<rparr>) n v = filter (\<lambda>t. lt_name t = n \<and> lt_version t = v) ts"
  "loads_of (lc\<lparr>lc_destroy_threads := ds\<rparr>) = loads_of lc"
  "loads_of (lc\<lparr>lc_handles := hs\<rparr>) = loads_of lc"
  "loads_of (lc\<lparr>lc_next_handle := k\<rparr>) = loads_of lc"
  "loads_of (lc\<lparr>lc_release_queue := q\<rparr>) = loads_of lc"
  "loads_of (lc\<lparr>lc_release_done := r\<rparr>) = loads_of lc"
  "loads_of (set_info n' v' bi lc) = loads_of lc"
  "loads_of (drop_handle h lc) = loads_of lc"
  "loads_of (take_handle h lc) = loads_of lc"
  "loads_of (async_begin n lc) = loads_of lc"
  by (auto simp: loads_of_def fun_eq_iff)

lemma destroys_of_update [lc_view]:
  "destroys_of (lc\<lparr>lc_destroy_threads := ds\<rparr>) n v =
     filter (\<lambda>d. dt_name d = n \<and> dt_version d = v) ds"
  "destroys_of (lc\<lparr>lc_load_threads := ts\<rparr>) = destroys_of lc"
  "destroys_of (lc\<lparr>lc_handles := hs\<rparr>) = destroys_of lc"
  "destroys_of (lc\<lparr>lc_next_handle := k\<rparr>) = destroys_of lc"
  "destroys_of (lc\<lparr>lc_release_queue := q\<rparr>) = destroys_of lc"
  "destroys_of (lc\<lparr>lc_release_done := r\<rparr>) = destroys_of lc"
  "destroys_of (set_info n' v' bi lc) = destroys_of lc"
  "destroys_of (take_handle h lc) = destroys_of lc"
  "destroys_of (async_begin n lc) = destroys_of lc"
  by (auto simp: destroys_of_def fun_eq_iff)

lemma handles_of_update [lc_view]:
  "handles_of (lc\<lparr>lc_destroy_threads := ds\<rparr>) = handles_of lc"
  "handles_of (lc\<lparr>lc_load_threads := ts\<rparr>) = handles_of lc"
  "handles_of (lc\<lparr>lc_next_handle := k\<rparr>) = handles_of lc"
  "handles_of (lc\<lparr>lc_release_queue := q\<rparr>) = handles_of lc"
  "handles_of (lc\<lparr>lc_release_done := r\<rparr>) = handles_of lc"
  "handles_of (set_info n' v' bi lc) = handles_of lc"
  "handles_of (async_begin n lc) = handles_of lc"
  by (auto simp: handles_of_def fun_eq_iff)

lemma handles_of_set [lc_view]:
  "handles_of (lc\<lparr>lc_handles := (lc_handles lc)(h := ob)\<rparr>) n v =
     (handles_of lc n v)(h := (case ob of None \<Rightarrow> None
       | Some bh \<Rightarrow> if bh_name bh = n \<and> bh_version bh = v then Some bh else None))"
  by (auto simp: handles_of_def fun_eq_iff)

lemma get_info_handle [lc_view]:
  "get_info (drop_handle h lc) = get_info lc" "get_info (take_handle h lc) = get_info lc"
  by (rule get_info_same_map, simp)+

lemma handles_of_SomeD:
  "handles_of lc n v h = Some bh \<Longrightarrow> lc_handles lc h = Some bh \<and> bh_name bh = n \<and> bh_version bh = v"
  by (auto simp: handles_of_def split: option.splits if_splits)

lemma handles_of_at: "lc_handles lc h = Some bh \<Longrightarrow> handles_of lc (bh_name bh) (bh_version bh) h = Some bh"
  by (simp add: handles_of_def)

lemma drop_handle_at [lc_view]:
  assumes "handles_of lc n v h = Some bh"
  shows "handles_of (drop_handle h lc) n v =
      (handles_of lc n v)(h := (if bh_use_count bh \<le> 1 then None
                                else Some (bh\<lparr>bh_use_count := bh_use_count bh - 1\<rparr>)))"
    and "destroys_of (drop_handle h lc) n v = destroys_of lc n v @
      (if bh_use_count bh \<le> 1
       then [\<lparr>dt_name = n, dt_version = v, dt_backend = bh_backend bh\<rparr>] else [])"
  using handles_of_SomeD [OF assms]
  by (auto simp: drop_handle_def lc_view, simp_all add: destroys_of_def)

lemma drop_handle_elsewhere:
  assumes "handles_of lc n v h = Some bh"
  shows "same_elsewhere n v lc (drop_handle h lc)"
proof -
  have same: "(handles_of lc n' v')(h := None) = handles_of lc n' v'" if "n' = n \<longrightarrow> v' \<noteq> v" for n' v'
    using that handles_of_SomeD [OF assms] by (auto simp: handles_of_def fun_eq_iff)
  show ?thesis
    using handles_of_SomeD [OF assms]
    by (auto simp: same_elsewhere_def drop_handle_def lc_view same, auto simp: destroys_of_def)
qed

lemma drop_handle_dom:
  "lc_handles (drop_handle h lc) h' = Some bh \<Longrightarrow> \<exists>bh. lc_handles lc h' = Some bh"
  by (auto simp: drop_handle_def split: option.splits if_splits)

section \<open>Every section keeps the invariant\<close>

text \<open>The invariant of a version whose \<open>BackendInfo\<close> is being changed, with the global one.\<close>

definition ver_state :: "life_cycle \<Rightarrow> nat list \<Rightarrow> string \<Rightarrow> int \<Rightarrow> backend_info option \<Rightarrow> bool" where
  "ver_state lc cl n v obi \<longleftrightarrow>
     glob_inv lc cl \<and> ver_inv obi (loads_of lc n v) (destroys_of lc n v) (handles_of lc n v) cl"

lemma ver_state_set_info [simp]: "ver_state (set_info n' v' bi lc) cl n v obi = ver_state lc cl n v obi"
  by (simp add: ver_state_def glob_inv_def lc_view)

lemma drop_owned:
  assumes "ver_state lc cl n v (Some bi)" and "bi_state bi = MODEL_READY" and "bi_handle bi = Some h"
  shows "ver_state (drop_handle h lc) cl n v
      (Some (bi\<lparr>bi_next_action := NO_ACTION, bi_state := MODEL_UNLOADING, bi_handle := None,
              bi_model_config := c\<rparr>)) \<and>
    same_elsewhere n v lc (drop_handle h lc)"
proof -
  obtain bh where bh: "handles_of lc n v = [h \<mapsto> bh]" "loads_of lc n v = []" "destroys_of lc n v = []"
    and cnt: "bh_use_count bh = count_list cl h + 1"
    using assms by (auto simp: ver_state_def ver_inv_def phase_inv_def owner_def counted_def)
  have at: "handles_of lc n v h = Some bh"
    using bh(1) by simp
  have g: "glob_inv (drop_handle h lc) cl"
    using assms(1) handles_of_SomeD [OF at] cnt
    by (auto simp: ver_state_def glob_inv_def drop_handle_def count_list_0_iff)
  show ?thesis
    using g cnt drop_handle_elsewhere [OF at]
    by (auto simp: ver_state_def ver_inv_def phase_inv_def owner_def counted_def lc_view
        drop_handle_at [OF at] bh)
qed

lemma Unload_ok:
  assumes "ver_state lc cl n v (Some bi)" and "Unload n v (bi\<lparr>bi_model_config := c\<rparr>) lc = (st, bi', lc')"
  shows "ver_state lc' cl n v (Some bi') \<and> same_elsewhere n v lc lc' \<and> \<not> pursues bi' \<and>
    bi_model_config bi' = c \<and> lc_map lc' = lc_map lc"
proof (cases "bi_state bi = MODEL_READY")
  case True
  then obtain h where h: "bi_handle bi = Some h"
    using assms(1) by (auto simp: ver_state_def ver_inv_def phase_inv_def)
  have "bi' = bi\<lparr>bi_next_action := NO_ACTION, bi_state := MODEL_UNLOADING, bi_handle := None,
              bi_model_config := c\<rparr>" "lc' = drop_handle h lc"
    using assms(2) True h by (auto simp: Unload_def)
  then show ?thesis
    using drop_owned [OF assms(1) True h, of c] by (simp add: pursues_def)
next
  case False
  then show ?thesis
    using assms
    by (auto simp: Unload_def Let_def ver_state_def ver_inv_def phase_inv_def owner_def pursues_def
        split: model_ready_state.splits)
qed

lemma load_thread_elsewhere:
  "same_elsewhere n v lc (lc\<lparr>lc_load_threads := lc_load_threads lc @
     [\<lparr>lt_name = n, lt_version = v, lt_config = c\<rparr>]\<rparr>)"
  by (auto simp: same_elsewhere_def lc_view) (auto simp: loads_of_def)

lemma Load_idle:
  assumes "ver_state lc cl n v (Some bi)" and "bi_state bi = MODEL_UNKNOWN \<or> bi_state bi = MODEL_UNAVAILABLE"
    and "Load n v bi lc = (st, bi', lc')"
  shows "ver_state lc' cl n v (Some bi') \<and> same_elsewhere n v lc lc' \<and> pursues bi' \<and> IsOk st \<and>
    bi_model_config bi' = bi_model_config bi \<and> lc_map lc' = lc_map lc"
proof -
  have v: "glob_inv lc cl" "counted (handles_of lc n v) cl None" "loads_of lc n v = []" "destroys_of lc n v = []"
    "handles_of lc n v = Map.empty" "bi_handle bi = None"
    using assms(1,2) by (auto simp: ver_state_def ver_inv_def phase_inv_def owner_def)
  have "bi' = bi\<lparr>bi_next_action := NO_ACTION, bi_state := MODEL_LOADING\<rparr>" "st = Status_Success"
    "lc' = lc\<lparr>lc_load_threads := lc_load_threads lc @ [\<lparr>lt_name = n, lt_version = v, lt_config = None\<rparr>]\<rparr>"
    using assms(2,3) by (auto simp: Load_def Let_def)
  then show ?thesis
    using v load_thread_elsewhere
    by (simp add: ver_state_def ver_inv_def phase_inv_def owner_def pursues_def glob_inv_def lc_view)
      (simp add: loads_of_def)
qed

lemma Load_ok:
  assumes "ver_state lc cl n v (Some bi)" and "bi_state bi \<noteq> MODEL_READY"
    and "Load n v bi lc = (st, bi', lc')"
  shows "ver_state lc' cl n v (Some bi') \<and> same_elsewhere n v lc lc' \<and> pursues bi' \<and> IsOk st \<and>
    bi_model_config bi' = bi_model_config bi \<and> lc_map lc' = lc_map lc"
proof (cases "bi_state bi = MODEL_UNKNOWN \<or> bi_state bi = MODEL_UNAVAILABLE")
  case True
  then show ?thesis
    by (rule Load_idle [OF assms(1) _ assms(3)])
next
  case False
  then have "bi' = bi\<lparr>bi_next_action := LOAD\<rparr>" "lc' = lc" "IsOk st"
    "bi_state bi = MODEL_LOADING \<or> bi_state bi = MODEL_UNLOADING"
    using assms(2,3) by (cases "bi_state bi"; auto simp: Load_def Let_def)+
  then show ?thesis
    using assms(1) by (auto simp: ver_state_def ver_inv_def phase_inv_def owner_def pursues_def)
qed

lemma Trigger_ok:
  assumes "ver_state lc cl n v (Some (bi\<lparr>bi_next_action := NO_ACTION, bi_model_config := c\<rparr>))"
    and "bi_next_action bi = NO_ACTION \<Longrightarrow> c = bi_model_config bi"
    and "TriggerNextAction n v bi lc = (st, bi', lc')"
  shows "ver_state lc' cl n v (Some bi') \<and> same_elsewhere n v lc lc' \<and>
    bi_model_config bi' = bi_model_config bi \<and> lc_map lc' = lc_map lc \<and>
    (bi_next_action bi = LOAD \<longrightarrow> pursues bi') \<and> (bi_next_action bi = UNLOAD \<longrightarrow> \<not> pursues bi') \<and>
    (bi_next_action bi = NO_ACTION \<longrightarrow> bi' = bi)"
proof -
  let ?bi = "bi\<lparr>bi_next_action := NO_ACTION, bi_model_config := c\<rparr>"
  obtain st1 bi1 lc1 where u: "Unload n v (bi\<lparr>bi_next_action := NO_ACTION\<rparr>) lc = (st1, bi1, lc1)"
    by (metis prod_cases3)
  have "bi\<lparr>bi_next_action := NO_ACTION\<rparr> = ?bi\<lparr>bi_model_config := bi_model_config bi\<rparr>"
    by simp
  then have u1: "ver_state lc1 cl n v (Some bi1) \<and> same_elsewhere n v lc lc1 \<and> \<not> pursues bi1 \<and>
    bi_model_config bi1 = bi_model_config bi \<and> lc_map lc1 = lc_map lc"
    using Unload_ok [OF assms(1)] u by metis
  show ?thesis
  proof (cases "bi_next_action bi")
    case NO_ACTION
    then show ?thesis
      using assms by (auto simp: TriggerNextAction_def)
  next
    case LOAD
    then have l: "Load n v bi1 lc1 = (st, bi', lc')"
      using assms(3) u by (simp add: TriggerNextAction_def)
    moreover have "bi_state bi1 \<noteq> MODEL_READY"
      using u1 by (simp add: pursues_def)
    ultimately have "ver_state lc' cl n v (Some bi') \<and> same_elsewhere n v lc1 lc' \<and> pursues bi' \<and> IsOk st \<and>
      bi_model_config bi' = bi_model_config bi1 \<and> lc_map lc' = lc_map lc1"
      using Load_ok u1 by blast
    then show ?thesis
      using u1 LOAD same_elsewhere_trans [of n v lc lc1 lc'] by simp
  next
    case UNLOAD
    then show ?thesis
      using assms(3) u u1 by (auto simp: TriggerNextAction_def)
  qed
qed

section \<open>Every step keeps the invariant and pursues the goal\<close>

definition lc_inv :: "lc_event list \<Rightarrow> life_cycle \<Rightarrow> nat list \<Rightarrow> bool" where
  "lc_inv es lc cl \<longleftrightarrow> sys_inv lc cl \<and> (\<forall>n v. goal_ok (goal_of es n v) (get_info lc n v))"

fun event_at :: "lc_event \<Rightarrow> string \<Rightarrow> int \<Rightarrow> bool" where
  "event_at (Ev_load n' v' c) n v \<longleftrightarrow> n' = n \<and> v' = v"
| "event_at (Ev_unload n' v') n v \<longleftrightarrow> n' = n \<and> v' = v"
| "event_at (Ev_failed n' v') n v \<longleftrightarrow> n' = n \<and> v' = v"
| "event_at Ev_worker n v \<longleftrightarrow> True"
| "event_at Ev_client n v \<longleftrightarrow> True"

lemma goal_of_snoc [simp]: "goal_of (es @ [e]) n v = goal_step n v (goal_of es n v) e"
  by (simp add: goal_of_def)

lemma goal_step_elsewhere: "event_at e n v \<Longrightarrow> (n', v') \<noteq> (n, v) \<Longrightarrow> goal_step n' v' g e = g"
  by (cases e) auto

lemma set_info_elsewhere: "same_elsewhere n v lc lc1 \<Longrightarrow> same_elsewhere n v lc (set_info n v bi lc1)"
  by (auto simp: same_elsewhere_def lc_view)

lemma version_change:
  assumes inv: "lc_inv es lc cl" and ver: "ver_state lc1 cl n v (Some bi)"
    and else1: "same_elsewhere n v lc lc1" and ev: "event_at e n v"
    and goal: "goal_ok (goal_step n v (goal_of es n v) e) (Some bi)"
  shows "lc_inv (es @ [e]) (set_info n v bi lc1) cl"
proof -
  let ?lc = "set_info n v bi lc1"
  have g: "glob_inv ?lc cl" and here: "ver_inv_of ?lc cl n v"
    using ver by (auto simp: ver_state_def glob_inv_def lc_view)
  have other: "ver_inv_of ?lc cl n' v' \<and> goal_ok (goal_of (es @ [e]) n' v') (get_info ?lc n' v')"
    if ne: "(n', v') \<noteq> (n, v)" for n' v'
  proof -
    have "get_info ?lc n' v' = get_info lc n' v'" "loads_of ?lc n' v' = loads_of lc n' v'"
      "destroys_of ?lc n' v' = destroys_of lc n' v'" "handles_of ?lc n' v' = handles_of lc n' v'"
      using set_info_elsewhere [OF else1, of bi] ne unfolding same_elsewhere_def by blast+
    moreover have "goal_of (es @ [e]) n' v' = goal_of es n' v'"
      using goal_step_elsewhere [OF ev ne] by simp
    ultimately show ?thesis
      using inv unfolding lc_inv_def sys_inv_def by presburger
  qed
  have "goal_ok (goal_of (es @ [e]) n v) (get_info ?lc n v)"
    using goal by simp
  then have "ver_inv_of ?lc cl n' v' \<and> goal_ok (goal_of (es @ [e]) n' v') (get_info ?lc n' v')" for n' v'
    using here other [of n' v'] by (cases "(n', v') = (n, v)") simp_all
  then show ?thesis
    using g unfolding lc_inv_def sys_inv_def by blast
qed

lemma lc_inv_ver_state: "lc_inv es lc cl \<Longrightarrow> ver_state lc cl n v (get_info lc n v)"
  by (simp add: lc_inv_def sys_inv_def ver_state_def)

lemma lc_inv_goal: "lc_inv es lc cl \<Longrightarrow> goal_ok (goal_of es n v) (get_info lc n v)"
  by (simp add: lc_inv_def)

lemma goal_ok_kept:
  assumes "goal_ok g (Some bi)" and "bi_state bi \<noteq> MODEL_UNAVAILABLE"
    and "bi_model_config bi' = bi_model_config bi" and "pursues bi' = pursues bi"
  shows "goal_ok g (Some bi')"
  using assms by (auto simp: goal_ok_def split: goal.splits)

lemma unload_section_ok:
  assumes "lc_inv es lc cl" and "run_section n config (Unload_section v) lc = (st, lc')"
  shows "lc_inv (es @ [Ev_unload n v]) lc' cl \<and> IsOk st"
proof (cases "get_info lc n v")
  case None
  then have "goal_of es n v = Never"
    using lc_inv_goal [OF assms(1), of n v] by (auto simp: goal_ok_def split: goal.splits)
  then have "goal_of (es @ [Ev_unload n v]) n' v' = goal_of es n' v'" for n' v'
    by auto
  then show ?thesis
    using assms None by (simp add: lc_inv_def)
next
  case (Some bi)
  obtain st1 bi1 lc1 where u: "Unload n v bi lc = (st1, bi1, lc1)"
    by (metis prod_cases3)
  have "bi\<lparr>bi_model_config := bi_model_config bi\<rparr> = bi"
    by simp
  then have ok: "ver_state lc1 cl n v (Some bi1)" "same_elsewhere n v lc lc1" "\<not> pursues bi1"
    using Unload_ok [of lc cl n v bi "bi_model_config bi"] u Some lc_inv_ver_state [OF assms(1), of n v]
    by auto
  have "goal_of es n v \<noteq> Never"
    using lc_inv_goal [OF assms(1), of n v] Some by (auto simp: goal_ok_def)
  then have "goal_ok (goal_step n v (goal_of es n v) (Ev_unload n v)) (Some bi1)"
    using ok(3) by (simp add: goal_ok_def)
  then show ?thesis
    using assms Some u version_change [OF assms(1) ok(1,2)] by auto
qed

lemma reload_section_ok:
  assumes "lc_inv es lc cl" and "run_section n config (Reload_section v) lc = (st, lc')"
  shows "lc_inv (es @ [Ev_load n v config]) lc' cl \<and> IsOk st"
proof -
  define bi where "bi = (case get_info lc n v of
      None \<Rightarrow> BackendInfo MODEL_UNKNOWN NO_ACTION config | Some bi \<Rightarrow> bi)"
  obtain st1 bi1 lc1 where u: "Unload n v (bi\<lparr>bi_model_config := config\<rparr>) lc = (st1, bi1, lc1)"
    by (metis prod_cases3)
  obtain st2 bi2 lc2 where l: "Load n v bi1 lc1 = (st2, bi2, lc2)"
    by (metis prod_cases3)
  have "ver_state lc cl n v (Some bi)"
    using lc_inv_ver_state [OF assms(1), of n v]
    by (cases "get_info lc n v")
      (auto simp: bi_def ver_state_def ver_inv_def phase_inv_def owner_def BackendInfo_def)
  then have u1: "ver_state lc1 cl n v (Some bi1)" "same_elsewhere n v lc lc1" "\<not> pursues bi1"
    "bi_model_config bi1 = config"
    using Unload_ok [OF _ u] by auto
  then have l1: "ver_state lc2 cl n v (Some bi2)" "same_elsewhere n v lc1 lc2" "pursues bi2" "IsOk st2"
    "bi_model_config bi2 = config"
    using Load_ok [OF _ _ l] by (auto simp: pursues_def)
  have "goal_ok (goal_step n v (goal_of es n v) (Ev_load n v config)) (Some bi2)"
    using l1 by (simp add: goal_ok_def)
  then show ?thesis
    using assms(2) u l l1(4) version_change [OF assms(1) l1(1) same_elsewhere_trans [OF u1(2) l1(2)]]
    by (auto simp flip: bi_def)
qed

text \<open>A thread of a version tells the state the version is in.\<close>

lemma loading_info:
  assumes "lc_inv es lc cl" and "t \<in> set (lc_load_threads lc)" and "lt_name t = n" and "lt_version t = v"
  obtains bi where "get_info lc n v = Some bi" "bi_state bi = MODEL_LOADING" "loads_of lc n v = [t]"
proof -
  have mem: "t \<in> set (loads_of lc n v)"
    using assms(2-4) by (simp add: loads_of_def)
  have vs: "ver_inv_of lc cl n v"
    using assms(1) by (simp add: lc_inv_def sys_inv_def)
  then obtain bi where bi: "get_info lc n v = Some bi"
    using mem by (cases "get_info lc n v") (auto simp: ver_inv_def)
  then have "phase_inv bi (loads_of lc n v) (destroys_of lc n v) (handles_of lc n v)"
    using vs by (simp add: ver_inv_def)
  then show ?thesis
    using mem bi that by (auto simp: phase_inv_def split: model_ready_state.splits)
qed

lemma destroying_info:
  assumes "lc_inv es lc cl" and "d \<in> set (lc_destroy_threads lc)" and "dt_name d = n" and "dt_version d = v"
  obtains bi where "get_info lc n v = Some bi" "bi_state bi = MODEL_UNLOADING" "destroys_of lc n v = [d]"
    "handles_of lc n v = Map.empty"
proof -
  have mem: "d \<in> set (destroys_of lc n v)"
    using assms(2-4) by (simp add: destroys_of_def)
  have vs: "ver_inv_of lc cl n v"
    using assms(1) by (simp add: lc_inv_def sys_inv_def)
  then obtain bi where bi: "get_info lc n v = Some bi"
    using mem by (cases "get_info lc n v") (auto simp: ver_inv_def)
  then have "phase_inv bi (loads_of lc n v) (destroys_of lc n v) (handles_of lc n v)"
    using vs by (simp add: ver_inv_def)
  then show ?thesis
    using mem bi that by (auto simp: phase_inv_def split: model_ready_state.splits)
qed

lemma remove_load_elsewhere:
  "lt_name t = n \<Longrightarrow> lt_version t = v \<Longrightarrow>
   same_elsewhere n v lc (lc\<lparr>lc_load_threads := remove1 t (lc_load_threads lc)\<rparr>)"
  by (auto simp: same_elsewhere_def lc_view filter_remove1) (auto simp: loads_of_def)

lemma remove_destroy_elsewhere:
  "dt_name d = n \<Longrightarrow> dt_version d = v \<Longrightarrow>
   same_elsewhere n v lc (lc\<lparr>lc_destroy_threads := remove1 d (lc_destroy_threads lc)\<rparr>)"
  by (auto simp: same_elsewhere_def lc_view filter_remove1) (auto simp: destroys_of_def)

lemma create_copy_ok:
  assumes inv: "lc_inv es lc cl" and t: "t \<in> set (lc_load_threads lc)"
  shows "lc_inv (es @ [Ev_worker]) (create_copy t lc) cl"
proof -
  obtain bi where bi: "get_info lc (lt_name t) (lt_version t) = Some bi" "bi_state bi = MODEL_LOADING"
    "loads_of lc (lt_name t) (lt_version t) = [t]"
    using loading_info [OF inv t] by blast
  let ?n = "lt_name t" and ?v = "lt_version t"
  let ?lc = "lc\<lparr>lc_load_threads := remove1 t (lc_load_threads lc) @
                 [t\<lparr>lt_config := Some (bi_model_config bi)\<rparr>]\<rparr>"
  have eq: "create_copy t lc = ?lc"
    using bi by (simp add: create_copy_def)
  have here: "loads_of ?lc ?n ?v = [t\<lparr>lt_config := Some (bi_model_config bi)\<rparr>]"
    using bi(3) by (simp add: lc_view filter_remove1) (simp add: loads_of_def)
  have els: "same_elsewhere ?n ?v lc ?lc"
    by (auto simp: same_elsewhere_def lc_view filter_remove1) (auto simp: loads_of_def)
  have "ver_state lc cl ?n ?v (Some bi)"
    using lc_inv_ver_state [OF inv, of ?n ?v] bi by simp
  then have ver: "ver_state ?lc cl ?n ?v (Some bi)"
    using bi(2) here by (simp add: ver_state_def ver_inv_def phase_inv_def glob_inv_def lc_view)
  have "lc_inv (es @ [Ev_worker]) (set_info ?n ?v bi ?lc) cl"
    using lc_inv_goal [OF inv, of ?n ?v] bi by (intro version_change [OF inv ver els]) simp_all
  moreover have "get_info (set_info ?n ?v bi ?lc) = get_info ?lc"
    using bi(1) by (auto simp: fun_eq_iff)
  ultimately show ?thesis
    unfolding eq lc_inv_def sys_inv_def glob_inv_def by (simp add: lc_view)
qed

lemma goal_after_trigger:
  assumes "goal_ok g (Some bi)" and "bi_state bi \<noteq> MODEL_UNAVAILABLE"
    and "bi_model_config bi' = bi_model_config bi" and "pursues bi' = pursues bi"
    and "e = Ev_worker \<or> e = Ev_failed n v"
  shows "goal_ok (goal_step n v g e) (Some bi')"
  using assms by (auto simp: goal_ok_def split: goal.splits)

lemma load_finish_ok:
  assumes inv: "lc_inv es lc cl" and t: "t \<in> set (lc_load_threads lc)" and c: "lt_config t = Some c"
    and e: "e = (case outcome of Inr is \<Rightarrow> Ev_worker | Inl err \<Rightarrow> Ev_failed (lt_name t) (lt_version t))"
  shows "lc_inv (es @ [e]) (load_finish t outcome lc) cl"
proof -
  let ?n = "lt_name t" and ?v = "lt_version t"
  obtain bi where bi: "get_info lc ?n ?v = Some bi" "bi_state bi = MODEL_LOADING" "loads_of lc ?n ?v = [t]"
    using loading_info [OF inv t] by blast
  let ?lc0 = "lc\<lparr>lc_load_threads := remove1 t (lc_load_threads lc)\<rparr>"
  have vs: "ver_state lc cl ?n ?v (Some bi)"
    using lc_inv_ver_state [OF inv, of ?n ?v] bi by simp
  then have none: "bi_handle bi = None" "handles_of lc ?n ?v = Map.empty" "destroys_of lc ?n ?v = []"
    and cfg: "bi_next_action bi = NO_ACTION \<Longrightarrow> c = bi_model_config bi"
    and glob: "glob_inv lc cl"
    using bi c by (auto simp: ver_state_def ver_inv_def phase_inv_def)
  have loads0: "loads_of ?lc0 ?n ?v = []"
    using bi(3) by (simp add: lc_view filter_remove1) (simp add: loads_of_def)
  obtain st bi' lc' where cr: "CreateBackendHandle ?n ?v c outcome bi ?lc0 = (st, bi', lc')"
    by (metis prod_cases3)
  then have fin: "load_finish t outcome lc = set_info ?n ?v bi' lc'"
    using bi(1) c by (simp add: load_finish_def)
  have goal: "goal_ok (goal_of es ?n ?v) (Some bi)"
    using lc_inv_goal [OF inv, of ?n ?v] bi(1) by simp
  have e_at: "e = Ev_worker \<or> e = Ev_failed ?n ?v" "event_at e ?n ?v"
    using e by (auto split: sum.splits)
  show ?thesis
  proof (cases "create_backend (bi_platform bi) outcome")
    case (Inr b)
    let ?bi1 = "bi\<lparr>bi_state := MODEL_READY, bi_handle := Some (lc_next_handle lc)\<rparr>"
    let ?bh = "\<lparr>bh_name = ?n, bh_version = ?v, bh_config = c, bh_backend = b, bh_use_count = 1\<rparr>"
    let ?lc1 = "?lc0\<lparr>lc_handles := (lc_handles ?lc0)(lc_next_handle lc \<mapsto> ?bh),
                     lc_next_handle := Suc (lc_next_handle lc)\<rparr>"
    have tr: "TriggerNextAction ?n ?v ?bi1 ?lc1 = (st, bi', lc')"
      using cr none(1) Inr by (simp add: CreateBackendHandle_def)
    have fresh: "lc_next_handle lc \<notin> set cl" "lc_handles lc (lc_next_handle lc) = None"
      using glob by (auto simp: glob_inv_def)
    have "handles_of ?lc1 ?n ?v = [lc_next_handle lc \<mapsto> ?bh]"
      using none(2) by (auto simp: handles_of_def fun_eq_iff split: option.splits if_splits)
    moreover have "glob_inv ?lc1 cl"
      using glob by (auto simp: glob_inv_def less_Suc_eq)
    ultimately have vs1: "ver_state ?lc1 cl ?n ?v
        (Some (?bi1\<lparr>bi_next_action := NO_ACTION, bi_model_config := c\<rparr>))"
      using loads0 none(3) fresh(1)
      by (simp add: ver_state_def ver_inv_def phase_inv_def counted_def owner_def lc_view count_list_0_iff)
    have els: "same_elsewhere ?n ?v ?lc0 ?lc1"
      using fresh(2) by (auto simp: same_elsewhere_def lc_view fun_eq_iff) (auto simp: handles_of_def)
    note tok = Trigger_ok [OF vs1 _ tr]
    have "pursues bi' = pursues bi"
      using tok cfg bi(2) by (cases "bi_next_action bi") (auto simp: pursues_def)
    then have "goal_ok (goal_step ?n ?v (goal_of es ?n ?v) e) (Some bi')"
      using tok cfg bi(2) e_at(1) by (intro goal_after_trigger [OF goal]) auto
    moreover have "same_elsewhere ?n ?v lc lc'"
      using same_elsewhere_trans [OF remove_load_elsewhere [OF refl refl]]
        same_elsewhere_trans [OF els] tok cfg by simp
    ultimately show ?thesis
      unfolding fin using tok cfg e_at(2) by (intro version_change [OF inv]) simp_all
  next
    case (Inl err)
    then have ev: "e = Ev_failed ?n ?v"
      using e by (auto simp: create_backend_def split: sum.splits if_splits)
    let ?bi1 = "bi\<lparr>bi_state := MODEL_UNAVAILABLE\<rparr>"
    have tr: "TriggerNextAction ?n ?v ?bi1 ?lc0 = (st, bi', lc')"
      using cr none(1) Inl by (simp add: CreateBackendHandle_def)
    have vs1: "ver_state ?lc0 cl ?n ?v
        (Some (?bi1\<lparr>bi_next_action := NO_ACTION, bi_model_config := bi_model_config bi\<rparr>))"
      using vs loads0 none by (simp add: ver_state_def ver_inv_def phase_inv_def owner_def lc_view glob_inv_def)
    note tok = Trigger_ok [OF vs1 _ tr]
    have "goal_ok (goal_step ?n ?v (goal_of es ?n ?v) e) (Some bi')"
    proof (cases "bi_next_action bi")
      case NO_ACTION
      then have "bi' = ?bi1"
        using tok by simp
      then show ?thesis
        using goal bi(2) NO_ACTION ev by (auto simp: goal_ok_def pursues_def split: goal.splits)
    next
      case LOAD
      then show ?thesis
        using tok bi(2) e_at(1) by (intro goal_after_trigger [OF goal]) (auto simp: pursues_def)
    next
      case UNLOAD
      then show ?thesis
        using tok bi(2) e_at(1) by (intro goal_after_trigger [OF goal]) (auto simp: pursues_def)
    qed
    moreover have "same_elsewhere ?n ?v lc lc'"
      using same_elsewhere_trans [OF remove_load_elsewhere [OF refl refl]] tok by simp
    ultimately show ?thesis
      unfolding fin using tok e_at(2) by (intro version_change [OF inv]) simp_all
  qed
qed

lemma on_destroy_ok:
  assumes inv: "lc_inv es lc cl" and d: "d \<in> set (lc_destroy_threads lc)"
  shows "lc_inv (es @ [Ev_worker]) (on_destroy d lc) cl"
proof -
  let ?n = "dt_name d" and ?v = "dt_version d"
  obtain bi where bi: "get_info lc ?n ?v = Some bi" "bi_state bi = MODEL_UNLOADING"
    "destroys_of lc ?n ?v = [d]" "handles_of lc ?n ?v = Map.empty"
    using destroying_info [OF inv d] by blast
  let ?lc0 = "lc\<lparr>lc_destroy_threads := remove1 d (lc_destroy_threads lc)\<rparr>"
  let ?bi1 = "bi\<lparr>bi_state := MODEL_UNAVAILABLE\<rparr>"
  obtain st bi' lc' where tr: "TriggerNextAction ?n ?v ?bi1 ?lc0 = (st, bi', lc')"
    by (metis prod_cases3)
  have "ver_state lc cl ?n ?v (Some bi)"
    using lc_inv_ver_state [OF inv, of ?n ?v] bi by simp
  moreover have "destroys_of ?lc0 ?n ?v = []"
    using bi(3) by (simp add: lc_view filter_remove1) (simp add: destroys_of_def)
  ultimately have vs1: "ver_state ?lc0 cl ?n ?v
      (Some (?bi1\<lparr>bi_next_action := NO_ACTION, bi_model_config := bi_model_config bi\<rparr>))"
    using bi by (simp add: ver_state_def ver_inv_def phase_inv_def owner_def lc_view glob_inv_def)
  note tok = Trigger_ok [OF vs1 _ tr]
  have "pursues bi' = pursues bi"
    using tok bi(2) by (cases "bi_next_action bi") (auto simp: pursues_def)
  then have "goal_ok (goal_step ?n ?v (goal_of es ?n ?v) Ev_worker) (Some bi')"
    using lc_inv_goal [OF inv, of ?n ?v] bi tok by (intro goal_after_trigger [of _ bi]) auto
  moreover have "same_elsewhere ?n ?v lc lc'"
    using same_elsewhere_trans [OF remove_destroy_elsewhere [OF refl refl]] tok by simp
  ultimately have "lc_inv (es @ [Ev_worker]) (set_info ?n ?v bi' lc') cl"
    using tok by (intro version_change [OF inv]) simp_all
  then show ?thesis
    using bi(1) tr by (simp add: on_destroy_def Let_def lc_inv_def sys_inv_def glob_inv_def lc_view)
qed

section \<open>The owners of handles\<close>

lemma count_list_remove1: "count_list (remove1 x xs) y = count_list xs y - (if x = y then 1 else 0)"
  by (induction xs) (auto simp: count_list_0_iff)

lemma counted_cong:
  assumes "\<And>h bh. H h = Some bh \<Longrightarrow> count_list cl' h = count_list cl h"
  shows "counted H cl' own = counted H cl own"
  using assms by (auto simp: counted_def)

lemma counted_other:
  assumes "H h = None"
  shows "counted H (h # cl) own = counted H cl own"
    and "counted H (remove1 h cl) own = counted H cl own"
  using assms by (auto intro!: counted_cong simp: count_list_remove1)

lemma lc_inv_handle:
  assumes "lc_inv es lc cl" and "lc_handles lc h = Some bh"
  obtains bi where "get_info lc (bh_name bh) (bh_version bh) = Some bi"
    "handles_of lc (bh_name bh) (bh_version bh) = [h \<mapsto> bh]"
    "bi_state bi = MODEL_READY \<and> bi_handle bi = Some h \<or> bi_state bi = MODEL_UNLOADING \<and> bi_handle bi = None"
proof -
  let ?n = "bh_name bh" and ?v = "bh_version bh"
  have vs: "ver_inv_of lc cl ?n ?v" and at: "handles_of lc ?n ?v h = Some bh"
    using assms handles_of_at by (auto simp: lc_inv_def sys_inv_def)
  then obtain bi where bi: "get_info lc ?n ?v = Some bi"
    by (cases "get_info lc ?n ?v") (auto simp: ver_inv_def)
  then have "phase_inv bi (loads_of lc ?n ?v) (destroys_of lc ?n ?v) (handles_of lc ?n ?v)"
    using vs by (simp add: ver_inv_def)
  then show ?thesis
    using bi at that by (auto simp: phase_inv_def split: model_ready_state.splits if_splits)
qed

lemma take_handle_ok:
  assumes inv: "lc_inv es lc cl" and h: "lc_handles lc h = Some bh"
  shows "lc_inv (es @ [Ev_client]) (take_handle h lc) (h # cl)"
proof -
  let ?n = "bh_name bh" and ?v = "bh_version bh" and ?lc = "take_handle h lc"
  let ?bh = "bh\<lparr>bh_use_count := Suc (bh_use_count bh)\<rparr>"
  have handles: "handles_of ?lc n v = (if (n, v) = (?n, ?v) then (handles_of lc n v)(h \<mapsto> ?bh) else handles_of lc n v)"
    for n v
    using h by (auto simp: take_handle_def handles_of_def fun_eq_iff)
  have destroys: "destroys_of ?lc = destroys_of lc"
    by (simp add: lc_view)
  obtain bi where bi: "get_info lc ?n ?v = Some bi" "handles_of lc ?n ?v = [h \<mapsto> bh]"
    using lc_inv_handle [OF inv h] by blast
  have ver: "ver_inv_of ?lc (h # cl) n v" for n v
  proof -
    have vs: "ver_inv_of lc cl n v"
      using inv by (simp add: lc_inv_def sys_inv_def)
    show ?thesis
    proof (cases "(n, v) = (?n, ?v)")
      case True
      then show ?thesis
        using vs bi handles
        by (auto simp: ver_inv_def lc_view destroys phase_inv_def counted_def split: model_ready_state.splits if_splits)
    next
      case False
      then have "handles_of lc n v h = None"
        using h by (auto simp: handles_of_def)
      moreover have "handles_of ?lc n v = handles_of lc n v"
        using False handles by auto
      ultimately show ?thesis
        using vs by (simp add: ver_inv_def lc_view destroys counted_other)
    qed
  qed
  moreover have "glob_inv ?lc (h # cl)"
    using inv h by (auto simp: lc_inv_def sys_inv_def glob_inv_def take_handle_def)
  ultimately show ?thesis
    using inv by (simp add: lc_inv_def sys_inv_def lc_view)
qed

lemma drop_handle_ok:
  assumes inv: "lc_inv es lc cl" and h: "h \<in> set cl"
  shows "lc_inv (es @ [Ev_client]) (drop_handle h lc) (remove1 h cl)"
proof -
  obtain bh where bh: "lc_handles lc h = Some bh"
    using inv h by (auto simp: lc_inv_def sys_inv_def glob_inv_def)
  let ?n = "bh_name bh" and ?v = "bh_version bh" and ?lc = "drop_handle h lc"
  obtain bi where bi: "get_info lc ?n ?v = Some bi" "handles_of lc ?n ?v = [h \<mapsto> bh]"
    "bi_state bi = MODEL_READY \<and> bi_handle bi = Some h \<or> bi_state bi = MODEL_UNLOADING \<and> bi_handle bi = None"
    using lc_inv_handle [OF inv bh] by blast
  have at: "handles_of lc ?n ?v h = Some bh"
    using bi(2) by simp
  have "ver_inv_of lc cl ?n ?v"
    using inv by (simp add: lc_inv_def sys_inv_def)
  then have cnt: "bh_use_count bh = count_list cl h + (if bi_handle bi = Some h then 1 else 0)"
    and ph: "phase_inv bi (loads_of lc ?n ?v) (destroys_of lc ?n ?v) [h \<mapsto> bh]"
    using bi by (auto simp: ver_inv_def counted_def owner_def)
  have pos: "0 < count_list cl h"
    using h by (metis count_list_0_iff neq0_conv)
  have here: "ver_inv_of ?lc (remove1 h cl) ?n ?v"
    using bi(1,2,3) cnt ph pos
    by (auto simp: ver_inv_def lc_view drop_handle_at [OF at] phase_inv_def counted_def owner_def
        count_list_remove1)
  have ver: "ver_inv_of ?lc (remove1 h cl) n v" for n v
  proof (cases "(n, v) = (?n, ?v)")
    case True
    then show ?thesis
      using here by simp
  next
    case False
    then have "handles_of lc n v h = None"
      using bh by (auto simp: handles_of_def)
    moreover have "ver_inv_of lc cl n v"
      using inv by (simp add: lc_inv_def sys_inv_def)
    moreover have "destroys_of ?lc n v = destroys_of lc n v" "handles_of ?lc n v = handles_of lc n v"
      using drop_handle_elsewhere [OF at] False unfolding same_elsewhere_def by blast+
    ultimately show ?thesis
      by (simp add: ver_inv_def lc_view counted_other)
  qed
  have "h \<notin> set (remove1 h cl)" if "bh_use_count bh \<le> 1"
    using that cnt pos count_list_remove1 [of h cl h] by (simp flip: count_list_0_iff)
  then have "glob_inv ?lc (remove1 h cl)"
    using inv bh set_remove1_subset [of h cl]
    by (auto simp: lc_inv_def sys_inv_def glob_inv_def drop_handle_def)
  then show ?thesis
    using inv ver by (simp add: lc_inv_def sys_inv_def lc_view)
qed

declare run_section.simps [simp del]

section \<open>The versions of a model are in ascending order\<close>

definition vm_sorted :: "life_cycle \<Rightarrow> bool" where
  "vm_sorted lc \<longleftrightarrow> (\<forall>n vm. lc_map lc n = Some vm \<longrightarrow> sorted_wrt (<) (map fst vm))"

lemma set_vm_put: "fst ` set (vm_put k v m) = insert k (fst ` set m)"
  by (induction k v m rule: vm_put.induct) auto

lemma sorted_vm_put: "sorted_wrt (<) (map fst m) \<Longrightarrow> sorted_wrt (<) (map fst (vm_put k v m))"
  by (induction k v m rule: vm_put.induct) (auto simp: set_vm_put)

lemma vm_sorted_set_info: "lc_map lc1 = lc_map lc \<Longrightarrow> vm_sorted lc \<Longrightarrow> vm_sorted (set_info n v bi lc1)"
  by (auto simp: vm_sorted_def set_info_def sorted_vm_put split: option.splits)

lemma op_map:
  "Unload n v bi lc = (st, bi', lc') \<Longrightarrow> lc_map lc' = lc_map lc"
  "Load n v bi lc = (st, bi', lc') \<Longrightarrow> lc_map lc' = lc_map lc"
  by (auto simp: Unload_def Load_def Let_def split: model_ready_state.splits option.splits)

lemma Trigger_map: "TriggerNextAction n v bi lc = (st, bi', lc') \<Longrightarrow> lc_map lc' = lc_map lc"
  by (auto simp: TriggerNextAction_def Let_def op_map split: action_type.splits prod.splits)

lemma Create_map: "CreateBackendHandle n v c r bi lc = (st, bi', lc') \<Longrightarrow> lc_map lc' = lc_map lc"
  by (auto simp: CreateBackendHandle_def Let_def dest!: Trigger_map split: prod.splits if_splits sum.splits)

lemma vm_sorted_cong: "lc_map lc' = lc_map lc \<Longrightarrow> vm_sorted lc' = vm_sorted lc"
  by (simp add: vm_sorted_def)

lemma vm_sorted_simps [simp]:
  "vm_sorted (drop_handle h lc) = vm_sorted lc" "vm_sorted (take_handle h lc) = vm_sorted lc"
  "vm_sorted (release_pass lc) = vm_sorted lc" "vm_sorted (create_copy t lc) = vm_sorted lc"
  by (rule vm_sorted_cong, simp add: release_pass_def create_copy_def split: option.split)+

lemma vm_sorted_async_begin: "vm_sorted lc \<Longrightarrow> vm_sorted (async_begin n lc)"
  by (auto simp: vm_sorted_def async_begin_def)

lemma vm_sorted_run_section: "vm_sorted lc \<Longrightarrow> run_section n c sec lc = (st, lc') \<Longrightarrow> vm_sorted lc'"
  by (cases sec)
    (auto simp: run_section.simps Let_def op_map intro!: vm_sorted_set_info [of _ lc] split: option.splits prod.splits)

lemma vm_sorted_load_finish: "vm_sorted lc \<Longrightarrow> vm_sorted (load_finish t r lc)"
  by (auto simp: load_finish_def Let_def dest!: Create_map intro!: vm_sorted_set_info [of _ lc]
      split: option.splits prod.splits)

lemma vm_sorted_on_destroy:
  assumes "vm_sorted lc"
  shows "vm_sorted (on_destroy d lc)"
proof (cases "get_info lc (dt_name d) (dt_version d)")
  case None
  then show ?thesis
    using assms by (simp add: on_destroy_def)
next
  case (Some bi)
  obtain st bi' lc' where tr: "TriggerNextAction (dt_name d) (dt_version d) (bi\<lparr>bi_state := MODEL_UNAVAILABLE\<rparr>)
      (lc\<lparr>lc_destroy_threads := remove1 d (lc_destroy_threads lc)\<rparr>) = (st, bi', lc')"
    by (metis prod_cases3)
  have "vm_sorted (set_info (dt_name d) (dt_version d) bi' lc')"
    using Trigger_map [OF tr] assms by (intro vm_sorted_set_info) simp_all
  then show ?thesis
    using Some tr vm_sorted_cong [of "lc\<lparr>lc_release_queue := q\<rparr>" lc for lc q]
    by (simp add: on_destroy_def Let_def)
qed

lemma get_info_in_vm:
  "vm_sorted lc \<Longrightarrow> lc_map lc n = Some vm \<Longrightarrow> (v, bi) \<in> set vm \<longleftrightarrow> get_info lc n v = Some bi"
  by (auto simp: vm_sorted_def get_info_def strict_sorted_iff map_of_eq_Some_iff)

section \<open>The latest version\<close>

text \<open>The loop returns the last version of the list that is ready and greater than the start.\<close>

lemma latest_loop_spec:
  assumes "sorted_wrt (<) (map fst vm)" and "latest_loop vm l h = (l', h')"
  shows "(l' = l \<and> h' = h \<and> (\<forall>(v, bi) \<in> set vm. bi_state bi = MODEL_READY \<longrightarrow> v \<le> l)) \<or>
    (\<exists>bi. (l', bi) \<in> set vm \<and> l' > l \<and> bi_state bi = MODEL_READY \<and> h' = bi_handle bi \<and>
       (\<forall>(v, bi) \<in> set vm. bi_state bi = MODEL_READY \<longrightarrow> v \<le> l'))"
  using assms
proof (induction vm l h rule: latest_loop.induct)
  case (1 l h)
  then show ?case by simp
next
  case (2 v bi vm l h)
  show ?case
  proof (cases "v > l \<and> bi_state bi = MODEL_READY")
    case True
    then have "latest_loop vm v (bi_handle bi) = (l', h')"
      using "2.prems"(2) by simp
    then show ?thesis
      using "2.IH"(1) [OF True] "2.prems"(1) True by fastforce
  next
    case False
    then have run: "latest_loop vm l h = (l', h')"
      using "2.prems"(2) by (simp split: if_splits)
    have head: "bi_state bi = MODEL_READY \<longrightarrow> v \<le> l"
      using False by (cases "l < v") auto
    have "sorted_wrt (<) (map fst vm)"
      using "2.prems"(1) by simp
    from "2.IH"(2) [OF False this run] show ?thesis
    proof (elim disjE bexE exE conjE)
      assume "l' = l" "h' = h" "\<forall>(v, bi) \<in> set vm. bi_state bi = MODEL_READY \<longrightarrow> v \<le> l"
      then show ?thesis
        using head by simp
    next
      fix b
      assume "(l', b) \<in> set vm" "l < l'" "bi_state b = MODEL_READY" "h' = bi_handle b"
        "\<forall>(v, bi) \<in> set vm. bi_state bi = MODEL_READY \<longrightarrow> v \<le> l'"
      then show ?thesis
        using head by (intro disjI2 exI [of _ b]) auto
    qed
  qed
qed

lemma GetBackendHandle_ready:
  assumes "vm_sorted lc" and "GetBackendHandle lc n v = (st, Some h)"
  shows "\<exists>v' bi. get_info lc n v' = Some bi \<and> bi_state bi = MODEL_READY \<and> bi_handle bi = Some h"
proof -
  obtain vm where vm: "lc_map lc n = Some vm"
    using assms(2) by (auto simp: GetBackendHandle_def split: option.splits)
  then have sorted: "sorted_wrt (<) (map fst vm)"
    using assms(1) by (simp add: vm_sorted_def)
  show ?thesis
  proof (cases "map_of vm v")
    case None
    obtain l h' where ll: "latest_loop vm (-1) None = (l, h')"
      by fastforce
    then have h: "h' = Some h"
      using assms(2) vm None by (auto simp: GetBackendHandle_def Let_def split: if_splits)
    then obtain bi where "(l, bi) \<in> set vm" "bi_state bi = MODEL_READY" "h' = bi_handle bi"
      using latest_loop_spec [OF sorted ll] by auto
    then show ?thesis
      using h get_info_in_vm [OF assms(1) vm] by metis
  next
    case (Some bi)
    then show ?thesis
      using assms(2) vm by (auto simp: GetBackendHandle_def get_info_def split: if_splits)
  qed
qed

section \<open>Runs\<close>

lemma lc_step_inv:
  assumes "lc_step s e t" and "lc_inv es (sy_lc s) (sy_clients s)" and "vm_sorted (sy_lc s)"
  shows "lc_inv (es @ [e]) (sy_lc t) (sy_clients t) \<and> vm_sorted (sy_lc t)"
  using assms(1)
proof cases
  case (step_call name config versions force)
  then show ?thesis
    using assms(2,3) by (simp add: lc_inv_def sys_inv_def glob_inv_def lc_view vm_sorted_async_begin)
next
  case (step_section name config sec secs st lc)
  have run: "run_section name config sec (sy_lc s) = (st, lc)"
    using step_section by simp
  have "lc_inv (es @ [section_event name config sec]) lc (sy_clients s)"
    using unload_section_ok [OF assms(2)] reload_section_ok [OF assms(2)] run by (cases sec) simp_all
  then show ?thesis
    using step_section vm_sorted_run_section [OF assms(3) run] by simp
next
  case (step_return name config)
  then show ?thesis
    using assms(2,3) by (simp add: lc_inv_def)
next
  case (step_get name version st h)
  obtain v bi where bi: "get_info (sy_lc s) name v = Some bi" "bi_state bi = MODEL_READY" "bi_handle bi = Some h"
    using GetBackendHandle_ready [OF assms(3) step_get(4)] by blast
  then have "handles_of (sy_lc s) name v h \<noteq> None"
    using lc_inv_ver_state [OF assms(2), of name v]
    by (auto simp: ver_state_def ver_inv_def phase_inv_def)
  then obtain bh where "lc_handles (sy_lc s) h = Some bh"
    by (auto simp: handles_of_def split: option.splits)
  then show ?thesis
    using take_handle_ok [OF assms(2)] step_get assms(3) by simp
next
  case (step_release h)
  then show ?thesis
    using drop_handle_ok [OF assms(2)] assms(3) by simp
next
  case (step_copy t')
  then show ?thesis
    using create_copy_ok [OF assms(2)] assms(3) by simp
next
  case (step_loaded t' b)
  then show ?thesis
    using load_finish_ok [OF assms(2), of t' _ "Ev_worker" "Inr b"] assms(3) vm_sorted_load_finish by auto
next
  case (step_failed t' err)
  then show ?thesis
    using load_finish_ok [OF assms(2), of t' _ e "Inl err"] assms(3) vm_sorted_load_finish by auto
next
  case (step_destroy d)
  then show ?thesis
    using on_destroy_ok [OF assms(2)] assms(3) vm_sorted_on_destroy by simp
next
  case step_queue
  then show ?thesis
    using assms(2,3) by (simp add: lc_inv_def sys_inv_def glob_inv_def release_pass_def lc_view vm_sorted_def)
qed

lemma lc_inv_new: "lc_inv [] life_cycle_new []"
  by (auto simp: lc_inv_def sys_inv_def glob_inv_def ver_inv_def goal_ok_def goal_of_def life_cycle_new_def
      get_info_def loads_of_def destroys_of_def handles_of_def owner_def)

text \<open>The states of the runs, as a transition system whose invariant carries the requests.\<close>

interpretation lcr: transition_system
  "\<lambda>(es, s). es = [] \<and> s = lc_system_new"
  "\<lambda>(es, s) (es', t). \<exists>e. es' = es @ [e] \<and> lc_step s e t"
  "\<lambda>(es, s). lc_inv es (sy_lc s) (sy_clients s) \<and> vm_sorted (sy_lc s)"
  using lc_step_inv lc_inv_new
  by unfold_locales (auto simp: lc_system_new_def life_cycle_new_def vm_sorted_def)

lemma lc_run_pairs:
  "lc_run s es t \<Longrightarrow> (\<lambda>(es, s) (es', t). \<exists>e. es' = es @ [e] \<and> lc_step s e t)\<^sup>*\<^sup>* ([], s) (es, t)"
  by (induction rule: lc_run.induct) (auto elim: rtranclp.rtrancl_into_rtrancl)

lemma lc_run_inv:
  "lc_run lc_system_new es t \<Longrightarrow> lc_inv es (sy_lc t) (sy_clients t) \<and> vm_sorted (sy_lc t)"
  using lcr.reachable_inv [OF _ lc_run_pairs] by simp

section \<open>A run\<close>

text \<open>Version 1 of a model is requested, loaded and taken by a request; the release thread has run.\<close>

definition example_config :: model_config where
  "example_config = model_config_clear\<lparr>mc_platform := ''custom''\<rparr>"

definition example_info :: backend_info where
  "example_info = \<lparr>bi_platform = PLATFORM_CUSTOM, bi_state = MODEL_READY, bi_next_action = NO_ACTION,
     bi_model_config = example_config, bi_handle = Some 0\<rparr>"

definition example_system :: lc_system where
  "example_system =
     \<lparr>sy_lc = \<lparr>lc_map = [''m'' \<mapsto> [(1, example_info)]], lc_load_threads = [],
        lc_handles = [0 \<mapsto> \<lparr>bh_name = ''m'', bh_version = 1, bh_config = example_config,
          bh_backend = Some inference_backend_new, bh_use_count = 1\<rparr>],
        lc_next_handle = 1, lc_destroy_threads = [], lc_release_queue = [], lc_release_done = True\<rparr>,
      sy_call = None, sy_clients = []\<rparr>"

lemma example_run:
  "lc_run lc_system_new [Ev_client, Ev_load ''m'' 1 example_config, Ev_client, Ev_worker, Ev_worker, Ev_worker]
     example_system"
proof -
  let ?c = example_config
  let ?bi = "(BackendInfo MODEL_UNKNOWN NO_ACTION ?c)\<lparr>bi_state := MODEL_LOADING\<rparr>"
  let ?t = "\<lparr>lt_name = ''m'', lt_version = 1, lt_config = None\<rparr>"
  let ?lc1 = "life_cycle_new\<lparr>lc_map := [''m'' \<mapsto> []]\<rparr>"
  let ?lc2 = "life_cycle_new\<lparr>lc_map := [''m'' \<mapsto> [(1, ?bi)]], lc_load_threads := [?t]\<rparr>"
  let ?lc3 = "?lc2\<lparr>lc_load_threads := [?t\<lparr>lt_config := Some ?c\<rparr>]\<rparr>"
  let ?call = "\<lambda>secs. Some (''m'', ?c, secs)"
  let ?s = "\<lambda>lc call. \<lparr>sy_lc = lc, sy_call = call, sy_clients = []\<rparr>"
  have "lc_step lc_system_new Ev_client (?s ?lc1 (?call [Reload_section 1]))"
    using lc_step.step_call [of lc_system_new "''m''" ?c "[1]" True]
    by (simp add: lc_system_new_def life_cycle_new_def async_begin_def async_sections_def)
  then have "lc_run lc_system_new [Ev_client] (?s ?lc1 (?call [Reload_section 1]))"
    using lc_run.run_snoc [OF lc_run.run_nil] by fastforce
  moreover have "run_section ''m'' ?c (Reload_section 1) ?lc1 = (Status_Success, ?lc2)"
    by (simp add: run_section.simps get_info_def set_info_def Unload_def Load_def BackendInfo_def Let_def
        life_cycle_new_def)
  then have "lc_step (?s ?lc1 (?call [Reload_section 1])) (Ev_load ''m'' 1 ?c) (?s ?lc2 (?call []))"
    using lc_step.step_section [of "?s ?lc1 (?call [Reload_section 1])" "''m''" ?c "Reload_section 1" "[]"] by simp
  ultimately have "lc_run lc_system_new ([Ev_client] @ [Ev_load ''m'' 1 ?c]) (?s ?lc2 (?call []))"
    by (rule lc_run.run_snoc)
  moreover have "lc_step (?s ?lc2 (?call [])) Ev_client (?s ?lc2 None)"
    using lc_step.step_return [of "?s ?lc2 (?call [])" "''m''" ?c] by simp
  ultimately have "lc_run lc_system_new (([Ev_client] @ [Ev_load ''m'' 1 ?c]) @ [Ev_client]) (?s ?lc2 None)"
    by (rule lc_run.run_snoc)
  moreover have "lc_step (?s ?lc2 None) Ev_worker (?s ?lc3 None)"
    using lc_step.step_copy [of ?t "?s ?lc2 None"] by (simp add: create_copy_def get_info_def BackendInfo_def)
  ultimately have "lc_run lc_system_new ((([Ev_client] @ [Ev_load ''m'' 1 ?c]) @ [Ev_client]) @ [Ev_worker]) (?s ?lc3 None)"
    by (rule lc_run.run_snoc)
  moreover have "lc_step (?s ?lc3 None) Ev_worker (example_system\<lparr>sy_lc := (sy_lc example_system)\<lparr>lc_release_done := False\<rparr>\<rparr>)"
    using lc_step.step_loaded [of "?t\<lparr>lt_config := Some ?c\<rparr>" "?s ?lc3 None" inference_backend_new]
    by (simp add: load_finish_def CreateBackendHandle_def create_backend_def TriggerNextAction_def set_info_def
        get_info_def BackendInfo_def life_cycle_new_def example_system_def example_info_def example_config_def
        GetPlatform_def)
  ultimately have "lc_run lc_system_new (((([Ev_client] @ [Ev_load ''m'' 1 ?c]) @ [Ev_client]) @ [Ev_worker]) @ [Ev_worker])
      (example_system\<lparr>sy_lc := (sy_lc example_system)\<lparr>lc_release_done := False\<rparr>\<rparr>)"
    by (rule lc_run.run_snoc)
  moreover have "lc_step (example_system\<lparr>sy_lc := (sy_lc example_system)\<lparr>lc_release_done := False\<rparr>\<rparr>) Ev_worker example_system"
    using lc_step.step_queue [of "example_system\<lparr>sy_lc := (sy_lc example_system)\<lparr>lc_release_done := False\<rparr>\<rparr>"]
    by (simp add: release_pass_def example_system_def)
  ultimately show ?thesis
    using lc_run.run_snoc by fastforce
qed

end
