(* ===== verification/Server_Status_Props.thy ===== *)
theory Server_Status_Props
  imports Server_Status Life_Cycle_Facts
begin

text \<open>
  The statistics of a model are a summary of the reports made for it, and the state the status
  reports for a version is the one the life cycle has for it.
\<close>

declare map_of_is_None [simp del]

section \<open>Reports\<close>

text \<open>A report is the destruction of a \<open>ModelInferStats\<close>, with the version of its metric reporter.\<close>

type_synonym report = "int option \<times> model_infer_stats"

definition report_version :: "report \<Rightarrow> int" where
  "report_version r = (case fst r of None \<Rightarrow> st_requested_model_version (snd r) | Some v \<Rightarrow> v)"

definition apply_report :: "report \<Rightarrow> server_status \<Rightarrow> server_status" where
  "apply_report r ss = ModelInferStats_destroy (fst r) (snd r) ss"

definition succeeded :: "string \<Rightarrow> int \<Rightarrow> report \<Rightarrow> bool" where
  "succeeded n v r \<longleftrightarrow> st_model_name (snd r) = n \<and> report_version r = v \<and> \<not> st_failed (snd r) \<and>
     st_batch_size (snd r) \<noteq> 0"

definition failed :: "string \<Rightarrow> int \<Rightarrow> report \<Rightarrow> bool" where
  "failed n v r \<longleftrightarrow> st_model_name (snd r) = n \<and> report_version r = v \<and> st_failed (snd r)"

definition of_batch :: "32 word \<Rightarrow> report \<Rightarrow> bool" where
  "of_batch k r \<longleftrightarrow> ucast (st_batch_size (snd r)) = k"

definition durations :: "(model_infer_stats \<Rightarrow> 64 word) \<Rightarrow> report list \<Rightarrow> stat_duration" where
  "durations f rs = \<lparr>sd_count = of_nat (length rs), sd_total_time_ns = sum_list (map (f \<circ> snd) rs)\<rparr>"

definition summary :: "report list \<Rightarrow> report list \<Rightarrow> infer_request_stats" where
  "summary ok bad =
     \<lparr>is_success = durations st_request_duration_ns ok, is_failed = durations st_request_duration_ns bad,
      is_compute = durations st_compute_duration_ns ok, is_queue = durations st_queue_duration_ns ok\<rparr>"

text \<open>The status of a version; a version without an entry has counted nothing.\<close>

definition version_status_of :: "server_status \<Rightarrow> string \<Rightarrow> int \<Rightarrow> model_version_status" where
  "version_status_of ss n v =
     (case ss_model_status ss n of
        None \<Rightarrow> version_status_new
      | Some ms \<Rightarrow> (case ms_version_status ms v of None \<Rightarrow> version_status_new | Some vs \<Rightarrow> vs))"

definition stats_of :: "server_status \<Rightarrow> string \<Rightarrow> int \<Rightarrow> 32 word \<Rightarrow> infer_request_stats" where
  "stats_of ss n v k =
     (case vs_infer_stats (version_status_of ss n v) k of None \<Rightarrow> stats_zero | Some s \<Rightarrow> s)"

lemma durations_snoc: "add_duration (f (snd r)) (durations f rs) = durations f (rs @ [r])"
  by (simp add: add_duration_def durations_def)

lemma durations_Nil: "durations f [] = stat_zero"
  by (simp add: durations_def stat_zero_def)

lemma set_duration_add: "set_duration d = add_duration d stat_zero"
  by (simp add: set_duration_def add_duration_def stat_zero_def)

lemma failed_stats_add:
  "failed_stats d old = (case old of None \<Rightarrow> stats_zero | Some s \<Rightarrow> s)
     \<lparr>is_failed := add_duration d (is_failed (case old of None \<Rightarrow> stats_zero | Some s \<Rightarrow> s))\<rparr>"
  by (auto simp: failed_stats_def set_duration_add stats_zero_def split: option.split)

lemma success_stats_add:
  "success_stats r q c old =
     (let s = (case old of None \<Rightarrow> stats_zero | Some s \<Rightarrow> s) in
      s\<lparr>is_success := add_duration r (is_success s), is_compute := add_duration c (is_compute s),
        is_queue := add_duration q (is_queue s)\<rparr>)"
  by (auto simp: success_stats_def set_duration_add stats_zero_def Let_def split: option.split)

section \<open>One report\<close>

lemma update_model_status [simp]:
  "ss_model_status (update_model m f ss) n =
     (if n = m then map_option f (ss_model_status ss n) else ss_model_status ss n)"
  by (auto simp: update_model_def split: option.split)

lemma report_failed:
  assumes "ss_model_status ss n = Some ms" and "failed n v r"
  shows "version_status_of (apply_report r ss) n v =
    (let vs = version_status_of ss n v; k = ucast (st_batch_size (snd r)) in
     vs\<lparr>vs_infer_stats := (vs_infer_stats vs)(k \<mapsto>
       failed_stats (st_request_duration_ns (snd r)) (vs_infer_stats vs k))\<rparr>)"
  using assms
  by (auto simp: apply_report_def failed_def report_version_def ModelInferStats_destroy_def Let_def
      UpdateFailedInferStats_def version_status_of_def version_status_new_def split: option.split)

lemma report_succeeded:
  assumes "ss_model_status ss n = Some ms" and "succeeded n v r"
  shows "version_status_of (apply_report r ss) n v =
    (let vs = version_status_of ss n v; k = ucast (st_batch_size (snd r)) in
     vs\<lparr>vs_model_inference_count := vs_model_inference_count vs + st_batch_size (snd r),
        vs_model_execution_count := vs_model_execution_count vs + ucast (st_execution_count (snd r)),
        vs_infer_stats := (vs_infer_stats vs)(k \<mapsto>
          success_stats (st_request_duration_ns (snd r)) (st_queue_duration_ns (snd r))
            (st_compute_duration_ns (snd r)) (vs_infer_stats vs k))\<rparr>)"
  using assms
  by (auto simp: apply_report_def succeeded_def report_version_def ModelInferStats_destroy_def Let_def
      UpdateSuccessInferStats_def version_status_of_def version_status_new_def split: option.split)

lemma report_other:
  assumes "\<not> failed n v r" and "\<not> succeeded n v r"
  shows "version_status_of (apply_report r ss) n v = version_status_of ss n v"
  using assms
  by (auto simp: apply_report_def failed_def succeeded_def report_version_def ModelInferStats_destroy_def Let_def
      UpdateSuccessInferStats_def UpdateFailedInferStats_def version_status_of_def split: option.split)

lemma report_keeps_model:
  "ss_model_status ss n = Some ms \<Longrightarrow>
   \<exists>ms'. ss_model_status (apply_report r ss) n = Some ms' \<and> ms_config ms' = ms_config ms"
  by (auto simp: apply_report_def ModelInferStats_destroy_def Let_def UpdateSuccessInferStats_def
      UpdateFailedInferStats_def)

lemma not_both: "failed n v r \<Longrightarrow> \<not> succeeded n v r"
  by (simp add: failed_def succeeded_def)

section \<open>All reports\<close>

lemma reports_summary:
  assumes "ss_model_status ss n = Some \<lparr>ms_config = config, ms_version_status = Map.empty\<rparr>"
  shows "(\<exists>ms. ss_model_status (fold apply_report log ss) n = Some ms \<and> ms_config ms = config) \<and>
    stats_of (fold apply_report log ss) n v k =
      summary (filter (\<lambda>r. succeeded n v r \<and> of_batch k r) log) (filter (\<lambda>r. failed n v r \<and> of_batch k r) log) \<and>
    vs_model_inference_count (version_status_of (fold apply_report log ss) n v) =
      sum_list (map (st_batch_size \<circ> snd) (filter (succeeded n v) log)) \<and>
    vs_model_execution_count (version_status_of (fold apply_report log ss) n v) =
      sum_list (map (ucast \<circ> st_execution_count \<circ> snd) (filter (succeeded n v) log))"
proof (induction log rule: rev_induct)
  case Nil
  then show ?case
    using assms by (simp add: stats_of_def version_status_of_def version_status_new_def summary_def
        durations_Nil stats_zero_def)
next
  case (snoc r log)
  let ?ss = "fold apply_report log ss"
  obtain ms where ms: "ss_model_status ?ss n = Some ms" "ms_config ms = config"
    using snoc.IH by blast
  have keep: "\<exists>ms. ss_model_status (apply_report r ?ss) n = Some ms \<and> ms_config ms = config"
    using report_keeps_model [OF ms(1)] ms(2) by metis
  consider (bad) "failed n v r" | (ok) "succeeded n v r" | (other) "\<not> failed n v r" "\<not> succeeded n v r"
    by blast
  then show ?case
  proof cases
    case bad
    then show ?thesis
      using snoc.IH keep report_failed [OF ms(1) bad] not_both [OF bad]
      by (auto simp: stats_of_def Let_def failed_stats_add of_batch_def summary_def durations_snoc
          simp flip: durations_snoc)
  next
    case ok
    then show ?thesis
      using snoc.IH keep report_succeeded [OF ms(1) ok] not_both [of n v r]
      by (auto simp: stats_of_def Let_def success_stats_add of_batch_def summary_def simp flip: durations_snoc)
  next
    case other
    then show ?thesis
      using snoc.IH keep report_other [OF other] by (simp add: stats_of_def)
  qed
qed

text \<open>
  Claim C36. The statistics of a model summarise the reports made since it was initialised, whatever
  models, versions and batch sizes they are for and in whatever order they come: for every version
  and batch size (modulo 2^32) the success, compute and queue counters count exactly the successful
  reports with a batch size and add up their durations, the failure counter the failed ones; the
  inference count is the sum of the batch sizes and the execution count the sum of the executions
  (all modulo 2^64).
\<close>

theorem statistics_summarise_reports:
  fixes log :: "report list"
  shows "let ss = fold apply_report log (snd (InitForModel n config ss0)) in
    stats_of ss n v k =
      summary (filter (\<lambda>r. succeeded n v r \<and> of_batch k r) log) (filter (\<lambda>r. failed n v r \<and> of_batch k r) log) \<and>
    vs_model_inference_count (version_status_of ss n v) =
      sum_list (map (st_batch_size \<circ> snd) (filter (succeeded n v) log)) \<and>
    vs_model_execution_count (version_status_of ss n v) =
      sum_list (map (ucast \<circ> st_execution_count \<circ> snd) (filter (succeeded n v) log))"
  using reports_summary [of "snd (InitForModel n config ss0)" n config log v k]
  by (simp add: InitForModel_def Let_def)

section \<open>The states of the versions\<close>

lemma set_version_states_other:
  "v \<notin> fst ` set states \<Longrightarrow> set_version_states states mvs v = mvs v"
  by (induction states mvs rule: set_version_states.induct) auto

lemma set_version_states_at:
  "distinct (map fst states) \<Longrightarrow> (v, state) \<in> set states \<Longrightarrow>
   \<exists>vs. set_version_states states mvs v = Some vs \<and> vs_ready_state vs = state"
  by (induction states mvs rule: set_version_states.induct) (auto simp: set_version_states_other)

text \<open>The ready state a status reports for a version.\<close>

definition reported_state :: "server_status \<Rightarrow> string \<Rightarrow> int \<Rightarrow> model_ready_state option" where
  "reported_state ss n v =
     (case ss_model_status ss n of
        None \<Rightarrow> None
      | Some ms \<Rightarrow> map_option vs_ready_state (ms_version_status ms v))"

lemma GetVersionStates_info:
  assumes "vm_sorted lc"
  shows "distinct (map fst (GetVersionStates lc n))"
    and "(v, state) \<in> set (GetVersionStates lc n) \<longleftrightarrow> map_option bi_state (get_info lc n v) = Some state"
proof -
  show "distinct (map fst (GetVersionStates lc n))"
    using assms by (auto simp: GetVersionStates_def vm_sorted_def strict_sorted_iff comp_def case_prod_unfold split: option.split)
  show "(v, state) \<in> set (GetVersionStates lc n) \<longleftrightarrow> map_option bi_state (get_info lc n v) = Some state"
  proof (cases "lc_map lc n")
    case None
    then show ?thesis
      by (simp add: GetVersionStates_def get_info_def)
  next
    case (Some vm)
    then show ?thesis
      using get_info_in_vm [OF assms Some, of v] by (force simp: GetVersionStates_def image_iff)
  qed
qed

lemma reported_state_spec:
  assumes "vm_sorted lc" and "ss_model_status ss n = Some ms" and "mc_name (ms_config ms) = n"
  shows "\<exists>ss'. Get_all sid rs up (GetVersionStates lc) ss = Inr ss' \<and>
    reported_state ss' n v =
      (case get_info lc n v of
         Some bi \<Rightarrow> Some (bi_state bi)
       | None \<Rightarrow> map_option (\<lambda>_. MODEL_UNAVAILABLE) (ms_version_status ms v))"
proof -
  let ?states = "GetVersionStates lc n"
  let ?mvs = "\<lambda>v. map_option (vs_ready_state_update (\<lambda>_. MODEL_UNAVAILABLE)) (ms_version_status ms v)"
  note info = GetVersionStates_info [where n = n, OF assms(1)]
  have "map_option vs_ready_state (set_version_states ?states ?mvs v) =
      (case get_info lc n v of
         Some bi \<Rightarrow> Some (bi_state bi)
       | None \<Rightarrow> map_option (\<lambda>_. MODEL_UNAVAILABLE) (ms_version_status ms v))"
  proof (cases "get_info lc n v")
    case None
    then have "v \<notin> fst ` set ?states"
      using info(2) by fastforce
    then show ?thesis
      using None by (simp add: set_version_states_other option.map_comp comp_def)
  next
    case (Some bi)
    then have "(v, bi_state bi) \<in> set ?states"
      using info(2) by simp
    then show ?thesis
      using Some set_version_states_at [OF info(1)] by fastforce
  qed
  then show ?thesis
    using assms(2,3) by (simp add: Get_all_def reported_state_def SetModelVersionReadyState_def)
qed

text \<open>
  The status of the server reports for a version the state the life cycle has for it; a
  version the life cycle does not know is reported unavailable if requests were counted for it, and
  not at all otherwise.
\<close>

theorem status_reports_life_cycle:
  assumes "lc_run lc_system_new es s" and "ss_model_status ss n = Some ms" and "mc_name (ms_config ms) = n"
  shows "\<exists>ss'. Get_all sid rs up (GetVersionStates (sy_lc s)) ss = Inr ss' \<and>
    reported_state ss' n v =
      (case get_info (sy_lc s) n v of
         Some bi \<Rightarrow> Some (bi_state bi)
       | None \<Rightarrow> map_option (\<lambda>_. MODEL_UNAVAILABLE) (ms_version_status ms v))"
  using reported_state_spec [OF _ assms(2,3)] lc_run_inv [OF assms(1)] by blast

lemma status_reports_life_cycle_witness:
  "\<exists>ss'. Get_all [] SERVER_READY 0 (GetVersionStates (sy_lc example_system))
       (snd (InitForModel ''m'' (model_config_clear\<lparr>mc_name := ''m''\<rparr>) server_status_clear)) = Inr ss' \<and>
     reported_state ss' ''m'' 1 = Some MODEL_READY"
proof -
  let ?c = "model_config_clear\<lparr>mc_name := ''m''\<rparr>"
  have ms: "ss_model_status (snd (InitForModel ''m'' ?c server_status_clear)) ''m'' =
      Some \<lparr>ms_config = ?c, ms_version_status = Map.empty\<rparr>"
    by (simp add: InitForModel_def)
  have "get_info (sy_lc example_system) ''m'' 1 = Some example_info"
    by (simp add: example_system_def get_info_def)
  then show ?thesis
    using status_reports_life_cycle [OF example_run ms, of "[]" SERVER_READY 0 1] by (simp add: example_info_def)
qed

section \<open>Timers\<close>

text \<open>A timer that is started and stopped in turns has measured the sum of the durations.\<close>

fun run_timer :: "(timespec \<times> timespec) list \<Rightarrow> scoped_timer \<Rightarrow> scoped_timer" where
  "run_timer [] tm = tm"
| "run_timer ((start, finish) # spans) tm = run_timer spans (timer_Stop finish (timer_Start start tm))"

lemma run_timer_sum:
  "list_all (\<lambda>(start, finish). fst start \<noteq> 0) spans \<Longrightarrow>
   tm_cummulative_duration_ns (run_timer spans tm) =
     tm_cummulative_duration_ns tm + sum_list (map (\<lambda>(start, finish). elapsed_ns start finish) spans)"
  by (induction spans tm rule: run_timer.induct) (auto simp: timer_Stop_def timer_Start_def algebra_simps)

end
