(* ===== verification/Life_Cycle_Props.thy ===== *)
theory Life_Cycle_Props
  imports Life_Cycle_Facts
begin

text \<open>The properties of the life cycle of the backends.\<close>

declare map_of_is_None [simp del]

section \<open>The requests\<close>

definition served :: "life_cycle \<Rightarrow> string \<Rightarrow> int \<Rightarrow> model_config option" where
  "served lc n v =
     (case get_info lc n v of
        None \<Rightarrow> None
      | Some bi \<Rightarrow>
          if bi_state bi = MODEL_READY then
            (case bi_handle bi of None \<Rightarrow> None | Some h \<Rightarrow> map_option bh_config (lc_handles lc h))
          else None)"

text \<open>Nothing is going on for the version: no thread of it runs and nobody outside owns its handle.\<close>

definition quiet :: "lc_system \<Rightarrow> string \<Rightarrow> int \<Rightarrow> bool" where
  "quiet s n v \<longleftrightarrow> loads_of (sy_lc s) n v = [] \<and> destroys_of (sy_lc s) n v = [] \<and>
     list_all (\<lambda>h. handles_of (sy_lc s) n v h = None) (sy_clients s)"

lemma served_inv:
  assumes "ver_inv_of lc cl n v" and "get_info lc n v = Some bi"
  shows "served lc n v = (if bi_state bi = MODEL_READY then Some (bi_model_config bi) else None)"
proof (cases "bi_state bi = MODEL_READY")
  case True
  then obtain h bh where "bi_handle bi = Some h" "handles_of lc n v = [h \<mapsto> bh]"
    "bh_config bh = bi_model_config bi"
    using assms by (auto simp: ver_inv_def phase_inv_def)
  then show ?thesis
    using True assms(2) handles_of_SomeD [of lc n v h bh] by (simp add: served_def)
next
  case False
  then show ?thesis
    using assms(2) by (simp add: served_def)
qed

lemma quiet_state:
  assumes "ver_inv_of (sy_lc s) (sy_clients s) n v" and "get_info (sy_lc s) n v = Some bi" and "quiet s n v"
  shows "bi_state bi = MODEL_READY \<or> bi_state bi = MODEL_UNAVAILABLE \<or> bi_state bi = MODEL_UNKNOWN"
proof -
  have "bi_state bi \<noteq> MODEL_UNLOADING"
  proof
    assume "bi_state bi = MODEL_UNLOADING"
    then obtain h bh where h: "handles_of (sy_lc s) n v = [h \<mapsto> bh]" "bi_handle bi = None"
      using assms by (auto simp: ver_inv_def phase_inv_def quiet_def)
    then have "counted [h \<mapsto> bh] (sy_clients s) None"
      using assms(1,2) by (simp add: ver_inv_def owner_def)
    then have "0 < count_list (sy_clients s) h"
      using countedD [of "[h \<mapsto> bh]" "sy_clients s" None h bh] by simp
    then have "h \<in> set (sy_clients s)"
      by (metis count_list_0_iff less_irrefl)
    then show False
      using assms(3) h by (auto simp: quiet_def list_all_iff split: if_splits)
  qed
  moreover have "bi_state bi \<noteq> MODEL_LOADING"
    using assms by (auto simp: ver_inv_def phase_inv_def quiet_def)
  ultimately show ?thesis
    by (cases "bi_state bi") auto
qed

lemma quiet_goal_served:
  assumes "lc_inv es (sy_lc s) (sy_clients s)" and "quiet s n v"
  shows "case goal_of es n v of
      Serve c \<Rightarrow> served (sy_lc s) n v = Some c
    | Failed c \<Rightarrow> served (sy_lc s) n v \<in> {Some c, None}
    | _ \<Rightarrow> served (sy_lc s) n v = None"
proof -
  have g: "goal_ok (goal_of es n v) (get_info (sy_lc s) n v)" and v: "ver_inv_of (sy_lc s) (sy_clients s) n v"
    using assms(1) by (simp_all add: lc_inv_def sys_inv_def)
  show ?thesis
  proof (cases "get_info (sy_lc s) n v")
    case None
    then show ?thesis
      using g by (auto simp: goal_ok_def served_def split: goal.splits)
  next
    case (Some bi)
    then show ?thesis
      using g quiet_state [OF v Some assms(2)]
      by (auto simp: goal_ok_def served_inv [OF v Some] pursues_def split: goal.splits)
  qed
qed

text \<open>
  Claim C1. The life cycle implements "the last request wins", in every interleaving of the calls of
  AsyncLoad, the loading and destroying threads and the owners of handles: a backend is served only
  while the last request for its version was to load it, and it was created from exactly the
  configuration of that request; and once nothing runs for the version any more, the backend is
  served if the last request was to load it and no load has failed since, and it is not served if
  the last request was to unload it.
\<close>

theorem lc_follows_requests:
  assumes "lc_run lc_system_new es s"
  shows "(case served (sy_lc s) n v of
      None \<Rightarrow> True | Some c \<Rightarrow> goal_of es n v \<in> {Serve c, Failed c}) \<and>
    (if quiet s n v then
       (case goal_of es n v of
          Serve c \<Rightarrow> served (sy_lc s) n v = Some c
        | Failed c \<Rightarrow> served (sy_lc s) n v \<in> {Some c, None}
        | _ \<Rightarrow> served (sy_lc s) n v = None)
     else True)"
proof -
  have inv: "lc_inv es (sy_lc s) (sy_clients s)"
    using lc_run_inv [OF assms] by simp
  then have g: "goal_ok (goal_of es n v) (get_info (sy_lc s) n v)" and v: "ver_inv_of (sy_lc s) (sy_clients s) n v"
    by (simp_all add: lc_inv_def sys_inv_def)
  have "case served (sy_lc s) n v of None \<Rightarrow> True | Some c \<Rightarrow> goal_of es n v \<in> {Serve c, Failed c}"
  proof (cases "get_info (sy_lc s) n v")
    case None
    then show ?thesis
      by (simp add: served_def)
  next
    case (Some bi)
    then show ?thesis
      using g served_inv [OF v Some] by (auto simp: goal_ok_def pursues_def split: goal.splits option.splits)
  qed
  then show ?thesis
    using quiet_goal_served [OF inv] by simp
qed

lemma example_quiet: "quiet example_system ''m'' 1"
  by (simp add: quiet_def loads_of_def destroys_of_def example_system_def)

lemma lc_follows_requests_witness:
  "quiet example_system ''m'' 1 \<and> served (sy_lc example_system) ''m'' 1 = Some example_config"
  using lc_follows_requests [OF example_run, of "''m''" 1] example_quiet by (simp add: goal_of_def)



section \<open>Getting a handle\<close>

definition is_ready :: "life_cycle \<Rightarrow> string \<Rightarrow> int \<Rightarrow> bool" where
  "is_ready lc n v \<longleftrightarrow> (case get_info lc n v of None \<Rightarrow> False | Some bi \<Rightarrow> bi_state bi = MODEL_READY)"

lemma GetBackendHandle_named:
  assumes "get_info lc n v = Some bi"
  shows "GetBackendHandle lc n v =
    (if bi_state bi = MODEL_READY then (Status_Success, bi_handle bi)
     else (Status UNAVAILABLE (''model '' @ quote n @ '' version '' @ show_int v @
             '' is not at ready state''), None))"
  using assms by (auto simp: GetBackendHandle_def get_info_def split: option.splits)

lemma GetBackendHandle_latest:
  assumes "vm_sorted lc" and "get_info lc n (-1) = None" and "GetBackendHandle lc n (-1) = (st, h)"
  shows "if IsOk st then
      (\<exists>v bi. get_info lc n v = Some bi \<and> bi_state bi = MODEL_READY \<and> h = bi_handle bi \<and> -1 < v \<and>
        (\<forall>v'. is_ready lc n v' \<longrightarrow> v' \<le> v))
    else h = None \<and> (\<forall>v. is_ready lc n v \<longrightarrow> v < 0)"
proof (cases "lc_map lc n")
  case None
  then show ?thesis
    using assms(3) by (auto simp: GetBackendHandle_def is_ready_def get_info_def)
next
  case (Some vm)
  note mem = get_info_in_vm [OF assms(1) Some]
  obtain l h' where ll: "latest_loop vm (-1) None = (l, h')"
    by fastforce
  have none: "map_of vm (-1) = None"
    using assms(2) Some by (simp add: get_info_def)
  have ready_le: "v \<le> k" if r: "is_ready lc n v"
    and le: "\<forall>(v, bi) \<in> set vm. bi_state bi = MODEL_READY \<longrightarrow> v \<le> k" for v k
  proof -
    obtain bi where "get_info lc n v = Some bi" "bi_state bi = MODEL_READY"
      using r by (auto simp: is_ready_def split: option.splits)
    then have "(v, bi) \<in> set vm" "bi_state bi = MODEL_READY"
      using mem by simp_all
    then show ?thesis
      using le by blast
  qed
  have "sorted_wrt (<) (map fst vm)"
    using assms(1) Some by (simp add: vm_sorted_def)
  from latest_loop_spec [OF this ll] show ?thesis
  proof (elim disjE exE conjE)
    assume l: "l = -1" "h' = None" and all: "\<forall>(v, bi) \<in> set vm. bi_state bi = MODEL_READY \<longrightarrow> v \<le> -1"
    have "\<not> IsOk st \<and> h = None"
      using assms(3) Some ll none l by (auto simp: GetBackendHandle_def)
    moreover have "v < 0" if "is_ready lc n v" for v
      using ready_le [OF that all] by simp
    ultimately show ?thesis by simp
  next
    fix bi
    assume l: "(l, bi) \<in> set vm" "-1 < l" "bi_state bi = MODEL_READY" "h' = bi_handle bi"
      and all: "\<forall>(v, bi) \<in> set vm. bi_state bi = MODEL_READY \<longrightarrow> v \<le> l"
    have st: "st = Status_Success \<and> h = bi_handle bi"
      using assms(3) Some ll none l by (auto simp: GetBackendHandle_def)
    have "v' \<le> l" if "is_ready lc n v'" for v'
      using ready_le [OF that all] .
    then show ?thesis
      using st l mem by auto
  qed
qed

text \<open>
  Claim C26. In every reachable state, a request for a version of a model gets the handle of that
  version if it is ready and an error otherwise; a request for the latest version (-1) gets the
  handle of the greatest version that is ready, and an error exactly if no version that is not
  negative is ready. A successful request never gets a null handle.
\<close>

theorem GetBackendHandle_spec:
  assumes "lc_run lc_system_new es s" and "GetBackendHandle (sy_lc s) n v = (st, h)"
    and "v = -1 \<Longrightarrow> get_info (sy_lc s) n (-1) = None"
  shows "if IsOk st then
      (\<exists>v' bi. get_info (sy_lc s) n v' = Some bi \<and> bi_state bi = MODEL_READY \<and> h = bi_handle bi \<and>
        h \<noteq> None \<and> (v' = v \<or> v = -1 \<and> -1 < v' \<and> (\<forall>v''. is_ready (sy_lc s) n v'' \<longrightarrow> v'' \<le> v')))
    else h = None \<and> \<not> is_ready (sy_lc s) n v \<and> (v = -1 \<longrightarrow> (\<forall>v'. is_ready (sy_lc s) n v' \<longrightarrow> v' < 0))"
proof -
  have inv: "lc_inv es (sy_lc s) (sy_clients s)" and sorted: "vm_sorted (sy_lc s)"
    using lc_run_inv [OF assms(1)] by simp_all
  have owns: "bi_handle bi \<noteq> None" if "get_info (sy_lc s) n v' = Some bi" "bi_state bi = MODEL_READY" for v' bi
    using lc_inv_ver_state [OF inv, of n v'] that by (auto simp: ver_state_def ver_inv_def phase_inv_def)
  show ?thesis
  proof (cases "get_info (sy_lc s) n v")
    case (Some bi)
    show ?thesis
    proof (cases "bi_state bi = MODEL_READY")
      case True
      then have "st = Status_Success" "h = bi_handle bi"
        using assms(2) GetBackendHandle_named [OF Some] by simp_all
      then show ?thesis
        using Some True owns [OF Some True] by auto
    next
      case False
      then have "\<not> IsOk st" "h = None"
        using assms(2) GetBackendHandle_named [OF Some] by auto
      then show ?thesis
        using Some False assms(3) by (auto simp: is_ready_def)
    qed
  next
    case none: None
    show ?thesis
    proof (cases "v = -1")
      case True
      then show ?thesis
        using GetBackendHandle_latest [OF sorted, of n st h] assms(2) none owns
        by (auto simp: is_ready_def split: if_splits) metis+
    next
      case False
      then have "\<not> IsOk st \<and> h = None"
        using assms(2) none by (auto simp: GetBackendHandle_def get_info_def split: option.splits)
      then show ?thesis
        using False none by (simp add: is_ready_def)
    qed
  qed
qed

lemma GetBackendHandle_spec_witness:
  "GetBackendHandle (sy_lc example_system) ''m'' (-1) = (Status_Success, Some 0) \<and>
   (\<exists>v' bi. get_info (sy_lc example_system) ''m'' v' = Some bi \<and> bi_state bi = MODEL_READY \<and>
     Some 0 = bi_handle bi)"
proof -
  have none: "get_info (sy_lc example_system) ''m'' (-1) = None"
    by (simp add: example_system_def get_info_def)
  have get: "GetBackendHandle (sy_lc example_system) ''m'' (-1) = (Status_Success, Some 0)"
    by (simp add: example_system_def GetBackendHandle_def example_info_def)
  show ?thesis
    using GetBackendHandle_spec [OF example_run get none] get by fastforce
qed

section \<open>A call of AsyncLoad\<close>

lemma goal_unloads:
  "foldl (goal_step n v) g (map (section_event n c) (map Unload_section vs)) =
   (if v \<in> set vs \<and> g \<noteq> Never then Gone else g)"
  by (induction vs arbitrary: g) auto

lemma goal_reloads:
  "foldl (goal_step n v) g (map (section_event n c) (map Reload_section vs)) =
   (if v \<in> set vs then Serve c else g)"
  by (induction vs arbitrary: g) auto

lemma goal_other_model:
  "n' \<noteq> n \<Longrightarrow> foldl (goal_step n' v) g (map (section_event n c) secs) = g"
proof (induction secs arbitrary: g)
  case Nil
  then show ?case by simp
next
  case (Cons sec secs)
  then show ?case by (cases sec) auto
qed

lemma run_sections_run:
  assumes "lc_run lc_system_new es s" and "sy_call s = Some (n, c, secs)"
    and "run_sections n c secs (sy_lc s) = (st, lc)"
  shows "IsOk st \<and> lc_run lc_system_new (es @ map (section_event n c) secs)
    (s\<lparr>sy_lc := lc, sy_call := Some (n, c, [])\<rparr>)"
  using assms
proof (induction secs arbitrary: es s)
  case Nil
  then have "s\<lparr>sy_lc := lc, sy_call := Some (n, c, [])\<rparr> = s" and "IsOk st"
    by (cases s, auto)
  then show ?case
    using Nil.prems(1) by simp
next
  case (Cons sec secs)
  obtain st1 lc1 where one: "run_section n c sec (sy_lc s) = (st1, lc1)"
    by fastforce
  have inv: "lc_inv es (sy_lc s) (sy_clients s)"
    using lc_run_inv [OF Cons.prems(1)] by simp
  have ok: "IsOk st1"
    using unload_section_ok [OF inv] reload_section_ok [OF inv] one by (cases sec) blast+
  let ?s = "s\<lparr>sy_lc := lc1, sy_call := Some (n, c, secs)\<rparr>"
  have "lc_step s (section_event n c sec) ?s"
    using lc_step.step_section [OF Cons.prems(2) one] ok by simp
  then have "lc_run lc_system_new (es @ [section_event n c sec]) ?s"
    by (rule lc_run.run_snoc [OF Cons.prems(1)])
  moreover have "run_sections n c secs (sy_lc ?s) = (st, lc)"
    using Cons.prems(3) one ok by simp
  ultimately show ?case
    using Cons.IH [of "es @ [section_event n c sec]" ?s] by simp
qed

lemma never_no_info: "lc_inv es lc cl \<Longrightarrow> get_info lc n v = None \<Longrightarrow> goal_of es n v = Never"
  using lc_inv_goal [of es lc cl n v] by (auto simp: goal_ok_def split: goal.splits)

lemma AsyncLoad_goals:
  assumes "lc_run lc_system_new es s" and "sy_call s = None"
    and "AsyncLoad n versions c True (sy_lc s) = (st, lc)"
  shows "IsOk st \<and>
    (\<exists>es'. lc_run lc_system_new es' (s\<lparr>sy_lc := lc\<rparr>) \<and>
       (\<forall>v. goal_of es' n v =
          (if v \<in> set versions then Serve c else if goal_of es n v = Never then Never else Gone)) \<and>
       (\<forall>n' v. goal_of es' n' v = (if n' = n then goal_of es' n v else goal_of es n' v)))"
proof -
  let ?lc = "async_begin n (sy_lc s)"
  let ?secs = "async_sections ?lc n versions True"
  let ?s = "s\<lparr>sy_lc := ?lc, sy_call := Some (n, c, ?secs)\<rparr>"
  let ?es = "(es @ [Ev_client]) @ map (section_event n c) ?secs"
  have run: "lc_run lc_system_new (es @ [Ev_client]) ?s"
    by (rule lc_run.run_snoc [OF assms(1) lc_step.step_call [OF assms(2)]])
  moreover have "run_sections n c ?secs (sy_lc ?s) = (st, lc)"
    using assms(3) by (simp add: AsyncLoad_def Let_def)
  ultimately have ok: "IsOk st" and ran: "lc_run lc_system_new ?es (?s\<lparr>sy_lc := lc, sy_call := Some (n, c, [])\<rparr>)"
    using run_sections_run [OF run, of n c ?secs st lc] by auto
  let ?t = "?s\<lparr>sy_lc := lc, sy_call := Some (n, c, [])\<rparr>"
  have "lc_run lc_system_new (?es @ [Ev_client]) (?t\<lparr>sy_call := None\<rparr>)"
    by (rule lc_run.run_snoc [OF ran lc_step.step_return [of _ n c]]) simp
  moreover have "?t\<lparr>sy_call := None\<rparr> = s\<lparr>sy_lc := lc\<rparr>"
    using assms(2) by (cases s) simp
  ultimately have final: "lc_run lc_system_new (?es @ [Ev_client]) (s\<lparr>sy_lc := lc\<rparr>)"
    by simp
  define vs where "vs = (case lc_map ?lc n of None \<Rightarrow> [] | Some vm \<Rightarrow> map fst vm)"
  have secs: "?secs = map Unload_section vs @ map Reload_section versions"
    by (simp add: async_sections_def vs_def split: option.splits)
  have inv: "lc_inv es (sy_lc s) (sy_clients s)" "vm_sorted (sy_lc s)"
    using lc_run_inv [OF assms(1)] by simp_all
  have known: "goal_of es n v = Never" if "v \<notin> set vs" for v
  proof -
    obtain vm where vm: "lc_map ?lc n = Some vm"
      by (cases "lc_map (sy_lc s) n") (auto simp: async_begin_def)
    have "get_info ?lc n v = map_of vm v"
      by (simp only: get_info_def vm option.case)
    also have "\<dots> = None"
      using that by (simp add: vs_def vm map_of_eq_None_iff)
    finally have "get_info ?lc n v = None" .
    then show ?thesis
      using never_no_info [OF inv(1)] by simp
  qed
  have "goal_of (?es @ [Ev_client]) n v =
      (if v \<in> set versions then Serve c else if goal_of es n v = Never then Never else Gone)" for v
    using known [of v] unfolding secs
    by (simp add: goal_of_def goal_unloads goal_reloads foldl_append del: map_map)
  moreover have "goal_of (?es @ [Ev_client]) n' v = goal_of es n' v" if "n' \<noteq> n" for n' v
    using goal_other_model [OF that] by (simp add: goal_of_def)
  ultimately show ?thesis
    using ok final by (intro conjI exI [of _ "?es @ [Ev_client]"]) auto
qed

text \<open>
  AsyncLoad never fails, and it asks for exactly the given versions: run in any reachable
  state it is a run of the life cycle after which the requested versions of the model are to be
  served with the given configuration, every other version of the model is to be unloaded, and no
  request of another model has changed.
\<close>

theorem AsyncLoad_requests:
  assumes "lc_run lc_system_new es s" and "sy_call s = None"
    and "AsyncLoad n versions c True (sy_lc s) = (st, lc)"
  shows "IsOk st \<and>
    (\<exists>es'. lc_run lc_system_new es' (s\<lparr>sy_lc := lc\<rparr>) \<and>
       (\<forall>v. goal_of es' n v =
          (if v \<in> set versions then Serve c else if goal_of es n v = Never then Never else Gone)) \<and>
       (\<forall>n' v. goal_of es' n' v = (if n' = n then goal_of es' n v else goal_of es n' v)))"
  by (rule AsyncLoad_goals [OF assms])

lemma AsyncLoad_requests_witness:
  "\<exists>es' st lc. AsyncLoad ''m'' [2] example_config True (sy_lc example_system) = (st, lc) \<and> IsOk st \<and>
     lc_run lc_system_new es' (example_system\<lparr>sy_lc := lc\<rparr>) \<and>
     goal_of es' ''m'' 1 = Gone \<and> goal_of es' ''m'' 2 = Serve example_config"
proof -
  let ?es = "[Ev_client, Ev_load ''m'' 1 example_config, Ev_client, Ev_worker, Ev_worker, Ev_worker]"
  obtain st lc where al: "AsyncLoad ''m'' [2] example_config True (sy_lc example_system) = (st, lc)"
    by fastforce
  have "sy_call example_system = None"
    by (simp add: example_system_def)
  from AsyncLoad_requests [OF example_run this al] obtain es' where
    ok: "IsOk st" "lc_run lc_system_new es' (example_system\<lparr>sy_lc := lc\<rparr>)" and
    g: "\<forall>v. goal_of es' ''m'' v = (if v \<in> set [2] then Serve example_config
          else if goal_of ?es ''m'' v = Never then Never else Gone)"
    by blast
  have "goal_of ?es ''m'' 1 = Serve example_config"
    by (simp add: goal_of_def)
  then have "goal_of es' ''m'' 1 = Gone \<and> goal_of es' ''m'' 2 = Serve example_config"
    using g by simp
  then show ?thesis
    using al ok by blast
qed

section \<open>The release queue\<close>

text \<open>Once the release thread has run, no step takes a backend out of the release queue.\<close>

lemma op_release:
  "Unload n v bi lc = (st, bi', lc') \<Longrightarrow>
   lc_release_queue lc' = lc_release_queue lc \<and> lc_release_done lc' = lc_release_done lc"
  "Load n v bi lc = (st, bi', lc') \<Longrightarrow>
   lc_release_queue lc' = lc_release_queue lc \<and> lc_release_done lc' = lc_release_done lc"
  by (auto simp: Unload_def Load_def drop_handle_def Let_def split: model_ready_state.splits option.splits if_splits)

lemma Trigger_release:
  "TriggerNextAction n v bi lc = (st, bi', lc') \<Longrightarrow>
   lc_release_queue lc' = lc_release_queue lc \<and> lc_release_done lc' = lc_release_done lc"
  by (auto simp: TriggerNextAction_def Let_def op_release split: action_type.splits prod.splits)

lemma Create_release:
  "CreateBackendHandle n v c r bi lc = (st, bi', lc') \<Longrightarrow>
   lc_release_queue lc' = lc_release_queue lc \<and> lc_release_done lc' = lc_release_done lc"
  by (auto simp: CreateBackendHandle_def Let_def dest!: Trigger_release split: prod.splits if_splits sum.splits)

lemma set_info_release [simp]:
  "lc_release_queue (set_info n v bi lc) = lc_release_queue lc"
  "lc_release_done (set_info n v bi lc) = lc_release_done lc"
  by (simp_all add: set_info_def)

lemma section_release:
  "run_section n c sec lc = (st, lc') \<Longrightarrow>
   lc_release_queue lc' = lc_release_queue lc \<and> lc_release_done lc' = lc_release_done lc"
  by (cases sec) (auto simp: run_section.simps Let_def dest!: op_release split: option.splits prod.splits)

lemma load_finish_release:
  "lc_release_queue (load_finish t r lc) = lc_release_queue lc \<and>
   lc_release_done (load_finish t r lc) = lc_release_done lc"
  by (auto simp: load_finish_def Let_def dest!: Create_release split: option.splits prod.splits)

lemma on_destroy_release:
  "lc_release_done (on_destroy d lc) = lc_release_done lc \<and>
   (lc_release_queue (on_destroy d lc) = lc_release_queue lc \<or>
    lc_release_queue (on_destroy d lc) = lc_release_queue lc @ [dt_backend d])"
  by (auto simp: on_destroy_def Let_def dest!: Trigger_release split: option.splits prod.splits)

lemma other_release [simp]:
  "lc_release_queue (drop_handle h lc) = lc_release_queue lc"
  "lc_release_done (drop_handle h lc) = lc_release_done lc"
  "lc_release_queue (take_handle h lc) = lc_release_queue lc"
  "lc_release_done (take_handle h lc) = lc_release_done lc"
  "lc_release_queue (async_begin n lc) = lc_release_queue lc"
  "lc_release_done (async_begin n lc) = lc_release_done lc"
  "lc_release_queue (create_copy t lc) = lc_release_queue lc"
  "lc_release_done (create_copy t lc) = lc_release_done lc"
  by (auto simp: drop_handle_def take_handle_def async_begin_def create_copy_def split: option.splits)

lemma step_release_queue:
  assumes "lc_step s e t" and "lc_release_done (sy_lc s)"
  shows "lc_release_done (sy_lc t) \<and> (\<exists>q. lc_release_queue (sy_lc t) = lc_release_queue (sy_lc s) @ q)"
  using assms
proof cases
  case (step_destroy d)
  then show ?thesis
    using assms(2) on_destroy_release [of d "sy_lc s"] by auto
qed (auto simp: load_finish_release dest!: section_release)

text \<open>
  The release thread runs its body once: after it has run, no step of any run ever takes a
  backend out of the release queue, so the backends unloaded from then on are never released.
\<close>

theorem release_queue_keeps:
  assumes "lc_run s es t" and "lc_release_done (sy_lc s)"
  shows "lc_release_done (sy_lc t) \<and> (\<exists>q. lc_release_queue (sy_lc t) = lc_release_queue (sy_lc s) @ q)"
  using assms
proof (induction rule: lc_run.induct)
  case (run_nil s)
  then show ?case by simp
next
  case (run_snoc s es t e u)
  then show ?case
    using step_release_queue [of t e u] by (metis append.assoc)
qed

lemma release_queue_keeps_witness:
  "\<exists>t q. lc_run example_system [Ev_client] t \<and> lc_release_queue (sy_lc t) = lc_release_queue (sy_lc example_system) @ q"
proof -
  let ?t = "example_system\<lparr>sy_lc := take_handle 0 (sy_lc example_system), sy_clients := 0 # sy_clients example_system\<rparr>"
  have "lc_step example_system Ev_client ?t"
    by (rule lc_step.step_get [where name = "''m''" and version = 1])
      (simp_all add: example_system_def GetBackendHandle_def example_info_def)
  then have run: "lc_run example_system [Ev_client] ?t"
    using lc_run.run_snoc [OF lc_run.run_nil] by fastforce
  moreover have "lc_release_done (sy_lc example_system)"
    by (simp add: example_system_def)
  ultimately show ?thesis
    using release_queue_keeps by blast
qed

end
