(* ===== verification/Model_Repository_Props.thy ===== *)
theory Model_Repository_Props
  imports Model_Repository Life_Cycle_Props "HOL-Library.Sublist"
begin

text \<open>The properties of the repository manager.\<close>

declare map_of_is_None [simp del]

section \<open>The versions to load\<close>

lemma set_desc_insert [simp]: "set (desc_insert v vs) = insert v (set vs)"
  by (induction v vs rule: desc_insert.induct) auto

lemma desc_insert_sorted: "sorted_wrt (>) vs \<Longrightarrow> sorted_wrt (>) (desc_insert v vs)"
  by (induction v vs rule: desc_insert.induct) auto

definition version_dirs :: "string list \<Rightarrow> int set" where
  "version_dirs subdirs = {v. \<exists>s \<in> set subdirs. stoll s = Inr v}"

lemma version_dirs_Cons [simp]:
  "version_dirs (s # subdirs) = (case stoll s of Inr v \<Rightarrow> insert v (version_dirs subdirs) | Inl e \<Rightarrow> version_dirs subdirs)"
  by (auto simp: version_dirs_def split: sum.splits)

lemma version_dirs_Nil [simp]: "version_dirs [] = {}"
  by (simp add: version_dirs_def)

lemma finite_version_dirs [simp]: "finite (version_dirs subdirs)"
  by (induction subdirs) (auto split: sum.splits)

lemma existing_loop_spec:
  assumes "sorted_wrt (>) existing"
  shows "case existing_loop subdirs existing of
      Thrown \<Rightarrow> \<exists>s \<in> set subdirs. stoll s = Inl Stoll_out_of_range
    | Returned vs \<Rightarrow> sorted_wrt (>) vs \<and> set vs = set existing \<union> version_dirs subdirs \<and>
        (\<forall>s \<in> set subdirs. stoll s \<noteq> Inl Stoll_out_of_range)"
  using assms
proof (induction subdirs existing rule: existing_loop.induct)
  case (1 existing)
  then show ?case by simp
next
  case (2 subdir subdirs existing)
  then show ?case
    using desc_insert_sorted [of existing]
    by (auto split: sum.splits stoll_error.splits outcome.splits)
qed

lemma desc_list_unique: "sorted_wrt (>) vs \<Longrightarrow> vs = rev (sorted_list_of_set (set vs))" for vs :: "int list"
proof -
  assume "sorted_wrt (>) vs"
  then have "sorted_wrt (<) (rev vs)"
    by (simp add: sorted_wrt_rev)
  then have "rev vs = sorted_list_of_set (set (rev vs))"
    by (metis sorted_list_of_set.idem_if_sorted_distinct strict_sorted_iff)
  then show ?thesis
    by (simp flip: rev_swap)
qed

lemma latest_versions_take: "length acc \<le> n \<Longrightarrow> latest_versions vs n acc = acc @ take (n - length acc) vs"
proof (induction vs n acc rule: latest_versions.induct)
  case (1 n acc)
  then show ?case by simp
next
  case (2 v vs n acc)
  show ?case
  proof (cases "n = length acc")
    case True
    then show ?thesis by simp
  next
    case False
    then obtain k where "n = length acc + Suc k"
      using "2.prems" by (metis less_iff_Suc_add add_Suc_right le_neq_implies_less)
    then show ?thesis
      using "2.IH" by simp
  qed
qed

lemma specific_loop_distinct:
  "distinct vs \<Longrightarrow> specific_loop vs existing acc = acc @ filter (\<lambda>v. v \<in> set existing) vs"
  by (induction vs existing acc rule: specific_loop.induct) (auto intro!: filter_cong)

text \<open>
  The version policy of a model selects among the version directories, those whose name
  starts with a number: the greatest n for "latest", in descending order, all of them for "all", and
  the listed versions that have a directory for "specific" (when the list has no repetition). The
  call throws exactly if the number of a directory does not fit in 64 bits.
\<close>

theorem VersionsToLoad_spec:
  assumes "rp_subdirs rp (JoinPath [rp_path rp, name]) = Inr subdirs"
    and "case mc_version_policy config of Some (Policy_specific ws) \<Rightarrow> distinct ws | _ \<Rightarrow> True"
  shows "VersionsToLoad rp name config =
    (if Inl Stoll_out_of_range \<in> stoll ` set subdirs then Thrown
     else Returned (Inr (let dirs = rev (sorted_list_of_set (version_dirs subdirs)) in
       case mc_version_policy config of
         Some (Policy_specific ws) \<Rightarrow> filter (\<lambda>v. v \<in> version_dirs subdirs) ws
       | Some (Policy_latest n) \<Rightarrow> take (unat n) dirs
       | _ \<Rightarrow> dirs)))"
proof (cases "existing_loop subdirs []")
  case Thrown
  then show ?thesis
    using existing_loop_spec [of "[]" subdirs] assms(1) by (force simp: VersionsToLoad_def)
next
  case (Returned vs)
  then have vs: "sorted_wrt (>) vs" "set vs = version_dirs subdirs" "Inl Stoll_out_of_range \<notin> stoll ` set subdirs"
    using existing_loop_spec [of "[]" subdirs] by auto
  have dirs: "vs = rev (sorted_list_of_set (version_dirs subdirs))"
    using desc_list_unique [OF vs(1)] vs(2) by simp
  have "choose_versions (mc_version_policy config) vs = (case mc_version_policy config of
         Some (Policy_specific ws) \<Rightarrow> filter (\<lambda>v. v \<in> version_dirs subdirs) ws
       | Some (Policy_latest n) \<Rightarrow> take (unat n) vs
       | _ \<Rightarrow> vs)"
    using assms(2) vs(2)
    by (auto simp: choose_versions_def latest_versions_take specific_loop_distinct split: option.splits version_policy.splits)
  then show ?thesis
    using assms(1) Returned vs(3) dirs by (simp add: VersionsToLoad_def Let_def cong: option.case_cong version_policy.case_cong)
qed

text \<open>The repository of the witnesses: one directory for each of some versions of one model.\<close>

definition example_repository :: repository where
  "example_repository =
     \<lparr>rp_path = ''/models'', rp_is_directory = (\<lambda>p. Inr True),
      rp_subdirs = (\<lambda>p. if p = ''/models'' then Inr [''m''] else Inr [''1'', ''10'', ''2'', ''x'']),
      rp_modified_time = (\<lambda>p. 7), rp_file_exists = (\<lambda>p. Inr True),
      rp_read_text_proto = (\<lambda>p. Inr (model_config_clear\<lparr>mc_name := ''m'', mc_platform := kCustomPlatform,
        mc_default_model_filename := ''libm.so''\<rparr>)),
      rp_autofill_fix = (\<lambda>name path c. Inr c), rp_cuda = Cuda_success 1\<rparr>"

lemma VersionsToLoad_spec_witness:
  "VersionsToLoad example_repository ''m'' (model_config_clear\<lparr>mc_version_policy := Some (Policy_latest 2)\<rparr>) =
   Returned (Inr [10, 2])"
proof -
  have parse: "stoll ''1'' = Inr 1" "stoll ''10'' = Inr 10" "stoll ''2'' = Inr 2"
    "stoll ''x'' = Inl Stoll_invalid_argument"
    by code_simp+
  have dirs: "rp_subdirs example_repository (JoinPath [rp_path example_repository, ''m'']) = Inr [''1'', ''10'', ''2'', ''x'']"
    by code_simp
  show ?thesis
    using VersionsToLoad_spec [OF dirs, of "model_config_clear\<lparr>mc_version_policy := Some (Policy_latest 2)\<rparr>"]
    by (simp add: parse Let_def)
qed

text \<open>
  A version that a "specific" policy lists twice is loaded although it has no directory:
  the check for the first entry inserts the version among the existing ones.
\<close>

theorem repeated_version_loaded:
  "VersionsToLoad example_repository ''m''
     (model_config_clear\<lparr>mc_version_policy := Some (Policy_specific [5, 5])\<rparr>) = Returned (Inr [5])"
  by code_simp

section \<open>Polling\<close>

abbreviation mtime_of :: "repository \<Rightarrow> string \<Rightarrow> int" where
  "mtime_of rp child \<equiv> rp_modified_time rp (JoinPath [rp_path rp, child])"

definition changed :: "repository \<Rightarrow> model_info_map \<Rightarrow> string \<Rightarrow> bool" where
  "changed rp infos child \<longleftrightarrow>
     (case map_of infos child of None \<Rightarrow> False | Some old \<Rightarrow> mtime_of rp child > in_mtime_nsec old)"

definition unchanged :: "repository \<Rightarrow> model_info_map \<Rightarrow> string \<Rightarrow> bool" where
  "unchanged rp infos child \<longleftrightarrow>
     (case map_of infos child of None \<Rightarrow> False | Some old \<Rightarrow> mtime_of rp child \<le> in_mtime_nsec old)"

text \<open>What polling makes of a model: the old information, or its configuration read again.\<close>

definition polled_info :: "repository \<Rightarrow> bool \<Rightarrow> model_info_map \<Rightarrow> string \<Rightarrow> status + model_info" where
  "polled_info rp autofill infos child =
     (case map_of infos child of
        None \<Rightarrow> load_info rp autofill child (mtime_of rp child)
      | Some old \<Rightarrow>
          if mtime_of rp child > in_mtime_nsec old then load_info rp autofill child (mtime_of rp child) else Inr old)"

lemma bind_status_InrD: "bind_status r k = Inr x \<Longrightarrow> \<exists>v. r = Inr v \<and> k v = Inr x"
  by (auto simp: bind_status_def split: sum.splits)

lemma emplace_info_InrD: "emplace_info child new k = Inr x \<Longrightarrow> child \<notin> fst ` set new \<and> k new = Inr x"
  by (auto simp: emplace_info_def split: if_splits)

lemma poll_loop_spec:
  "poll_loop rp autofill infos subdirs pr = Inr pr' \<Longrightarrow>
   pr_added pr' = pr_added pr @ filter (\<lambda>n. map_of infos n = None) subdirs \<and>
   pr_modified pr' = pr_modified pr @ filter (changed rp infos) subdirs \<and>
   pr_unmodified pr' = pr_unmodified pr @ filter (unchanged rp infos) subdirs \<and>
   pr_deleted pr' = pr_deleted pr \<and>
   (\<exists>new. pr_infos pr' = pr_infos pr @ new \<and> map fst new = subdirs \<and>
      list_all (\<lambda>(n, info). polled_info rp autofill infos n = Inr info) new)"
proof (induction subdirs arbitrary: pr)
  case Nil
  then show ?case by simp
next
  case (Cons child subdirs)
  note step = Cons.prems [simplified, unfolded Let_def]
  show ?case
  proof (cases "map_of infos child")
    case None
    then obtain info where i: "load_info rp autofill child (mtime_of rp child) = Inr info"
      and rest: "poll_loop rp autofill infos subdirs
        (pr\<lparr>pr_added := pr_added pr @ [child], pr_infos := pr_infos pr @ [(child, info)]\<rparr>) = Inr pr'"
      using step by (auto dest!: emplace_info_InrD bind_status_InrD)
    then show ?thesis
      using Cons.IH [OF rest] None by (auto simp: changed_def unchanged_def polled_info_def)
  next
    case (Some old)
    show ?thesis
    proof (cases "mtime_of rp child > in_mtime_nsec old")
      case True
      then obtain info where i: "load_info rp autofill child (mtime_of rp child) = Inr info"
        and rest: "poll_loop rp autofill infos subdirs
          (pr\<lparr>pr_modified := pr_modified pr @ [child], pr_infos := pr_infos pr @ [(child, info)]\<rparr>) = Inr pr'"
        using step Some by (auto simp: IsModified_def dest!: emplace_info_InrD bind_status_InrD)
      then show ?thesis
        using Cons.IH [OF rest] Some True by (auto simp: changed_def unchanged_def polled_info_def)
    next
      case False
      then have rest: "poll_loop rp autofill infos subdirs
          (pr\<lparr>pr_unmodified := pr_unmodified pr @ [child], pr_infos := pr_infos pr @ [(child, old)]\<rparr>) = Inr pr'"
        using step Some by (auto simp: IsModified_def dest!: emplace_info_InrD)
      then show ?thesis
        using Cons.IH [OF rest] Some False by (auto simp: changed_def unchanged_def polled_info_def)
    qed
  qed
qed

lemma load_info_ok:
  assumes "load_info rp autofill child t = Inr info"
  shows "mc_name (in_model_config info) = child" "IsOk (ValidateModelConfig (rp_cuda rp) (in_model_config info) [])"
    "in_mtime_nsec info = t"
  using assms by (auto simp: load_info_def Let_def dest!: bind_status_InrD split: if_splits)

lemma Poll_parts:
  assumes "rp_subdirs rp (rp_path rp) = Inr subdirs" and "Poll rp autofill infos = Inr pr"
  shows "pr_added pr = filter (\<lambda>n. map_of infos n = None) subdirs \<and>
    pr_modified pr = filter (changed rp infos) subdirs \<and>
    pr_unmodified pr = filter (unchanged rp infos) subdirs \<and>
    set (pr_deleted pr) = fst ` set infos - set subdirs \<and>
    map fst (pr_infos pr) = subdirs \<and>
    list_all (\<lambda>(n, info).
      if unchanged rp infos n then map_of infos n = Some info
      else mc_name (in_model_config info) = n \<and> in_mtime_nsec info = mtime_of rp n \<and>
        IsOk (ValidateModelConfig (rp_cuda rp) (in_model_config info) [])) (pr_infos pr)"
proof -
  obtain pr1 where loop: "poll_loop rp autofill infos subdirs
      \<lparr>pr_added = [], pr_deleted = [], pr_modified = [], pr_unmodified = [], pr_infos = []\<rparr> = Inr pr1"
    and pr: "pr = pr1\<lparr>pr_deleted := sort (filter (\<lambda>name. name \<notin> set (pr_added pr1) \<and>
         name \<notin> set (pr_modified pr1) \<and> name \<notin> set (pr_unmodified pr1)) (map fst infos))\<rparr>"
    using assms by (auto simp: Poll_def dest!: bind_status_InrD)
  have split: "map_of infos n = None \<or> changed rp infos n \<or> unchanged rp infos n" for n
    by (auto simp: changed_def unchanged_def split: option.split)
  have info: "if unchanged rp infos n then map_of infos n = Some info
      else mc_name (in_model_config info) = n \<and> in_mtime_nsec info = mtime_of rp n \<and>
        IsOk (ValidateModelConfig (rp_cuda rp) (in_model_config info) [])"
    if "polled_info rp autofill infos n = Inr info" for n info
    using that load_info_ok [of rp autofill n _ info]
    by (auto simp: polled_info_def unchanged_def split: option.splits if_splits)
  note spec = poll_loop_spec [OF loop, simplified]
  have "n \<in> set (pr_added pr1) \<or> n \<in> set (pr_modified pr1) \<or> n \<in> set (pr_unmodified pr1) \<longleftrightarrow> n \<in> set subdirs" for n
    using spec split [of n] by auto
  then have "set (pr_deleted pr) = fst ` set infos - set subdirs"
    unfolding pr by auto
  moreover have "list_all (\<lambda>(n, info).
      if unchanged rp infos n then map_of infos n = Some info
      else mc_name (in_model_config info) = n \<and> in_mtime_nsec info = mtime_of rp n \<and>
        IsOk (ValidateModelConfig (rp_cuda rp) (in_model_config info) [])) (pr_infos pr1)"
    using spec info unfolding list_all_iff by fast
  ultimately show ?thesis
    using spec unfolding pr by simp
qed

text \<open>
  Claim C25. A successful poll splits the models without overlap: the directories without information
  are added, those with a newer modification time are modified, the others unmodified, and the models
  without a directory deleted. The new information has exactly one entry for every directory: the old
  one if the directory is unmodified, otherwise a configuration that was read anew, is valid and
  carries the name of its directory.
\<close>

theorem Poll_spec:
  assumes "rp_subdirs rp (rp_path rp) = Inr subdirs" and "Poll rp autofill infos = Inr pr"
  shows "pr_added pr = filter (\<lambda>n. map_of infos n = None) subdirs \<and>
    pr_modified pr = filter (changed rp infos) subdirs \<and>
    pr_unmodified pr = filter (unchanged rp infos) subdirs \<and>
    set (pr_deleted pr) = fst ` set infos - set subdirs \<and>
    map fst (pr_infos pr) = subdirs \<and>
    list_all (\<lambda>(n, info).
      if unchanged rp infos n then map_of infos n = Some info
      else mc_name (in_model_config info) = n \<and> in_mtime_nsec info = mtime_of rp n \<and>
        IsOk (ValidateModelConfig (rp_cuda rp) (in_model_config info) [])) (pr_infos pr)"
  by (rule Poll_parts [OF assms])

lemma Poll_spec_witness:
  "\<exists>pr. Poll example_repository False [] = Inr pr \<and> pr_added pr = [''m''] \<and> map fst (pr_infos pr) = [''m'']"
proof -
  have "case Poll example_repository False [] of Inr pr \<Rightarrow> True | Inl e \<Rightarrow> False"
    by code_simp
  then obtain pr where pr: "Poll example_repository False [] = Inr pr"
    by (auto split: sum.splits)
  have "rp_subdirs example_repository (rp_path example_repository) = Inr [''m'']"
    by (simp add: example_repository_def)
  from Poll_spec [OF this pr] pr show ?thesis
    by simp
qed

section \<open>Updating\<close>

definition gone :: "goal \<Rightarrow> goal" where
  "gone g = (if g = Never then Never else Gone)"

text \<open>What is to become of version \<open>v\<close> of a model that is served anew.\<close>

definition wanted_goal :: "repository \<Rightarrow> model_info_map \<Rightarrow> string \<Rightarrow> int \<Rightarrow> goal \<Rightarrow> goal" where
  "wanted_goal rp infos n v g =
     (case map_of infos n of
        None \<Rightarrow> g
      | Some info \<Rightarrow>
          (case VersionsToLoad rp n (in_model_config info) of
             Returned (Inr versions) \<Rightarrow> if v \<in> set versions then Serve (in_model_config info) else gone g
           | _ \<Rightarrow> g))"

lemma serve_model_goals:
  assumes "lc_run lc_system_new es s" and "sy_call s = None" and "rm_life_cycle rm = sy_lc s"
    and "serve_model init check rp n rm = Returned (st, rm')" and "IsOk st"
  shows "\<exists>es'. lc_run lc_system_new es' (s\<lparr>sy_lc := rm_life_cycle rm'\<rparr>) \<and> rm_infos rm' = rm_infos rm \<and>
    (\<forall>n' v. goal_of es' n' v =
       (if n' = n then wanted_goal rp (rm_infos rm) n v (goal_of es n v) else goal_of es n' v))"
proof -
  obtain info where info: "map_of (rm_infos rm) n = Some info"
    using assms(4,5) by (cases "map_of (rm_infos rm) n") (auto simp: serve_model_def GetModelConfig_def)
  let ?c = "in_model_config info"
  obtain ist ss where init: "init n ?c (rm_status rm) = (ist, ss)"
    by fastforce
  then have ok: "IsOk ist"
    using assms(4,5) info by (auto simp: serve_model_def GetModelConfig_def Let_def split: if_splits)
  show ?thesis
  proof (cases "\<exists>versions. VersionsToLoad rp n ?c = Returned (Inr versions)")
    case False
    then have "rm_life_cycle rm' = sy_lc s" "rm_infos rm' = rm_infos rm"
      using assms(3,4) info init ok
      by (auto simp: serve_model_def GetModelConfig_def Let_def split: outcome.splits sum.splits)
    moreover have "s\<lparr>sy_lc := sy_lc s\<rparr> = s"
      by (cases s) simp
    moreover have "wanted_goal rp (rm_infos rm) n v g = g" for v g
      using False info by (auto simp: wanted_goal_def split: outcome.split sum.split)
    ultimately show ?thesis
      using assms(1) by (intro exI [of _ es]) auto
  next
    case True
    then obtain versions where versions: "VersionsToLoad rp n ?c = Returned (Inr versions)"
      by blast
  obtain ast lc where al: "AsyncLoad n versions ?c True (rm_life_cycle rm) = (ast, lc)"
    by fastforce
  have rm': "rm_life_cycle rm' = lc" "rm_infos rm' = rm_infos rm"
    using assms(4) info init ok versions al
    by (auto simp: serve_model_def GetModelConfig_def Let_def)
  obtain es' where es': "lc_run lc_system_new es' (s\<lparr>sy_lc := lc\<rparr>)"
    and g: "\<forall>v. goal_of es' n v =
          (if v \<in> set versions then Serve ?c else if goal_of es n v = Never then Never else Gone)"
    and g': "\<forall>n' v. goal_of es' n' v = (if n' = n then goal_of es' n v else goal_of es n' v)"
    using AsyncLoad_goals [OF assms(1,2) al [unfolded assms(3)]] by blast
  have here: "goal_of es' n v = wanted_goal rp (rm_infos rm) n v (goal_of es n v)" for v
    using spec [OF g, of v] info versions by (simp add: wanted_goal_def gone_def)
  have "goal_of es' n' v = (if n' = n then wanted_goal rp (rm_infos rm) n v (goal_of es n v) else goal_of es n' v)"
    for n' v
    using here spec [OF spec [OF g'], of n' v] by (cases "n' = n") simp_all
  then show ?thesis
    using es' rm' by blast
  qed
qed

lemma serve_models_goals:
  assumes "lc_run lc_system_new es s" and "sy_call s = None" and "rm_life_cycle rm = sy_lc s"
    and "serve_models init check rp names rm = Returned (st, rm')" and "IsOk st" and "distinct names"
  shows "\<exists>es'. lc_run lc_system_new es' (s\<lparr>sy_lc := rm_life_cycle rm'\<rparr>) \<and> rm_infos rm' = rm_infos rm \<and>
    (\<forall>n v. goal_of es' n v =
       (if n \<in> set names then wanted_goal rp (rm_infos rm) n v (goal_of es n v) else goal_of es n v))"
  using assms
proof (induction names arbitrary: es s rm)
  case Nil
  then have "s\<lparr>sy_lc := rm_life_cycle rm'\<rparr> = s" "rm' = rm"
    by (cases s, auto)
  then show ?case
    using Nil.prems(1) by auto
next
  case (Cons name names)
  obtain st1 rm1 where one: "serve_model init check rp name rm = Returned (st1, rm1)" "IsOk st1"
    and rest: "serve_models init check rp names rm1 = Returned (st, rm')"
    using Cons.prems(4,5) by (auto split: outcome.splits prod.splits if_splits)
  obtain es1 where es1: "lc_run lc_system_new es1 (s\<lparr>sy_lc := rm_life_cycle rm1\<rparr>)" "rm_infos rm1 = rm_infos rm"
    and g1: "\<forall>n' v. goal_of es1 n' v =
       (if n' = name then wanted_goal rp (rm_infos rm) name v (goal_of es name v) else goal_of es n' v)"
    using serve_model_goals [OF Cons.prems(1,2,3) one] by blast
  obtain es2 where es2: "lc_run lc_system_new es2 (s\<lparr>sy_lc := rm_life_cycle rm'\<rparr>)" "rm_infos rm' = rm_infos rm"
    and g2: "\<forall>n v. goal_of es2 n v =
       (if n \<in> set names then wanted_goal rp (rm_infos rm) n v (goal_of es1 n v) else goal_of es1 n v)"
    using Cons.IH [OF es1(1) _ _ rest] Cons.prems(2,5,6) es1(2) by auto
  have "goal_of es2 n v =
       (if n \<in> set (name # names) then wanted_goal rp (rm_infos rm) n v (goal_of es n v) else goal_of es n v)" for n v
    using g1 g2 Cons.prems(6) by auto
  then show ?case
    using es2 by blast
qed

lemma unload_models_goals:
  assumes "lc_run lc_system_new es s" and "sy_call s = None" and "rm_life_cycle rm = sy_lc s"
  shows "\<exists>es'. lc_run lc_system_new es' (s\<lparr>sy_lc := rm_life_cycle (fold unload_model names rm)\<rparr>) \<and>
    (\<forall>n v. goal_of es' n v = (if n \<in> set names then gone (goal_of es n v) else goal_of es n v))"
  using assms
proof (induction names arbitrary: es s rm)
  case Nil
  then have "s\<lparr>sy_lc := rm_life_cycle (fold unload_model [] rm)\<rparr> = s"
    by (cases s) simp
  then show ?case
    using Nil.prems(1) by auto
next
  case (Cons name names)
  obtain st lc where al: "AsyncLoad name [] model_config_clear True (sy_lc s) = (st, lc)"
    by fastforce
  then have rm1: "unload_model name rm = rm\<lparr>rm_life_cycle := lc\<rparr>"
    using Cons.prems(3) by (simp add: unload_model_def)
  obtain es1 where es1: "lc_run lc_system_new es1 (s\<lparr>sy_lc := lc\<rparr>)"
    and g: "\<forall>v. goal_of es1 name v = (if v \<in> set [] then Serve model_config_clear
          else if goal_of es name v = Never then Never else Gone)"
    and g1': "\<forall>n' v. goal_of es1 n' v = (if n' = name then goal_of es1 name v else goal_of es n' v)"
    using AsyncLoad_goals [OF Cons.prems(1,2) al] by blast
  have g1: "\<forall>v. goal_of es1 name v = gone (goal_of es name v)"
    using g by (simp add: gone_def)
  obtain es2 where es2: "lc_run lc_system_new es2
      (s\<lparr>sy_lc := lc\<rparr>\<lparr>sy_lc := rm_life_cycle (fold unload_model names (unload_model name rm))\<rparr>)"
    and g2: "\<forall>n v. goal_of es2 n v = (if n \<in> set names then gone (goal_of es1 n v) else goal_of es1 n v)"
    using Cons.IH [OF es1, of "unload_model name rm"] Cons.prems(2) rm1 by auto
  have "goal_of es2 n v = (if n \<in> set (name # names) then gone (goal_of es n v) else goal_of es n v)" for n v
    using g1 g2 spec [OF spec [OF g1'], of n v] by (cases "n = name") (simp_all add: gone_def)
  then show ?case
    using es2 by auto
qed

text \<open>What an update makes of a version: \<open>pr\<close> is the result of the poll.\<close>

definition updated_goal :: "repository \<Rightarrow> poll_result \<Rightarrow> string \<Rightarrow> int \<Rightarrow> goal \<Rightarrow> goal" where
  "updated_goal rp pr n v g =
     (if n \<in> set (pr_added pr) \<union> set (pr_modified pr) then wanted_goal rp (pr_infos pr) n v g
      else if n \<in> set (pr_deleted pr) then gone g else g)"

lemma PollAndUpdate_goals:
  assumes "lc_run lc_system_new es s" and "sy_call s = None" and "rm_life_cycle rm = sy_lc s"
    and sub: "rp_subdirs rp (rp_path rp) = Inr subdirs" and "distinct subdirs"
    and poll: "Poll rp (rm_autofill rm) (rm_infos rm) = Inr pr" and "rm_polling_enabled rm"
    and res: "PollAndUpdate rp rm = Returned (st, rm')" and "IsOk st"
  shows "rm_infos rm' = pr_infos pr \<and>
    (\<exists>es'. lc_run lc_system_new es' (s\<lparr>sy_lc := rm_life_cycle rm'\<rparr>) \<and>
      (\<forall>n v. goal_of es' n v = updated_goal rp pr n v (goal_of es n v)))"
proof -
  have parts: "pr_added pr = filter (\<lambda>n. map_of (rm_infos rm) n = None) subdirs"
    "pr_modified pr = filter (changed rp (rm_infos rm)) subdirs"
    "set (pr_deleted pr) = fst ` set (rm_infos rm) - set subdirs"
    using Poll_parts [OF sub poll] by simp_all
  have dist: "distinct (pr_added pr)" "distinct (pr_modified pr)"
    using parts assms(5) by simp_all
  have disj: "n \<notin> set (pr_added pr)" if "n \<in> set (pr_modified pr)" for n
    using that parts by (auto simp: changed_def split: option.splits)
  have del: "n \<notin> set (pr_added pr) \<and> n \<notin> set (pr_modified pr)" if "n \<in> set (pr_deleted pr)" for n
    using that parts by auto
  let ?rm1 = "rm\<lparr>rm_infos := pr_infos pr\<rparr>"
  show ?thesis
  proof (cases "pr_added pr = [] \<and> pr_deleted pr = [] \<and> pr_modified pr = []")
    case True
    then have "rm' = ?rm1"
      using res poll assms(7) by (simp add: PollAndUpdate_def Let_def)
    moreover have "s\<lparr>sy_lc := sy_lc s\<rparr> = s"
      by (cases s) simp
    ultimately show ?thesis
      using assms(1,3) True by (intro conjI exI [of _ es]) (auto simp: updated_goal_def)
  next
    case False
    obtain st2 rm2 where two: "serve_models InitForModel False rp (pr_added pr) ?rm1 = Returned (st2, rm2)" "IsOk st2"
      using res poll assms(7,9) False
      by (auto simp: PollAndUpdate_def Let_def split: outcome.splits prod.splits if_splits)
    obtain st3 rm3 where three: "serve_models UpdateConfigForModel False rp (pr_modified pr) rm2 = Returned (st3, rm3)" "IsOk st3"
      using res poll assms(7,9) False two
      by (auto simp: PollAndUpdate_def Let_def split: outcome.splits prod.splits if_splits)
    have rm': "rm' = fold unload_model (pr_deleted pr) rm3"
      using res poll assms(7) False two three by (simp add: PollAndUpdate_def Let_def)
    obtain es2 where es2: "lc_run lc_system_new es2 (s\<lparr>sy_lc := rm_life_cycle rm2\<rparr>)" "rm_infos rm2 = pr_infos pr"
      and g2: "\<forall>n v. goal_of es2 n v =
         (if n \<in> set (pr_added pr) then wanted_goal rp (pr_infos pr) n v (goal_of es n v) else goal_of es n v)"
      using serve_models_goals [OF assms(1,2) _ two dist(1)] assms(3) by auto
    obtain es3 where es3: "lc_run lc_system_new es3 (s\<lparr>sy_lc := rm_life_cycle rm3\<rparr>)" "rm_infos rm3 = pr_infos pr"
      and g3: "\<forall>n v. goal_of es3 n v =
         (if n \<in> set (pr_modified pr) then wanted_goal rp (pr_infos pr) n v (goal_of es2 n v) else goal_of es2 n v)"
      using serve_models_goals [OF es2(1) _ _ three dist(2)] assms(2) es2(2) by auto
    obtain es4 where es4: "lc_run lc_system_new es4 (s\<lparr>sy_lc := rm_life_cycle rm'\<rparr>)"
      and g4: "\<forall>n v. goal_of es4 n v = (if n \<in> set (pr_deleted pr) then gone (goal_of es3 n v) else goal_of es3 n v)"
      using unload_models_goals [OF es3(1), of rm3 "pr_deleted pr"] assms(2) rm' by auto
    have "rm_infos (fold unload_model ns rm3) = rm_infos rm3" for ns
      by (induction ns arbitrary: rm3) (simp_all add: unload_model_def)
    then have infos: "rm_infos rm' = pr_infos pr"
      using rm' es3(2) by simp
    have "goal_of es4 n v = updated_goal rp pr n v (goal_of es n v)" for n v
      using g2 g3 g4 disj [of n] del [of n] by (simp add: updated_goal_def)
    then show ?thesis
      using infos es4 by blast
  qed
qed

text \<open>
  Claim C9. The repository manager and the life cycle fit together: a successful update asks, for every
  added and modified model, exactly for the versions its policy selects to be served with its new
  configuration and for its other versions to be unloaded; it asks for every version of the deleted
  models to be unloaded, and leaves the requests of the unmodified models alone.
\<close>

theorem PollAndUpdate_requests:
  assumes "lc_run lc_system_new es s" and "sy_call s = None" and "rm_life_cycle rm = sy_lc s"
    and "rp_subdirs rp (rp_path rp) = Inr subdirs" and "distinct subdirs"
    and "Poll rp (rm_autofill rm) (rm_infos rm) = Inr pr" and "rm_polling_enabled rm"
    and "PollAndUpdate rp rm = Returned (st, rm')" and "IsOk st"
  shows "rm_infos rm' = pr_infos pr \<and>
    (\<exists>es'. lc_run lc_system_new es' (s\<lparr>sy_lc := rm_life_cycle rm'\<rparr>) \<and>
      (\<forall>n v. goal_of es' n v = updated_goal rp pr n v (goal_of es n v)))"
  by (rule PollAndUpdate_goals [OF assms])

definition example_manager :: repository_manager where
  "example_manager =
     \<lparr>rm_autofill = False, rm_polling_enabled = True, rm_infos = [], rm_status = server_status_clear,
      rm_life_cycle = life_cycle_new\<rparr>"

lemma PollAndUpdate_requests_witness:
  "\<exists>rm' es' pr. PollAndUpdate example_repository example_manager = Returned (Status_Success, rm') \<and>
     lc_run lc_system_new es' (lc_system_new\<lparr>sy_lc := rm_life_cycle rm'\<rparr>) \<and>
     Poll example_repository False [] = Inr pr \<and>
     goal_of es' ''m'' 10 = updated_goal example_repository pr ''m'' 10 Never"
proof -
  have "case Poll example_repository False [] of Inr pr \<Rightarrow> True | Inl e \<Rightarrow> False"
    by code_simp
  then obtain pr where pr: "Poll example_repository False [] = Inr pr"
    by (auto split: sum.splits)
  have "case PollAndUpdate example_repository example_manager of Returned (st, rm') \<Rightarrow> st = Status_Success | Thrown \<Rightarrow> False"
    by code_simp
  then obtain rm' where rm': "PollAndUpdate example_repository example_manager = Returned (Status_Success, rm')"
    by (auto split: outcome.splits)
  have "rp_subdirs example_repository (rp_path example_repository) = Inr [''m'']"
    by (simp add: example_repository_def)
  from PollAndUpdate_requests [OF lc_run.run_nil _ _ this _ _ _ rm'] pr rm'
  show ?thesis
    by (fastforce simp: example_manager_def lc_system_new_def goal_of_def)
qed

definition two_models :: "bool \<Rightarrow> repository" where
  "two_models readable = example_repository
     \<lparr>rp_subdirs := (\<lambda>p. if p = ''/models'' then Inr [''a'', ''b'']
        else if p = ''/models/a'' \<and> \<not> readable then Inl (Status INTERNAL ''cannot list'') else Inr [''1'']),
      rp_read_text_proto := (\<lambda>p. Inr (model_config_clear\<lparr>mc_name := (if p = ''/models/a/config.pbtxt'' then ''a'' else ''b''),
        mc_platform := kCustomPlatform, mc_default_model_filename := ''libm.so''\<rparr>))\<rparr>"

text \<open>
  The update is not atomic: when the versions of one added model cannot be listed, the call
  fails after the new information is in place, and the next poll, which finds the directories
  readable again, takes every model for unmodified. The models after the failing one are never loaded.
\<close>

theorem poll_error_forgets_models:
  "case PollAndUpdate (two_models False) example_manager of
     Thrown \<Rightarrow> False
   | Returned (st, rm) \<Rightarrow> \<not> IsOk st \<and>
       (case PollAndUpdate (two_models True) rm of
          Thrown \<Rightarrow> False
        | Returned (st', rm') \<Rightarrow> IsOk st' \<and> map fst (rm_infos rm') = [''a'', ''b''] \<and>
            GetVersionStates (rm_life_cycle rm') ''a'' = [] \<and> GetVersionStates (rm_life_cycle rm') ''b'' = [])"
  by code_simp

section \<open>Modification times\<close>

lemma max_over_mono:
  assumes "\<And>child t. child \<in> set children \<Longrightarrow> f child = Some t \<Longrightarrow> g child = Some t"
  shows "max_over f children m = Some t \<Longrightarrow> max_over g children m = Some t"
  using assms by (induction children arbitrary: m) (auto split: option.splits)

lemma max_over_ge:
  "max_over f children m = Some t \<Longrightarrow>
   m \<le> t \<and> (\<forall>child \<in> set children. \<exists>t'. f child = Some t' \<and> t' \<le> t)"
proof (induction children arbitrary: m)
  case Nil
  then show ?case by simp
next
  case (Cons child children)
  then obtain t' where "f child = Some t'" "max_over f children (max m t') = Some t"
    by (auto split: option.splits)
  then show ?case
    using Cons.IH [of "max m t'"] by auto
qed

text \<open>The fuel only bounds the depth: more fuel does not change a modification time.\<close>

lemma GetModifiedTime_fuel:
  "GetModifiedTime isd mt contents fuel path = Some t \<Longrightarrow>
   GetModifiedTime isd mt contents (fuel + k) path = Some t"
proof (induction fuel arbitrary: path t)
  case 0
  then show ?case by simp
next
  case (Suc fuel)
  show ?case
    using Suc.prems
    by (auto split: sum.splits if_splits intro: Suc.IH
        intro!: max_over_mono [where f = "\<lambda>child. GetModifiedTime isd mt contents fuel (JoinPath [path, child])"])
qed

text \<open>A change below a directory that can be read shows in the modification time of the directory.\<close>

lemma GetModifiedTime_child:
  assumes "GetModifiedTime isd mt contents (Suc fuel) path = Some t"
    and "isd path = Inr True" and "mt path = Inr t0" and "contents path = Inr children" and "child \<in> set children"
  shows "\<exists>t'. GetModifiedTime isd mt contents fuel (JoinPath [path, child]) = Some t' \<and> t' \<le> t"
  using assms max_over_ge by fastforce

end
