(* ===== verification/Life_Cycle_Work.thy ===== *)
theory Life_Cycle_Work
  imports Life_Cycle_Props
begin

text \<open>
  The threads of the life cycle finish: without new requests they can take only so many steps, and
  they stop when nothing is left to do.
\<close>

declare map_of_is_None [simp del]

section \<open>The work that is left\<close>

definition next_of :: "life_cycle \<Rightarrow> string \<Rightarrow> int \<Rightarrow> action_type" where
  "next_of lc n v = (case get_info lc n v of None \<Rightarrow> NO_ACTION | Some bi \<Rightarrow> bi_next_action bi)"

fun pending_work :: "action_type \<Rightarrow> nat" where
  "pending_work NO_ACTION = 0"
| "pending_work UNLOAD = 1"
| "pending_work LOAD = 4"

text \<open>A loading thread copies the configuration and loads; the next action may unload and load again.\<close>

definition load_work :: "life_cycle \<Rightarrow> load_thread \<Rightarrow> nat" where
  "load_work lc t = (if lt_config t = None then 2 else 1) + pending_work (next_of lc (lt_name t) (lt_version t))"

definition destroy_work :: "life_cycle \<Rightarrow> destroy_thread \<Rightarrow> nat" where
  "destroy_work lc d = (if next_of lc (dt_name d) (dt_version d) = LOAD then 3 else 1)"

definition lc_work :: "life_cycle \<Rightarrow> nat" where
  "lc_work lc = sum_list (map (load_work lc) (lc_load_threads lc)) +
     sum_list (map (destroy_work lc) (lc_destroy_threads lc)) + (if lc_release_done lc then 0 else 1)"

fun worker_event :: "lc_event \<Rightarrow> bool" where
  "worker_event Ev_worker = True"
| "worker_event (Ev_failed n v) = True"
| "worker_event e = False"

section \<open>What a thread leaves behind\<close>

text \<open>\<open>leaves\<close>: the operation adds loading and destroying threads of the version, worth at most \<open>k\<close>.\<close>

definition leaves :: "string \<Rightarrow> int \<Rightarrow> nat \<Rightarrow> life_cycle \<Rightarrow> backend_info \<Rightarrow> life_cycle \<Rightarrow> bool" where
  "leaves n v k lc bi lc' \<longleftrightarrow>
     (\<exists>i j b. lc_load_threads lc' = lc_load_threads lc @
          replicate i \<lparr>lt_name = n, lt_version = v, lt_config = None\<rparr> \<and>
        lc_destroy_threads lc' = lc_destroy_threads lc @
          replicate j \<lparr>dt_name = n, dt_version = v, dt_backend = b\<rparr> \<and>
        i * (2 + pending_work (bi_next_action bi)) +
        j * (if bi_next_action bi = LOAD then 3 else 1) \<le> k) \<and>
     lc_release_done lc' = lc_release_done lc"

lemma leavesI:
  assumes "lc_load_threads lc' = lc_load_threads lc @ replicate i \<lparr>lt_name = n, lt_version = v, lt_config = None\<rparr>"
    and "lc_destroy_threads lc' = lc_destroy_threads lc @ replicate j \<lparr>dt_name = n, dt_version = v, dt_backend = b\<rparr>"
    and "i * (2 + pending_work (bi_next_action bi)) + j * (if bi_next_action bi = LOAD then 3 else 1) \<le> k"
    and "lc_release_done lc' = lc_release_done lc"
  shows "leaves n v k lc bi lc'"
  using assms unfolding leaves_def by blast

lemma Trigger_unavailable_leaves:
  assumes "bi_state bi = MODEL_UNAVAILABLE" and "TriggerNextAction n v bi lc = (st, bi', lc')"
  shows "leaves n v (if bi_next_action bi = LOAD then 2 else 0) lc bi' lc'"
proof (cases "bi_next_action bi")
  case LOAD
  then show ?thesis
    using assms by (intro leavesI [of _ _ 1 _ _ 0]) (auto simp: TriggerNextAction_def Unload_def Load_def Let_def)
qed (use assms in \<open>auto simp: TriggerNextAction_def Unload_def Let_def intro!: leavesI [of _ _ 0 _ _ 0]\<close>)

lemma Trigger_ready_leaves:
  assumes "bi_state bi = MODEL_READY" and "bi_handle bi = Some h" and "lc_handles lc h = Some bh"
    and "bh_use_count bh = 1" and "bh_name bh = n" and "bh_version bh = v"
    and "TriggerNextAction n v bi lc = (st, bi', lc')"
  shows "leaves n v (pending_work (bi_next_action bi)) lc bi' lc'"
proof (cases "bi_next_action bi")
  case NO_ACTION
  then show ?thesis
    using assms by (intro leavesI [of _ _ 0 _ _ 0]) (auto simp: TriggerNextAction_def)
next
  case LOAD
  then show ?thesis
    using assms by (intro leavesI [of _ _ 0 _ _ 1 "bh_backend bh"])
      (auto simp: TriggerNextAction_def Unload_def Load_def drop_handle_def Let_def)
next
  case UNLOAD
  then show ?thesis
    using assms by (intro leavesI [of _ _ 0 _ _ 1 "bh_backend bh"])
      (auto simp: TriggerNextAction_def Unload_def drop_handle_def Let_def)
qed

lemma Create_leaves:
  assumes "bi_handle bi = None" and "CreateBackendHandle n v c r bi lc = (st, bi', lc')"
  shows "leaves n v (pending_work (bi_next_action bi)) lc bi' lc'"
proof (cases "create_backend (bi_platform bi) r")
  case (Inl e)
  then have tr: "TriggerNextAction n v (bi\<lparr>bi_state := MODEL_UNAVAILABLE\<rparr>) lc = (st, bi', lc')"
    using assms by (simp add: CreateBackendHandle_def)
  have "leaves n v (if bi_next_action bi = LOAD then 2 else 0) lc bi' lc'"
    using Trigger_unavailable_leaves [OF _ tr] by simp
  then show ?thesis
    unfolding leaves_def by (cases "bi_next_action bi") fastforce+
next
  case (Inr b)
  let ?bh = "\<lparr>bh_name = n, bh_version = v, bh_config = c, bh_backend = b, bh_use_count = 1\<rparr>"
  let ?lc = "lc\<lparr>lc_handles := (lc_handles lc)(lc_next_handle lc \<mapsto> ?bh), lc_next_handle := Suc (lc_next_handle lc)\<rparr>"
  have tr: "TriggerNextAction n v (bi\<lparr>bi_state := MODEL_READY, bi_handle := Some (lc_next_handle lc)\<rparr>) ?lc =
      (st, bi', lc')"
    using assms Inr by (simp add: CreateBackendHandle_def)
  have "leaves n v (pending_work (bi_next_action bi)) ?lc bi' lc'"
    using Trigger_ready_leaves [OF _ _ _ _ _ _ tr, of "lc_next_handle lc" ?bh] by simp
  then show ?thesis
    by (simp add: leaves_def)
qed

section \<open>Every step does some of the work\<close>

lemma work_elsewhere:
  assumes "\<And>n' v'. (n', v') \<noteq> (n, v) \<Longrightarrow> next_of lc' n' v' = next_of lc n' v'"
  shows "\<forall>t \<in> set ts. (lt_name t, lt_version t) \<noteq> (n, v) \<Longrightarrow>
      sum_list (map (load_work lc') ts) = sum_list (map (load_work lc) ts)"
    and "\<forall>d \<in> set ds. (dt_name d, dt_version d) \<noteq> (n, v) \<Longrightarrow>
      sum_list (map (destroy_work lc') ds) = sum_list (map (destroy_work lc) ds)"
  using assms by (auto simp: load_work_def destroy_work_def intro!: arg_cong [where f = sum_list])

lemma work_after:
  assumes l: "leaves n v k lc0 bi lc1"
    and ts: "\<forall>t \<in> set (lc_load_threads lc0). (lt_name t, lt_version t) \<noteq> (n, v)"
    and ds: "\<forall>d \<in> set (lc_destroy_threads lc0). (dt_name d, dt_version d) \<noteq> (n, v)"
    and els: "\<And>n' v'. (n', v') \<noteq> (n, v) \<Longrightarrow> get_info lc1 n' v' = get_info lc n' v'"
  shows "lc_work (set_info n v bi lc1) \<le>
    sum_list (map (load_work lc) (lc_load_threads lc0)) + sum_list (map (destroy_work lc) (lc_destroy_threads lc0)) +
    (if lc_release_done lc0 then 0 else 1) + k"
proof -
  let ?lc = "set_info n v bi lc1"
  have nx: "next_of ?lc n' v' = next_of lc n' v'" if "(n', v') \<noteq> (n, v)" for n' v'
    using els that by (auto simp: next_of_def)
  obtain i j b where lv: "lc_load_threads lc1 = lc_load_threads lc0 @
        replicate i \<lparr>lt_name = n, lt_version = v, lt_config = None\<rparr>"
      "lc_destroy_threads lc1 = lc_destroy_threads lc0 @
        replicate j \<lparr>dt_name = n, dt_version = v, dt_backend = b\<rparr>"
      "i * (2 + pending_work (bi_next_action bi)) + j * (if bi_next_action bi = LOAD then 3 else 1) \<le> k"
      "lc_release_done lc1 = lc_release_done lc0"
    using l by (auto simp: leaves_def)
  have here: "next_of ?lc n v = bi_next_action bi"
    by (simp add: next_of_def)
  show ?thesis
    using lv work_elsewhere(1) [OF nx ts] work_elsewhere(2) [OF nx ds]
    by (simp add: lc_work_def sum_list_replicate load_work_def [of ?lc "\<lparr>lt_name = n, lt_version = v, lt_config = None\<rparr>"]
        destroy_work_def [of ?lc "\<lparr>dt_name = n, dt_version = v, dt_backend = b\<rparr>"] here)
qed

lemma removed_other:
  "loads_of lc n v = [t] \<Longrightarrow> \<forall>t' \<in> set (remove1 t (lc_load_threads lc)). (lt_name t', lt_version t') \<noteq> (n, v)"
  "destroys_of lc n v = [d] \<Longrightarrow>
   \<forall>d' \<in> set (remove1 d (lc_destroy_threads lc)). (dt_name d', dt_version d') \<noteq> (n, v)"
proof -
  assume "loads_of lc n v = [t]"
  then have "filter (\<lambda>t. lt_name t = n \<and> lt_version t = v) (remove1 t (lc_load_threads lc)) = []"
    by (simp add: loads_of_def filter_remove1)
  then show "\<forall>t' \<in> set (remove1 t (lc_load_threads lc)). (lt_name t', lt_version t') \<noteq> (n, v)"
    by (simp add: filter_empty_conv)
next
  assume "destroys_of lc n v = [d]"
  then have "filter (\<lambda>d. dt_name d = n \<and> dt_version d = v) (remove1 d (lc_destroy_threads lc)) = []"
    by (simp add: destroys_of_def filter_remove1)
  then show "\<forall>d' \<in> set (remove1 d (lc_destroy_threads lc)). (dt_name d', dt_version d') \<noteq> (n, v)"
    by (simp add: filter_empty_conv)
qed

lemma none_of_version:
  "loads_of lc n v = [] \<Longrightarrow> \<forall>t \<in> set (lc_load_threads lc). (lt_name t, lt_version t) \<noteq> (n, v)"
  "destroys_of lc n v = [] \<Longrightarrow> \<forall>d \<in> set (lc_destroy_threads lc). (dt_name d, dt_version d) \<noteq> (n, v)"
  by (auto simp: loads_of_def destroys_of_def filter_empty_conv)

lemma load_finish_work:
  assumes inv: "lc_inv es lc cl" and t: "t \<in> set (lc_load_threads lc)" "lt_config t = Some c"
  shows "lc_work (load_finish t r lc) < lc_work lc"
proof -
  let ?n = "lt_name t" and ?v = "lt_version t"
  obtain bi where bi: "get_info lc ?n ?v = Some bi" "bi_state bi = MODEL_LOADING" "loads_of lc ?n ?v = [t]"
    using loading_info [OF inv t(1)] by blast
  let ?lc0 = "lc\<lparr>lc_load_threads := remove1 t (lc_load_threads lc)\<rparr>"
  have ph: "bi_handle bi = None" "destroys_of lc ?n ?v = []"
    using lc_inv_ver_state [OF inv, of ?n ?v] bi by (auto simp: ver_state_def ver_inv_def phase_inv_def)
  obtain st bi' lc' where cr: "CreateBackendHandle ?n ?v c r bi ?lc0 = (st, bi', lc')"
    by (metis prod_cases3)
  have "lc_work (set_info ?n ?v bi' lc') \<le>
    sum_list (map (load_work lc) (lc_load_threads ?lc0)) + sum_list (map (destroy_work lc) (lc_destroy_threads ?lc0)) +
    (if lc_release_done ?lc0 then 0 else 1) + pending_work (bi_next_action bi)"
  proof (rule work_after [OF Create_leaves [OF ph(1) cr]])
    show "\<forall>t' \<in> set (lc_load_threads ?lc0). (lt_name t', lt_version t') \<noteq> (?n, ?v)"
      using removed_other(1) [OF bi(3)] by simp
    show "\<forall>d \<in> set (lc_destroy_threads ?lc0). (dt_name d, dt_version d) \<noteq> (?n, ?v)"
      using none_of_version(2) [OF ph(2)] by simp
    show "get_info lc' n' v' = get_info lc n' v'" for n' v'
      using get_info_same_map [OF Create_map [OF cr]] by simp
  qed
  moreover have "load_work lc t = 1 + pending_work (bi_next_action bi)"
    using t(2) bi(1) by (simp add: load_work_def next_of_def)
  ultimately show ?thesis
    using t bi(1) cr by (simp add: load_finish_def lc_work_def sum_list_map_remove1 [OF t(1)])
qed

lemma on_destroy_work:
  assumes inv: "lc_inv es lc cl" and d: "d \<in> set (lc_destroy_threads lc)"
  shows "lc_work (on_destroy d lc) < lc_work lc"
proof -
  let ?n = "dt_name d" and ?v = "dt_version d"
  obtain bi where bi: "get_info lc ?n ?v = Some bi" "bi_state bi = MODEL_UNLOADING" "destroys_of lc ?n ?v = [d]"
    using destroying_info [OF inv d] by blast
  let ?lc0 = "lc\<lparr>lc_destroy_threads := remove1 d (lc_destroy_threads lc)\<rparr>"
  have ph: "loads_of lc ?n ?v = []"
    using lc_inv_ver_state [OF inv, of ?n ?v] bi by (auto simp: ver_state_def ver_inv_def phase_inv_def)
  obtain st bi' lc' where tr: "TriggerNextAction ?n ?v (bi\<lparr>bi_state := MODEL_UNAVAILABLE\<rparr>) ?lc0 = (st, bi', lc')"
    by (metis prod_cases3)
  let ?k = "if bi_next_action bi = LOAD then 2 else 0 :: nat"
  have lv: "leaves ?n ?v ?k ?lc0 bi' lc'"
    using Trigger_unavailable_leaves [OF _ tr] by simp
  have "lc_work (set_info ?n ?v bi' lc') \<le>
    sum_list (map (load_work lc) (lc_load_threads ?lc0)) + sum_list (map (destroy_work lc) (lc_destroy_threads ?lc0)) +
    (if lc_release_done ?lc0 then 0 else 1) + ?k"
  proof (rule work_after [OF lv])
    show "\<forall>t \<in> set (lc_load_threads ?lc0). (lt_name t, lt_version t) \<noteq> (?n, ?v)"
      using none_of_version(1) [OF ph] by simp
    show "\<forall>d' \<in> set (lc_destroy_threads ?lc0). (dt_name d', dt_version d') \<noteq> (?n, ?v)"
      using removed_other(2) [OF bi(3)] by simp
    show "get_info lc' n' v' = get_info lc n' v'" for n' v'
      using get_info_same_map [OF Trigger_map [OF tr]] by simp
  qed
  moreover have "destroy_work lc d = 1 + ?k"
    using bi(1) by (simp add: destroy_work_def next_of_def)
  moreover have "lc_work (lc2\<lparr>lc_release_queue := q\<rparr>) = lc_work lc2" for lc2 q
    by (simp add: lc_work_def load_work_def [abs_def] destroy_work_def [abs_def] next_of_def)
  ultimately show ?thesis
    using bi(1) tr d by (simp add: on_destroy_def Let_def lc_work_def [of lc] sum_list_map_remove1 [OF d])
qed

lemma create_copy_work:
  assumes inv: "lc_inv es lc cl" and t: "t \<in> set (lc_load_threads lc)" "lt_config t = None"
  shows "lc_work (create_copy t lc) < lc_work lc"
proof -
  obtain bi where bi: "get_info lc (lt_name t) (lt_version t) = Some bi"
    using loading_info [OF inv t(1)] by blast
  have nx: "next_of (lc\<lparr>lc_load_threads := ts\<rparr>) = next_of lc" for ts
    by (simp add: next_of_def fun_eq_iff)
  show ?thesis
    using bi t by (simp add: create_copy_def lc_work_def load_work_def [abs_def] destroy_work_def [abs_def] nx
        sum_list_map_remove1 [OF t(1)])
qed

lemma worker_step_work:
  assumes "lc_step s e t" and "worker_event e" and "lc_inv es (sy_lc s) (sy_clients s)"
  shows "lc_work (sy_lc t) < lc_work (sy_lc s)"
  using assms(1)
proof cases
  case (step_section name config sec secs st lc)
  then show ?thesis
    using assms(2) by (cases sec) simp_all
next
  case (step_copy t')
  then show ?thesis
    using create_copy_work [OF assms(3)] by simp
next
  case (step_loaded t' b)
  then show ?thesis
    using load_finish_work [OF assms(3)] by auto
next
  case (step_failed t' err)
  then show ?thesis
    using load_finish_work [OF assms(3)] by auto
next
  case (step_destroy d)
  then show ?thesis
    using on_destroy_work [OF assms(3)] by simp
next
  case step_queue
  then show ?thesis
    by (simp add: release_pass_def lc_work_def load_work_def [abs_def] destroy_work_def [abs_def] next_of_def)
qed (use assms(2) in simp_all)

text \<open>The threads leave a version that is ready alone.\<close>

lemma worker_info:
  "(lt_name t, lt_version t) \<noteq> (n, v) \<Longrightarrow> get_info (load_finish t r lc) n v = get_info lc n v"
  "(dt_name d, dt_version d) \<noteq> (n, v) \<Longrightarrow> get_info (on_destroy d lc) n v = get_info lc n v"
  "get_info (create_copy t lc) n v = get_info lc n v"
  by (auto simp: load_finish_def on_destroy_def create_copy_def Let_def split: option.split prod.split
      dest!: Create_map Trigger_map get_info_same_map)

lemma lc_worker_keeps_ready:
  assumes "lc_step s e t" and "worker_event e" and "lc_inv es (sy_lc s) (sy_clients s)"
    and "get_info (sy_lc s) n v = Some bi" and "bi_state bi = MODEL_READY"
  shows "get_info (sy_lc t) n v = Some bi"
  using assms(1)
proof cases
  case (step_section name config sec secs st lc)
  then show ?thesis
    using assms(2) by (cases sec) simp_all
next
  case (step_copy t')
  then show ?thesis
    using assms(4) by (simp add: worker_info)
next
  case (step_loaded t' b)
  then have "(lt_name t', lt_version t') \<noteq> (n, v)"
    using loading_info [OF assms(3), of t' n v] assms(4,5) by auto
  then show ?thesis
    using step_loaded assms(4) by (simp add: worker_info)
next
  case (step_failed t' err)
  then have "(lt_name t', lt_version t') \<noteq> (n, v)"
    using loading_info [OF assms(3), of t' n v] assms(4,5) by auto
  then show ?thesis
    using step_failed assms(4) by (simp add: worker_info)
next
  case (step_destroy d)
  then have "(dt_name d, dt_version d) \<noteq> (n, v)"
    using destroying_info [OF assms(3), of d n v] assms(4,5) by auto
  then show ?thesis
    using step_destroy assms(4) by (simp add: worker_info)
qed (use assms in \<open>simp_all add: release_pass_def\<close>)

lemma worker_run_work:
  assumes "lc_run s es' t" and "lc_run lc_system_new es s" and "list_all worker_event es'"
  shows "lc_run lc_system_new (es @ es') t \<and> length es' + lc_work (sy_lc t) \<le> lc_work (sy_lc s)"
  using assms
proof (induction rule: lc_run.induct)
  case (run_nil s)
  then show ?case by simp
next
  case (run_snoc s es' t e u)
  then have run: "lc_run lc_system_new (es @ es') t" and le: "length es' + lc_work (sy_lc t) \<le> lc_work (sy_lc s)"
    by auto
  have "lc_work (sy_lc u) < lc_work (sy_lc t)"
    using worker_step_work [OF run_snoc.hyps(2), of "es @ es'"] lc_run_inv [OF run] run_snoc.prems by simp
  then show ?case
    using lc_run.run_snoc [OF run run_snoc.hyps(2)] le by simp
qed

lemma idle_when_stuck:
  assumes "\<And>e u. worker_event e \<Longrightarrow> \<not> lc_step s e u"
  shows "lc_load_threads (sy_lc s) = [] \<and> lc_destroy_threads (sy_lc s) = []"
proof (rule ccontr)
  assume "\<not> ?thesis"
  then consider t where "t \<in> set (lc_load_threads (sy_lc s))" | d where "d \<in> set (lc_destroy_threads (sy_lc s))"
    by (cases "lc_load_threads (sy_lc s)"; cases "lc_destroy_threads (sy_lc s)") auto
  then show False
  proof cases
    case 1
    then show False
      using assms [of Ev_worker] lc_step.step_copy [OF 1] lc_step.step_loaded [OF 1] by auto
  next
    case 2
    then show False
      using assms [of Ev_worker] lc_step.step_destroy [OF 2] by auto
  qed
qed

text \<open>
  Claim C22. The threads of the life cycle come to an end: from every reachable state, whatever the
  outcome of the loads, they take at most \<open>lc_work\<close> steps without a new request, and when they can
  take no further step, no loading or destroying thread is left.
\<close>

theorem lc_workers_stop:
  assumes "lc_run lc_system_new es s" and "lc_run s es' t" and "list_all worker_event es'"
  shows "length es' \<le> lc_work (sy_lc s) \<and>
    ((\<exists>e u. worker_event e \<and> lc_step t e u) \<or>
     lc_load_threads (sy_lc t) = [] \<and> lc_destroy_threads (sy_lc t) = [])"
  using worker_run_work [OF assms(2,1,3)] idle_when_stuck [of t] by auto

lemma lc_workers_stop_witness:
  "\<exists>t. lc_run lc_system_new [Ev_worker] t \<and> length [Ev_worker] \<le> lc_work (sy_lc lc_system_new)"
proof -
  have "lc_step lc_system_new Ev_worker (lc_system_new\<lparr>sy_lc := release_pass (sy_lc lc_system_new)\<rparr>)"
    by (rule lc_step.step_queue) (simp add: lc_system_new_def life_cycle_new_def)
  then have run: "lc_run lc_system_new [Ev_worker] (lc_system_new\<lparr>sy_lc := release_pass (sy_lc lc_system_new)\<rparr>)"
    using lc_run.run_snoc [OF lc_run.run_nil] by fastforce
  show ?thesis
    using lc_workers_stop [OF lc_run.run_nil run] run by auto
qed

end
