(* ===== verification/Server_Props.thy ===== *)
theory Server_Props
  imports Server Server_Status_Props Model_Repository_Props Life_Cycle_Work
begin

text \<open>
  The properties of the server: the count of the requests in flight, when it stops, and what its
  health means.
\<close>

declare map_of_is_None [simp del]

section \<open>Requests in flight\<close>

definition server_inv :: "server_system \<Rightarrow> bool" where
  "server_inv s \<longleftrightarrow>
     sv_inflight_request_counter (ssy_server s) = of_nat (length (ssy_running s)) \<and>
     (sv_ready_state (ssy_server s) = SERVER_READY \<longrightarrow> sv_manager (ssy_server s) \<noteq> None)"

lemma handler_keeps:
  "HandleHealth now mode sv = (rs, health, sv') \<Longrightarrow>
   sv_inflight_request_counter sv' = sv_inflight_request_counter sv \<and> sv_manager sv' = sv_manager sv \<and>
   sv_ready_state sv' = sv_ready_state sv"
  "HandleProfile start_all stop_all cmd sv = (rs, sv') \<Longrightarrow>
   sv_inflight_request_counter sv' = sv_inflight_request_counter sv \<and> sv_manager sv' = sv_manager sv \<and>
   sv_ready_state sv' = sv_ready_state sv"
  "HandleStatus now model_name sv = Returned (rs, ss, sv') \<Longrightarrow>
   sv_inflight_request_counter sv' = sv_inflight_request_counter sv \<and> sv_manager sv' = sv_manager sv \<and>
   sv_ready_state sv' = sv_ready_state sv"
  by (auto simp: HandleHealth_def HandleProfile_def HandleStatus_def NextRequestId_def Let_def
      split: if_splits sum.splits)

lemma poll_keeps:
  "PollModelRepository rp sv = Returned (st, sv') \<Longrightarrow>
   sv_inflight_request_counter sv' = sv_inflight_request_counter sv \<and>
   (sv_manager sv \<noteq> None \<longrightarrow> sv_manager sv' \<noteq> None) \<and> sv_ready_state sv' = sv_ready_state sv"
  by (auto simp: PollModelRepository_def put_manager_def split: if_splits option.splits outcome.splits)

lemma init_ready:
  "Init rp profile_stop sv = Returned (b, sv') \<Longrightarrow>
   sv_inflight_request_counter sv' = sv_inflight_request_counter sv \<and>
   (sv_ready_state sv' = SERVER_READY \<longrightarrow> sv_manager sv' \<noteq> None) \<and> (b \<longrightarrow> sv_ready_state sv' = SERVER_READY)"
  by (auto simp: Init_def Let_def put_manager_def split: if_splits option.splits outcome.splits)

lemma stop_exiting:
  "Stop obs sv = (b, sv') \<Longrightarrow>
   sv_inflight_request_counter sv' = sv_inflight_request_counter sv \<and> sv_ready_state sv' = SERVER_EXITING"
  by (auto simp: Stop_def Let_def put_manager_def split: option.splits prod.splits)

interpretation server: transition_system server_start sv_step server_inv
proof
  fix s assume "server_start s"
  then show "server_inv s"
    by (simp add: server_start_def server_inv_def)
next
  fix s t assume inv: "server_inv s" and step: "sv_step s t"
  from step show "server_inv t"
  proof cases
    case (sv_complete i finalize st rs stats' stats)
    then have len: "length (ssy_running s) = Suc (length (remove1 i (ssy_running s)))"
      by (simp add: length_remove1) (metis Suc_pred length_pos_if_in_set)
    show ?thesis
      using sv_complete(1) inv unfolding server_inv_def len by (simp add: release_inflight_def)
  qed (use inv in \<open>auto simp: server_inv_def infer_enter_def NextRequestId_def HandleInfer_def
        dest!: handler_keeps poll_keeps init_ready stop_exiting split: if_splits\<close>)
qed


definition example_server :: inference_server where
  "example_server = (InferenceServer (1, 0) None)\<lparr>sv_model_store_path := ''/models''\<rparr>"


section \<open>Stopping\<close>

declare stop_loop.simps [simp del]

lemma stop_loop_spec: "stop_loop obs i n \<longleftrightarrow> (\<exists>j \<le> n. obs (i + j) = (0, 0))"
proof (induction n arbitrary: i)
  case 0
  then show ?case
    by (subst stop_loop.simps) (auto simp: prod_eq_iff)
next
  case (Suc n)
  have "stop_loop obs i (Suc n) \<longleftrightarrow> obs i = (0, 0) \<or> (\<exists>j \<le> n. obs (Suc i + j) = (0, 0))"
    by (subst stop_loop.simps) (auto simp: Suc.IH prod_eq_iff)
  also have "\<dots> \<longleftrightarrow> (\<exists>j \<le> Suc n. obs (i + j) = (0, 0))"
    by (metis (no_types, lifting) Suc_le_mono add.right_neutral add_Suc add_Suc_right le0 not0_implies_Suc)
  finally show ?case .
qed

lemma no_live_idle:
  assumes inv: "lc_inv es lc cl" and live: "GetLiveBackendStates lc = Map.empty" and "vm_sorted lc"
  shows "lc_load_threads lc = [] \<and> lc_destroy_threads lc = [] \<and> lc_handles lc = Map.empty \<and> cl = []"
proof -
  have dead: "\<not> live_state (bi_state bi)" if info: "get_info lc n v = Some bi" for n v bi
  proof
    assume "live_state (bi_state bi)"
    obtain vm where vm: "lc_map lc n = Some vm" "map_of vm v = Some bi"
      using info by (auto simp: get_info_def split: option.splits)
    then have "(v, bi_state bi) \<in> set (live_versions vm)"
      using \<open>live_state (bi_state bi)\<close> map_of_SomeD [OF vm(2)] by (force simp: live_versions_def)
    then have "GetLiveBackendStates lc n \<noteq> None"
      using vm(1) by (auto simp: GetLiveBackendStates_def)
    then show False
      using live by simp
  qed
  have none: "loads_of lc n v = [] \<and> destroys_of lc n v = [] \<and> handles_of lc n v = Map.empty" for n v
  proof -
    have "ver_inv_of lc cl n v"
      using inv by (simp add: lc_inv_def sys_inv_def)
    then have inv: "ver_inv (get_info lc n v) (loads_of lc n v) (destroys_of lc n v) (handles_of lc n v) cl" .
    show ?thesis
    proof (cases "get_info lc n v")
      case None
      then show ?thesis
        using inv by (simp add: ver_inv_def)
    next
      case (Some bi)
      then have "bi_state bi = MODEL_UNKNOWN \<or> bi_state bi = MODEL_UNAVAILABLE"
        using dead [OF Some] by (simp add: live_state_def)
      then show ?thesis
        using inv Some by (auto simp: ver_inv_def phase_inv_def)
    qed
  qed
  have "lc_load_threads lc = []"
  proof (rule ccontr)
    assume "lc_load_threads lc \<noteq> []"
    then obtain t where "t \<in> set (lc_load_threads lc)"
      by (meson list.set_sel(1))
    then show False
      using none [of "lt_name t" "lt_version t"] by (auto simp: loads_of_def filter_empty_conv)
  qed
  moreover have "lc_destroy_threads lc = []"
  proof (rule ccontr)
    assume "lc_destroy_threads lc \<noteq> []"
    then obtain d where "d \<in> set (lc_destroy_threads lc)"
      by (meson list.set_sel(1))
    then show False
      using none [of "dt_name d" "dt_version d"] by (auto simp: destroys_of_def filter_empty_conv)
  qed
  moreover have handles: "lc_handles lc = Map.empty"
  proof
    fix h
    show "lc_handles lc h = None"
    proof (cases "lc_handles lc h")
      case (Some bh)
      then show ?thesis
        using handles_of_at [OF Some] none by simp
    qed
  qed
  moreover have "cl = []"
    using inv handles by (auto simp: lc_inv_def sys_inv_def glob_inv_def)
  ultimately show ?thesis
    by blast
qed

text \<open>
  Stop waits for the right thing: in every reachable state of the life cycle in which no
  model is live, no backend is being loaded or destroyed, no handle exists and no request holds one,
  so no inference request can be using a backend.
\<close>

theorem no_live_models_idle:
  assumes "lc_run lc_system_new es s" and "GetLiveBackendStates (sy_lc s) = Map.empty"
  shows "lc_load_threads (sy_lc s) = [] \<and> lc_destroy_threads (sy_lc s) = [] \<and>
    lc_handles (sy_lc s) = Map.empty \<and> sy_clients s = []"
  using no_live_idle [OF _ assms(2)] lc_run_inv [OF assms(1)] by blast

lemma no_live_models_idle_witness:
  "GetLiveBackendStates (sy_lc lc_system_new) = Map.empty \<and> sy_clients lc_system_new = []"
proof -
  have "GetLiveBackendStates (sy_lc lc_system_new) = Map.empty"
    by (simp add: GetLiveBackendStates_def lc_system_new_def life_cycle_new_def fun_eq_iff)
  then show ?thesis
    using no_live_models_idle [OF lc_run.run_nil] by blast
qed

text \<open>
  Stop makes the server refuse new requests, asks for every model to be unloaded, and
  returns after at most \<open>exit_timeout_secs\<close> waits: it returns true exactly if one of the
  observations it makes finds neither a live model nor a request in flight.
\<close>

theorem Stop_spec:
  assumes "sv_manager sv = Some rm" and "Stop obs sv = (b, sv')"
  shows "(b \<longleftrightarrow> (\<exists>j \<le> unat (sv_exit_timeout_secs sv). obs j = (0, 0))) \<and>
    sv_ready_state sv' = SERVER_EXITING \<and> fst (HandleInfer sv') =
      Infer_done (RequestStatus_Create_msg request_status_clear 0 (sv_id sv) UNAVAILABLE ''Server not ready'')"
  using assms stop_loop_spec [of obs 0 "unat (sv_exit_timeout_secs sv)"]
  by (auto simp: Stop_def Let_def put_manager_def HandleInfer_def split: prod.splits)

lemma Stop_spec_witness:
  "\<exists>sv'. Stop (\<lambda>i. if i = 2 then (0, 0) else (1, 0)) (example_server\<lparr>sv_manager := Some example_manager\<rparr>) = (True, sv') \<and>
     sv_ready_state sv' = SERVER_EXITING"
proof -
  let ?obs = "\<lambda>i :: nat. if i = 2 then (0, 0) else (1 :: nat, 0 :: 64 word)"
  let ?sv = "example_server\<lparr>sv_manager := Some example_manager\<rparr>"
  obtain b sv' where stop: "Stop ?obs ?sv = (b, sv')"
    by fastforce
  have "sv_manager ?sv = Some example_manager" and t: "unat (sv_exit_timeout_secs ?sv) = 30"
    by (simp_all add: example_server_def InferenceServer_def Let_def)
  from Stop_spec [OF this(1) stop] have "b" "sv_ready_state sv' = SERVER_EXITING"
    using t by auto
  then show ?thesis
    using stop by simp
qed

section \<open>Health\<close>

text \<open>The state the status reports for a version.\<close>

definition state_of :: "life_cycle \<Rightarrow> server_status \<Rightarrow> string \<Rightarrow> int \<Rightarrow> model_ready_state option" where
  "state_of lc ss n v =
     (case ss_model_status ss n of
        None \<Rightarrow> None
      | Some ms \<Rightarrow>
          (case get_info lc n v of
             Some bi \<Rightarrow> Some (bi_state bi)
           | None \<Rightarrow> map_option (\<lambda>_. MODEL_UNAVAILABLE) (ms_version_status ms v)))"

definition names_agree :: "server_status \<Rightarrow> bool" where
  "names_agree ss \<longleftrightarrow> (\<forall>n. case ss_model_status ss n of None \<Rightarrow> True | Some ms \<Rightarrow> mc_name (ms_config ms) = n)"

lemma all_versions_ready_reported:
  "all_versions_ready ss \<longleftrightarrow> (\<forall>n v. reported_state ss n v \<in> {None, Some MODEL_READY})"
proof -
  have "reported_state ss n v \<in> {None, Some MODEL_READY} \<longleftrightarrow>
      (\<forall>ms vs. ss_model_status ss n = Some ms \<longrightarrow> ms_version_status ms v = Some vs \<longrightarrow> vs_ready_state vs = MODEL_READY)"
    for n v
    by (auto simp: reported_state_def split: option.split)
  then show ?thesis
    by (simp add: all_versions_ready_def dom_def) (metis option.sel)
qed

lemma Get_all_reported:
  assumes "vm_sorted lc" and "names_agree ss"
  shows "\<exists>ss'. Get_all sid rs up (GetVersionStates lc) ss = Inr ss' \<and> (\<forall>n v. reported_state ss' n v = state_of lc ss n v)"
proof -
  obtain ss' where ss': "Get_all sid rs up (GetVersionStates lc) ss = Inr ss'"
    by (simp add: Get_all_def)
  have "reported_state ss' n v = state_of lc ss n v" for n v
  proof (cases "ss_model_status ss n")
    case None
    then show ?thesis
      using ss' by (auto simp: Get_all_def reported_state_def state_of_def)
  next
    case (Some ms)
    moreover have "mc_name (ms_config ms) = n"
      using assms(2) Some by (auto simp: names_agree_def split: option.splits)
    ultimately show ?thesis
      using reported_state_spec [OF assms(1) Some, of sid rs up v] ss' by (auto simp: state_of_def)
  qed
  then show ?thesis
    using ss' by blast
qed

lemma health_ready:
  assumes "sv_ready_state sv = SERVER_READY" and "sv_strict_readiness sv" and "sv_manager sv = Some rm"
    and "vm_sorted (rm_life_cycle rm)" and "names_agree (sv_status sv)"
  shows "fst (snd (HandleHealth now ''ready'' sv)) \<longleftrightarrow>
    (\<forall>n v. state_of (rm_life_cycle rm) (sv_status sv) n v \<in> {None, Some MODEL_READY})"
proof -
  obtain ss' where ss': "Get_all (sv_id sv) SERVER_READY (UptimeNs now sv) (GetVersionStates (rm_life_cycle rm)) (sv_status sv) = Inr ss'"
    and r: "\<forall>n v. reported_state ss' n v = state_of (rm_life_cycle rm) (sv_status sv) n v"
    using Get_all_reported [OF assms(4,5)] by blast
  show ?thesis
    using assms(1-3) ss' r all_versions_ready_reported [of ss']
    by (simp add: HandleHealth_def version_states_def NextRequestId_def)
qed

text \<open>
  With strict readiness a ready server says it is ready exactly if every version the status
  reports for any of its models is ready: the versions the life cycle knows of a model that has a
  status, and the versions requests were counted for.
\<close>

theorem health_ready_spec:
  assumes "lc_run lc_system_new es s" and "sv_manager sv = Some rm" and "rm_life_cycle rm = sy_lc s"
    and "sv_ready_state sv = SERVER_READY" and "sv_strict_readiness sv" and "names_agree (sv_status sv)"
  shows "fst (snd (HandleHealth now ''ready'' sv)) \<longleftrightarrow>
    (\<forall>n v. state_of (sy_lc s) (sv_status sv) n v \<in> {None, Some MODEL_READY})"
  using health_ready [OF assms(4,5,2) _ assms(6)] lc_run_inv [OF assms(1)] assms(3) by simp

definition ready_server :: "life_cycle \<Rightarrow> inference_server" where
  "ready_server lc = example_server\<lparr>sv_ready_state := SERVER_READY,
     sv_status := snd (InitForModel ''m'' (model_config_clear\<lparr>mc_name := ''m''\<rparr>) server_status_clear),
     sv_manager := Some (example_manager\<lparr>rm_life_cycle := lc\<rparr>)\<rparr>"

lemma ready_server_sel [simp]:
  "sv_ready_state (ready_server lc) = SERVER_READY" "sv_strict_readiness (ready_server lc)"
  "sv_manager (ready_server lc) = Some (example_manager\<lparr>rm_life_cycle := lc\<rparr>)"
  "ss_model_status (sv_status (ready_server lc)) =
     [''m'' \<mapsto> \<lparr>ms_config = model_config_clear\<lparr>mc_name := ''m''\<rparr>, ms_version_status = Map.empty\<rparr>]"
  by (simp_all add: ready_server_def example_server_def InferenceServer_def InitForModel_def server_status_clear_def Let_def)

lemma ready_server_names: "names_agree (sv_status (ready_server lc))"
  by (simp add: names_agree_def)

lemma health_ready_spec_witness:
  "fst (snd (HandleHealth (2, 0) ''ready'' (ready_server (sy_lc example_system))))"
proof -
  have "state_of (sy_lc example_system) (sv_status (ready_server (sy_lc example_system))) n v \<in> {None, Some MODEL_READY}" for n v
    by (auto simp: state_of_def example_system_def get_info_def example_info_def split: option.split)
  then show ?thesis
    using health_ready_spec [OF example_run ready_server_sel(3), of "sy_lc example_system" "(2, 0)"] ready_server_names
    by simp
qed

text \<open>
  A version that was loaded and is to be unloaded, because its model was deleted or its
  policy no longer selects it, keeps its entry in the life cycle for ever: as long as the version is
  not requested again, a server with strict readiness never says that it is ready, although every
  model of its repository may be served.
\<close>

theorem unloaded_version_never_ready:
  assumes "lc_run lc_system_new es s" and "goal_of es n v = Gone"
    and "sv_manager sv = Some rm" and "rm_life_cycle rm = sy_lc s"
    and "sv_ready_state sv = SERVER_READY" and "sv_strict_readiness sv" and "names_agree (sv_status sv)"
    and "n \<in> dom (ss_model_status (sv_status sv))"
  shows "\<not> fst (snd (HandleHealth now ''ready'' sv))"
proof -
  have inv: "lc_inv es (sy_lc s) (sy_clients s)" "vm_sorted (sy_lc s)"
    using lc_run_inv [OF assms(1)] by simp_all
  then obtain bi where bi: "get_info (sy_lc s) n v = Some bi" "\<not> pursues bi"
    using lc_inv_goal [OF inv(1), of n v] assms(2) by (auto simp: goal_ok_def)
  then have "state_of (sy_lc s) (sv_status sv) n v = Some (bi_state bi)" "bi_state bi \<noteq> MODEL_READY"
    using assms(8) by (auto simp: state_of_def pursues_def)
  then show ?thesis
    using health_ready [OF assms(5,6,3) _ assms(7)] inv(2) assms(4) by (metis insertE option.distinct(1) option.inject singletonD)
qed

lemma unloaded_version_never_ready_witness:
  "\<exists>lc. \<not> fst (snd (HandleHealth (2, 0) ''ready'' (ready_server lc)))"
proof -
  obtain st lc where al: "AsyncLoad ''m'' [2] example_config True (sy_lc example_system) = (st, lc)"
    by fastforce
  have call: "sy_call example_system = None"
    by (simp add: example_system_def)
  from AsyncLoad_goals [OF example_run call al] obtain es' where
    run: "lc_run lc_system_new es' (example_system\<lparr>sy_lc := lc\<rparr>)" and
    g: "\<forall>v. goal_of es' ''m'' v = (if v \<in> set [2] then Serve example_config
          else if goal_of [Ev_client, Ev_load ''m'' 1 example_config, Ev_client, Ev_worker, Ev_worker, Ev_worker] ''m'' v = Never
          then Never else Gone)"
    by blast
  have "goal_of es' ''m'' 1 = Gone"
    using spec [OF g, of 1] by (simp add: goal_of_def)
  from unloaded_version_never_ready [OF run this ready_server_sel(3) _ _ _ ready_server_names]
  show ?thesis
    by fastforce
qed

section \<open>A server that failed to initialise\<close>

lemma failed_init:
  "case Init (two_models False) Status_Success example_server of
     Thrown \<Rightarrow> False
   | Returned (ok, sv) \<Rightarrow> \<not> ok \<and> sv_ready_state sv = SERVER_FAILED_TO_INITIALIZE \<and>
       (case sv_manager sv of None \<Rightarrow> True | Some rm \<Rightarrow> False) \<and>
       (case ss_model_status (sv_status sv) ''a'' of None \<Rightarrow> False | Some ms \<Rightarrow> True)"
  by code_simp

text \<open>
  When the versions of one model cannot be listed at the start, the initialisation fails after
  the model has got its status: there is no manager, and a request for the status of the server, which
  is only refused while the server is exiting, dereferences the null manager.
\<close>

theorem status_after_failed_init:
  "case Init (two_models False) Status_Success example_server of
     Thrown \<Rightarrow> False
   | Returned (ok, sv) \<Rightarrow> \<not> ok \<and> sv_ready_state sv = SERVER_FAILED_TO_INITIALIZE \<and> HandleStatus now [] sv = Thrown"
  using failed_init
  by (auto simp: HandleStatus_def Let_def NextRequestId_def split: outcome.splits option.splits)

end
