(* ===== verification/Http_Server.thy ===== *)
theory Http_Server
  imports Server Provider_Utils
begin

text \<open>
  \<open>src/servers/http_server.cc\<close>: the HTTP front end. A request is what libevhtp hands to the callback;
  \<open>hq_query\<close> and \<open>hq_header_in\<close> are what \<open>evhtp_kv_find\<close> finds. A reply is its code, the headers in
  the order in which they were added, and the output buffer. Everything that libevent, protobuf
  and the clock provide is a field of the environment.
\<close>

section \<open>Requests and replies\<close>

datatype htp_method = htp_method_GET | htp_method_POST | htp_method_OTHER

datatype evhtp_res = EVHTP_RES_OK | EVHTP_RES_BADREQ | EVHTP_RES_METHNALLOWED

record 'ev evhtp_request =
  hq_method :: htp_method
  hq_path :: string
  hq_query :: "string \<rightharpoonup> string"
  hq_header_in :: "string \<rightharpoonup> string"
  hq_peek_count :: int
  hq_peek :: "int \<Rightarrow> int \<times> bytes list"
  hq_buffer_out :: 'ev
  hq_headers_out :: "(string \<times> string) list"

record 'ev http_reply =
  hp_code :: evhtp_res
  hp_headers :: "(string \<times> string) list"
  hp_buffer :: 'ev

record 'ev http_env =
  he_add :: "bytes \<Rightarrow> 'ev \<Rightarrow> 'ev"
  he_drain :: "'ev \<Rightarrow> 'ev"
  he_status_text :: "request_status \<Rightarrow> string"
  he_header_text :: "response_header \<Rightarrow> string"
  he_header_binary :: "response_header \<Rightarrow> bytes"
  he_header_debug :: "response_header \<Rightarrow> bytes"
  he_server_binary :: "server_status \<Rightarrow> bytes"
  he_server_debug :: "server_status \<Rightarrow> bytes"
  he_parse_request :: "string \<Rightarrow> request_header"

definition add_header :: "string \<Rightarrow> string \<Rightarrow> 'ev evhtp_request \<Rightarrow> 'ev evhtp_request" where
  "add_header name v req = req\<lparr>hq_headers_out := hq_headers_out req @ [(name, v)]\<rparr>"

definition send_reply :: "evhtp_res \<Rightarrow> 'ev evhtp_request \<Rightarrow> 'ev http_reply" where
  "send_reply code req = \<lparr>hp_code = code, hp_headers = hq_headers_out req, hp_buffer = hq_buffer_out req\<rparr>"

abbreviation "header_infer_request \<equiv> ''NV-InferRequest''"
abbreviation "header_infer_response \<equiv> ''NV-InferResponse''"
abbreviation "header_status \<equiv> ''NV-Status''"
abbreviation "header_content_type \<equiv> ''Content-Type''"
abbreviation "octet_stream \<equiv> ''application/octet-stream''"

definition status_code :: "request_status \<Rightarrow> evhtp_res" where
  "status_code rs = (if rs_code rs = SUCCESS then EVHTP_RES_OK else EVHTP_RES_BADREQ)"

section \<open>The regular expressions\<close>

text \<open>
  The four full matches, each with its captures. A dot matches every character but the end of a
  line.
\<close>

fun strip_prefix :: "string \<Rightarrow> string \<Rightarrow> string option" where
  "strip_prefix [] s = Some s"
| "strip_prefix (c # cs) (d # ds) = (if c = d then strip_prefix cs ds else None)"
| "strip_prefix (c # cs) [] = None"

definition line :: "string \<Rightarrow> bool" where
  "line s \<longleftrightarrow> CHR 0x0A \<notin> set s"

fun match_endpoint :: "string list \<Rightarrow> string \<Rightarrow> (string \<times> string) option" where
  "match_endpoint [] s = None"
| "match_endpoint (e # es) s =
     (case strip_prefix e s of
        Some rest \<Rightarrow> if line rest then Some (e, rest) else match_endpoint es s
      | None \<Rightarrow> match_endpoint es s)"

definition match_api :: "string \<Rightarrow> (string \<times> string) option" where
  "match_api path =
     (case strip_prefix ''/api/'' path of
        None \<Rightarrow> None
      | Some s \<Rightarrow> match_endpoint [''health'', ''profile'', ''infer'', ''status''] s)"

definition match_health :: "string \<Rightarrow> string option" where
  "match_health uri =
     (if uri = ''/live'' then Some ''live'' else if uri = ''/ready'' then Some ''ready'' else None)"

text \<open>A capture of an optional group that takes no part in the match is empty.\<close>

definition match_infer :: "string \<Rightarrow> (string \<times> string) option" where
  "match_infer uri =
     (case uri of
        c # s \<Rightarrow>
          (let name = takeWhile (\<lambda>d. d \<noteq> CHR ''/'') s; rest = dropWhile (\<lambda>d. d \<noteq> CHR ''/'') s in
           if c \<noteq> CHR ''/'' \<or> name = [] then None
           else (case rest of
                   [] \<Rightarrow> Some (name, [])
                 | _ # ds \<Rightarrow> if ds \<noteq> [] \<and> list_all is_digit ds then Some (name, ds) else None))
      | [] \<Rightarrow> None)"

definition match_status :: "string \<Rightarrow> string option" where
  "match_status uri = (case uri of c # s \<Rightarrow> if c = CHR ''/'' \<and> line s then Some s else None | [] \<Rightarrow> None)"

text \<open>\<open>atoll\<close> of a string of digits; a number that does not fit is the largest one.\<close>

definition atoll :: "string \<Rightarrow> int" where
  "atoll ds = min (2 ^ 63 - 1) (int (digits_val ds))"

section \<open>Health, profile and status\<close>

text \<open>The timer of a request is reported when the handler returns, whatever the reply.\<close>

definition report_stat :: "timespec \<Rightarrow> timespec \<Rightarrow> server_stat_kind \<Rightarrow> inference_server \<Rightarrow> inference_server" where
  "report_stat start now kind sv = sv\<lparr>sv_status := ServerStatTimer_destroy True start now kind (sv_status sv)\<rparr>"

definition http_HandleHealth ::
  "'ev http_env \<Rightarrow> timespec \<Rightarrow> timespec \<Rightarrow> 'ev evhtp_request \<Rightarrow> string \<Rightarrow> inference_server \<Rightarrow>
   'ev http_reply \<times> inference_server" where
  "http_HandleHealth env start now req health_uri sv =
     (if hq_method req \<noteq> htp_method_GET then
        (send_reply EVHTP_RES_METHNALLOWED req, report_stat start now STAT_HEALTH sv)
      else
        (case (if health_uri = [] then Some [] else match_health health_uri) of
           None \<Rightarrow> (send_reply EVHTP_RES_BADREQ req, report_stat start now STAT_HEALTH sv)
         | Some mode \<Rightarrow>
             (let (rs, health, sv1) = HandleHealth now mode sv
              in (send_reply (if health then EVHTP_RES_OK else EVHTP_RES_BADREQ)
                    (add_header header_status (he_status_text env rs) req),
                  report_stat start now STAT_HEALTH sv1))))"

definition http_HandleProfile ::
  "'ev http_env \<Rightarrow> timespec \<Rightarrow> timespec \<Rightarrow> status \<Rightarrow> status \<Rightarrow> 'ev evhtp_request \<Rightarrow> string \<Rightarrow>
   inference_server \<Rightarrow> 'ev http_reply \<times> inference_server" where
  "http_HandleProfile env start now start_all stop_all req profile_uri sv =
     (if hq_method req \<noteq> htp_method_GET then
        (send_reply EVHTP_RES_METHNALLOWED req, report_stat start now STAT_PROFILE sv)
      else if profile_uri \<noteq> [] \<and> profile_uri \<noteq> ''/'' then
        (send_reply EVHTP_RES_BADREQ req, report_stat start now STAT_PROFILE sv)
      else
        (let cmd = (case hq_query req ''cmd'' of None \<Rightarrow> [] | Some c \<Rightarrow> c);
             (rs, sv1) = HandleProfile start_all stop_all cmd sv
         in (send_reply (status_code rs) (add_header header_status (he_status_text env rs) req),
             report_stat start now STAT_PROFILE sv1)))"

definition reply_format :: "'ev evhtp_request \<Rightarrow> string" where
  "reply_format req = (case hq_query req ''format'' of None \<Rightarrow> ''text'' | Some f \<Rightarrow> f)"

definition http_HandleStatus ::
  "'ev http_env \<Rightarrow> timespec \<Rightarrow> timespec \<Rightarrow> 'ev evhtp_request \<Rightarrow> string \<Rightarrow> inference_server \<Rightarrow>
   ('ev http_reply \<times> inference_server) outcome" where
  "http_HandleStatus env start now req status_uri sv =
     (if hq_method req \<noteq> htp_method_GET then
        Returned (send_reply EVHTP_RES_METHNALLOWED req, report_stat start now STAT_STATUS sv)
      else
        (case (if status_uri = [] then Some [] else match_status status_uri) of
           None \<Rightarrow> Returned (send_reply EVHTP_RES_BADREQ req, report_stat start now STAT_STATUS sv)
         | Some model_name \<Rightarrow>
             (case HandleStatus now model_name sv of
                Thrown \<Rightarrow> Thrown
              | Returned (rs, server_status, sv1) \<Rightarrow>
                  (let ss = (case server_status of None \<Rightarrow> server_status_clear | Some s \<Rightarrow> s);
                       req1 = (if rs_code rs = SUCCESS then
                                 (if reply_format req = ''binary'' then
                                    add_header header_content_type octet_stream
                                      (req\<lparr>hq_buffer_out := he_add env (he_server_binary env ss) (hq_buffer_out req)\<rparr>)
                                  else req\<lparr>hq_buffer_out := he_add env (he_server_debug env ss) (hq_buffer_out req)\<rparr>)
                               else req)
                   in Returned (send_reply (status_code rs) (add_header header_status (he_status_text env rs) req1),
                        report_stat start now STAT_STATUS sv1)))))"

section \<open>Inference\<close>

text \<open>\<open>InferRequest\<close>: what a paused request needs for its reply.\<close>

record 'ev infer_request =
  iq_req :: "'ev evhtp_request"
  iq_id :: "64 word"
  iq_request_provider :: infer_request_provider
  iq_response_provider :: "'ev http_provider"
  iq_infer_stats :: model_infer_stats
  iq_timer :: scoped_timer

datatype 'ev infer_result =
    Infer_replied "'ev http_reply"
  | Infer_paused "64 word" nat "'ev infer_request"

definition clear_classes :: "response_header \<Rightarrow> response_header" where
  "clear_classes hdr = hdr\<lparr>sh_output := map (\<lambda>out. out\<lparr>so_batch_classes := []\<rparr>) (sh_output hdr)\<rparr>"

text \<open>\<open>FinalizeResponse\<close> of the request, with the provider as the backend left it.\<close>

definition http_FinalizeResponse ::
  "'ev http_env \<Rightarrow> request_status \<Rightarrow> 'ev infer_request \<Rightarrow> 'ev http_reply" where
  "http_FinalizeResponse env rs iq =
     (let p = iq_response_provider iq; req = iq_req iq;
          (hdr, ev) =
            (if rs_code rs = SUCCESS then
               (let hdr1 = (rv_response_header p)\<lparr>sh_id := iq_id iq\<rparr>;
                    rstr = (if reply_format req = ''binary'' then he_header_binary env hdr1
                            else he_header_debug env hdr1)
                in (clear_classes hdr1, he_add env rstr (hv_output_buffer p)))
             else (response_header_clear\<lparr>sh_id := iq_id iq\<rparr>, he_drain env (hv_output_buffer p)))
      in send_reply (status_code rs)
           (add_header header_content_type octet_stream
             (add_header header_status (he_status_text env rs)
               (add_header header_infer_response (he_header_text env hdr) (req\<lparr>hq_buffer_out := ev\<rparr>)))))"

text \<open>
  \<open>InferHelper\<close>: \<open>backends h\<close> is the backend of a handle, and its metric reporter is the one of the
  statistics from then on. An error is the reply of the caller; a server that is not ready answers at once.
\<close>

definition InferHelper ::
  "'ev http_env \<Rightarrow> (nat \<Rightarrow> inference_backend) \<Rightarrow> string \<Rightarrow> int \<Rightarrow> request_header \<Rightarrow> model_infer_stats \<Rightarrow>
   scoped_timer \<Rightarrow> 'ev evhtp_request \<Rightarrow> inference_server \<Rightarrow>
   (nat option \<times> model_infer_stats \<times> request_header \<times> (status + 'ev infer_result \<times> inference_server)) outcome" where
  "InferHelper env backends model_name model_version request_header infer_stats timer req sv =
     (case InferBackendHandle_Create sv model_name model_version of
        Thrown \<Rightarrow> Thrown
      | Returned (st, None) \<Rightarrow> Returned (None, infer_stats, request_header, Inl st)
      | Returned (st, Some h) \<Rightarrow>
          Returned
            (let is = backends h; (st1, hdr) = NormalizeRequestHeader is request_header in
             if \<not> IsOk st1 then (Some h, infer_stats, hdr, Inl st1)
             else
               (let (st2, input_map) = EVBufferToInputMap (hq_peek_count req) (hq_peek req) model_name hdr Map.empty in
                if \<not> IsOk st2 then (Some h, infer_stats, hdr, Inl st2)
                else
                  (case provider_Create model_name model_version hdr input_map of
                     Inl e \<Rightarrow> (Some h, infer_stats, hdr, Inl e)
                   | Inr request_provider \<Rightarrow>
                       (let stats = infer_stats\<lparr>st_batch_size := ucast (rh_batch_size hdr)\<rparr>;
                            iq = \<lparr>iq_req = req, iq_id = rh_id hdr, iq_request_provider = request_provider,
                                  iq_response_provider = http_Create (hq_buffer_out req) hdr (ib_label_provider is),
                                  iq_infer_stats = stats, iq_timer = timer\<rparr>
                        in (Some h, stats, hdr,
                            Inr (case HandleInfer sv of
                                   (Infer_done rs, sv1) \<Rightarrow> (Infer_replied (http_FinalizeResponse env rs iq), sv1)
                                 | (Infer_running request_id, sv1) \<Rightarrow> (Infer_paused request_id h iq, sv1))))))))"

text \<open>The statistics are reported when their last owner is gone, after the timer.\<close>

definition finish_stats ::
  "timespec \<Rightarrow> int option \<Rightarrow> scoped_timer \<Rightarrow> model_infer_stats \<Rightarrow> inference_server \<Rightarrow> inference_server" where
  "finish_stats now reporter timer stats sv =
     sv\<lparr>sv_status := ModelInferStats_destroy reporter (timer_destroy now timer stats) (sv_status sv)\<rparr>"

definition stats_reporter :: "(nat \<Rightarrow> int option) \<Rightarrow> nat option \<Rightarrow> int option" where
  "stats_reporter reporter h = (case h of None \<Rightarrow> None | Some h \<Rightarrow> reporter h)"

definition http_HandleInfer ::
  "'ev http_env \<Rightarrow> (nat \<Rightarrow> inference_backend) \<Rightarrow> (nat \<Rightarrow> int option) \<Rightarrow> timespec \<Rightarrow> timespec \<Rightarrow> 'ev evhtp_request \<Rightarrow>
   string \<Rightarrow> inference_server \<Rightarrow> ('ev infer_result \<times> inference_server) outcome" where
  "http_HandleInfer env backends reporter start now req infer_uri sv =
     (if hq_method req \<noteq> htp_method_POST then
        Returned (Infer_replied (send_reply EVHTP_RES_METHNALLOWED req), sv)
      else
        (case (if infer_uri = [] then Some ([], []) else match_infer infer_uri) of
           None \<Rightarrow> Returned (Infer_replied (send_reply EVHTP_RES_BADREQ req), sv)
         | Some (model_name, model_version_str) \<Rightarrow>
             (let model_version = (if model_version_str \<noteq> [] then atoll model_version_str else - 1);
                  timer = StartTimer Request_duration start ScopedTimer;
                  infer_stats = (ModelInferStats model_name)\<lparr>st_requested_model_version := model_version\<rparr>;
                  request_header = he_parse_request env
                    (case hq_header_in req header_infer_request of None \<Rightarrow> [] | Some s \<Rightarrow> s)
              in case InferHelper env backends model_name model_version request_header infer_stats timer req sv of
                   Thrown \<Rightarrow> Thrown
                 | Returned (h, stats, hdr, Inr (Infer_replied reply, sv1)) \<Rightarrow>
                     Returned (Infer_replied reply, finish_stats now (stats_reporter reporter h) timer stats sv1)
                 | Returned (h, stats, hdr, Inr (Infer_paused request_id h' iq, sv1)) \<Rightarrow>
                     Returned (Infer_paused request_id h' iq, sv1)
                 | Returned (h, stats, hdr, Inl st) \<Rightarrow>
                     (let rs = RequestStatus_Create_status request_status_clear 0 (sv_id sv) st
                      in Returned
                           (Infer_replied (send_reply (status_code rs)
                              (add_header header_content_type octet_stream
                                (add_header header_status (he_status_text env rs)
                                  (add_header header_infer_response
                                    (he_header_text env (response_header_clear\<lparr>sh_id := rh_id hdr\<rparr>)) req)))),
                            finish_stats now (stats_reporter reporter h) timer (stats\<lparr>st_failed := True\<rparr>) sv)))))"

section \<open>Dispatch\<close>

definition Handle ::
  "'ev http_env \<Rightarrow> (nat \<Rightarrow> inference_backend) \<Rightarrow> (nat \<Rightarrow> int option) \<Rightarrow> timespec \<Rightarrow> timespec \<Rightarrow> status \<Rightarrow> status \<Rightarrow>
   string list \<Rightarrow> 'ev evhtp_request \<Rightarrow> inference_server \<Rightarrow> ('ev infer_result \<times> inference_server) outcome" where
  "Handle env backends reporter start now start_all stop_all endpoint_names req sv =
     (case match_api (hq_path req) of
        None \<Rightarrow> Returned (Infer_replied (send_reply EVHTP_RES_BADREQ req), sv)
      | Some (endpoint, rest) \<Rightarrow>
          (if endpoint \<notin> set endpoint_names then
             Returned (Infer_replied (send_reply EVHTP_RES_BADREQ req), sv)
           else if endpoint = ''status'' then
             (case http_HandleStatus env start now req rest sv of
                Thrown \<Rightarrow> Thrown
              | Returned (reply, sv1) \<Rightarrow> Returned (Infer_replied reply, sv1))
           else if endpoint = ''health'' then
             (let (reply, sv1) = http_HandleHealth env start now req rest sv in Returned (Infer_replied reply, sv1))
           else if endpoint = ''profile'' then
             (let (reply, sv1) = http_HandleProfile env start now start_all stop_all req rest sv
              in Returned (Infer_replied reply, sv1))
           else http_HandleInfer env backends reporter start now req rest sv))"

text \<open>The completion of a paused request, once the backend and the server are done with it.\<close>

definition http_complete ::
  "'ev http_env \<Rightarrow> int option \<Rightarrow> timespec \<Rightarrow> request_status \<Rightarrow> model_infer_stats \<Rightarrow> 'ev infer_request \<Rightarrow>
   inference_server \<Rightarrow> 'ev http_reply \<times> inference_server" where
  "http_complete env reporter now rs stats iq sv =
     (http_FinalizeResponse env rs iq, release_inflight (finish_stats now reporter (iq_timer iq) stats sv))"

section \<open>The HTTP servers\<close>

text \<open>\<open>ports\<close> is the map from ports to endpoint names, in the order of the ports.\<close>

definition HTTPServer_Create :: "(int \<times> string list) list \<Rightarrow> status + (int \<times> string list) list" where
  "HTTPServer_Create port_map =
     (if port_map = [] then
        Inl (Status INVALID_ARG (''HTTP is enabled but none of the service endpoints have a valid port '' @
          ''assignment''))
      else Inr port_map)"

record http_server =
  hs_port :: int
  hs_endpoints :: "string list"
  hs_running :: bool

definition http_Start :: "http_server \<Rightarrow> status \<times> http_server" where
  "http_Start hs =
     (if \<not> hs_running hs then (Status_Success, hs\<lparr>hs_running := True\<rparr>)
      else (Status ALREADY_EXISTS ''HTTP server is already running.'', hs))"

definition http_Stop :: "http_server \<Rightarrow> status \<times> http_server" where
  "http_Stop hs =
     (if hs_running hs then (Status_Success, hs\<lparr>hs_running := False\<rparr>)
      else (Status UNAVAILABLE ''HTTP server is not running.'', hs))"

end
