(* ===== verification/Client_Input.thy ===== *)
theory Client_Input
  imports System_Memory Server_Status
begin

text \<open>
  The C++ client library, \<open>src/clients/c++/request.cc\<close> and \<open>request_common.cc\<close>: the \<open>Error\<close> value,
  the options of a request and the input tensors (\<open>InputImpl\<close>). An input keeps pointers to buffers
  of its user, and to strings of its own; the memory is explicit, so that it shows when a
  pointer outlives what it points to.
\<close>

section \<open>Errors\<close>

record client_error =
  ce_code :: request_status_code
  ce_msg :: string
  ce_server_id :: string
  ce_request_id :: "64 word"

definition Error_msg :: "request_status_code \<Rightarrow> string \<Rightarrow> client_error" where
  "Error_msg code msg = \<lparr>ce_code = code, ce_msg = msg, ce_server_id = [], ce_request_id = 0\<rparr>"

definition Error_code :: "request_status_code \<Rightarrow> client_error" where
  "Error_code code = \<lparr>ce_code = code, ce_msg = [], ce_server_id = [], ce_request_id = 0\<rparr>"

definition Error_Success :: client_error where
  "Error_Success = Error_code SUCCESS"

definition Error_status :: "request_status \<Rightarrow> client_error" where
  "Error_status status =
     (Error_msg (rs_code status) (rs_msg status))\<lparr>ce_server_id := rs_server_id status,
        ce_request_id := rs_request_id status\<rparr>"

definition Error_IsOk :: "client_error \<Rightarrow> bool" where
  "Error_IsOk e \<longleftrightarrow> ce_code e = SUCCESS"

lemma Error_IsOk_simps [simp]:
  "Error_IsOk (Error_msg code msg) \<longleftrightarrow> code = SUCCESS" "Error_IsOk (Error_code code) \<longleftrightarrow> code = SUCCESS"
  "Error_IsOk Error_Success" "Error_IsOk (Error_status st) \<longleftrightarrow> rs_code st = SUCCESS"
  by (simp_all add: Error_IsOk_def Error_msg_def Error_code_def Error_Success_def Error_status_def)

section \<open>Memory\<close>

text \<open>The live blocks by address. A read of a block that was freed, or beyond a block, has no value.\<close>

record client_memory =
  cm_blocks :: "nat \<rightharpoonup> bytes"
  cm_next :: nat

definition allocate :: "bytes \<Rightarrow> client_memory \<Rightarrow> nat \<times> client_memory" where
  "allocate bs m =
     (cm_next m, m\<lparr>cm_blocks := (cm_blocks m)(cm_next m \<mapsto> bs), cm_next := Suc (cm_next m)\<rparr>)"

definition free_blocks :: "nat list \<Rightarrow> client_memory \<Rightarrow> client_memory" where
  "free_blocks as m = m\<lparr>cm_blocks := (cm_blocks m) |` (- set as)\<rparr>"

definition read_block :: "client_memory \<Rightarrow> nat \<Rightarrow> nat \<Rightarrow> nat \<Rightarrow> bytes option" where
  "read_block m a pos n =
     (case cm_blocks m a of
        None \<Rightarrow> None
      | Some bs \<Rightarrow> if pos + n \<le> length bs then Some (take n (drop pos bs)) else None)"

section \<open>\<open>InputImpl\<close>\<close>

record input_impl =
  ii_mio :: model_input
  ii_byte_size :: int
  ii_total_byte_size :: "64 word"
  ii_needs_shape :: bool
  ii_shape :: "int list"
  ii_batch_size :: "64 word"
  ii_bufs_idx :: nat
  ii_buf_pos :: "64 word"
  ii_bufs :: "nat list"
  ii_buf_byte_sizes :: "64 word list"
  ii_str_bufs :: "nat list"

definition ii_Name :: "input_impl \<Rightarrow> string" where
  "ii_Name i = mi_name (ii_mio i)"

definition ii_DType :: "input_impl \<Rightarrow> data_type" where
  "ii_DType i = mi_data_type (ii_mio i)"

definition InputImpl :: "model_input \<Rightarrow> input_impl" where
  "InputImpl mio =
     (let variable = (GetElementCount_input mio = -1) in
      \<lparr>ii_mio = mio, ii_byte_size = (if variable then -1 else GetByteSize_input mio),
       ii_total_byte_size = 0, ii_needs_shape = variable, ii_shape = [], ii_batch_size = 0,
       ii_bufs_idx = 0, ii_buf_pos = 0, ii_bufs = [], ii_buf_byte_sizes = [], ii_str_bufs = []\<rparr>)"

text \<open>The copy has strings of its own, but the pointers of the original.\<close>

fun copy_blocks_to :: "nat list \<Rightarrow> client_memory \<Rightarrow> nat list \<times> client_memory" where
  "copy_blocks_to [] m = ([], m)"
| "copy_blocks_to (a # as) m =
     (let (a', m1) = allocate (case cm_blocks m a of None \<Rightarrow> [] | Some bs \<Rightarrow> bs) m;
          (as', m2) = copy_blocks_to as m1
      in (a' # as', m2))"

definition InputImpl_copy :: "input_impl \<Rightarrow> client_memory \<Rightarrow> input_impl \<times> client_memory" where
  "InputImpl_copy obj m =
     (let (str_bufs, m1) = copy_blocks_to (ii_str_bufs obj) m
      in (obj\<lparr>ii_bufs_idx := 0, ii_buf_pos := 0, ii_str_bufs := str_bufs\<rparr>, m1))"

definition clear_bufs :: "input_impl \<Rightarrow> client_memory \<Rightarrow> input_impl \<times> client_memory" where
  "clear_bufs i m =
     (i\<lparr>ii_bufs := [], ii_buf_byte_sizes := [], ii_str_bufs := []\<rparr>, free_blocks (ii_str_bufs i) m)"

definition SetShape :: "int list \<Rightarrow> input_impl \<Rightarrow> client_error \<times> input_impl" where
  "SetShape dims i =
     (case find (\<lambda>dim. dim < 0) dims of
        Some dim \<Rightarrow>
          (Error_msg INVALID_ARG (''attempt to set invalid shape dimension '' @ show_int dim @
             '', shape dimensions must be >= 0 for input '' @ [CHR 0x27] @ ii_Name i), i)
      | None \<Rightarrow>
          (Error_Success,
           i\<lparr>ii_needs_shape := False, ii_shape := dims, ii_byte_size := GetByteSize (ii_DType i) dims\<rparr>))"

definition shape_missing :: "input_impl \<Rightarrow> client_error" where
  "shape_missing i =
     Error_msg INVALID_ARG (''must set shape for variable-size input '' @ quote (ii_Name i) @
       '' before setting input data'')"

definition SetRaw ::
  "nat \<Rightarrow> 64 word \<Rightarrow> input_impl \<Rightarrow> client_memory \<Rightarrow> client_error \<times> input_impl \<times> client_memory" where
  "SetRaw a input_byte_size i m =
     (if ii_needs_shape i then (shape_missing i, clear_bufs i m)
      else if IsFixedSizeDataType (ii_DType i) \<and> input_byte_size \<noteq> word_of_int (ii_byte_size i) then
        (Error_msg INVALID_ARG (''invalid size '' @ show_nat (unat input_byte_size) @ '' bytes for input '' @
           quote (ii_Name i) @ '', expects '' @ show_int (ii_byte_size i) @ '' bytes''), clear_bufs i m)
      else if length (ii_bufs i) \<ge> unat (ii_batch_size i) then
        (Error_msg INVALID_ARG (''expecting '' @ show_nat (unat (ii_batch_size i)) @
           '' invocations of SetRaw for input '' @ quote (ii_Name i) @ '', one per batch entry''), clear_bufs i m)
      else
        (Error_Success,
         i\<lparr>ii_total_byte_size := ii_total_byte_size i + input_byte_size, ii_bufs := ii_bufs i @ [a],
           ii_buf_byte_sizes := ii_buf_byte_sizes i @ [input_byte_size]\<rparr>, m))"

text \<open>A string is its length in four bytes, the least first, and its characters.\<close>

definition le32 :: "32 word \<Rightarrow> bytes" where
  "le32 w = map (\<lambda>k. ucast (drop_bit (8 * k) w)) [0, 1, 2, 3]"

definition serialize_string :: "bytes \<Rightarrow> bytes" where
  "serialize_string str = le32 (of_nat (length str)) @ str"

definition SetFromString ::
  "bytes list \<Rightarrow> input_impl \<Rightarrow> client_memory \<Rightarrow> client_error \<times> input_impl \<times> client_memory" where
  "SetFromString input i m =
     (if ii_DType i \<noteq> TYPE_STRING then
        (Error_msg INVALID_ARG (''non-string tensor '' @ quote (ii_Name i) @
           '' cannot be set from string data''), clear_bufs i m)
      else if ii_needs_shape i then (shape_missing i, i, m)
      else
        (let element_count = (if ii_shape i \<noteq> [] then GetElementCount (ii_shape i)
                              else GetElementCount_input (ii_mio i)) in
         if of_nat (length input) \<noteq> (word_of_int element_count :: 64 word) then
           (Error_msg INVALID_ARG (''expecting '' @ show_int element_count @ '' strings for input '' @
              quote (ii_Name i) @ '', got '' @ show_nat (length input)), clear_bufs i m)
         else
           (let (a, m1) = allocate (concat (map serialize_string input)) m in
            SetRaw a (of_nat (length (concat (map serialize_string input))))
              (i\<lparr>ii_str_bufs := ii_str_bufs i @ [a]\<rparr>) m1)))"

text \<open>The loop of \<open>GetNext\<close>; the number of bytes copied is the length of \<open>acc\<close>.\<close>

function get_next_loop ::
  "client_memory \<Rightarrow> 64 word \<Rightarrow> bytes \<Rightarrow> input_impl \<Rightarrow> (bytes \<times> input_impl) option" where
  "get_next_loop m sz acc i =
     (if ii_bufs_idx i < length (ii_bufs i) \<and> sz > 0 then
        (let buf_byte_size = ii_buf_byte_sizes i ! ii_bufs_idx i;
             csz = min (buf_byte_size - ii_buf_pos i) sz in
         case (if csz > 0 then read_block m (ii_bufs i ! ii_bufs_idx i) (unat (ii_buf_pos i)) (unat csz)
               else Some []) of
           None \<Rightarrow> None
         | Some bs \<Rightarrow>
             (let pos = ii_buf_pos i + csz in
              get_next_loop m (sz - csz) (acc @ bs)
                (if pos = buf_byte_size then i\<lparr>ii_bufs_idx := Suc (ii_bufs_idx i), ii_buf_pos := 0\<rparr>
                 else i\<lparr>ii_buf_pos := pos\<rparr>)))
      else Some (acc, i))"
  by pat_completeness auto

lemma csz_zero:
  fixes n p s :: "64 word"
  assumes "\<not> 0 < min (n - p) s" and "0 < s"
  shows "p = n"
proof -
  have "min (n - p) s = 0"
    by (rule ccontr) (use assms(1) word_neq_0_conv in metis)
  then have "n - p = 0"
    using assms(2) by (metis min_def order_less_irrefl)
  then show ?thesis
    by simp
qed

lemma csz_less:
  fixes c s :: "64 word"
  assumes "0 < c" and "c \<le> s"
  shows "unat (s - c) < unat s"
  using assms by (simp add: unat_sub word_le_nat_alt word_less_nat_alt)

termination get_next_loop
proof (relation "measure (\<lambda>(m, sz, acc, i). unat sz + (length (ii_bufs i) - ii_bufs_idx i))")
  show "wf (measure (\<lambda>(m :: client_memory, sz :: 64 word, acc :: bytes, i :: input_impl). unat sz + (length (ii_bufs i) - ii_bufs_idx i)))"
    by simp
next
  fix m :: client_memory and sz acc i n csz bs pos
  assume *: "ii_bufs_idx i < length (ii_bufs i) \<and> 0 < sz" "n = ii_buf_byte_sizes i ! ii_bufs_idx i"
    "csz = min (n - ii_buf_pos i) sz" "pos = ii_buf_pos i + csz"
  show "((m, sz - csz, acc @ bs,
      if pos = n then i\<lparr>ii_bufs_idx := Suc (ii_bufs_idx i), ii_buf_pos := 0\<rparr> else i\<lparr>ii_buf_pos := pos\<rparr>), m, sz, acc, i)
      \<in> measure (\<lambda>(m, sz, acc, i). unat sz + (length (ii_bufs i) - ii_bufs_idx i))"
  proof (cases "0 < csz")
    case True
    then have "unat (sz - csz) < unat sz"
      using csz_less [of csz sz] *(3) by simp
    then show ?thesis
      by auto
  next
    case False
    then have "csz = 0" "ii_buf_pos i = n"
      using csz_zero [of n "ii_buf_pos i" sz] * word_neq_0_conv [of csz] by metis+
    then show ?thesis
      using * by auto
  qed
qed

declare get_next_loop.simps [simp del]

definition input_GetNext :: "client_memory \<Rightarrow> 64 word \<Rightarrow> input_impl \<Rightarrow> (bytes \<times> bool \<times> input_impl) option" where
  "input_GetNext m sz i =
     (case get_next_loop m sz [] i of
        None \<Rightarrow> None
      | Some (bs, i1) \<Rightarrow> Some (bs, ii_bufs_idx i1 \<ge> length (ii_bufs i1), i1))"

text \<open>\<open>GetRaw\<close> of an input; the vectors are read at the index without a check of their length.\<close>

definition input_GetRaw :: "64 word \<Rightarrow> input_impl \<Rightarrow> client_error + (nat \<times> 64 word) option" where
  "input_GetRaw batch_idx i =
     (if batch_idx \<ge> ii_batch_size i then
        Inl (Error_msg INVALID_ARG (''unexpected batch entry '' @ show_nat (unat batch_idx) @
          '' requested for input '' @ quote (ii_Name i) @ '', batch size is '' @
          show_nat (unat (ii_batch_size i))))
      else if unat batch_idx < length (ii_bufs i) then
        Inr (Some (ii_bufs i ! unat batch_idx, ii_buf_byte_sizes i ! unat batch_idx))
      else Inr None)"

definition input_Reset :: "input_impl \<Rightarrow> client_memory \<Rightarrow> client_error \<times> input_impl \<times> client_memory" where
  "input_Reset i m =
     (let (i1, m1) = clear_bufs i m in
      (Error_Success, i1\<lparr>ii_bufs_idx := 0, ii_buf_pos := 0, ii_total_byte_size := 0\<rparr>, m1))"

definition PrepareForRequest :: "input_impl \<Rightarrow> client_error \<times> input_impl" where
  "PrepareForRequest i =
     (if length (ii_bufs i) \<noteq> unat (ii_batch_size i) then
        (Error_msg INVALID_ARG (''expecting '' @ show_nat (unat (ii_batch_size i)) @
           '' invocations of SetRaw for input '' @ quote (ii_Name i) @ '', have '' @
           show_nat (length (ii_bufs i))), i)
      else (Error_Success, i\<lparr>ii_bufs_idx := 0, ii_buf_pos := 0\<rparr>))"

section \<open>Options\<close>

datatype result_format = RAW | CLASS

record output_impl =
  oi_mio :: model_output
  oi_result_format :: result_format

definition OutputImpl :: "model_output \<Rightarrow> output_impl" where
  "OutputImpl mio = \<lparr>oi_mio = mio, oi_result_format = RAW\<rparr>"

text \<open>An output of the options is known by its index in the context; the count is for a class result.\<close>

record options_impl =
  oo_flags :: "32 word"
  oo_batch_size :: "64 word"
  oo_outputs :: "(nat \<times> result_format \<times> 64 word) list"

definition OptionsImpl :: options_impl where
  "OptionsImpl = \<lparr>oo_flags = 0, oo_batch_size = 0, oo_outputs = []\<rparr>"

definition options_Flag :: "32 word \<Rightarrow> options_impl \<Rightarrow> bool" where
  "options_Flag flag o' = (if flag = 0 then False else and (oo_flags o') flag \<noteq> 0)"

definition options_SetFlag :: "32 word \<Rightarrow> bool \<Rightarrow> options_impl \<Rightarrow> options_impl" where
  "options_SetFlag flag b o' =
     (if flag \<noteq> 0 then
        (if b then o'\<lparr>oo_flags := or (oo_flags o') flag\<rparr>
         else o'\<lparr>oo_flags := and (oo_flags o') (not flag)\<rparr>)
      else o')"

definition AddRawResult :: "nat \<Rightarrow> options_impl \<Rightarrow> options_impl" where
  "AddRawResult out o' = o'\<lparr>oo_outputs := oo_outputs o' @ [(out, RAW, 0)]\<rparr>"

definition AddClassResult :: "nat \<Rightarrow> 64 word \<Rightarrow> options_impl \<Rightarrow> options_impl" where
  "AddClassResult out k o' = o'\<lparr>oo_outputs := oo_outputs o' @ [(out, CLASS, k)]\<rparr>"

end
