(* ===== verification/Client_Result.thy ===== *)
theory Client_Result
  imports Client_Input Response_Provider
begin

text \<open>
  \<open>ResultImpl\<close> of \<open>src/clients/c++/request_common.cc\<close>: an output tensor as the client gets it, filled
  from the bytes of the response in whatever pieces they arrive. A pointer is the list of the
  bytes from it on; what memory holds beyond a buffer is an argument of the operation that reads it.
\<close>

record result_impl =
  re_name :: string
  re_result_format :: result_format
  re_batch_size :: nat
  re_has_fixed_batch1_byte_size :: bool
  re_batch1_byte_size :: "64 word"
  re_batch1_element_count :: nat
  re_shape :: "int list"
  re_inplace :: bool
  re_inplace_ptrs :: "bytes list"
  re_buffers :: "bytes list"
  re_bufs_idx :: nat
  re_bufs_pos :: "64 word list"
  re_bufs_byte_size :: "64 word list"
  re_pending :: bytes
  re_model_name :: string
  re_model_version :: int
  re_class_result :: response_output
  re_class_pos :: "nat list"

definition response_output_clear :: response_output where
  "response_output_clear = \<lparr>so_name = [], so_raw = None, so_batch_classes = []\<rparr>"

text \<open>The model version is not initialised by the constructor; \<open>garbage\<close> is its value.\<close>

definition ResultImpl :: "int \<Rightarrow> output_impl \<Rightarrow> nat \<Rightarrow> result_impl" where
  "ResultImpl garbage out batch_size =
     \<lparr>re_name = mo_name (oi_mio out), re_result_format = oi_result_format out, re_batch_size = batch_size,
      re_has_fixed_batch1_byte_size = False, re_batch1_byte_size = 0, re_batch1_element_count = 0,
      re_shape = [], re_inplace = False, re_inplace_ptrs = replicate batch_size [],
      re_buffers = replicate batch_size [], re_bufs_idx = 0, re_bufs_pos = replicate batch_size 0,
      re_bufs_byte_size = replicate batch_size 0, re_pending = [], re_model_name = [],
      re_model_version = garbage, re_class_result = response_output_clear,
      re_class_pos = replicate batch_size 0\<rparr>"

definition SetBatchnByteSize :: "64 word \<Rightarrow> result_impl \<Rightarrow> result_impl" where
  "SetBatchnByteSize s r =
     r\<lparr>re_has_fixed_batch1_byte_size := True, re_batch1_byte_size := s div of_nat (re_batch_size r)\<rparr>"

definition SetBatch1Shape :: "int list \<Rightarrow> result_impl \<Rightarrow> result_impl" where
  "SetBatch1Shape dims r =
     r\<lparr>re_shape := dims, re_batch1_element_count := nat (wrap_u64 (GetElementCount dims))\<rparr>"

section \<open>Filling a result\<close>

definition save_bytes :: "bytes \<Rightarrow> nat \<Rightarrow> result_impl \<Rightarrow> result_impl" where
  "save_bytes buf csz r =
     (let k = re_bufs_idx r;
          r1 = (if re_inplace r then r\<lparr>re_inplace_ptrs := (re_inplace_ptrs r)[k := buf]\<rparr>
                else r\<lparr>re_buffers := (re_buffers r)[k := re_buffers r ! k @ take csz buf]\<rparr>)
      in r1\<lparr>re_bufs_pos := (re_bufs_pos r)[k := re_bufs_pos r ! k + of_nat csz],
            re_bufs_byte_size := (re_bufs_byte_size r)[k := re_bufs_byte_size r ! k + of_nat csz]\<rparr>)"

function set_batch_loop :: "64 word \<Rightarrow> bytes \<Rightarrow> nat \<Rightarrow> result_impl \<Rightarrow> nat \<times> result_impl" where
  "set_batch_loop batch1_byte_size buf total_size r =
     (if re_bufs_idx r < length (re_buffers r) \<and> buf \<noteq> [] then
        (let csz = min (unat (batch1_byte_size - re_bufs_pos r ! re_bufs_idx r)) (length buf);
             r1 = (if csz > 0 then save_bytes buf csz r else r);
             r2 = (if re_bufs_pos r1 ! re_bufs_idx r1 = batch1_byte_size
                   then r1\<lparr>re_bufs_idx := Suc (re_bufs_idx r1)\<rparr> else r1)
         in set_batch_loop batch1_byte_size (drop csz buf) (total_size + csz) r2)
      else (total_size, r))"
  by pat_completeness auto

lemma save_bytes_sel [simp]:
  "length (re_buffers (save_bytes buf csz r)) = length (re_buffers r)"
  "re_bufs_idx (save_bytes buf csz r) = re_bufs_idx r"
  by (simp_all add: save_bytes_def Let_def)

termination set_batch_loop
proof (relation "measure (\<lambda>(b1, buf, total_size, r). length buf + (length (re_buffers r) - re_bufs_idx r))")
  show "wf (measure (\<lambda>(b1 :: 64 word, buf :: bytes, total_size :: nat, r :: result_impl). length buf + (length (re_buffers r) - re_bufs_idx r)))"
    by simp
next
  fix b1 :: "64 word" and buf :: bytes and total_size :: nat and r :: result_impl and csz r1 r2
  assume *: "re_bufs_idx r < length (re_buffers r) \<and> buf \<noteq> []"
    "csz = min (unat (b1 - re_bufs_pos r ! re_bufs_idx r)) (length buf)"
    "r1 = (if 0 < csz then save_bytes buf csz r else r)"
    "r2 = (if re_bufs_pos r1 ! re_bufs_idx r1 = b1 then r1\<lparr>re_bufs_idx := Suc (re_bufs_idx r1)\<rparr> else r1)"
  show "((b1, drop csz buf, total_size + csz, r2), b1, buf, total_size, r)
      \<in> measure (\<lambda>(b1, buf, total_size, r). length buf + (length (re_buffers r) - re_bufs_idx r))"
  proof (cases "0 < csz")
    case True
    then have "length (drop csz buf) < length buf"
      using * by simp
    moreover have "length (re_buffers r2) = length (re_buffers r)" "re_bufs_idx r \<le> re_bufs_idx r2"
      using *(3,4) by auto
    ultimately show ?thesis
      by (simp add: add_less_le_mono diff_le_mono2)
  next
    case False
    then have "unat (b1 - re_bufs_pos r ! re_bufs_idx r) = 0"
      using * by (auto simp: min_def split: if_splits)
    then have "re_bufs_pos r ! re_bufs_idx r = b1"
      by (simp add: unat_eq_zero)
    then show ?thesis
      using * False by auto
  qed
qed

declare set_batch_loop.simps [simp del]

definition SetBatchRawResult :: "64 word \<Rightarrow> bytes \<Rightarrow> result_impl \<Rightarrow> nat \<times> result_impl" where
  "SetBatchRawResult batch1_byte_size buf r =
     set_batch_loop batch1_byte_size buf 0
       (if batch1_byte_size = 0 then r\<lparr>re_bufs_idx := length (re_buffers r)\<rparr> else r)"

text \<open>
  The lengths of the strings are read from the buffer without a test that it has them; \<open>beyond k\<close> is
  the byte that the memory has at offset \<open>k\<close> of a buffer that ends before.
\<close>

definition byte_at :: "(nat \<Rightarrow> 8 word) \<Rightarrow> bytes \<Rightarrow> nat \<Rightarrow> 8 word" where
  "byte_at beyond buf k = (if k < length buf then buf ! k else beyond k)"

definition read_len :: "(nat \<Rightarrow> 8 word) \<Rightarrow> bytes \<Rightarrow> nat \<Rightarrow> nat" where
  "read_len beyond buf off =
     unat (horner_sum ucast 256 (map (\<lambda>k. byte_at beyond buf (off + k)) [0..<4]) :: 32 word)"

fun elements_loop :: "(nat \<Rightarrow> 8 word) \<Rightarrow> bytes \<Rightarrow> nat \<Rightarrow> nat \<Rightarrow> nat \<Rightarrow> nat \<times> nat" where
  "elements_loop beyond buf 0 batch_byte_size buf_offset = (batch_byte_size, buf_offset)"
| "elements_loop beyond buf (Suc e) batch_byte_size buf_offset =
     (let len = read_len beyond buf buf_offset;
          buf_offset1 = buf_offset + (4 + len)
      in if buf_offset1 > length buf then (batch_byte_size + (4 + len), buf_offset1)
         else elements_loop beyond buf e (batch_byte_size + (4 + len)) buf_offset1)"

fun batches_loop :: "(nat \<Rightarrow> 8 word) \<Rightarrow> bytes \<Rightarrow> nat \<Rightarrow> nat \<Rightarrow> nat \<Rightarrow> nat list \<Rightarrow> nat list \<times> nat" where
  "batches_loop beyond buf element_count 0 buf_offset batch_byte_sizes = (batch_byte_sizes, buf_offset)"
| "batches_loop beyond buf element_count (Suc b) buf_offset batch_byte_sizes =
     (let (batch_byte_size, buf_offset1) = elements_loop beyond buf element_count 0 buf_offset
      in if buf_offset1 > length buf then (batch_byte_sizes, buf_offset1)
         else batches_loop beyond buf element_count b buf_offset1 (batch_byte_sizes @ [batch_byte_size]))"

fun assign_batches :: "nat list \<Rightarrow> bytes \<Rightarrow> result_impl \<Rightarrow> client_error \<times> result_impl" where
  "assign_batches [] buf r = (Error_Success, r)"
| "assign_batches (sz # szs) buf r =
     (let (batch1_result_bytes, r1) = SetBatchRawResult (of_nat sz) (take sz buf) r
      in if batch1_result_bytes \<noteq> sz then
           (Error_msg INTERNAL (''output '' @ quote (re_name r) @ '' expecting batch size '' @ show_nat sz @
              '' for non-fixed-sized result, got '' @ show_nat batch1_result_bytes), r1)
         else assign_batches szs (drop sz buf) r1)"

text \<open>
  \<open>SetNextRawResult\<close> returns the error, the number of bytes it took from \<open>buf\<close>, and the result.
  After an error the number is what the caller's variable held before, 0.
\<close>

definition SetNextRawResult ::
  "(nat \<Rightarrow> 8 word) \<Rightarrow> bytes \<Rightarrow> bool \<Rightarrow> result_impl \<Rightarrow> client_error \<times> nat \<times> result_impl" where
  "SetNextRawResult beyond buf inplace r =
     (if inplace \<and> re_inplace r then
        (Error_msg INTERNAL (''in-place results for '' @ quote (re_name r) @
           '' must be delivered in a single continguous buffer''), 0, r)
      else
        (let r1 = r\<lparr>re_inplace := inplace\<rparr> in
         if re_has_fixed_batch1_byte_size r then
           (Error_Success, SetBatchRawResult (re_batch1_byte_size r) buf r1)
         else if re_bufs_idx r = length (re_buffers r) then (Error_Success, 0, r1)
         else
           (let orig_size = length buf;
                (buf1, r2) = (if re_pending r \<noteq> [] then (re_pending r @ buf, r1\<lparr>re_pending := re_pending r @ buf\<rparr>)
                              else (buf, r1));
                (batch_byte_sizes, buf_offset) =
                  batches_loop beyond buf1 (re_batch1_element_count r) (re_batch_size r) 0 []
            in if length batch_byte_sizes < re_batch_size r then
                 (Error_Success, orig_size,
                  if re_pending r2 = [] then r2\<lparr>re_pending := take orig_size buf1\<rparr> else r2)
               else
                 (let (err, r3) = assign_batches batch_byte_sizes buf1 r2
                  in if \<not> Error_IsOk err then (err, 0, r3)
                     else if re_bufs_idx r3 \<noteq> length (re_buffers r3) then
                       (Error_msg INTERNAL (''output '' @ quote (re_name r) @
                          '' failed to set result for entire batch''), 0, r3)
                     else (Error_Success, orig_size - (length buf1 - buf_offset), r3\<lparr>re_pending := []\<rparr>)))))"

section \<open>Reading a result\<close>

definition not_raw :: "result_impl \<Rightarrow> client_error" where
  "not_raw r =
     Error_msg UNSUPPORTED (''raw result not available for non-RAW output '' @ quote (re_name r))"

definition bad_batch :: "nat \<Rightarrow> result_impl \<Rightarrow> client_error" where
  "bad_batch batch_idx r =
     Error_msg INVALID_ARG (''unexpected batch entry '' @ show_nat batch_idx @ '' requested for output '' @
       quote (re_name r) @ '', batch size is '' @ show_nat (re_batch_size r))"

definition GetRawShape :: "result_impl \<Rightarrow> client_error + int list" where
  "GetRawShape r =
     (if re_result_format r \<noteq> RAW then
        Inl (Error_msg UNSUPPORTED (''raw shape not available for non-RAW output '' @ quote (re_name r)))
      else Inr (re_shape r))"

text \<open>The two versions of \<open>GetRaw\<close>: a vector, which is a copy for a result in place, and a pointer.\<close>

definition GetRaw_vector :: "nat \<Rightarrow> result_impl \<Rightarrow> (client_error + bytes) \<times> result_impl" where
  "GetRaw_vector batch_idx r =
     (if re_result_format r \<noteq> RAW then (Inl (not_raw r), r)
      else if batch_idx \<ge> re_batch_size r then (Inl (bad_batch batch_idx r), r)
      else
        (let r1 = (if re_inplace r \<and> re_buffers r ! batch_idx = [] then
                     r\<lparr>re_buffers := (re_buffers r)[batch_idx :=
                         take (unat (re_bufs_byte_size r ! batch_idx)) (re_inplace_ptrs r ! batch_idx)]\<rparr>
                   else r)
         in (Inr (re_buffers r1 ! batch_idx), r1)))"

definition GetRaw :: "nat \<Rightarrow> result_impl \<Rightarrow> client_error + bytes \<times> 64 word" where
  "GetRaw batch_idx r =
     (if re_result_format r \<noteq> RAW then Inl (not_raw r)
      else if batch_idx \<ge> re_batch_size r then Inl (bad_batch batch_idx r)
      else Inr (if re_inplace r then re_inplace_ptrs r ! batch_idx else re_buffers r ! batch_idx,
                re_bufs_byte_size r ! batch_idx))"

definition GetRawAtCursor :: "nat \<Rightarrow> 64 word \<Rightarrow> result_impl \<Rightarrow> (client_error + bytes) \<times> result_impl" where
  "GetRawAtCursor batch_idx adv_byte_size r =
     (if re_result_format r \<noteq> RAW then (Inl (not_raw r), r)
      else if batch_idx \<ge> re_batch_size r then (Inl (bad_batch batch_idx r), r)
      else if re_bufs_pos r ! batch_idx + adv_byte_size > re_bufs_byte_size r ! batch_idx then
        (Inl (Error_msg UNSUPPORTED (''attempt to read beyond end of result for output '' @ quote (re_name r))), r)
      else
        (Inr (drop (unat (re_bufs_pos r ! batch_idx))
                (if re_inplace r then re_inplace_ptrs r ! batch_idx else re_buffers r ! batch_idx)),
         r\<lparr>re_bufs_pos := (re_bufs_pos r)[batch_idx := re_bufs_pos r ! batch_idx + adv_byte_size]\<rparr>))"

text \<open>The cursor over strings, \<open>GetRawAtCursor(size_t, std::string*)\<close>.\<close>

definition GetStringAtCursor :: "nat \<Rightarrow> result_impl \<Rightarrow> (client_error + bytes) \<times> result_impl" where
  "GetStringAtCursor batch_idx r =
     (case GetRawAtCursor batch_idx 4 r of
        (Inl err, r1) \<Rightarrow> (Inl err, r1)
      | (Inr len_ptr, r1) \<Rightarrow>
          (let len = (horner_sum ucast 256 (take 4 len_ptr) :: 32 word) in
           case GetRawAtCursor batch_idx (ucast len) r1 of
             (Inl err, r2) \<Rightarrow> (Inl err, r2)
           | (Inr str_ptr, r2) \<Rightarrow> (Inr (take (unat len) str_ptr), r2)))"

definition not_class :: "result_impl \<Rightarrow> client_error" where
  "not_class r =
     Error_msg UNSUPPORTED (''class result not available for non-CLASS output '' @ quote (re_name r))"

definition GetClassCount :: "nat \<Rightarrow> result_impl \<Rightarrow> client_error + nat" where
  "GetClassCount batch_idx r =
     (if re_result_format r \<noteq> CLASS then Inl (not_class r)
      else if batch_idx \<ge> length (so_batch_classes (re_class_result r)) \<or> batch_idx \<ge> re_batch_size r then
        Inl (bad_batch batch_idx r)
      else Inr (length (so_batch_classes (re_class_result r) ! batch_idx)))"

definition GetClassAtCursor :: "nat \<Rightarrow> result_impl \<Rightarrow> (client_error + class_result) \<times> result_impl" where
  "GetClassAtCursor batch_idx r =
     (if re_result_format r \<noteq> CLASS then (Inl (not_class r), r)
      else if batch_idx \<ge> length (so_batch_classes (re_class_result r)) \<or> batch_idx \<ge> re_batch_size r then
        (Inl (bad_batch batch_idx r), r)
      else
        (let classes = so_batch_classes (re_class_result r) ! batch_idx; pos = re_class_pos r ! batch_idx in
         if pos \<ge> length classes then
           (Inl (Error_msg UNSUPPORTED
              (''attempt to read beyond end of result for output output '' @ quote (re_name r))), r)
         else (Inr (classes ! pos), r\<lparr>re_class_pos := (re_class_pos r)[batch_idx := Suc pos]\<rparr>)))"

definition ResetCursors :: "result_impl \<Rightarrow> result_impl" where
  "ResetCursors r =
     r\<lparr>re_bufs_pos := map (\<lambda>_. 0) (re_bufs_pos r), re_class_pos := map (\<lambda>_. 0) (re_class_pos r)\<rparr>"

definition ResetCursor :: "nat \<Rightarrow> result_impl \<Rightarrow> client_error \<times> result_impl" where
  "ResetCursor batch_idx r =
     (if batch_idx \<ge> re_batch_size r then (bad_batch batch_idx r, r)
      else (Error_Success, r\<lparr>re_bufs_pos := (re_bufs_pos r)[batch_idx := 0],
                             re_class_pos := (re_class_pos r)[batch_idx := 0]\<rparr>))"

section \<open>The results of a request\<close>

text \<open>\<open>PostRunProcessing\<close>: the results are a map by output name.\<close>

definition post_run :: "response_header \<Rightarrow> result_impl \<Rightarrow> result_impl" where
  "post_run infer_response r0 =
     (let r = r0\<lparr>re_model_name := sh_model_name infer_response, re_model_version := sh_model_version infer_response\<rparr> in
      case re_result_format r of
        RAW \<Rightarrow> ResetCursors r
      | CLASS \<Rightarrow>
          (case find (\<lambda>ir. so_name ir = re_name r) (sh_output infer_response) of
             None \<Rightarrow> r
           | Some ir \<Rightarrow> r\<lparr>re_class_result := ir\<rparr>))"

definition PostRunProcessing :: "response_header \<Rightarrow> (string \<rightharpoonup> result_impl) \<Rightarrow> (string \<rightharpoonup> result_impl)" where
  "PostRunProcessing infer_response results = (\<lambda>name. map_option (post_run infer_response) (results name))"

end
