(* ===== verification/Client_Http.thy ===== *)
theory Client_Http
  imports Client_Result
begin

text \<open>
  \<open>InferContextImpl\<close> of \<open>src/clients/c++/request_common.cc\<close> and the HTTP client of \<open>request_http.cc\<close>:
  the context of a model, the header and body of a request, and the response as it arrives. libcurl
  is a parameter: it calls the functions here with the sizes and pieces it chooses; the protobuf
  parsers are parameters too.
\<close>

section \<open>Timers\<close>

record request_timers =
  rt_request_start :: timespec
  rt_request_end :: timespec
  rt_send_start :: timespec
  rt_send_end :: timespec
  rt_receive_start :: timespec
  rt_receive_end :: timespec

datatype timer_kind = REQUEST_START | REQUEST_END | SEND_START | SEND_END | RECEIVE_START | RECEIVE_END

definition RequestTimers_Reset :: request_timers where
  "RequestTimers_Reset =
     \<lparr>rt_request_start = (0, 0), rt_request_end = (0, 0), rt_send_start = (0, 0), rt_send_end = (0, 0),
      rt_receive_start = (0, 0), rt_receive_end = (0, 0)\<rparr>"

fun timer_Record :: "timespec \<Rightarrow> timer_kind \<Rightarrow> request_timers \<Rightarrow> request_timers" where
  "timer_Record now REQUEST_START t = t\<lparr>rt_request_start := now\<rparr>"
| "timer_Record now REQUEST_END t = t\<lparr>rt_request_end := now\<rparr>"
| "timer_Record now SEND_START t = t\<lparr>rt_send_start := now\<rparr>"
| "timer_Record now SEND_END t = t\<lparr>rt_send_end := now\<rparr>"
| "timer_Record now RECEIVE_START t = t\<lparr>rt_receive_start := now\<rparr>"
| "timer_Record now RECEIVE_END t = t\<lparr>rt_receive_end := now\<rparr>"

section \<open>The context of a model\<close>

record context_stat =
  cx_completed_request_count :: "64 word"
  cx_cumulative_total_request_time_ns :: "64 word"
  cx_cumulative_send_time_ns :: "64 word"
  cx_cumulative_receive_time_ns :: "64 word"

record infer_context =
  ic_model_name :: string
  ic_model_version :: int
  ic_correlation_id :: "64 word"
  ic_max_batch_size :: "64 word"
  ic_batch_size :: "64 word"
  ic_async_request_id :: "64 word"
  ic_inputs :: "input_impl list"
  ic_outputs :: "output_impl list"
  ic_infer_request :: request_header
  ic_stat :: context_stat

definition InferContextImpl :: "string \<Rightarrow> int \<Rightarrow> 64 word \<Rightarrow> infer_context" where
  "InferContextImpl model_name model_version correlation_id =
     \<lparr>ic_model_name = model_name, ic_model_version = model_version, ic_correlation_id = correlation_id,
      ic_max_batch_size = 0, ic_batch_size = 0, ic_async_request_id = 1, ic_inputs = [], ic_outputs = [],
      ic_infer_request = request_header_clear,
      ic_stat = \<lparr>cx_completed_request_count = 0, cx_cumulative_total_request_time_ns = 0,
        cx_cumulative_send_time_ns = 0, cx_cumulative_receive_time_ns = 0\<rparr>\<rparr>"

text \<open>\<open>Init\<close>, with what \<open>GetServerStatus\<close> returns.\<close>

definition context_Init :: "client_error + server_status \<Rightarrow> infer_context \<Rightarrow> client_error \<times> infer_context" where
  "context_Init server_status ctx =
     (case server_status of
        Inl err \<Rightarrow> (err, ctx)
      | Inr ss \<Rightarrow>
          (case ss_model_status ss (ic_model_name ctx) of
             None \<Rightarrow>
               (Error_msg INTERNAL (''unable to find status information for '' @ [CHR 0x22] @
                  ic_model_name ctx @ [CHR 0x22]), ctx)
           | Some ms \<Rightarrow>
               (Error_Success,
                ctx\<lparr>ic_max_batch_size := word_of_int (max 0 (mc_max_batch_size (ms_config ms))),
                    ic_inputs := ic_inputs ctx @ map InputImpl (mc_input (ms_config ms)),
                    ic_outputs := ic_outputs ctx @ map OutputImpl (mc_output (ms_config ms))\<rparr>)))"

fun index_of_name :: "('a \<Rightarrow> string) \<Rightarrow> string \<Rightarrow> 'a list \<Rightarrow> nat option" where
  "index_of_name name_of name [] = None"
| "index_of_name name_of name (x # xs) =
     (if name_of x = name then Some 0 else map_option Suc (index_of_name name_of name xs))"

definition context_GetInput :: "infer_context \<Rightarrow> string \<Rightarrow> client_error + nat" where
  "context_GetInput ctx name =
     (case index_of_name ii_Name name (ic_inputs ctx) of
        Some k \<Rightarrow> Inr k
      | None \<Rightarrow> Inl (Error_msg INVALID_ARG (''unknown input '' @ quote name @ '' for '' @ quote (ic_model_name ctx))))"

definition oi_Name :: "output_impl \<Rightarrow> string" where
  "oi_Name out = mo_name (oi_mio out)"

definition context_GetOutput :: "infer_context \<Rightarrow> string \<Rightarrow> client_error + nat" where
  "context_GetOutput ctx name =
     (case index_of_name oi_Name name (ic_outputs ctx) of
        Some k \<Rightarrow> Inr k
      | None \<Rightarrow> Inl (Error_msg INVALID_ARG (''unknown output '' @ quote name @ '' for '' @ quote (ic_model_name ctx))))"

text \<open>The loop over the outputs of the options. An output stands by its index in the context.\<close>

fun add_outputs :: "(nat \<times> result_format \<times> 64 word) list \<Rightarrow> infer_context \<Rightarrow> infer_context" where
  "add_outputs [] ctx = ctx"
| "add_outputs ((k, format, n) # outs) ctx =
     (let out = (ic_outputs ctx ! k)\<lparr>oi_result_format := format\<rparr>;
          routput = \<lparr>ro_name = oi_Name out, ro_cls = (if format = CLASS then Some (ucast n) else None)\<rparr>
      in add_outputs outs
           (ctx\<lparr>ic_outputs := (ic_outputs ctx)[k := out],
                ic_infer_request := (ic_infer_request ctx)
                  \<lparr>rh_output := rh_output (ic_infer_request ctx) @ [routput]\<rparr>\<rparr>))"

definition SetRunOptions :: "options_impl \<Rightarrow> infer_context \<Rightarrow> client_error \<times> infer_context" where
  "SetRunOptions options ctx =
     (let effective_max_batch_size = max 1 (ic_max_batch_size ctx) in
      if oo_batch_size options > effective_max_batch_size then
        (Error_msg INVALID_ARG (''run batch-size '' @ show_nat (unat (oo_batch_size options)) @
           '' exceeds maximum batch size '' @ show_nat (unat effective_max_batch_size) @
           '' allowed for model '' @ quote (ic_model_name ctx)), ctx)
      else
        (let batch_size = max 1 (oo_batch_size options) in
         (Error_Success,
          add_outputs (oo_outputs options)
            (ctx\<lparr>ic_batch_size := batch_size,
                 ic_infer_request := request_header_clear\<lparr>rh_flags := oo_flags options,
                   rh_batch_size := ucast batch_size, rh_correlation_id := ic_correlation_id ctx\<rparr>,
                 ic_inputs := map (\<lambda>io. io\<lparr>ii_batch_size := batch_size\<rparr>) (ic_inputs ctx)\<rparr>))))"

definition UpdateStat :: "request_timers \<Rightarrow> infer_context \<Rightarrow> client_error \<times> infer_context" where
  "UpdateStat timer ctx =
     (let request_start_ns = timespec_ns (rt_request_start timer); request_end_ns = timespec_ns (rt_request_end timer);
          send_start_ns = timespec_ns (rt_send_start timer); send_end_ns = timespec_ns (rt_send_end timer);
          receive_start_ns = timespec_ns (rt_receive_start timer); receive_end_ns = timespec_ns (rt_receive_end timer);
          part = (\<lambda>what a b :: 64 word.
            if a > b then what @ '' time from '' @ show_nat (unat a) @ '' to '' @ show_nat (unat b) @ ''.'' else [])
      in if request_start_ns > request_end_ns \<or> send_start_ns > send_end_ns \<or> receive_start_ns > receive_end_ns then
           (Error_msg INVALID_ARG (''Timer not set correctly.'' @
              part '' Request'' request_start_ns request_end_ns @ part '' Send'' send_start_ns send_end_ns @
              part '' Receive'' receive_start_ns receive_end_ns), ctx)
         else
           (let st = ic_stat ctx in
            (Error_Success, ctx\<lparr>ic_stat :=
               \<lparr>cx_completed_request_count = cx_completed_request_count st + 1,
                cx_cumulative_total_request_time_ns =
                  cx_cumulative_total_request_time_ns st + (request_end_ns - request_start_ns),
                cx_cumulative_send_time_ns = cx_cumulative_send_time_ns st + (send_end_ns - send_start_ns),
                cx_cumulative_receive_time_ns =
                  cx_cumulative_receive_time_ns st + (receive_end_ns - receive_start_ns)\<rparr>\<rparr>)))"

section \<open>An HTTP request\<close>

text \<open>
  The inputs of the synchronous request are those of the context, those of an asynchronous one are
  copies; here the request has them while it is used.
\<close>

record http_request =
  hr_id :: "64 word"
  hr_inputs :: "input_impl list"
  hr_total_input_byte_size :: "64 word"
  hr_input_pos_idx :: nat
  hr_result_pos_idx :: nat
  hr_request_status :: request_status
  hr_response_header :: response_header
  hr_infer_response_buffer :: bytes
  hr_ordered_results :: "result_impl list"
  hr_timer :: request_timers

definition HttpRequestImpl :: "64 word \<Rightarrow> input_impl list \<Rightarrow> http_request" where
  "HttpRequestImpl n inputs =
     \<lparr>hr_id = n, hr_inputs = inputs, hr_total_input_byte_size = 0, hr_input_pos_idx = 0, hr_result_pos_idx = 0,
      hr_request_status = request_status_clear, hr_response_header = response_header_clear,
      hr_infer_response_buffer = [], hr_ordered_results = [], hr_timer = RequestTimers_Reset\<rparr>"

text \<open>What \<open>PrepareForRequest\<close> returns is dropped.\<close>

definition InitializeRequest :: "http_request \<Rightarrow> http_request" where
  "InitializeRequest r =
     r\<lparr>hr_ordered_results := [], hr_infer_response_buffer := [], hr_request_status := request_status_clear,
       hr_response_header := response_header_clear,
       hr_inputs := map (\<lambda>io. snd (PrepareForRequest io)) (hr_inputs r),
       hr_total_input_byte_size := 0, hr_input_pos_idx := 0, hr_result_pos_idx := 0\<rparr>"

lemma get_next_loop_end:
  "get_next_loop m sz acc i = Some (bs, i') \<Longrightarrow>
   ii_bufs i' = ii_bufs i \<and> length acc \<le> length bs \<and> length bs \<le> length acc + unat sz \<and>
   (ii_bufs_idx i' < length (ii_bufs i') \<longrightarrow> length bs = length acc + unat sz)"
proof (induction m sz acc i rule: get_next_loop.induct)
  case (1 m sz acc i)
  show ?case
  proof (cases "ii_bufs_idx i < length (ii_bufs i) \<and> sz > 0")
    case False
    then show ?thesis
      using "1.prems" by (auto simp: get_next_loop.simps [of m sz acc i] word_gt_0)
  next
    case True
    let ?n = "ii_buf_byte_sizes i ! ii_bufs_idx i"
    let ?csz = "min (?n - ii_buf_pos i) sz"
    let ?read = "if ?csz > 0 then read_block m (ii_bufs i ! ii_bufs_idx i) (unat (ii_buf_pos i)) (unat ?csz) else Some []"
    obtain b where b: "?read = Some b"
      using "1.prems" True by (subst (asm) get_next_loop.simps) (auto simp: Let_def split: option.splits)
    have len: "length b = unat ?csz"
      using b word_gt_0 [of ?csz] by (auto simp: read_block_def split: option.splits if_splits)
    have le: "unat ?csz \<le> unat sz"
      by (simp add: word_le_nat_alt [symmetric])
    then have sub: "unat (sz - ?csz) = unat sz - unat ?csz"
      by (simp add: unat_sub)
    let ?i = "if ii_buf_pos i + ?csz = ?n then i\<lparr>ii_bufs_idx := Suc (ii_bufs_idx i), ii_buf_pos := 0\<rparr>
      else i\<lparr>ii_buf_pos := ii_buf_pos i + ?csz\<rparr>"
    have "get_next_loop m (sz - ?csz) (acc @ b) ?i = Some (bs, i')"
      using "1.prems" True b by (subst (asm) get_next_loop.simps) (simp add: Let_def)
    from "1.IH" [OF True refl refl b refl this] len sub le show ?thesis
      by auto
  qed
qed

lemma unat_sub_length:
  fixes sz :: "64 word"
  assumes "n \<le> unat sz"
  shows "unat (sz - of_nat n) = unat sz - n"
proof -
  have "n < 2 ^ LENGTH(64)"
    using order_le_less_trans [OF assms unsigned_less] .
  then have "unat (of_nat n :: 64 word) = n"
    by (simp add: unsigned_of_nat take_bit_nat_eq_self)
  then show ?thesis
    using assms by (subst unat_sub) (simp_all add: word_le_nat_alt)
qed

text \<open>\<open>GetNextInput\<close>, and the read function libcurl calls.\<close>

function next_input_loop ::
  "client_memory \<Rightarrow> 64 word \<Rightarrow> bytes \<Rightarrow> http_request \<Rightarrow> (bytes \<times> http_request) option" where
  "next_input_loop m sz acc r =
     (if sz > 0 \<and> hr_input_pos_idx r < length (hr_inputs r) then
        (case input_GetNext m sz (hr_inputs r ! hr_input_pos_idx r) of
           None \<Rightarrow> None
         | Some (bs, eoi, io) \<Rightarrow>
             next_input_loop m (sz - of_nat (length bs)) (acc @ bs)
               (r\<lparr>hr_inputs := (hr_inputs r)[hr_input_pos_idx r := io],
                  hr_input_pos_idx := (if eoi then Suc (hr_input_pos_idx r) else hr_input_pos_idx r)\<rparr>))
      else Some (acc, r))"
  by pat_completeness auto

termination next_input_loop
proof (relation "measure (\<lambda>(m, sz, acc, r). unat sz + (length (hr_inputs r) - hr_input_pos_idx r))")
  show "wf (measure (\<lambda>(m :: client_memory, sz :: 64 word, acc :: bytes, r :: http_request). unat sz + (length (hr_inputs r) - hr_input_pos_idx r)))"
    by simp
next
  fix m :: client_memory and sz :: "64 word" and acc :: bytes and r :: http_request and x bs y eoi io
  assume r: "0 < sz \<and> hr_input_pos_idx r < length (hr_inputs r)"
    and next': "input_GetNext m sz (hr_inputs r ! hr_input_pos_idx r) = Some x" "(bs, y) = x" "(eoi, io) = y"
  obtain i' where i': "get_next_loop m sz [] (hr_inputs r ! hr_input_pos_idx r) = Some (bs, i')"
    "eoi \<longleftrightarrow> ii_bufs_idx i' \<ge> length (ii_bufs i')"
    using next' by (auto simp: input_GetNext_def split: option.splits)
  have len: "length bs \<le> unat sz"
    using get_next_loop_end [OF i'(1)] by simp
  then have sub: "unat (sz - of_nat (length bs)) = unat sz - length bs"
    by (rule unat_sub_length)
  have full: "\<not> eoi \<Longrightarrow> length bs = unat sz"
    using get_next_loop_end [OF i'(1)] i'(2) by auto
  have "0 < unat sz"
    using r by (simp add: word_gt_0 unat_gt_0)
  then show "((m, sz - of_nat (length bs), acc @ bs, r\<lparr>hr_inputs := (hr_inputs r)[hr_input_pos_idx r := io],
      hr_input_pos_idx := if eoi then Suc (hr_input_pos_idx r) else hr_input_pos_idx r\<rparr>), m, sz, acc, r)
    \<in> measure (\<lambda>(m, sz, acc, r). unat sz + (length (hr_inputs r) - hr_input_pos_idx r))"
    using r sub full by auto
qed

declare next_input_loop.simps [simp del]

definition GetNextInput ::
  "timespec \<Rightarrow> client_memory \<Rightarrow> 64 word \<Rightarrow> http_request \<Rightarrow> (bytes \<times> http_request) option" where
  "GetNextInput now m sz r =
     (case next_input_loop m sz [] r of
        None \<Rightarrow> None
      | Some (bs, r1) \<Rightarrow>
          Some (bs, if hr_input_pos_idx r1 \<ge> length (hr_inputs r1)
                    then r1\<lparr>hr_timer := timer_Record now SEND_END (hr_timer r1)\<rparr> else r1))"

text \<open>\<open>SetNextRawResult\<close> of the request: the bytes that no result takes belong to the response header.\<close>

function set_results_loop ::
  "(nat \<Rightarrow> 8 word) \<Rightarrow> bytes \<Rightarrow> http_request \<Rightarrow> client_error \<times> bytes \<times> http_request" where
  "set_results_loop beyond buf r =
     (if buf \<noteq> [] \<and> hr_result_pos_idx r < length (hr_ordered_results r) then
        (let io = hr_ordered_results r ! hr_result_pos_idx r;
             (err, ob, io1) = (if re_result_format io = RAW then SetNextRawResult beyond buf False io
                               else (Error_Success, 0, io));
             r1 = r\<lparr>hr_ordered_results := (hr_ordered_results r)[hr_result_pos_idx r := io1]\<rparr>
         in if \<not> Error_IsOk err then (err, buf, r1)
            else set_results_loop beyond (drop ob buf)
              (if ob = 0 then r1\<lparr>hr_result_pos_idx := Suc (hr_result_pos_idx r1)\<rparr> else r1))
      else (Error_Success, buf, r))"
  by pat_completeness auto

termination set_results_loop
  by (relation "measure (\<lambda>(beyond, buf, r). length buf + (length (hr_ordered_results r) - hr_result_pos_idx r))")
    (auto simp: length_greater_0_conv [symmetric] simp del: length_greater_0_conv)

declare set_results_loop.simps [simp del]

definition http_SetNextRawResult ::
  "(nat \<Rightarrow> 8 word) \<Rightarrow> bytes \<Rightarrow> http_request \<Rightarrow> client_error \<times> http_request" where
  "http_SetNextRawResult beyond buf r =
     (let (err, rest, r1) = set_results_loop beyond buf r
      in if \<not> Error_IsOk err then (err, r1)
         else (Error_Success, r1\<lparr>hr_infer_response_buffer := hr_infer_response_buffer r1 @ rest\<rparr>))"

definition header_raw :: "response_output \<Rightarrow> raw_result" where
  "header_raw out = (case so_raw out of None \<Rightarrow> \<lparr>rr_dims = [], rr_batch_byte_size = 0\<rparr> | Some raw \<Rightarrow> raw)"

definition CreateResult ::
  "int \<Rightarrow> infer_context \<Rightarrow> response_output \<Rightarrow> 32 word \<Rightarrow> http_request \<Rightarrow> client_error \<times> http_request" where
  "CreateResult garbage ctx out batch_size r =
     (case context_GetOutput ctx (so_name out) of
        Inl err \<Rightarrow> (err, r)
      | Inr k \<Rightarrow>
          (let result = SetBatch1Shape (rr_dims (header_raw out)) (ResultImpl garbage (ic_outputs ctx ! k) (unat batch_size));
               result1 = (if IsFixedSizeDataType (mo_data_type (oi_mio (ic_outputs ctx ! k)))
                          then SetBatchnByteSize (rr_batch_byte_size (header_raw out)) result else result)
           in (Error_Success, r\<lparr>hr_ordered_results := hr_ordered_results r @ [result1]\<rparr>)))"

section \<open>The response\<close>

definition to_lower :: "char \<Rightarrow> char" where
  "to_lower c = (if 65 \<le> (of_char c :: nat) \<and> (of_char c :: nat) \<le> 90 then char_of ((of_char c :: nat) + 32) else c)"

text \<open>The value of the header line \<open>buf\<close> if its name starts with \<open>name\<close>.\<close>

definition header_value :: "string \<Rightarrow> string \<Rightarrow> string option" where
  "header_value name buf =
     (if length name < length buf \<and> map to_lower (take (length name) buf) = map to_lower name then
        (case dropWhile (\<lambda>c. c \<noteq> CHR 0x3A) (drop (length name) buf) of
           [] \<Rightarrow> None
         | _ # hdr \<Rightarrow> Some hdr)
      else None)"

abbreviation "kInferRequestHTTPHeader \<equiv> ''NV-InferRequest''"
abbreviation "kInferResponseHTTPHeader \<equiv> ''NV-InferResponse''"
abbreviation "kStatusHTTPHeader \<equiv> ''NV-Status''"

text \<open>
  When an output is not known, clearing the header empties the outputs that the loop still has to
  visit.
\<close>

function create_results ::
  "int \<Rightarrow> infer_context \<Rightarrow> response_output list \<Rightarrow> 32 word \<Rightarrow> http_request \<Rightarrow> http_request" where
  "create_results garbage ctx [] batch_size r = r"
| "create_results garbage ctx (out # outs) batch_size r =
     (let (err, r1) = CreateResult garbage ctx out (sh_batch_size (hr_response_header r)) r
      in if \<not> Error_IsOk err
         then create_results garbage ctx (map (\<lambda>_. response_output_clear) outs) batch_size
                (r1\<lparr>hr_response_header := response_header_clear\<rparr>)
         else create_results garbage ctx outs batch_size r1)"
  by pat_completeness auto

termination create_results
  by (relation "measure (\<lambda>(garbage, ctx, outs, batch_size, r). length outs)") auto

definition ResponseHeaderHandler ::
  "(string \<Rightarrow> request_status option) \<Rightarrow> (string \<Rightarrow> response_header option) \<Rightarrow> int \<Rightarrow> infer_context \<Rightarrow>
   string \<Rightarrow> http_request \<Rightarrow> http_request" where
  "ResponseHeaderHandler parse_status parse_header garbage ctx buf r =
     (let r1 = (case header_value kStatusHTTPHeader buf of
                  None \<Rightarrow> r
                | Some hdr \<Rightarrow>
                    r\<lparr>hr_request_status := (case parse_status hdr of None \<Rightarrow> request_status_clear | Some st \<Rightarrow> st)\<rparr>)
      in case header_value kInferResponseHTTPHeader buf of
           None \<Rightarrow> r1
         | Some hdr \<Rightarrow>
             (case parse_header hdr of
                None \<Rightarrow> r1\<lparr>hr_response_header := response_header_clear\<rparr>
              | Some h \<Rightarrow> create_results garbage ctx (sh_output h) (sh_batch_size h) (r1\<lparr>hr_response_header := h\<rparr>)))"

text \<open>The write function of libcurl: the number of bytes it took.\<close>

definition ResponseHandler ::
  "timespec \<Rightarrow> (nat \<Rightarrow> 8 word) \<Rightarrow> bytes \<Rightarrow> http_request \<Rightarrow> nat \<times> http_request" where
  "ResponseHandler now beyond contents r =
     (let r1 = (if fst (rt_receive_start (hr_timer r)) = 0
                then r\<lparr>hr_timer := timer_Record now RECEIVE_START (hr_timer r)\<rparr> else r);
          (err, r2) = http_SetNextRawResult beyond contents r1
      in if \<not> Error_IsOk err then (0, r2) else (length contents, r2))"

text \<open>\<open>insert\<close> keeps the result that has the name.\<close>

fun insert_results :: "result_impl list \<Rightarrow> (string \<rightharpoonup> result_impl) \<Rightarrow> (string \<rightharpoonup> result_impl)" where
  "insert_results [] results = results"
| "insert_results (r # rs) results =
     insert_results rs (case results (re_name r) of None \<Rightarrow> results(re_name r \<mapsto> r) | Some _ \<Rightarrow> results)"

definition checked_status :: "http_request \<Rightarrow> request_status" where
  "checked_status r =
     (let st = (if rs_code (hr_request_status r) = INVALID
                then request_status_clear\<lparr>rs_code := INTERNAL, rs_msg := ''infer request did not return status''\<rparr>
                else hr_request_status r)
      in if rs_code st = SUCCESS \<and> sh_model_name (hr_response_header r) = [] then
           request_status_clear\<lparr>rs_code := INTERNAL, rs_msg := ''infer request did not return response header''\<rparr>
         else st)"

definition GetResults ::
  "string option \<Rightarrow> int \<Rightarrow> (bytes \<Rightarrow> response_header) \<Rightarrow> http_request \<Rightarrow>
   (client_error \<times> (string \<rightharpoonup> result_impl)) \<times> http_request" where
  "GetResults http_status http_code parse_binary r =
     (case http_status of
        Some strerror \<Rightarrow>
          ((Error_msg INTERNAL (''HTTP client failed: '' @ strerror), Map.empty), r\<lparr>hr_ordered_results := []\<rparr>)
      | None \<Rightarrow>
          (let st = checked_status r; r1 = r\<lparr>hr_request_status := st\<rparr> in
           if http_code \<noteq> 200 \<or> rs_code st \<noteq> SUCCESS then
             ((Error_status st, Map.empty), r1\<lparr>hr_ordered_results := []\<rparr>)
           else if hr_infer_response_buffer r = [] then
             ((Error_msg INTERNAL ''infer request did not return result header'', Map.empty), r1\<lparr>hr_ordered_results := []\<rparr>)
           else
             ((Error_status st,
               PostRunProcessing (parse_binary (hr_infer_response_buffer r))
                 (insert_results (hr_ordered_results r) Map.empty)), r1)))"

section \<open>Sending a request\<close>

definition infer_url :: "string \<Rightarrow> string \<Rightarrow> int \<Rightarrow> string" where
  "infer_url server_url model_name model_version =
     server_url @ ''/'' @ ''api/infer'' @ ''/'' @ model_name @
     (if model_version \<ge> 0 then ''/'' @ show_int model_version else [])"

definition request_input_of :: "input_impl \<Rightarrow> request_input" where
  "request_input_of io =
     \<lparr>ri_name = ii_Name io, ri_dims = ii_shape io,
      ri_batch_byte_size = (if \<not> IsFixedSizeDataType (ii_DType io) then ii_total_byte_size io else 0)\<rparr>"

definition PreRunProcessing ::
  "bool \<Rightarrow> infer_context \<Rightarrow> http_request \<Rightarrow> client_error \<times> infer_context \<times> http_request" where
  "PreRunProcessing easy_handle ctx r =
     (let r1 = InitializeRequest r in
      if \<not> easy_handle then (Error_msg INTERNAL ''failed to initialize HTTP client'', ctx, r1)
      else
        (Error_Success,
         ctx\<lparr>ic_infer_request := (ic_infer_request ctx)\<lparr>rh_input := map request_input_of (ic_inputs ctx), rh_id := hr_id r\<rparr>\<rparr>,
         r1\<lparr>hr_total_input_byte_size := (\<Sum>io\<leftarrow>ic_inputs ctx. ii_total_byte_size io)\<rparr>))"

text \<open>libcurl reads the body with buffers of sizes it chooses, and delivers lines and pieces.\<close>

fun read_body :: "client_memory \<Rightarrow> (64 word \<times> timespec) list \<Rightarrow> http_request \<Rightarrow> (bytes list \<times> http_request) option" where
  "read_body m [] r = Some ([], r)"
| "read_body m ((sz, now) # szs) r =
     (case GetNextInput now m sz r of
        None \<Rightarrow> None
      | Some (bs, r1) \<Rightarrow>
          (case read_body m szs r1 of None \<Rightarrow> None | Some (bss, r2) \<Rightarrow> Some (bs # bss, r2)))"

fun receive_headers ::
  "(string \<Rightarrow> request_status option) \<Rightarrow> (string \<Rightarrow> response_header option) \<Rightarrow> int \<Rightarrow> infer_context \<Rightarrow>
   string list \<Rightarrow> http_request \<Rightarrow> http_request" where
  "receive_headers parse_status parse_header garbage ctx [] r = r"
| "receive_headers parse_status parse_header garbage ctx (l # ls) r =
     receive_headers parse_status parse_header garbage ctx ls
       (ResponseHeaderHandler parse_status parse_header garbage ctx l r)"

text \<open>A piece that is not taken ends the transfer.\<close>

fun receive_body ::
  "(nat \<Rightarrow> 8 word) \<Rightarrow> (bytes \<times> timespec) list \<Rightarrow> http_request \<Rightarrow> bool \<times> http_request" where
  "receive_body beyond [] r = (True, r)"
| "receive_body beyond ((piece, now) # pieces) r =
     (let (n, r1) = ResponseHandler now beyond piece r
      in if n \<noteq> length piece then (False, r1) else receive_body beyond pieces r1)"

end
