(* ===== verification/Byte_Sink.thy ===== *)
theory Byte_Sink
  imports System_Memory
begin

text \<open>
  Consumers of a stream of bytes that arrives in pieces: each takes as much of a piece as it wants,
  and one that takes nothing gives way to the next. The laws of a consumer make the outcome
  independent of how the stream is cut into pieces.
\<close>

function feed :: "(bytes \<Rightarrow> 'r \<Rightarrow> nat \<times> 'r) \<Rightarrow> bytes \<Rightarrow> nat \<Rightarrow> 'r list \<Rightarrow> bytes \<times> nat \<times> 'r list" where
  "feed put buf k rs =
     (if buf \<noteq> [] \<and> k < length rs then
        (let (ob, r1) = put buf (rs ! k)
         in feed put (drop ob buf) (if ob = 0 then Suc k else k) (rs[k := r1]))
      else (buf, k, rs))"
  by pat_completeness auto

termination feed
  by (relation "measure (\<lambda>(put, buf, k, rs). length buf + (length rs - k))")
    (auto simp: length_greater_0_conv [symmetric] simp del: length_greater_0_conv)

declare feed.simps [simp del]

lemma feed_stop: "buf = [] \<or> length rs \<le> k \<Longrightarrow> feed put buf k rs = (buf, k, rs)"
  by (subst feed.simps) auto

lemma feed_step:
  "buf \<noteq> [] \<Longrightarrow> k < length rs \<Longrightarrow> put buf (rs ! k) = (ob, r1) \<Longrightarrow>
   feed put buf k rs = feed put (drop ob buf) (if ob = 0 then Suc k else k) (rs[k := r1])"
  by (subst feed.simps) simp

locale byte_sink =
  fixes put :: "bytes \<Rightarrow> 'r \<Rightarrow> nat \<times> 'r"
    and inv :: "'r \<Rightarrow> bool"
    and held :: "'r \<Rightarrow> nat"
    and limit :: nat
  assumes put_le: "inv r \<Longrightarrow> held r + length a < limit \<Longrightarrow> put a r = (n, r') \<Longrightarrow> n \<le> length a"
    and put_inv: "inv r \<Longrightarrow> held r + length a < limit \<Longrightarrow> put a r = (n, r') \<Longrightarrow> inv r' \<and> held r' \<le> held r + n"
    and put_part: "inv r \<Longrightarrow> held r + length (a @ b) < limit \<Longrightarrow> put a r = (n, r') \<Longrightarrow> n < length a \<Longrightarrow>
      put (a @ b) r = (n, r')"
    and put_full: "inv r \<Longrightarrow> held r + length (a @ b) < limit \<Longrightarrow> a \<noteq> [] \<Longrightarrow> b \<noteq> [] \<Longrightarrow>
      put a r = (length a, r') \<Longrightarrow> put b r' = (n, r2) \<Longrightarrow> put (a @ b) r = (length a + n, r2)"
    and put_none: "inv r \<Longrightarrow> held r + length a < limit \<Longrightarrow> a \<noteq> [] \<Longrightarrow> put a r = (0, r') \<Longrightarrow> put a r' = (0, r')"
begin

definition ready :: "nat \<Rightarrow> 'r list \<Rightarrow> bool" where
  "ready n rs \<longleftrightarrow> (\<forall>r \<in> set rs. inv r \<and> held r + n < limit)"

lemma ready_step_more:
  assumes "ready (length a + m) rs" and "k < length rs" and "put a (rs ! k) = (n, r')"
  shows "ready (length (drop n a) + m) (rs[k := r'])"
proof -
  have r: "inv (rs ! k)" "held (rs ! k) + length a < limit" "held (rs ! k) + (length a + m) < limit"
    using assms(1) nth_mem [OF assms(2)] by (auto simp: ready_def dest!: bspec)
  have "n \<le> length a" "inv r' \<and> held r' \<le> held (rs ! k) + n"
    using put_le [OF r(1,2) assms(3)] put_inv [OF r(1,2) assms(3)] by simp_all
  then have "inv r' \<and> held r' + (length (drop n a) + m) < limit"
    using r(3) by auto
  moreover have "inv r \<and> held r + (length (drop n a) + m) < limit" if "r \<in> set rs" for r
    using assms(1) that by (fastforce simp: ready_def)
  ultimately show ?thesis
    by (auto simp: ready_def dest!: set_update_subset_insert [THEN subsetD])
qed

lemma ready_step:
  "ready (length a) rs \<Longrightarrow> k < length rs \<Longrightarrow> put a (rs ! k) = (n, r') \<Longrightarrow> ready (length (drop n a)) (rs[k := r'])"
  using ready_step_more [of a 0] by simp

lemma feed_measure:
  assumes "ready (length a) rs" and "a \<noteq> []" and "k < length rs" and "put a (rs ! k) = (n, r')"
  shows "length (drop n a) + (length (rs[k := r']) - (if n = 0 then Suc k else k)) < length a + (length rs - k)"
  using assms by (cases "n = 0") (auto simp: length_greater_0_conv [symmetric] simp del: length_greater_0_conv)

text \<open>What is left over is left over because every consumer has had its share.\<close>

lemma feed_rest:
  "ready (length a) rs \<Longrightarrow> feed put a k rs = (rest, k', rs') \<Longrightarrow>
   ready (length rest) rs' \<and> length rs' = length rs \<and> (rest = [] \<or> length rs' \<le> k') \<and> (\<exists>used. a = used @ rest)"
proof (induction "length a + (length rs - k)" arbitrary: a k rs rule: less_induct)
  case less
  show ?case
  proof (cases "a \<noteq> [] \<and> k < length rs")
    case False
    then have "feed put a k rs = (a, k, rs)"
      by (intro feed_stop) auto
    then show ?thesis
      using less.prems False by auto
  next
    case True
    obtain n r' where put: "put a (rs ! k) = (n, r')"
      by fastforce
    have f: "feed put (drop n a) (if n = 0 then Suc k else k) (rs[k := r']) = (rest, k', rs')"
      using feed_step [of a k rs put, OF _ _ put] True less.prems(2) by simp
    note rd = ready_step [OF less.prems(1) conjunct2 [OF True] put]
    from less.hyps [OF feed_measure [OF less.prems(1) _ _ put] rd f] True
    obtain used where "ready (length rest) rs' \<and> length rs' = length rs \<and> (rest = [] \<or> length rs' \<le> k')" "drop n a = used @ rest"
      by auto
    then show ?thesis
      by (metis append.assoc append_take_drop_id)
  qed
qed

lemma feed_ready:
  "ready (length a + m) rs \<Longrightarrow> feed put a k rs = (rest, k', rs') \<Longrightarrow> ready (length rest + m) rs'"
proof (induction "length a + (length rs - k)" arbitrary: a k rs rule: less_induct)
  case less
  have ra: "ready (length a) rs"
    using less.prems(1) by (fastforce simp: ready_def)
  show ?case
  proof (cases "a \<noteq> [] \<and> k < length rs")
    case False
    then have "feed put a k rs = (a, k, rs)"
      by (intro feed_stop) auto
    then show ?thesis
      using less.prems by simp
  next
    case True
    obtain n r' where put: "put a (rs ! k) = (n, r')"
      by fastforce
    have f: "feed put (drop n a) (if n = 0 then Suc k else k) (rs[k := r']) = (rest, k', rs')"
      using feed_step [of a k rs put, OF _ _ put] True less.prems(2) by simp
    show ?thesis
      using less.hyps [OF feed_measure [OF ra _ _ put] ready_step_more [OF less.prems(1) conjunct2 [OF True] put] f] True
      by simp
  qed
qed

lemma feed_append:
  "ready (length (a @ b)) rs \<Longrightarrow> feed put a k rs = (rest, k', rs') \<Longrightarrow>
   feed put (a @ b) k rs = feed put (rest @ b) k' rs'"
proof (induction "length a + (length rs - k)" arbitrary: a k rs rule: less_induct)
  case less
  have ra: "ready (length a) rs"
    using less.prems(1) by (fastforce simp: ready_def)
  show ?case
  proof (cases "a \<noteq> [] \<and> k < length rs")
    case False
    then have "feed put a k rs = (a, k, rs)"
      by (intro feed_stop) auto
    then show ?thesis
      using less.prems by simp
  next
    case True
    obtain n r' where put: "put a (rs ! k) = (n, r')"
      by fastforce
    have r: "inv (rs ! k)" "held (rs ! k) + length (a @ b) < limit"
      using less.prems(1) True by (auto simp: ready_def)
    then have r3: "held (rs ! k) + length a < limit"
      by simp
    have f: "feed put (drop n a) (if n = 0 then Suc k else k) (rs[k := r']) = (rest, k', rs')"
      using feed_step [of a k rs put, OF _ _ put] True less.prems(2) by simp
    have n: "n \<le> length a"
      by (rule put_le [OF r(1) r3 put])
    show ?thesis
    proof (cases "n = length a")
      case False
      then have ab: "put (a @ b) (rs ! k) = (n, r')"
        using put_part [OF r(1,2) put] n by simp
      have "ready (length (drop n (a @ b))) (rs[k := r'])"
        using ready_step [OF less.prems(1) conjunct2 [OF True] ab] .
      then have "feed put (drop n a @ b) (if n = 0 then Suc k else k) (rs[k := r']) = feed put (rest @ b) k' rs'"
        using less.hyps [OF feed_measure [OF ra _ _ put] _ f] True n by simp
      then show ?thesis
        using feed_step [of "a @ b" k rs put, OF _ _ ab] True n by simp
    next
      case full: True
      then have "n \<noteq> 0"
        using True by simp
      then have here: "rest = []" "k' = k" "rs' = rs[k := r']"
        using f full feed_stop [of "[]" "rs[k := r']" k "put"] by auto
      show ?thesis
      proof (cases "b = []")
        case True
        then show ?thesis
          using here less.prems(2) by (simp add: feed_stop)
      next
        case b: False
        obtain m r2 where put_b: "put b r' = (m, r2)"
          by fastforce
        have ab: "put (a @ b) (rs ! k) = (length a + m, r2)"
          using put_full [OF r(1,2) _ b put [unfolded full] put_b] True by simp
        have "feed put (a @ b) k rs = feed put (drop m b) k (rs[k := r2])"
          using feed_step [of "a @ b" k rs put, OF _ _ ab] True by simp
        also have "\<dots> = feed put b k (rs[k := r'])"
        proof (cases "m = 0")
          case False
          then show ?thesis
            using feed_step [of b k "rs[k := r']" put m r2] b True put_b by simp
        next
          case m: True
          have i: "inv r'" "held r' + length b < limit"
            using put_inv [OF r(1) r3 put] r(2) full by auto
          have "put b r2 = (0, r2)"
            using put_none [OF i b put_b [unfolded m]] .
          then show ?thesis
            using feed_step [of b k "rs[k := r']" put 0 r2] feed_step [of b k "rs[k := r2]" put 0 r2] b True put_b m
            by simp
        qed
        finally show ?thesis
          by (simp add: here)
      qed
    qed
  qed
qed

end

end
