(* ===== verification/Client_Receive_Props.thy ===== *)
theory Client_Receive_Props
  imports Client_Http Byte_Sink
begin

text \<open>
  What the client makes of a response: the results do not depend on the pieces in which the body
  arrives, nor on what the memory holds beyond them.
\<close>

section \<open>The lengths of strings\<close>

lemma read_len_inside:
  "off + 4 \<le> length buf \<Longrightarrow> read_len beyond (buf @ c) off = read_len beyond' buf off"
  unfolding read_len_def by (rule arg_cong [of _ _ "\<lambda>bs. unat (horner_sum ucast 256 bs :: 32 word)"])
    (auto simp: byte_at_def nth_append)

lemma elements_loop_size:
  "elements_loop beyond buf e n off = (x, out) \<Longrightarrow> off \<le> out \<and> x = n + (out - off) \<and> 4 * (if e = 0 then 0 else 1) \<le> out - off"
proof (induction e arbitrary: n off)
  case 0
  then show ?case by simp
next
  case (Suc e)
  let ?off = "off + (4 + read_len beyond buf off)"
  show ?case
  proof (cases "?off > length buf")
    case True
    then show ?thesis
      using Suc.prems by (auto simp: Let_def)
  next
    case False
    then have "elements_loop beyond buf e (n + (4 + read_len beyond buf off)) ?off = (x, out)"
      using Suc.prems by (simp add: Let_def)
    from Suc.IH [OF this] show ?thesis
      by auto
  qed
qed

lemma elements_loop_agree:
  "elements_loop beyond (buf @ c) e n off = (x, out) \<and> out \<le> length buf \<longleftrightarrow>
   elements_loop beyond' buf e n off = (x, out) \<and> out \<le> length buf"
proof (induction e arbitrary: n off)
  case 0
  then show ?case by simp
next
  case (Suc e)
  let ?l = "read_len beyond (buf @ c) off" and ?l' = "read_len beyond' buf off"
  show ?case
  proof (cases "off + 4 \<le> length buf")
    case True
    then have l: "?l = ?l'"
      by (rule read_len_inside)
    show ?thesis
    proof (cases "off + (4 + ?l') > length buf")
      case False
      then show ?thesis
        using Suc.IH [of "n + (4 + ?l')" "off + (4 + ?l')"] by (simp add: l Let_def)
    next
      case True
      have "\<not> out \<le> length buf" if "elements_loop beyond (buf @ c) (Suc e) n off = (x, out)"
        using that True elements_loop_size [of beyond "buf @ c" e "n + (4 + ?l')" "off + (4 + ?l')" x out]
        by (auto simp: l Let_def split: if_splits)
      then show ?thesis
        using True by (auto simp: Let_def)
    qed
  next
    case False
    have "\<not> out \<le> length buf" if "elements_loop b (buf @ d) (Suc e) n off = (x, out)" for b d
      using that False elements_loop_size [of b "buf @ d" e "n + (4 + read_len b (buf @ d) off)" "off + (4 + read_len b (buf @ d) off)" x out]
      by (auto simp: Let_def split: if_splits)
    from this [of beyond c] this [of beyond' "[]"] show ?thesis
      by auto
  qed
qed

definition parsed :: "(nat \<Rightarrow> 8 word) \<Rightarrow> bytes \<Rightarrow> nat \<Rightarrow> nat \<Rightarrow> nat list \<Rightarrow> nat \<Rightarrow> bool" where
  "parsed beyond buf cnt n szs out \<longleftrightarrow> batches_loop beyond buf cnt n 0 [] = (szs, out) \<and> length szs = n"

lemma batches_loop_acc:
  "batches_loop beyond buf cnt n off acc = (szs, out) \<Longrightarrow> length szs \<le> length acc + n"
proof (induction n arbitrary: off acc)
  case (Suc n)
  then show ?case
    by (fastforce simp: Let_def split: prod.splits if_splits)
qed simp

lemma batches_loop_mono:
  "batches_loop beyond buf cnt n off acc = (szs, out) \<Longrightarrow> off \<le> out"
proof (induction n arbitrary: off acc)
  case 0
  then show ?case by simp
next
  case (Suc n)
  obtain y p where e: "elements_loop beyond buf cnt 0 off = (y, p)"
    by fastforce
  have p: "off \<le> p"
    using elements_loop_size [OF e] by simp
  show ?case
  proof (cases "p > length buf")
    case True
    then show ?thesis
      using Suc.prems e p by simp
  next
    case False
    then have "batches_loop beyond buf cnt n p (acc @ [y]) = (szs, out)"
      using Suc.prems e by simp
    from Suc.IH [OF this] p show ?thesis
      by simp
  qed
qed

lemma batches_loop_agree:
  "off \<le> length buf \<Longrightarrow>
   batches_loop beyond (buf @ c) cnt n off acc = (szs, out) \<and> length szs = length acc + n \<and> out \<le> length buf \<longleftrightarrow>
   batches_loop beyond' buf cnt n off acc = (szs, out) \<and> length szs = length acc + n"
proof (induction n arbitrary: off acc)
  case 0
  then show ?case by auto
next
  case (Suc n)
  obtain x o1 where e: "elements_loop beyond (buf @ c) cnt 0 off = (x, o1)"
    by fastforce
  obtain x' o1' where e': "elements_loop beyond' buf cnt 0 off = (x', o1')"
    by fastforce
  show ?case
  proof (cases "o1' \<le> length buf")
    case True
    then have "elements_loop beyond (buf @ c) cnt 0 off = (x', o1')"
      using elements_loop_agree [of beyond buf c cnt 0 off x' o1' beyond'] e' by simp
    then show ?thesis
      using Suc.IH [OF True, of "acc @ [x']"] e' True by (simp add: Let_def)
  next
    case False
    then have o1: "length buf < o1"
      using elements_loop_agree [of beyond buf c cnt 0 off x o1 beyond'] e e' by (cases "o1 \<le> length buf") auto
    have "\<not> out \<le> length buf" if "batches_loop beyond (buf @ c) cnt (Suc n) off acc = (szs, out)"
    proof -
      have "o1 \<le> out"
      proof (cases "o1 > length (buf @ c)")
        case True
        then show ?thesis
          using that e by simp
      next
        case False
        then have b: "batches_loop beyond (buf @ c) cnt n o1 (acc @ [x]) = (szs, out)"
          using that e by simp
        from batches_loop_mono [OF b] show ?thesis .
      qed
      then show ?thesis
        using o1 by simp
    qed
    moreover have "length szs \<noteq> length acc + Suc n" if "batches_loop beyond' buf cnt (Suc n) off acc = (szs, out)"
      using that e' False by auto
    ultimately show ?thesis
      by blast
  qed
qed

lemma parsed_extend: "parsed beyond buf cnt n szs out \<Longrightarrow> parsed beyond' (buf @ c) cnt n szs out"
  using batches_loop_agree [of 0 buf beyond' c cnt n "[]" szs out beyond] by (simp add: parsed_def)

lemma parsed_cut: "parsed beyond (buf @ c) cnt n szs out \<Longrightarrow> out \<le> length buf \<Longrightarrow> parsed beyond' buf cnt n szs out"
  using batches_loop_agree [of 0 buf beyond c cnt n "[]" szs out beyond'] by (simp add: parsed_def)

lemma parsed_inside: "parsed beyond buf cnt n szs out \<Longrightarrow> out \<le> length buf"
  using batches_loop_agree [of 0 buf beyond "[]" cnt n "[]" szs out beyond] by (simp add: parsed_def)

lemma parsed_unique: "parsed beyond buf cnt n szs out \<Longrightarrow> parsed beyond' buf cnt n szs' out' \<Longrightarrow> szs' = szs \<and> out' = out"
  using parsed_extend [of beyond buf cnt n szs out beyond' "[]"] by (simp add: parsed_def)

lemma batches_loop_sizes:
  "batches_loop beyond buf cnt n off acc = (szs, out) \<Longrightarrow> length szs = length acc + n \<Longrightarrow>
   \<exists>new. szs = acc @ new \<and> sum_list new = out - off \<and> off \<le> out \<and> (if cnt = 0 then set new \<subseteq> {0} else 0 \<notin> set new)"
proof (induction n arbitrary: off acc)
  case 0
  then show ?case by (auto intro: exI [of _ "[]"])
next
  case (Suc n)
  obtain x o1 where e: "elements_loop beyond buf cnt 0 off = (x, o1)"
    by fastforce
  have s: "off \<le> o1" "x = o1 - off" "cnt \<noteq> 0 \<Longrightarrow> x \<noteq> 0" "cnt = 0 \<Longrightarrow> x = 0"
    using elements_loop_size [OF e] e by auto
  have b: "batches_loop beyond buf cnt n o1 (acc @ [x]) = (szs, out)"
    using Suc.prems e by (auto split: if_splits)
  obtain new where "szs = (acc @ [x]) @ new" "sum_list new = out - o1" "o1 \<le> out"
    "if cnt = 0 then set new \<subseteq> {0} else 0 \<notin> set new"
    using Suc.IH [OF b] Suc.prems(2) by auto
  then show ?case
    using s by (intro exI [of _ "x # new"]) auto
qed

lemma parsed_sizes:
  "parsed beyond buf cnt n szs out \<Longrightarrow>
   sum_list szs = out \<and> length szs = n \<and> (if cnt = 0 then set szs \<subseteq> {0} else 0 \<notin> set szs)"
  using batches_loop_sizes [of beyond buf cnt n 0 "[]" szs out] by (auto simp: parsed_def)

section \<open>A tensor of fixed size\<close>

definition bufs_fit :: "result_impl \<Rightarrow> bool" where
  "bufs_fit r \<longleftrightarrow> \<not> re_inplace r \<and> length (re_buffers r) = re_batch_size r \<and>
     length (re_bufs_pos r) = re_batch_size r \<and> length (re_bufs_byte_size r) = re_batch_size r \<and>
     re_bufs_idx r \<le> re_batch_size r"

lemma save_bytes_eq:
  "\<not> re_inplace r \<Longrightarrow> save_bytes buf csz r =
   r\<lparr>re_buffers := (re_buffers r)[re_bufs_idx r := re_buffers r ! re_bufs_idx r @ take csz buf],
     re_bufs_pos := (re_bufs_pos r)[re_bufs_idx r := re_bufs_pos r ! re_bufs_idx r + of_nat csz],
     re_bufs_byte_size := (re_bufs_byte_size r)[re_bufs_idx r := re_bufs_byte_size r ! re_bufs_idx r + of_nat csz]\<rparr>"
  by (simp add: save_bytes_def Let_def)

lemma save_bytes_fit:
  "bufs_fit r \<Longrightarrow> bufs_fit (save_bytes buf csz r)"
  by (simp add: bufs_fit_def save_bytes_def Let_def)

text \<open>One pass of the loop.\<close>

definition finish :: "64 word \<Rightarrow> result_impl \<Rightarrow> result_impl" where
  "finish b1 r =
     (if re_bufs_pos r ! re_bufs_idx r = b1 then r\<lparr>re_bufs_idx := Suc (re_bufs_idx r)\<rparr> else r)"

definition taken :: "64 word \<Rightarrow> bytes \<Rightarrow> result_impl \<Rightarrow> nat" where
  "taken b1 buf r = min (unat (b1 - re_bufs_pos r ! re_bufs_idx r)) (length buf)"

definition pass :: "64 word \<Rightarrow> bytes \<Rightarrow> result_impl \<Rightarrow> nat \<times> result_impl" where
  "pass b1 buf r =
     (taken b1 buf r, finish b1 (if taken b1 buf r > 0 then save_bytes buf (taken b1 buf r) r else r))"

lemma finish_fit:
  "bufs_fit r \<Longrightarrow> re_bufs_idx r < re_batch_size r \<Longrightarrow>
   bufs_fit (finish b1 r) \<and> re_batch_size (finish b1 r) = re_batch_size r \<and> re_bufs_idx r \<le> re_bufs_idx (finish b1 r)"
  by (simp add: finish_def bufs_fit_def)

lemma set_batch_loop_pass:
  assumes "re_bufs_idx r < length (re_buffers r)" and "buf \<noteq> []" and "pass b1 buf r = (csz, r1)"
  shows "set_batch_loop b1 buf t r = set_batch_loop b1 (drop csz buf) (t + csz) r1"
proof -
  have c: "re_bufs_idx r < length (re_buffers r) \<and> buf \<noteq> []"
    using assms by blast
  have "set_batch_loop b1 buf t r =
      (case pass b1 buf r of (csz, r1) \<Rightarrow> set_batch_loop b1 (drop csz buf) (t + csz) r1)"
    by (subst set_batch_loop.simps) (simp only: if_P [OF c] Let_def pass_def taken_def finish_def prod.case)
  then show ?thesis
    by (simp add: assms(3))
qed

lemma set_batch_loop_stop:
  "length (re_buffers r) \<le> re_bufs_idx r \<or> buf = [] \<Longrightarrow> set_batch_loop b1 buf t r = (t, r)"
  by (subst set_batch_loop.simps) auto

lemma pass_facts:
  assumes fit: "bufs_fit r" and idx: "re_bufs_idx r < re_batch_size r" and pass: "pass b1 buf r = (csz, r1)"
  shows "csz \<le> length buf" and "bufs_fit r1" and "re_batch_size r1 = re_batch_size r"
    and "csz = 0 \<Longrightarrow> buf \<noteq> [] \<Longrightarrow> re_bufs_idx r1 = Suc (re_bufs_idx r)"
    and "re_bufs_idx r \<le> re_bufs_idx r1"
proof -
  have csz: "csz = taken b1 buf r" and r1: "r1 = finish b1 (if 0 < csz then save_bytes buf csz r else r)"
    using pass by (auto simp: pass_def)
  show "csz \<le> length buf"
    by (simp add: csz taken_def)
  have s: "bufs_fit (save_bytes buf csz r)" "re_batch_size (save_bytes buf csz r) = re_batch_size r"
    by (rule save_bytes_fit [OF fit]) (simp add: save_bytes_def Let_def)
  show "bufs_fit r1" "re_batch_size r1 = re_batch_size r" "re_bufs_idx r \<le> re_bufs_idx r1"
    using finish_fit [OF fit idx, of b1] finish_fit [OF s(1), of b1] s(2) idx by (simp_all add: r1)
  assume z: "csz = 0" "buf \<noteq> []"
  then have "unat (b1 - re_bufs_pos r ! re_bufs_idx r) = 0"
    by (auto simp: csz taken_def min_def split: if_splits)
  then have "re_bufs_pos r ! re_bufs_idx r = b1"
    by (simp add: unat_eq_zero)
  then show "re_bufs_idx r1 = Suc (re_bufs_idx r)"
    using z by (simp add: r1 finish_def)
qed

lemma set_batch_loop_facts:
  "bufs_fit r \<Longrightarrow> set_batch_loop b1 buf t r = (n, r') \<Longrightarrow>
   t \<le> n \<and> n \<le> t + length buf \<and> bufs_fit r' \<and> re_batch_size r' = re_batch_size r \<and>
   (n < t + length buf \<longrightarrow> re_bufs_idx r' = re_batch_size r') \<and> re_bufs_idx r \<le> re_bufs_idx r'"
proof (induction "length buf + (re_batch_size r - re_bufs_idx r)" arbitrary: buf t r rule: less_induct)
  case less
  have len: "length (re_buffers r) = re_batch_size r" "re_bufs_idx r \<le> re_batch_size r"
    using less.prems(1) by (simp_all add: bufs_fit_def)
  show ?case
  proof (cases "re_bufs_idx r < re_batch_size r \<and> buf \<noteq> []")
    case False
    then have "set_batch_loop b1 buf t r = (t, r)"
      using len by (intro set_batch_loop_stop) auto
    then show ?thesis
      using less.prems len False by auto
  next
    case True
    obtain csz r1 where p: "pass b1 buf r = (csz, r1)"
      by fastforce
    note f = pass_facts [OF less.prems(1) conjunct1 [OF True] p]
    have l: "set_batch_loop b1 (drop csz buf) (t + csz) r1 = (n, r')"
      using set_batch_loop_pass [of r buf b1 csz r1 t] True p less.prems(2) len by simp
    have "length (drop csz buf) + (re_batch_size r1 - re_bufs_idx r1) < length buf + (re_batch_size r - re_bufs_idx r)"
      using True f(1,3,4,5) by (cases "csz = 0") (auto simp: length_greater_0_conv [symmetric] simp del: length_greater_0_conv)
    from less.hyps [OF this f(2) l] show ?thesis
      using f(1,3,5) by auto
  qed
qed

lemma set_batch_loop_total:
  "bufs_fit r \<Longrightarrow> set_batch_loop b1 buf t r = (n, r') \<Longrightarrow> set_batch_loop b1 buf (s + t) r = (s + n, r')"
proof (induction "length buf + (re_batch_size r - re_bufs_idx r)" arbitrary: buf t r rule: less_induct)
  case less
  have len: "length (re_buffers r) = re_batch_size r" "re_bufs_idx r \<le> re_batch_size r"
    using less.prems(1) by (simp_all add: bufs_fit_def)
  show ?case
  proof (cases "re_bufs_idx r < re_batch_size r \<and> buf \<noteq> []")
    case False
    then have "set_batch_loop b1 buf t r = (t, r)" "set_batch_loop b1 buf (s + t) r = (s + t, r)"
      using len by (auto intro!: set_batch_loop_stop)
    then show ?thesis
      using less.prems by simp
  next
    case True
    obtain csz r1 where p: "pass b1 buf r = (csz, r1)"
      by fastforce
    note f = pass_facts [OF less.prems(1) conjunct1 [OF True] p]
    have l: "set_batch_loop b1 (drop csz buf) (t + csz) r1 = (n, r')"
      using set_batch_loop_pass [of r buf b1 csz r1 t] True p less.prems(2) len by simp
    have "length (drop csz buf) + (re_batch_size r1 - re_bufs_idx r1) < length buf + (re_batch_size r - re_bufs_idx r)"
      using True f(1,3,4,5) by (cases "csz = 0") (auto simp: length_greater_0_conv [symmetric] simp del: length_greater_0_conv)
    from less.hyps [OF this f(2) l] show ?thesis
      using set_batch_loop_pass [of r buf b1 csz r1 "s + t"] True p len by (simp add: add.assoc)
  qed
qed

lemma save_bytes_twice:
  assumes "bufs_fit r" and "re_bufs_idx r < re_batch_size r"
  shows "save_bytes b m (save_bytes a (length a) r) = save_bytes (a @ b) (length a + m) r"
  using assms by (simp add: save_bytes_eq bufs_fit_def nth_list_update add.assoc)

lemma save_bytes_prefix:
  "\<not> re_inplace r \<Longrightarrow> m \<le> length a \<Longrightarrow> save_bytes (a @ b) m r = save_bytes a m r"
  by (simp add: save_bytes_eq)

lemma set_batch_loop_append:
  "bufs_fit r \<Longrightarrow> set_batch_loop b1 a t r = (n, r') \<Longrightarrow>
   set_batch_loop b1 (a @ b) t r =
     (if n = t + length a then set_batch_loop b1 b n r' else (n, r'))"
proof (induction "length a + (re_batch_size r - re_bufs_idx r)" arbitrary: a t r rule: less_induct)
  case less
  have len: "length (re_buffers r) = re_batch_size r" "re_bufs_idx r \<le> re_batch_size r" "\<not> re_inplace r"
    "length (re_bufs_pos r) = re_batch_size r"
    using less.prems(1) by (simp_all add: bufs_fit_def)
  show ?case
  proof (cases "re_bufs_idx r < re_batch_size r \<and> a \<noteq> []")
    case False
    then have "set_batch_loop b1 a t r = (t, r)"
      using len by (intro set_batch_loop_stop) auto
    then have n: "n = t" "r' = r"
      using less.prems(2) by auto
    show ?thesis
    proof (cases "a = []")
      case True
      then show ?thesis by (simp add: n)
    next
      case a: False
      then have "length (re_buffers r) \<le> re_bufs_idx r"
        using False len by simp
      then show ?thesis
        using a n by (simp add: set_batch_loop_stop)
    qed
  next
    case True
    let ?d = "unat (b1 - re_bufs_pos r ! re_bufs_idx r)"
    obtain csz r1 where p: "pass b1 a r = (csz, r1)"
      by fastforce
    note f = pass_facts [OF less.prems(1) conjunct1 [OF True] p]
    have l: "set_batch_loop b1 (drop csz a) (t + csz) r1 = (n, r')"
      using set_batch_loop_pass [of r a b1 csz r1 t] True p less.prems(2) len by simp
    have m: "length (drop csz a) + (re_batch_size r1 - re_bufs_idx r1) < length a + (re_batch_size r - re_bufs_idx r)"
      using True f(1,3,4,5) by (cases "csz = 0") (auto simp: length_greater_0_conv [symmetric] simp del: length_greater_0_conv)
    show ?thesis
    proof (cases "?d \<le> length a")
      case d: True
      then have "taken b1 (a @ b) r = taken b1 a r" "taken b1 a r \<le> length a"
        by (simp_all add: taken_def)
      then have "pass b1 (a @ b) r = (csz, r1)"
        using p save_bytes_prefix [OF len(3), of "taken b1 a r" a b] by (auto simp: pass_def)
      then have "set_batch_loop b1 (a @ b) t r = set_batch_loop b1 (drop csz a @ b) (t + csz) r1"
        using set_batch_loop_pass [of r "a @ b" b1 csz r1 t] True len f(1) by simp
      also have "\<dots> = (if n = t + csz + length (drop csz a) then set_batch_loop b1 b n r' else (n, r'))"
        by (rule less.hyps [OF m f(2) l])
      finally show ?thesis
        using f(1) by simp
    next
      case d: False
      let ?r1 = "save_bytes a (length a) r"
      have pos: "re_bufs_pos ?r1 ! re_bufs_idx r = re_bufs_pos r ! re_bufs_idx r + of_nat (length a)"
        using True len by (simp add: save_bytes_eq)
      have "?d < 2 ^ LENGTH(64)"
        by (rule unsigned_less)
      then have la: "unat (of_nat (length a) :: 64 word) = length a"
        using d by (simp add: unsigned_of_nat take_bit_nat_eq_self)
      have rest: "unat (b1 - (re_bufs_pos r ! re_bufs_idx r + of_nat (length a))) = ?d - length a"
        using unat_sub_length [of "length a" "b1 - re_bufs_pos r ! re_bufs_idx r"] d by (simp add: diff_diff_eq)
      have ne: "re_bufs_pos r ! re_bufs_idx r + of_nat (length a) \<noteq> b1"
        using rest d by auto
      have csz: "csz = length a" "r1 = ?r1"
        using p d True pos ne by (auto simp: pass_def taken_def finish_def)
      then have n: "n = t + length a" "r' = ?r1"
        using l by (simp_all add: set_batch_loop_stop)
      have idx1: "re_bufs_idx ?r1 = re_bufs_idx r" "length (re_buffers ?r1) = length (re_buffers r)"
        by simp_all
      show ?thesis
      proof (cases "b = []")
        case True
        then show ?thesis
          using less.prems(2) n by (simp add: set_batch_loop_stop)
      next
        case b: False
        obtain m r2 where pb: "pass b1 b ?r1 = (m, r2)"
          by fastforce
        have m: "m = min (?d - length a) (length b)"
          using pb pos rest by (auto simp: pass_def taken_def)
        then have "0 < m"
          using d b by simp
        then have "r2 = finish b1 (save_bytes (a @ b) (length a + m) r)"
          using pb save_bytes_twice [OF less.prems(1) conjunct1 [OF True], of b m a] by (auto simp: pass_def)
        moreover have "taken b1 (a @ b) r = length a + m"
          using d by (simp add: taken_def m)
        ultimately have "pass b1 (a @ b) r = (length a + m, r2)"
          using \<open>0 < m\<close> by (simp add: pass_def)
        then have "set_batch_loop b1 (a @ b) t r = set_batch_loop b1 (drop m b) (t + (length a + m)) r2"
          using set_batch_loop_pass [of r "a @ b" b1 "length a + m" r2 t] True len by simp
        also have "\<dots> = set_batch_loop b1 b (t + length a) ?r1"
          using set_batch_loop_pass [of ?r1 b b1 m r2 "t + length a"] True len b pb by (simp add: add.assoc)
        finally show ?thesis
          by (simp add: n)
      qed
    qed
  qed
qed

lemma SetBatchRawResult_append:
  assumes fit: "bufs_fit r" and put: "SetBatchRawResult b1 a r = (n, r')"
  shows "n \<le> length a" and "bufs_fit r'"
    and "n < length a \<Longrightarrow> SetBatchRawResult b1 (a @ b) r = (n, r')"
    and "n = length a \<Longrightarrow> a \<noteq> [] \<Longrightarrow> SetBatchRawResult b1 b r' = (k, r2) \<Longrightarrow>
      SetBatchRawResult b1 (a @ b) r = (length a + k, r2)"
    and "n = 0 \<Longrightarrow> a \<noteq> [] \<Longrightarrow> SetBatchRawResult b1 a r' = (0, r')"
    and "re_batch_size r' = re_batch_size r"
proof -
  define r0 where "r0 = (if b1 = 0 then r\<lparr>re_bufs_idx := length (re_buffers r)\<rparr> else r)"
  have fit0: "bufs_fit r0" and bs0: "re_batch_size r0 = re_batch_size r"
    using fit by (auto simp: r0_def bufs_fit_def)
  have loop: "set_batch_loop b1 a 0 r0 = (n, r')"
    using put by (simp add: SetBatchRawResult_def r0_def)
  note f = set_batch_loop_facts [OF fit0 loop]
  show "n \<le> length a" "bufs_fit r'" "re_batch_size r' = re_batch_size r"
    using f bs0 by simp_all
  have r': "b1 = 0 \<Longrightarrow> re_bufs_idx r' = length (re_buffers r')"
    using f fit by (simp add: r0_def bufs_fit_def split: if_splits)
  then have same: "(if b1 = 0 then r'\<lparr>re_bufs_idx := length (re_buffers r')\<rparr> else r') = r'"
    by auto
  note app = set_batch_loop_append [OF fit0 loop, of b]
  show "n < length a \<Longrightarrow> SetBatchRawResult b1 (a @ b) r = (n, r')"
    using app by (simp add: SetBatchRawResult_def r0_def)
  show "SetBatchRawResult b1 (a @ b) r = (length a + k, r2)" if "n = length a" "a \<noteq> []" "SetBatchRawResult b1 b r' = (k, r2)"
  proof -
    have "set_batch_loop b1 b 0 r' = (k, r2)"
      using that(3) same by (simp add: SetBatchRawResult_def)
    then have "set_batch_loop b1 b (length a + 0) r' = (length a + k, r2)"
      using set_batch_loop_total f by blast
    then show ?thesis
      using app that(1) by (simp add: SetBatchRawResult_def r0_def)
  qed
  show "SetBatchRawResult b1 a r' = (0, r')" if "n = 0" "a \<noteq> []"
  proof -
    have "re_bufs_idx r' = length (re_buffers r')"
      using f that by (simp add: bufs_fit_def)
    then show ?thesis
      using same by (simp add: SetBatchRawResult_def set_batch_loop_stop)
  qed
qed

section \<open>A tensor of strings\<close>

fun split_sizes :: "nat list \<Rightarrow> bytes \<Rightarrow> bytes list" where
  "split_sizes [] buf = []"
| "split_sizes (s # ss) buf = take s buf # split_sizes ss (drop s buf)"

lemma length_split_sizes [simp]: "length (split_sizes szs buf) = length szs"
  by (induction szs buf rule: split_sizes.induct) auto

lemma split_sizes_append: "sum_list szs \<le> length buf \<Longrightarrow> split_sizes szs (buf @ c) = split_sizes szs buf"
  by (induction szs buf rule: split_sizes.induct) auto

lemma concat_split_sizes: "sum_list szs \<le> length buf \<Longrightarrow> concat (split_sizes szs buf) = take (sum_list szs) buf"
  by (induction szs buf rule: split_sizes.induct) (auto simp: take_add)

text \<open>A result that has nothing yet, and one that has all its strings.\<close>

definition fresh :: "result_impl \<Rightarrow> bool" where
  "fresh r \<longleftrightarrow> re_bufs_idx r = 0 \<and> re_buffers r = replicate (re_batch_size r) [] \<and>
     re_bufs_pos r = replicate (re_batch_size r) 0 \<and> re_bufs_byte_size r = replicate (re_batch_size r) 0"

definition filled :: "nat list \<Rightarrow> bytes \<Rightarrow> result_impl \<Rightarrow> result_impl" where
  "filled szs buf r =
     r\<lparr>re_buffers := split_sizes szs buf, re_bufs_pos := map of_nat szs, re_bufs_byte_size := map of_nat szs,
       re_bufs_idx := re_batch_size r\<rparr>"

lemma assign_zero:
  assumes "set szs \<subseteq> {0}" and "\<not> re_inplace r"
  shows "assign_batches szs buf r =
    (Error_Success, if szs = [] then r else r\<lparr>re_bufs_idx := length (re_buffers r)\<rparr>)"
  using assms by (induction szs arbitrary: r) (auto simp: SetBatchRawResult_def set_batch_loop_stop)

lemma nth_tail: "k < length xs \<Longrightarrow> drop k xs = replicate n c \<Longrightarrow> xs ! k = c"
  by (metis drop_eq_Nil hd_drop_conv_nth hd_replicate leD replicate_0)

text \<open>A batch entry whose buffer is empty gets its bytes at once.\<close>

definition one_batch :: "nat \<Rightarrow> bytes \<Rightarrow> result_impl \<Rightarrow> result_impl" where
  "one_batch sz buf r =
     r\<lparr>re_buffers := (re_buffers r)[re_bufs_idx r := take sz buf],
       re_bufs_pos := (re_bufs_pos r)[re_bufs_idx r := of_nat sz],
       re_bufs_byte_size := (re_bufs_byte_size r)[re_bufs_idx r := of_nat sz], re_bufs_idx := Suc (re_bufs_idx r)\<rparr>"

lemma pass_slot:
  assumes fit: "bufs_fit r" and k: "re_bufs_idx r < re_batch_size r"
    and at: "re_buffers r ! re_bufs_idx r = []" "re_bufs_pos r ! re_bufs_idx r = 0" "re_bufs_byte_size r ! re_bufs_idx r = 0"
    and b1: "b1 \<noteq> 0" and long: "unat b1 \<le> length buf"
  shows "pass b1 buf r = (unat b1, one_batch (unat b1) buf r)"
proof -
  have t: "taken b1 buf r = unat b1"
    using long by (simp add: taken_def at)
  moreover have "0 < unat b1"
    using b1 by (simp add: unat_gt_0)
  moreover have "save_bytes buf (unat b1) r = r\<lparr>re_buffers := (re_buffers r)[re_bufs_idx r := take (unat b1) buf],
      re_bufs_pos := (re_bufs_pos r)[re_bufs_idx r := b1], re_bufs_byte_size := (re_bufs_byte_size r)[re_bufs_idx r := b1]\<rparr>"
    using fit at by (simp add: save_bytes_eq bufs_fit_def)
  ultimately show ?thesis
    using fit k by (simp add: pass_def finish_def one_batch_def bufs_fit_def)
qed

lemma assign_positive:
  "0 \<notin> set szs \<Longrightarrow> sum_list szs \<le> length buf \<Longrightarrow> length buf < 2 ^ 64 \<Longrightarrow> bufs_fit r \<Longrightarrow>
   length szs = re_batch_size r - re_bufs_idx r \<Longrightarrow>
   drop (re_bufs_idx r) (re_buffers r) = replicate (length szs) [] \<Longrightarrow>
   drop (re_bufs_idx r) (re_bufs_pos r) = replicate (length szs) 0 \<Longrightarrow>
   drop (re_bufs_idx r) (re_bufs_byte_size r) = replicate (length szs) 0 \<Longrightarrow>
   assign_batches szs buf r = (Error_Success,
     r\<lparr>re_buffers := take (re_bufs_idx r) (re_buffers r) @ split_sizes szs buf,
       re_bufs_pos := take (re_bufs_idx r) (re_bufs_pos r) @ map of_nat szs,
       re_bufs_byte_size := take (re_bufs_idx r) (re_bufs_byte_size r) @ map of_nat szs,
       re_bufs_idx := re_batch_size r\<rparr>)"
proof (induction szs arbitrary: buf r)
  case Nil
  then show ?case
    by (auto simp: bufs_fit_def)
next
  case (Cons sz szs)
  let ?k = "re_bufs_idx r"
  have k: "?k < re_batch_size r" "length (re_buffers r) = re_batch_size r" "\<not> re_inplace r"
    "length (re_bufs_pos r) = re_batch_size r" "length (re_bufs_byte_size r) = re_batch_size r"
    using Cons.prems(4,5) by (auto simp: bufs_fit_def)
  have at: "re_buffers r ! ?k = []" "re_bufs_pos r ! ?k = 0" "re_bufs_byte_size r ! ?k = 0"
    using nth_tail [OF _ Cons.prems(6)] nth_tail [OF _ Cons.prems(7)] nth_tail [OF _ Cons.prems(8)] k by auto
  have sz: "0 < sz" "sz \<le> length buf"
    using Cons.prems(1,2) by auto
  then have "buf \<noteq> []"
    by auto
  have usz: "unat (of_nat sz :: 64 word) = sz" "(of_nat sz :: 64 word) \<noteq> 0"
    using sz Cons.prems(3) by (simp_all add: unsigned_of_nat take_bit_nat_eq_self word_of_nat_eq_0_iff)
       (metis dvd_imp_le leD le_less_trans)
  let ?r = "one_batch sz buf r"
  have "pass (of_nat sz) (take sz buf) r = (sz, ?r)"
    using pass_slot [OF Cons.prems(4) k(1) at, of "of_nat sz" "take sz buf"] sz usz by (simp add: one_batch_def)
  then have "set_batch_loop (of_nat sz) (take sz buf) 0 r = (sz, ?r)"
    using set_batch_loop_pass [of r "take sz buf" "of_nat sz" sz ?r 0] k sz \<open>buf \<noteq> []\<close> by (simp add: set_batch_loop_stop)
  then have put: "SetBatchRawResult (of_nat sz) (take sz buf) r = (sz, ?r)"
    using usz by (simp add: SetBatchRawResult_def)
  have tail: "drop (Suc ?k) xs = replicate (length szs) c" if "drop ?k xs = replicate (length (sz # szs)) c" for xs and c :: "'z"
    using arg_cong [OF that, of "drop 1"] by simp
  have "assign_batches szs (drop sz buf) ?r = (Error_Success,
     ?r\<lparr>re_buffers := take (Suc ?k) (re_buffers ?r) @ split_sizes szs (drop sz buf),
       re_bufs_pos := take (Suc ?k) (re_bufs_pos ?r) @ map of_nat szs,
       re_bufs_byte_size := take (Suc ?k) (re_bufs_byte_size ?r) @ map of_nat szs,
       re_bufs_idx := re_batch_size ?r\<rparr>)"
    using Cons.IH [of "drop sz buf" ?r] Cons.prems tail [OF Cons.prems(6)] tail [OF Cons.prems(7)] tail [OF Cons.prems(8)] k
    by (simp add: bufs_fit_def one_batch_def)
  then show ?case
    using put k by (simp add: take_Suc_conv_app_nth one_batch_def)
qed

lemma assign_fresh:
  assumes "fresh r" and "bufs_fit r" and "0 < re_batch_size r" and "length szs = re_batch_size r"
    and "sum_list szs \<le> length buf" and "length buf < 2 ^ 64" and "set szs \<subseteq> {0} \<or> 0 \<notin> set szs"
  shows "assign_batches szs buf r = (Error_Success, filled szs buf r)"
proof (cases "0 \<in> set szs")
  case True
  then have z: "szs = replicate (re_batch_size r) 0"
    using assms(4,7) by (intro replicate_eqI) auto
  have "split_sizes (replicate n 0) buf = replicate n []" for n
    by (induction n) simp_all
  then have "filled szs buf r = r\<lparr>re_bufs_idx := length (re_buffers r)\<rparr>"
    using assms(1) by (simp add: filled_def fresh_def z)
  moreover have "set szs \<subseteq> {0}" "szs \<noteq> []" "\<not> re_inplace r"
    using assms(2,3,4) by (auto simp: z bufs_fit_def)
  ultimately show ?thesis
    by (simp add: assign_zero)
next
  case False
  then show ?thesis
    using assign_positive [of szs buf r] assms by (simp add: filled_def fresh_def)
qed

section \<open>The laws of a result\<close>

definition no_bytes :: "nat \<Rightarrow> 8 word" where
  "no_bytes = (\<lambda>_. 0)"

definition result_put :: "bytes \<Rightarrow> result_impl \<Rightarrow> nat \<times> result_impl" where
  "result_put buf r =
     (if re_result_format r = RAW then snd (SetNextRawResult no_bytes buf False r) else (0, r))"

abbreviation complete :: "result_impl \<Rightarrow> bytes \<Rightarrow> nat list \<Rightarrow> nat \<Rightarrow> bool" where
  "complete r buf szs out \<equiv> parsed no_bytes buf (re_batch1_element_count r) (re_batch_size r) szs out"

definition waiting :: "result_impl \<Rightarrow> bool" where
  "waiting r \<longleftrightarrow> fresh r \<and> 0 < re_batch_size r \<and> (re_pending r = [] \<or> (\<nexists>szs out. complete r (re_pending r) szs out))"

definition result_inv :: "result_impl \<Rightarrow> bool" where
  "result_inv r \<longleftrightarrow> bufs_fit r \<and>
     (\<not> re_has_fixed_batch1_byte_size r \<longrightarrow> re_bufs_idx r = re_batch_size r \<or> waiting r)"

definition result_held :: "result_impl \<Rightarrow> nat" where
  "result_held r = (if re_has_fixed_batch1_byte_size r then 0 else length (re_pending r))"

lemma inplace_same: "bufs_fit r \<Longrightarrow> r\<lparr>re_inplace := False\<rparr> = r"
  by (simp add: bufs_fit_def)

lemma put_fixed:
  "bufs_fit r \<Longrightarrow> re_has_fixed_batch1_byte_size r \<Longrightarrow>
   SetNextRawResult beyond buf False r = (Error_Success, SetBatchRawResult (re_batch1_byte_size r) buf r)"
  by (simp add: SetNextRawResult_def inplace_same)

lemma put_done:
  "bufs_fit r \<Longrightarrow> \<not> re_has_fixed_batch1_byte_size r \<Longrightarrow> re_bufs_idx r = re_batch_size r \<Longrightarrow>
   SetNextRawResult beyond buf False r = (Error_Success, 0, r)"
  by (simp add: SetNextRawResult_def inplace_same bufs_fit_def)

lemma put_string:
  assumes fit: "bufs_fit r" and var: "\<not> re_has_fixed_batch1_byte_size r" and w: "waiting r"
    and limit: "length (re_pending r @ buf) < 2 ^ 64"
  shows "complete r (re_pending r @ buf) szs out \<Longrightarrow> SetNextRawResult beyond buf False r =
      (Error_Success, length buf - (length (re_pending r @ buf) - out),
       (filled szs (re_pending r @ buf) r)\<lparr>re_pending := []\<rparr>)"
    and "\<nexists>szs out. complete r (re_pending r @ buf) szs out \<Longrightarrow> SetNextRawResult beyond buf False r =
      (Error_Success, length buf, r\<lparr>re_pending := re_pending r @ buf\<rparr>)"
proof -
  let ?buf = "re_pending r @ buf" and ?cnt = "re_batch1_element_count r" and ?n = "re_batch_size r"
  obtain szs' out' where b: "batches_loop beyond ?buf ?cnt ?n 0 [] = (szs', out')"
    by fastforce
  have n: "re_bufs_idx r \<noteq> length (re_buffers r)" "0 < ?n" "fresh r"
    using w by (auto simp: waiting_def fresh_def)
  define r2 where "r2 = (if re_pending r \<noteq> [] then r\<lparr>re_pending := ?buf\<rparr> else r)"
  have pair: "(if re_pending r \<noteq> [] then (?buf, r\<lparr>re_pending := ?buf\<rparr>) else (buf, r)) = (?buf, r2)"
    by (simp add: r2_def)
  show "SetNextRawResult beyond buf False r =
      (Error_Success, length buf - (length ?buf - out), (filled szs ?buf r)\<lparr>re_pending := []\<rparr>)" if c: "complete r ?buf szs out"
  proof -
    have p: "parsed beyond ?buf ?cnt ?n szs out"
      using parsed_extend [OF c, of beyond "[]"] by simp
    then have eq: "szs' = szs" "out' = out" "length szs = ?n"
      using b by (auto simp: parsed_def)
    have szs: "sum_list szs = out" "set szs \<subseteq> {0} \<or> 0 \<notin> set szs" "out \<le> length ?buf"
      using parsed_sizes [OF p] parsed_inside [OF p] by (auto split: if_splits)
    have "fresh r2" "bufs_fit r2" "re_batch_size r2 = ?n"
      using n(3) fit by (simp_all add: r2_def fresh_def bufs_fit_def)
    then have a: "assign_batches szs ?buf r2 = (Error_Success, filled szs ?buf r2)"
      using assign_fresh [of r2 szs ?buf] n(2) szs limit eq(3) by simp
    have "filled szs ?buf r2\<lparr>re_pending := []\<rparr> = (filled szs ?buf r)\<lparr>re_pending := []\<rparr>"
      by (simp add: r2_def filled_def)
    moreover have "re_bufs_idx (filled szs ?buf r2) = length (re_buffers (filled szs ?buf r2))"
      using eq(3) \<open>re_batch_size r2 = ?n\<close> by (simp add: filled_def)
    ultimately show ?thesis
      using n(1) var pair b eq a by (simp add: SetNextRawResult_def inplace_same [OF fit] Let_def)
  qed
  show "SetNextRawResult beyond buf False r = (Error_Success, length buf, r\<lparr>re_pending := ?buf\<rparr>)"
    if c: "\<nexists>szs out. complete r ?buf szs out"
  proof -
    have "length szs' \<noteq> ?n"
      using c b parsed_extend [of beyond ?buf ?cnt ?n szs' out' no_bytes "[]"] by (auto simp: parsed_def)
    then have "length szs' < ?n"
      using batches_loop_acc [OF b] by simp
    moreover have "(if re_pending r2 = [] then r2\<lparr>re_pending := take (length buf) ?buf\<rparr> else r2) = r\<lparr>re_pending := ?buf\<rparr>"
      by (simp add: r2_def)
    ultimately show ?thesis
      using n(1) var pair b by (simp add: SetNextRawResult_def inplace_same [OF fit] Let_def)
  qed
qed

text \<open>What no operation on the buffers changes.\<close>

definition result_kind :: "result_impl \<Rightarrow> result_format \<times> bool \<times> 64 word \<times> nat \<times> nat \<times> string" where
  "result_kind r = (re_result_format r, re_has_fixed_batch1_byte_size r, re_batch1_byte_size r,
     re_batch1_element_count r, re_batch_size r, re_name r)"

lemma pass_kind: "pass b1 buf r = (csz, r1) \<Longrightarrow> result_kind r1 = result_kind r"
proof -
  have "result_kind (save_bytes buf k r) = result_kind r" for k
    by (simp add: result_kind_def save_bytes_def Let_def)
  moreover have "result_kind (finish b1 s) = result_kind s" for s
    by (simp add: result_kind_def finish_def)
  ultimately show "pass b1 buf r = (csz, r1) \<Longrightarrow> result_kind r1 = result_kind r"
    by (auto simp: pass_def)
qed

lemma set_batch_loop_kind:
  "bufs_fit r \<Longrightarrow> set_batch_loop b1 buf t r = (n, r') \<Longrightarrow> result_kind r' = result_kind r"
proof (induction "length buf + (re_batch_size r - re_bufs_idx r)" arbitrary: buf t r rule: less_induct)
  case less
  have len: "length (re_buffers r) = re_batch_size r" "re_bufs_idx r \<le> re_batch_size r"
    using less.prems(1) by (simp_all add: bufs_fit_def)
  show ?case
  proof (cases "re_bufs_idx r < re_batch_size r \<and> buf \<noteq> []")
    case False
    then have "set_batch_loop b1 buf t r = (t, r)"
      using len by (auto intro!: set_batch_loop_stop)
    then show ?thesis
      using less.prems by simp
  next
    case True
    obtain csz r1 where p: "pass b1 buf r = (csz, r1)"
      by fastforce
    note f = pass_facts [OF less.prems(1) conjunct1 [OF True] p]
    have l: "set_batch_loop b1 (drop csz buf) (t + csz) r1 = (n, r')"
      using set_batch_loop_pass [of r buf b1 csz r1 t] True p less.prems(2) len by simp
    have "length (drop csz buf) + (re_batch_size r1 - re_bufs_idx r1) < length buf + (re_batch_size r - re_bufs_idx r)"
      using True f(1,3,4,5) by (cases "csz = 0") (auto simp: length_greater_0_conv [symmetric] simp del: length_greater_0_conv)
    then show ?thesis
      using less.hyps [OF _ f(2) l] pass_kind [OF p] by simp
  qed
qed

lemma SetBatchRawResult_kind:
  "bufs_fit r \<Longrightarrow> SetBatchRawResult b1 buf r = (n, r') \<Longrightarrow> result_kind r' = result_kind r"
  using set_batch_loop_kind [of r b1 buf 0 n r'] set_batch_loop_kind [of "r\<lparr>re_bufs_idx := length (re_buffers r)\<rparr>" b1 buf 0 n r']
  by (auto simp: SetBatchRawResult_def bufs_fit_def result_kind_def split: if_splits)

text \<open>The four cases of \<open>result_put\<close>.\<close>

lemma filled_done:
  "bufs_fit r \<Longrightarrow> length szs = re_batch_size r \<Longrightarrow>
   bufs_fit ((filled szs buf r)\<lparr>re_pending := []\<rparr>) \<and>
   re_bufs_idx ((filled szs buf r)\<lparr>re_pending := []\<rparr>) = re_batch_size ((filled szs buf r)\<lparr>re_pending := []\<rparr>) \<and>
   \<not> waiting ((filled szs buf r)\<lparr>re_pending := []\<rparr>) \<and> re_pending ((filled szs buf r)\<lparr>re_pending := []\<rparr>) = []"
  by (auto simp: filled_def bufs_fit_def waiting_def fresh_def)

lemma complete_cong:
  "complete (r\<lparr>re_pending := p\<rparr>) buf szs out \<longleftrightarrow> complete r buf szs out"
  by simp

lemma waiting_pending: "waiting r \<Longrightarrow> \<nexists>szs out. complete r p szs out \<Longrightarrow> waiting (r\<lparr>re_pending := p\<rparr>)"
  by (simp add: waiting_def fresh_def)

lemma complete_after_pending:
  assumes "waiting r" and "complete r (re_pending r @ a) szs out"
  shows "length (re_pending r) \<le> out" and "out \<le> length (re_pending r @ a)"
proof -
  show "out \<le> length (re_pending r @ a)"
    by (rule parsed_inside [OF assms(2)])
  show "length (re_pending r) \<le> out"
  proof (rule ccontr)
    assume "\<not> length (re_pending r) \<le> out"
    then have "complete r (re_pending r) szs out" "re_pending r \<noteq> []"
      using parsed_cut [OF assms(2)] by auto
    then show False
      using assms(1) by (auto simp: waiting_def)
  qed
qed

lemma put_string_complete:
  assumes "bufs_fit r" and "\<not> re_has_fixed_batch1_byte_size r" and "waiting r"
    and "length (re_pending r @ a) < 2 ^ 64" and c: "complete r (re_pending r @ a) szs out"
  shows "SetNextRawResult beyond a False r =
    (Error_Success, out - length (re_pending r), (filled szs (re_pending r @ a) r)\<lparr>re_pending := []\<rparr>)"
  using put_string(1) [OF assms(1-4) c] complete_after_pending [OF assms(3) c] by simp

lemma put_irrelevant:
  assumes "result_inv r" and "result_held r + length a < 2 ^ 64"
  shows "SetNextRawResult beyond a False r = SetNextRawResult no_bytes a False r"
    and "fst (SetNextRawResult beyond a False r) = Error_Success"
proof -
  consider (fixed) "re_has_fixed_batch1_byte_size r" | (closed) "\<not> re_has_fixed_batch1_byte_size r" "re_bufs_idx r = re_batch_size r"
    | (wait) "\<not> re_has_fixed_batch1_byte_size r" "waiting r"
    using assms(1) by (auto simp: result_inv_def)
  then have "SetNextRawResult beyond a False r = SetNextRawResult no_bytes a False r \<and>
      fst (SetNextRawResult beyond a False r) = Error_Success"
  proof cases
    case fixed
    then show ?thesis
      using assms(1) by (simp add: put_fixed result_inv_def)
  next
    case closed
    then show ?thesis
      using assms(1) by (simp add: put_done result_inv_def)
  next
    case wait
    have fit: "bufs_fit r" and l: "length (re_pending r @ a) < 2 ^ 64"
      using assms wait by (simp_all add: result_inv_def result_held_def)
    show ?thesis
      using put_string [OF fit wait l] by (cases "\<exists>szs out. complete r (re_pending r @ a) szs out") auto
  qed
  then show "SetNextRawResult beyond a False r = SetNextRawResult no_bytes a False r"
    "fst (SetNextRawResult beyond a False r) = Error_Success"
    by blast+
qed

lemma result_put_cases:
  assumes "result_inv r" and "result_held r + length a < 2 ^ 64"
  obtains
    (skip) "\<And>b. result_put b r = (0, r)"
  | (fixed) "re_result_format r = RAW" "re_has_fixed_batch1_byte_size r" "bufs_fit r"
      "\<And>b. result_put b r = SetBatchRawResult (re_batch1_byte_size r) b r"
  | (part) "re_result_format r = RAW" "\<not> re_has_fixed_batch1_byte_size r" "bufs_fit r" "waiting r"
      "length (re_pending r @ a) < 2 ^ 64" "\<nexists>szs out. complete r (re_pending r @ a) szs out"
      "result_put a r = (length a, r\<lparr>re_pending := re_pending r @ a\<rparr>)"
  | (full) szs out where "re_result_format r = RAW" "\<not> re_has_fixed_batch1_byte_size r" "bufs_fit r" "waiting r"
      "length (re_pending r @ a) < 2 ^ 64" "complete r (re_pending r @ a) szs out" "length szs = re_batch_size r"
      "length (re_pending r) \<le> out" "out \<le> length (re_pending r @ a)"
      "result_put a r = (out - length (re_pending r), (filled szs (re_pending r @ a) r)\<lparr>re_pending := []\<rparr>)"
proof -
  have fit: "bufs_fit r"
    using assms(1) by (simp add: result_inv_def)
  consider (skip) "re_result_format r \<noteq> RAW \<or> \<not> re_has_fixed_batch1_byte_size r \<and> re_bufs_idx r = re_batch_size r"
    | (fixed) "re_result_format r = RAW" "re_has_fixed_batch1_byte_size r"
    | (wait) "re_result_format r = RAW" "\<not> re_has_fixed_batch1_byte_size r" "waiting r"
    using assms(1) by (auto simp: result_inv_def)
  then show thesis
  proof cases
    case skip
    then show thesis
      using that(1) put_done [OF fit] by (auto simp: result_put_def)
  next
    case fixed
    then show thesis
      using that(2) put_fixed [OF fit] fit by (simp add: result_put_def)
  next
    case wait
    have l: "length (re_pending r @ a) < 2 ^ 64"
      using assms(2) wait by (simp add: result_held_def)
    show thesis
    proof (cases "\<exists>szs out. complete r (re_pending r @ a) szs out")
      case True
      then obtain szs out where c: "complete r (re_pending r @ a) szs out"
        by blast
      then have "length szs = re_batch_size r"
        by (simp add: parsed_def)
      then show thesis
        using that(4) [OF wait(1,2) fit wait(3) l c _ complete_after_pending [OF wait(3) c]]
          put_string_complete [OF fit wait(2,3) l c] wait(1) by (simp add: result_put_def)
    next
      case False
      then show thesis
        using that(3) [OF wait(1,2) fit wait(3) l False] put_string(2) [OF fit wait(2,3) l] wait(1) by (simp add: result_put_def)
    qed
  qed
qed

lemma fixed_kind:
  assumes "bufs_fit r" and "SetBatchRawResult b1 a r = (n, r')" and "result_kind r' = result_kind r \<Longrightarrow> P"
  shows P
  using SetBatchRawResult_kind [OF assms(1,2)] assms(3) by blast

lemma result_put_done:
  "bufs_fit r \<Longrightarrow> \<not> re_has_fixed_batch1_byte_size r \<Longrightarrow> re_bufs_idx r = re_batch_size r \<Longrightarrow> result_put b r = (0, r)"
  by (simp add: result_put_def put_done)

interpretation sink: byte_sink result_put result_inv result_held "2 ^ 64"
proof
  fix r a n r'
  assume inv: "result_inv r" and held: "result_held r + length a < 2 ^ 64" and put: "result_put a r = (n, r')"
  show "n \<le> length a"
    using inv held
  proof (cases rule: result_put_cases)
    case fixed
    then show ?thesis
      using put SetBatchRawResult_append(1) by metis
  qed (use put in auto)
  show "result_inv r' \<and> result_held r' \<le> result_held r + n"
    using inv held
  proof (cases rule: result_put_cases)
    case skip
    then show ?thesis
      using put inv by simp
  next
    case fixed
    then have s: "SetBatchRawResult (re_batch1_byte_size r) a r = (n, r')"
      using put by simp
    then have "re_has_fixed_batch1_byte_size r'"
      using SetBatchRawResult_kind [OF fixed(3) s] fixed(2) by (simp add: result_kind_def)
    then show ?thesis
      using SetBatchRawResult_append(2) [OF fixed(3) s] by (simp add: result_inv_def result_held_def)
  next
    case part
    then have "n = length a" "r' = r\<lparr>re_pending := re_pending r @ a\<rparr>"
      using put by auto
    then show ?thesis
      using part waiting_pending [OF part(4,6)] by (simp add: result_inv_def result_held_def bufs_fit_def)
  next
    case (full szs out)
    then have "r' = (filled szs (re_pending r @ a) r)\<lparr>re_pending := []\<rparr>"
      using put by auto
    then show ?thesis
      using full filled_done [OF full(3,7)] by (simp add: result_inv_def result_held_def)
  qed
next
  fix r a b n r'
  assume inv: "result_inv r" and held: "result_held r + length (a @ b) < 2 ^ 64" and put: "result_put a r = (n, r')"
    and less: "n < length a"
  have "result_held r + length a < 2 ^ 64"
    using held by simp
  with inv show "result_put (a @ b) r = (n, r')"
  proof (cases rule: result_put_cases)
    case fixed
    then show ?thesis
      using put less SetBatchRawResult_append(3) by metis
  next
    case (full szs out)
    have c: "complete r (re_pending r @ (a @ b)) szs out"
      using parsed_extend [OF full(6), of no_bytes b] by simp
    have l: "length (re_pending r @ (a @ b)) < 2 ^ 64"
      using held full(2) by (simp add: result_held_def)
    have "split_sizes szs (re_pending r @ a @ b) = split_sizes szs (re_pending r @ a)"
      using split_sizes_append [of szs "re_pending r @ a" b] parsed_sizes [OF full(6)] full(9) by simp
    then have "filled szs (re_pending r @ a @ b) r = filled szs (re_pending r @ a) r"
      by (simp add: filled_def)
    then show ?thesis
      using put_string_complete [OF full(3,2,4) l c] full(1,10) put by (simp add: result_put_def)
  qed (use put less in auto)
next
  fix r a b r' n r2
  assume inv: "result_inv r" and held: "result_held r + length (a @ b) < 2 ^ 64" and ne: "a \<noteq> []" "b \<noteq> []"
    and put: "result_put a r = (length a, r')" and put_b: "result_put b r' = (n, r2)"
  have "result_held r + length a < 2 ^ 64"
    using held by simp
  with inv show "result_put (a @ b) r = (length a + n, r2)"
  proof (cases rule: result_put_cases)
    case skip
    then show ?thesis
      using put ne by simp
  next
    case fixed
    then have s: "SetBatchRawResult (re_batch1_byte_size r) a r = (length a, r')"
      using put by simp
    have "result_put b r' = SetBatchRawResult (re_batch1_byte_size r) b r'"
      using SetBatchRawResult_kind [OF fixed(3) s] SetBatchRawResult_append(2) [OF fixed(3) s] fixed(1,2) put_fixed [of r']
      by (simp add: result_kind_def result_put_def)
    then show ?thesis
      using SetBatchRawResult_append(4) [OF fixed(3) s refl ne(1)] put_b fixed(4) by simp
  next
    case part
    let ?buf = "re_pending r @ a"
    have r': "r' = r\<lparr>re_pending := ?buf\<rparr>"
      using part(7) put by simp
    have l: "length (re_pending r' @ b) < 2 ^ 64" "length (re_pending r @ (a @ b)) < 2 ^ 64"
      using held part(2) by (simp_all add: result_held_def r')
    have w: "waiting r'" "bufs_fit r'" "\<not> re_has_fixed_batch1_byte_size r'" "re_result_format r' = RAW"
      using part(1-4) waiting_pending [OF part(4,6)] by (simp_all add: r' bufs_fit_def)
    show ?thesis
    proof (cases "\<exists>szs out. complete r (re_pending r @ (a @ b)) szs out")
      case True
      then obtain szs out where c: "complete r (re_pending r @ (a @ b)) szs out"
        by blast
      then have c': "complete r' (re_pending r' @ b) szs out"
        by (simp add: r')
      have "result_put b r' = (out - length (re_pending r'), (filled szs (re_pending r' @ b) r')\<lparr>re_pending := []\<rparr>)"
        using put_string_complete [OF w(2,3,1) l(1) c'] w(4) by (simp add: result_put_def)
      moreover have "length ?buf \<le> out"
        using complete_after_pending(1) [OF w(1) c'] by (simp add: r')
      moreover have "n = out - length ?buf" "r2 = (filled szs (re_pending r @ a @ b) r)\<lparr>re_pending := []\<rparr>"
        using put_b calculation(1) by (auto simp: r' filled_def)
      moreover have "result_put (a @ b) r = (out - length (re_pending r), (filled szs (re_pending r @ a @ b) r)\<lparr>re_pending := []\<rparr>)"
        using put_string_complete [OF part(3,2,4) l(2) c] part(1) by (simp add: result_put_def)
      ultimately show ?thesis
        by simp
    next
      case False
      then have "\<nexists>szs out. complete r' (re_pending r' @ b) szs out"
        by (simp add: r')
      then have "result_put b r' = (length b, r'\<lparr>re_pending := re_pending r' @ b\<rparr>)"
        using put_string(2) [OF w(2,3,1) l(1)] w(4) by (simp add: result_put_def)
      then show ?thesis
        using put_string(2) [OF part(3,2,4) l(2) False] part(1) put_b by (simp add: result_put_def r')
    qed
  next
    case (full szs out)
    have r': "r' = (filled szs (re_pending r @ a) r)\<lparr>re_pending := []\<rparr>" and out: "out = length (re_pending r @ a)"
      using full(8,10) put by auto
    have "result_put b r' = (0, r')"
      using filled_done [OF full(3,7)] full(2) by (intro result_put_done) (auto simp: r' filled_def)
    moreover have c: "complete r (re_pending r @ (a @ b)) szs out"
      using parsed_extend [OF full(6), of no_bytes b] by simp
    have l: "length (re_pending r @ (a @ b)) < 2 ^ 64"
      using held full(2) by (simp add: result_held_def)
    have "split_sizes szs (re_pending r @ a @ b) = split_sizes szs (re_pending r @ a)"
      using split_sizes_append [of szs "re_pending r @ a" b] parsed_sizes [OF full(6)] full(9) by simp
    then have "filled szs (re_pending r @ a @ b) r = filled szs (re_pending r @ a) r"
      by (simp add: filled_def)
    then have "result_put (a @ b) r = (length a, r')"
      using put_string_complete [OF full(3,2,4) l c] full(1) by (simp add: result_put_def r' out)
    ultimately show ?thesis
      using put_b by simp
  qed
next
  fix r a r'
  assume inv: "result_inv r" and held: "result_held r + length a < 2 ^ 64" and ne: "a \<noteq> []" and put: "result_put a r = (0, r')"
  from inv held show "result_put a r' = (0, r')"
  proof (cases rule: result_put_cases)
    case fixed
    then have s: "SetBatchRawResult (re_batch1_byte_size r) a r = (0, r')"
      using put by simp
    have "result_put a r' = SetBatchRawResult (re_batch1_byte_size r) a r'"
      using SetBatchRawResult_kind [OF fixed(3) s] SetBatchRawResult_append(2) [OF fixed(3) s] fixed(1,2) put_fixed [of r']
      by (simp add: result_kind_def result_put_def)
    then show ?thesis
      using SetBatchRawResult_append(5) [OF fixed(3) s refl ne] by simp
  next
    case (full szs out)
    then have "r' = (filled szs (re_pending r @ a) r)\<lparr>re_pending := []\<rparr>"
      using put by auto
    then show ?thesis
      using filled_done [OF full(3,7)] full(2) by (intro result_put_done) (auto simp: filled_def)
  qed (use put ne in auto)
qed

end
