(* ===== verification/Client_Stream.thy ===== *)
theory Client_Stream
  imports Client_Receive_Props
begin

text \<open>
  The body of a response as the client reads it: libcurl delivers it in pieces of any size, and the
  results, in the order of the response header, take what is theirs; the rest is the binary
  response header that follows the outputs.
\<close>

section \<open>Results from the header of the response\<close>

lemma fresh_result_inv:
  "fresh r \<Longrightarrow> \<not> re_inplace r \<Longrightarrow> re_pending r = [] \<Longrightarrow> result_inv r \<and> result_held r = 0"
  by (auto simp: result_inv_def result_held_def bufs_fit_def waiting_def fresh_def)

definition new_result :: "result_impl \<Rightarrow> bool" where
  "new_result r \<longleftrightarrow> fresh r \<and> \<not> re_inplace r \<and> re_pending r = []"

lemma created_result_new:
  "new_result (ResultImpl g out n)" "new_result r \<Longrightarrow> new_result (SetBatch1Shape dims r)"
  "new_result r \<Longrightarrow> new_result (SetBatchnByteSize s r)"
  by (simp_all add: new_result_def fresh_def ResultImpl_def SetBatch1Shape_def SetBatchnByteSize_def)

lemma CreateResult_new:
  assumes "\<forall>io \<in> set (hr_ordered_results r). new_result io" and "CreateResult g ctx out n r = (err, r')"
  shows "\<forall>io \<in> set (hr_ordered_results r'). new_result io"
  using assms by (auto simp: CreateResult_def Let_def intro!: created_result_new split: sum.splits if_splits)

lemma create_results_new:
  "\<forall>io \<in> set (hr_ordered_results r). new_result io \<Longrightarrow>
   \<forall>io \<in> set (hr_ordered_results (create_results g ctx outs n r)). new_result io"
proof (induction g ctx outs n r rule: create_results.induct)
  case (2 g ctx out outs n r)
  obtain err r1 where c: "CreateResult g ctx out (sh_batch_size (hr_response_header r)) r = (err, r1)"
    by fastforce
  show ?case
    using "2.IH" [OF c [symmetric] refl] CreateResult_new [OF "2.prems" c] c by (simp add: Let_def)
qed simp

lemma CreateResult_frame:
  "CreateResult g ctx out n r = (err, r1) \<Longrightarrow>
   hr_infer_response_buffer r1 = hr_infer_response_buffer r \<and> hr_result_pos_idx r1 = hr_result_pos_idx r"
  by (auto simp: CreateResult_def Let_def split: sum.splits)

lemma create_results_frame:
  "hr_infer_response_buffer (create_results g ctx outs n r) = hr_infer_response_buffer r \<and>
   hr_result_pos_idx (create_results g ctx outs n r) = hr_result_pos_idx r"
proof (induction g ctx outs n r rule: create_results.induct)
  case (2 g ctx out outs n r)
  obtain err r1 where c: "CreateResult g ctx out (sh_batch_size (hr_response_header r)) r = (err, r1)"
    by fastforce
  show ?case
    using "2.IH" [OF c [symmetric] refl] CreateResult_frame [OF c] c by (simp add: Let_def)
qed simp

lemma receive_headers_frame:
  "hr_infer_response_buffer (receive_headers ps ph g ctx ls r) = hr_infer_response_buffer r \<and>
   hr_result_pos_idx (receive_headers ps ph g ctx ls r) = hr_result_pos_idx r"
  by (induction ls arbitrary: r) (simp_all add: ResponseHeaderHandler_def Let_def create_results_frame split: option.splits)

lemma ResponseHeaderHandler_new:
  "\<forall>io \<in> set (hr_ordered_results r). new_result io \<Longrightarrow>
   \<forall>io \<in> set (hr_ordered_results (ResponseHeaderHandler ps ph g ctx l r)). new_result io"
  by (auto simp: ResponseHeaderHandler_def Let_def dest!: create_results_new [THEN bspec, rotated] split: option.splits)

lemma receive_headers_new:
  "\<forall>io \<in> set (hr_ordered_results r). new_result io \<Longrightarrow>
   \<forall>io \<in> set (hr_ordered_results (receive_headers ps ph g ctx ls r)). new_result io"
proof (induction ls arbitrary: r)
  case (Cons l ls)
  show ?case
    unfolding receive_headers.simps by (rule Cons.IH) (rule ResponseHeaderHandler_new [OF Cons.prems])
qed simp

section \<open>The pieces of the body\<close>

definition results_ready :: "nat \<Rightarrow> result_impl list \<Rightarrow> bool" where
  "results_ready n rs \<longleftrightarrow> (\<forall>r \<in> set rs. result_inv r \<and> result_held r + n < 2 ^ 64)"

lemma results_ready_sink: "sink.ready n rs \<longleftrightarrow> results_ready n rs"
  by (simp only: sink.ready_def results_ready_def)

lemmas results_feed = sink.feed_rest [unfolded results_ready_sink] sink.feed_append [unfolded results_ready_sink]
  sink.feed_ready [unfolded results_ready_sink] sink.ready_step [unfolded results_ready_sink]
  sink.feed_measure [unfolded results_ready_sink]

lemma ready_mono:
  assumes "results_ready n rs" and "m \<le> n"
  shows "results_ready m rs"
  unfolding results_ready_def
proof
  fix r
  assume "r \<in> set rs"
  then have "result_inv r" "result_held r + n < 2 ^ 64"
    using assms(1) unfolding results_ready_def by blast+
  then show "result_inv r \<and> result_held r + m < 2 ^ 64"
    using assms(2) by linarith
qed

lemma SetNext_put:
  assumes "result_inv io" and "result_held io + length buf < 2 ^ 64"
  shows "(if re_result_format io = RAW then SetNextRawResult beyond buf False io else (Error_Success, 0, io)) =
    (Error_Success, result_put buf io)"
  using put_irrelevant [OF assms, of beyond] by (auto simp: result_put_def prod_eq_iff)

lemma set_results_loop_feed:
  "results_ready (length buf) (hr_ordered_results r) \<Longrightarrow>
   feed result_put buf (hr_result_pos_idx r) (hr_ordered_results r) = (rest, k, rs) \<Longrightarrow>
   set_results_loop beyond buf r = (Error_Success, rest, r\<lparr>hr_ordered_results := rs, hr_result_pos_idx := k\<rparr>)"
proof (induction "length buf + (length (hr_ordered_results r) - hr_result_pos_idx r)" arbitrary: buf r rule: less_induct)
  case less
  show ?case
  proof (cases "buf \<noteq> [] \<and> hr_result_pos_idx r < length (hr_ordered_results r)")
    case False
    then have "feed result_put buf (hr_result_pos_idx r) (hr_ordered_results r) = (buf, hr_result_pos_idx r, hr_ordered_results r)"
      by (intro feed_stop) auto
    then show ?thesis
      using less.prems(2) False by (subst set_results_loop.simps) (simp only: if_False, simp)
  next
    case True
    let ?io = "hr_ordered_results r ! hr_result_pos_idx r"
    obtain ob io1 where put: "result_put buf ?io = (ob, io1)"
      by fastforce
    have io: "result_inv ?io" "result_held ?io + length buf < 2 ^ 64"
      using less.prems(1) nth_mem [OF conjunct2 [OF True]] unfolding results_ready_def by blast+
    define r1 where "r1 = r\<lparr>hr_ordered_results := (hr_ordered_results r)[hr_result_pos_idx r := io1],
        hr_result_pos_idx := (if ob = 0 then Suc (hr_result_pos_idx r) else hr_result_pos_idx r)\<rparr>"
    have step: "set_results_loop beyond buf r = set_results_loop beyond (drop ob buf) r1"
      unfolding set_results_loop.simps [of beyond buf r]
      by (simp only: if_P [OF True] SetNext_put [OF io, of beyond] put Let_def prod.case) (simp add: r1_def)
    have rd: "results_ready (length (drop ob buf)) (hr_ordered_results r1)"
      using results_feed(4) [OF less.prems(1) conjunct2 [OF True] put] by (simp add: r1_def)
    have f: "feed result_put (drop ob buf) (hr_result_pos_idx r1) (hr_ordered_results r1) = (rest, k, rs)"
      using feed_step [of buf _ _ result_put, OF _ _ put] True less.prems(2) by (simp add: r1_def)
    have m: "length (drop ob buf) + (length (hr_ordered_results r1) - hr_result_pos_idx r1)
      < length buf + (length (hr_ordered_results r) - hr_result_pos_idx r)"
      using results_feed(5) [OF less.prems(1) conjunct1 [OF True] conjunct2 [OF True] put] by (simp add: r1_def)
    show ?thesis
      using less.hyps [OF m rd f] step by (simp add: r1_def)
  qed
qed

text \<open>What the request has after the bytes \<open>buf\<close>, however they came.\<close>

definition received :: "bytes \<Rightarrow> http_request \<Rightarrow> http_request" where
  "received buf r =
     (let (rest, k, rs) = feed result_put buf (hr_result_pos_idx r) (hr_ordered_results r)
      in r\<lparr>hr_ordered_results := rs, hr_result_pos_idx := k,
           hr_infer_response_buffer := hr_infer_response_buffer r @ rest\<rparr>)"

text \<open>What is left over is left over because every result has had its share.\<close>

definition body_state :: "nat \<Rightarrow> http_request \<Rightarrow> bool" where
  "body_state n r \<longleftrightarrow> results_ready n (hr_ordered_results r) \<and>
     (hr_infer_response_buffer r = [] \<or> length (hr_ordered_results r) \<le> hr_result_pos_idx r)"

lemma received_timer: "received buf (r\<lparr>hr_timer := t\<rparr>) = (received buf r)\<lparr>hr_timer := t\<rparr>"
  by (simp add: received_def split: prod.splits)

lemma ResponseHandler_received:
  assumes "body_state (length buf) r"
  shows "\<exists>t. ResponseHandler now beyond buf r = (length buf, (received buf r)\<lparr>hr_timer := t\<rparr>)"
proof -
  obtain rest k rs where f: "feed result_put buf (hr_result_pos_idx r) (hr_ordered_results r) = (rest, k, rs)"
    by (metis prod_cases3)
  have "set_results_loop beyond buf (r\<lparr>hr_timer := t\<rparr>) =
      (Error_Success, rest, r\<lparr>hr_timer := t, hr_ordered_results := rs, hr_result_pos_idx := k\<rparr>)" for t
    using set_results_loop_feed [of buf "r\<lparr>hr_timer := t\<rparr>" rest k rs beyond] f assms by (simp add: body_state_def)
  then have set: "http_SetNextRawResult beyond buf (r\<lparr>hr_timer := t\<rparr>) = (Error_Success, (received buf r)\<lparr>hr_timer := t\<rparr>)" for t
    by (simp add: http_SetNextRawResult_def received_def f)
  define t where "t = (if fst (rt_receive_start (hr_timer r)) = 0 then timer_Record now RECEIVE_START (hr_timer r) else hr_timer r)"
  have "(if fst (rt_receive_start (hr_timer r)) = 0 then r\<lparr>hr_timer := timer_Record now RECEIVE_START (hr_timer r)\<rparr> else r)
      = r\<lparr>hr_timer := t\<rparr>"
    by (simp add: t_def)
  then have "ResponseHandler now beyond buf r = (length buf, (received buf r)\<lparr>hr_timer := t\<rparr>)"
    by (simp add: ResponseHandler_def Let_def set)
  then show ?thesis
    by blast
qed

lemma received_append:
  assumes "body_state (length (a @ b)) r"
  shows "received b (received a r) = received (a @ b) r" and "body_state (length b) (received a r)"
proof -
  obtain rest k rs where f: "feed result_put a (hr_result_pos_idx r) (hr_ordered_results r) = (rest, k, rs)"
    by (metis prod_cases3)
  have rd: "results_ready (length (a @ b)) (hr_ordered_results r)"
    using assms by (simp add: body_state_def)
  then have rda: "results_ready (length a) (hr_ordered_results r)"
    by (rule ready_mono) simp
  note fr = results_feed(1) [OF rda f]
  show "received b (received a r) = received (a @ b) r"
  proof (cases "rest = []")
    case True
    then show ?thesis
      using results_feed(2) [OF rd f] by (simp add: received_def f split: prod.splits)
  next
    case False
    then have "length rs \<le> k"
      using fr by simp
    then show ?thesis
      using results_feed(2) [OF rd f] by (simp add: received_def f feed_stop)
  qed
  have "results_ready (length b) rs"
    using results_feed(3) [OF _ f, of "length b"] rd ready_mono by simp
  then show "body_state (length b) (received a r)"
    using fr assms feed_stop [of a "hr_ordered_results r" "hr_result_pos_idx r" result_put] f
    by (cases "length (hr_ordered_results r) \<le> hr_result_pos_idx r") (auto simp: body_state_def received_def)
qed

lemma receive_body_received:
  "body_state (length (concat (map fst pieces))) r \<Longrightarrow>
   \<exists>t. receive_body beyond pieces r = (True, (received (concat (map fst pieces)) r)\<lparr>hr_timer := t\<rparr>)"
proof (induction pieces arbitrary: r)
  case Nil
  have "received [] r = r"
    by (simp add: received_def feed_stop)
  then show ?case
    by (auto intro: exI [of _ "hr_timer r"])
next
  case (Cons p pieces)
  obtain piece now where p: "p = (piece, now)"
    by (cases p)
  let ?rest = "concat (map fst pieces)"
  have bs: "body_state (length (piece @ ?rest)) r"
    using Cons.prems by (simp add: p)
  then have "body_state (length piece) r"
    by (auto simp: body_state_def elim: ready_mono)
  then obtain t where h: "ResponseHandler now beyond piece r = (length piece, (received piece r)\<lparr>hr_timer := t\<rparr>)"
    using ResponseHandler_received by blast
  have "body_state (length ?rest) ((received piece r)\<lparr>hr_timer := t\<rparr>)"
    using received_append(2) [OF bs] by (simp add: body_state_def)
  then obtain t' where "receive_body beyond pieces ((received piece r)\<lparr>hr_timer := t\<rparr>) =
      (True, (received ?rest ((received piece r)\<lparr>hr_timer := t\<rparr>))\<lparr>hr_timer := t'\<rparr>)"
    using Cons.IH by blast
  then show ?case
    using received_append(1) [OF bs] h by (auto simp: p received_timer)
qed

lemma header_body_state:
  assumes "n < 2 ^ 64"
  shows "body_state n (receive_headers ps ph g ctx ls (InitializeRequest r))"
proof -
  have "\<forall>io \<in> set (hr_ordered_results (receive_headers ps ph g ctx ls (InitializeRequest r))). new_result io"
    by (rule receive_headers_new) (simp add: InitializeRequest_def)
  moreover have "hr_infer_response_buffer (receive_headers ps ph g ctx ls (InitializeRequest r)) = []"
    by (simp add: receive_headers_frame InitializeRequest_def)
  ultimately show ?thesis
    using fresh_result_inv assms unfolding body_state_def results_ready_def new_result_def by auto
qed

section \<open>The pieces do not matter\<close>

text \<open>
  Claim C12. The client reads the same results whatever the pieces are in which the body of the response
  arrives, and whatever the memory holds beyond them: every piece is taken, no error is
  raised, and the request ends with the same results and the same binary response header.
\<close>

theorem client_receives_any_pieces:
  assumes "concat (map fst qs) = concat (map fst ps)" and "length (concat (map fst ps)) < 2 ^ 64"
  shows "\<exists>r1 t. receive_body beyond ps (receive_headers pst ph g ctx ls (InitializeRequest r)) = (True, r1) \<and>
    receive_body beyond' qs (receive_headers pst ph g ctx ls (InitializeRequest r)) = (True, r1\<lparr>hr_timer := t\<rparr>)"
proof -
  let ?r = "receive_headers pst ph g ctx ls (InitializeRequest r)" and ?buf = "concat (map fst ps)"
  have bs: "body_state (length (concat (map fst ps))) ?r" "body_state (length (concat (map fst qs))) ?r"
    using header_body_state assms by simp_all
  obtain t u where "receive_body beyond ps ?r = (True, (received ?buf ?r)\<lparr>hr_timer := t\<rparr>)"
    "receive_body beyond' qs ?r = (True, (received ?buf ?r)\<lparr>hr_timer := u\<rparr>)"
    using receive_body_received [OF bs(1)] receive_body_received [OF bs(2)] assms(1) by metis
  then show ?thesis
    by (intro exI [of _ "(received ?buf ?r)\<lparr>hr_timer := t\<rparr>"] exI [of _ u]) simp
qed

section \<open>What the results hold\<close>

text \<open>A tensor of fixed size that is there at once.\<close>

lemma set_batch_loop_fixed:
  "b1 \<noteq> 0 \<Longrightarrow> bufs_fit r \<Longrightarrow> n = re_batch_size r - re_bufs_idx r \<Longrightarrow> length out = n * unat b1 \<Longrightarrow>
   drop (re_bufs_idx r) (re_buffers r) = replicate n [] \<Longrightarrow> drop (re_bufs_idx r) (re_bufs_pos r) = replicate n 0 \<Longrightarrow>
   drop (re_bufs_idx r) (re_bufs_byte_size r) = replicate n 0 \<Longrightarrow>
   set_batch_loop b1 (out @ rest) t r = (t + length out,
     r\<lparr>re_buffers := take (re_bufs_idx r) (re_buffers r) @ split_sizes (replicate n (unat b1)) out,
       re_bufs_pos := take (re_bufs_idx r) (re_bufs_pos r) @ replicate n b1,
       re_bufs_byte_size := take (re_bufs_idx r) (re_bufs_byte_size r) @ replicate n b1,
       re_bufs_idx := re_batch_size r\<rparr>)"
proof (induction n arbitrary: out t r)
  case 0
  then show ?case
    by (auto simp: bufs_fit_def set_batch_loop_stop)
next
  case (Suc n)
  let ?k = "re_bufs_idx r" and ?b = "unat b1"
  have k: "?k < re_batch_size r" "length (re_buffers r) = re_batch_size r"
    "length (re_bufs_pos r) = re_batch_size r" "length (re_bufs_byte_size r) = re_batch_size r"
    using Suc.prems(2,3) by (auto simp: bufs_fit_def)
  have at: "re_buffers r ! ?k = []" "re_bufs_pos r ! ?k = 0" "re_bufs_byte_size r ! ?k = 0"
    using nth_tail [OF _ Suc.prems(5)] nth_tail [OF _ Suc.prems(6)] nth_tail [OF _ Suc.prems(7)] k by auto
  have b: "0 < ?b"
    using Suc.prems(1) by (simp add: unat_gt_0)
  have long: "?b \<le> length (out @ rest)" "out @ rest \<noteq> []"
    using Suc.prems(4) b by auto
  let ?r = "one_batch ?b (out @ rest) r"
  have step: "set_batch_loop b1 (out @ rest) t r = set_batch_loop b1 (drop ?b out @ rest) (t + ?b) ?r"
    using set_batch_loop_pass [OF _ long(2) pass_slot [OF Suc.prems(2) k(1) at Suc.prems(1) long(1)], of t] k Suc.prems(4)
    by simp
  have tail: "drop (Suc ?k) xs = replicate n c" if "drop ?k xs = replicate (Suc n) c" for xs and c :: "'z"
    using arg_cong [OF that, of "drop 1"] by simp
  have r1: "re_bufs_idx ?r = Suc ?k" "re_batch_size ?r = re_batch_size r" "bufs_fit ?r"
    "re_buffers ?r = (re_buffers r)[?k := take ?b (out @ rest)]" "re_bufs_pos ?r = (re_bufs_pos r)[?k := b1]"
    "re_bufs_byte_size ?r = (re_bufs_byte_size r)[?k := b1]"
    using Suc.prems(2) k(1) by (simp_all add: one_batch_def bufs_fit_def)
  have n: "n = re_batch_size ?r - re_bufs_idx ?r"
    using Suc.prems(3) by (simp add: r1)
  have len: "length (drop ?b out) = n * ?b"
    using Suc.prems(4) by simp
  have d: "drop (re_bufs_idx ?r) (re_buffers ?r) = replicate n []" "drop (re_bufs_idx ?r) (re_bufs_pos ?r) = replicate n 0"
    "drop (re_bufs_idx ?r) (re_bufs_byte_size ?r) = replicate n 0"
    using tail [OF Suc.prems(5)] tail [OF Suc.prems(6)] tail [OF Suc.prems(7)] by (simp_all add: r1)
  note Suc.IH [OF Suc.prems(1) r1(3) n len d, of "t + ?b"]
  then show ?case
    using step k Suc.prems(4) by (simp add: r1(1,2,4-6) take_Suc_conv_app_nth) (simp add: one_batch_def)
qed

text \<open>
  The sizes of the batch entries in the bytes of an output, whether the bytes are an output
  of the result, and the result that has them.
\<close>

definition entry_sizes :: "result_impl \<Rightarrow> bytes \<Rightarrow> nat list" where
  "entry_sizes r out =
     (if re_has_fixed_batch1_byte_size r then replicate (re_batch_size r) (unat (re_batch1_byte_size r))
      else fst (batches_loop no_bytes out (re_batch1_element_count r) (re_batch_size r) 0 []))"

definition output_matches :: "result_impl \<Rightarrow> bytes \<Rightarrow> bool" where
  "output_matches r out \<longleftrightarrow>
     (if re_result_format r \<noteq> RAW then out = []
      else if re_has_fixed_batch1_byte_size r then length out = re_batch_size r * unat (re_batch1_byte_size r)
      else complete r out (entry_sizes r out) (length out))"

definition with_output :: "result_impl \<Rightarrow> bytes \<Rightarrow> result_impl" where
  "with_output r out = (if re_result_format r = RAW then filled (entry_sizes r out) out r else r)"

text \<open>A result takes its output, and nothing of what follows.\<close>

definition takes :: "bytes \<Rightarrow> result_impl \<Rightarrow> result_impl \<Rightarrow> bool" where
  "takes out r r' \<longleftrightarrow> (\<forall>rest. rest \<noteq> [] \<longrightarrow> length (out @ rest) < 2 ^ 64 \<longrightarrow>
     (if out = [] then result_put rest r = (0, r')
      else result_put (out @ rest) r = (length out, r') \<and> result_put rest r' = (0, r')))"

lemma feed_takes:
  assumes "takes out (rs ! k) r'" and "rest \<noteq> []" and "length (out @ rest) < 2 ^ 64" and "k < length rs"
  shows "feed result_put (out @ rest) k rs = feed result_put rest (Suc k) (rs[k := r'])"
proof (cases "out = []")
  case True
  then have "result_put rest (rs ! k) = (0, r')"
    using assms(1-3) by (simp add: takes_def)
  then show ?thesis
    using feed_step [of rest k rs result_put] assms(2,4) True by simp
next
  case False
  then have "result_put (out @ rest) (rs ! k) = (length out, r')" "result_put rest r' = (0, r')"
    using assms(1-3) by (auto simp: takes_def)
  then show ?thesis
    using feed_step [of "out @ rest" k rs result_put] feed_step [of rest k "rs[k := r']" result_put] assms(2,4) False
    by simp
qed

lemma feed_all:
  "list_all2 (\<lambda>r out. takes out r (f r out)) rs outs \<Longrightarrow> tail \<noteq> [] \<Longrightarrow> length (concat outs @ tail) < 2 ^ 64 \<Longrightarrow>
   feed result_put (concat outs @ tail) (length ds) (ds @ rs) = (tail, length ds + length rs, ds @ map2 f rs outs)"
proof (induction rs outs arbitrary: ds rule: list_all2_induct)
  case Nil
  then show ?case
    by (simp add: feed_stop)
next
  case (Cons r rs out outs)
  have "feed result_put (out @ concat outs @ tail) (length ds) (ds @ r # rs) =
      feed result_put (concat outs @ tail) (length (ds @ [f r out])) ((ds @ [f r out]) @ rs)"
    using feed_takes [of out "ds @ r # rs" "length ds" "f r out" "concat outs @ tail"] Cons.hyps Cons.prems by simp
  then show ?case
    using Cons.IH [of "ds @ [f r out]"] Cons.prems by simp
qed

lemma split_zero: "split_sizes (replicate n 0) out = replicate n []"
  by (induction n) simp_all

lemma filled_zero: "fresh r \<Longrightarrow> filled (replicate (re_batch_size r) 0) out r = r\<lparr>re_bufs_idx := re_batch_size r\<rparr>"
  by (simp add: filled_def split_zero fresh_def)

lemma takes_fixed:
  assumes new: "new_result r" and f: "output_matches r out" and raw: "re_result_format r = RAW"
    and fixed: "re_has_fixed_batch1_byte_size r"
  shows "takes out r (with_output r out)"
proof -
  let ?b1 = "re_batch1_byte_size r" and ?n = "re_batch_size r"
  have fr: "fresh r" and fit: "bufs_fit r"
    using new by (auto simp: new_result_def bufs_fit_def fresh_def)
  have len: "length out = ?n * unat ?b1"
    using f raw fixed by (simp add: output_matches_def)
  have w: "with_output r out = filled (replicate ?n (unat ?b1)) out r"
    using raw fixed by (simp add: with_output_def entry_sizes_def)
  have put: "result_put buf s = SetBatchRawResult ?b1 buf s"
    if "bufs_fit s" "result_kind s = result_kind r" for buf s
    using that put_fixed [of s no_bytes buf] raw fixed by (auto simp: result_put_def result_kind_def)
  have wk: "bufs_fit (with_output r out)" "result_kind (with_output r out) = result_kind r"
    "re_bufs_idx (with_output r out) = length (re_buffers (with_output r out))"
    using fit by (simp_all add: w filled_def bufs_fit_def result_kind_def)
  have done': "result_put rest (with_output r out) = (0, with_output r out)" for rest
    using put [OF wk(1,2)] wk(3) by (simp add: SetBatchRawResult_def set_batch_loop_stop)
  show ?thesis
  proof (cases "?b1 = 0 \<or> ?n = 0")
    case True
    then have z: "with_output r out = r\<lparr>re_bufs_idx := ?n\<rparr>" "out = []"
      using filled_zero [OF fr, of out] len by (auto simp: w)
    have "SetBatchRawResult ?b1 rest r = (0, r\<lparr>re_bufs_idx := ?n\<rparr>)" for rest
      using True fr by (auto simp: SetBatchRawResult_def set_batch_loop_stop fresh_def)
    then have "takes [] r (r\<lparr>re_bufs_idx := ?n\<rparr>)"
      using put [OF fit refl] by (simp add: takes_def)
    then show ?thesis
      using z by metis
  next
    case False
    then have "out \<noteq> []"
      using len by (auto simp: unat_eq_zero)
    moreover have "SetBatchRawResult ?b1 (out @ rest) r = (length out, with_output r out)" for rest
      using set_batch_loop_fixed [of ?b1 r ?n out rest 0] False fit len fr
      by (simp add: SetBatchRawResult_def w filled_def fresh_def map_replicate)
    ultimately show ?thesis
      using put [OF fit refl] done' by (simp add: takes_def)
  qed
qed

lemma takes_string:
  assumes new: "new_result r" and f: "output_matches r out" and raw: "re_result_format r = RAW"
    and var: "\<not> re_has_fixed_batch1_byte_size r"
  shows "takes out r (with_output r out)"
proof -
  let ?n = "re_batch_size r" and ?szs = "entry_sizes r out"
  have fr: "fresh r" and fit: "bufs_fit r" and p: "re_pending r = []"
    using new by (auto simp: new_result_def bufs_fit_def fresh_def)
  have c: "complete r out ?szs (length out)"
    using f raw var by (simp add: output_matches_def)
  note szs = parsed_sizes [OF c]
  have w: "with_output r out = (filled ?szs out r)\<lparr>re_pending := []\<rparr>"
    using raw p by (simp add: with_output_def filled_def)
  have d: "result_put rest (with_output r out) = (0, with_output r out)" for rest
    using filled_done [OF fit, of ?szs out] szs var unfolding w by (intro result_put_done) (auto simp: filled_def)
  show ?thesis
  proof (cases "?n = 0")
    case True
    then have "out = []" "with_output r out = r"
      using szs fr p by (auto simp: w filled_def fresh_def)
    then show ?thesis
      using d by (simp add: takes_def)
  next
    case False
    then have wait: "waiting r"
      using fr p by (simp add: waiting_def)
    have "result_put (out @ rest) r = (length out, with_output r out)" if "length (out @ rest) < 2 ^ 64" for rest
    proof -
      have "complete r (re_pending r @ (out @ rest)) ?szs (length out)"
        using parsed_extend [OF c, of no_bytes rest] by (simp add: p)
      then have "SetNextRawResult no_bytes (out @ rest) False r =
          (Error_Success, length out, (filled ?szs (out @ rest) r)\<lparr>re_pending := []\<rparr>)"
        using put_string_complete [OF fit var wait, of "out @ rest" ?szs "length out" no_bytes] that by (simp add: p)
      moreover have "filled ?szs (out @ rest) r = filled ?szs out r"
        using szs by (simp add: filled_def split_sizes_append)
      ultimately show ?thesis
        using raw by (simp add: result_put_def w)
    qed
    then show ?thesis
      using d by (auto simp: takes_def)
  qed
qed

lemma takes_output:
  assumes "new_result r" and "output_matches r out"
  shows "takes out r (with_output r out)"
proof (cases "re_result_format r = RAW")
  case True
  then show ?thesis
    using takes_fixed takes_string assms by blast
next
  case False
  then show ?thesis
    using assms(2) by (auto simp: takes_def output_matches_def with_output_def result_put_def)
qed

text \<open>
  The results hold the outputs: when the body of the response is the outputs in the order of the
  header and something after them, then whatever the pieces are in which it arrives, every raw
  result ends with the bytes of its output, divided among the entries of the batch, a class
  result takes nothing, and what follows the outputs is kept as the binary response header.
\<close>

lemma received_outputs:
  assumes new: "\<forall>io \<in> set (hr_ordered_results r). new_result io" and idx: "hr_result_pos_idx r = 0"
    and none: "hr_infer_response_buffer r = []"
    and outs: "list_all2 output_matches (hr_ordered_results r) outs" and "tail \<noteq> []"
    and len: "length (concat outs @ tail) < 2 ^ 64" and pieces: "concat (map fst ps) = concat outs @ tail"
  shows "\<exists>r1. receive_body beyond ps r = (True, r1) \<and>
    hr_ordered_results r1 = map2 with_output (hr_ordered_results r) outs \<and> hr_infer_response_buffer r1 = tail \<and>
    hr_request_status r1 = hr_request_status r \<and> hr_response_header r1 = hr_response_header r"
proof -
  have "results_ready (length (concat (map fst ps))) (hr_ordered_results r)"
    using fresh_result_inv new len unfolding results_ready_def new_result_def pieces by auto
  then have "body_state (length (concat (map fst ps))) r"
    by (simp add: body_state_def none)
  then obtain t where b: "receive_body beyond ps r = (True, (received (concat outs @ tail) r)\<lparr>hr_timer := t\<rparr>)"
    using receive_body_received [of ps r beyond] by (auto simp: pieces)
  have "list_all2 (\<lambda>r out. takes out r (with_output r out)) (hr_ordered_results r) outs"
    using outs new by (auto intro!: takes_output simp: list_all2_conv_all_nth)
  then have "feed result_put (concat outs @ tail) 0 (hr_ordered_results r) =
      (tail, length (hr_ordered_results r), map2 with_output (hr_ordered_results r) outs)"
    using feed_all [of with_output "hr_ordered_results r" outs tail "[]"] assms(5) len by simp
  then show ?thesis
    using b by (simp add: received_def idx none)
qed

text \<open>
  The results hold the outputs: the header lines of the response create the results. When the body
  is an output for each of them, in their order, and something after them, then whatever the
  pieces are in which it arrives, every raw result ends with the bytes of its output, divided
  among the entries of the batch, a class result takes nothing, and what follows the outputs
  is kept as the binary response header.
\<close>

theorem client_results_hold_outputs:
  assumes "list_all2 output_matches (hr_ordered_results (receive_headers pst ph g ctx ls (InitializeRequest r))) outs"
    and "tail \<noteq> []" and "length (concat outs @ tail) < 2 ^ 64" and "concat (map fst ps) = concat outs @ tail"
  shows "\<exists>r1. receive_body beyond ps (receive_headers pst ph g ctx ls (InitializeRequest r)) = (True, r1) \<and>
    hr_ordered_results r1 =
      map2 with_output (hr_ordered_results (receive_headers pst ph g ctx ls (InitializeRequest r))) outs \<and>
    hr_infer_response_buffer r1 = tail"
proof -
  let ?r = "receive_headers pst ph g ctx ls (InitializeRequest r)"
  have "\<forall>io \<in> set (hr_ordered_results ?r). new_result io"
    by (rule receive_headers_new) (simp add: InitializeRequest_def)
  moreover have "hr_result_pos_idx ?r = 0" "hr_infer_response_buffer ?r = []"
    by (simp_all add: receive_headers_frame InitializeRequest_def)
  ultimately show ?thesis
    using received_outputs [OF _ _ _ assms] by blast
qed

definition example_output :: "string \<Rightarrow> data_type \<Rightarrow> output_impl" where
  "example_output name dt = OutputImpl \<lparr>mo_name = name, mo_data_type = dt, mo_dims = [3], mo_reshape = None, mo_label_filename = []\<rparr>"

definition example_context :: infer_context where
  "example_context = (InferContextImpl ''m'' 1 0)\<lparr>ic_outputs := [example_output ''O'' TYPE_INT8, example_output ''S'' TYPE_STRING]\<rparr>"

definition example_header :: "string \<Rightarrow> response_header option" where
  "example_header = (\<lambda>_. Some \<lparr>sh_id = 0, sh_model_name = ''m'', sh_model_version = 1, sh_batch_size = 2,
     sh_output = [\<lparr>so_name = ''O'', so_raw = Some \<lparr>rr_dims = [3], rr_batch_byte_size = 6\<rparr>, so_batch_classes = []\<rparr>,
                  \<lparr>so_name = ''S'', so_raw = Some \<lparr>rr_dims = [1], rr_batch_byte_size = 0\<rparr>, so_batch_classes = []\<rparr>]\<rparr>)"

abbreviation example_request :: http_request where
  "example_request \<equiv> receive_headers (\<lambda>_. None) example_header 0 example_context [''NV-InferResponse:h'']
     (InitializeRequest (HttpRequestImpl 1 []))"

definition example_outputs :: "bytes list" where
  "example_outputs = [[1, 2, 3, 4, 5, 6], [1, 0, 0, 0, 7, 0, 0, 0, 0]]"

lemma example_results:
  "hr_ordered_results example_request =
    [SetBatchnByteSize 6 (SetBatch1Shape [3] (ResultImpl 0 (example_output ''O'' TYPE_INT8) 2)),
     SetBatch1Shape [1] (ResultImpl 0 (example_output ''S'' TYPE_STRING) 2)]"
  by code_simp

lemma example_fits: "list_all2 output_matches (hr_ordered_results example_request) example_outputs"
  unfolding example_results by code_simp

theorem client_receives_any_pieces_witness:
  "\<exists>r1 t. receive_body (\<lambda>_. 255) [([1, 2, 3, 4, 5, 6, 1, 0, 0, 0, 7, 0, 0, 0, 0, 9], (0, 0))] example_request = (True, r1) \<and>
    receive_body no_bytes [([1, 2], (0, 0)), ([3, 4, 5, 6, 1, 0], (1, 0)), ([0], (2, 0)), ([0, 7, 0, 0, 0, 0, 9], (3, 0))]
      example_request = (True, r1\<lparr>hr_timer := t\<rparr>)"
  by (rule client_receives_any_pieces) simp_all

theorem client_results_hold_outputs_witness:
  "\<exists>r1. receive_body no_bytes [([1, 2], (0, 0)), ([3, 4, 5, 6, 1, 0], (1, 0)), ([0], (2, 0)), ([0, 7, 0, 0, 0, 0, 9], (3, 0))]
      example_request = (True, r1) \<and>
    map re_buffers (hr_ordered_results r1) = [[[1, 2, 3], [4, 5, 6]], [[1, 0, 0, 0, 7], [0, 0, 0, 0]]] \<and>
    hr_infer_response_buffer r1 = [9]"
proof -
  have "map re_buffers (map2 with_output (hr_ordered_results example_request) example_outputs) =
      [[[1, 2, 3], [4, 5, 6]], [[1, 0, 0, 0, 7], [0, 0, 0, 0]]]"
    unfolding example_results by code_simp
  then show ?thesis
    using client_results_hold_outputs [OF example_fits, of "[9]"
        "[([1, 2], (0, 0)), ([3, 4, 5, 6, 1, 0], (1, 0)), ([0], (2, 0)), ([0, 7, 0, 0, 0, 0, 9], (3, 0))]" no_bytes]
    by (auto simp: example_outputs_def)
qed

end
