(* ===== verification/Client_Send_Props.thy ===== *)
theory Client_Send_Props
  imports Client_Http
begin

text \<open>
  What the client sends: the bytes of the inputs in order, however libcurl reads them, with the
  size it announced.
\<close>

section \<open>Reading an input\<close>

definition block_at :: "client_memory \<Rightarrow> nat \<Rightarrow> 64 word \<Rightarrow> bytes" where
  "block_at m a n = (case cm_blocks m a of None \<Rightarrow> [] | Some bs \<Rightarrow> take (unat n) bs)"

definition input_blocks :: "client_memory \<Rightarrow> input_impl \<Rightarrow> bytes list" where
  "input_blocks m i = map2 (block_at m) (ii_bufs i) (ii_buf_byte_sizes i)"

definition live_block :: "client_memory \<Rightarrow> nat \<Rightarrow> 64 word \<Rightarrow> bool" where
  "live_block m a n \<longleftrightarrow> (\<exists>bs. cm_blocks m a = Some bs \<and> unat n \<le> length bs)"

definition input_ok :: "client_memory \<Rightarrow> input_impl \<Rightarrow> bool" where
  "input_ok m i \<longleftrightarrow>
     list_all2 (live_block m) (ii_bufs i) (ii_buf_byte_sizes i) \<and> ii_bufs_idx i \<le> length (ii_bufs i) \<and>
     (if ii_bufs_idx i < length (ii_bufs i) then ii_buf_pos i \<le> ii_buf_byte_sizes i ! ii_bufs_idx i
      else ii_buf_pos i = 0)"

definition remaining :: "client_memory \<Rightarrow> input_impl \<Rightarrow> bytes" where
  "remaining m i =
     (if ii_bufs_idx i < length (ii_bufs i)
      then drop (unat (ii_buf_pos i)) (input_blocks m i ! ii_bufs_idx i) @
             concat (drop (Suc (ii_bufs_idx i)) (input_blocks m i))
      else [])"

definition same_data :: "input_impl \<Rightarrow> input_impl \<Rightarrow> bool" where
  "same_data i i' \<longleftrightarrow> i'\<lparr>ii_bufs_idx := 0, ii_buf_pos := 0\<rparr> = i\<lparr>ii_bufs_idx := 0, ii_buf_pos := 0\<rparr>"

lemma same_dataD:
  assumes "same_data i i'"
  shows "ii_bufs i' = ii_bufs i" and "ii_buf_byte_sizes i' = ii_buf_byte_sizes i"
    and "input_blocks m i' = input_blocks m i" and "ii_batch_size i' = ii_batch_size i"
    and "ii_total_byte_size i' = ii_total_byte_size i"
proof -
  note d = assms [unfolded same_data_def]
  show "ii_bufs i' = ii_bufs i" "ii_buf_byte_sizes i' = ii_buf_byte_sizes i" "ii_batch_size i' = ii_batch_size i"
    "ii_total_byte_size i' = ii_total_byte_size i"
    using arg_cong [OF d, of ii_bufs] arg_cong [OF d, of ii_buf_byte_sizes] arg_cong [OF d, of ii_batch_size]
      arg_cong [OF d, of ii_total_byte_size] by simp_all
  then show "input_blocks m i' = input_blocks m i"
    by (simp add: input_blocks_def)
qed

lemma same_data_refl [simp]: "same_data i i"
  by (simp add: same_data_def)

lemma same_data_trans: "same_data i j \<Longrightarrow> same_data j k \<Longrightarrow> same_data i k"
  by (simp add: same_data_def)

lemma input_blocks_at:
  assumes "input_ok m i" and "k < length (ii_bufs i)"
  shows "length (input_blocks m i) = length (ii_bufs i)"
    and "input_blocks m i ! k = block_at m (ii_bufs i ! k) (ii_buf_byte_sizes i ! k)"
    and "length (input_blocks m i ! k) = unat (ii_buf_byte_sizes i ! k)"
    and "live_block m (ii_bufs i ! k) (ii_buf_byte_sizes i ! k)"
proof -
  have l: "list_all2 (live_block m) (ii_bufs i) (ii_buf_byte_sizes i)"
    using assms(1) by (simp add: input_ok_def)
  then show "length (input_blocks m i) = length (ii_bufs i)"
    and b: "input_blocks m i ! k = block_at m (ii_bufs i ! k) (ii_buf_byte_sizes i ! k)"
    using assms(2) by (simp_all add: input_blocks_def list_all2_lengthD)
  show lv: "live_block m (ii_bufs i ! k) (ii_buf_byte_sizes i ! k)"
    using l assms(2) by (simp add: list_all2_conv_all_nth)
  then show "length (input_blocks m i ! k) = unat (ii_buf_byte_sizes i ! k)"
    unfolding b by (auto simp: block_at_def live_block_def)
qed

lemma get_next_step:
  assumes ok: "input_ok m i" and sz: "ii_bufs_idx i < length (ii_bufs i) \<and> sz > 0"
    and csz: "csz = min (ii_buf_byte_sizes i ! ii_bufs_idx i - ii_buf_pos i) sz"
    and i': "i' = (if ii_buf_pos i + csz = ii_buf_byte_sizes i ! ii_bufs_idx i
                   then i\<lparr>ii_bufs_idx := Suc (ii_bufs_idx i), ii_buf_pos := 0\<rparr>
                   else i\<lparr>ii_buf_pos := ii_buf_pos i + csz\<rparr>)"
  shows "(if csz > 0 then read_block m (ii_bufs i ! ii_bufs_idx i) (unat (ii_buf_pos i)) (unat csz) else Some []) =
           Some (take (unat csz) (remaining m i))"
    and "input_ok m i'" and "same_data i i'" and "remaining m i' = drop (unat csz) (remaining m i)"
    and "unat csz \<le> unat sz"
proof -
  let ?k = "ii_bufs_idx i" and ?p = "ii_buf_pos i"
  let ?n = "ii_buf_byte_sizes i ! ?k"
  let ?b = "input_blocks m i ! ?k"
  note at = input_blocks_at [OF ok conjunct1 [OF sz]]
  have pn: "?p \<le> ?n"
    using ok sz by (simp add: input_ok_def)
  then have np: "unat (?n - ?p) = unat ?n - unat ?p" and upn: "unat ?p \<le> unat ?n"
    by (simp_all add: unat_sub word_le_nat_alt)
  have cle: "unat csz \<le> unat ?n - unat ?p"
    using csz np by (metis min.cobounded1 word_le_nat_alt)
  have r: "remaining m i = drop (unat ?p) ?b @ concat (drop (Suc ?k) (input_blocks m i))"
    using sz by (simp add: remaining_def)
  have tk: "take (unat csz) (remaining m i) = take (unat csz) (drop (unat ?p) ?b)"
    and dk: "drop (unat csz) (remaining m i) = drop (unat ?p + unat csz) ?b @ concat (drop (Suc ?k) (input_blocks m i))"
    using cle at(3) by (simp_all add: r add.commute)
  show "unat csz \<le> unat sz"
    using csz by (metis min.cobounded2 word_le_nat_alt)
  show "(if csz > 0 then read_block m (ii_bufs i ! ?k) (unat ?p) (unat csz) else Some []) =
           Some (take (unat csz) (remaining m i))"
  proof (cases "csz > 0")
    case False
    then have "unat csz = 0"
      by (metis unat_0 word_neq_0_conv)
    then show ?thesis
      using False by simp
  next
    case True
    obtain bs where bs: "cm_blocks m (ii_bufs i ! ?k) = Some bs" "unat ?n \<le> length bs"
      using at(4) by (auto simp: live_block_def)
    have b: "?b = take (unat ?n) bs"
      using at(2) bs(1) by (simp add: block_at_def)
    have "take (unat csz) (drop (unat ?p) ?b) = take (unat csz) (drop (unat ?p) bs)"
      using cle upn unfolding b by (simp add: take_drop min_def)
    then show ?thesis
      using True bs cle upn unfolding tk by (simp add: read_block_def)
  qed
  show "same_data i i'"
    by (simp add: same_data_def i')
  have "unat ?n < 2 ^ LENGTH(64)"
    by (rule unsigned_less)
  then have sum: "unat (?p + csz) = unat ?p + unat csz"
    using cle upn by (simp add: unat_plus_if')
  show "input_ok m i'"
  proof (cases "?p + csz = ?n")
    case True
    then show ?thesis
      using ok sz by (auto simp: i' input_ok_def)
  next
    case False
    have "?p + csz \<le> ?n"
      using cle upn sum by (simp add: word_le_nat_alt)
    then show ?thesis
      using False ok sz by (simp add: i' input_ok_def)
  qed
  show "remaining m i' = drop (unat csz) (remaining m i)"
  proof (cases "?p + csz = ?n")
    case True
    then have "unat ?p + unat csz = length ?b"
      using sum at(3) by simp
    then have "drop (unat csz) (remaining m i) = concat (drop (Suc ?k) (input_blocks m i))"
      using dk by simp
    also have "\<dots> = remaining m i'"
    proof (cases "Suc ?k < length (ii_bufs i)")
      case True
      then show ?thesis
        using \<open>?p + csz = ?n\<close> at(1) by (simp add: i' remaining_def input_blocks_def Cons_nth_drop_Suc [symmetric])
    next
      case False
      then show ?thesis
        using \<open>?p + csz = ?n\<close> at(1) by (simp add: i' remaining_def)
    qed
    finally show ?thesis ..
  next
    case False
    then show ?thesis
      using sz sum dk by (simp add: i' remaining_def input_blocks_def)
  qed
qed

lemma get_next_loop_spec:
  "input_ok m i \<Longrightarrow> \<exists>i'. get_next_loop m sz acc i = Some (acc @ take (unat sz) (remaining m i), i') \<and>
     input_ok m i' \<and> same_data i i' \<and> remaining m i' = drop (unat sz) (remaining m i)"
proof (induction m sz acc i rule: get_next_loop.induct)
  case (1 m sz acc i)
  show ?case
  proof (cases "ii_bufs_idx i < length (ii_bufs i) \<and> sz > 0")
    case False
    then have "take (unat sz) (remaining m i) = [] \<and> drop (unat sz) (remaining m i) = remaining m i"
      by (cases "sz = 0") (auto simp: remaining_def word_neq_0_conv)
    moreover have "get_next_loop m sz acc i = Some (acc, i)"
      by (subst get_next_loop.simps) (simp only: if_not_P [OF False])
    ultimately show ?thesis
      using "1.prems" by simp
  next
    case True
    let ?csz = "min (ii_buf_byte_sizes i ! ii_bufs_idx i - ii_buf_pos i) sz"
    let ?i = "if ii_buf_pos i + ?csz = ii_buf_byte_sizes i ! ii_bufs_idx i
      then i\<lparr>ii_bufs_idx := Suc (ii_bufs_idx i), ii_buf_pos := 0\<rparr> else i\<lparr>ii_buf_pos := ii_buf_pos i + ?csz\<rparr>"
    note step = get_next_step [OF "1.prems" True refl refl]
    obtain i' where i': "get_next_loop m (sz - ?csz) (acc @ take (unat ?csz) (remaining m i)) ?i =
        Some ((acc @ take (unat ?csz) (remaining m i)) @ take (unat (sz - ?csz)) (remaining m ?i), i')"
      "input_ok m i'" "same_data ?i i'" "remaining m i' = drop (unat (sz - ?csz)) (remaining m ?i)"
      using "1.IH" [OF True refl refl step(1) refl step(2)] by blast
    have sub: "unat (sz - ?csz) = unat sz - unat ?csz"
      using step(5) by (simp add: unat_sub word_le_nat_alt)
    have "get_next_loop m sz acc i = get_next_loop m (sz - ?csz) (acc @ take (unat ?csz) (remaining m i)) ?i"
      using True step(1) by (subst get_next_loop.simps) (simp add: Let_def)
    then have "get_next_loop m sz acc i = Some (acc @ take (unat sz) (remaining m i), i')"
      using i'(1) step(4,5) sub
      by (simp add: take_add [of "unat ?csz" "unat sz - unat ?csz", symmetric])
    moreover have "remaining m i' = drop (unat sz) (remaining m i)"
      using i'(4) step(4,5) sub by simp
    ultimately show ?thesis
      using i'(2) same_data_trans [OF step(3) i'(3)] by blast
  qed
qed

section \<open>Reading the body of a request\<close>

definition request_rest :: "client_memory \<Rightarrow> http_request \<Rightarrow> bytes" where
  "request_rest m r = concat (map (remaining m) (drop (hr_input_pos_idx r) (hr_inputs r)))"

definition inputs_ok :: "client_memory \<Rightarrow> http_request \<Rightarrow> bool" where
  "inputs_ok m r \<longleftrightarrow> (\<forall>io \<in> set (hr_inputs r). input_ok m io)"

lemma next_input_loop_spec:
  "inputs_ok m r \<Longrightarrow> \<exists>r'. next_input_loop m sz acc r = Some (acc @ take (unat sz) (request_rest m r), r') \<and>
     inputs_ok m r' \<and> request_rest m r' = drop (unat sz) (request_rest m r)"
proof (induction m sz acc r rule: next_input_loop.induct)
  case (1 m sz acc r)
  let ?k = "hr_input_pos_idx r"
  show ?case
  proof (cases "0 < sz \<and> ?k < length (hr_inputs r)")
    case False
    then have "sz = 0 \<or> request_rest m r = []"
      by (auto simp: request_rest_def word_neq_0_conv)
    moreover have "next_input_loop m sz acc r = Some (acc, r)"
      by (subst next_input_loop.simps) (simp only: if_not_P [OF False])
    ultimately show ?thesis
      using "1.prems" by auto
  next
    case True
    let ?i = "hr_inputs r ! ?k"
    let ?rest = "concat (map (remaining m) (drop (Suc ?k) (hr_inputs r)))"
    let ?bs = "take (unat sz) (remaining m ?i)"
    have ok: "input_ok m ?i"
      using "1.prems" True by (simp add: inputs_ok_def)
    obtain i' where i': "get_next_loop m sz [] ?i = Some (?bs, i')" "input_ok m i'"
      "remaining m i' = drop (unat sz) (remaining m ?i)"
      using get_next_loop_spec [OF ok, of sz "[]"] by auto
    let ?eoi = "ii_bufs_idx i' \<ge> length (ii_bufs i')"
    let ?r = "r\<lparr>hr_inputs := (hr_inputs r)[?k := i'], hr_input_pos_idx := (if ?eoi then Suc ?k else ?k)\<rparr>"
    have next': "input_GetNext m sz ?i = Some (?bs, ?eoi, i')"
      by (simp add: input_GetNext_def i'(1))
    have ok': "inputs_ok m ?r"
      using "1.prems" i'(2) by (auto simp: inputs_ok_def dest!: set_update_subset_insert [THEN subsetD])
    have sub: "unat (sz - of_nat (length ?bs)) = unat sz - length ?bs"
      by (rule unat_sub_length) simp
    have rest: "request_rest m r = remaining m ?i @ ?rest"
      using True by (simp add: request_rest_def Cons_nth_drop_Suc [symmetric])
    obtain r' where r': "next_input_loop m (sz - of_nat (length ?bs)) (acc @ ?bs) ?r =
        Some ((acc @ ?bs) @ take (unat (sz - of_nat (length ?bs))) (request_rest m ?r), r')"
      "inputs_ok m r'" "request_rest m r' = drop (unat (sz - of_nat (length ?bs))) (request_rest m ?r)"
      using "1.IH" [OF True next' refl refl ok'] by blast
    have step: "next_input_loop m sz acc r = next_input_loop m (sz - of_nat (length ?bs)) (acc @ ?bs) ?r"
      using True next' by (subst next_input_loop.simps) simp
    show ?thesis
    proof (cases ?eoi)
      case True
      then have "remaining m i' = []"
        by (simp add: remaining_def)
      then have le: "length (remaining m ?i) \<le> unat sz"
        using i'(3) by simp
      moreover have "request_rest m ?r = ?rest"
        using True by (simp add: request_rest_def drop_update_cancel)
      ultimately show ?thesis
        using r' step rest sub by (auto intro!: exI [of _ r'])
    next
      case False
      then have "length ?bs = unat sz"
        using get_next_loop_end [OF i'(1)] by simp
      moreover have "request_rest m ?r = drop (unat sz) (remaining m ?i) @ ?rest"
        using False \<open>0 < sz \<and> ?k < length (hr_inputs r)\<close> i'(3)
        by (simp add: request_rest_def drop_update_swap Cons_nth_drop_Suc [symmetric])
      ultimately show ?thesis
        using r' step rest sub by (auto intro!: exI [of _ r'])
    qed
  qed
qed

lemma GetNextInput_spec:
  assumes "inputs_ok m r"
  shows "\<exists>r'. GetNextInput now m sz r = Some (take (unat sz) (request_rest m r), r') \<and>
     inputs_ok m r' \<and> request_rest m r' = drop (unat sz) (request_rest m r)"
  using next_input_loop_spec [OF assms, of sz "[]"]
  by (auto simp: GetNextInput_def inputs_ok_def request_rest_def)

lemma read_body_spec:
  "inputs_ok m r \<Longrightarrow> \<exists>bss r'. read_body m szs r = Some (bss, r') \<and> inputs_ok m r' \<and>
     concat bss = take (\<Sum>(sz, now)\<leftarrow>szs. unat sz) (request_rest m r)"
proof (induction szs arbitrary: r)
  case Nil
  then show ?case by simp
next
  case (Cons x szs)
  obtain sz now where x: "x = (sz, now)"
    by (cases x)
  obtain r1 where r1: "GetNextInput now m sz r = Some (take (unat sz) (request_rest m r), r1)"
    "inputs_ok m r1" "request_rest m r1 = drop (unat sz) (request_rest m r)"
    using GetNextInput_spec [OF Cons.prems] by blast
  obtain bss r' where "read_body m szs r1 = Some (bss, r')" "inputs_ok m r'"
    "concat bss = take (\<Sum>(sz, now)\<leftarrow>szs. unat sz) (request_rest m r1)"
    using Cons.IH [OF r1(2)] by blast
  then show ?case
    using r1 by (simp add: x take_add)
qed

section \<open>The invariant of an input\<close>

text \<open>
  The announced size is the size of the buffers. Every operation that succeeds keeps this; an
  operation that fails drops the buffers but not their size.
\<close>

definition counted_input :: "input_impl \<Rightarrow> bool" where
  "counted_input i \<longleftrightarrow>
     length (ii_buf_byte_sizes i) = length (ii_bufs i) \<and> ii_total_byte_size i = sum_list (ii_buf_byte_sizes i)"

lemma SetRaw_ok:
  assumes "SetRaw a n i m = (err, i', m')" and "Error_IsOk err"
  shows "i' = i\<lparr>ii_total_byte_size := ii_total_byte_size i + n, ii_bufs := ii_bufs i @ [a],
      ii_buf_byte_sizes := ii_buf_byte_sizes i @ [n]\<rparr>" and "m' = m"
    and "\<not> ii_needs_shape i" and "IsFixedSizeDataType (ii_DType i) \<longrightarrow> n = word_of_int (ii_byte_size i)"
    and "length (ii_bufs i) < unat (ii_batch_size i)"
  using assms by (auto simp: SetRaw_def shape_missing_def split: if_splits)

lemma counted_input_kept:
  "counted_input (InputImpl mio)"
  "counted_input i \<Longrightarrow> SetShape dims i = (err, i') \<Longrightarrow> counted_input i'"
  "counted_input i \<Longrightarrow> SetRaw a n i m = (err, i', m') \<Longrightarrow> Error_IsOk err \<Longrightarrow> counted_input i'"
  "counted_input i \<Longrightarrow> SetFromString strs i m = (err, i', m') \<Longrightarrow> Error_IsOk err \<Longrightarrow> counted_input i'"
  "input_Reset i m = (err, i', m') \<Longrightarrow> counted_input i'"
  "counted_input i \<Longrightarrow> PrepareForRequest i = (err, i') \<Longrightarrow> counted_input i'"
  "counted_input i \<Longrightarrow> InputImpl_copy i m = (i', m') \<Longrightarrow> counted_input i'"
proof -
  show raw: "counted_input i \<Longrightarrow> SetRaw a n i m = (err, i', m') \<Longrightarrow> Error_IsOk err \<Longrightarrow> counted_input i'" for i a n m err i' m'
    using SetRaw_ok(1) by (fastforce simp: counted_input_def)
  show "counted_input i \<Longrightarrow> SetFromString strs i m = (err, i', m') \<Longrightarrow> Error_IsOk err \<Longrightarrow> counted_input i'"
    using raw [of "i\<lparr>ii_str_bufs := ii_str_bufs i @ [fst (allocate (concat (map serialize_string strs)) m)]\<rparr>"]
    by (auto simp: SetFromString_def Let_def shape_missing_def counted_input_def split: if_splits prod.splits)
qed (auto simp: counted_input_def InputImpl_def Let_def SetShape_def input_Reset_def clear_bufs_def PrepareForRequest_def
      InputImpl_copy_def split: option.splits if_splits prod.splits)

text \<open>After a failed call the announced size is too large, whatever is set afterwards.\<close>

lemma failed_SetRaw_keeps_size:
  assumes "counted_input i" and "SetRaw a n i m = (err, i1, m1)" and "\<not> Error_IsOk err"
    and "SetRaw b k i1 m1 = (err', i2, m2)" and "Error_IsOk err'" and "ii_total_byte_size i \<noteq> 0"
  shows "ii_bufs i2 = [b] \<and> ii_total_byte_size i2 \<noteq> sum_list (ii_buf_byte_sizes i2)"
proof -
  have "ii_bufs i1 = [] \<and> ii_buf_byte_sizes i1 = [] \<and> ii_total_byte_size i1 = ii_total_byte_size i"
    using assms(2,3) by (auto simp: SetRaw_def clear_bufs_def split: if_splits)
  then show ?thesis
    using SetRaw_ok(1) [OF assms(4,5)] assms(6) by simp
qed

section \<open>What is sent\<close>

definition prepared :: "client_memory \<Rightarrow> input_impl \<Rightarrow> bool" where
  "prepared m i \<longleftrightarrow>
     list_all2 (live_block m) (ii_bufs i) (ii_buf_byte_sizes i) \<and> length (ii_bufs i) = unat (ii_batch_size i) \<and>
     counted_input i"

lemma prepared_rewind:
  assumes "prepared m i"
  shows "input_ok m (snd (PrepareForRequest i))" and "remaining m (snd (PrepareForRequest i)) = concat (input_blocks m i)"
proof -
  let ?i = "i\<lparr>ii_bufs_idx := 0, ii_buf_pos := 0\<rparr>"
  have i: "snd (PrepareForRequest i) = ?i"
    using assms by (simp add: PrepareForRequest_def prepared_def)
  show "input_ok m (snd (PrepareForRequest i))"
    unfolding i using assms by (simp add: prepared_def input_ok_def)
  have b: "input_blocks m ?i = input_blocks m i" "length (input_blocks m i) = length (ii_bufs i)"
    using assms by (simp_all add: input_blocks_def prepared_def counted_input_def)
  show "remaining m (snd (PrepareForRequest i)) = concat (input_blocks m i)"
  proof (cases "input_blocks m i")
    case Nil
    then show ?thesis
      unfolding i using b by (simp add: remaining_def)
  next
    case (Cons x xs)
    then show ?thesis
      unfolding i using b by (auto simp: remaining_def)
  qed
qed

lemma prepared_size:
  assumes "prepared m i"
  shows "ii_total_byte_size i = of_nat (length (concat (input_blocks m i)))"
proof -
  have "list_all2 (live_block m) as ns \<Longrightarrow> sum_list ns = of_nat (length (concat (map2 (block_at m) as ns)))" for as ns
    by (induction rule: list_all2_induct) (auto simp: block_at_def live_block_def)
  then show ?thesis
    using assms by (simp add: prepared_def counted_input_def input_blocks_def)
qed

definition request_body :: "client_memory \<Rightarrow> input_impl list \<Rightarrow> bytes" where
  "request_body m inputs = concat (map (\<lambda>i. concat (input_blocks m i)) inputs)"

lemma client_sends:
  assumes "\<forall>io \<in> set (ic_inputs ctx). prepared m io"
    and "PreRunProcessing True ctx (r\<lparr>hr_inputs := ic_inputs ctx\<rparr>) = (err, ctx', r1)"
  shows "inputs_ok m r1" and "request_rest m r1 = request_body m (ic_inputs ctx)"
    and "hr_total_input_byte_size r1 = of_nat (length (request_body m (ic_inputs ctx)))"
    and "rh_input (ic_infer_request ctx') = map request_input_of (ic_inputs ctx)"
proof -
  have r1: "hr_inputs r1 = map (\<lambda>io. snd (PrepareForRequest io)) (ic_inputs ctx)" "hr_input_pos_idx r1 = 0"
    "hr_total_input_byte_size r1 = (\<Sum>io\<leftarrow>ic_inputs ctx. ii_total_byte_size io)"
    using assms(2) by (auto simp: PreRunProcessing_def InitializeRequest_def Let_def)
  show "inputs_ok m r1"
    using assms(1) prepared_rewind(1) by (simp add: inputs_ok_def r1)
  show "request_rest m r1 = request_body m (ic_inputs ctx)"
    unfolding request_rest_def request_body_def r1
    using assms(1) prepared_rewind(2) by (simp cong: map_cong)
  have "(\<Sum>io\<leftarrow>ios. ii_total_byte_size io) = of_nat (length (request_body m ios))"
    if "\<forall>io \<in> set ios. prepared m io" for ios
    using that by (induction ios) (simp_all add: request_body_def prepared_size)
  then show "hr_total_input_byte_size r1 = of_nat (length (request_body m (ic_inputs ctx)))"
    using assms(1) r1(3) by simp
  show "rh_input (ic_infer_request ctx') = map request_input_of (ic_inputs ctx)"
    using assms(2) by (auto simp: PreRunProcessing_def Let_def)
qed

text \<open>
  The client sends what it announces: when every input of a context has its buffers, the header of
  the request lists the inputs, the announced size of the body is the size of all buffers, and
  whatever sizes libcurl reads the body with, it gets the bytes of the buffers in order,
  input after input and batch entry after batch entry, up to the end.
\<close>

theorem client_sends_inputs:
  assumes "\<forall>io \<in> set (ic_inputs ctx). prepared m io"
    and "PreRunProcessing True ctx (r\<lparr>hr_inputs := ic_inputs ctx\<rparr>) = (err, ctx', r1)"
  shows "\<exists>bss r2. read_body m szs r1 = Some (bss, r2) \<and>
    concat bss = take (\<Sum>(sz, now)\<leftarrow>szs. unat sz) (request_body m (ic_inputs ctx)) \<and>
    hr_total_input_byte_size r1 = of_nat (length (request_body m (ic_inputs ctx))) \<and>
    rh_input (ic_infer_request ctx') = map request_input_of (ic_inputs ctx)"
  using read_body_spec [OF client_sends(1) [OF assms], of szs] client_sends(2,3,4) [OF assms] by auto

definition sent_memory :: client_memory where
  "sent_memory = \<lparr>cm_blocks = [0 \<mapsto> [1, 2, 3, 4], 1 \<mapsto> [5, 6, 7, 8]], cm_next = 2\<rparr>"

definition sent_input :: "nat list \<Rightarrow> input_impl" where
  "sent_input as = (InputImpl \<lparr>mi_name = ''A'', mi_data_type = TYPE_FP32, mi_format = FORMAT_NONE, mi_dims = [1],
     mi_reshape = None\<rparr>)\<lparr>ii_batch_size := of_nat (length as), ii_bufs := as, ii_buf_byte_sizes := map (\<lambda>_. 4) as,
       ii_total_byte_size := 4 * of_nat (length as)\<rparr>"

definition sent_context :: infer_context where
  "sent_context = (InferContextImpl ''m'' 1 0)\<lparr>ic_inputs := [sent_input [0, 1], sent_input []]\<rparr>"

theorem client_sends_inputs_witness:
  "\<exists>r1 bss r2. read_body sent_memory [(3, (0, 0)), (9, (0, 0))] r1 = Some (bss, r2) \<and>
    concat bss = [1, 2, 3, 4, 5, 6, 7, 8] \<and> hr_total_input_byte_size r1 = 8"
proof -
  have ok: "\<forall>io \<in> set (ic_inputs sent_context). prepared sent_memory io"
    by (simp add: sent_context_def sent_input_def prepared_def counted_input_def live_block_def sent_memory_def InputImpl_def Let_def)
  obtain err ctx' r1 where pre: "PreRunProcessing True sent_context
      ((HttpRequestImpl 0 [])\<lparr>hr_inputs := ic_inputs sent_context\<rparr>) = (err, ctx', r1)"
    by (metis prod_cases3)
  have body: "request_body sent_memory (ic_inputs sent_context) = [1, 2, 3, 4, 5, 6, 7, 8]"
    by (simp add: request_body_def sent_context_def sent_input_def input_blocks_def block_at_def sent_memory_def InputImpl_def Let_def)
  show ?thesis
    using client_sends_inputs [OF ok pre, of "[(3, (0, 0)), (9, (0, 0))]"] unfolding body by force
qed

section \<open>Copies\<close>

text \<open>
  An asynchronous request copies the inputs so that the user may set them again. The copy of an input
  that was set from strings still points to the strings of the original: after the original is
  reset, sending the copy reads memory that was freed.
\<close>

lemma copied_strings_dangle:
  assumes "a \<in> set (ii_str_bufs i)" and "ii_bufs i = a # as" and "ii_buf_byte_sizes i = n # ns" and "0 < n" and "0 < sz"
    and "InputImpl_copy i m = (c, m1)" and "input_Reset i m1 = (err, i', m2)"
  shows "input_GetNext m2 sz c = None"
proof -
  have c: "ii_bufs c = a # as" "ii_buf_byte_sizes c = n # ns" "ii_bufs_idx c = 0" "ii_buf_pos c = 0"
    using assms(2,3,6) by (auto simp: InputImpl_copy_def split: prod.splits)
  have "cm_blocks m2 a = None"
    using assms(1,7) by (auto simp: input_Reset_def clear_bufs_def free_blocks_def)
  moreover have "min n sz > 0"
    using assms(4,5) by simp
  ultimately have "get_next_loop m2 sz [] c = None"
    using assms(5) by (subst get_next_loop.simps) (simp add: c read_block_def Let_def)
  then show ?thesis
    by (simp add: input_GetNext_def)
qed

end
