(* ===== verification/Client_Strings.thy ===== *)
theory Client_Strings
  imports Client_Stream Client_Send_Props
begin

text \<open>
  String tensors from end to end of the client: how a result divides the bytes of serialized strings
  among the entries of the batch, and how the cursor reads them back.
\<close>

section \<open>The length of a string\<close>

lemma horner_le32 [simp]: "horner_sum ucast 256 (le32 w) = (w :: 32 word)"
proof -
  define n where "n = unat w"
  have n: "n < 2 ^ 32" "w = of_nat n"
    using unsigned_less [of w] by (simp_all add: n_def)
  have byte: "(ucast (ucast (drop_bit k w) :: 8 word) :: 32 word) = of_nat (n div 2 ^ k mod 256)" for k
  proof -
    have "unat (ucast (drop_bit k w) :: 8 word) = n div 2 ^ k mod 256"
      by (simp only: unsigned_ucast_eq unsigned_drop_bit_eq take_bit_eq_mod n_def) (use n(1) in \<open>simp add: drop_bit_eq_div n_def\<close>)
    then show ?thesis
      by (metis of_nat_unat)
  qed
  have "horner_sum ucast 256 (le32 w) = (of_nat (n mod 256) + 256 * (of_nat (n div 2 ^ 8 mod 256) +
      256 * (of_nat (n div 2 ^ 16 mod 256) + 256 * of_nat (n div 2 ^ 24 mod 256))) :: 32 word)"
    using byte [of 0] byte [of 8] byte [of 16] byte [of 24] by (simp add: le32_def)
  also have "\<dots> = of_nat (n mod 256 + 256 * (n div 2 ^ 8 mod 256 + 256 * (n div 2 ^ 16 mod 256 + 256 * (n div 2 ^ 24 mod 256))))"
    by simp
  also have "n mod 256 + 256 * (n div 2 ^ 8 mod 256 + 256 * (n div 2 ^ 16 mod 256 + 256 * (n div 2 ^ 24 mod 256))) = n"
  proof -
    have "n div 2 ^ 8 = n div 256" "n div 2 ^ 16 = n div 256 div 256" "n div 2 ^ 24 = n div 256 div 256 div 256"
      by (simp_all add: div_mult2_eq [symmetric])
    moreover have "n div 256 div 256 div 256 mod 256 = n div 256 div 256 div 256"
      using n(1) by (simp add: div_mult2_eq [symmetric])
    ultimately show ?thesis
      by (simp only: mod_mult_div_eq)
  qed
  finally show ?thesis
    by (simp add: n(2))
qed

lemma length_le32 [simp]: "length (le32 w) = 4"
  by (simp add: le32_def)

lemma length_serialize_string [simp]: "length (serialize_string str) = 4 + length str"
  by (simp add: serialize_string_def)

lemma string_length:
  "length str < 2 ^ 32 \<Longrightarrow> unat (of_nat (length str) :: 32 word) = length str"
  by (simp add: unsigned_of_nat take_bit_nat_eq_self)

lemma read_len_string:
  assumes "length str < 2 ^ 32"
  shows "read_len beyond (pre @ serialize_string str @ rest) (length pre) = length str"
proof -
  have "map (\<lambda>k. byte_at beyond (pre @ serialize_string str @ rest) (length pre + k)) [0..<4] = le32 (of_nat (length str))"
    by (rule nth_equalityI) (auto simp: byte_at_def serialize_string_def nth_append)
  then show ?thesis
    using string_length [OF assms] by (simp add: read_len_def)
qed

section \<open>The strings of a batch\<close>

definition batch_bytes :: "bytes list \<Rightarrow> bytes" where
  "batch_bytes strs = concat (map serialize_string strs)"

lemma elements_loop_strings:
  "\<forall>str \<in> set strs. length str < 2 ^ 32 \<Longrightarrow>
   elements_loop beyond (pre @ batch_bytes strs @ rest) (length strs) n (length pre) =
     (n + length (batch_bytes strs), length pre + length (batch_bytes strs))"
proof (induction strs arbitrary: pre n)
  case Nil
  then show ?case
    by (simp add: batch_bytes_def)
next
  case (Cons str strs)
  have l: "read_len beyond (pre @ serialize_string str @ batch_bytes strs @ rest) (length pre) = length str"
    using Cons.prems by (intro read_len_string) simp
  have "elements_loop beyond ((pre @ serialize_string str) @ batch_bytes strs @ rest) (length strs) (n + (4 + length str))
      (length (pre @ serialize_string str)) =
    (n + (4 + length str) + length (batch_bytes strs), length (pre @ serialize_string str) + length (batch_bytes strs))"
    using Cons.IH [of "pre @ serialize_string str" "n + (4 + length str)"] Cons.prems by simp
  then show ?case
    using l by (simp add: batch_bytes_def Let_def add.assoc)
qed

lemma batches_loop_strings:
  "\<forall>strs \<in> set bss. length strs = cnt \<and> (\<forall>str \<in> set strs. length str < 2 ^ 32) \<Longrightarrow>
   batches_loop beyond (pre @ concat (map batch_bytes bss) @ rest) cnt (length bss) (length pre) acc =
     (acc @ map (length \<circ> batch_bytes) bss, length pre + length (concat (map batch_bytes bss)))"
proof (induction bss arbitrary: pre acc)
  case Nil
  then show ?case by simp
next
  case (Cons strs bss)
  have e: "elements_loop beyond (pre @ batch_bytes strs @ concat (map batch_bytes bss) @ rest) cnt 0 (length pre) =
      (length (batch_bytes strs), length pre + length (batch_bytes strs))"
    using elements_loop_strings [of strs beyond pre "concat (map batch_bytes bss) @ rest" 0] Cons.prems by simp
  have "batches_loop beyond ((pre @ batch_bytes strs) @ concat (map batch_bytes bss) @ rest) cnt (length bss)
      (length (pre @ batch_bytes strs)) (acc @ [length (batch_bytes strs)]) =
    ((acc @ [length (batch_bytes strs)]) @ map (length \<circ> batch_bytes) bss,
     length (pre @ batch_bytes strs) + length (concat (map batch_bytes bss)))"
    using Cons.IH [of "pre @ batch_bytes strs" "acc @ [length (batch_bytes strs)]"] Cons.prems by simp
  then show ?case
    using e by (simp add: Let_def)
qed

lemma split_batches: "split_sizes (map (length \<circ> batch_bytes) bss) (concat (map batch_bytes bss)) = map batch_bytes bss"
  by (induction bss) simp_all

lemma string_output:
  assumes "re_result_format r = RAW" and "\<not> re_has_fixed_batch1_byte_size r" and "length bss = re_batch_size r"
    and "\<forall>strs \<in> set bss. length strs = re_batch1_element_count r \<and> (\<forall>str \<in> set strs. length str < 2 ^ 32)"
  shows "output_matches r (concat (map batch_bytes bss))"
    and "with_output r (concat (map batch_bytes bss)) =
      r\<lparr>re_buffers := map batch_bytes bss, re_bufs_pos := map (of_nat \<circ> length \<circ> batch_bytes) bss,
        re_bufs_byte_size := map (of_nat \<circ> length \<circ> batch_bytes) bss, re_bufs_idx := re_batch_size r\<rparr>"
proof -
  have b: "batches_loop no_bytes (concat (map batch_bytes bss)) (re_batch1_element_count r) (re_batch_size r) 0 [] =
      (map (length \<circ> batch_bytes) bss, length (concat (map batch_bytes bss)))"
    using batches_loop_strings [of bss "re_batch1_element_count r" no_bytes "[]" "[]" "[]"] assms(3,4) by simp
  then have e: "entry_sizes r (concat (map batch_bytes bss)) = map (length \<circ> batch_bytes) bss"
    using assms(2) by (simp add: entry_sizes_def)
  show "output_matches r (concat (map batch_bytes bss))"
    unfolding output_matches_def e using b assms(1-3) by (simp add: parsed_def)
  show "with_output r (concat (map batch_bytes bss)) =
      r\<lparr>re_buffers := map batch_bytes bss, re_bufs_pos := map (of_nat \<circ> length \<circ> batch_bytes) bss,
        re_bufs_byte_size := map (of_nat \<circ> length \<circ> batch_bytes) bss, re_bufs_idx := re_batch_size r\<rparr>"
    using assms(1) by (simp add: with_output_def filled_def e split_batches comp_assoc)
qed

section \<open>The cursor\<close>

text \<open>Reading \<open>n\<close> strings, as a user of the library does, up to the first error.\<close>

fun read_strings :: "nat \<Rightarrow> nat \<Rightarrow> result_impl \<Rightarrow> bytes list \<times> client_error option \<times> result_impl" where
  "read_strings batch_idx 0 r = ([], None, r)"
| "read_strings batch_idx (Suc n) r =
     (case GetStringAtCursor batch_idx r of
        (Inl err, r1) \<Rightarrow> ([], Some err, r1)
      | (Inr str, r1) \<Rightarrow> (let (strs, res, r2) = read_strings batch_idx n r1 in (str # strs, res, r2)))"

text \<open>A result whose entry has bytes, with the cursor after some of them.\<close>

definition cursor_at :: "nat \<Rightarrow> bytes \<Rightarrow> bytes \<Rightarrow> result_impl \<Rightarrow> bool" where
  "cursor_at b front rest r \<longleftrightarrow> re_result_format r = RAW \<and> b < re_batch_size r \<and> \<not> re_inplace r \<and>
     b < length (re_bufs_pos r) \<and>
     re_buffers r ! b = front @ rest \<and> re_bufs_byte_size r ! b = of_nat (length (front @ rest)) \<and>
     re_bufs_pos r ! b = of_nat (length front) \<and> length (front @ rest) < 2 ^ 64"

lemma GetRawAtCursor_step:
  assumes "cursor_at b front (piece @ rest) r" and "unat adv = length piece"
  shows "\<exists>r1. GetRawAtCursor b adv r = (Inr (piece @ rest), r1) \<and> cursor_at b (front @ piece) rest r1"
proof -
  have adv: "adv = of_nat (length piece)"
    by (simp flip: assms(2))
  have len: "length front + (length piece + length rest) < 2 ^ 64"
    using assms(1) by (simp add: cursor_at_def)
  have un: "unat (of_nat k :: 64 word) = k" if "k \<le> length front + (length piece + length rest)" for k
    using that len by (simp add: unsigned_of_nat take_bit_nat_eq_self)
  have "re_bufs_pos r ! b + adv = of_nat (length front + length piece)"
    using assms(1) by (simp add: cursor_at_def adv)
  moreover have "(of_nat (length front + length piece) :: 64 word) \<le> of_nat (length (front @ piece @ rest))"
    using un by (simp add: word_le_nat_alt del: of_nat_add)
  ultimately have "\<not> re_bufs_pos r ! b + adv > re_bufs_byte_size r ! b"
    using assms(1) by (simp add: cursor_at_def)
  then have "GetRawAtCursor b adv r = (Inr (piece @ rest),
      r\<lparr>re_bufs_pos := (re_bufs_pos r)[b := of_nat (length (front @ piece))]\<rparr>)"
    using assms(1) un [of "length front"] by (simp add: GetRawAtCursor_def cursor_at_def adv)
  then show ?thesis
    using assms(1) by (simp add: cursor_at_def add.assoc)
qed

lemma GetRawAtCursor_end:
  assumes "cursor_at b front [] r" and "adv = 4" and "length front + 4 < 2 ^ 64"
  shows "\<exists>err. GetRawAtCursor b adv r = (Inl err, r) \<and> ce_code err = UNSUPPORTED"
proof -
  have un: "unat (of_nat k :: 64 word) = k" if "k \<le> length front + 4" for k
    using that assms(3) by (simp add: unsigned_of_nat take_bit_nat_eq_self)
  have "re_bufs_pos r ! b + adv = of_nat (length front + 4)"
    using assms(1,2) by (simp add: cursor_at_def)
  moreover have "(of_nat (length front + 4) :: 64 word) > of_nat (length front)"
    using un by (simp add: word_less_nat_alt del: of_nat_add)
  ultimately show ?thesis
    using assms(1) by (simp add: GetRawAtCursor_def cursor_at_def Error_msg_def)
qed

lemma GetStringAtCursor_step:
  assumes c: "cursor_at b front (serialize_string str @ rest) r" and l: "length str < 2 ^ 32"
  shows "\<exists>r1. GetStringAtCursor b r = (Inr str, r1) \<and> cursor_at b (front @ serialize_string str) rest r1"
proof -
  let ?len = "of_nat (length str) :: 32 word"
  have "cursor_at b front (le32 ?len @ str @ rest) r"
    using c by (simp add: serialize_string_def)
  from GetRawAtCursor_step [OF this, of 4] obtain r1 where r1:
    "GetRawAtCursor b 4 r = (Inr (le32 ?len @ str @ rest), r1)" "cursor_at b (front @ le32 ?len) (str @ rest) r1"
    by auto
  have "unat (ucast ?len :: 64 word) = length str"
    using string_length [OF l] l by (simp add: unsigned_ucast_eq take_bit_nat_eq_self)
  from GetRawAtCursor_step [OF r1(2) this] obtain r2 where r2:
    "GetRawAtCursor b (ucast ?len) r1 = (Inr (str @ rest), r2)" "cursor_at b ((front @ le32 ?len) @ str) rest r2"
    by auto
  have "GetStringAtCursor b r = (Inr str, r2)"
    using r1(1) r2(1) string_length [OF l] by (simp add: GetStringAtCursor_def)
  then show ?thesis
    using r2(2) by (simp add: serialize_string_def)
qed

lemma read_strings_all:
  "cursor_at b front (batch_bytes strs @ rest) r \<Longrightarrow> \<forall>str \<in> set strs. length str < 2 ^ 32 \<Longrightarrow>
   \<exists>r1. read_strings b (length strs) r = (strs, None, r1) \<and> cursor_at b (front @ batch_bytes strs) rest r1"
proof (induction strs arbitrary: front r)
  case Nil
  then show ?case
    by (simp add: batch_bytes_def)
next
  case (Cons str strs)
  have "cursor_at b front (serialize_string str @ batch_bytes strs @ rest) r"
    using Cons.prems(1) by (simp add: batch_bytes_def)
  then obtain r1 where r1: "GetStringAtCursor b r = (Inr str, r1)"
    "cursor_at b (front @ serialize_string str) (batch_bytes strs @ rest) r1"
    using GetStringAtCursor_step Cons.prems(2) by fastforce
  then obtain r2 where "read_strings b (length strs) r1 = (strs, None, r2)"
    "cursor_at b ((front @ serialize_string str) @ batch_bytes strs) rest r2"
    using Cons.IH Cons.prems(2) by fastforce
  then show ?case
    using r1(1) by (simp add: batch_bytes_def)
qed

section \<open>From the strings of a client to the strings of a client\<close>

lemma SetFromString_block:
  assumes "SetFromString strs i m = (err, i', m')" and "Error_IsOk err" and "length (batch_bytes strs) < 2 ^ 64"
  shows "block_at m' (last (ii_bufs i')) (last (ii_buf_byte_sizes i')) = batch_bytes strs"
    and "last (ii_buf_byte_sizes i') = of_nat (length (batch_bytes strs))"
  using assms unfolding batch_bytes_def
  by (auto simp: SetFromString_def SetRaw_def allocate_def block_at_def shape_missing_def Let_def
      IsFixedSizeDataType_def ii_DType_def       unsigned_of_nat take_bit_nat_eq_self split: if_splits)

lemma strings_read_back:
  assumes set: "SetFromString strs i m = (err, i', m')" "Error_IsOk err"
    and short: "\<forall>str \<in> set strs. length str < 2 ^ 32" "length (batch_bytes strs) + 4 < 2 ^ 64"
    and r: "re_result_format r = RAW" "\<not> re_inplace r" "b < re_batch_size r" "length (re_bufs_pos r) = re_batch_size r"
    and bytes: "re_buffers r ! b = block_at m' (last (ii_bufs i')) (last (ii_buf_byte_sizes i'))"
      "re_bufs_byte_size r ! b = last (ii_buf_byte_sizes i')"
  shows "\<exists>r1 err1. read_strings b (length strs) (ResetCursors r) = (strs, None, r1) \<and>
    GetStringAtCursor b r1 = (Inl err1, r1) \<and> ce_code err1 = UNSUPPORTED"
proof -
  have "cursor_at b [] (batch_bytes strs @ []) (ResetCursors r)"
    using SetFromString_block [OF set] short(2) r bytes by (simp add: cursor_at_def ResetCursors_def)
  from read_strings_all [OF this short(1)] obtain r1 where
    r1: "read_strings b (length strs) (ResetCursors r) = (strs, None, r1)" "cursor_at b (batch_bytes strs) [] r1"
    by auto
  from GetRawAtCursor_end [OF r1(2) refl] short(2) show ?thesis
    using r1(1) by (auto simp: GetStringAtCursor_def)
qed

text \<open>
  Claim C15. Strings survive the journey: the block that \<open>SetFromString\<close> makes of the strings of a batch entry,
  found in a raw result as the bytes of an entry, is read back by the cursor as the
  same strings, in order, with an error for the string after the last one.
\<close>

theorem strings_roundtrip:
  assumes "SetFromString strs i m = (err, i', m')" and "Error_IsOk err"
    and "\<forall>str \<in> set strs. length str < 2 ^ 32" and "length (batch_bytes strs) + 4 < 2 ^ 64"
    and "re_result_format r = RAW" and "\<not> re_inplace r" and "b < re_batch_size r" and "length (re_bufs_pos r) = re_batch_size r"
    and "re_buffers r ! b = block_at m' (last (ii_bufs i')) (last (ii_buf_byte_sizes i'))"
    and "re_bufs_byte_size r ! b = last (ii_buf_byte_sizes i')"
  shows "\<exists>r1 err1. read_strings b (length strs) (ResetCursors r) = (strs, None, r1) \<and>
    GetStringAtCursor b r1 = (Inl err1, r1) \<and> ce_code err1 = UNSUPPORTED"
  by (rule strings_read_back [OF assms])

text \<open>The strings of the client above, two entries of two strings.\<close>

definition string_input :: input_impl where
  "string_input = (InputImpl \<lparr>mi_name = ''S'', mi_data_type = TYPE_STRING, mi_format = FORMAT_NONE, mi_dims = [2],
     mi_reshape = None\<rparr>)\<lparr>ii_batch_size := 1\<rparr>"

definition string_memory :: client_memory where
  "string_memory = \<lparr>cm_blocks = Map.empty, cm_next = 0\<rparr>"

definition string_result :: result_impl where
  "string_result = (ResultImpl 0 (example_output ''S'' TYPE_STRING) 1)
     \<lparr>re_buffers := [[1, 0, 0, 0, 65, 0, 0, 0, 0]], re_bufs_byte_size := [9], re_bufs_pos := [9]\<rparr>"

theorem strings_roundtrip_witness:
  "\<exists>r1. read_strings 0 2 (ResetCursors string_result) = ([[65], []], None, r1)"
proof -
  obtain err i' m' where s: "SetFromString [[65], []] string_input string_memory = (err, i', m')"
    by (metis prod_cases3)
  have t: "err = Error_Success" "ii_bufs i' = [0]" "ii_buf_byte_sizes i' = [9]" "cm_blocks m' 0 = Some [1, 0, 0, 0, 65, 0, 0, 0, 0]"
  proof -
    have "(case SetFromString [[65], []] string_input string_memory of (e, i, m) \<Rightarrow>
        e = Error_Success \<and> ii_bufs i = [0] \<and> ii_buf_byte_sizes i = [9] \<and> cm_blocks m 0 = Some [1, 0, 0, 0, 65, 0, 0, 0, 0])"
      by code_simp
    then show "err = Error_Success" "ii_bufs i' = [0]" "ii_buf_byte_sizes i' = [9]"
      "cm_blocks m' 0 = Some [1, 0, 0, 0, 65, 0, 0, 0, 0]"
      by (simp_all add: s)
  qed
  have r: "re_result_format string_result = RAW" "\<not> re_inplace string_result" "re_batch_size string_result = 1"
    "re_bufs_pos string_result = [9]" "re_buffers string_result = [[1, 0, 0, 0, 65, 0, 0, 0, 0]]"
    "re_bufs_byte_size string_result = [9]"
    by (simp_all add: string_result_def ResultImpl_def example_output_def OutputImpl_def)
  have "batch_bytes [[65], []] = [1, 0, 0, 0, 65, 0, 0, 0, 0]"
    by code_simp
  then have "\<exists>r1 err1. read_strings 0 (length [[65 :: 8 word], []]) (ResetCursors string_result) = ([[65], []], None, r1) \<and>
      GetStringAtCursor 0 r1 = (Inl err1, r1) \<and> ce_code err1 = UNSUPPORTED"
    by (intro strings_roundtrip [OF s]) (simp_all add: t r block_at_def)
  moreover have "length [[65 :: 8 word], []] = 2"
    by simp
  ultimately show ?thesis
    by metis
qed

end
