(* ===== verification/Http_Round_Trip.thy ===== *)
theory Http_Round_Trip
  imports Http_Server Provider_Utils_Facts Response_Facts Client_Strings
begin

text \<open>
  The HTTP client and the HTTP server together: the URL of a request names the model the server looks
  up, and the reply of the server is what the client makes its results from.
\<close>

section \<open>The URL of a request\<close>

lemma strip_prefix_append [simp]: "strip_prefix p (p @ s) = Some s"
  by (induction p) simp_all

lemma match_api_infer:
  assumes "line rest"
  shows "match_api (''/api/infer'' @ rest) = Some (''infer'', rest)"
  using assms by (simp add: match_api_def)

lemma show_nat_line: "line (show_nat n)" "list_all is_digit (show_nat n)"
  using show_nat_digits [of n] by (auto simp: line_def list_all_iff is_digit_def)

lemma show_int_nat: "0 \<le> i \<Longrightarrow> show_int i = show_nat (nat i)"
  by (simp add: show_int_def)

lemma url_reaches_model:
  assumes "name \<noteq> []" and "CHR ''/'' \<notin> set name" and "line name" and "version < 2 ^ 63"
  shows "\<exists>rest ds. match_api (drop (length server_url) (infer_url server_url name version)) = Some (''infer'', rest) \<and>
    match_infer rest = Some (name, ds) \<and> (if ds \<noteq> [] then atoll ds else - 1) = max (- 1) version"
proof -
  let ?ds = "if version \<ge> 0 then show_int version else []"
  let ?rest = "''/'' @ name @ (if version \<ge> 0 then ''/'' @ show_int version else [])"
  have path: "drop (length server_url) (infer_url server_url name version) = ''/api/infer'' @ ?rest"
    by (simp add: infer_url_def)
  have "line ?rest"
    using assms(3) show_nat_line(1) [of "nat version"] by (auto simp: line_def show_int_nat)
  then have "match_api (''/api/infer'' @ ?rest) = Some (''infer'', ?rest)"
    by (rule match_api_infer)
  moreover have tw: "takeWhile (\<lambda>d. d \<noteq> CHR ''/'') (name @ CHR ''/'' # s) = name"
    "dropWhile (\<lambda>d. d \<noteq> CHR ''/'') (name @ CHR ''/'' # s) = CHR ''/'' # s"
    "takeWhile (\<lambda>d. d \<noteq> CHR ''/'') name = name" "dropWhile (\<lambda>d. d \<noteq> CHR ''/'') name = []" for s
    using assms(2) by (auto simp: takeWhile_append dropWhile_append takeWhile_eq_all_conv dropWhile_eq_Nil_conv)
  have "match_infer ?rest = Some (name, ?ds)"
    using assms(1) show_nat_line(2) [of "nat version"]
    by (cases "version \<ge> 0") (simp_all add: match_infer_def Let_def show_int_nat tw)
  moreover have "(if ?ds \<noteq> [] then atoll ?ds else - 1) = max (- 1) version"
    using assms(4) by (auto simp: atoll_def show_int_nat)
  ultimately show ?thesis
    unfolding path by blast
qed

section \<open>The headers of a reply\<close>

definition crlf :: string where
  "crlf = [CHR 0x0D, CHR 0x0A]"

definition header_line :: "string \<times> string \<Rightarrow> string" where
  "header_line nv = fst nv @ '': '' @ snd nv @ crlf"

lemma header_line_values:
  "header_value kStatusHTTPHeader (header_line (''NV-Status'', v)) = Some ('' '' @ v @ crlf)"
  "header_value kInferResponseHTTPHeader (header_line (''NV-InferResponse'', v)) = Some ('' '' @ v @ crlf)"
  "header_value kStatusHTTPHeader (header_line (''NV-InferResponse'', v)) = None"
  "header_value kInferResponseHTTPHeader (header_line (''NV-Status'', v)) = None"
  "header_value kStatusHTTPHeader (header_line (''Content-Type'', v)) = None"
  "header_value kInferResponseHTTPHeader (header_line (''Content-Type'', v)) = None"
  by (simp_all add: header_value_def header_line_def to_lower_def crlf_def)

lemma receive_headers_append:
  "receive_headers ps ph g ctx (ls @ ls') r = receive_headers ps ph g ctx ls' (receive_headers ps ph g ctx ls r)"
  by (induction ls arbitrary: r) simp_all

text \<open>Lines of other headers, and the status line, change nothing.\<close>

definition other_line :: "string \<Rightarrow> bool" where
  "other_line l \<longleftrightarrow> header_value kStatusHTTPHeader l = None \<and> header_value kInferResponseHTTPHeader l = None"

lemma receive_other: "\<forall>l \<in> set ls. other_line l \<Longrightarrow> receive_headers ps ph g ctx ls r = r"
  by (induction ls arbitrary: r) (simp_all add: ResponseHeaderHandler_def other_line_def)

section \<open>The results a header creates\<close>

definition output_index :: "infer_context \<Rightarrow> string \<Rightarrow> nat" where
  "output_index ctx name =
     (case context_GetOutput ctx name of Inr k \<Rightarrow> k | Inl e \<Rightarrow> length (ic_outputs ctx))"

definition created_result :: "int \<Rightarrow> infer_context \<Rightarrow> 32 word \<Rightarrow> response_output \<Rightarrow> result_impl" where
  "created_result g ctx batch_size out =
     (let k = output_index ctx (so_name out);
          result = SetBatch1Shape (rr_dims (header_raw out)) (ResultImpl g (ic_outputs ctx ! k) (unat batch_size))
      in if IsFixedSizeDataType (mo_data_type (oi_mio (ic_outputs ctx ! k)))
         then SetBatchnByteSize (rr_batch_byte_size (header_raw out)) result else result)"

lemma create_results_known:
  assumes "\<forall>out \<in> set outs. \<exists>k. context_GetOutput ctx (so_name out) = Inr k"
  shows "create_results g ctx outs n r =
    r\<lparr>hr_ordered_results := hr_ordered_results r @ map (created_result g ctx (sh_batch_size (hr_response_header r))) outs\<rparr>"
  using assms
proof (induction outs arbitrary: r)
  case (Cons out outs)
  then obtain k where k: "context_GetOutput ctx (so_name out) = Inr k"
    by auto
  then have "CreateResult g ctx out (sh_batch_size (hr_response_header r)) r =
      (Error_Success, r\<lparr>hr_ordered_results := hr_ordered_results r @ [created_result g ctx (sh_batch_size (hr_response_header r)) out]\<rparr>)"
    by (simp add: CreateResult_def created_result_def output_index_def Let_def)
  then show ?case
    using Cons by simp
qed simp

section \<open>From the reply to the results\<close>

text \<open>
  What the client and the server rely on: both use the same text and binary forms of the protocol
  buffers, a text is read with the white space around it, and the evbuffer is a sequence of bytes.
\<close>

record 'ev wire =
  wi_parse_status :: "string \<Rightarrow> request_status option"
  wi_parse_header :: "string \<Rightarrow> response_header option"
  wi_parse_binary :: "bytes \<Rightarrow> response_header"
  wi_bytes :: "'ev \<Rightarrow> bytes"

definition wire_ok :: "'ev http_env \<Rightarrow> 'ev wire \<Rightarrow> request_status \<Rightarrow> response_header \<Rightarrow> bool" where
  "wire_ok env w rs h \<longleftrightarrow>
     wi_parse_status w ('' '' @ he_status_text env rs @ crlf) = Some rs \<and>
     wi_parse_header w ('' '' @ he_header_text env (clear_classes h) @ crlf) = Some (clear_classes h) \<and>
     he_header_binary env h \<noteq> [] \<and> wi_parse_binary w (he_header_binary env h) = h \<and>
     (\<forall>bs ev. wi_bytes w (he_add env bs ev) = wi_bytes w ev @ bs)"

text \<open>The lines libcurl passes on: those of the reply, and others before and after them.\<close>

definition reply_lines :: "string list \<Rightarrow> 'ev http_reply \<Rightarrow> string list \<Rightarrow> string list" where
  "reply_lines front reply back = front @ map header_line (hp_headers reply) @ back"

lemma receive_reply_headers:
  assumes w: "wire_ok env w rs (h\<lparr>sh_id := iq_id iq\<rparr>)" and rs: "rs_code rs = SUCCESS"
    and bin: "reply_format (iq_req iq) = ''binary''" and hdrs: "hq_headers_out (iq_req iq) = []"
    and other: "\<forall>l \<in> set (front @ back). other_line l"
    and known: "\<forall>out \<in> set (sh_output h). \<exists>k. context_GetOutput ctx (so_name out) = Inr k"
    and h: "h = rv_response_header (iq_response_provider iq)"
    and fresh: "hr_ordered_results r = []"
  shows "receive_headers (wi_parse_status w) (wi_parse_header w) g ctx
      (reply_lines front (http_FinalizeResponse env rs iq) back) r =
    r\<lparr>hr_response_header := clear_classes (h\<lparr>sh_id := iq_id iq\<rparr>), hr_request_status := rs,
      hr_ordered_results := map (created_result g ctx (sh_batch_size h)) (sh_output (clear_classes h))\<rparr>"
proof -
  let ?h = "clear_classes (h\<lparr>sh_id := iq_id iq\<rparr>)"
  have headers: "hp_headers (http_FinalizeResponse env rs iq) =
      [(''NV-InferResponse'', he_header_text env ?h), (''NV-Status'', he_status_text env rs),
       (''Content-Type'', ''application/octet-stream'')]"
    using rs bin hdrs by (simp add: http_FinalizeResponse_def Let_def h send_reply_def add_header_def)
  have sel: "sh_batch_size ?h = sh_batch_size h" "sh_output ?h = sh_output (clear_classes h)"
    by (simp_all add: clear_classes_def)
  have known': "\<forall>out \<in> set (sh_output ?h). \<exists>k. context_GetOutput ctx (so_name out) = Inr k"
    using known by (auto simp: clear_classes_def)
  have "receive_headers (wi_parse_status w) (wi_parse_header w) g ctx (map header_line (hp_headers (http_FinalizeResponse env rs iq))) r =
    (create_results g ctx (sh_output ?h) (sh_batch_size ?h) (r\<lparr>hr_response_header := ?h\<rparr>))\<lparr>hr_request_status := rs\<rparr>"
    using w by (simp add: headers ResponseHeaderHandler_def header_line_values wire_ok_def Let_def)
  also have "\<dots> = r\<lparr>hr_response_header := ?h, hr_request_status := rs,
      hr_ordered_results := map (created_result g ctx (sh_batch_size h)) (sh_output (clear_classes h))\<rparr>"
    by (simp only: create_results_known [OF known']) (simp add: fresh sel)
  finally show ?thesis
    using other by (simp add: reply_lines_def receive_headers_append receive_other)
qed

text \<open>
  What a backend delivers for an output of the response header: a raw output is its batch entries one
  after the other, of the size in the header, all of one size for a type of fixed size and
  serialized strings otherwise; a classified output has no bytes in the body.
\<close>

definition delivers :: "infer_context \<Rightarrow> 32 word \<Rightarrow> response_output \<Rightarrow> bytes \<Rightarrow> bytes list \<Rightarrow> bool" where
  "delivers ctx batch_size so out entries \<longleftrightarrow>
     (let co = ic_outputs ctx ! output_index ctx (so_name so) in
      (\<exists>k. context_GetOutput ctx (so_name so) = Inr k) \<and>
      (case so_raw so of
         None \<Rightarrow> oi_result_format co = CLASS \<and> out = []
       | Some raw \<Rightarrow>
           oi_result_format co = RAW \<and> out = concat entries \<and> length entries = unat batch_size \<and>
           length out < 2 ^ 64 \<and>
           (if IsFixedSizeDataType (mo_data_type (oi_mio co))
            then rr_batch_byte_size raw = of_nat (length out) \<and> (\<exists>n. \<forall>e \<in> set entries. length e = n)
            else (\<exists>bss. entries = map batch_bytes bss \<and>
                    (\<forall>strs \<in> set bss. length strs = nat (wrap_u64 (GetElementCount (rr_dims raw))) \<and>
                       (\<forall>str \<in> set strs. length str < 2 ^ 32))))))"

lemma index_of_name_Some: "index_of_name f name xs = Some k \<Longrightarrow> k < length xs \<and> f (xs ! k) = name"
  by (induction xs arbitrary: k) (auto split: if_splits)

lemma created_result_sel:
  "re_result_format (created_result g ctx bs so) = oi_result_format (ic_outputs ctx ! output_index ctx (so_name so))"
  "re_batch_size (created_result g ctx bs so) = unat bs"
  "re_has_fixed_batch1_byte_size (created_result g ctx bs so) \<longleftrightarrow>
     IsFixedSizeDataType (mo_data_type (oi_mio (ic_outputs ctx ! output_index ctx (so_name so))))"
  "IsFixedSizeDataType (mo_data_type (oi_mio (ic_outputs ctx ! output_index ctx (so_name so)))) \<Longrightarrow>
     re_batch1_byte_size (created_result g ctx bs so) = rr_batch_byte_size (header_raw so) div of_nat (unat bs)"
  "re_batch1_element_count (created_result g ctx bs so) = nat (wrap_u64 (GetElementCount (rr_dims (header_raw so))))"
  "re_shape (created_result g ctx bs so) = rr_dims (header_raw so)"
  by (simp_all add: created_result_def Let_def SetBatchnByteSize_def SetBatch1Shape_def ResultImpl_def)

lemma created_result_name:
  assumes "context_GetOutput ctx (so_name so) = Inr k"
  shows "re_name (created_result g ctx bs so) = so_name so"
proof -
  have "oi_Name (ic_outputs ctx ! output_index ctx (so_name so)) = so_name so"
    using assms index_of_name_Some by (fastforce simp: context_GetOutput_def output_index_def split: option.splits)
  then show ?thesis
    by (simp add: created_result_def Let_def SetBatchnByteSize_def SetBatch1Shape_def ResultImpl_def oi_Name_def)
qed

lemma split_concat: "split_sizes (map length es) (concat es) = es"
  by (induction es) simp_all

lemma unat_exact_div:
  fixes b :: "32 word"
  assumes "length out < 2 ^ 64" and "length out = unat b * n" and "0 < unat b"
  shows "unat (of_nat (length out) div of_nat (unat b) :: 64 word) = n"
proof -
  have "unat b < 2 ^ 32"
    using unsigned_less [of b] by simp
  then have "unat (of_nat (unat b) :: 64 word) = unat b"
    by (simp only: unsigned_of_nat) (simp add: take_bit_nat_eq_self)
  moreover have "unat (of_nat (length out) :: 64 word) = length out"
    using assms(1) by (simp only: unsigned_of_nat) (simp add: take_bit_nat_eq_self)
  ultimately show ?thesis
    using assms(2,3) by (simp only: unat_div_distrib) simp
qed

lemma delivers_result:
  assumes d: "delivers ctx bs so out entries" and raw: "so_raw so = Some raw"
  shows "output_matches (created_result g ctx bs so) out"
    and "with_output (created_result g ctx bs so) out =
      (created_result g ctx bs so)\<lparr>re_buffers := entries, re_bufs_pos := map (of_nat \<circ> length) entries,
        re_bufs_byte_size := map (of_nat \<circ> length) entries, re_bufs_idx := unat bs\<rparr>"
proof -
  let ?r = "created_result g ctx bs so" and ?dt = "mo_data_type (oi_mio (ic_outputs ctx ! output_index ctx (so_name so)))"
  have f: "re_result_format ?r = RAW" and out: "out = concat entries" "length entries = unat bs" "length out < 2 ^ 64"
    using d raw by (auto simp: delivers_def Let_def created_result_sel)
  have hr: "header_raw so = raw"
    using raw by (simp add: header_raw_def)
  have "output_matches ?r out \<and> with_output ?r out =
      ?r\<lparr>re_buffers := entries, re_bufs_pos := map (of_nat \<circ> length) entries,
        re_bufs_byte_size := map (of_nat \<circ> length) entries, re_bufs_idx := unat bs\<rparr>"
  proof (cases "IsFixedSizeDataType ?dt")
    case True
    then obtain n where n: "\<forall>e \<in> set entries. length e = n" "rr_batch_byte_size raw = of_nat (length out)"
      using d raw by (auto simp: delivers_def Let_def)
    have len: "length out = unat bs * n"
      using n(1) out(1,2) by (simp add: length_concat sum_list_const_mult map_replicate_const sum_list_replicate cong: map_cong)
    have szs: "replicate (unat bs) n = map length entries"
      using n(1) out(2) by (simp add: map_replicate_const cong: map_cong)
    have b1: "unat (re_batch1_byte_size ?r) = n" if "0 < unat bs"
      using unat_exact_div [OF out(3) len that] True by (simp add: created_result_sel hr n(2))
    have e: "entry_sizes ?r out = map length entries"
      using b1 szs True by (cases "unat bs = 0") (auto simp: entry_sizes_def created_result_sel)
    have "output_matches ?r out"
      using f True len b1 by (cases "unat bs = 0") (auto simp: output_matches_def created_result_sel)
    then show ?thesis
      using f by (simp add: with_output_def filled_def e [unfolded out(1)] split_concat out(1) created_result_sel comp_def)
  next
    case False
    then obtain bss where bss: "entries = map batch_bytes bss"
      "\<forall>strs \<in> set bss. length strs = nat (wrap_u64 (GetElementCount (rr_dims raw))) \<and> (\<forall>str \<in> set strs. length str < 2 ^ 32)"
      using d raw by (auto simp: delivers_def Let_def)
    have "length bss = re_batch_size ?r"
      using bss(1) out(2) by (simp add: created_result_sel)
    then show ?thesis
      using string_output [of ?r bss] f False bss by (simp add: created_result_sel hr out(1) comp_def)
  qed
  then show "output_matches ?r out" and "with_output ?r out =
      ?r\<lparr>re_buffers := entries, re_bufs_pos := map (of_nat \<circ> length) entries,
        re_bufs_byte_size := map (of_nat \<circ> length) entries, re_bufs_idx := unat bs\<rparr>"
    by blast+
qed

lemma delivers_class:
  assumes "delivers ctx bs so out entries" and "so_raw so = None"
  shows "output_matches (created_result g ctx bs so) out" and "with_output (created_result g ctx bs so) out = created_result g ctx bs so"
    and "re_result_format (created_result g ctx bs so) = CLASS"
  using assms by (auto simp: delivers_def output_matches_def with_output_def created_result_sel Let_def)

lemma with_output_name: "re_name (with_output r out) = re_name r"
  by (simp add: with_output_def filled_def)

lemma delivers_matches: "delivers ctx bs so out entries \<Longrightarrow> output_matches (created_result g ctx bs so) out"
  by (cases "so_raw so") (auto dest: delivers_result(1) delivers_class(1))

lemma created_result_cleared: "created_result g ctx bs (so\<lparr>so_batch_classes := []\<rparr>) = created_result g ctx bs so"
proof -
  have "header_raw (so\<lparr>so_batch_classes := []\<rparr>) = header_raw so"
    by (simp add: header_raw_def)
  then show ?thesis
    by (simp add: created_result_def Let_def)
qed

lemma insert_results_first:
  "insert_results rs m name =
     (case m name of Some x \<Rightarrow> Some x | None \<Rightarrow> map_of (map (\<lambda>r. (re_name r, r)) rs) name)"
  by (induction rs arbitrary: m) (auto split: option.splits)

text \<open>What the results are after the response header has been read.\<close>

lemma post_run_raw:
  assumes "re_result_format res = RAW" and "\<not> re_inplace res" and "b < re_batch_size res"
    and "length (re_bufs_byte_size res) = re_batch_size res"
  shows "GetRaw b (post_run h res) = Inr (re_buffers res ! b, re_bufs_byte_size res ! b)"
    and "GetRawShape (post_run h res) = Inr (re_shape res)"
  using assms by (simp_all add: post_run_def Let_def ResetCursors_def GetRaw_def GetRawShape_def)

lemma find_named: "distinct (map f xs) \<Longrightarrow> x \<in> set xs \<Longrightarrow> find (\<lambda>y. f y = f x) xs = Some x"
  by (induction xs) (auto simp: image_iff)

lemma post_run_class:
  assumes "re_result_format res = CLASS" and "distinct (map so_name (sh_output h))" and "so \<in> set (sh_output h)"
    and "re_name res = so_name so"
  shows "re_class_result (post_run h res) = so"
  using assms find_named [OF assms(2,3)] by (simp add: post_run_def Let_def)

text \<open>What the user of the client finds for an output of the response.\<close>

definition client_has :: "(string \<rightharpoonup> result_impl) \<Rightarrow> response_output \<Rightarrow> bytes list \<Rightarrow> bool" where
  "client_has results so entries \<longleftrightarrow>
     (\<exists>res. results (so_name so) = Some res \<and>
        (case so_raw so of
           Some raw \<Rightarrow> GetRawShape res = Inr (rr_dims raw) \<and>
             (\<forall>b < length entries. GetRaw b res = Inr (entries ! b, of_nat (length (entries ! b))))
         | None \<Rightarrow> re_class_result res = so))"

lemma map_of_by_name:
  "x \<in> set xs \<Longrightarrow> distinct (map f xs) \<Longrightarrow> map_of (map (\<lambda>x. (f x, x)) xs) (f x) = Some x"
  by (induction xs) (auto simp: rev_image_eqI)

lemma client_has_result:
  assumes d: "delivers ctx bs so out entries" and h: "distinct (map so_name (sh_output h))" "so \<in> set (sh_output h)"
    and res: "results (so_name so) = Some (with_output (created_result g ctx bs so) out)"
  shows "client_has (PostRunProcessing h results) so entries"
proof (cases "so_raw so")
  case None
  have "\<exists>k. context_GetOutput ctx (so_name so) = Inr k"
    using d by (simp add: delivers_def Let_def)
  then have "re_name (created_result g ctx bs so) = so_name so"
    using created_result_name by blast
  then show ?thesis
    using post_run_class [OF delivers_class(3) [OF d None] h, of g] res None delivers_class(2) [OF d None, of g]
    by (simp add: client_has_def PostRunProcessing_def)
next
  case (Some raw)
  note w = delivers_result(2) [OF d Some, of g]
  have len: "length entries = unat bs" and f: "re_result_format (created_result g ctx bs so) = RAW"
    using d Some by (simp_all add: delivers_def Let_def created_result_sel)
  have inplace: "\<not> re_inplace (created_result g ctx bs so)"
    by (simp add: created_result_def Let_def SetBatchnByteSize_def SetBatch1Shape_def ResultImpl_def)
  let ?res = "with_output (created_result g ctx bs so) out"
  have sel: "re_result_format ?res = RAW" "\<not> re_inplace ?res" "re_batch_size ?res = unat bs"
    "length (re_bufs_byte_size ?res) = re_batch_size ?res" "re_buffers ?res = entries"
    "re_bufs_byte_size ?res = map (of_nat \<circ> length) entries" "re_shape ?res = rr_dims raw"
    using f inplace len Some by (simp_all add: w created_result_sel header_raw_def)
  have "GetRaw b (post_run h ?res) = Inr (entries ! b, of_nat (length (entries ! b)))" if "b < length entries" for b
    using post_run_raw(1) [OF sel(1,2) _ sel(4), of b h] that len by (simp add: sel(3,5,6))
  moreover have "re_batch_size ?res \<noteq> 0 \<Longrightarrow> GetRawShape (post_run h ?res) = Inr (rr_dims raw)"
    using post_run_raw(2) [OF sel(1,2) _ sel(4), of 0 h] by (simp add: sel(7))
  moreover have "GetRawShape (post_run h ?res) = Inr (rr_dims raw)"
    using sel(1,7) by (simp add: post_run_def Let_def ResetCursors_def GetRawShape_def)
  ultimately show ?thesis
    using res Some by (simp add: client_has_def PostRunProcessing_def)
qed

text \<open>
  The results of the client are the outputs of the model: the reply to a request that succeeded, in
  whatever pieces its body is read and among whatever other headers, gives the client a result for
  every output, with the bytes the backend wrote for every batch entry, the shape, or
  the classes.
\<close>

lemma reply_reaches_client:
  assumes w: "wire_ok env w rs (h\<lparr>sh_id := iq_id iq\<rparr>)" and rs: "rs_code rs = SUCCESS"
    and bin: "reply_format (iq_req iq) = ''binary''" and hdrs: "hq_headers_out (iq_req iq) = []"
    and other: "\<forall>l \<in> set (front @ back). other_line l"
    and h: "h = rv_response_header (iq_response_provider iq)" "sh_model_name h \<noteq> []" "distinct (map so_name (sh_output h))"
    and outs: "list_all2 (\<lambda>so (out, entries). delivers ctx (sh_batch_size h) so out entries) (sh_output h) outs"
    and body: "wi_bytes w (hv_output_buffer (iq_response_provider iq)) = concat (map fst outs)"
    and pieces: "concat (map fst ps) = wi_bytes w (hp_buffer (http_FinalizeResponse env rs iq))"
    and len: "length (concat (map fst ps)) < 2 ^ 64"
    and r0: "r0 = receive_headers (wi_parse_status w) (wi_parse_header w) g ctx
      (reply_lines front (http_FinalizeResponse env rs iq) back) (InitializeRequest r)"
  shows "\<exists>r1 results r2. receive_body beyond ps r0 = (True, r1) \<and>
    GetResults None 200 (wi_parse_binary w) r1 = ((Error_status rs, results), r2) \<and>
    list_all2 (\<lambda>so (out, entries). client_has results so entries) (sh_output h) outs"
proof -
  let ?bs = "sh_batch_size h" and ?h = "h\<lparr>sh_id := iq_id iq\<rparr>"
  let ?tail = "he_header_binary env ?h" and ?rs = "map (created_result g ctx (sh_batch_size h)) (sh_output h)"
  have known: "\<forall>so \<in> set (sh_output h). \<exists>k. context_GetOutput ctx (so_name so) = Inr k"
    using outs by (fastforce simp: list_all2_conv_all_nth in_set_conv_nth delivers_def Let_def)
  have cleared: "map (created_result g ctx ?bs) (sh_output (clear_classes h)) = ?rs"
    by (simp add: clear_classes_def created_result_cleared)
  have r0': "r0 = (InitializeRequest r)\<lparr>hr_response_header := clear_classes ?h, hr_request_status := rs, hr_ordered_results := ?rs\<rparr>"
    using receive_reply_headers [OF w rs bin hdrs other known h(1), of "InitializeRequest r" g]
    by (simp add: r0 cleared InitializeRequest_def)
  have buf: "concat (map fst ps) = concat (map fst outs) @ ?tail"
    using w rs bin body pieces by (simp add: http_FinalizeResponse_def send_reply_def add_header_def Let_def h(1) wire_ok_def)
  have fits: "list_all2 output_matches ?rs (map fst outs)"
    using outs unfolding list_all2_map1 list_all2_map2
    by (rule list_all2_mono) (auto intro: delivers_matches)
  have tail: "?tail \<noteq> []"
    using w by (simp add: wire_ok_def)
  have new: "\<forall>io \<in> set (hr_ordered_results r0). new_result io"
    unfolding r0 by (rule receive_headers_new) (simp add: InitializeRequest_def)
  obtain r1 where r1: "receive_body beyond ps r0 = (True, r1)" "hr_ordered_results r1 = map2 with_output ?rs (map fst outs)"
    "hr_infer_response_buffer r1 = ?tail" "hr_request_status r1 = rs" "hr_response_header r1 = clear_classes ?h"
    using received_outputs [OF new _ _ _ tail, of "map fst outs" ps beyond] fits len buf
    by (auto simp: r0' InitializeRequest_def)
  let ?results = "insert_results (hr_ordered_results r1) Map.empty"
  have status: "checked_status r1 = rs"
    using r1(4,5) rs h(2) by (simp add: checked_status_def clear_classes_def)
  have get: "GetResults None 200 (wi_parse_binary w) r1 =
      ((Error_status rs, PostRunProcessing ?h ?results), r1\<lparr>hr_request_status := rs\<rparr>)"
    using rs tail w r1(3) by (simp add: GetResults_def status wire_ok_def)
  have names: "map re_name (map2 with_output ?rs (map fst outs)) = map so_name (sh_output h)"
  proof (rule nth_equalityI)
    show "length (map re_name (map2 with_output ?rs (map fst outs))) = length (map so_name (sh_output h))"
      using outs by (simp add: list_all2_lengthD)
    fix i
    assume "i < length (map re_name (map2 with_output ?rs (map fst outs)))"
    then have i: "i < length (sh_output h)" "i < length outs"
      by simp_all
    then obtain k where "context_GetOutput ctx (so_name (sh_output h ! i)) = Inr k"
      using known nth_mem by blast
    then show "map re_name (map2 with_output ?rs (map fst outs)) ! i = map so_name (sh_output h) ! i"
      using i by (simp add: with_output_name created_result_name)
  qed
  have "client_has (PostRunProcessing ?h ?results) so entries"
    if z: "(so, (out, entries)) \<in> set (zip (sh_output h) outs)" for so out entries
  proof -
    obtain i where i: "i < length (sh_output h)" "i < length outs" "sh_output h ! i = so" "outs ! i = (out, entries)"
      using z by (auto simp: set_zip)
    have d: "delivers ctx ?bs so out entries"
      using outs i by (fastforce simp: list_all2_conv_all_nth)
    let ?res = "with_output (created_result g ctx ?bs so) out"
    have "?res \<in> set (map2 with_output ?rs (map fst outs))"
      unfolding in_set_conv_nth using i by (intro exI [of _ i]) simp
    moreover have "re_name ?res = so_name so"
      using d by (auto simp: with_output_name delivers_def Let_def dest: created_result_name)
    ultimately have "?results (so_name so) = Some ?res"
      using map_of_by_name [of ?res "map2 with_output ?rs (map fst outs)" re_name] h(3) names
      by (simp add: insert_results_first r1(2))
    then show ?thesis
      using client_has_result [OF d, of ?h ?results g] h(3) nth_mem [OF i(1)] i(3) by simp
  qed
  then have "list_all2 (\<lambda>so (out, entries). client_has (PostRunProcessing ?h ?results) so entries) (sh_output h) outs"
    using outs by (auto simp: list_all2_iff)
  then show ?thesis
    using r1(1) get by blast
qed

section \<open>A server that is not ready\<close>

text \<open>
  The reply says that the server is not ready, but nothing marks the request as failed: its
  statistics are reported as those of a success.
\<close>

lemma infer_not_ready:
  assumes "sv_ready_state sv \<noteq> SERVER_READY"
    and "InferHelper env backends name version hdr stats timer req sv = Returned (h, stats', hdr', Inr (res, sv'))"
  shows "\<exists>reply. res = Infer_replied reply \<and> hp_code reply = EVHTP_RES_BADREQ \<and> sv' = sv \<and> st_failed stats' = st_failed stats"
  using assms
  by (auto simp: InferHelper_def HandleInfer_def Let_def http_FinalizeResponse_def send_reply_def status_code_def
      RequestStatus_Create_msg_def split: outcome.splits option.splits prod.splits sum.splits if_splits)

lemma not_ready_counted_as_success:
  assumes "sv_ready_state sv \<noteq> SERVER_READY" and "hq_method req = htp_method_POST"
    and "match_infer uri = Some (name, [])" and "uri \<noteq> []"
    and "InferHelper env backends name (- 1)
      (he_parse_request env (case hq_header_in req header_infer_request of None \<Rightarrow> [] | Some s \<Rightarrow> s))
      ((ModelInferStats name)\<lparr>st_requested_model_version := - 1\<rparr>) (StartTimer Request_duration start ScopedTimer) req sv =
      Returned (h, stats, hdr, Inr (res, sv1))"
  shows "\<exists>reply (st :: model_infer_stats). http_HandleInfer env backends reporter start now req uri sv = Returned (Infer_replied reply,
      sv\<lparr>sv_status := UpdateSuccessInferStats (st_model_name st)
        (case stats_reporter reporter h of None \<Rightarrow> st_requested_model_version st | Some v \<Rightarrow> v) (st_batch_size st)
        (st_execution_count st) (st_request_duration_ns st) (st_queue_duration_ns st) (st_compute_duration_ns st)
        (sv_status sv)\<rparr>) \<and> hp_code reply = EVHTP_RES_BADREQ"
proof -
  obtain reply where r: "res = Infer_replied reply" "hp_code reply = EVHTP_RES_BADREQ" "sv1 = sv" "\<not> st_failed stats"
    using infer_not_ready [OF assms(1,5)] by (auto simp: ModelInferStats_def)
  let ?st = "timer_destroy now (StartTimer Request_duration start ScopedTimer) stats"
  have "\<not> st_failed ?st"
    using r(4) by (simp add: timer_destroy_def set_duration_def StartTimer_def Let_def ScopedTimer_def timer_Start_def)
  then have "http_HandleInfer env backends reporter start now req uri sv = Returned (Infer_replied reply,
      sv\<lparr>sv_status := UpdateSuccessInferStats (st_model_name ?st)
        (case stats_reporter reporter h of None \<Rightarrow> st_requested_model_version ?st | Some v \<Rightarrow> v) (st_batch_size ?st)
        (st_execution_count ?st) (st_request_duration_ns ?st) (st_queue_duration_ns ?st) (st_compute_duration_ns ?st)
        (sv_status sv)\<rparr>)"
    using assms r by (simp add: http_HandleInfer_def Let_def finish_stats_def ModelInferStats_destroy_def)
  then show ?thesis
    using r(2) by blast
qed

section \<open>The properties\<close>

text \<open>
  The URL the client makes for a model, as the server takes it apart, has the endpoint of
  inference, the name of the model and the requested version; without a version it is the latest, -1.
\<close>

theorem client_url_reaches_model:
  assumes "name \<noteq> []" and "CHR ''/'' \<notin> set name" and "line name" and "version < 2 ^ 63"
  shows "\<exists>rest ds. match_api (drop (length server_url) (infer_url server_url name version)) = Some (''infer'', rest) \<and>
    match_infer rest = Some (name, ds) \<and> (if ds \<noteq> [] then atoll ds else - 1) = max (- 1) version"
  by (rule url_reaches_model [OF assms])

theorem client_url_reaches_model_witness:
  "\<exists>rest ds. match_api (drop (length ''host'') (infer_url ''host'' ''bert'' 12)) = Some (''infer'', rest) \<and>
    match_infer rest = Some (''bert'', ds) \<and> (if ds \<noteq> [] then atoll ds else - 1) = max (- 1) 12"
  by (rule client_url_reaches_model) (simp_all add: line_def)

text \<open>
  Claim C16. A request that succeeds reaches the client as it left the backend: the client makes its
  results from the headers and the body of the reply, in whatever pieces the body arrives and
  among whatever other headers, and has a result for every output of the response header, with the
  shape and the bytes of every batch entry, or with the classes.
\<close>

theorem http_reply_reaches_client:
  assumes "wire_ok env w rs (h\<lparr>sh_id := iq_id iq\<rparr>)" and "rs_code rs = SUCCESS"
    and "reply_format (iq_req iq) = ''binary''" and "hq_headers_out (iq_req iq) = []"
    and "\<forall>l \<in> set (front @ back). other_line l"
    and "h = rv_response_header (iq_response_provider iq)" and "sh_model_name h \<noteq> []" and "distinct (map so_name (sh_output h))"
    and "list_all2 (\<lambda>so (out, entries). delivers ctx (sh_batch_size h) so out entries) (sh_output h) outs"
    and "wi_bytes w (hv_output_buffer (iq_response_provider iq)) = concat (map fst outs)"
    and "concat (map fst ps) = wi_bytes w (hp_buffer (http_FinalizeResponse env rs iq))"
    and "length (concat (map fst ps)) < 2 ^ 64"
    and "r0 = receive_headers (wi_parse_status w) (wi_parse_header w) g ctx
      (reply_lines front (http_FinalizeResponse env rs iq) back) (InitializeRequest r)"
  shows "\<exists>r1 results r2. receive_body beyond ps r0 = (True, r1) \<and>
    GetResults None 200 (wi_parse_binary w) r1 = ((Error_status rs, results), r2) \<and>
    list_all2 (\<lambda>so (out, entries). client_has results so entries) (sh_output h) outs"
  by (rule reply_reaches_client [OF assms])

definition reply_env :: "bytes http_env" where
  "reply_env = \<lparr>he_add = (\<lambda>bs ev. ev @ bs), he_drain = (\<lambda>_. []), he_status_text = (\<lambda>_. ''s''), he_header_text = (\<lambda>_. ''h''),
     he_header_binary = (\<lambda>_. [9]), he_header_debug = (\<lambda>_. []), he_server_binary = (\<lambda>_. []),
     he_server_debug = (\<lambda>_. []), he_parse_request = (\<lambda>_. request_header_clear)\<rparr>"

definition reply_header :: response_header where
  "reply_header = (case example_header [] of Some h \<Rightarrow> h | None \<Rightarrow> response_header_clear)"

definition reply_status :: request_status where
  "reply_status = request_status_clear\<lparr>rs_code := SUCCESS\<rparr>"

definition reply_wire :: "bytes wire" where
  "reply_wire = \<lparr>wi_parse_status = (\<lambda>_. Some reply_status), wi_parse_header = (\<lambda>_. Some reply_header),
     wi_parse_binary = (\<lambda>_. reply_header), wi_bytes = (\<lambda>bs. bs)\<rparr>"

definition reply_provider :: "bytes http_provider" where
  "reply_provider = (http_Create (concat example_outputs) request_header_clear Map.empty)\<lparr>rv_response_header := reply_header\<rparr>"

definition reply_infer :: "bytes infer_request" where
  "reply_infer =
     \<lparr>iq_req = \<lparr>hq_method = htp_method_POST, hq_path = ''/api/infer/m'', hq_query = [''format'' \<mapsto> ''binary''],
        hq_header_in = Map.empty, hq_peek_count = 0, hq_peek = (\<lambda>_. (0, [])), hq_buffer_out = [], hq_headers_out = []\<rparr>,
      iq_id = 0, iq_request_provider = InferRequestProvider ''m'' 1, iq_response_provider = reply_provider,
      iq_infer_stats = ModelInferStats ''m'', iq_timer = ScopedTimer\<rparr>"

definition reply_entries :: "(bytes \<times> bytes list) list" where
  "reply_entries = [([1, 2, 3, 4, 5, 6], [[1, 2, 3], [4, 5, 6]]), ([1, 0, 0, 0, 7, 0, 0, 0, 0], [[1, 0, 0, 0, 7], [0, 0, 0, 0]])]"

lemma reply_delivers:
  "list_all2 (\<lambda>so (out, entries). delivers example_context (sh_batch_size reply_header) so out entries)
     (sh_output reply_header) reply_entries"
proof -
  let ?so = "\<lambda>name dims n. \<lparr>so_name = name, so_raw = Some \<lparr>rr_dims = dims, rr_batch_byte_size = n\<rparr>, so_batch_classes = []\<rparr>"
  have known: "context_GetOutput example_context ''O'' = Inr 0" "context_GetOutput example_context ''S'' = Inr 1"
    "ic_outputs example_context = [example_output ''O'' TYPE_INT8, example_output ''S'' TYPE_STRING]"
    by code_simp+
  have ones: "GetElementCount [1] = 1" "batch_bytes [[7]] = [1, 0, 0, 0, 7]" "batch_bytes [[]] = [0, 0, 0, 0]" "wrap_u64 1 = 1"
    by code_simp+
  have "delivers example_context 2 (?so ''O'' [3] 6) [1, 2, 3, 4, 5, 6] [[1, 2, 3], [4, 5, 6]]"
    by (simp add: delivers_def known output_index_def example_output_def OutputImpl_def IsFixedSizeDataType_def)
  moreover have "delivers example_context 2 (?so ''S'' [1] 0) [1, 0, 0, 0, 7, 0, 0, 0, 0] [[1, 0, 0, 0, 7], [0, 0, 0, 0]]"
    by (simp add: delivers_def known output_index_def example_output_def OutputImpl_def IsFixedSizeDataType_def ones
        exI [of _ "[[[7]], [[]]]"])
  ultimately show ?thesis
    by (simp add: reply_entries_def reply_header_def example_header_def)
qed

theorem http_reply_reaches_client_witness:
  "\<exists>r1 results r2.
    receive_body no_bytes [([1, 2], (0, 0)), ([3, 4, 5, 6, 1, 0], (1, 0)), ([0], (2, 0)), ([0, 7, 0, 0, 0, 0, 9], (3, 0))]
      (receive_headers (wi_parse_status reply_wire) (wi_parse_header reply_wire) 0 example_context
        (reply_lines [''HTTP/1.1 200 OK''] (http_FinalizeResponse reply_env reply_status reply_infer) [[]])
        (InitializeRequest (HttpRequestImpl 1 []))) = (True, r1) \<and>
    GetResults None 200 (wi_parse_binary reply_wire) r1 = ((Error_status reply_status, results), r2) \<and>
    list_all2 (\<lambda>so (out, entries). client_has results so entries) (sh_output reply_header) reply_entries"
proof (rule http_reply_reaches_client [where h = reply_header and iq = reply_infer and env = reply_env, OF _ _ _ _ _ _ _ _ reply_delivers])
  show "wire_ok reply_env reply_wire reply_status (reply_header\<lparr>sh_id := iq_id reply_infer\<rparr>)"
    by (simp add: wire_ok_def reply_env_def reply_wire_def) code_simp
  show "\<forall>l \<in> set ([''HTTP/1.1 200 OK''] @ [[]]). other_line l"
    by code_simp
  show "rs_code reply_status = SUCCESS" "reply_format (iq_req reply_infer) = ''binary''" "hq_headers_out (iq_req reply_infer) = []"
    "reply_header = rv_response_header (iq_response_provider reply_infer)" "sh_model_name reply_header \<noteq> []"
    "distinct (map so_name (sh_output reply_header))"
    "wi_bytes reply_wire (hv_output_buffer (iq_response_provider reply_infer)) = concat (map fst reply_entries)"
    by code_simp+
  show "concat (map fst [([1, 2], (0, 0)), ([3, 4, 5, 6, 1, 0], (1, 0)), ([0], (2, 0)), ([0, 7, 0, 0, 0, 0, 9], (3, 0))]) =
      wi_bytes reply_wire (hp_buffer (http_FinalizeResponse reply_env reply_status reply_infer))"
    by code_simp
qed simp_all

end
