(* ===== verification/Grpc_Server.thy ===== *)
theory Grpc_Server
  imports Http_Server
begin

text \<open>
  \<open>src/servers/grpc_server.cc\<close>: the GRPC front end, with the messages of \<open>grpc_service.proto\<close> it
  shares with the client. The life cycle of a call belongs to \<open>nvrpc\<close> and GRPC; here an operation
  is what a context does between the arrival of a request and \<open>CompleteExecution\<close>.
\<close>

section \<open>Messages\<close>

record infer_message =
  gm_model_name :: string
  gm_model_version :: int
  gm_meta_data :: request_header
  gm_raw_input :: "bytes list"

record infer_response =
  gr_request_status :: request_status
  gr_meta_data :: response_header
  gr_raw_output :: "bytes list"

definition infer_response_clear :: infer_response where
  "infer_response_clear =
     \<lparr>gr_request_status = request_status_clear, gr_meta_data = response_header_clear, gr_raw_output = []\<rparr>"

section \<open>Inference\<close>

text \<open>What the completion of a request needs: the id, the providers and the statistics.\<close>

record grpc_infer =
  gi_id :: "64 word"
  gi_request_provider :: infer_request_provider
  gi_response_provider :: grpc_provider
  gi_infer_stats :: model_infer_stats
  gi_timer :: scoped_timer

datatype grpc_result =
    Grpc_completed infer_response
  | Grpc_paused "64 word" nat grpc_infer

text \<open>
  The response when the request is done: it is the response of the provider, unless the request
  failed; then only the status and the id are left.
\<close>

definition grpc_finish :: "request_status \<Rightarrow> grpc_infer \<Rightarrow> infer_response" where
  "grpc_finish rs gi =
     (let p = gi_response_provider gi;
          response = (if rs_code rs \<noteq> SUCCESS
                      then \<lparr>gr_request_status = rs, gr_meta_data = response_header_clear, gr_raw_output = []\<rparr>
                      else \<lparr>gr_request_status = rs, gr_meta_data = rv_response_header p, gr_raw_output = gv_raw_output p\<rparr>)
      in response\<lparr>gr_meta_data := (gr_meta_data response)\<lparr>sh_id := gi_id gi\<rparr>\<rparr>)"

text \<open>The response provider gets the request header as it was sent, not the normalized one.\<close>

definition grpc_InferHelper ::
  "(nat \<Rightarrow> inference_backend) \<Rightarrow> model_infer_stats \<Rightarrow> scoped_timer \<Rightarrow> infer_message \<Rightarrow> inference_server \<Rightarrow>
   (nat option \<times> model_infer_stats \<times> (status + grpc_result \<times> inference_server)) outcome" where
  "grpc_InferHelper backends infer_stats timer request sv =
     (case InferBackendHandle_Create sv (gm_model_name request) (gm_model_version request) of
        Thrown \<Rightarrow> Thrown
      | Returned (st, None) \<Rightarrow> Returned (None, infer_stats, Inl st)
      | Returned (st, Some h) \<Rightarrow>
          Returned
            (let is = backends h; (st1, hdr) = NormalizeRequestHeader is (gm_meta_data request) in
             if \<not> IsOk st1 then (Some h, infer_stats, Inl st1)
             else
               (let (st2, input_map) = GRPCInferRequestToInputMap (gm_model_name request) (gm_raw_input request) hdr Map.empty in
                if \<not> IsOk st2 then (Some h, infer_stats, Inl st2)
                else
                  (case provider_Create (gm_model_name request) (gm_model_version request) hdr input_map of
                     Inl e \<Rightarrow> (Some h, infer_stats, Inl e)
                   | Inr request_provider \<Rightarrow>
                       (let stats = infer_stats\<lparr>st_batch_size := ucast (rh_batch_size hdr)\<rparr>;
                            gi = \<lparr>gi_id = rh_id (gm_meta_data request), gi_request_provider = request_provider,
                                  gi_response_provider = grpc_Create (gm_meta_data request) (ib_label_provider is),
                                  gi_infer_stats = stats, gi_timer = timer\<rparr>
                        in (Some h, stats,
                            Inr (case HandleInfer sv of
                                   (Infer_done rs, sv1) \<Rightarrow> (Grpc_completed (grpc_finish rs gi), sv1)
                                 | (Infer_running request_id, sv1) \<Rightarrow> (Grpc_paused request_id h gi, sv1))))))))"

definition grpc_ExecuteRPC ::
  "(nat \<Rightarrow> inference_backend) \<Rightarrow> (nat \<Rightarrow> int option) \<Rightarrow> timespec \<Rightarrow> timespec \<Rightarrow> infer_message \<Rightarrow> inference_server \<Rightarrow>
   (grpc_result \<times> inference_server) outcome" where
  "grpc_ExecuteRPC backends reporter start now request sv =
     (let timer = StartTimer Request_duration start ScopedTimer;
          infer_stats = (ModelInferStats (gm_model_name request))\<lparr>st_requested_model_version := gm_model_version request\<rparr>
      in case grpc_InferHelper backends infer_stats timer request sv of
           Thrown \<Rightarrow> Thrown
         | Returned (h, stats, Inr (Grpc_completed response, sv1)) \<Rightarrow>
             Returned (Grpc_completed response, finish_stats now (stats_reporter reporter h) timer stats sv1)
         | Returned (h, stats, Inr (Grpc_paused request_id h' gi, sv1)) \<Rightarrow> Returned (Grpc_paused request_id h' gi, sv1)
         | Returned (h, stats, Inl st) \<Rightarrow>
             Returned
               (Grpc_completed
                  \<lparr>gr_request_status = RequestStatus_Create_status request_status_clear 0 (sv_id sv) st,
                   gr_meta_data = response_header_clear\<lparr>sh_id := rh_id (gm_meta_data request)\<rparr>, gr_raw_output = []\<rparr>,
                finish_stats now (stats_reporter reporter h) timer (stats\<lparr>st_failed := True\<rparr>) sv))"

text \<open>The completion of a paused request: the response goes out before the timer stops.\<close>

definition grpc_complete ::
  "int option \<Rightarrow> timespec \<Rightarrow> request_status \<Rightarrow> model_infer_stats \<Rightarrow> grpc_infer \<Rightarrow> inference_server \<Rightarrow>
   infer_response \<times> inference_server" where
  "grpc_complete reporter now rs stats gi sv =
     (grpc_finish rs gi, release_inflight (finish_stats now reporter (gi_timer gi) stats sv))"

section \<open>Status, profile and health\<close>

definition grpc_Status ::
  "timespec \<Rightarrow> timespec \<Rightarrow> string \<Rightarrow> inference_server \<Rightarrow> ((request_status \<times> server_status) \<times> inference_server) outcome" where
  "grpc_Status start now model_name sv =
     (case HandleStatus now model_name sv of
        Thrown \<Rightarrow> Thrown
      | Returned (rs, server_status, sv1) \<Rightarrow>
          Returned ((rs, case server_status of None \<Rightarrow> server_status_clear | Some s \<Rightarrow> s), report_stat start now STAT_STATUS sv1))"

definition grpc_Profile ::
  "timespec \<Rightarrow> timespec \<Rightarrow> status \<Rightarrow> status \<Rightarrow> string \<Rightarrow> inference_server \<Rightarrow> request_status \<times> inference_server" where
  "grpc_Profile start now start_all stop_all cmd sv =
     (let (rs, sv1) = HandleProfile start_all stop_all cmd sv in (rs, report_stat start now STAT_PROFILE sv1))"

definition grpc_Health ::
  "timespec \<Rightarrow> timespec \<Rightarrow> string \<Rightarrow> inference_server \<Rightarrow> (request_status \<times> bool) \<times> inference_server" where
  "grpc_Health start now mode sv =
     (let (rs, health, sv1) = HandleHealth now mode sv in ((rs, health), report_stat start now STAT_HEALTH sv1))"

section \<open>The server\<close>

record grpc_server =
  gs_addr :: string
  gs_infer_thread_cnt :: int
  gs_stream_infer_thread_cnt :: int
  gs_running :: bool

definition GRPCServer_Create :: "int \<Rightarrow> int \<Rightarrow> int \<Rightarrow> status \<times> grpc_server" where
  "GRPCServer_Create port infer_thread_cnt stream_infer_thread_cnt =
     (Status_Success,
      \<lparr>gs_addr = ''0.0.0.0:'' @ show_int port, gs_infer_thread_cnt = infer_thread_cnt,
       gs_stream_infer_thread_cnt = stream_infer_thread_cnt, gs_running = False\<rparr>)"

definition grpc_Start :: "grpc_server \<Rightarrow> status \<times> grpc_server" where
  "grpc_Start gs =
     (if \<not> gs_running gs then (Status_Success, gs\<lparr>gs_running := True\<rparr>)
      else (Status ALREADY_EXISTS ''GRPC server is already running.'', gs))"

definition grpc_Stop :: "grpc_server \<Rightarrow> status \<times> grpc_server" where
  "grpc_Stop gs =
     (if gs_running gs then (Status_Success, gs\<lparr>gs_running := False\<rparr>)
      else (Status UNAVAILABLE ''GRPC server is not running.'', gs))"

end
