(* ===== verification/Client_Grpc.thy ===== *)
theory Client_Grpc
  imports Client_Http Grpc_Server
begin

text \<open>
  The GRPC client of \<open>src/clients/c++/request_grpc.cc\<close>: a request is one message with the contents of
  all inputs, and its results use the contents of the response in place. The stub of GRPC is a
  parameter: the status of a call and the response.
\<close>

section \<open>The results of a response\<close>

datatype grpc_status = Grpc_ok | Grpc_error int string

definition grpc_failed :: "int \<Rightarrow> string \<Rightarrow> client_error" where
  "grpc_failed code msg = Error_msg INTERNAL (''GRPC client failed: '' @ show_int code @ '': '' @ msg)"

record grpc_request =
  gq_id :: "64 word"
  gq_timer :: request_timers
  gq_status :: grpc_status
  gq_response :: infer_response

definition GrpcRequestImpl :: "64 word \<Rightarrow> grpc_request" where
  "GrpcRequestImpl n = \<lparr>gq_id = n, gq_timer = RequestTimers_Reset, gq_status = Grpc_ok, gq_response = infer_response_clear\<rparr>"

text \<open>\<open>beyond k\<close> is what the memory holds after the content \<open>k\<close> of the response.\<close>

definition InitResult ::
  "(nat \<Rightarrow> nat \<Rightarrow> 8 word) \<Rightarrow> infer_response \<Rightarrow> output_impl \<Rightarrow> response_output \<Rightarrow> nat \<Rightarrow> result_impl \<Rightarrow>
   client_error \<times> result_impl" where
  "InitResult beyond response infer_output out idx result =
     (let result1 = SetBatch1Shape (rr_dims (header_raw out)) result;
          result2 = (if IsFixedSizeDataType (mo_data_type (oi_mio infer_output))
                     then SetBatchnByteSize (rr_batch_byte_size (header_raw out)) result1 else result1)
      in if re_result_format result2 = RAW then
           (if length (gr_raw_output response) \<le> idx then
              (Error_msg INVALID (''Expected RAW output for result '' @ quote (so_name out)), result2)
            else
              (let raw_output = gr_raw_output response ! idx;
                   (err, result_bytes, result3) = SetNextRawResult (beyond idx) raw_output True result2
               in if \<not> Error_IsOk err then (err, result3)
                  else if result_bytes \<noteq> length raw_output then
                    (Error_msg INVALID (''Written bytes doesn'' @ [CHR 0x27] @ ''t match received bytes for result '' @ quote (so_name out)), result3)
                  else (Error_Success, result3)))
         else (Error_Success, result2))"

text \<open>The results are a map by name; the first result of a name stays.\<close>

fun grpc_results ::
  "int \<Rightarrow> (nat \<Rightarrow> nat \<Rightarrow> 8 word) \<Rightarrow> infer_context \<Rightarrow> infer_response \<Rightarrow> response_output list \<Rightarrow> nat \<Rightarrow>
   (string \<rightharpoonup> result_impl) \<Rightarrow> client_error \<times> (string \<rightharpoonup> result_impl)" where
  "grpc_results garbage beyond ctx response [] idx results = (Error_Success, results)"
| "grpc_results garbage beyond ctx response (out # outs) idx results =
     (case context_GetOutput ctx (so_name out) of
        Inl err \<Rightarrow> (err, Map.empty)
      | Inr k \<Rightarrow>
          (let infer_output = ic_outputs ctx ! k;
               (err, result) = InitResult beyond response infer_output out idx
                 (ResultImpl garbage infer_output (unat (sh_batch_size (gr_meta_data response))))
           in if \<not> Error_IsOk err then (err, Map.empty)
              else grpc_results garbage beyond ctx response outs (Suc idx)
                (case results (so_name out) of None \<Rightarrow> results(so_name out \<mapsto> result) | Some _ \<Rightarrow> results)))"

definition grpc_GetResults ::
  "int \<Rightarrow> (nat \<Rightarrow> nat \<Rightarrow> 8 word) \<Rightarrow> infer_context \<Rightarrow> grpc_request \<Rightarrow> client_error \<times> (string \<rightharpoonup> result_impl)" where
  "grpc_GetResults garbage beyond ctx r =
     (case gq_status r of
        Grpc_error code msg \<Rightarrow> (grpc_failed code msg, Map.empty)
      | Grpc_ok \<Rightarrow>
          (let response = gq_response r in
           if rs_code (gr_request_status response) \<noteq> SUCCESS then (Error_status (gr_request_status response), Map.empty)
           else
             (let (err, results) = grpc_results garbage beyond ctx response (sh_output (gr_meta_data response)) 0 Map.empty in
              if \<not> Error_IsOk err then (err, Map.empty)
              else (Error_status (gr_request_status response), PostRunProcessing (gr_meta_data response) results))))"

section \<open>The message of a request\<close>

text \<open>
  The batch entries of an input one after the other. The errors of \<open>GetRaw\<close> and of
  \<open>PrepareForRequest\<close> are dropped; a buffer that is not there is read all the same, which has
  no value here.
\<close>

fun append_batches :: "client_memory \<Rightarrow> input_impl \<Rightarrow> nat list \<Rightarrow> bytes \<Rightarrow> bytes option" where
  "append_batches m io [] acc = Some acc"
| "append_batches m io (b # bs) acc =
     (case input_GetRaw (of_nat b) io of
        Inr (Some (a, n)) \<Rightarrow>
          (case read_block m a 0 (unat n) of None \<Rightarrow> None | Some data \<Rightarrow> append_batches m io bs (acc @ data))
      | _ \<Rightarrow> None)"

fun raw_inputs :: "client_memory \<Rightarrow> nat \<Rightarrow> input_impl list \<Rightarrow> bytes list option" where
  "raw_inputs m batch_size [] = Some []"
| "raw_inputs m batch_size (io # ios) =
     (case append_batches m io [0..<batch_size] [] of
        None \<Rightarrow> None
      | Some raw \<Rightarrow> map_option (Cons raw) (raw_inputs m batch_size ios))"

definition grpc_PreRunProcessing ::
  "client_memory \<Rightarrow> 64 word \<Rightarrow> infer_context \<Rightarrow> (infer_message \<times> infer_context) option" where
  "grpc_PreRunProcessing m request_id ctx =
     (let ctx1 = ctx\<lparr>ic_inputs := map (snd \<circ> PrepareForRequest) (ic_inputs ctx),
            ic_infer_request := (ic_infer_request ctx)\<lparr>rh_input := map request_input_of (ic_inputs ctx), rh_id := request_id\<rparr>\<rparr>
      in map_option (\<lambda>raws. (\<lparr>gm_model_name = ic_model_name ctx, gm_model_version = ic_model_version ctx,
             gm_meta_data = ic_infer_request ctx1, gm_raw_input = raws\<rparr>, ctx1))
           (raw_inputs m (unat (ic_batch_size ctx)) (ic_inputs ctx1)))"

section \<open>A synchronous request\<close>

text \<open>\<open>clk k\<close> is the time of the k-th reading of the clock.\<close>

definition grpc_Run ::
  "int \<Rightarrow> (nat \<Rightarrow> nat \<Rightarrow> 8 word) \<Rightarrow> (nat \<Rightarrow> timespec) \<Rightarrow> (infer_message \<Rightarrow> grpc_status \<times> infer_response) \<Rightarrow> client_memory \<Rightarrow>
   infer_context \<Rightarrow> grpc_request \<Rightarrow>
   ((client_error \<times> (string \<rightharpoonup> result_impl)) \<times> infer_context \<times> grpc_request) option" where
  "grpc_Run garbage beyond clk stub m ctx r =
     (let t1 = timer_Record (clk 0) SEND_START RequestTimers_Reset in
      case grpc_PreRunProcessing m (gq_id r) ctx of
        None \<Rightarrow> None
      | Some (message, ctx1) \<Rightarrow>
          (let t2 = timer_Record (clk 2) REQUEST_START (timer_Record (clk 1) SEND_END t1);
               (status, response) = stub message;
               r1 = r\<lparr>gq_status := status, gq_response := response\<rparr>;
               t3 = timer_Record (clk 4) RECEIVE_START (timer_Record (clk 3) REQUEST_END t2);
               (request_status, results) = grpc_GetResults garbage beyond ctx1 r1;
               t4 = timer_Record (clk 5) RECEIVE_END t3;
               (err, ctx2) = UpdateStat t4 ctx1
           in Some ((request_status, results), ctx2, r1\<lparr>gq_timer := t4\<rparr>)))"

end
