(* ===== verification/Client_Async.thy ===== *)
theory Client_Async
  imports Client_Grpc
begin

text \<open>
  The asynchronous requests of the clients: the part of \<open>InferContextImpl\<close> (\<open>request_common.cc\<close>)
  that the HTTP and the GRPC client share. A request object stands by its number, in the
  order of creation; the user and the map of ongoing requests share it. The calls of the user are not
  thread-safe, so they follow one another; the worker thread acts between them.
\<close>

section \<open>The ongoing requests\<close>

record 'r async_request =
  ar_run_index :: nat
  ar_ready :: bool
  ar_request :: 'r

record 'r async_context =
  as_context :: infer_context
  as_objects :: "'r async_request list"
  as_ongoing :: "(nat \<times> nat) list"
  as_worker :: bool

definition async_init :: "infer_context \<Rightarrow> 'r async_context" where
  "async_init ctx = \<lparr>as_context = ctx, as_objects = [], as_ongoing = [], as_worker = False\<rparr>"

text \<open>\<open>emplace\<close> of a map in the order of its keys, with whether it inserted.\<close>

fun map_emplace :: "nat \<Rightarrow> 'v \<Rightarrow> (nat \<times> 'v) list \<Rightarrow> bool \<times> (nat \<times> 'v) list" where
  "map_emplace k v [] = (True, [(k, v)])"
| "map_emplace k v ((k', v') # m) =
     (if k < k' then (True, (k, v) # (k', v') # m)
      else if k = k' then (False, (k', v') # m)
      else (let (ok, m1) = map_emplace k v m in (ok, (k', v') # m1)))"

definition map_erase :: "nat \<Rightarrow> (nat \<times> 'v) list \<Rightarrow> (nat \<times> 'v) list" where
  "map_erase k m = filter (\<lambda>(k', v). k' \<noteq> k) m"

definition request_ready :: "'r async_context \<Rightarrow> nat \<Rightarrow> bool" where
  "request_ready s i \<longleftrightarrow> ar_ready (as_objects s ! i)"

text \<open>What a call under the condition variable does: it fails, returns, or goes on waiting.\<close>

datatype 'a cv_result = Wait_error client_error | Wait_returned 'a | Wait_blocked

definition GetReadyAsyncRequest :: "bool \<Rightarrow> 'r async_context \<Rightarrow> nat option cv_result" where
  "GetReadyAsyncRequest wait s =
     (if as_ongoing s = [] then Wait_error (Error_msg UNAVAILABLE ''No asynchronous requests have been sent'')
      else (case find (\<lambda>(k, i). request_ready s i) (as_ongoing s) of
              Some (k, i) \<Rightarrow> Wait_returned (Some i)
            | None \<Rightarrow> if \<not> wait then Wait_returned None else Wait_blocked))"

definition IsRequestReady :: "nat \<Rightarrow> bool \<Rightarrow> 'r async_context \<Rightarrow> bool cv_result" where
  "IsRequestReady i wait s =
     (if as_ongoing s = [] then Wait_error (Error_msg INVALID_ARG ''No asynchronous requests have been sent'')
      else (case map_of (as_ongoing s) (ar_run_index (as_objects s ! i)) of
              None \<Rightarrow> Wait_error (Error_msg INVALID_ARG ''No matched asynchronous request found.'')
            | Some _ \<Rightarrow>
                if request_ready s i then Wait_returned True
                else if wait then Wait_blocked else Wait_returned False))"

text \<open>The worker thread sleeps unless a request is not ready.\<close>

definition worker_wakes :: "bool \<Rightarrow> 'r async_context \<Rightarrow> bool" where
  "worker_wakes exiting s \<longleftrightarrow> exiting \<or> (\<exists>(k, i) \<in> set (as_ongoing s). \<not> request_ready s i)"

text \<open>A new request object; in the map unless its key is taken.\<close>

definition new_request :: "nat \<Rightarrow> 'r \<Rightarrow> 'r async_context \<Rightarrow> bool \<times> 'r async_context" where
  "new_request run_index r s =
     (let (ok, m) = map_emplace run_index (length (as_objects s)) (as_ongoing s)
      in (ok, s\<lparr>as_objects := as_objects s @ [\<lparr>ar_run_index = run_index, ar_ready = False, ar_request = r\<rparr>], as_ongoing := m\<rparr>))"

definition update_request :: "nat \<Rightarrow> ('r \<Rightarrow> 'r) \<Rightarrow> 'r async_context \<Rightarrow> 'r async_context" where
  "update_request i f s =
     s\<lparr>as_objects := (as_objects s)[i := (as_objects s ! i)\<lparr>ar_request := f (ar_request (as_objects s ! i))\<rparr>]\<rparr>"

definition set_ready :: "nat \<Rightarrow> 'r async_context \<Rightarrow> 'r async_context" where
  "set_ready i s = s\<lparr>as_objects := (as_objects s)[i := (as_objects s ! i)\<lparr>ar_ready := True\<rparr>]\<rparr>"

definition erase_request :: "nat \<Rightarrow> 'r async_context \<Rightarrow> 'r async_context" where
  "erase_request i s = s\<lparr>as_ongoing := map_erase (ar_run_index (as_objects s ! i)) (as_ongoing s)\<rparr>"

section \<open>The HTTP client\<close>

text \<open>
  \<open>ha_status\<close> is what libcurl reports for the transfer: nothing or the text of its error. What libcurl
  does in a transfer is an argument: the sizes with which it reads the body, the lines and
  the pieces it delivers.
\<close>

record http_async =
  ha_request :: http_request
  ha_status :: "string option"

record curl_transfer =
  ct_reads :: "(64 word \<times> timespec) list"
  ct_lines :: "string list"
  ct_pieces :: "(bytes \<times> timespec) list"

record http_parsers =
  pa_status :: "string \<Rightarrow> request_status option"
  pa_header :: "string \<Rightarrow> response_header option"
  pa_binary :: "bytes \<Rightarrow> response_header"

definition http_perform ::
  "http_parsers \<Rightarrow> int \<Rightarrow> (nat \<Rightarrow> 8 word) \<Rightarrow> client_memory \<Rightarrow> infer_context \<Rightarrow> curl_transfer \<Rightarrow> http_request \<Rightarrow>
   http_request option" where
  "http_perform pa garbage beyond m ctx ct r =
     (case read_body m (ct_reads ct) r of
        None \<Rightarrow> None
      | Some (sent, r1) \<Rightarrow>
          Some (snd (receive_body beyond (ct_pieces ct)
                       (receive_headers (pa_status pa) (pa_header pa) garbage ctx (ct_lines ct) r1))))"

definition start_timers :: "timespec \<Rightarrow> http_request \<Rightarrow> http_request" where
  "start_timers now r =
     (let t = timer_Record now SEND_START (timer_Record now REQUEST_START RequestTimers_Reset)
      in r\<lparr>hr_timer := (if hr_total_input_byte_size r = 0 then timer_Record now SEND_END t else t)\<rparr>)"

definition stop_timers :: "timespec \<Rightarrow> http_request \<Rightarrow> http_request" where
  "stop_timers now r = r\<lparr>hr_timer := timer_Record now REQUEST_END (timer_Record now RECEIVE_END (hr_timer r))\<rparr>"

text \<open>
  \<open>Run\<close>: the synchronous request shares its inputs with the context. \<open>curl_status\<close> is whether libcurl
  could be initialised.
\<close>

definition http_Run ::
  "client_error \<Rightarrow> bool \<Rightarrow> http_parsers \<Rightarrow> int \<Rightarrow> (nat \<Rightarrow> 8 word) \<Rightarrow> timespec \<Rightarrow> timespec \<Rightarrow> client_memory \<Rightarrow> curl_transfer \<Rightarrow>
   string option \<Rightarrow> int \<Rightarrow> infer_context \<Rightarrow> http_request \<Rightarrow>
   ((client_error \<times> (string \<rightharpoonup> result_impl) option) \<times> infer_context \<times> http_request) option" where
  "http_Run curl_status easy_handle pa garbage beyond start now m ct http_status http_code ctx r =
     (if \<not> Error_IsOk curl_status then Some ((curl_status, None), ctx, r)
      else
        (let (err, ctx1, r1) = PreRunProcessing easy_handle ctx (r\<lparr>hr_inputs := ic_inputs ctx\<rparr>) in
         if \<not> Error_IsOk err then Some ((err, None), ctx1\<lparr>ic_inputs := hr_inputs r1\<rparr>, r1)
         else
           (case http_perform pa garbage beyond m ctx1 ct (start_timers start r1) of
              None \<Rightarrow> None
            | Some r2 \<Rightarrow>
                (let r3 = stop_timers now r2;
                     (err1, ctx2) = UpdateStat (hr_timer r3) ctx1;
                     ((err2, results), r4) = GetResults http_status http_code (pa_binary pa) r3
                 in Some ((err2, Some results), ctx2\<lparr>ic_inputs := hr_inputs r4\<rparr>, r4)))))"

fun copy_inputs :: "input_impl list \<Rightarrow> client_memory \<Rightarrow> input_impl list \<times> client_memory" where
  "copy_inputs [] m = ([], m)"
| "copy_inputs (io # ios) m =
     (let (io', m1) = InputImpl_copy io m; (ios', m2) = copy_inputs ios m1 in (io' # ios', m2))"

text \<open>
  \<open>AsyncRun\<close>: the key of the request is the address of its handle; \<open>PreRunProcessing\<close> runs while the
  id is still 0, and its error is dropped. Without a handle the key is not initialised; it is \<open>unset\<close>.
\<close>

definition http_AsyncRun ::
  "bool \<Rightarrow> nat option \<Rightarrow> nat \<Rightarrow> timespec \<Rightarrow> client_memory \<Rightarrow> http_async async_context \<Rightarrow>
   (client_error \<times> nat option) \<times> client_memory \<times> http_async async_context" where
  "http_AsyncRun multi_handle easy_handle unset start m s =
     (if \<not> multi_handle then ((Error_msg INTERNAL ''failed to start HTTP asynchronous client'', None), m, s)
      else
        (let s1 = s\<lparr>as_worker := True\<rparr>;
             (inputs, m1) = copy_inputs (ic_inputs (as_context s)) m;
             r = HttpRequestImpl 0 inputs; i = length (as_objects s)
         in case easy_handle of
              None \<Rightarrow>
                ((Error_msg INTERNAL ''failed to initialize HTTP client'', Some i), m1,
                 s1\<lparr>as_objects := as_objects s @ [\<lparr>ar_run_index = unset, ar_ready = False,
                   ar_request = \<lparr>ha_request = r, ha_status = None\<rparr>\<rparr>]\<rparr>)
            | Some handle \<Rightarrow>
                (let (err, ctx1, r1) = PreRunProcessing True (as_context s1) r;
                     r2 = r1\<lparr>hr_id := ic_async_request_id ctx1\<rparr>;
                     ctx2 = ctx1\<lparr>ic_async_request_id := ic_async_request_id ctx1 + 1\<rparr>;
                     (ok, s2) = new_request handle \<lparr>ha_request = r2, ha_status = None\<rparr> (s1\<lparr>as_context := ctx2\<rparr>)
                 in if \<not> ok then
                      ((Error_msg INTERNAL ''Failed to insert new asynchronous request context.'', Some i), m1, s2)
                    else
                      ((Error_code SUCCESS, Some i), m1,
                       update_request i (\<lambda>a. a\<lparr>ha_request := start_timers start (ha_request a)\<rparr>) s2))))"

text \<open>What \<open>curl_multi_perform\<close> does for one request, through the callbacks.\<close>

definition http_transfer ::
  "http_parsers \<Rightarrow> int \<Rightarrow> (nat \<Rightarrow> 8 word) \<Rightarrow> client_memory \<Rightarrow> curl_transfer \<Rightarrow> nat \<Rightarrow> http_async async_context \<Rightarrow>
   http_async async_context option" where
  "http_transfer pa garbage beyond m ct i s =
     (case http_perform pa garbage beyond m (as_context s) ct (ha_request (ar_request (as_objects s ! i))) of
        None \<Rightarrow> None
      | Some r \<Rightarrow> Some (update_request i (\<lambda>a. a\<lparr>ha_request := r\<rparr>) s))"

text \<open>A message of libcurl: the handle, whether the transfer is done, and its result.\<close>

definition http_message :: "timespec \<Rightarrow> nat \<Rightarrow> bool \<Rightarrow> string option \<Rightarrow> http_async async_context \<Rightarrow> http_async async_context" where
  "http_message now handle is_done result s =
     (case map_of (as_ongoing s) handle of
        None \<Rightarrow> s
      | Some i \<Rightarrow>
          set_ready i (update_request i
            (\<lambda>a. a\<lparr>ha_request := (if is_done then stop_timers now (ha_request a) else ha_request a), ha_status := result\<rparr>) s))"

definition http_GetAsyncRunResults ::
  "http_parsers \<Rightarrow> int \<Rightarrow> nat \<Rightarrow> bool \<Rightarrow> http_async async_context \<Rightarrow>
   ((client_error \<times> bool \<times> (string \<rightharpoonup> result_impl) option) \<times> http_async async_context) option" where
  "http_GetAsyncRunResults pa http_code i wait s =
     (case IsRequestReady i wait s of
        Wait_blocked \<Rightarrow> None
      | Wait_error err \<Rightarrow> Some ((err, False, None), s)
      | Wait_returned False \<Rightarrow> Some ((Error_Success, False, None), s)
      | Wait_returned True \<Rightarrow>
          (let s1 = erase_request i s; a = ar_request (as_objects s ! i);
               (err, ctx1) = UpdateStat (hr_timer (ha_request a)) (as_context s1);
               ((err1, results), r1) = GetResults (ha_status a) http_code (pa_binary pa) (ha_request a)
           in Some ((err1, True, Some results),
                update_request i (\<lambda>a. a\<lparr>ha_request := r1\<rparr>) (s1\<lparr>as_context := ctx1\<rparr>))))"

section \<open>The GRPC client\<close>

text \<open>\<open>AsyncRun\<close> gives the message to GRPC; the key of the request, its id, is the tag of the call.\<close>

definition grpc_AsyncRun ::
  "(nat \<Rightarrow> timespec) \<Rightarrow> client_memory \<Rightarrow> grpc_request async_context \<Rightarrow>
   ((client_error \<times> nat \<times> infer_message option) \<times> grpc_request async_context) option" where
  "grpc_AsyncRun clk m s =
     (let s1 = s\<lparr>as_worker := True\<rparr>; n = ic_async_request_id (as_context s1);
          s2 = s1\<lparr>as_context := (as_context s1)\<lparr>ic_async_request_id := n + 1\<rparr>\<rparr>;
          i = length (as_objects s); (ok, s3) = new_request (unat n) (GrpcRequestImpl n) s2
      in if \<not> ok then
           Some ((Error_msg INTERNAL ''Failed to insert new asynchronous request context.'', i, None), s3)
         else
           (case grpc_PreRunProcessing m n (as_context s3) of
              None \<Rightarrow> None
            | Some (message, ctx1) \<Rightarrow>
                Some ((Error_code SUCCESS, i, Some message),
                  update_request i (\<lambda>r. r\<lparr>gq_timer :=
                      timer_Record (clk 2) REQUEST_START (timer_Record (clk 1) SEND_END
                        (timer_Record (clk 0) SEND_START RequestTimers_Reset))\<rparr>)
                    (s3\<lparr>as_context := ctx1\<rparr>))))"

text \<open>GRPC writes the response of a call to its request; the tag then comes out of the completion queue.\<close>

definition grpc_response_arrives ::
  "nat \<Rightarrow> grpc_status \<Rightarrow> infer_response \<Rightarrow> grpc_request async_context \<Rightarrow> grpc_request async_context" where
  "grpc_response_arrives i status response s =
     update_request i (\<lambda>r. r\<lparr>gq_status := status, gq_response := response\<rparr>) s"

definition grpc_tag :: "timespec \<Rightarrow> nat \<Rightarrow> grpc_request async_context \<Rightarrow> grpc_request async_context" where
  "grpc_tag now got s =
     (case map_of (as_ongoing s) got of
        None \<Rightarrow> s
      | Some i \<Rightarrow> set_ready i (update_request i (\<lambda>r. r\<lparr>gq_timer := timer_Record now REQUEST_END (gq_timer r)\<rparr>) s))"

definition grpc_GetAsyncRunResults ::
  "int \<Rightarrow> (nat \<Rightarrow> nat \<Rightarrow> 8 word) \<Rightarrow> timespec \<Rightarrow> timespec \<Rightarrow> nat \<Rightarrow> bool \<Rightarrow> grpc_request async_context \<Rightarrow>
   ((client_error \<times> bool \<times> (string \<rightharpoonup> result_impl) option) \<times> grpc_request async_context) option" where
  "grpc_GetAsyncRunResults garbage beyond start now i wait s =
     (case IsRequestReady i wait s of
        Wait_blocked \<Rightarrow> None
      | Wait_error err \<Rightarrow> Some ((err, False, None), s)
      | Wait_returned False \<Rightarrow> Some ((Error_Success, False, None), s)
      | Wait_returned True \<Rightarrow>
          (let r = ar_request (as_objects s ! i); ctx = as_context s;
               (request_status, results) = grpc_GetResults garbage beyond ctx r;
               t = timer_Record now RECEIVE_END (timer_Record start RECEIVE_START (gq_timer r));
               (err, ctx1) = UpdateStat t ctx
           in Some ((request_status, True, Some results),
                erase_request i (update_request i (\<lambda>r. r\<lparr>gq_timer := t\<rparr>) (s\<lparr>as_context := ctx1\<rparr>)))))"

section \<open>The stream\<close>

text \<open>
  The requests of a stream context go out by \<open>Write\<close>, whose result is \<open>ok\<close>; a response finds its
  request by the id in its header.
\<close>

definition stream_AsyncRun ::
  "bool \<Rightarrow> (nat \<Rightarrow> timespec) \<Rightarrow> client_memory \<Rightarrow> grpc_request async_context \<Rightarrow>
   ((client_error \<times> nat \<times> infer_message option) \<times> grpc_request async_context) option" where
  "stream_AsyncRun ok clk m s =
     map_option (\<lambda>((err, i, message), s1).
         ((if Error_IsOk err \<and> \<not> ok then Error_msg INTERNAL ''Stream has been closed.'' else err, i, message), s1))
       (grpc_AsyncRun clk m s)"

definition stream_response ::
  "bool \<Rightarrow> timespec \<Rightarrow> infer_response \<Rightarrow> grpc_request async_context \<Rightarrow> grpc_request async_context" where
  "stream_response exiting now response s =
     (if exiting then s
      else
        (case map_of (as_ongoing s) (unat (sh_id (gr_meta_data response))) of
           None \<Rightarrow> s
         | Some i \<Rightarrow>
             set_ready i (update_request i (\<lambda>r. r\<lparr>gq_response := response,
               gq_timer := timer_Record now REQUEST_END (gq_timer r)\<rparr>) s)))"

text \<open>\<open>Run\<close> of a stream context waits for its own request; a wait that goes on has no result.\<close>

definition stream_Run ::
  "bool \<Rightarrow> (nat \<Rightarrow> timespec) \<Rightarrow> client_memory \<Rightarrow> (infer_message option \<Rightarrow> grpc_request async_context \<Rightarrow> grpc_request async_context) \<Rightarrow>
   int \<Rightarrow> (nat \<Rightarrow> nat \<Rightarrow> 8 word) \<Rightarrow> timespec \<Rightarrow> timespec \<Rightarrow> grpc_request async_context \<Rightarrow>
   ((client_error \<times> bool \<times> (string \<rightharpoonup> result_impl) option) \<times> grpc_request async_context) option" where
  "stream_Run ok clk m network garbage beyond start now s =
     (case stream_AsyncRun ok clk m s of
        None \<Rightarrow> None
      | Some ((err, i, message), s1) \<Rightarrow>
          (if \<not> Error_IsOk err then Some ((err, False, None), s1)
           else grpc_GetAsyncRunResults garbage beyond start now i True (network message s1)))"

end
