(* ===== verification/Client_Inplace.thy ===== *)
theory Client_Inplace
  imports Client_Stream
begin

text \<open>
  A result that is filled in place keeps pointers into the response. It goes through the same states as a
  result that copies the bytes, and what its pointers point to is what the other one has copied.
\<close>

definition in_place :: "bytes list \<Rightarrow> bytes list \<Rightarrow> result_impl \<Rightarrow> result_impl" where
  "in_place P B r = r\<lparr>re_inplace := True, re_inplace_ptrs := P, re_buffers := B\<rparr>"

definition views :: "result_impl \<Rightarrow> bytes list \<Rightarrow> bool" where
  "views r P \<longleftrightarrow> length P = re_batch_size r \<and>
     (\<forall>k < re_batch_size r. re_buffers r ! k = take (unat (re_bufs_byte_size r ! k)) (P ! k))"

text \<open>Nothing is saved yet for the entries from the current one on.\<close>

definition clean :: "result_impl \<Rightarrow> bool" where
  "clean r \<longleftrightarrow> (\<forall>k. re_bufs_idx r \<le> k \<longrightarrow> k < re_batch_size r \<longrightarrow> re_bufs_pos r ! k = 0 \<and> re_bufs_byte_size r ! k = 0)"

lemma in_place_sel [simp]:
  "re_bufs_idx (in_place P B r) = re_bufs_idx r" "re_batch_size (in_place P B r) = re_batch_size r"
  "re_bufs_pos (in_place P B r) = re_bufs_pos r" "re_bufs_byte_size (in_place P B r) = re_bufs_byte_size r"
  "re_buffers (in_place P B r) = B" "re_inplace (in_place P B r)" "re_inplace_ptrs (in_place P B r) = P"
  "re_name (in_place P B r) = re_name r" "re_pending (in_place P B r) = re_pending r"
  "re_result_format (in_place P B r) = re_result_format r" "re_shape (in_place P B r) = re_shape r"
  "re_has_fixed_batch1_byte_size (in_place P B r) = re_has_fixed_batch1_byte_size r"
  "re_batch1_byte_size (in_place P B r) = re_batch1_byte_size r"
  "re_batch1_element_count (in_place P B r) = re_batch1_element_count r"
  by (simp_all add: in_place_def)

lemma in_place_finish: "finish b1 (in_place P B r) = in_place P B (finish b1 r)"
  by (simp add: finish_def) (simp add: in_place_def)

lemma in_place_save:
  "bufs_fit r \<Longrightarrow> save_bytes buf csz (in_place P B r) = in_place (P[re_bufs_idx r := buf]) B (save_bytes buf csz r)"
  by (simp add: save_bytes_def Let_def bufs_fit_def) (simp add: in_place_def)

lemma views_save:
  assumes "views r P" and "bufs_fit r" and "re_bufs_idx r < re_batch_size r" and "clean r" and "csz \<le> unat (b1 :: 64 word)"
  shows "views (save_bytes buf csz r) (P[re_bufs_idx r := buf])"
proof -
  let ?k = "re_bufs_idx r"
  have z: "re_bufs_byte_size r ! ?k = 0" "re_buffers r ! ?k = []"
    using assms(1,3,4) by (auto simp: clean_def views_def)
  have "csz < 2 ^ LENGTH(64)"
    using order_le_less_trans [OF assms(5) unsigned_less] .
  then have "unat (of_nat csz :: 64 word) = csz"
    by (simp add: unsigned_of_nat take_bit_nat_eq_self)
  then show ?thesis
    using assms(1-3) z by (auto simp: views_def save_bytes_eq bufs_fit_def nth_list_update)
qed

text \<open>One pass of the loop.\<close>

lemma pass_inplace:
  assumes fit: "bufs_fit r" and idx: "re_bufs_idx r < re_batch_size r" and v: "views r P" and c: "clean r"
    and pass: "pass b1 buf r = (csz, r1)"
  shows "\<exists>P1. pass b1 buf (in_place P B r) = (csz, in_place P1 B r1) \<and> views r1 P1"
    and "clean r1 \<or> drop csz buf = []"
proof -
  let ?k = "re_bufs_idx r"
  have pos: "re_bufs_pos r ! ?k = 0"
    using c idx by (simp add: clean_def)
  have csz: "csz = min (unat b1) (length buf)"
    using pass pos by (auto simp: pass_def taken_def)
  have views_finish: "views (finish b1 s) Q \<longleftrightarrow> views s Q" for s Q
    by (simp add: finish_def views_def)
  have r1: "r1 = finish b1 (if csz > 0 then save_bytes buf csz r else r)"
    using pass by (auto simp: pass_def)
  have "taken b1 buf (in_place P B r) = csz"
    using pass by (simp add: pass_def taken_def)
  then show "\<exists>P1. pass b1 buf (in_place P B r) = (csz, in_place P1 B r1) \<and> views r1 P1"
    using in_place_save [OF fit, of buf csz P B] views_save [OF v fit idx c, of csz b1 buf] v csz
    by (cases "csz > 0") (auto simp: pass_def in_place_finish r1 views_finish)
  show "clean r1 \<or> drop csz buf = []"
  proof (cases "csz = length buf")
    case False
    then have n: "csz = unat b1"
      using csz by auto
    then have "re_bufs_pos (if csz > 0 then save_bytes buf csz r else r) ! ?k = b1"
      using pos fit idx by (auto simp: save_bytes_eq bufs_fit_def unat_eq_zero)
    then have "clean r1"
      using c fit by (auto simp: r1 finish_def clean_def save_bytes_eq bufs_fit_def split: if_splits)
    then show ?thesis ..
  qed simp
qed

lemma loop_inplace:
  "bufs_fit r \<Longrightarrow> views r P \<Longrightarrow> clean r \<or> buf = [] \<Longrightarrow> length B = re_batch_size r \<Longrightarrow> set_batch_loop b1 buf t r = (n, r') \<Longrightarrow>
   \<exists>P'. set_batch_loop b1 buf t (in_place P B r) = (n, in_place P' B r') \<and> views r' P'"
proof (induction "length buf + (re_batch_size r - re_bufs_idx r)" arbitrary: buf t r P rule: less_induct)
  case less
  have len: "length (re_buffers r) = re_batch_size r"
    using less.prems(1) by (simp add: bufs_fit_def)
  show ?case
  proof (cases "re_bufs_idx r < re_batch_size r \<and> buf \<noteq> []")
    case False
    then have "set_batch_loop b1 buf t r = (t, r)" "set_batch_loop b1 buf t (in_place P B r) = (t, in_place P B r)"
      using len less.prems(4) by (auto intro!: set_batch_loop_stop)
    then show ?thesis
      using less.prems(2,5) by auto
  next
    case True
    then have c: "clean r"
      using less.prems(3) by simp
    obtain csz r1 where p: "pass b1 buf r = (csz, r1)"
      by (cases "pass b1 buf r")
    note f = pass_facts [OF less.prems(1) _ p]
    obtain P1 where P1: "pass b1 buf (in_place P B r) = (csz, in_place P1 B r1)" "views r1 P1"
      using pass_inplace(1) [OF less.prems(1) _ less.prems(2) c p] True by blast
    have "set_batch_loop b1 (drop csz buf) (t + csz) r1 = (n, r')"
      using set_batch_loop_pass [OF _ _ p, of t] True len less.prems(5) by simp
    moreover have "length (drop csz buf) + (re_batch_size r1 - re_bufs_idx r1) < length buf + (re_batch_size r - re_bufs_idx r)"
      using f True by (cases "csz = 0") auto
    ultimately obtain P' where "set_batch_loop b1 (drop csz buf) (t + csz) (in_place P1 B r1) = (n, in_place P' B r')" "views r' P'"
      using less.hyps [of "drop csz buf" r1 P1 "t + csz"] f(2,3) P1(2) pass_inplace(2) [OF less.prems(1) _ less.prems(2) c p]
        less.prems(4) True by fastforce
    then show ?thesis
      using set_batch_loop_pass [OF _ _ P1(1), of t] True less.prems(4) by auto
  qed
qed

lemma SetBatch_inplace:
  assumes "bufs_fit r" and "views r P" and "clean r" and "length B = re_batch_size r" and "SetBatchRawResult b1 buf r = (n, r')"
  shows "\<exists>P'. SetBatchRawResult b1 buf (in_place P B r) = (n, in_place P' B r') \<and> views r' P'"
proof (cases "b1 = 0")
  case True
  let ?r = "r\<lparr>re_bufs_idx := length (re_buffers r)\<rparr>"
  have "in_place P B r\<lparr>re_bufs_idx := length B\<rparr> = in_place P B ?r"
    using assms(1,4) by (simp add: in_place_def bufs_fit_def)
  moreover have "bufs_fit ?r" "views ?r P" "clean ?r"
    using assms(1-3) by (auto simp: bufs_fit_def views_def clean_def)
  ultimately show ?thesis
    using loop_inplace [of ?r P buf B b1 0 n r'] assms(4,5) True by (simp add: SetBatchRawResult_def)
next
  case False
  then show ?thesis
    using loop_inplace [of r P buf B b1 0 n r'] assms by (simp add: SetBatchRawResult_def)
qed

lemma SetBatch_clean:
  assumes fit: "bufs_fit r" and c: "clean r" and put: "SetBatchRawResult (of_nat sz) (take sz buf) r = (sz, r')" and sz: "sz < 2 ^ 64"
  shows "clean r'"
proof (cases "sz = 0")
  case True
  then have "r' = r\<lparr>re_bufs_idx := length (re_buffers r)\<rparr>"
    using put by (simp add: SetBatchRawResult_def set_batch_loop_stop)
  then show ?thesis
    using fit by (simp add: clean_def bufs_fit_def)
next
  case False
  let ?b1 = "of_nat sz :: 64 word"
  have b1: "unat ?b1 = sz"
    using sz by (simp add: unsigned_of_nat take_bit_nat_eq_self)
  then have "?b1 \<noteq> 0"
    using False by auto
  then have loop: "set_batch_loop ?b1 (take sz buf) 0 r = (sz, r')"
    using put by (simp add: SetBatchRawResult_def)
  have len: "length (take sz buf) = sz"
    using set_batch_loop_facts [OF fit loop] by simp
  have idx: "re_bufs_idx r < length (re_buffers r)"
    using loop False set_batch_loop_stop [of r "take sz buf" ?b1 0] by (cases "re_bufs_idx r < length (re_buffers r)") auto
  have i: "re_bufs_idx r < re_batch_size r"
    using idx fit by (simp add: bufs_fit_def)
  have ne: "take sz buf \<noteq> []"
    using len False by auto
  obtain csz r1 where p: "pass ?b1 (take sz buf) r = (csz, r1)"
    by (cases "pass ?b1 (take sz buf) r")
  have pos: "re_bufs_pos r ! re_bufs_idx r = 0"
    using c i by (simp add: clean_def)
  have csz: "csz = sz"
    using p pos b1 len by (auto simp: pass_def taken_def)
  have "set_batch_loop ?b1 (take sz buf) 0 r = (sz, r1)"
    using set_batch_loop_pass [OF idx ne p, of 0] len csz by (simp add: set_batch_loop_stop)
  then have r': "r' = r1"
    using loop by simp
  have "r1 = finish ?b1 (save_bytes (take sz buf) sz r)"
    using p csz False by (auto simp: pass_def)
  then show ?thesis
    using c fit i pos by (auto simp: r' finish_def clean_def save_bytes_eq bufs_fit_def)
qed

lemma SetBatch_keeps:
  assumes "bufs_fit r" and "SetBatchRawResult b1 buf r = (n, r')"
  shows "bufs_fit r' \<and> re_batch_size r' = re_batch_size r"
proof -
  let ?r = "if b1 = 0 then r\<lparr>re_bufs_idx := length (re_buffers r)\<rparr> else r"
  have "bufs_fit ?r" "set_batch_loop b1 buf 0 ?r = (n, r')"
    using assms by (simp_all add: bufs_fit_def SetBatchRawResult_def)
  then have "bufs_fit r' \<and> re_batch_size r' = re_batch_size ?r"
    using set_batch_loop_facts by blast
  then show ?thesis
    by simp
qed

lemma assign_inplace:
  "bufs_fit r \<Longrightarrow> views r P \<Longrightarrow> clean r \<Longrightarrow> length B = re_batch_size r \<Longrightarrow> \<forall>sz \<in> set szs. sz < 2 ^ 64 \<Longrightarrow>
   assign_batches szs buf r = (err, r') \<Longrightarrow>
   \<exists>P'. assign_batches szs buf (in_place P B r) = (err, in_place P' B r') \<and> views r' P' \<and>
     bufs_fit r' \<and> re_batch_size r' = re_batch_size r"
proof (induction szs arbitrary: buf r P)
  case Nil
  then show ?case by auto
next
  case (Cons sz szs)
  obtain n r1 where put: "SetBatchRawResult (of_nat sz) (take sz buf) r = (n, r1)"
    by (cases "SetBatchRawResult (of_nat sz) (take sz buf) r")
  obtain P1 where P1: "SetBatchRawResult (of_nat sz) (take sz buf) (in_place P B r) = (n, in_place P1 B r1)" "views r1 P1"
    using SetBatch_inplace [OF Cons.prems(1-4) put] by blast
  have fit: "bufs_fit r1" "re_batch_size r1 = re_batch_size r"
    using SetBatch_keeps [OF Cons.prems(1) put] by simp_all
  show ?case
  proof (cases "n = sz")
    case False
    then show ?thesis
      using put P1 Cons.prems(6) fit by auto
  next
    case True
    have "clean r1"
      using SetBatch_clean [OF Cons.prems(1,3)] put True Cons.prems(5) by simp
    then show ?thesis
      using Cons.IH [of r1 P1 "drop sz buf"] Cons.prems(4-6) fit P1 put True by auto
  qed
qed

section \<open>An output in one piece\<close>

lemma put_output:
  assumes new: "new_result r" and f: "output_matches r out" and raw: "re_result_format r = RAW" and len: "length out < 2 ^ 64"
  shows "SetNextRawResult beyond out False r = (Error_Success, length out, with_output r out)"
proof -
  let ?b1 = "re_batch1_byte_size r" and ?n = "re_batch_size r" and ?szs = "entry_sizes r out"
  have fr: "fresh r" and fit: "bufs_fit r" and p: "re_pending r = []"
    using new by (auto simp: new_result_def bufs_fit_def fresh_def)
  show ?thesis
  proof (cases "re_has_fixed_batch1_byte_size r")
    case fixed: True
    have w: "with_output r out = filled (replicate ?n (unat ?b1)) out r"
      using raw fixed by (simp add: with_output_def entry_sizes_def)
    have len: "length out = ?n * unat ?b1"
      using f raw fixed by (simp add: output_matches_def)
    have "SetBatchRawResult ?b1 out r = (length out, with_output r out)"
    proof (cases "?b1 = 0 \<or> ?n = 0")
      case True
      then show ?thesis
        using filled_zero [OF fr, of out] len fr by (auto simp: w SetBatchRawResult_def set_batch_loop_stop fresh_def)
    next
      case False
      then show ?thesis
        using set_batch_loop_fixed [of ?b1 r ?n out "[]" 0] fit len fr
        by (simp add: SetBatchRawResult_def w filled_def fresh_def map_replicate)
    qed
    then show ?thesis
      using put_fixed [OF fit fixed] by simp
  next
    case var: False
    have c: "complete r out ?szs (length out)"
      using f raw var by (simp add: output_matches_def)
    have w: "with_output r out = (filled ?szs out r)\<lparr>re_pending := []\<rparr>"
      using raw p by (simp add: with_output_def filled_def)
    show ?thesis
    proof (cases "?n = 0")
      case True
      then have "out = []" "with_output r out = r" "re_bufs_idx r = length (re_buffers r)"
        using parsed_sizes [OF c] fr p by (auto simp: w filled_def fresh_def)
      then show ?thesis
        using var inplace_same [OF fit] by (simp add: SetNextRawResult_def Let_def)
    next
      case False
      then have "waiting r"
        using fr p by (simp add: waiting_def)
      then show ?thesis
        using put_string_complete [OF fit var, of out ?szs "length out" beyond] c len by (simp add: p w)
    qed
  qed
qed

lemma views_pending [simp]: "views (r\<lparr>re_pending := x\<rparr>) P \<longleftrightarrow> views r P"
  by (simp add: views_def)

lemma in_place_pending: "(in_place P B r)\<lparr>re_pending := x\<rparr> = in_place P B (r\<lparr>re_pending := x\<rparr>)"
  by (simp add: in_place_def)

lemma SetNext_inplace:
  assumes new: "new_result r" and ptrs: "length (re_inplace_ptrs r) = re_batch_size r"
    and put: "SetNextRawResult beyond out False r = (err, n, r')" and len: "length out < 2 ^ 64"
  shows "\<exists>P. SetNextRawResult beyond out True r = (err, n, in_place P (re_buffers r) r') \<and> views r' P"
proof -
  have fr: "fresh r" and fit: "bufs_fit r" and p: "re_pending r = []" and i: "\<not> re_inplace r"
    using new by (auto simp: new_result_def bufs_fit_def fresh_def)
  let ?B = "re_buffers r" and ?P = "re_inplace_ptrs r"
  have r: "r\<lparr>re_inplace := True\<rparr> = in_place ?P ?B r" "r\<lparr>re_inplace := False\<rparr> = r"
    using i by (simp_all add: in_place_def)
  have v: "views r ?P" "clean r" "length ?B = re_batch_size r"
    using fr ptrs by (auto simp: views_def clean_def fresh_def)
  show ?thesis
  proof (cases "re_has_fixed_batch1_byte_size r")
    case True
    then show ?thesis
      using SetBatch_inplace [OF fit v] put i by (auto simp: SetNextRawResult_def r Let_def)
  next
    case var: False
    show ?thesis
    proof (cases "re_bufs_idx r = length ?B")
      case True
      then have "err = Error_Success" "n = 0" "r' = r"
        using var put i by (simp_all add: SetNextRawResult_def r Let_def)
      moreover have "SetNextRawResult beyond out True r = (Error_Success, 0, in_place ?P ?B r)"
        using True var i by (simp add: SetNextRawResult_def r Let_def)
      ultimately show ?thesis
        using v(1) by blast
    next
      case idx: False
      obtain szs off where b: "batches_loop beyond out (re_batch1_element_count r) (re_batch_size r) 0 [] = (szs, off)"
        by (cases "batches_loop beyond out (re_batch1_element_count r) (re_batch_size r) 0 []")
      show ?thesis
      proof (cases "length szs < re_batch_size r")
        case True
        then show ?thesis
          using var idx put i p b v(1) by (auto simp: SetNextRawResult_def r Let_def in_place_pending)
      next
        case False
        then have "parsed beyond out (re_batch1_element_count r) (re_batch_size r) szs off"
          using b batches_loop_acc [OF b] by (simp add: parsed_def)
        then have "sum_list szs \<le> length out"
          using parsed_sizes parsed_inside by blast
        then have "\<forall>sz \<in> set szs. sz < 2 ^ 64"
          using member_le_sum_list len by (blast intro: order_le_less_trans order_trans)
        moreover obtain e r3 where a: "assign_batches szs out r = (e, r3)"
          by (cases "assign_batches szs out r")
        ultimately obtain P' where "assign_batches szs out (in_place ?P ?B r) = (e, in_place P' ?B r3)" "views r3 P'" "bufs_fit r3" "re_batch_size r3 = re_batch_size r"
          using assign_inplace [OF fit v] by blast
        moreover from this have "length (re_buffers r3) = length ?B"
          using v(3) by (simp add: bufs_fit_def)
        ultimately show ?thesis
          using False var idx put i p b a
          by (auto simp: SetNextRawResult_def r Let_def in_place_pending split: if_splits)
      qed
    qed
  qed
qed

lemma inplace_output:
  assumes "new_result r" and "output_matches r out" and "re_result_format r = RAW" and "length out < 2 ^ 64"
    and "length (re_inplace_ptrs r) = re_batch_size r"
  shows "\<exists>P. SetNextRawResult beyond out True r = (Error_Success, length out, in_place P (re_buffers r) (with_output r out)) \<and>
    views (with_output r out) P"
  using SetNext_inplace [OF assms(1,5) put_output [OF assms(1-4)] assms(4)] .

end
