(* ===== verification/Client_Async_Props.thy ===== *)
theory Client_Async_Props
  imports Client_Async Client_Inplace
begin

text \<open>
  The asynchronous requests of the clients against a specification: a request is outstanding from
  the call that sends it until its results are taken, which happens once and only when it is complete. The
  contract of a transport is a locale, with the HTTP, the GRPC and the stream client as its instances.
\<close>

section \<open>The specification\<close>

text \<open>How many requests there are, those whose results are still to be taken, and of these the complete ones.\<close>

type_synonym outstanding = "nat \<times> nat set \<times> nat set"

datatype async_label = Submitted nat | Refused nat | Completed nat | Collected nat | Idle

inductive async_spec :: "async_label \<Rightarrow> outstanding \<Rightarrow> outstanding \<Rightarrow> bool" where
  submit: "async_spec (Submitted n) (n, W, F) (Suc n, insert n W, F)"
| refuse: "async_spec (Refused n) (n, W, F) (Suc n, W, F)"
| complete: "i \<in> W \<Longrightarrow> async_spec (Completed i) (n, W, F) (n, W, insert i F)"
| collect: "i \<in> F \<Longrightarrow> async_spec (Collected i) (n, W, F) (n, W - {i}, F - {i})"
| idle: "async_spec Idle st st"

inductive async_run :: "async_label list \<Rightarrow> outstanding \<Rightarrow> bool" where
  start: "async_run [] (0, {}, {})"
| step: "async_run ls st \<Longrightarrow> async_spec l st st' \<Longrightarrow> async_run (ls @ [l]) st'"

inductive_cases async_specE: "async_spec l st st'"

definition spec_inv :: "async_label list \<Rightarrow> outstanding \<Rightarrow> bool" where
  "spec_inv ls = (\<lambda>(n, W, F). F \<subseteq> W \<and> W \<subseteq> {..<n} \<and>
     W = {i. Submitted i \<in> set ls \<and> Collected i \<notin> set ls} \<and> F = {i \<in> W. Completed i \<in> set ls} \<and>
     (\<forall>i. Submitted i \<in> set ls \<or> Completed i \<in> set ls \<or> Collected i \<in> set ls \<longrightarrow> i < n) \<and>
     (\<forall>i. Collected i \<in> set ls \<longrightarrow> Submitted i \<in> set ls) \<and>
     (\<forall>i. count_list ls (Submitted i) \<le> 1 \<and> count_list ls (Collected i) \<le> 1))"

lemma count_list_snoc: "count_list (ls @ [l]) x = count_list ls x + (if l = x then 1 else 0)"
  by (simp add: count_list_append)

lemma async_run_inv: "async_run ls st \<Longrightarrow> spec_inv ls st"
proof (induction rule: async_run.induct)
  case start
  then show ?case by (simp add: spec_inv_def)
next
  case (step ls st l st')
  from step.hyps(2) step.IH show ?case
  proof cases
    case (submit n W F)
    then have "Submitted n \<notin> set ls" "Collected n \<notin> set ls" "Completed n \<notin> set ls"
      using step.IH by (auto simp: spec_inv_def)
    then show ?thesis
      using step.IH submit by (auto simp: spec_inv_def count_list_snoc count_list_0_iff less_Suc_eq)
  next
    case (collect i F n W)
    then have "Collected i \<notin> set ls" "Submitted i \<in> set ls"
      using step.IH by (auto simp: spec_inv_def)
    then show ?thesis
      using step.IH collect by (auto simp: spec_inv_def count_list_snoc count_list_0_iff)
  qed (auto simp: spec_inv_def count_list_snoc less_Suc_eq)
qed

lemma spec_idle [simp]: "\<exists>a. async_spec a st st"
  using async_spec.idle by blast

lemma spec_keeps: "async_spec a (n, W, F) (n', W', F') \<Longrightarrow> i < n \<Longrightarrow> i \<notin> W \<Longrightarrow> i < n' \<and> i \<notin> W'"
  by (auto elim: async_spec.cases)

section \<open>The state of a client\<close>

definition async_ok :: "'r async_context \<Rightarrow> bool" where
  "async_ok s \<longleftrightarrow> distinct (map fst (as_ongoing s)) \<and> distinct (map ar_run_index (as_objects s)) \<and>
     (\<forall>(k, i) \<in> set (as_ongoing s). i < length (as_objects s) \<and> ar_run_index (as_objects s ! i) = k)"

definition waiting_requests :: "'r async_context \<Rightarrow> nat set" where
  "waiting_requests s = snd ` set (as_ongoing s)"

definition async_abs :: "'r async_context \<Rightarrow> outstanding" where
  "async_abs s = (length (as_objects s), waiting_requests s, {i \<in> waiting_requests s. request_ready s i})"

lemma ongoing_unique:
  assumes "async_ok s" and "(k, j) \<in> set (as_ongoing s)" and "i < length (as_objects s)" and "ar_run_index (as_objects s ! i) = k"
  shows "j = i"
proof -
  have "j < length (as_objects s)" "ar_run_index (as_objects s ! j) = k" "distinct (map ar_run_index (as_objects s))"
    using assms(1,2) by (auto simp: async_ok_def)
  then show ?thesis
    using assms(3,4) by (simp add: distinct_map inj_on_def) (metis nth_mem nth_eq_iff_index_eq)
qed

lemma waiting_length: "async_ok s \<Longrightarrow> i \<in> waiting_requests s \<Longrightarrow> i < length (as_objects s)"
  by (auto simp: async_ok_def waiting_requests_def)

lemma map_emplace_set:
  "map_emplace k v m = (ok, m') \<Longrightarrow> k \<notin> fst ` set m \<Longrightarrow> ok \<and> set m' = insert (k, v) (set m) \<and> (distinct (map fst m) \<longrightarrow> distinct (map fst m'))"
proof (induction m arbitrary: ok m')
  case (Cons e m)
  obtain k' v' where [simp]: "e = (k', v')"
    by (cases e)
  obtain ok1 m1 where m1: "map_emplace k v m = (ok1, m1)"
    by (cases "map_emplace k v m")
  then have "fst ` set m1 = insert k (fst ` set m)" "ok1" "distinct (map fst m) \<longrightarrow> distinct (map fst m1)"
    using Cons.IH [OF m1] Cons.prems(2) by auto
  then show ?case
    using Cons.IH [OF m1] Cons.prems m1 by (auto split: if_splits)
qed simp

lemma new_request_ok:
  assumes "async_ok s" and "k \<notin> ar_run_index ` set (as_objects s)" and "new_request k r s = (ok, s')"
  shows "ok \<and> async_ok s' \<and> async_spec (Submitted (length (as_objects s))) (async_abs s) (async_abs s') \<and>
    as_objects s' = as_objects s @ [\<lparr>ar_run_index = k, ar_ready = False, ar_request = r\<rparr>] \<and> as_context s' = as_context s"
proof -
  have fresh: "k \<notin> fst ` set (as_ongoing s)"
    using assms(1,2) by (fastforce simp: async_ok_def)
  obtain m where m: "map_emplace k (length (as_objects s)) (as_ongoing s) = (ok, m)"
    "s' = s\<lparr>as_objects := as_objects s @ [\<lparr>ar_run_index = k, ar_ready = False, ar_request = r\<rparr>], as_ongoing := m\<rparr>"
    using assms(3) by (auto simp: new_request_def split: prod.splits)
  note e = map_emplace_set [OF m(1) fresh]
  have ok: "async_ok s'"
    using assms(1,2) e by (auto simp: async_ok_def m(2) nth_append less_Suc_eq)
  have lt: "i < length (as_objects s)" if "i \<in> waiting_requests s" for i
    using assms(1) that by (auto simp: async_ok_def waiting_requests_def)
  have W: "waiting_requests s' = insert (length (as_objects s)) (waiting_requests s)"
    using e by (auto simp: waiting_requests_def m(2))
  have F: "{i \<in> waiting_requests s'. request_ready s' i} = {i \<in> waiting_requests s. request_ready s i}"
    unfolding W using lt by (auto simp: request_ready_def m(2) nth_append)
  have len: "length (as_objects s') = Suc (length (as_objects s))"
    by (simp add: m(2))
  have "async_spec (Submitted (length (as_objects s))) (async_abs s) (async_abs s')"
    by (simp only: async_abs_def F) (simp only: W len async_spec.submit)
  then show ?thesis
    using e ok by (simp add: m(2))
qed

lemma update_request_ok [simp]:
  "async_ok (update_request i f s) \<longleftrightarrow> async_ok s" "async_abs (update_request i f s) = async_abs s"
  "waiting_requests (update_request i f s) = waiting_requests s" "as_ongoing (update_request i f s) = as_ongoing s"
  "map ar_run_index (as_objects (update_request i f s)) = map ar_run_index (as_objects s)"
  "as_context (update_request i f s) = as_context s"
proof -
  let ?o = "(as_objects s)[i := (as_objects s ! i)\<lparr>ar_request := f (ar_request (as_objects s ! i))\<rparr>]"
  have idx: "ar_run_index (?o ! j) = ar_run_index (as_objects s ! j)" "ar_ready (?o ! j) = ar_ready (as_objects s ! j)" for j
    by (cases "i < length (as_objects s)"; auto simp: nth_list_update list_update_beyond)+
  show m: "map ar_run_index (as_objects (update_request i f s)) = map ar_run_index (as_objects s)"
    by (simp add: update_request_def map_update list_update_same_conv) (metis list_update_id map_update nth_map list_update_beyond not_less length_map)
  show "async_ok (update_request i f s) \<longleftrightarrow> async_ok s"
    using m by (auto simp: async_ok_def update_request_def idx)
  show "waiting_requests (update_request i f s) = waiting_requests s"
    by (simp add: waiting_requests_def update_request_def)
  then show "async_abs (update_request i f s) = async_abs s"
    by (simp add: async_abs_def request_ready_def update_request_def idx)
qed (simp_all add: update_request_def)

lemma context_ok [simp]:
  "async_ok (s\<lparr>as_context := c\<rparr>) \<longleftrightarrow> async_ok s" "async_abs (s\<lparr>as_context := c\<rparr>) = async_abs s"
  "async_ok (s\<lparr>as_worker := b\<rparr>) \<longleftrightarrow> async_ok s" "async_abs (s\<lparr>as_worker := b\<rparr>) = async_abs s"
  by (simp_all add: async_ok_def async_abs_def waiting_requests_def request_ready_def)

lemma set_ready_ok:
  assumes "async_ok s" and "i \<in> waiting_requests s"
  shows "async_ok (set_ready i s)" and "async_spec (Completed i) (async_abs s) (async_abs (set_ready i s))"
    and "map ar_run_index (as_objects (set_ready i s)) = map ar_run_index (as_objects s)"
proof -
  have lt: "i < length (as_objects s)"
    using assms by (auto simp: async_ok_def waiting_requests_def)
  let ?o = "(as_objects s)[i := (as_objects s ! i)\<lparr>ar_ready := True\<rparr>]"
  have idx: "ar_run_index (?o ! j) = ar_run_index (as_objects s ! j)" "ar_ready (?o ! j) \<longleftrightarrow> j = i \<or> ar_ready (as_objects s ! j)" for j
    using lt by (auto simp: nth_list_update)
  show m: "map ar_run_index (as_objects (set_ready i s)) = map ar_run_index (as_objects s)"
    using lt by (simp add: set_ready_def map_update) (metis list_update_id nth_map)
  show "async_ok (set_ready i s)"
    using assms(1) m by (auto simp: async_ok_def set_ready_def idx)
  have "{j \<in> waiting_requests s. request_ready (set_ready i s) j} = insert i {j \<in> waiting_requests s. request_ready s j}"
    using assms(2) by (auto simp: request_ready_def set_ready_def idx)
  then show "async_spec (Completed i) (async_abs s) (async_abs (set_ready i s))"
    using async_spec.complete [OF assms(2)] by (simp add: async_abs_def set_ready_def waiting_requests_def)
qed

lemma erase_request_ok:
  assumes ok: "async_ok s" and i: "i \<in> waiting_requests s" "request_ready s i"
  shows "async_ok (erase_request i s)" and "async_spec (Collected i) (async_abs s) (async_abs (erase_request i s))"
    and "as_objects (erase_request i s) = as_objects s" and "i \<notin> waiting_requests (erase_request i s)"
proof -
  let ?k = "ar_run_index (as_objects s ! i)"
  have same: "j = i" if "(k, j) \<in> set (as_ongoing s)" "k = ?k" for k j
    using ongoing_unique [OF ok that(1) waiting_length [OF ok i(1)]] that(2) by simp
  have other: "k \<noteq> ?k \<longleftrightarrow> j \<noteq> i" if "(k, j) \<in> set (as_ongoing s)" for k j
    using same [OF that] ok that by (auto simp: async_ok_def)
  show "async_ok (erase_request i s)"
    using ok by (auto simp: async_ok_def erase_request_def map_erase_def distinct_map_filter)
  have W: "waiting_requests (erase_request i s) = waiting_requests s - {i}"
    using other by (force simp: waiting_requests_def erase_request_def map_erase_def)
  then show "i \<notin> waiting_requests (erase_request i s)"
    by simp
  show "as_objects (erase_request i s) = as_objects s"
    by (simp add: erase_request_def)
  have "{j \<in> waiting_requests s - {i}. request_ready (erase_request i s) j} = {j \<in> waiting_requests s. request_ready s j} - {i}"
    by (auto simp: request_ready_def erase_request_def)
  then show "async_spec (Collected i) (async_abs s) (async_abs (erase_request i s))"
    using async_spec.collect [of i "{j \<in> waiting_requests s. request_ready s j}" "length (as_objects s)" "waiting_requests s"] i
    by (simp add: async_abs_def W) (simp add: erase_request_def)
qed

lemma IsRequestReady_waiting:
  assumes "async_ok s" and "i < length (as_objects s)"
  shows "(\<exists>err. IsRequestReady i wait s = Wait_error err \<and> ce_code err = INVALID_ARG) \<longleftrightarrow> i \<notin> waiting_requests s"
    and "IsRequestReady i wait s = Wait_returned True \<longleftrightarrow> i \<in> waiting_requests s \<and> request_ready s i"
proof -
  let ?k = "ar_run_index (as_objects s ! i)"
  have "i \<in> waiting_requests s \<longleftrightarrow> (?k, i) \<in> set (as_ongoing s)"
    using assms by (force simp: async_ok_def waiting_requests_def)
  also have "\<dots> \<longleftrightarrow> (\<exists>j. map_of (as_ongoing s) ?k = Some j)"
    using assms ongoing_unique [OF assms(1) _ assms(2) refl]
    by (auto simp: async_ok_def dest: map_of_SomeD)
  finally have m: "i \<in> waiting_requests s \<longleftrightarrow> (\<exists>j. map_of (as_ongoing s) ?k = Some j)" .
  then have "as_ongoing s = [] \<Longrightarrow> i \<notin> waiting_requests s"
    by simp
  have c: "IsRequestReady i wait s =
      (if request_ready s i then Wait_returned True else if wait then Wait_blocked else Wait_returned False)"
    if "i \<in> waiting_requests s"
  proof -
    obtain j where "map_of (as_ongoing s) ?k = Some j"
      using m \<open>i \<in> waiting_requests s\<close> by blast
    moreover from this have "as_ongoing s \<noteq> []"
      by auto
    ultimately show ?thesis
      by (simp add: IsRequestReady_def)
  qed
  have e: "\<exists>err. IsRequestReady i wait s = Wait_error err \<and> ce_code err = INVALID_ARG" if "i \<notin> waiting_requests s"
  proof -
    have n: "map_of (as_ongoing s) ?k = None"
      using m that by (metis option.exhaust)
    show ?thesis
      unfolding IsRequestReady_def n by (simp add: Error_msg_def)
  qed
  show "(\<exists>err. IsRequestReady i wait s = Wait_error err \<and> ce_code err = INVALID_ARG) \<longleftrightarrow> i \<notin> waiting_requests s"
    using e c by (cases "i \<in> waiting_requests s") simp_all
  show "IsRequestReady i wait s = Wait_returned True \<longleftrightarrow> i \<in> waiting_requests s \<and> request_ready s i"
    using e c by (cases "i \<in> waiting_requests s") auto
qed

section \<open>The contract of a client\<close>

text \<open>
  \<open>collect c i wait\<close> is the call that takes the results of request \<open>i\<close>; \<open>taken\<close> is what it
  does when the request is ready. A step keeps the invariant and is one of the specification.
\<close>

locale async_client =
  fixes step :: "'r async_context \<Rightarrow> 'r async_context \<Rightarrow> bool" and inv :: "'r async_context \<Rightarrow> bool"
    and collect :: "'c \<Rightarrow> nat \<Rightarrow> bool \<Rightarrow> 'r async_context \<Rightarrow> ((client_error \<times> bool \<times> 'x option) \<times> 'r async_context) option"
    and taken :: "'c \<Rightarrow> nat \<Rightarrow> 'r async_context \<Rightarrow> (client_error \<times> 'x) \<times> 'r async_context"
  assumes inv_start: "ic_async_request_id ctx = 1 \<Longrightarrow> inv (async_init ctx)"
    and inv_ok: "inv s \<Longrightarrow> async_ok s"
    and step_spec: "inv s \<Longrightarrow> step s s' \<Longrightarrow> inv s' \<and> (\<exists>a. async_spec a (async_abs s) (async_abs s'))"
    and collect_eq: "collect c i wait s =
      (case IsRequestReady i wait s of
         Wait_blocked \<Rightarrow> None
       | Wait_error err \<Rightarrow> Some ((err, False, None), s)
       | Wait_returned False \<Rightarrow> Some ((Error_Success, False, None), s)
       | Wait_returned True \<Rightarrow> (let ((err, x), s1) = taken c i s in Some ((err, True, Some x), s1)))"
    and taken_gone: "inv s \<Longrightarrow> i \<in> waiting_requests s \<Longrightarrow> request_ready s i \<Longrightarrow>
      step s (snd (taken c i s)) \<and> i \<notin> waiting_requests (snd (taken c i s)) \<and>
      length (as_objects (snd (taken c i s))) = length (as_objects s)"
begin

lemma reach_spec:
  assumes "step\<^sup>*\<^sup>* (async_init ctx) s" and "ic_async_request_id ctx = 1"
  shows "inv s \<and> (\<exists>ls. async_run ls (async_abs s))"
  using assms(1)
proof induction
  case base
  have "async_abs (async_init ctx :: 'r async_context) = (0, {}, {})"
    by (simp add: async_abs_def async_init_def waiting_requests_def)
  then show ?case
    using inv_start [OF assms(2)] async_run.start by metis
next
  case (step y z)
  then show ?case
    using step_spec async_run.step by blast
qed

lemma stays_taken:
  "step\<^sup>*\<^sup>* s s' \<Longrightarrow> inv s \<Longrightarrow> i < length (as_objects s) \<Longrightarrow> i \<notin> waiting_requests s \<Longrightarrow>
   inv s' \<and> i < length (as_objects s') \<and> i \<notin> waiting_requests s'"
proof (induction rule: rtranclp_induct)
  case (step y z)
  then obtain a where "inv z" "async_spec a (async_abs y) (async_abs z)"
    using step_spec by blast
  then show ?case
    using step.IH step.prems spec_keeps unfolding async_abs_def by metis
qed simp

text \<open>The results of a request are taken at most once; later calls are refused.\<close>

lemma collected_once:
  assumes "step\<^sup>*\<^sup>* (async_init ctx) s" and "ic_async_request_id ctx = 1" and "i < length (as_objects s)"
    and "collect c i wait s = Some ((err, True, x), s1)" and "step\<^sup>*\<^sup>* s1 s2"
  shows "\<exists>err'. collect c' i wait' s2 = Some ((err', False, None), s2) \<and> ce_code err' = INVALID_ARG"
proof -
  have inv: "inv s"
    using reach_spec [OF assms(1,2)] by blast
  have ret: "IsRequestReady i wait s = Wait_returned True"
    using assms(4) unfolding collect_eq by (cases "IsRequestReady i wait s") (auto split: bool.splits)
  then have r: "i \<in> waiting_requests s" "request_ready s i"
    using IsRequestReady_waiting(2) [OF inv_ok [OF inv] assms(3)] ret by simp_all
  have "s1 = snd (taken c i s)"
    using assms(4) unfolding collect_eq ret by (cases "taken c i s") auto
  then have "inv s1" "i < length (as_objects s1)" "i \<notin> waiting_requests s1"
    using taken_gone [OF inv r, of c] step_spec [OF inv] assms(3) by auto
  then have "async_ok s2" "i < length (as_objects s2)" "i \<notin> waiting_requests s2"
    using stays_taken [OF assms(5)] inv_ok by blast+
  then obtain err' where "IsRequestReady i wait' s2 = Wait_error err'" "ce_code err' = INVALID_ARG"
    using IsRequestReady_waiting(1) by blast
  then show ?thesis
    by (auto simp: collect_eq)
qed

text \<open>A request that \<open>GetReadyAsyncRequest\<close> returns can be taken at once.\<close>

lemma ready_is_taken:
  assumes "step\<^sup>*\<^sup>* (async_init ctx) s" and "ic_async_request_id ctx = 1"
    and "GetReadyAsyncRequest wait s = Wait_returned (Some i)"
  shows "\<exists>err x s1. collect c i wait' s = Some ((err, True, Some x), s1)"
proof -
  have ok: "async_ok s"
    using reach_spec [OF assms(1,2)] inv_ok by blast
  obtain k where k: "find (\<lambda>(k, i). request_ready s i) (as_ongoing s) = Some (k, i)"
    using assms(3) by (auto simp: GetReadyAsyncRequest_def split: if_splits option.splits)
  then have "(k, i) \<in> set (as_ongoing s)" "request_ready s i"
    by (auto simp: find_Some_iff in_set_conv_nth)
  then have "i \<in> waiting_requests s" "request_ready s i"
    by (force simp: waiting_requests_def)+
  then have "IsRequestReady i wait' s = Wait_returned True"
    using IsRequestReady_waiting(2) [OF ok waiting_length [OF ok]] by blast
  then show ?thesis
    by (auto simp: collect_eq Let_def split: prod.splits)
qed

end

lemma ready_blocked:
  "GetReadyAsyncRequest True s = Wait_blocked \<longleftrightarrow>
   waiting_requests s \<noteq> {} \<and> (\<forall>i \<in> waiting_requests s. \<not> request_ready s i)"
proof (cases "find (\<lambda>(k, i). request_ready s i) (as_ongoing s)")
  case None
  then show ?thesis
    by (simp add: GetReadyAsyncRequest_def waiting_requests_def)
      (use None in \<open>auto simp: find_None_iff\<close>)
next
  case (Some e)
  then have "e \<in> set (as_ongoing s)" "case e of (k, i) \<Rightarrow> request_ready s i"
    unfolding find_Some_iff by (metis nth_mem)+
  then have "\<exists>x \<in> set (as_ongoing s). request_ready s (snd x)"
    by (intro bexI [of _ e]) (cases e; simp)+
  then show ?thesis
    using Some by (auto simp: GetReadyAsyncRequest_def waiting_requests_def split: prod.splits)
qed

section \<open>The HTTP client\<close>

text \<open>
  The steps of the user and of the worker thread. The handle of a new request is not the one of a
  request object that lives, which is what libcurl promises. Between the requests the user sets
  options and inputs, which leave the counter of the ids alone.
\<close>

inductive http_step ::
  "http_parsers \<Rightarrow> int \<Rightarrow> (nat \<Rightarrow> 8 word) \<Rightarrow> http_async async_context \<Rightarrow> http_async async_context \<Rightarrow> bool"
  for pa garbage beyond where
  run: "http_AsyncRun multi_handle (Some handle) unset start m s = (res, m', s') \<Longrightarrow>
    handle \<notin> ar_run_index ` set (as_objects s) \<Longrightarrow> http_step pa garbage beyond s s'"
| transfer: "http_transfer pa garbage beyond m ct i s = Some s' \<Longrightarrow> http_step pa garbage beyond s s'"
| message: "http_step pa garbage beyond s (http_message now handle is_done result s)"
| collect: "i < length (as_objects s) \<Longrightarrow> http_GetAsyncRunResults pa http_code i wait s = Some (res, s') \<Longrightarrow>
    http_step pa garbage beyond s s'"
| user: "ic_async_request_id ctx = ic_async_request_id (as_context s) \<Longrightarrow> http_step pa garbage beyond s (s\<lparr>as_context := ctx\<rparr>)"

definition http_taken ::
  "http_parsers \<Rightarrow> int \<Rightarrow> nat \<Rightarrow> http_async async_context \<Rightarrow>
   (client_error \<times> (string \<rightharpoonup> result_impl)) \<times> http_async async_context" where
  "http_taken pa http_code i s =
     (let s1 = erase_request i s; a = ar_request (as_objects s ! i);
          (err, ctx1) = UpdateStat (hr_timer (ha_request a)) (as_context s1);
          (res, r1) = GetResults (ha_status a) http_code (pa_binary pa) (ha_request a)
      in (res, update_request i (\<lambda>a. a\<lparr>ha_request := r1\<rparr>) (s1\<lparr>as_context := ctx1\<rparr>)))"

lemma http_collect_eq:
  "http_GetAsyncRunResults pa http_code i wait s =
     (case IsRequestReady i wait s of
        Wait_blocked \<Rightarrow> None
      | Wait_error err \<Rightarrow> Some ((err, False, None), s)
      | Wait_returned False \<Rightarrow> Some ((Error_Success, False, None), s)
      | Wait_returned True \<Rightarrow> (let ((err, x), s1) = http_taken pa http_code i s in Some ((err, True, Some x), s1)))"
  by (auto simp: http_GetAsyncRunResults_def http_taken_def Let_def split: cv_result.splits bool.splits prod.splits)

lemma http_AsyncRun_spec:
  assumes "http_AsyncRun multi_handle (Some handle) unset start m s = (res, m', s')"
    and ok: "async_ok s" and fresh: "handle \<notin> ar_run_index ` set (as_objects s)"
  shows "async_ok s' \<and> (\<exists>a. async_spec a (async_abs s) (async_abs s'))"
proof (cases multi_handle)
  case False
  then show ?thesis
    using assms(1) ok by (auto simp: http_AsyncRun_def)
next
  case True
  let ?i = "length (as_objects s)" and ?s1 = "s\<lparr>as_worker := True\<rparr>"
  obtain inputs m1 where inputs: "copy_inputs (ic_inputs (as_context s)) m = (inputs, m1)"
    by (cases "copy_inputs (ic_inputs (as_context s)) m")
  obtain e ctx1 r1 where pre: "PreRunProcessing True (as_context s) (HttpRequestImpl 0 inputs) = (e, ctx1, r1)"
    by (metis prod_cases3)
  let ?ctx2 = "ctx1\<lparr>ic_async_request_id := ic_async_request_id ctx1 + 1\<rparr>"
  let ?r2 = "\<lparr>ha_request = r1\<lparr>hr_id := ic_async_request_id ctx1\<rparr>, ha_status = None\<rparr>"
  obtain b s2 where new: "new_request handle ?r2 (?s1\<lparr>as_context := ?ctx2\<rparr>) = (b, s2)"
    by (cases "new_request handle ?r2 (?s1\<lparr>as_context := ?ctx2\<rparr>)")
  have n: "b \<and> async_ok s2 \<and> async_spec (Submitted ?i) (async_abs s) (async_abs s2)"
    using new_request_ok [OF _ _ new] ok fresh by simp
  have "s' = update_request ?i (\<lambda>a. a\<lparr>ha_request := start_timers start (ha_request a)\<rparr>) s2"
    using assms(1) True inputs pre new n by (simp add: http_AsyncRun_def Let_def)
  then show ?thesis
    using n by auto
qed

lemma http_message_spec:
  assumes "async_ok s"
  shows "async_ok (http_message now handle is_done result s) \<and>
    (\<exists>a. async_spec a (async_abs s) (async_abs (http_message now handle is_done result s)))"
proof (cases "map_of (as_ongoing s) handle")
  case None
  then have "http_message now handle is_done result s = s"
    unfolding http_message_def by (simp only: option.case)
  then show ?thesis
    using assms by simp
next
  case (Some i)
  let ?f = "\<lambda>a. a\<lparr>ha_request := (if is_done then stop_timers now (ha_request a) else ha_request a), ha_status := result\<rparr>"
  have "i \<in> waiting_requests (update_request i ?f s)"
    using map_of_SomeD [OF Some] by (force simp: waiting_requests_def)
  then show ?thesis
    using set_ready_ok [of "update_request i ?f s" i] assms Some by (auto simp: http_message_def)
qed

lemma http_taken_spec:
  assumes "async_ok s" and "i \<in> waiting_requests s" and "request_ready s i"
  shows "async_ok (snd (http_taken pa http_code i s)) \<and>
    async_spec (Collected i) (async_abs s) (async_abs (snd (http_taken pa http_code i s))) \<and>
    i \<notin> waiting_requests (snd (http_taken pa http_code i s)) \<and>
    length (as_objects (snd (http_taken pa http_code i s))) = length (as_objects s)"
  using erase_request_ok [OF assms]
  by (simp add: http_taken_def Let_def split_def waiting_requests_def) (simp add: update_request_def)

lemma collect_cases:
  assumes "c = (case IsRequestReady i wait s of
         Wait_blocked \<Rightarrow> None
       | Wait_error err \<Rightarrow> Some ((err, False, None), s)
       | Wait_returned False \<Rightarrow> Some ((Error_Success, False, None), s)
       | Wait_returned True \<Rightarrow> (let ((err, x), s1) = t in Some ((err, True, Some x), s1)))"
    and "c = Some (res, s')"
  shows "s' = s \<or> IsRequestReady i wait s = Wait_returned True \<and> s' = snd t"
  using assms by (cases "IsRequestReady i wait s"; cases t) (auto split: bool.splits)

lemma http_step_spec:
  assumes "http_step pa garbage beyond s s'" and ok: "async_ok s"
  shows "async_ok s' \<and> (\<exists>a. async_spec a (async_abs s) (async_abs s'))"
  using assms(1)
proof cases
  case (run multi_handle handle unset start m res m')
  then show ?thesis
    using http_AsyncRun_spec ok by blast
next
  case (transfer m ct i)
  then show ?thesis
    using ok by (auto simp: http_transfer_def split: option.splits)
next
  case message
  then show ?thesis
    using http_message_spec ok by blast
next
  case (collect i http_code wait res)
  then consider "s' = s" | "IsRequestReady i wait s = Wait_returned True" "s' = snd (http_taken pa http_code i s)"
    using collect_cases [OF http_collect_eq] by blast
  then show ?thesis
  proof cases
    case 2
    then show ?thesis
      using http_taken_spec [OF ok] IsRequestReady_waiting(2) [OF ok collect(1)] by blast
  qed (use ok in simp)
next
  case user
  then show ?thesis
    using ok by auto
qed

lemma http_taken_step:
  assumes "async_ok s" and "i \<in> waiting_requests s" and "request_ready s i"
  shows "http_step pa garbage beyond s (snd (http_taken pa http_code i s))"
proof -
  have i: "i < length (as_objects s)"
    using waiting_length assms by blast
  then have "IsRequestReady i False s = Wait_returned True"
    using IsRequestReady_waiting(2) assms by blast
  then have "\<exists>res. http_GetAsyncRunResults pa http_code i False s = Some (res, snd (http_taken pa http_code i s))"
    by (cases "http_taken pa http_code i s") (auto simp: http_collect_eq Let_def)
  then show ?thesis
    using http_step.collect [OF i] by blast
qed

interpretation http: async_client "http_step pa garbage beyond" async_ok "http_GetAsyncRunResults pa" "http_taken pa"
proof
  show "async_ok (async_init ctx)" for ctx
    by (simp add: async_ok_def async_init_def)
  show "http_GetAsyncRunResults pa c i wait s =
      (case IsRequestReady i wait s of
         Wait_blocked \<Rightarrow> None
       | Wait_error err \<Rightarrow> Some ((err, False, None), s)
       | Wait_returned False \<Rightarrow> Some ((Error_Success, False, None), s)
       | Wait_returned True \<Rightarrow> (let ((err, x), s1) = http_taken pa c i s in Some ((err, True, Some x), s1)))" for c i wait s
    by (rule http_collect_eq)
qed (use http_step_spec http_taken_spec http_taken_step in blast)+

section \<open>The GRPC client and the stream\<close>

text \<open>
  The keys are the ids 1, 2, 3 and so on, which are different for the first \<open>2\<^sup>6\<^sup>4 - 1\<close> requests. The stream
  differs in how a request goes out and in how its response finds it.
\<close>

definition grpc_inv :: "grpc_request async_context \<Rightarrow> bool" where
  "grpc_inv s \<longleftrightarrow> async_ok s \<and> ic_async_request_id (as_context s) = of_nat (Suc (length (as_objects s))) \<and>
     map ar_run_index (as_objects s) = map Suc [0..<length (as_objects s)]"

inductive grpc_step ::
  "int \<Rightarrow> (nat \<Rightarrow> nat \<Rightarrow> 8 word) \<Rightarrow> grpc_request async_context \<Rightarrow> grpc_request async_context \<Rightarrow> bool"
  for garbage beyond where
  run: "grpc_AsyncRun clk m s = Some (res, s') \<Longrightarrow> Suc (length (as_objects s)) < 2 ^ 64 \<Longrightarrow> grpc_step garbage beyond s s'"
| response: "grpc_step garbage beyond s (grpc_response_arrives i status response s)"
| tag: "grpc_step garbage beyond s (grpc_tag now got s)"
| collect: "i < length (as_objects s) \<Longrightarrow> grpc_GetAsyncRunResults garbage beyond start now i wait s = Some (res, s') \<Longrightarrow>
    grpc_step garbage beyond s s'"
| user: "ic_async_request_id ctx = ic_async_request_id (as_context s) \<Longrightarrow> grpc_step garbage beyond s (s\<lparr>as_context := ctx\<rparr>)"

inductive stream_step ::
  "int \<Rightarrow> (nat \<Rightarrow> nat \<Rightarrow> 8 word) \<Rightarrow> grpc_request async_context \<Rightarrow> grpc_request async_context \<Rightarrow> bool"
  for garbage beyond where
  run: "stream_AsyncRun ok clk m s = Some (res, s') \<Longrightarrow> Suc (length (as_objects s)) < 2 ^ 64 \<Longrightarrow> stream_step garbage beyond s s'"
| response: "stream_step garbage beyond s (stream_response exiting now response s)"
| collect: "i < length (as_objects s) \<Longrightarrow> grpc_GetAsyncRunResults garbage beyond start now i wait s = Some (res, s') \<Longrightarrow>
    stream_step garbage beyond s s'"
| user: "ic_async_request_id ctx = ic_async_request_id (as_context s) \<Longrightarrow> stream_step garbage beyond s (s\<lparr>as_context := ctx\<rparr>)"

type_synonym grpc_times = "timespec \<times> timespec"

definition grpc_taken ::
  "int \<Rightarrow> (nat \<Rightarrow> nat \<Rightarrow> 8 word) \<Rightarrow> grpc_times \<Rightarrow> nat \<Rightarrow> grpc_request async_context \<Rightarrow>
   (client_error \<times> (string \<rightharpoonup> result_impl)) \<times> grpc_request async_context" where
  "grpc_taken garbage beyond tms i s =
     (let r = ar_request (as_objects s ! i); ctx = as_context s;
          t = timer_Record (snd tms) RECEIVE_END (timer_Record (fst tms) RECEIVE_START (gq_timer r))
      in (grpc_GetResults garbage beyond ctx r,
          erase_request i (update_request i (\<lambda>r. r\<lparr>gq_timer := t\<rparr>) (s\<lparr>as_context := snd (UpdateStat t ctx)\<rparr>))))"

definition grpc_collect ::
  "int \<Rightarrow> (nat \<Rightarrow> nat \<Rightarrow> 8 word) \<Rightarrow> grpc_times \<Rightarrow> nat \<Rightarrow> bool \<Rightarrow> grpc_request async_context \<Rightarrow>
   ((client_error \<times> bool \<times> (string \<rightharpoonup> result_impl) option) \<times> grpc_request async_context) option" where
  "grpc_collect garbage beyond tms = grpc_GetAsyncRunResults garbage beyond (fst tms) (snd tms)"

lemma grpc_collect_eq:
  "grpc_collect garbage beyond tms i wait s =
     (case IsRequestReady i wait s of
        Wait_blocked \<Rightarrow> None
      | Wait_error err \<Rightarrow> Some ((err, False, None), s)
      | Wait_returned False \<Rightarrow> Some ((Error_Success, False, None), s)
      | Wait_returned True \<Rightarrow> (let ((err, x), s1) = grpc_taken garbage beyond tms i s in Some ((err, True, Some x), s1)))"
  by (cases "UpdateStat (timer_Record (snd tms) RECEIVE_END (timer_Record (fst tms) RECEIVE_START (gq_timer (ar_request (as_objects s ! i))))) (as_context s)")
    (auto simp: grpc_collect_def grpc_GetAsyncRunResults_def grpc_taken_def Let_def split: cv_result.splits bool.splits prod.splits)

lemma UpdateStat_id: "ic_async_request_id (snd (UpdateStat t ctx)) = ic_async_request_id ctx"
  by (simp add: UpdateStat_def Let_def)

lemma grpc_PreRun_id: "grpc_PreRunProcessing m n ctx = Some (message, ctx1) \<Longrightarrow> ic_async_request_id ctx1 = ic_async_request_id ctx"
  by (auto simp: grpc_PreRunProcessing_def Let_def)

lemma update_request_length [simp]: "length (as_objects (update_request i f s)) = length (as_objects s)"
  by (simp add: update_request_def)

lemma grpc_AsyncRun_spec:
  assumes inv: "grpc_inv s" and run: "grpc_AsyncRun clk m s = Some (res, s')" and few: "Suc (length (as_objects s)) < 2 ^ 64"
  shows "grpc_inv s' \<and> (\<exists>a. async_spec a (async_abs s) (async_abs s'))"
proof -
  let ?i = "length (as_objects s)" and ?n = "ic_async_request_id (as_context s)"
  let ?s2 = "s\<lparr>as_worker := True, as_context := (as_context s)\<lparr>ic_async_request_id := ?n + 1\<rparr>\<rparr>"
  have n: "unat ?n = Suc ?i"
    using inv few unfolding grpc_inv_def by (simp only: unsigned_of_nat) (simp add: take_bit_nat_eq_self)
  have fresh: "unat ?n \<notin> ar_run_index ` set (as_objects ?s2)"
  proof -
    have "ar_run_index ` set (as_objects s) = set (map Suc [0..<?i])"
      using inv by (simp add: grpc_inv_def flip: set_map)
    then show ?thesis
      using n by auto
  qed
  obtain b s3 where new: "new_request (unat ?n) (GrpcRequestImpl ?n) ?s2 = (b, s3)"
    by (cases "new_request (unat ?n) (GrpcRequestImpl ?n) ?s2")
  have r: "b \<and> async_ok s3 \<and> async_spec (Submitted ?i) (async_abs s) (async_abs s3) \<and>
      as_objects s3 = as_objects s @ [\<lparr>ar_run_index = unat ?n, ar_ready = False, ar_request = GrpcRequestImpl ?n\<rparr>] \<and>
      as_context s3 = (as_context s)\<lparr>ic_async_request_id := ?n + 1\<rparr>"
    using new_request_ok [OF _ fresh new] inv by (simp add: grpc_inv_def)
  then obtain message ctx1 f where pre: "grpc_PreRunProcessing m ?n (as_context s3) = Some (message, ctx1)"
    "s' = update_request ?i f (s3\<lparr>as_context := ctx1\<rparr>)"
    using run new by (auto simp: grpc_AsyncRun_def Let_def split: option.splits)
  have "ic_async_request_id ctx1 = of_nat (Suc (Suc ?i))"
    using grpc_PreRun_id [OF pre(1)] r inv by (simp add: grpc_inv_def)
  moreover have "map ar_run_index (as_objects s') = map Suc [0..<Suc ?i]"
    using r n inv by (simp add: pre(2) grpc_inv_def)
  ultimately have "grpc_inv s'"
    using r by (simp add: pre(2) grpc_inv_def)
  then show ?thesis
    using r by (auto simp: pre(2))
qed

lemma ready_update_spec:
  assumes inv: "grpc_inv s" and k: "map_of (as_ongoing s) k = Some i"
  shows "grpc_inv (set_ready i (update_request i f s)) \<and>
    (\<exists>a. async_spec a (async_abs s) (async_abs (set_ready i (update_request i f s))))"
proof -
  let ?s = "update_request i f s"
  have i: "i \<in> waiting_requests ?s"
    using map_of_SomeD [OF k] by (force simp: waiting_requests_def)
  have ok: "async_ok ?s"
    using inv by (simp add: grpc_inv_def)
  note r = set_ready_ok [OF ok i]
  have "length (as_objects (set_ready i ?s)) = length (as_objects s)" "as_context (set_ready i ?s) = as_context s"
    by (simp_all add: set_ready_def)
  then have "grpc_inv (set_ready i ?s)"
    using r(1,3) inv by (simp add: grpc_inv_def)
  then show ?thesis
    using r(2) by auto
qed

lemma grpc_tag_spec:
  assumes "grpc_inv s"
  shows "grpc_inv (grpc_tag now got s) \<and> (\<exists>a. async_spec a (async_abs s) (async_abs (grpc_tag now got s)))"
proof (cases "map_of (as_ongoing s) got")
  case None
  show ?thesis
    unfolding grpc_tag_def None using assms by simp
qed (use ready_update_spec [OF assms] in \<open>simp add: grpc_tag_def\<close>)

lemma stream_response_spec:
  assumes "grpc_inv s"
  shows "grpc_inv (stream_response exiting now response s) \<and>
    (\<exists>a. async_spec a (async_abs s) (async_abs (stream_response exiting now response s)))"
proof (cases "map_of (as_ongoing s) (unat (sh_id (gr_meta_data response)))")
  case None
  show ?thesis
    unfolding stream_response_def None using assms by simp
qed (use assms ready_update_spec [OF assms] in \<open>simp add: stream_response_def\<close>)

lemma erase_updated_spec:
  assumes inv: "grpc_inv s" and i: "i \<in> waiting_requests s" "request_ready s i"
    and ctx: "ic_async_request_id ctx = ic_async_request_id (as_context s)"
    and s1: "s1 = update_request i f (s\<lparr>as_context := ctx\<rparr>)"
  shows "grpc_inv (erase_request i s1) \<and> async_spec (Collected i) (async_abs s) (async_abs (erase_request i s1)) \<and>
    i \<notin> waiting_requests (erase_request i s1) \<and> length (as_objects (erase_request i s1)) = length (as_objects s)"
proof -
  have ok: "async_ok s1"
    using inv by (simp add: grpc_inv_def s1)
  have w: "waiting_requests s1 = waiting_requests s"
    by (simp add: waiting_requests_def s1)
  have abs: "async_abs s1 = async_abs s"
    by (simp add: s1)
  then have "{j \<in> waiting_requests s. request_ready s1 j} = {j \<in> waiting_requests s. request_ready s j}"
    by (simp only: async_abs_def w prod.inject)
  then have i': "i \<in> waiting_requests s1" "request_ready s1 i"
    using i w by blast+
  note e = erase_request_ok [OF ok i']
  have "as_context (erase_request i s1) = ctx" "length (as_objects s1) = length (as_objects s)"
    "map ar_run_index (as_objects s1) = map ar_run_index (as_objects s)"
    by (simp_all add: erase_request_def s1)
  then have "grpc_inv (erase_request i s1)"
    using e(1) inv by (simp add: grpc_inv_def e(3) ctx)
  then show ?thesis
    using e by (simp add: abs s1)
qed

lemma grpc_taken_spec:
  assumes "grpc_inv s" and "i \<in> waiting_requests s" and "request_ready s i"
  shows "grpc_inv (snd (grpc_taken garbage beyond tms i s)) \<and>
    async_spec (Collected i) (async_abs s) (async_abs (snd (grpc_taken garbage beyond tms i s))) \<and>
    i \<notin> waiting_requests (snd (grpc_taken garbage beyond tms i s)) \<and>
    length (as_objects (snd (grpc_taken garbage beyond tms i s))) = length (as_objects s)"
  using erase_updated_spec [OF assms UpdateStat_id refl] unfolding grpc_taken_def Let_def snd_conv by blast

lemma grpc_inv_context:
  "grpc_inv s \<Longrightarrow> ic_async_request_id ctx = ic_async_request_id (as_context s) \<Longrightarrow> grpc_inv (s\<lparr>as_context := ctx\<rparr>)"
  by (simp add: grpc_inv_def)

lemma grpc_collect_spec:
  assumes inv: "grpc_inv s" and i: "i < length (as_objects s)"
    and c: "grpc_GetAsyncRunResults garbage beyond start now i wait s = Some (res, s')"
  shows "grpc_inv s' \<and> (\<exists>a. async_spec a (async_abs s) (async_abs s'))"
proof -
  have "grpc_collect garbage beyond (start, now) i wait s = Some (res, s')"
    using c by (simp add: grpc_collect_def)
  then consider "s' = s"
    | "IsRequestReady i wait s = Wait_returned True" "s' = snd (grpc_taken garbage beyond (start, now) i s)"
    using collect_cases [OF grpc_collect_eq] by blast
  then show ?thesis
  proof cases
    case 2
    have "async_ok s"
      using inv by (simp add: grpc_inv_def)
    then have "i \<in> waiting_requests s" "request_ready s i"
      using IsRequestReady_waiting(2) [OF _ i] 2 by blast+
    then show ?thesis
      using grpc_taken_spec [OF inv] 2(2) by blast
  qed (use inv in simp)
qed

lemma grpc_step_spec:
  assumes "grpc_step garbage beyond s s'" and inv: "grpc_inv s"
  shows "grpc_inv s' \<and> (\<exists>a. async_spec a (async_abs s) (async_abs s'))"
  using assms(1)
proof cases
  case (response i status resp)
  then show ?thesis
    using inv by (simp add: grpc_response_arrives_def grpc_inv_def)
next
  case user
  then show ?thesis
    using inv grpc_inv_context by simp
qed (use inv grpc_AsyncRun_spec grpc_tag_spec grpc_collect_spec in blast)+

lemma stream_step_spec:
  assumes "stream_step garbage beyond s s'" and inv: "grpc_inv s"
  shows "grpc_inv s' \<and> (\<exists>a. async_spec a (async_abs s) (async_abs s'))"
  using assms(1)
proof cases
  case (run ok clk m res)
  then have "\<exists>res'. grpc_AsyncRun clk m s = Some (res', s')"
    by (auto simp: stream_AsyncRun_def)
  then show ?thesis
    using inv grpc_AsyncRun_spec run(2) by blast
next
  case user
  then show ?thesis
    using inv grpc_inv_context by simp
qed (use inv stream_response_spec grpc_collect_spec in blast)+

lemma grpc_taken_call:
  assumes inv: "grpc_inv s" and i: "i \<in> waiting_requests s" "request_ready s i"
  shows "\<exists>res. grpc_GetAsyncRunResults garbage beyond (fst tms) (snd tms) i False s =
    Some (res, snd (grpc_taken garbage beyond tms i s))" and "i < length (as_objects s)"
proof -
  have ok: "async_ok s"
    using inv by (simp add: grpc_inv_def)
  show lt: "i < length (as_objects s)"
    using waiting_length [OF ok] i by blast
  then have "IsRequestReady i False s = Wait_returned True"
    using IsRequestReady_waiting(2) [OF ok] i by blast
  then show "\<exists>res. grpc_GetAsyncRunResults garbage beyond (fst tms) (snd tms) i False s =
      Some (res, snd (grpc_taken garbage beyond tms i s))"
    using grpc_collect_eq [of garbage beyond tms i False s]
    by (cases "grpc_taken garbage beyond tms i s") (auto simp: grpc_collect_def)
qed

lemma grpc_inv_start: "ic_async_request_id ctx = 1 \<Longrightarrow> grpc_inv (async_init ctx)"
  by (simp add: grpc_inv_def async_ok_def async_init_def)

lemma grpc_inv_ok: "grpc_inv s \<Longrightarrow> async_ok s"
  by (simp add: grpc_inv_def)

interpretation grpc: async_client "grpc_step garbage beyond" grpc_inv "grpc_collect garbage beyond" "grpc_taken garbage beyond"
  by unfold_locales (use grpc_inv_start grpc_inv_ok grpc_step_spec grpc_collect_eq grpc_taken_spec in blast
    | use grpc_taken_spec grpc_taken_call grpc_step.collect in metis)+

interpretation stream: async_client "stream_step garbage beyond" grpc_inv "grpc_collect garbage beyond" "grpc_taken garbage beyond"
  by unfold_locales (use grpc_inv_start grpc_inv_ok stream_step_spec grpc_collect_eq grpc_taken_spec in blast
    | use grpc_taken_spec grpc_taken_call stream_step.collect in metis)+

end
