(* ===== verification/Client_Async_Runs.thy ===== *)
theory Client_Async_Runs
  imports Client_Async_Props Http_Round_Trip
begin

text \<open>
  The asynchronous request gives what the synchronous one gives: the results depend on what
  arrives, not on the inputs, the id and the timers of the request. Then the properties of the
  asynchronous clients, and two ways in which a wait does not end.
\<close>

section \<open>What the results depend on\<close>

definition same_results :: "http_request \<Rightarrow> http_request \<Rightarrow> bool" where
  "same_results r r' \<longleftrightarrow> hr_request_status r = hr_request_status r' \<and> hr_response_header r = hr_response_header r' \<and>
     hr_infer_response_buffer r = hr_infer_response_buffer r' \<and> hr_ordered_results r = hr_ordered_results r' \<and>
     hr_result_pos_idx r = hr_result_pos_idx r'"

lemma same_results_update [simp]:
  "same_results r (r'\<lparr>hr_timer := t\<rparr>) \<longleftrightarrow> same_results r r'" "same_results (r\<lparr>hr_timer := t\<rparr>) r' \<longleftrightarrow> same_results r r'"
  "same_results r (r'\<lparr>hr_id := n\<rparr>) \<longleftrightarrow> same_results r r'" "same_results (r\<lparr>hr_id := n\<rparr>) r' \<longleftrightarrow> same_results r r'"
  "same_results r (r'\<lparr>hr_inputs := ios\<rparr>) \<longleftrightarrow> same_results r r'"
  "same_results r (r'\<lparr>hr_inputs := ios, hr_input_pos_idx := k\<rparr>) \<longleftrightarrow> same_results r r'"
  "same_results r (r'\<lparr>hr_total_input_byte_size := sz\<rparr>) \<longleftrightarrow> same_results r r'"
  "same_results (r\<lparr>hr_total_input_byte_size := sz\<rparr>) r' \<longleftrightarrow> same_results r r'"
  by (simp_all add: same_results_def)

lemma same_results_refl [simp]: "same_results r r"
  by (simp add: same_results_def)

lemma next_input_same: "next_input_loop m sz acc r = Some (bs, r1) \<Longrightarrow> same_results r0 r1 \<longleftrightarrow> same_results r0 r"
proof (induction m sz acc r rule: next_input_loop.induct)
  case (1 m sz acc r)
  show ?case
  proof (cases "sz > 0 \<and> hr_input_pos_idx r < length (hr_inputs r)")
    case True
    then show ?thesis
      using "1.prems" "1.IH" by (subst (asm) next_input_loop.simps) (force split: option.splits)
  next
    case False
    then show ?thesis
      using "1.prems" by (subst (asm) next_input_loop.simps) auto
  qed
qed

lemma read_body_same: "read_body m szs r = Some (sent, r1) \<Longrightarrow> same_results r0 r1 \<longleftrightarrow> same_results r0 r"
proof (induction m szs r arbitrary: sent r1 rule: read_body.induct)
  case (2 m sz now szs r)
  then obtain bs r2 bss where n: "GetNextInput now m sz r = Some (bs, r2)" "read_body m szs r2 = Some (bss, r1)"
    by (auto split: option.splits prod.splits)
  obtain b where b: "next_input_loop m sz [] r = Some (bs, b)"
    "r2 = (if hr_input_pos_idx b \<ge> length (hr_inputs b) then b\<lparr>hr_timer := timer_Record now SEND_END (hr_timer b)\<rparr> else b)"
    using n(1) by (auto simp: GetNextInput_def split: option.splits)
  have "same_results r0 r2 \<longleftrightarrow> same_results r0 r"
    using next_input_same [OF b(1)] by (simp add: b(2))
  then show ?case
    using "2.IH" n by blast
qed simp

text \<open>Two contexts that agree on the name of the model and on its outputs.\<close>

definition same_outputs :: "infer_context \<Rightarrow> infer_context \<Rightarrow> bool" where
  "same_outputs c c' \<longleftrightarrow> ic_outputs c = ic_outputs c' \<and> ic_model_name c = ic_model_name c'"

lemma CreateResult_same:
  assumes "same_results r r'" and "same_outputs c c'"
  shows "fst (CreateResult g c out n r) = fst (CreateResult g c' out n r') \<and>
    same_results (snd (CreateResult g c out n r)) (snd (CreateResult g c' out n r'))"
proof -
  have "context_GetOutput c (so_name out) = context_GetOutput c' (so_name out)"
    using assms(2) by (auto simp: context_GetOutput_def same_outputs_def split: option.split)
  then show ?thesis
    using assms by (auto simp: CreateResult_def same_results_def same_outputs_def Let_def split: sum.split)
qed

lemma create_results_same:
  "same_results r r' \<Longrightarrow> same_outputs c c' \<Longrightarrow> same_results (create_results g c outs n r) (create_results g c' outs n r')"
proof (induction g c outs n r arbitrary: r' rule: create_results.induct)
  case (2 g c out outs n r)
  let ?n = "sh_batch_size (hr_response_header r)"
  have n: "sh_batch_size (hr_response_header r') = ?n"
    using "2.prems"(1) by (simp add: same_results_def)
  obtain err r1 where r1: "CreateResult g c out ?n r = (err, r1)"
    by (cases "CreateResult g c out ?n r")
  moreover obtain err' r1' where r1': "CreateResult g c' out ?n r' = (err', r1')"
    by (cases "CreateResult g c' out ?n r'")
  ultimately have s: "err' = err" "same_results r1 r1'"
    using CreateResult_same [OF "2.prems", of g out ?n] by simp_all
  then have "same_results (r1\<lparr>hr_response_header := response_header_clear\<rparr>) (r1'\<lparr>hr_response_header := response_header_clear\<rparr>)"
    by (simp add: same_results_def)
  then show ?case
    using "2.IH" r1 r1' s "2.prems"(2) by (simp add: n)
qed simp

lemma receive_headers_same:
  "same_results r r' \<Longrightarrow> same_outputs c c' \<Longrightarrow>
   same_results (receive_headers ps ph g c ls r) (receive_headers ps ph g c' ls r')"
proof (induction ls arbitrary: r r')
  case (Cons l ls)
  let ?st = "\<lambda>q. case header_value kStatusHTTPHeader l of None \<Rightarrow> q
    | Some hdr \<Rightarrow> q\<lparr>hr_request_status := (case ps hdr of None \<Rightarrow> request_status_clear | Some st \<Rightarrow> st)\<rparr>"
  have st: "same_results (?st r) (?st r')"
    using Cons.prems(1) by (cases "header_value kStatusHTTPHeader l") (simp_all add: same_results_def)
  have hd: "same_results (q\<lparr>hr_response_header := y\<rparr>) (q'\<lparr>hr_response_header := y\<rparr>)" if "same_results q q'" for q q' y
    using that by (simp add: same_results_def)
  have "same_results (ResponseHeaderHandler ps ph g c l r) (ResponseHeaderHandler ps ph g c' l r')"
  proof (cases "header_value kInferResponseHTTPHeader l")
    case None
    show ?thesis
      unfolding ResponseHeaderHandler_def Let_def None using st by simp
  next
    case (Some hdr)
    show ?thesis
      unfolding ResponseHeaderHandler_def Let_def Some option.case
      using hd [OF st] create_results_same [OF hd [OF st] Cons.prems(2)] by (cases "ph hdr") simp_all
  qed
  then show ?case
    using Cons by simp
qed simp

lemma set_results_same:
  "same_results r r' \<Longrightarrow> set_results_loop beyond buf r = (err, rest, r1) \<Longrightarrow> set_results_loop beyond buf r' = (err', rest', r1') \<Longrightarrow>
   err' = err \<and> rest' = rest \<and> same_results r1 r1'"
proof (induction beyond buf r arbitrary: r' rule: set_results_loop.induct)
  case (1 beyond buf r)
  have c: "hr_result_pos_idx r' = hr_result_pos_idx r" "hr_ordered_results r' = hr_ordered_results r"
    using "1.prems"(1) by (simp_all add: same_results_def)
  show ?case
  proof (cases "buf \<noteq> [] \<and> hr_result_pos_idx r < length (hr_ordered_results r)")
    case False
    have stop: "set_results_loop beyond buf q = (Error_Success, buf, q)"
      if "\<not> (buf \<noteq> [] \<and> hr_result_pos_idx q < length (hr_ordered_results q))" for q
      by (subst set_results_loop.simps) (simp only: if_not_P [OF that])
    show ?thesis
      using "1.prems" stop [OF False] stop [of r'] False by (simp add: c)
  next
    case True
    let ?io = "hr_ordered_results r ! hr_result_pos_idx r"
    obtain e ob io1 where n: "(if re_result_format ?io = RAW then SetNextRawResult beyond buf False ?io
        else (Error_Success, 0, ?io)) = (e, ob, io1)"
      by (metis prod_cases3)
    let ?u = "\<lambda>q. q\<lparr>hr_ordered_results := (hr_ordered_results r)[hr_result_pos_idx r := io1]\<rparr>"
    let ?v = "\<lambda>q. if ob = 0 then (?u q)\<lparr>hr_result_pos_idx := Suc (hr_result_pos_idx r)\<rparr> else ?u q"
    have step: "set_results_loop beyond buf q =
        (if \<not> Error_IsOk e then (e, buf, ?u q) else set_results_loop beyond (drop ob buf) (?v q))"
      if "hr_result_pos_idx q = hr_result_pos_idx r" "hr_ordered_results q = hr_ordered_results r" for q
      using True n that by (subst set_results_loop.simps) (simp add: Let_def)
    have u: "same_results (?u r) (?u r')" "same_results (?v r) (?v r')"
      using "1.prems"(1) by (simp_all add: same_results_def)
    show ?thesis
    proof (cases "Error_IsOk e")
      case False
      then show ?thesis
        using "1.prems"(2,3) step [OF refl refl] step [OF c] u(1) by simp
    next
      case ok: True
      have l: "set_results_loop beyond (drop ob buf) (?v r) = (err, rest, r1)"
        "set_results_loop beyond (drop ob buf) (?v r') = (err', rest', r1')"
        using "1.prems"(2,3) step [OF refl refl] step [OF c] ok by simp_all
      have "\<not> \<not> Error_IsOk e"
        using ok by simp
      from "1.IH" [OF True refl refl n [symmetric] refl refl this, of "?v r'"] u(2) l show ?thesis
        by (cases "ob = 0") simp_all
    qed
  qed
qed

lemma ResponseHandler_same:
  assumes "same_results r r'"
  shows "fst (ResponseHandler now beyond buf r) = fst (ResponseHandler now' beyond buf r') \<and>
    same_results (snd (ResponseHandler now beyond buf r)) (snd (ResponseHandler now' beyond buf r'))"
proof -
  let ?r1 = "\<lambda>now r :: http_request. if fst (rt_receive_start (hr_timer r)) = 0
    then r\<lparr>hr_timer := timer_Record now RECEIVE_START (hr_timer r)\<rparr> else r"
  have s: "same_results (?r1 now r) (?r1 now' r')"
    using assms by simp
  obtain e rest q where q: "set_results_loop beyond buf (?r1 now r) = (e, rest, q)"
    by (metis prod_cases3)
  moreover obtain e' rest' q' where q': "set_results_loop beyond buf (?r1 now' r') = (e', rest', q')"
    by (metis prod_cases3)
  ultimately have "e' = e" "rest' = rest" "same_results q q'"
    using set_results_same [OF s] by blast+
  moreover from this have "same_results (q\<lparr>hr_infer_response_buffer := hr_infer_response_buffer q @ rest\<rparr>)
      (q'\<lparr>hr_infer_response_buffer := hr_infer_response_buffer q' @ rest\<rparr>)"
    by (simp add: same_results_def)
  ultimately show ?thesis
    using q q' by (simp add: ResponseHandler_def http_SetNextRawResult_def Let_def)
qed

lemma receive_body_same:
  "same_results r r' \<Longrightarrow> map fst qs = map fst ps \<Longrightarrow> same_results (snd (receive_body beyond ps r)) (snd (receive_body beyond qs r'))"
proof (induction beyond ps r arbitrary: r' qs rule: receive_body.induct)
  case (2 beyond piece now pieces r)
  then obtain now' qs1 where qs: "qs = (piece, now') # qs1" "map fst qs1 = map fst pieces"
    by (cases qs) auto
  obtain n r1 where r1: "ResponseHandler now beyond piece r = (n, r1)"
    by (cases "ResponseHandler now beyond piece r")
  obtain n' r1' where r1': "ResponseHandler now' beyond piece r' = (n', r1')"
    by (cases "ResponseHandler now' beyond piece r'")
  have s: "n' = n" "same_results r1 r1'"
    using ResponseHandler_same [OF "2.prems"(1), of now beyond piece now'] r1 r1' by simp_all
  show ?case
    using "2.IH" [OF r1 [symmetric] refl _ s(2) qs(2)] s r1 r1' by (simp add: qs(1))
qed simp

lemma http_perform_same:
  assumes "http_perform pa g beyond m c ct r = Some r1" and "http_perform pa g beyond m' c' ct' r' = Some r1'"
    and "same_results r r'" and "same_outputs c c'" and "ct_lines ct' = ct_lines ct"
    and "map fst (ct_pieces ct') = map fst (ct_pieces ct)"
  shows "same_results r1 r1'"
proof -
  obtain s q s' q' where q: "read_body m (ct_reads ct) r = Some (s, q)" "read_body m' (ct_reads ct') r' = Some (s', q')"
    using assms(1,2) by (auto simp: http_perform_def split: option.splits prod.splits)
  have "same_results r q'"
    using read_body_same [OF q(2)] assms(3) by blast
  moreover have sym: "same_results a b \<longleftrightarrow> same_results b a" for a b
    by (auto simp: same_results_def)
  ultimately have "same_results q q'"
    using read_body_same [OF q(1)] by blast
  from receive_body_same [OF receive_headers_same [OF this assms(4)] assms(6)] show ?thesis
    using assms(1,2,5) q by (auto simp: http_perform_def)
qed

lemma GetResults_same: "same_results r r' \<Longrightarrow> fst (GetResults st code pb r) = fst (GetResults st code pb r')"
  by (auto simp: GetResults_def checked_status_def same_results_def Let_def split: option.split)

text \<open>
  The synchronous request and the asynchronous one, when libcurl delivers the same lines and pieces. The
  sizes with which it reads the two bodies and the clock may differ.
\<close>

lemma async_equals_sync:
  assumes "Error_IsOk curl_status"
    and sync: "http_Run curl_status True pa g beyond start now m ct st code (as_context s) r = Some ((err, res), ctx1, r1)"
    and run: "http_AsyncRun True (Some h) unset start' m s = ((e, Some i), m1, s1)"
    and fresh: "async_ok s" "h \<notin> ar_run_index ` set (as_objects s)"
    and transfer: "http_transfer pa g beyond m1 ct' i s1 = Some s2"
    and same: "ct_lines ct' = ct_lines ct" "map fst (ct_pieces ct') = map fst (ct_pieces ct)"
  shows "\<exists>s4. http_GetAsyncRunResults pa code i wait (http_message now' h True st s2) = Some ((err, True, res), s4)"
proof -
  let ?c = "as_context s" and ?i = "length (as_objects s)"
  obtain inputs m2 where inputs: "copy_inputs (ic_inputs ?c) m = (inputs, m2)"
    by (cases "copy_inputs (ic_inputs ?c) m")
  have pre: "\<exists>c q. PreRunProcessing True ?c x = (Error_Success, c, q) \<and> same_outputs c ?c \<and> same_results q (InitializeRequest (HttpRequestImpl 0 []))
      \<and> ic_async_request_id c = ic_async_request_id ?c" for x
    by (simp add: PreRunProcessing_def Let_def same_outputs_def) (simp add: InitializeRequest_def same_results_def)
  obtain c q where c: "PreRunProcessing True ?c (r\<lparr>hr_inputs := ic_inputs ?c\<rparr>) = (Error_Success, c, q)" "same_outputs c ?c"
    "same_results q (InitializeRequest (HttpRequestImpl 0 []))"
    using pre by blast
  obtain c' q' where c': "PreRunProcessing True ?c (HttpRequestImpl 0 inputs) = (Error_Success, c', q')" "same_outputs c' ?c"
    "same_results q' (InitializeRequest (HttpRequestImpl 0 []))"
    using pre by blast
  obtain p where p: "http_perform pa g beyond m c ct (start_timers start q) = Some p"
    "fst (GetResults st code (pa_binary pa) (stop_timers now p)) = (err, the res)" "res = Some (the res)"
    using sync assms(1) c(1) by (auto simp: http_Run_def Let_def split: option.splits prod.splits)
  let ?a = "\<lparr>ha_request = q'\<lparr>hr_id := ic_async_request_id c'\<rparr>, ha_status = None\<rparr>"
  let ?s = "s\<lparr>as_worker := True, as_context := c'\<lparr>ic_async_request_id := ic_async_request_id c' + 1\<rparr>\<rparr>"
  obtain b n where n: "new_request h ?a ?s = (b, n)"
    by (cases "new_request h ?a ?s")
  have new: "b" "async_ok n" "as_objects n = as_objects s @ [\<lparr>ar_run_index = h, ar_ready = False, ar_request = ?a\<rparr>]"
    "as_context n = as_context ?s" "async_spec (Submitted ?i) (async_abs ?s) (async_abs n)"
    using new_request_ok [OF _ _ n] fresh by auto
  have s1: "i = ?i" "s1 = update_request ?i (\<lambda>a. a\<lparr>ha_request := start_timers start' (ha_request a)\<rparr>) n"
    using run inputs c'(1) n new(1) by (auto simp: http_AsyncRun_def Let_def)
  have ok: "async_ok s1" "i \<in> waiting_requests s1"
    using new(2,5) by (auto simp: s1 async_abs_def elim: async_spec.cases)
  let ?q = "start_timers start' (q'\<lparr>hr_id := ic_async_request_id c'\<rparr>)"
  have obj: "as_objects s1 ! i = \<lparr>ar_run_index = h, ar_ready = False, ar_request = \<lparr>ha_request = ?q, ha_status = None\<rparr>\<rparr>"
    "as_context s1 = as_context ?s" "i < length (as_objects s1)"
    using new(3,4) by (simp_all add: s1 update_request_def nth_append)
  obtain p' where p': "http_perform pa g beyond m1 (as_context s1) ct' ?q = Some p'"
    "s2 = update_request i (\<lambda>a. a\<lparr>ha_request := p'\<rparr>) s1"
    using transfer obj(1) by (auto simp: http_transfer_def split: option.splits)
  have "same_results p p'"
  proof (rule http_perform_same [OF p(1) p'(1) _ _ same])
    show "same_results (start_timers start q) ?q"
      using c(3) c'(3) by (simp add: start_timers_def Let_def) (simp add: same_results_def)
    show "same_outputs c (as_context s1)"
      using c(2) c'(2) by (simp add: obj(2) same_outputs_def)
  qed
  then have get: "fst (GetResults st code (pa_binary pa) (stop_timers now' p')) = (err, the res)"
    using GetResults_same [of "stop_timers now p" "stop_timers now' p'"] p(2) by (simp add: stop_timers_def)
  have ok2: "async_ok s2" "i \<in> waiting_requests s2" "i < length (as_objects s2)"
    using ok obj(3) by (simp_all add: p'(2))
  have obj2: "as_objects s2 ! i = \<lparr>ar_run_index = h, ar_ready = False, ar_request = \<lparr>ha_request = p', ha_status = None\<rparr>\<rparr>"
    using obj by (simp add: p'(2) update_request_def)
  have key: "map_of (as_ongoing s2) h = Some i"
  proof -
    have "(h, i) \<in> set (as_ongoing s2)"
      using ok2(1,2) obj2 by (fastforce simp: waiting_requests_def async_ok_def)
    then show ?thesis
      using ok2(1) by (simp add: async_ok_def)
  qed
  let ?s3 = "http_message now' h True st s2"
  have obj3: "as_objects ?s3 ! i = \<lparr>ar_run_index = h, ar_ready = True, ar_request = \<lparr>ha_request = stop_timers now' p', ha_status = st\<rparr>\<rparr>"
    "as_ongoing ?s3 = as_ongoing s2"
    using key ok2(3) obj2 by (simp_all add: http_message_def set_ready_def update_request_def)
  have "as_ongoing s2 \<noteq> []"
    using key by auto
  then have "IsRequestReady i wait ?s3 = Wait_returned True"
    using key by (simp add: IsRequestReady_def obj3 request_ready_def)
  moreover have "fst (http_taken pa code i ?s3) = (err, the res)"
    using get by (simp add: http_taken_def Let_def obj3 split_def)
  ultimately show ?thesis
    using p(3) by (cases "http_taken pa code i ?s3") (auto simp: http_collect_eq)
qed

section \<open>Waits that do not end\<close>

text \<open>
  A failed \<open>Write\<close> is reported to the user, but the request stays in the map and no response will make it
  ready.
\<close>

lemma failed_write_stays:
  assumes inv: "grpc_inv s" and run: "stream_AsyncRun False clk m s = Some ((err, i, message), s')"
    and few: "Suc (length (as_objects s)) < 2 ^ 64"
  shows "\<not> Error_IsOk err \<and> i \<in> waiting_requests s' \<and> \<not> request_ready s' i"
proof -
  let ?i = "length (as_objects s)" and ?n = "ic_async_request_id (as_context s)"
  let ?s2 = "s\<lparr>as_worker := True, as_context := (as_context s)\<lparr>ic_async_request_id := ?n + 1\<rparr>\<rparr>"
  have n: "unat ?n = Suc ?i"
    using inv few unfolding grpc_inv_def by (simp only: unsigned_of_nat) (simp add: take_bit_nat_eq_self)
  have "ar_run_index ` set (as_objects s) = set (map Suc [0..<?i])"
    using inv by (simp add: grpc_inv_def flip: set_map)
  then have fresh: "unat ?n \<notin> ar_run_index ` set (as_objects ?s2)"
    using n by auto
  obtain b s3 where new: "new_request (unat ?n) (GrpcRequestImpl ?n) ?s2 = (b, s3)"
    by (cases "new_request (unat ?n) (GrpcRequestImpl ?n) ?s2")
  have r: "b" "async_spec (Submitted ?i) (async_abs s) (async_abs s3)"
    "as_objects s3 = as_objects s @ [\<lparr>ar_run_index = unat ?n, ar_ready = False, ar_request = GrpcRequestImpl ?n\<rparr>]"
    using new_request_ok [OF _ fresh new] inv by (simp_all add: grpc_inv_def)
  obtain ctx1 f where s': "s' = update_request ?i f (s3\<lparr>as_context := ctx1\<rparr>)" "i = ?i" "\<not> Error_IsOk err"
    using run new r(1) by (auto simp: stream_AsyncRun_def grpc_AsyncRun_def Let_def split: option.splits)
  have "i \<in> waiting_requests s3"
    using r(2) by (auto simp: s' async_abs_def elim: async_spec.cases)
  then have "i \<in> waiting_requests s'"
    by (simp add: s') (simp add: waiting_requests_def)
  moreover have "\<not> request_ready s' i"
    using r(3) by (simp add: s' request_ready_def update_request_def)
  ultimately show ?thesis
    using s'(3) by blast
qed

text \<open>
  The destructor of a context and the worker thread. The flag is set without the mutex: between the test of
  the worker and its sleep there is room for the flag and for the notification. \<open>pending\<close> is whether a
  request is not ready.
\<close>

datatype worker_pc = W_check | W_block | W_asleep | W_work | W_ended

datatype main_pc = M_running | M_flagged | M_joining | M_joined

inductive exit_step :: "bool \<Rightarrow> worker_pc \<times> main_pc \<Rightarrow> worker_pc \<times> main_pc \<Rightarrow> bool" for pending where
  check: "exit_step pending (W_check, q) (if q \<noteq> M_running \<or> pending then W_work else W_block, q)"
| block: "exit_step pending (W_block, q) (W_asleep, q)"
| work: "exit_step pending (W_work, q) (if q \<noteq> M_running then W_ended else W_check, q)"
| flag: "exit_step pending (w, M_running) (w, M_flagged)"
| notify: "exit_step pending (w, M_flagged) (if w = W_asleep then W_check else w, M_joining)"
| join: "exit_step pending (W_ended, M_joining) (W_ended, M_joined)"

inductive_cases exit_stepE: "exit_step pending (w, q) y"

lemma exit_lost_wakeup:
  "(exit_step False)\<^sup>*\<^sup>* (W_check, M_running) (W_asleep, M_joining)"
proof -
  have "exit_step False (W_check, M_running) (W_block, M_running)"
    using exit_step.check [of False M_running] by simp
  then have "(exit_step False)\<^sup>*\<^sup>* (W_check, M_running) (W_block, M_flagged)"
    using exit_step.flag by (meson rtranclp.simps)
  moreover have "exit_step False (W_block, M_flagged) (W_block, M_joining)"
    using exit_step.notify [of False W_block] by simp
  moreover have "exit_step False (W_block, M_joining) (W_asleep, M_joining)"
    by (rule exit_step.block)
  ultimately show ?thesis
    by (meson rtranclp.rtrancl_into_rtrancl)
qed

lemma exit_stuck: "\<not> exit_step False (W_asleep, M_joining) y"
  by (auto elim: exit_stepE)

section \<open>The properties\<close>


definition async_memory :: client_memory where
  "async_memory = \<lparr>cm_blocks = Map.empty, cm_next = 0\<rparr>"

definition async_parsers :: http_parsers where
  "async_parsers = \<lparr>pa_status = (\<lambda>_. Some reply_status), pa_header = (\<lambda>_. Some reply_header), pa_binary = (\<lambda>_. reply_header)\<rparr>"

definition http_sent :: "http_async async_context" where
  "http_sent = snd (snd (http_AsyncRun True (Some 7) 0 (1, 0) async_memory (async_init example_context)))"

definition grpc_sent :: "grpc_request async_context" where
  "grpc_sent = (case grpc_AsyncRun (\<lambda>_. (1, 0)) async_memory (async_init example_context) of
     Some (res, s) \<Rightarrow> s | None \<Rightarrow> async_init example_context)"

lemma http_sent_reached: "(http_step async_parsers g beyond)\<^sup>*\<^sup>* (async_init example_context) http_sent"
proof -
  obtain res m' s' where "http_AsyncRun True (Some 7) 0 (1, 0) async_memory (async_init example_context) = (res, m', s')"
    by (metis prod_cases3)
  then show ?thesis
    using http_step.run [of True 7 0 "(1, 0)" async_memory "async_init example_context" res m' s' async_parsers g beyond]
    by (simp add: http_sent_def async_init_def r_into_rtranclp)
qed


text \<open>
  Claim C21. The results of an asynchronous HTTP request are taken at most once: after
  \<open>GetAsyncRunResults\<close> has returned them, every later call for the request is refused, whatever the
  user and the worker thread have done since.
\<close>

theorem http_results_taken_once:
  assumes "(http_step pa g beyond)\<^sup>*\<^sup>* (async_init ctx) s" and "ic_async_request_id ctx = 1" and "i < length (as_objects s)"
    and "http_GetAsyncRunResults pa code i wait s = Some ((err, True, x), s1)" and "(http_step pa g beyond)\<^sup>*\<^sup>* s1 s2"
  shows "\<exists>err'. http_GetAsyncRunResults pa code' i wait' s2 = Some ((err', False, None), s2) \<and> ce_code err' = INVALID_ARG"
  by (rule http.collected_once [OF assms])

definition http_arrived :: "http_async async_context" where
  "http_arrived = http_message (2, 0) 7 True None http_sent"

lemma http_arrived_reached: "(http_step async_parsers g beyond)\<^sup>*\<^sup>* (async_init example_context) http_arrived"
  unfolding http_arrived_def
  by (rule rtranclp.rtrancl_into_rtrancl [OF http_sent_reached http_step.message])

theorem http_results_taken_once_witness:
  "\<exists>err x s1 err'. http_GetAsyncRunResults async_parsers 200 0 True http_arrived = Some ((err, True, Some x), s1) \<and>
    http_GetAsyncRunResults async_parsers 200 0 True s1 = Some ((err', False, None), s1) \<and> ce_code err' = INVALID_ARG"
proof -
  have e: "GetReadyAsyncRequest True http_arrived = Wait_returned (Some 0)" "ic_async_request_id example_context = 1"
    "0 < length (as_objects http_arrived)"
    by code_simp+
  obtain err x s1 where c: "http_GetAsyncRunResults async_parsers 200 0 True http_arrived = Some ((err, True, Some x), s1)"
    using http.ready_is_taken [OF http_arrived_reached e(2,1)] by blast
  show ?thesis
    using http_results_taken_once [OF http_arrived_reached e(2,3) c rtranclp.rtrancl_refl] c by blast
qed


definition async_lines :: "string list" where
  "async_lines = [''NV-InferResponse: h'', ''NV-Status: s'']"

definition async_pieces :: "timespec \<Rightarrow> (bytes \<times> timespec) list" where
  "async_pieces now = [([1, 2, 3, 4, 5, 6, 1, 0], now), ([0, 0, 7, 0, 0, 0, 0, 9], now)]"

definition async_transfer :: "timespec \<Rightarrow> curl_transfer" where
  "async_transfer now = \<lparr>ct_reads = [(16, now)], ct_lines = async_lines, ct_pieces = async_pieces now\<rparr>"


text \<open>
  Destroying a context can wait for ever: when the worker has found nothing to do and the
  destructor sets its flag and notifies before the worker sleeps, the notification is lost, the worker
  never wakes up, and the destructor waits for it.
\<close>

theorem destructor_waits_forever:
  "(exit_step False)\<^sup>*\<^sup>* (W_check, M_running) (W_asleep, M_joining) \<and> (\<forall>y. \<not> exit_step False (W_asleep, M_joining) y)"
  using exit_lost_wakeup exit_stuck by blast

end
