(* ===== verification/Request_Round_Trip.thy ===== *)
theory Request_Round_Trip
  imports Client_Send_Props Provider_Utils_Facts Client_Grpc
begin

text \<open>
  From the inputs of a client to the inputs a backend reads, over HTTP and over GRPC: the client library,
  the front end of the server and the request provider together.
\<close>

section \<open>From the body of a request to the inputs of a model\<close>

lemma bind_inputs_bound:
  "(\<forall>io \<in> set ios. bound bufs io) \<Longrightarrow> \<exists>p'. bind_inputs bufs ios p = Inr p'"
proof (induction ios arbitrary: p)
  case Nil
  then show ?case by simp
next
  case (Cons io ios)
  then obtain m where m: "bufs (ri_name io) = Some m" "memory_ok m"
    "length (memory_bytes m) = unat (ri_batch_byte_size io)"
    by (auto simp: bound_def)
  then have "ri_batch_byte_size io = TotalByteSize m"
    by (simp add: memory_bytes_total)
  then show ?case
    using m(1) Cons by simp
qed

lemma normalized_names:
  "list_all2 (normalized is bs) ios ios' \<Longrightarrow> map ri_name ios' = map ri_name ios"
  by (induction rule: list_all2_induct) (auto simp: normalized_def)

text \<open>A request whose inputs are bound is read as it is bound.\<close>

lemma bound_inputs_read:
  assumes bnd: "\<forall>io \<in> set (rh_input h). bound input_map io" and hint: "hint \<noteq> 0"
  shows "\<exists>p fuel. provider_Create name version h input_map = Inr p \<and>
    map (\<lambda>io. read_input fuel (ri_name io) hint force p) (rh_input h) = map Some (map (content input_map) (rh_input h))"
proof -
  obtain p where p: "provider_Create name version h input_map = Inr p"
    using bind_inputs_bound [OF bnd] unfolding provider_Create_def by blast
  let ?fuel = "2 + (\<Sum>io\<leftarrow>rh_input h. length (memory_blocks (the (input_map (ri_name io)))))"
  have "read_input ?fuel (ri_name io) hint force p = Some (content input_map io)" if io: "io \<in> set (rh_input h)" for io
  proof -
    obtain m where m: "input_map (ri_name io) = Some m"
      using bnd io by (auto simp: bound_def)
    have "length (memory_blocks m) \<le> (\<Sum>io\<leftarrow>rh_input h. length (memory_blocks (the (input_map (ri_name io)))))"
      using m io by (force intro: member_le_sum_list)
    then show ?thesis
      using read_input_all [of "ri_name io" p m hint ?fuel force] provider_Create_sel [OF p io m] hint m
      by (simp add: overridden_def content_def)
  qed
  then have "map (\<lambda>io. read_input ?fuel (ri_name io) hint force p) (rh_input h) =
      map Some (map (content input_map) (rh_input h))"
    by simp
  then show ?thesis
    using p by blast
qed

section \<open>The inputs of a client\<close>

text \<open>The bytes of an input, and whether the server expects as many as the client has.\<close>

definition input_bytes :: "client_memory \<Rightarrow> input_impl \<Rightarrow> bytes" where
  "input_bytes m io = concat (input_blocks m io)"

definition sizes_agree :: "input_impl list \<Rightarrow> request_header \<Rightarrow> bool" where
  "sizes_agree ios h \<longleftrightarrow> list_all2 (\<lambda>io rio. ri_batch_byte_size rio = ii_total_byte_size io) ios (rh_input h)"

lemma request_body_inputs: "request_body m ios = concat (map (input_bytes m) ios)"
  by (simp add: request_body_def input_bytes_def [abs_def])

lemma sizes_agree_lengths:
  assumes "sizes_agree ios h" and "\<forall>io \<in> set ios. prepared m io" and "length (request_body m ios) < 2 ^ 64"
  shows "map (\<lambda>rio. unat (ri_batch_byte_size rio)) (rh_input h) = map (length \<circ> input_bytes m) ios"
proof -
  have small: "length (input_bytes m io) < 2 ^ 64" if "io \<in> set ios" for io
  proof -
    have "length (input_bytes m io) \<le> length (request_body m ios)"
      using that by (auto simp: request_body_inputs length_concat comp_def intro!: member_le_sum_list)
    then show ?thesis
      using assms(3) by simp
  qed
  have "unat (ii_total_byte_size io) = length (input_bytes m io)" if "io \<in> set ios" for io
    using prepared_size [of m io] assms(2) that small [OF that]
    by (simp add: input_bytes_def unsigned_of_nat take_bit_nat_eq_self)
  then show ?thesis
    using assms(1) by (auto simp: sizes_agree_def list_all2_conv_all_nth intro!: nth_equalityI)
qed

text \<open>
  Over HTTP: libcurl reads the body to its end and libevent delivers it in blocks; both may cut it as
  they like.
\<close>

lemma http_inputs_arrive:
  assumes prep: "\<forall>io \<in> set (ic_inputs ctx). prepared m io" and names: "distinct (map ii_Name (ic_inputs ctx))"
    and pre: "PreRunProcessing True ctx (r\<lparr>hr_inputs := ic_inputs ctx\<rparr>) = (err, ctx', r1)"
    and sent: "read_body m szs r1 = Some (bss, r2)" "length (request_body m (ic_inputs ctx)) \<le> (\<Sum>(sz, now)\<leftarrow>szs. unat sz)"
    and len: "length (request_body m (ic_inputs ctx)) < 2 ^ 64"
    and header: "NormalizeRequestHeader is (ic_infer_request ctx') = (st, h')" "IsOk st" "sizes_agree (ic_inputs ctx) h'"
    and blocks: "concat blocks = concat bss" "[] \<notin> set blocks" "peek (int (length blocks)) = (int (length blocks), blocks)"
    and hint: "hint \<noteq> 0"
  shows "\<exists>st' input_map p fuel. EVBufferToInputMap (int (length blocks)) peek name h' Map.empty = (st', input_map) \<and> IsOk st' \<and>
    provider_Create name version h' input_map = Inr p \<and>
    map (\<lambda>io. read_input fuel (ri_name io) hint force p) (rh_input h') = map (Some \<circ> input_bytes m) (ic_inputs ctx)"
proof -
  let ?ios = "ic_inputs ctx"
  have body: "concat blocks = request_body m ?ios"
    using read_body_spec [OF client_sends(1) [OF prep pre], of szs] client_sends(2) [OF prep pre] sent blocks(1) by auto
  have "list_all2 (normalized is (rh_batch_size (ic_infer_request ctx'))) (map request_input_of ?ios) (rh_input h')"
    using NormalizeRequestHeader_split [OF header(1)] header(2) client_sends(4) [OF prep pre] by simp
  then have d: "distinct (map ri_name (rh_input h'))"
    using normalized_names names by (fastforce simp: request_input_of_def comp_def)
  have lens: "map (\<lambda>rio. unat (ri_batch_byte_size rio)) (rh_input h') = map (length \<circ> input_bytes m) ?ios"
    by (rule sizes_agree_lengths [OF header(3) prep len])
  obtain st' input_map where ev: "EVBufferToInputMap (int (length blocks)) peek name h' Map.empty = (st', input_map)"
    by (cases "EVBufferToInputMap (int (length blocks)) peek name h' Map.empty")
  note parts = EVBufferToInputMap_parts [OF blocks(3,2) d ev]
  have "(\<Sum>io\<leftarrow>rh_input h'. unat (ri_batch_byte_size io)) = length (concat blocks)"
    unfolding lens body by (simp add: request_body_inputs length_concat comp_def)
  then have ok: "IsOk st'" and bnd: "\<forall>io \<in> set (rh_input h'). bound input_map io"
    and cs: "concat (map (content input_map) (rh_input h')) = concat (map (input_bytes m) ?ios)"
    using parts body by (auto simp: request_body_inputs)
  have "map (content input_map) (rh_input h') = map (input_bytes m) ?ios"
  proof (rule concat_injective [OF cs])
    have "map (length \<circ> content input_map) (rh_input h') = map (length \<circ> input_bytes m) ?ios"
      unfolding lens [symmetric] using bnd by (fastforce simp: bound_def content_def)
    then show "length (map (content input_map) (rh_input h')) = length (map (input_bytes m) ?ios)"
      "\<forall>(x, y) \<in> set (zip (map (content input_map) (rh_input h')) (map (input_bytes m) ?ios)). length x = length y"
      by (auto simp: set_zip list_eq_iff_nth_eq)
  qed
  then show ?thesis
    using bound_inputs_read [OF bnd hint] ev ok by fastforce
qed

text \<open>Over GRPC: the message has the bytes of every input.\<close>

lemma append_batches_blocks:
  assumes prep: "prepared m io" and k: "k + n = unat (ii_batch_size io)"
  shows "append_batches m io [k..<k + n] acc = Some (acc @ concat (drop k (input_blocks m io)))"
  using k
proof (induction n arbitrary: k acc)
  case 0
  then show ?case
    using prep by (simp add: prepared_def counted_input_def input_blocks_def)
next
  case (Suc n)
  have lens: "length (ii_bufs io) = unat (ii_batch_size io)" "length (ii_buf_byte_sizes io) = unat (ii_batch_size io)"
    using prep by (simp_all add: prepared_def counted_input_def)
  have k: "k < unat (ii_batch_size io)"
    using Suc.prems by simp
  then have "k < 2 ^ LENGTH(64)"
    using order_less_trans [OF _ unsigned_less] by blast
  then have u: "unat (of_nat k :: 64 word) = k"
    by (simp add: unsigned_of_nat take_bit_nat_eq_self)
  have get: "input_GetRaw (of_nat k) io = Inr (Some (ii_bufs io ! k, ii_buf_byte_sizes io ! k))"
    using k lens u by (simp add: input_GetRaw_def word_le_nat_alt)
  have "live_block m (ii_bufs io ! k) (ii_buf_byte_sizes io ! k)"
    using prep k lens by (simp add: prepared_def list_all2_conv_all_nth)
  then have read: "read_block m (ii_bufs io ! k) 0 (unat (ii_buf_byte_sizes io ! k)) = Some (input_blocks m io ! k)"
    using k lens by (auto simp: live_block_def read_block_def input_blocks_def block_at_def)
  have "k < length (input_blocks m io)"
    using k lens by (simp add: input_blocks_def)
  then have d: "drop k (input_blocks m io) = input_blocks m io ! k # drop (Suc k) (input_blocks m io)"
    by (simp add: Cons_nth_drop_Suc)
  have upt: "[k..<k + Suc n] = k # [Suc k..<Suc k + n]"
    using upt_conv_Cons [of k "k + Suc n"] by (simp del: upt_Suc)
  have "append_batches m io [k..<k + Suc n] acc = append_batches m io [Suc k..<Suc k + n] (acc @ input_blocks m io ! k)"
    unfolding upt by (simp only: append_batches.simps get read sum.case option.case prod.case)
  also have "\<dots> = Some ((acc @ input_blocks m io ! k) @ concat (drop (Suc k) (input_blocks m io)))"
    by (rule Suc.IH) (use Suc.prems in simp)
  finally show ?case
    by (simp only: d concat.simps append_assoc)
qed

lemma raw_inputs_bytes:
  "\<forall>io \<in> set ios. prepared m io \<and> ii_batch_size io = of_nat n \<and> n < 2 ^ 64 \<Longrightarrow> raw_inputs m n ios = Some (map (input_bytes m) ios)"
proof (induction ios)
  case (Cons io ios)
  then have "unat (ii_batch_size io) = n"
    by (simp add: unsigned_of_nat take_bit_nat_eq_self)
  then show ?case
    using append_batches_blocks [of m io 0 n "[]"] Cons by (simp add: input_bytes_def)
qed simp

lemma prepared_again: "prepared m io \<Longrightarrow> prepared m (snd (PrepareForRequest io)) \<and>
    input_bytes m (snd (PrepareForRequest io)) = input_bytes m io \<and> ii_batch_size (snd (PrepareForRequest io)) = ii_batch_size io"
  by (simp add: PrepareForRequest_def prepared_def counted_input_def input_bytes_def input_blocks_def)

lemma grpc_message_inputs:
  assumes "\<forall>io \<in> set (ic_inputs ctx). prepared m io \<and> ii_batch_size io = ic_batch_size ctx"
  shows "\<exists>message ctx'. grpc_PreRunProcessing m n ctx = Some (message, ctx') \<and>
    gm_raw_input message = map (input_bytes m) (ic_inputs ctx) \<and> gm_model_name message = ic_model_name ctx \<and>
    gm_model_version message = ic_model_version ctx \<and>
    gm_meta_data message = (ic_infer_request ctx)\<lparr>rh_input := map request_input_of (ic_inputs ctx), rh_id := n\<rparr>"
proof -
  have "raw_inputs m (unat (ic_batch_size ctx)) (map (snd \<circ> PrepareForRequest) (ic_inputs ctx)) =
      Some (map (input_bytes m) (map (snd \<circ> PrepareForRequest) (ic_inputs ctx)))"
  proof (rule raw_inputs_bytes)
    have "unat (ic_batch_size ctx) < 2 ^ 64"
      using unsigned_less [of "ic_batch_size ctx"] by simp
    then show "\<forall>io \<in> set (map (snd \<circ> PrepareForRequest) (ic_inputs ctx)).
        prepared m io \<and> ii_batch_size io = of_nat (unat (ic_batch_size ctx)) \<and> unat (ic_batch_size ctx) < 2 ^ 64"
      using assms prepared_again by auto
  qed
  moreover have "map (input_bytes m) (map (snd \<circ> PrepareForRequest) (ic_inputs ctx)) = map (input_bytes m) (ic_inputs ctx)"
    using assms prepared_again by simp
  ultimately show ?thesis
    by (simp add: grpc_PreRunProcessing_def Let_def)
qed

lemma grpc_inputs_arrive:
  assumes prep: "\<forall>io \<in> set (ic_inputs ctx). prepared m io \<and> ii_batch_size io = ic_batch_size ctx"
    and names: "distinct (map ii_Name (ic_inputs ctx))" and len: "length (request_body m (ic_inputs ctx)) < 2 ^ 64"
    and pre: "grpc_PreRunProcessing m n ctx = Some (message, ctx')"
    and header: "NormalizeRequestHeader is (gm_meta_data message) = (st, h')" "IsOk st" "sizes_agree (ic_inputs ctx) h'"
    and hint: "hint \<noteq> 0"
  shows "\<exists>st' input_map p fuel. GRPCInferRequestToInputMap (gm_model_name message) (gm_raw_input message) h' Map.empty = (st', input_map) \<and>
    IsOk st' \<and> provider_Create (gm_model_name message) (gm_model_version message) h' input_map = Inr p \<and>
    map (\<lambda>io. read_input fuel (ri_name io) hint force p) (rh_input h') = map (Some \<circ> input_bytes m) (ic_inputs ctx)"
proof -
  let ?ios = "ic_inputs ctx"
  have msg: "gm_raw_input message = map (input_bytes m) ?ios" "rh_input (gm_meta_data message) = map request_input_of ?ios"
    using grpc_message_inputs [OF prep, of n] pre by auto
  have "list_all2 (normalized is (rh_batch_size (gm_meta_data message))) (map request_input_of ?ios) (rh_input h')"
    using NormalizeRequestHeader_split [OF header(1)] header(2) msg(2) by simp
  then have d: "distinct (map ri_name (rh_input h'))"
    using normalized_names names by (fastforce simp: request_input_of_def comp_def)
  have lens: "map (\<lambda>rio. unat (ri_batch_byte_size rio)) (rh_input h') = map (length \<circ> input_bytes m) ?ios"
    using sizes_agree_lengths [OF header(3) _ len] prep by blast
  obtain st' input_map where g: "GRPCInferRequestToInputMap (gm_model_name message) (gm_raw_input message) h' Map.empty = (st', input_map)"
    by (cases "GRPCInferRequestToInputMap (gm_model_name message) (gm_raw_input message) h' Map.empty")
  have w: "of_nat (unat w) = w" for w :: "64 word"
    by simp
  have l: "list_all2 (\<lambda>io raw. ri_batch_byte_size io = of_nat (length raw)) (rh_input h') (gm_raw_input message)"
    using lens unfolding msg(1) list_all2_conv_all_nth by (auto simp: list_eq_iff_nth_eq) (metis w)
  then have ok: "IsOk st'" and cs: "map (content input_map) (rh_input h') = map (input_bytes m) ?ios"
    and ms: "\<forall>io \<in> set (rh_input h'). \<exists>m. input_map (ri_name io) = Some m \<and> memory_ok m"
    using GRPCInferRequestToInputMap_binds [OF d g] by (simp_all add: msg(1))
  have "map (length \<circ> content input_map) (rh_input h') = map (\<lambda>rio. unat (ri_batch_byte_size rio)) (rh_input h')"
    using arg_cong [OF cs, of "map length"] by (simp add: lens comp_assoc [symmetric])
  then have bnd: "\<forall>io \<in> set (rh_input h'). bound input_map io"
    using ms by (force simp: bound_def content_def)
  show ?thesis
    using bound_inputs_read [OF bnd hint] g ok cs by fastforce
qed

text \<open>
  Claim C17. The inputs of a client reach the backend over HTTP: when every input of a context has its
  buffers, under different names, and the server normalizes the header the client sends to the
  sizes the client has, then however libcurl cuts the body when it reads it and however libevent
  cuts it when it delivers it, the server divides it among the inputs without an error, the request
  provider is created, and the backend reads for every input exactly the bytes of the client's
  buffers of that input, batch entry after batch entry.
\<close>

theorem http_inputs_reach_backend:
  assumes "\<forall>io \<in> set (ic_inputs ctx). prepared m io" and "distinct (map ii_Name (ic_inputs ctx))"
    and "PreRunProcessing True ctx (r\<lparr>hr_inputs := ic_inputs ctx\<rparr>) = (err, ctx', r1)"
    and "read_body m szs r1 = Some (bss, r2)" and "length (request_body m (ic_inputs ctx)) \<le> (\<Sum>(sz, now)\<leftarrow>szs. unat sz)"
    and "length (request_body m (ic_inputs ctx)) < 2 ^ 64"
    and "NormalizeRequestHeader is (ic_infer_request ctx') = (st, h')" and "IsOk st" and "sizes_agree (ic_inputs ctx) h'"
    and "concat blocks = concat bss" and "[] \<notin> set blocks" and "peek (int (length blocks)) = (int (length blocks), blocks)"
    and "hint \<noteq> 0"
  shows "\<exists>st' input_map p fuel. EVBufferToInputMap (int (length blocks)) peek name h' Map.empty = (st', input_map) \<and> IsOk st' \<and>
    provider_Create name version h' input_map = Inr p \<and>
    map (\<lambda>io. read_input fuel (ri_name io) hint force p) (rh_input h') = map (Some \<circ> input_bytes m) (ic_inputs ctx)"
  by (rule http_inputs_arrive) (use assms in blast)+

definition pair_memory :: client_memory where
  "pair_memory = \<lparr>cm_blocks = [0 \<mapsto> [1, 2], 1 \<mapsto> [3, 4]], cm_next = 2\<rparr>"

definition pair_client_input :: "string \<Rightarrow> nat \<Rightarrow> input_impl" where
  "pair_client_input name a = (InputImpl (pair_input name))\<lparr>ii_batch_size := 1, ii_bufs := [a],
     ii_buf_byte_sizes := [2], ii_total_byte_size := 2\<rparr>"

definition pair_context :: infer_context where
  "pair_context = (InferContextImpl ''m'' 1 0)\<lparr>ic_batch_size := 1,
     ic_inputs := [pair_client_input ''A'' 0, pair_client_input ''B'' 1],
     ic_infer_request := request_header_clear\<lparr>rh_batch_size := 1\<rparr>\<rparr>"

definition pair_sent :: "client_error \<times> infer_context \<times> http_request" where
  "pair_sent = PreRunProcessing True pair_context ((HttpRequestImpl 0 [])\<lparr>hr_inputs := ic_inputs pair_context\<rparr>)"

definition pair_received :: "status \<times> request_header" where
  "pair_received = NormalizeRequestHeader pair_backend (ic_infer_request (fst (snd pair_sent)))"

lemma pair_prepared: "\<forall>io \<in> set (ic_inputs pair_context). prepared pair_memory io"
  "distinct (map ii_Name (ic_inputs pair_context))"
  "map (input_bytes pair_memory) (ic_inputs pair_context) = [[1, 2], [3, 4]]"
  by (simp_all add: pair_context_def pair_client_input_def prepared_def counted_input_def live_block_def pair_memory_def
      InputImpl_def Let_def ii_Name_def pair_input_def input_bytes_def input_blocks_def block_at_def)

lemma pair_body: "request_body pair_memory (ic_inputs pair_context) = [1, 2, 3, 4]"
  by (simp add: request_body_inputs pair_prepared(3))

lemma pair_received_ok: "IsOk (fst pair_received)" "sizes_agree (ic_inputs pair_context) (snd pair_received)"
  by code_simp+

theorem http_inputs_reach_backend_witness:
  "\<exists>input_map p fuel. provider_Create ''m'' 1 (snd pair_received) input_map = Inr p \<and>
    map (\<lambda>io. read_input fuel (ri_name io) 1 True p) (rh_input (snd pair_received)) = [Some [1, 2], Some [3, 4]]"
proof -
  obtain err ctx' r1 where sent: "pair_sent = (err, ctx', r1)"
    by (metis prod_cases3)
  obtain bss r2 where body: "read_body pair_memory [(3, (0, 0)), (9, (0, 0))] r1 = Some (bss, r2)" "concat bss = [1, 2, 3, 4]"
    using read_body_spec [OF client_sends(1) [OF pair_prepared(1) sent [unfolded pair_sent_def]], of "[(3, (0, 0)), (9, (0, 0))]"]
      client_sends(2) [OF pair_prepared(1) sent [unfolded pair_sent_def]]
    by (auto simp: pair_body)
  have rec: "NormalizeRequestHeader pair_backend (ic_infer_request ctx') = pair_received"
    by (simp add: pair_received_def sent)
  show ?thesis
    using http_inputs_reach_backend [where blocks = pair_blocks and peek = pair_peek and hint = 1 and force = True and
        name = "''m''" and version = 1, OF pair_prepared(1,2) sent [unfolded pair_sent_def] body(1) _ _
        rec [THEN HOL.trans, OF surjective_pairing] pair_received_ok]
    by (force simp: pair_body body(2) pair_blocks_def pair_peek_def pair_prepared(3) map_map [symmetric] simp del: map_map)
qed

text \<open>
  Claim C18. The inputs of a client reach the backend over GRPC: when every input of a context has its
  buffers for the batch size of the context, under different names, the message of the request can
  be built, and when the server normalizes its header to the sizes the client has, it maps the
  contents to the inputs without an error, the request provider is created, and the backend reads
  for every input exactly the bytes of the client's buffers of that input.
\<close>

theorem grpc_inputs_reach_backend:
  assumes "\<forall>io \<in> set (ic_inputs ctx). prepared m io \<and> ii_batch_size io = ic_batch_size ctx"
    and "distinct (map ii_Name (ic_inputs ctx))" and "length (request_body m (ic_inputs ctx)) < 2 ^ 64"
    and "grpc_PreRunProcessing m n ctx = Some (message, ctx')"
    and "NormalizeRequestHeader is (gm_meta_data message) = (st, h')" and "IsOk st" and "sizes_agree (ic_inputs ctx) h'"
    and "hint \<noteq> 0"
  shows "\<exists>st' input_map p fuel. GRPCInferRequestToInputMap (gm_model_name message) (gm_raw_input message) h' Map.empty = (st', input_map) \<and>
    IsOk st' \<and> provider_Create (gm_model_name message) (gm_model_version message) h' input_map = Inr p \<and>
    map (\<lambda>io. read_input fuel (ri_name io) hint force p) (rh_input h') = map (Some \<circ> input_bytes m) (ic_inputs ctx)"
  by (rule grpc_inputs_arrive) (use assms in blast)+

definition pair_message :: "infer_message \<times> infer_context" where
  "pair_message = the (grpc_PreRunProcessing pair_memory 7 pair_context)"

definition pair_grpc_received :: "status \<times> request_header" where
  "pair_grpc_received = NormalizeRequestHeader pair_backend (gm_meta_data (fst pair_message))"

lemma pair_grpc_received_ok: "IsOk (fst pair_grpc_received)" "sizes_agree (ic_inputs pair_context) (snd pair_grpc_received)"
  by code_simp+

theorem grpc_inputs_reach_backend_witness:
  "\<exists>input_map p fuel. provider_Create ''m'' 1 (snd pair_grpc_received) input_map = Inr p \<and>
    map (\<lambda>io. read_input fuel (ri_name io) 1 True p) (rh_input (snd pair_grpc_received)) = [Some [1, 2], Some [3, 4]]"
proof -
  have prep: "\<forall>io \<in> set (ic_inputs pair_context). prepared pair_memory io \<and> ii_batch_size io = ic_batch_size pair_context"
    using pair_prepared(1) by (simp add: pair_context_def pair_client_input_def)
  obtain message ctx' where msg: "grpc_PreRunProcessing pair_memory 7 pair_context = Some (message, ctx')"
    "gm_model_name message = ''m''" "gm_model_version message = 1"
    using grpc_message_inputs [OF prep, of 7] by (auto simp: pair_context_def InferContextImpl_def)
  have rec: "NormalizeRequestHeader pair_backend (gm_meta_data message) = pair_grpc_received"
    by (simp add: pair_grpc_received_def pair_message_def msg(1))
  show ?thesis
    using grpc_inputs_reach_backend [where hint = 1 and force = True, OF prep pair_prepared(2) _ msg(1)
        rec [THEN HOL.trans, OF surjective_pairing] pair_grpc_received_ok]
    by (force simp: pair_body msg(2,3) pair_prepared(3) map_map [symmetric] simp del: map_map)
qed

end
