(* ===== verification/Grpc_Round_Trip.thy ===== *)
theory Grpc_Round_Trip
  imports Client_Grpc Client_Inplace Http_Round_Trip
begin

text \<open>
  From the response of the GRPC front end to the results of the client: \<open>grpc_server.cc\<close>, \<open>request_grpc.cc\<close>
  and the results in place of \<open>request_common.cc\<close> together.
\<close>

section \<open>One output\<close>

lemma created_new: "new_result (created_result g ctx bs so)"
  by (simp add: created_result_def Let_def created_result_new)

lemma created_ptrs: "length (re_inplace_ptrs (created_result g ctx bs so)) = re_batch_size (created_result g ctx bs so)"
  by (simp add: created_result_def Let_def SetBatchnByteSize_def SetBatch1Shape_def ResultImpl_def)

text \<open>What the result of an output becomes: as it was created for classes, otherwise with pointers into the response.\<close>

definition result_in_place :: "int \<Rightarrow> infer_context \<Rightarrow> 32 word \<Rightarrow> response_output \<Rightarrow> bytes \<Rightarrow> result_impl \<Rightarrow> bool" where
  "result_in_place g ctx bs so out res \<longleftrightarrow>
     (let new = created_result g ctx bs so in
      if so_raw so = None then res = new
      else (\<exists>P. res = in_place P (re_buffers new) (with_output new out) \<and> views (with_output new out) P))"

lemma InitResult_delivers:
  assumes d: "delivers ctx bs so out entries" and idx: "idx < length (gr_raw_output response)" "gr_raw_output response ! idx = out"
  shows "\<exists>res. InitResult beyond response (ic_outputs ctx ! output_index ctx (so_name so)) so idx
      (ResultImpl g (ic_outputs ctx ! output_index ctx (so_name so)) (unat bs)) = (Error_Success, res) \<and>
    result_in_place g ctx bs so out res"
proof -
  let ?co = "ic_outputs ctx ! output_index ctx (so_name so)" and ?new = "created_result g ctx bs so"
  have init: "InitResult beyond response ?co so idx (ResultImpl g ?co (unat bs)) =
      (if re_result_format ?new = RAW then
         (let (err, n, r) = SetNextRawResult (beyond idx) out True ?new in
          if \<not> Error_IsOk err then (err, r)
          else if n \<noteq> length out then
            (Error_msg INVALID (''Written bytes doesn'' @ [CHR 0x27] @ ''t match received bytes for result '' @ quote (so_name so)), r)
          else (Error_Success, r))
       else (Error_Success, ?new))"
    using idx by (simp add: InitResult_def created_result_def Let_def)
  show ?thesis
  proof (cases "so_raw so")
    case None
    then show ?thesis
      using delivers_class(3) [OF d None, of g] by (simp add: init result_in_place_def)
  next
    case (Some raw)
    have f: "re_result_format ?new = RAW" "length out < 2 ^ 64"
      using d Some by (auto simp: delivers_def Let_def created_result_sel)
    obtain P where "SetNextRawResult (beyond idx) out True ?new = (Error_Success, length out, in_place P (re_buffers ?new) (with_output ?new out))"
      "views (with_output ?new out) P"
      using inplace_output [OF created_new delivers_matches [OF d] f created_ptrs] by blast
    then show ?thesis
      using f(1) Some by (auto simp: init result_in_place_def Let_def)
  qed
qed

section \<open>All outputs\<close>

lemma drop_Cons_parts:
  assumes "drop n xs = y # ys"
  shows "n < length xs" and "xs ! n = y" and "drop (Suc n) xs = ys"
proof -
  show n: "n < length xs"
    using assms by (cases "n < length xs") simp_all
  show "xs ! n = y" and "drop (Suc n) xs = ys"
    using assms Cons_nth_drop_Suc [OF n] by simp_all
qed

lemma grpc_results_delivered:
  "list_all2 (\<lambda>so (out, entries). delivers ctx (sh_batch_size (gr_meta_data response)) so out entries) sos outs \<Longrightarrow>
   drop idx (gr_raw_output response) = map fst outs \<Longrightarrow> distinct (map so_name sos) \<Longrightarrow>
   (\<forall>so \<in> set sos. results (so_name so) = None) \<Longrightarrow>
   \<exists>results'. grpc_results g beyond ctx response sos idx results = (Error_Success, results') \<and>
     (\<forall>name. name \<notin> so_name ` set sos \<longrightarrow> results' name = results name) \<and>
     list_all2 (\<lambda>so (out, entries). \<exists>res. results' (so_name so) = Some res \<and>
       result_in_place g ctx (sh_batch_size (gr_meta_data response)) so out res) sos outs"
proof (induction sos outs arbitrary: idx results rule: list_all2_induct)
  case Nil
  then show ?case by simp
next
  case (Cons so sos x outs)
  obtain out entries where x: "x = (out, entries)" by force
  let ?bs = "sh_batch_size (gr_meta_data response)"
  have d: "delivers ctx ?bs so out entries"
    using Cons.hyps(1) by (simp add: x)
  then obtain k where k: "context_GetOutput ctx (so_name so) = Inr k"
    by (auto simp: delivers_def Let_def)
  have "drop idx (gr_raw_output response) = out # map fst outs"
    using Cons.prems(1) by (simp add: x)
  then have idx: "idx < length (gr_raw_output response)" "gr_raw_output response ! idx = out"
    "drop (Suc idx) (gr_raw_output response) = map fst outs"
    by (rule drop_Cons_parts)+
  have out: "k = output_index ctx (so_name so)"
    by (simp add: output_index_def k)
  obtain res where res: "InitResult beyond response (ic_outputs ctx ! k) so idx (ResultImpl g (ic_outputs ctx ! k) (unat ?bs)) = (Error_Success, res)"
    "result_in_place g ctx ?bs so out res"
    using InitResult_delivers [OF d idx(1,2), of beyond g] unfolding out by blast
  let ?results = "results(so_name so \<mapsto> res)"
  have fresh: "\<forall>so \<in> set sos. ?results (so_name so) = None"
    using Cons.prems(2,3) by (auto simp: image_iff)
  have "distinct (map so_name sos)"
    using Cons.prems(2) by simp
  from Cons.IH [OF idx(3) this fresh]
  obtain results' where r: "grpc_results g beyond ctx response sos (Suc idx) ?results = (Error_Success, results')"
    "\<forall>name. name \<notin> so_name ` set sos \<longrightarrow> results' name = ?results name"
    "list_all2 (\<lambda>so (out, entries). \<exists>res. results' (so_name so) = Some res \<and> result_in_place g ctx ?bs so out res) sos outs"
    by blast
  have "grpc_results g beyond ctx response (so # sos) idx results = (Error_Success, results')"
    using r(1) Cons.prems(3) by (simp add: k res(1) Let_def)
  moreover have "results' (so_name so) = Some res"
    using r(2) Cons.prems(2) by simp
  ultimately show ?case
    using r(2,3) res(2) by (auto simp: x)
qed

section \<open>What the user reads\<close>

text \<open>
  A result in place gives a pointer into the response and a size: the bytes of the entry are the first
  ones at the pointer.
\<close>

definition client_reads :: "(string \<rightharpoonup> result_impl) \<Rightarrow> response_output \<Rightarrow> bytes list \<Rightarrow> bool" where
  "client_reads results so entries \<longleftrightarrow>
     (\<exists>res. results (so_name so) = Some res \<and>
        (case so_raw so of
           Some raw \<Rightarrow> GetRawShape res = Inr (rr_dims raw) \<and>
             (\<forall>b < length entries. \<exists>ptr. GetRaw b res = Inr (ptr, of_nat (length (entries ! b))) \<and>
                take (length (entries ! b)) ptr = entries ! b)
         | None \<Rightarrow> re_class_result res = so))"

lemma post_run_in_place:
  assumes "re_result_format res = RAW" and "re_inplace res" and "b < re_batch_size res"
  shows "GetRaw b (post_run h res) = Inr (re_inplace_ptrs res ! b, re_bufs_byte_size res ! b)"
  using assms by (simp add: post_run_def Let_def ResetCursors_def GetRaw_def)

lemma client_reads_result:
  assumes d: "delivers ctx bs so out entries" and h: "distinct (map so_name (sh_output h))" "so \<in> set (sh_output h)"
    and res: "results (so_name so) = Some res" "result_in_place g ctx bs so out res"
  shows "client_reads (PostRunProcessing h results) so entries"
proof (cases "so_raw so")
  case None
  have "\<exists>k. context_GetOutput ctx (so_name so) = Inr k"
    using d by (simp add: delivers_def Let_def)
  then have "re_name (created_result g ctx bs so) = so_name so"
    using created_result_name by blast
  then show ?thesis
    using post_run_class [OF delivers_class(3) [OF d None] h, of g] res None
    by (simp add: client_reads_def PostRunProcessing_def result_in_place_def)
next
  case (Some raw)
  let ?new = "created_result g ctx bs so"
  note w = delivers_result(2) [OF d Some, of g]
  obtain P where P: "res = in_place P (re_buffers ?new) (with_output ?new out)" "views (with_output ?new out) P"
    using res(2) Some by (auto simp: result_in_place_def Let_def)
  have len: "length entries = unat bs" and f: "re_result_format ?new = RAW" and small: "length out < 2 ^ 64" "out = concat entries"
    using d Some by (auto simp: delivers_def Let_def created_result_sel)
  have sel: "re_result_format res = RAW" "re_inplace res" "re_batch_size res = unat bs" "re_inplace_ptrs res = P"
    "re_bufs_byte_size res = map (of_nat \<circ> length) entries" "re_shape res = rr_dims raw"
    using f Some by (simp_all add: P(1) w created_result_sel header_raw_def)
  have new_entries: "re_buffers (with_output ?new out) = entries"
    by (simp add: w)
  have "\<exists>ptr. GetRaw b (post_run h res) = Inr (ptr, of_nat (length (entries ! b))) \<and> take (length (entries ! b)) ptr = entries ! b"
    if b: "b < length entries" for b
  proof -
    have "length (entries ! b) \<le> length out"
      using b unfolding small(2) length_concat by (intro member_le_sum_list) simp_all
    then have "unat (of_nat (length (entries ! b)) :: 64 word) = length (entries ! b)"
      using small(1) by (simp only: unsigned_of_nat) (simp add: take_bit_nat_eq_self)
    then have "take (length (entries ! b)) (P ! b) = entries ! b"
      using P(2) b len unfolding views_def by (metis (no_types, lifting) comp_apply nth_map sel(3,5) in_place_sel(2,4) P(1) new_entries)
    then show ?thesis
      using post_run_in_place [OF sel(1,2), of b h] b len by (simp add: sel(3,4,5))
  qed
  moreover have "GetRawShape (post_run h res) = Inr (rr_dims raw)"
    using sel(1,6) by (simp add: post_run_def Let_def ResetCursors_def GetRawShape_def)
  ultimately show ?thesis
    using res(1) Some by (simp add: client_reads_def PostRunProcessing_def)
qed

lemma response_reaches_client:
  assumes rs: "rs_code rs = SUCCESS" and h: "h = rv_response_header (gi_response_provider gi)" "distinct (map so_name (sh_output h))"
    and outs: "list_all2 (\<lambda>so (out, entries). delivers ctx (sh_batch_size h) so out entries) (sh_output h) outs"
    and raw: "gv_raw_output (gi_response_provider gi) = map fst outs"
    and r: "gq_status r = Grpc_ok" "gq_response r = grpc_finish rs gi"
  shows "\<exists>results. grpc_GetResults g beyond ctx r = (Error_status rs, results) \<and>
    list_all2 (\<lambda>so (out, entries). client_reads results so entries) (sh_output h) outs"
proof -
  let ?response = "grpc_finish rs gi" and ?h = "h\<lparr>sh_id := gi_id gi\<rparr>"
  have resp: "gr_request_status ?response = rs" "gr_meta_data ?response = ?h" "gr_raw_output ?response = map fst outs"
    using rs raw by (simp_all add: grpc_finish_def Let_def h(1))
  have "list_all2 (\<lambda>so (out, entries). delivers ctx (sh_batch_size (gr_meta_data ?response)) so out entries) (sh_output h) outs"
    using outs by (simp add: resp(2))
  from grpc_results_delivered [OF this, of 0 Map.empty g beyond]
  obtain results where r1: "grpc_results g beyond ctx ?response (sh_output h) 0 Map.empty = (Error_Success, results)"
    and all: "list_all2 (\<lambda>so (out, entries). \<exists>res. results (so_name so) = Some res \<and> result_in_place g ctx (sh_batch_size h) so out res)
      (sh_output h) outs"
    using h(2) by (auto simp: resp)
  have "grpc_GetResults g beyond ctx r = (Error_status rs, PostRunProcessing ?h results)"
    using r r1 rs by (simp add: grpc_GetResults_def Let_def resp)
  moreover have "list_all2 (\<lambda>so (out, entries). client_reads (PostRunProcessing ?h results) so entries) (sh_output h) outs"
    unfolding list_all2_conv_all_nth
  proof (intro conjI allI impI)
    show len: "length (sh_output h) = length outs"
      using outs by (rule list_all2_lengthD)
    fix i assume i: "i < length (sh_output h)"
    obtain out entries where x: "outs ! i = (out, entries)" by force
    have "delivers ctx (sh_batch_size h) (sh_output h ! i) out entries"
      using list_all2_nthD [OF outs i] by (simp add: x)
    moreover obtain res where "results (so_name (sh_output h ! i)) = Some res" "result_in_place g ctx (sh_batch_size h) (sh_output h ! i) out res"
      using list_all2_nthD [OF all i] by (auto simp: x)
    ultimately have "client_reads (PostRunProcessing ?h results) (sh_output h ! i) entries"
      using client_reads_result [of ctx "sh_batch_size h" "sh_output h ! i" out entries ?h results res g] h(2) i by simp
    then show "case outs ! i of (out, entries) \<Rightarrow> client_reads (PostRunProcessing ?h results) (sh_output h ! i) entries"
      by (simp add: x)
  qed
  ultimately show ?thesis by blast
qed


definition reply_grpc :: grpc_infer where
  "reply_grpc =
     \<lparr>gi_id = 7, gi_request_provider = InferRequestProvider ''m'' 1,
      gi_response_provider = (grpc_Create request_header_clear Map.empty)\<lparr>rv_response_header := reply_header, gv_raw_output := map fst reply_entries\<rparr>,
      gi_infer_stats = ModelInferStats ''m'', gi_timer = ScopedTimer\<rparr>"


end
