(* ===== verification/Ensemble_Utils.thy ===== *)
theory Ensemble_Utils
  imports Ensemble_Graph
begin

text \<open>
  \<open>src/core/ensemble_utils.cc\<close>: the validation of the ensembles of a set of model configurations
  together. Beside the data flow it checks that the models of an ensemble exist, that an ensemble
  tensor has one data type and one shape wherever a model reads or writes it, and that no ensemble
  contains itself.
\<close>

section \<open>Nodes\<close>

record tensor_node = links +
  tn_model_name :: string
  tn_type :: data_type
  tn_dims :: "int list"

definition TensorNode :: "string \<Rightarrow> data_type \<Rightarrow> int list \<Rightarrow> tensor_node" where
  "TensorNode model type dims =
     \<lparr>ln_prev_nodes = [], ln_next_nodes = [], tn_model_name = model, tn_type = type, tn_dims = dims\<rparr>"

definition ValidateTensorConsistency :: "tensor_node \<Rightarrow> tensor_node \<Rightarrow> string \<Rightarrow> status" where
  "ValidateTensorConsistency lhs rhs message =
     (if tn_type lhs \<noteq> tn_type rhs then
        Status INVALID_ARG (message @ ''inconsistent data type: '' @ show_int (data_type_number (tn_type lhs)) @
          '' is inferred from model '' @ tn_model_name lhs @ '' while '' @
          show_int (data_type_number (tn_type rhs)) @ '' is inferred from model '' @ tn_model_name rhs)
      else if \<not> (length (tn_dims lhs) = length (tn_dims rhs) \<and>
                 list_all (\<lambda>i. tn_dims lhs ! i = tn_dims rhs ! i) [0..<length (tn_dims lhs)]) then
        Status INVALID_ARG (message @ ''inconsistent shape: '' @ DimsListToString (tn_dims lhs) @
          '' is inferred from model '' @ tn_model_name lhs @ '' while '' @ DimsListToString (tn_dims rhs) @
          '' is inferred from model '' @ tn_model_name rhs)
      else Status_Success)"

type_synonym tensor_map = "(string \<times> tensor_node) list"

definition emplace :: "string \<Rightarrow> 'v \<Rightarrow> (string \<times> 'v) list \<Rightarrow> (string \<times> 'v) list" where
  "emplace k v m = (case map_of m k of None \<Rightarrow> m @ [(k, v)] | Some _ \<Rightarrow> m)"

definition ensemble_nodes :: "string \<Rightarrow> model_config \<Rightarrow> tensor_map" where
  "ensemble_nodes ensemble c =
     foldl (\<lambda>g out. emplace (mo_name out) (TensorNode ensemble (mo_data_type out) (mo_dims out)) g)
       (foldl (\<lambda>g inp. emplace (mi_name inp) (TensorNode ensemble (mi_data_type inp) (mi_dims inp)) g) [] (mc_input c))
       (mc_output c)"

section \<open>A step\<close>

text \<open>The tensor a model reads or writes: a new one, or one that must have the same type.\<close>

definition place_tensor :: "string \<Rightarrow> string \<Rightarrow> tensor_node \<Rightarrow> tensor_map \<Rightarrow> status + tensor_map" where
  "place_tensor ensemble tensor model_tensor g =
     (case map_of g tensor of
        Some node \<Rightarrow>
          return_if_error_val
            (ValidateTensorConsistency node model_tensor
              (''in ensemble '' @ ensemble @ '', ensemble tensor '' @ tensor @ '': ''))
            (Inr g)
      | None \<Rightarrow> Inr (g @ [(tensor, model_tensor)]))"

fun check_mapped_inputs :: "string \<Rightarrow> ensemble_step \<Rightarrow> string list \<Rightarrow> (string \<times> string) list \<Rightarrow> status" where
  "check_mapped_inputs ensemble s available_inputs [] = Status_Success"
| "check_mapped_inputs ensemble s available_inputs ((k, tensor) # im) =
     (if k \<notin> set available_inputs then
        Status INVALID_ARG (''in ensemble '' @ ensemble @ '', ensemble tensor '' @ tensor @
          '' is mapping to non-existing input '' @ k @ '' in model '' @ es_model_name s)
      else check_mapped_inputs ensemble s available_inputs im)"

fun place_input ::
  "string \<Rightarrow> ensemble_step \<Rightarrow> model_input \<Rightarrow> (string \<times> string) list \<Rightarrow> nat \<Rightarrow> tensor_map \<Rightarrow> status + nat \<times> tensor_map" where
  "place_input ensemble s inp [] mapped_cnt g = Inr (mapped_cnt, g)"
| "place_input ensemble s inp ((k, tensor) # im) mapped_cnt g =
     (if mi_name inp = k then
        bind_status (place_tensor ensemble tensor (TensorNode (es_model_name s) (mi_data_type inp) (mi_dims inp)) g)
          (\<lambda>g1. place_input ensemble s inp im (mapped_cnt + 1) g1)
      else place_input ensemble s inp im mapped_cnt g)"

fun place_inputs ::
  "string \<Rightarrow> ensemble_step \<Rightarrow> model_config \<Rightarrow> model_input list \<Rightarrow> tensor_map \<Rightarrow> status + tensor_map" where
  "place_inputs ensemble s model [] g = Inr g"
| "place_inputs ensemble s model (inp # inps) g =
     bind_status (place_input ensemble s inp (es_input_map s) 0 g)
       (\<lambda>(mapped_cnt, g1).
         if mapped_cnt = 0 then
           Inl (Status INVALID_ARG (''in ensemble '' @ ensemble @ '', input '' @ mi_name inp @ '' in model '' @
             mc_name model @ '' is not mapped to any ensemble tensors''))
         else if mapped_cnt > 1 then
           Inl (Status INVALID_ARG (''in ensemble '' @ ensemble @ '', input '' @ mi_name inp @ '' in model '' @
             mc_name model @ '' is mapped to multiple ensemble tensors''))
         else place_inputs ensemble s model inps g1)"

fun check_mapped_outputs :: "string \<Rightarrow> ensemble_step \<Rightarrow> string list \<Rightarrow> (string \<times> string) list \<Rightarrow> status" where
  "check_mapped_outputs ensemble s available_outputs [] = Status_Success"
| "check_mapped_outputs ensemble s available_outputs ((k, tensor) # om) =
     (if k \<notin> set available_outputs then
        Status INVALID_ARG (''in ensemble '' @ ensemble @ '', ensemble tensor '' @ tensor @
          '' is mapped from non-existing output '' @ k @ '' in model '' @ es_model_name s)
      else check_mapped_outputs ensemble s available_outputs om)"

fun place_output ::
  "string \<Rightarrow> ensemble_step \<Rightarrow> string \<Rightarrow> string \<Rightarrow> model_output list \<Rightarrow> nat \<Rightarrow> tensor_map \<Rightarrow> status + nat \<times> tensor_map" where
  "place_output ensemble s k tensor [] mapped_cnt g = Inr (mapped_cnt, g)"
| "place_output ensemble s k tensor (out # outs) mapped_cnt g =
     (if mo_name out = k then
        bind_status (place_tensor ensemble tensor (TensorNode (es_model_name s) (mo_data_type out) (mo_dims out)) g)
          (\<lambda>g1. place_output ensemble s k tensor outs (mapped_cnt + 1) g1)
      else place_output ensemble s k tensor outs mapped_cnt g)"

fun place_outputs ::
  "string \<Rightarrow> ensemble_step \<Rightarrow> model_config \<Rightarrow> (string \<times> string) list \<Rightarrow> tensor_map \<Rightarrow> status + tensor_map" where
  "place_outputs ensemble s model [] g = Inr g"
| "place_outputs ensemble s model ((k, tensor) # om) g =
     bind_status (place_output ensemble s k tensor (mc_output model) 0 g)
       (\<lambda>(mapped_cnt, g1).
         if mapped_cnt > 1 then
           Inl (Status INVALID_ARG (''in ensemble '' @ ensemble @ '', multiple outputs in model '' @ mc_name model @
             '' are mapped to the same ensemble tensor '' @ tensor))
         else place_outputs ensemble s model om g1)"

definition link_step :: "ensemble_step \<Rightarrow> tensor_map \<Rightarrow> tensor_map" where
  "link_step s g =
     foldl (\<lambda>g (ko, out). foldl (\<lambda>g (ki, inp). link_nodes out inp g) g (es_input_map s)) g (es_output_map s)"

definition place_step :: "string \<Rightarrow> ensemble_step \<Rightarrow> model_config \<Rightarrow> tensor_map \<Rightarrow> status + tensor_map" where
  "place_step ensemble s model g =
     return_if_error_val (check_mapped_inputs ensemble s (map mi_name (mc_input model)) (es_input_map s))
       (bind_status (place_inputs ensemble s model (mc_input model) g) (\<lambda>g1.
        return_if_error_val (check_mapped_outputs ensemble s (map mo_name (mc_output model)) (es_output_map s))
          (bind_status (place_outputs ensemble s model (es_output_map s) g1) (\<lambda>g2. Inr (link_step s g2)))))"

section \<open>The data flow of an ensemble\<close>

fun outputs_written :: "string \<Rightarrow> string list \<Rightarrow> model_output list \<Rightarrow> status" where
  "outputs_written ensemble ready [] = Status_Success"
| "outputs_written ensemble ready (out # outs) =
     (if mo_name out \<notin> set ready then
        Status INVALID_ARG (''in ensemble '' @ ensemble @ '', no data will be written to ensemble output '' @ mo_name out)
      else outputs_written ensemble ready outs)"

fun no_redundant :: "string \<Rightarrow> string list \<Rightarrow> string list \<Rightarrow> tensor_map \<Rightarrow> status" where
  "no_redundant ensemble outputs ready [] = Status_Success"
| "no_redundant ensemble outputs ready ((n, v) # g) =
     (if n \<in> set outputs then no_redundant ensemble outputs ready g
      else if n \<notin> set ready then
        Status INVALID_ARG (''in ensemble '' @ ensemble @ '', ensemble tensor '' @ n @
          '' is redundant as no data will be written to it'')
      else if length (ln_next_nodes v) = 0 then
        Status INVALID_ARG (''in ensemble '' @ ensemble @ '', ensemble tensor '' @ n @
          '' is redundant as it will not be used in any models'')
      else no_redundant ensemble outputs ready g)"

definition check_data_flow :: "string \<Rightarrow> model_config \<Rightarrow> tensor_map \<Rightarrow> status" where
  "check_data_flow ensemble c g =
     (let inputs = map mi_name (mc_input c); ready = data_flow g (rev inputs) inputs
      in return_if_error (outputs_written ensemble ready (mc_output c))
           (no_redundant ensemble (map mo_name (mc_output c)) ready g))"

section \<open>An ensemble\<close>

text \<open>
  The two parts of \<open>ValidateEnsembleConfig\<close>: the whole, and the loop over the steps, which validates the
  ensembles among the models first. \<open>dependency\<close> is the queue of the ensembles that are being
  validated; it is put back after each call. The result \<open>None\<close> is a lookup of a name that is
  not there (\<open>at\<close> throws, \<open>find(\<dots>)->second\<close> reads past the end). What an error leaves in \<open>ensembles\<close>
  is dropped with it.
\<close>

definition nesting :: "(string \<times> model_config) list \<Rightarrow> string list \<Rightarrow> string \<Rightarrow> nat" where
  "nesting cm dependency e =
     2 * card (insert e (keys cm) - set dependency) + (if e \<in> set dependency then 1 else 0)"

lemma keys_Some: "map_of cm m = Some v \<Longrightarrow> m \<in> keys cm"
  by (auto simp: keys_iff)

lemma finite_keys [simp]: "finite (keys g)"
  by (simp add: keys_def)

lemma nesting_decreases:
  assumes "map_of cm m = Some mc" and "m \<notin> set dependency"
  shows "nesting cm (dependency @ [e]) m < nesting cm dependency e"
proof (cases "e \<in> set dependency")
  case True
  then have "insert m (keys cm) - set (dependency @ [e]) = insert e (keys cm) - set dependency"
    using assms keys_Some [OF assms(1)] by auto
  moreover have "m \<noteq> e" using True assms(2) by blast
  ultimately show ?thesis
    using True assms(2) by (simp add: nesting_def)
next
  case False
  have "insert m (keys cm) - set (dependency @ [e]) = insert e (keys cm) - set dependency - {e}"
    using keys_Some [OF assms(1)] by auto
  moreover have "Suc (card (insert e (keys cm) - set dependency - {e})) = card (insert e (keys cm) - set dependency)"
    using False by (intro card_Suc_Diff1) simp_all
  ultimately show ?thesis
    using False by (simp add: nesting_def)
qed

function validate_ensemble ::
    "(string \<times> model_config) list \<Rightarrow> (string \<times> string) list \<Rightarrow> string list \<Rightarrow> (string \<times> bool) list \<Rightarrow> string \<Rightarrow>
     (status + (string \<times> bool) list) option"
  and validate_steps ::
    "(string \<times> model_config) list \<Rightarrow> (string \<times> string) list \<Rightarrow> string list \<Rightarrow> (string \<times> bool) list \<Rightarrow> string \<Rightarrow>
     model_config \<Rightarrow> ensemble_step list \<Rightarrow> tensor_map \<Rightarrow> (status + (string \<times> bool) list \<times> tensor_map) option" where
  "validate_ensemble cm invalid dependency ensembles e =
     (case map_of cm e of
        None \<Rightarrow> None
      | Some c \<Rightarrow>
          (case validate_steps cm invalid dependency ensembles e c (ensemble_steps c) (ensemble_nodes e c) of
             None \<Rightarrow> None
           | Some (Inl st) \<Rightarrow> Some (Inl st)
           | Some (Inr (ensembles1, g)) \<Rightarrow>
               (let st = check_data_flow e c g in
                if \<not> IsOk st then Some (Inl st)
                else
                  (case map_of ensembles1 e of
                     None \<Rightarrow> None
                   | Some _ \<Rightarrow> Some (Inr (AList.update e True ensembles1))))))"
| "validate_steps cm invalid dependency ensembles e c [] g = Some (Inr (ensembles, g))"
| "validate_steps cm invalid dependency ensembles e c (s # ss) g =
     (let m = es_model_name s in
      case map_of invalid m of
        Some why \<Rightarrow>
          Some (Inl (Status INVALID_ARG (''ensemble '' @ e @ '' contains invalid model '' @ m @ '' : '' @ why)))
      | None \<Rightarrow>
          (case map_of cm m of
             None \<Rightarrow>
               Some (Inl (Status INVALID_ARG (''ensemble '' @ e @ '' contains model '' @ m @
                 '' which is not in the available models'')))
           | Some mc \<Rightarrow>
               (if mc_max_batch_size mc < mc_max_batch_size c then
                  Some (Inl (Status INVALID_ARG (''ensemble '' @ e @ '' allows maximum batch size '' @
                    show_int (mc_max_batch_size c) @ '', but it contains model '' @ m @
                    '' which only allows  maximum batch size to be '' @ show_int (mc_max_batch_size mc))))
                else if get_ensemble_scheduling mc \<noteq> None \<and> m \<in> set dependency then
                  Some (Inl (Status INVALID_ARG (''circular dependency between ensembles: '' @ m @ '' -> ... -> '' @
                    e @ '' -> '' @ m)))
                else
                  (case (if get_ensemble_scheduling mc = None then Some (Inr ensembles)
                         else
                           (case map_of ensembles m of
                              None \<Rightarrow> None
                            | Some validated \<Rightarrow>
                                if validated then Some (Inr ensembles)
                                else validate_ensemble cm invalid (dependency @ [e]) ensembles m)) of
                     None \<Rightarrow> None
                   | Some (Inl st) \<Rightarrow> Some (Inl st)
                   | Some (Inr ensembles1) \<Rightarrow>
                       (case place_step e s mc g of
                          Inl st \<Rightarrow> Some (Inl st)
                        | Inr g1 \<Rightarrow> validate_steps cm invalid dependency ensembles1 e c ss g1)))))"
  by pat_completeness auto
termination
  by (relation "inv_image (less_than <*lex*> less_than) (\<lambda>x. case x of
        Inl (cm, invalid, dependency, ensembles, e) \<Rightarrow> (nesting cm dependency e, Suc (length (case map_of cm e of None \<Rightarrow> [] | Some c \<Rightarrow> ensemble_steps c)))
      | Inr (cm, invalid, dependency, ensembles, e, c, ss, g) \<Rightarrow> (nesting cm dependency e, length ss))")
    (auto intro: nesting_decreases)

declare validate_ensemble.simps [simp del] validate_steps.simps(2) [simp del]

section \<open>All ensembles\<close>

fun classify_models ::
  "cuda_result \<Rightarrow> (string \<times> model_config) list \<Rightarrow> (string \<times> string) list \<Rightarrow> (string \<times> bool) list \<Rightarrow>
   status + (string \<times> string) list \<times> (string \<times> bool) list" where
  "classify_models cuda [] invalid ensembles = Inr (invalid, ensembles)"
| "classify_models cuda ((n, c) # cm) invalid ensembles =
     (let st = ValidateModelConfig cuda c [] in
      if \<not> IsOk st then
        (if get_ensemble_scheduling c \<noteq> None then
           Inl (Status INVALID_ARG (''ensemble'' @ n @ '': '' @ st_msg st))
         else classify_models cuda cm (emplace n (st_msg st) invalid) ensembles)
      else if get_ensemble_scheduling c \<noteq> None then classify_models cuda cm invalid (emplace n False ensembles)
      else classify_models cuda cm invalid ensembles)"

fun validate_all ::
  "(string \<times> model_config) list \<Rightarrow> (string \<times> string) list \<Rightarrow> string list \<Rightarrow> (string \<times> bool) list \<Rightarrow> status option" where
  "validate_all cm invalid [] ensembles = Some Status_Success"
| "validate_all cm invalid (n # ns) ensembles =
     (if map_of ensembles n = Some True then validate_all cm invalid ns ensembles
      else
        (case validate_ensemble cm invalid [] ensembles n of
           None \<Rightarrow> None
         | Some (Inl st) \<Rightarrow> Some st
         | Some (Inr ensembles1) \<Rightarrow> validate_all cm invalid ns ensembles1))"

definition ValidateEnsembleConfig :: "cuda_result \<Rightarrow> (string \<times> model_config) list \<Rightarrow> status option" where
  "ValidateEnsembleConfig cuda config_map =
     (case classify_models cuda config_map [] [] of
        Inl st \<Rightarrow> Some st
      | Inr (invalid, ensembles) \<Rightarrow> validate_all config_map invalid (map fst ensembles) ensembles)"

end
