(* ===== verification/Ensemble_Types.thy ===== *)
theory Ensemble_Types
  imports Ensemble_Utils
begin

text \<open>
  What \<open>ValidateEnsembleConfig\<close> (\<open>src/core/ensemble_utils.cc\<close>) establishes: every ensemble of the set is
  well typed, at every level of nesting.
\<close>

section \<open>Well-typed ensembles\<close>

type_synonym tensor_type = "data_type \<times> int list"

definition input_type :: "model_input \<Rightarrow> tensor_type" where
  "input_type i = (mi_data_type i, mi_dims i)"

definition output_type :: "model_output \<Rightarrow> tensor_type" where
  "output_type out = (mo_data_type out, mo_dims out)"

text \<open>The tensors an ensemble declares; the first declaration of a name counts.\<close>

definition declared_types :: "model_config \<Rightarrow> string \<rightharpoonup> tensor_type" where
  "declared_types c =
     map_of (map (\<lambda>i. (mi_name i, input_type i)) (mc_input c) @ map (\<lambda>out. (mo_name out, output_type out)) (mc_output c))"

text \<open>
  A step uses the tensors at the types of its model: every input of the model reads exactly one
  tensor, what is mapped is an input or an output of the model, and the types agree.
\<close>

definition step_typed :: "(string \<rightharpoonup> tensor_type) \<Rightarrow> ensemble_step \<Rightarrow> model_config \<Rightarrow> bool" where
  "step_typed \<tau> s mc \<longleftrightarrow>
     fst ` set (es_input_map s) \<subseteq> mi_name ` set (mc_input mc) \<and>
     (\<forall>i \<in> set (mc_input mc). length (filter (\<lambda>(k, t). k = mi_name i) (es_input_map s)) = 1 \<and>
        (\<forall>t. (mi_name i, t) \<in> set (es_input_map s) \<longrightarrow> \<tau> t = Some (input_type i))) \<and>
     fst ` set (es_output_map s) \<subseteq> mo_name ` set (mc_output mc) \<and>
     (\<forall>out \<in> set (mc_output mc). \<forall>t. (mo_name out, t) \<in> set (es_output_map s) \<longrightarrow> \<tau> t = Some (output_type out))"

inductive well_typed :: "cuda_result \<Rightarrow> (string \<times> model_config) list \<Rightarrow> string \<Rightarrow> bool" for cuda cm where
  ensemble: "map_of cm n = Some c \<Longrightarrow> declared_types c \<subseteq>\<^sub>m \<tau> \<Longrightarrow>
    (\<And>s. s \<in> set (ensemble_steps c) \<Longrightarrow>
       \<exists>mc. map_of cm (es_model_name s) = Some mc \<and> IsOk (ValidateModelConfig cuda mc []) \<and>
         mc_max_batch_size c \<le> mc_max_batch_size mc \<and> step_typed \<tau> s mc \<and>
         (get_ensemble_scheduling mc \<noteq> None \<longrightarrow> well_typed cuda cm (es_model_name s))) \<Longrightarrow>
    well_typed cuda cm n"

inductive_cases well_typedE: "well_typed cuda cm n"

definition contains :: "(string \<times> model_config) list \<Rightarrow> string \<Rightarrow> string \<Rightarrow> bool" where
  "contains cm m n \<longleftrightarrow> (\<exists>c. map_of cm n = Some c \<and> m \<in> es_model_name ` set (ensemble_steps c))"

text \<open>A well-typed ensemble does not contain itself, at any depth.\<close>

lemma well_typed_acyclic: "well_typed cuda cm n \<Longrightarrow> \<not> (contains cm)\<^sup>+\<^sup>+ n n"
proof (induction rule: well_typed.induct)
  case (ensemble n c \<tau>)
  show ?case
  proof
    assume cycle: "(contains cm)\<^sup>+\<^sup>+ n n"
    then obtain m where m: "contains cm m n" "(contains cm)\<^sup>*\<^sup>* n m"
      by cases (auto dest: tranclp_into_rtranclp)
    then have loop: "(contains cm)\<^sup>+\<^sup>+ m m"
      by (rule rtranclp_into_tranclp2)
    obtain s where s: "s \<in> set (ensemble_steps c)" "es_model_name s = m"
      using m(1) ensemble.hyps(1) by (auto simp: contains_def)
    then obtain mc where mc: "map_of cm m = Some mc" "get_ensemble_scheduling mc \<noteq> None \<longrightarrow> \<not> (contains cm)\<^sup>+\<^sup>+ m m"
      using ensemble.IH by blast
    obtain k where "contains cm k m"
      using loop by cases auto
    then have "get_ensemble_scheduling mc \<noteq> None"
      using mc(1) by (cases "get_ensemble_scheduling mc")
        (auto simp: contains_def ensemble_steps_def simp del: get_ensemble_scheduling.simps)
    then show False
      using mc(2) loop by blast
  qed
qed

section \<open>The types of the nodes\<close>

definition node_type :: "tensor_node \<Rightarrow> tensor_type" where
  "node_type v = (tn_type v, tn_dims v)"

definition typing :: "tensor_map \<Rightarrow> string \<rightharpoonup> tensor_type" where
  "typing g n = map_option node_type (map_of g n)"

lemma map_le_keeps: "f \<subseteq>\<^sub>m g \<Longrightarrow> f k = Some v \<Longrightarrow> g k = Some v"
  by (auto simp: map_le_def dom_def)

lemma ValidateTensorConsistency_ok: "IsOk (ValidateTensorConsistency l r msg) \<longleftrightarrow> node_type l = node_type r"
proof -
  have same: "tn_dims l = tn_dims r \<longleftrightarrow> length (tn_dims l) = length (tn_dims r) \<and>
      list_all (\<lambda>i. tn_dims l ! i = tn_dims r ! i) [0..<length (tn_dims l)]"
    unfolding list_all_iff by (auto intro: nth_equalityI)
  show ?thesis
    unfolding ValidateTensorConsistency_def same [symmetric] by (simp add: node_type_def)
qed

lemma place_tensor_typing:
  "place_tensor ensemble t node g = Inr g1 \<Longrightarrow> typing g \<subseteq>\<^sub>m typing g1 \<and> typing g1 t = Some (node_type node)"
  by (auto simp: place_tensor_def typing_def map_le_def ValidateTensorConsistency_ok status_simps map_add_def
      split: option.splits)

lemma place_input_typing:
  "place_input ensemble s i im k g = Inr (k1, g1) \<Longrightarrow>
   typing g \<subseteq>\<^sub>m typing g1 \<and> k1 = k + length (filter (\<lambda>(n, t). n = mi_name i) im) \<and>
   (\<forall>t. (mi_name i, t) \<in> set im \<longrightarrow> typing g1 t = Some (input_type i))"
proof (induction im arbitrary: k g)
  case (Cons a im)
  obtain n t where a: "a = (n, t)" by force
  show ?case
  proof (cases "mi_name i = n")
    case True
    then obtain g0 where g0: "place_tensor ensemble t (TensorNode (es_model_name s) (mi_data_type i) (mi_dims i)) g = Inr g0"
      "place_input ensemble s i im (k + 1) g0 = Inr (k1, g1)"
      using Cons.prems by (auto simp: a bind_status_Inr)
    have "typing g0 t = Some (input_type i)" "typing g \<subseteq>\<^sub>m typing g0"
      using place_tensor_typing [OF g0(1)] by (simp_all add: node_type_def TensorNode_def input_type_def)
    then show ?thesis
      using Cons.IH [OF g0(2)] True by (auto simp: a intro: map_le_trans dest: map_le_keeps)
  next
    case False
    then show ?thesis
      using Cons by (simp add: a)
  qed
qed simp

lemma place_inputs_typing:
  "place_inputs ensemble s mc inps g = Inr g1 \<Longrightarrow>
   typing g \<subseteq>\<^sub>m typing g1 \<and>
   (\<forall>i \<in> set inps. length (filter (\<lambda>(k, t). k = mi_name i) (es_input_map s)) = 1 \<and>
      (\<forall>t. (mi_name i, t) \<in> set (es_input_map s) \<longrightarrow> typing g1 t = Some (input_type i)))"
proof (induction inps arbitrary: g)
  case (Cons i inps)
  obtain k g0 where g0: "place_input ensemble s i (es_input_map s) 0 g = Inr (k, g0)" "k = 1"
    "place_inputs ensemble s mc inps g0 = Inr g1"
    using Cons.prems by (auto simp: bind_status_Inr split: if_splits)
  then show ?case
    using place_input_typing [OF g0(1)] Cons.IH [OF g0(3)] by (auto intro: map_le_trans dest: map_le_keeps)
qed simp

lemma place_output_typing:
  "place_output ensemble s n t outs k g = Inr (k1, g1) \<Longrightarrow>
   typing g \<subseteq>\<^sub>m typing g1 \<and> (\<forall>out \<in> set outs. mo_name out = n \<longrightarrow> typing g1 t = Some (output_type out))"
proof (induction outs arbitrary: k g)
  case (Cons out outs)
  show ?case
  proof (cases "mo_name out = n")
    case True
    then obtain g0 where g0: "place_tensor ensemble t (TensorNode (es_model_name s) (mo_data_type out) (mo_dims out)) g = Inr g0"
      "place_output ensemble s n t outs (k + 1) g0 = Inr (k1, g1)"
      using Cons.prems by (auto simp: bind_status_Inr)
    have "typing g0 t = Some (output_type out)" "typing g \<subseteq>\<^sub>m typing g0"
      using place_tensor_typing [OF g0(1)] by (simp_all add: node_type_def TensorNode_def output_type_def)
    then show ?thesis
      using Cons.IH [OF g0(2)] True by (auto intro: map_le_trans dest: map_le_keeps)
  next
    case False
    then show ?thesis
      using Cons by auto
  qed
qed simp

lemma place_outputs_typing:
  "place_outputs ensemble s mc om g = Inr g1 \<Longrightarrow>
   typing g \<subseteq>\<^sub>m typing g1 \<and>
   (\<forall>out \<in> set (mc_output mc). \<forall>t. (mo_name out, t) \<in> set om \<longrightarrow> typing g1 t = Some (output_type out))"
proof (induction om arbitrary: g)
  case (Cons a om)
  obtain n t where a: "a = (n, t)" by force
  obtain k g0 where g0: "place_output ensemble s n t (mc_output mc) 0 g = Inr (k, g0)"
    "place_outputs ensemble s mc om g0 = Inr g1"
    using Cons.prems by (auto simp: a bind_status_Inr split: if_splits)
  then show ?case
    using place_output_typing [OF g0(1)] Cons.IH [OF g0(2)] by (auto simp: a intro: map_le_trans dest: map_le_keeps)
qed simp

lemma typing_link: "typing (link_nodes out inp g) = typing g"
  by (rule ext) (auto simp: typing_def link_nodes_def map_of_map_entry node_type_def option.map_comp
      intro!: arg_cong [of _ _ "\<lambda>f. map_option f _"])

lemma typing_fold_links: "typing (foldl (\<lambda>g (k, inp). link_nodes out inp g) g im) = typing g"
  by (induction im arbitrary: g) (auto simp: typing_link)

lemma typing_link_step [simp]: "typing (link_step s g) = typing g"
proof -
  have "typing (foldl (\<lambda>g (ko, out). foldl (\<lambda>g (ki, inp). link_nodes out inp g) g (es_input_map s)) g om) = typing g" for om
    by (induction om arbitrary: g) (auto simp: typing_fold_links)
  then show ?thesis
    by (simp add: link_step_def)
qed

lemma check_mapped_inputs_ok: "IsOk (check_mapped_inputs ensemble s names im) \<longleftrightarrow> fst ` set im \<subseteq> set names"
  by (induction im) (auto split: if_splits)

lemma check_mapped_outputs_ok: "IsOk (check_mapped_outputs ensemble s names om) \<longleftrightarrow> fst ` set om \<subseteq> set names"
  by (induction om) (auto split: if_splits)

lemma place_step_typed:
  assumes "place_step ensemble s mc g = Inr g1"
  shows "typing g \<subseteq>\<^sub>m typing g1 \<and> step_typed (typing g1) s mc"
proof -
  obtain g0 g2 where g: "place_inputs ensemble s mc (mc_input mc) g = Inr g0"
    "place_outputs ensemble s mc (es_output_map s) g0 = Inr g2" "g1 = link_step s g2"
    "IsOk (check_mapped_inputs ensemble s (map mi_name (mc_input mc)) (es_input_map s))"
    "IsOk (check_mapped_outputs ensemble s (map mo_name (mc_output mc)) (es_output_map s))"
    using assms by (auto simp: place_step_def status_simps)
  have le: "typing g0 \<subseteq>\<^sub>m typing g2"
    using place_outputs_typing [OF g(2)] by blast
  show ?thesis
    using place_inputs_typing [OF g(1)] place_outputs_typing [OF g(2)] g(4,5) map_le_keeps [OF le]
    by (auto simp: g(3) step_typed_def check_mapped_inputs_ok check_mapped_outputs_ok intro: map_le_trans)
qed

section \<open>An accepted ensemble is well typed\<close>

lemma typing_emplace: "typing (emplace k v g) = typing g ++ (if typing g k = None then [k \<mapsto> node_type v] else Map.empty)"
  by (rule ext) (auto simp: emplace_def typing_def map_add_def split: option.splits)

lemma typing_emplace_all:
  "typing (foldl (\<lambda>g x. emplace (name x) (TensorNode e (ty x) (ds x)) g) g xs) =
   map_of (map (\<lambda>x. (name x, (ty x, ds x))) xs) ++ typing g"
proof (induction xs arbitrary: g)
  case (Cons x xs)
  have step: "typing (emplace (name x) (TensorNode e (ty x) (ds x)) g) = [name x \<mapsto> (ty x, ds x)] ++ typing g"
    unfolding typing_emplace by (rule ext) (auto simp: map_add_def node_type_def TensorNode_def split: option.splits)
  show ?case
    unfolding foldl_Cons Cons.IH step list.map by (rule ext) (simp add: map_add_def split: option.split)
qed simp

lemma typing_ensemble_nodes: "typing (ensemble_nodes e c) = declared_types c"
proof -
  have "typing [] = Map.empty"
    by (rule ext) (simp add: typing_def)
  then show ?thesis
    by (simp add: ensemble_nodes_def typing_emplace_all declared_types_def input_type_def output_type_def)
qed

text \<open>
  The models a step may use. \<open>all_typed\<close> says that the ensembles that are marked as validated are
  well typed; \<open>not_invalid\<close> that every model that is not in the map of the invalid ones is valid.
\<close>

definition all_typed :: "cuda_result \<Rightarrow> (string \<times> model_config) list \<Rightarrow> (string \<times> bool) list \<Rightarrow> bool" where
  "all_typed cuda cm ensembles \<longleftrightarrow> (\<forall>n. map_of ensembles n = Some True \<longrightarrow> well_typed cuda cm n)"

definition not_invalid :: "cuda_result \<Rightarrow> (string \<times> model_config) list \<Rightarrow> (string \<times> string) list \<Rightarrow> bool" where
  "not_invalid cuda cm invalid \<longleftrightarrow>
     (\<forall>n c. map_of cm n = Some c \<and> map_of invalid n = None \<longrightarrow> IsOk (ValidateModelConfig cuda c []))"

definition step_sound ::
  "cuda_result \<Rightarrow> (string \<times> model_config) list \<Rightarrow> model_config \<Rightarrow> (string \<rightharpoonup> tensor_type) \<Rightarrow> ensemble_step \<Rightarrow> bool" where
  "step_sound cuda cm c \<tau> s \<longleftrightarrow>
     (\<exists>mc. map_of cm (es_model_name s) = Some mc \<and> IsOk (ValidateModelConfig cuda mc []) \<and>
        mc_max_batch_size c \<le> mc_max_batch_size mc \<and> step_typed \<tau> s mc \<and>
        (get_ensemble_scheduling mc \<noteq> None \<longrightarrow> well_typed cuda cm (es_model_name s)))"

lemma step_typed_mono:
  assumes "step_typed \<tau> s mc" and "\<tau> \<subseteq>\<^sub>m \<tau>'"
  shows "step_typed \<tau>' s mc"
  using assms(1) unfolding step_typed_def by (auto intro: map_le_keeps [OF assms(2)])

lemma step_sound_mono: "step_sound cuda cm c \<tau> s \<Longrightarrow> \<tau> \<subseteq>\<^sub>m \<tau>' \<Longrightarrow> step_sound cuda cm c \<tau>' s"
  unfolding step_sound_def using step_typed_mono by blast

lemma step_result:
  assumes "validate_steps cm invalid dependency ensembles e c (s # ss) g = Some (Inr (ensembles2, g2))"
  obtains mc ensembles1 g1 where "map_of invalid (es_model_name s) = None" "map_of cm (es_model_name s) = Some mc"
    "mc_max_batch_size c \<le> mc_max_batch_size mc"
    "get_ensemble_scheduling mc = None \<and> ensembles1 = ensembles \<or>
     get_ensemble_scheduling mc \<noteq> None \<and> es_model_name s \<notin> set dependency \<and>
       (map_of ensembles (es_model_name s) = Some True \<and> ensembles1 = ensembles \<or>
        map_of ensembles (es_model_name s) = Some False \<and>
        validate_ensemble cm invalid (dependency @ [e]) ensembles (es_model_name s) = Some (Inr ensembles1))"
    "place_step e s mc g = Inr g1" "validate_steps cm invalid dependency ensembles1 e c ss g1 = Some (Inr (ensembles2, g2))"
proof -
  let ?m = "es_model_name s"
  have invalid: "map_of invalid ?m = None"
    using assms by (cases "map_of invalid ?m") (simp_all add: validate_steps.simps(2) Let_def)
  obtain mc where cm: "map_of cm ?m = Some mc"
    using assms invalid by (cases "map_of cm ?m") (simp_all add: validate_steps.simps(2) Let_def)
  have batch: "\<not> mc_max_batch_size mc < mc_max_batch_size c" and fresh: "\<not> (get_ensemble_scheduling mc \<noteq> None \<and> ?m \<in> set dependency)"
    using assms unfolding validate_steps.simps(2) Let_def invalid cm option.case
    by (auto simp del: get_ensemble_scheduling.simps split: if_splits)
  let ?sub = "if get_ensemble_scheduling mc = None then Some (Inr ensembles)
     else (case map_of ensembles ?m of None \<Rightarrow> None
       | Some validated \<Rightarrow> if validated then Some (Inr ensembles) else validate_ensemble cm invalid (dependency @ [e]) ensembles ?m)"
  have rest: "(case ?sub of None \<Rightarrow> None | Some (Inl st) \<Rightarrow> Some (Inl st)
      | Some (Inr ensembles1) \<Rightarrow>
          (case place_step e s mc g of Inl st \<Rightarrow> Some (Inl st)
           | Inr g1 \<Rightarrow> validate_steps cm invalid dependency ensembles1 e c ss g1)) = Some (Inr (ensembles2, g2))"
    using assms unfolding validate_steps.simps(2) Let_def invalid cm option.case if_not_P [OF batch] if_not_P [OF fresh] .
  then obtain ensembles1 where sub: "?sub = Some (Inr ensembles1)"
    by (cases ?sub) (auto split: sum.splits)
  moreover obtain g1 where "place_step e s mc g = Inr g1"
    "validate_steps cm invalid dependency ensembles1 e c ss g1 = Some (Inr (ensembles2, g2))"
    using rest unfolding sub by (cases "place_step e s mc g") auto
  moreover have "get_ensemble_scheduling mc = None \<and> ensembles1 = ensembles \<or>
     get_ensemble_scheduling mc \<noteq> None \<and> ?m \<notin> set dependency \<and>
       (map_of ensembles ?m = Some True \<and> ensembles1 = ensembles \<or>
        map_of ensembles ?m = Some False \<and> validate_ensemble cm invalid (dependency @ [e]) ensembles ?m = Some (Inr ensembles1))"
    using sub fresh by (auto simp del: get_ensemble_scheduling.simps split: if_splits option.splits)
  ultimately show ?thesis
    using that invalid cm batch by (simp only: not_less)
qed

lemma validated_typed:
  "validate_ensemble cm invalid dependency ensembles e = Some (Inr ensembles1) \<Longrightarrow> not_invalid cuda cm invalid \<Longrightarrow>
   all_typed cuda cm ensembles \<Longrightarrow> all_typed cuda cm ensembles1 \<and> well_typed cuda cm e"
  "validate_steps cm invalid dependency ensembles e c ss g = Some (Inr (ensembles1, g1)) \<Longrightarrow> not_invalid cuda cm invalid \<Longrightarrow>
   all_typed cuda cm ensembles \<Longrightarrow>
   all_typed cuda cm ensembles1 \<and> typing g \<subseteq>\<^sub>m typing g1 \<and> (\<forall>s \<in> set ss. step_sound cuda cm c (typing g1) s)"
proof (induction cm invalid dependency ensembles e and cm invalid dependency ensembles e c ss g
    arbitrary: ensembles1 and ensembles1 g1 rule: validate_ensemble_validate_steps.induct)
  case (1 cm invalid dependency ensembles e)
  obtain c ens g where c: "map_of cm e = Some c"
    and steps: "validate_steps cm invalid dependency ensembles e c (ensemble_steps c) (ensemble_nodes e c) = Some (Inr (ens, g))"
    and e1: "ensembles1 = AList.update e True ens"
    using "1.prems"(1) by (subst (asm) validate_ensemble.simps) (auto simp: Let_def split: option.splits sum.splits if_splits)
  have typed: "all_typed cuda cm ens" "typing (ensemble_nodes e c) \<subseteq>\<^sub>m typing g" "\<forall>s \<in> set (ensemble_steps c). step_sound cuda cm c (typing g) s"
    using "1.IH" [OF c steps "1.prems"(2,3)] by blast+
  have "well_typed cuda cm e"
    using c typed(2,3) unfolding typing_ensemble_nodes step_sound_def by (intro well_typed.ensemble) auto
  then show ?case
    using typed(1) by (auto simp: all_typed_def e1 update_conv')
next
  case (2 cm invalid dependency ensembles e c g)
  then show ?case by simp
next
  case (3 cm invalid dependency ensembles e c s ss g)
  obtain mc ens g0 where s: "map_of invalid (es_model_name s) = None" "map_of cm (es_model_name s) = Some mc"
    "mc_max_batch_size c \<le> mc_max_batch_size mc" and sub: "get_ensemble_scheduling mc = None \<and> ens = ensembles \<or>
     get_ensemble_scheduling mc \<noteq> None \<and> es_model_name s \<notin> set dependency \<and>
       (map_of ensembles (es_model_name s) = Some True \<and> ens = ensembles \<or>
        map_of ensembles (es_model_name s) = Some False \<and>
        validate_ensemble cm invalid (dependency @ [e]) ensembles (es_model_name s) = Some (Inr ens))"
    and place: "place_step e s mc g = Inr g0" and rest: "validate_steps cm invalid dependency ens e c ss g0 = Some (Inr (ensembles1, g1))"
    using step_result [OF "3.prems"(1)] by metis
  have ens: "all_typed cuda cm ens \<and> (get_ensemble_scheduling mc \<noteq> None \<longrightarrow> well_typed cuda cm (es_model_name s))"
    using sub
  proof (elim disjE conjE)
    assume "validate_ensemble cm invalid (dependency @ [e]) ensembles (es_model_name s) = Some (Inr ens)"
      "es_model_name s \<notin> set dependency" "map_of ensembles (es_model_name s) = Some False" "get_ensemble_scheduling mc \<noteq> None"
    then show ?thesis
      using "3.IH"(1) [OF refl s(1,2)] s(3) "3.prems"(2,3) by auto
  qed (use "3.prems"(3) in \<open>auto simp: all_typed_def\<close>)
  have "all_typed cuda cm ensembles1 \<and> typing g0 \<subseteq>\<^sub>m typing g1 \<and> (\<forall>s \<in> set ss. step_sound cuda cm c (typing g1) s)"
    using "3.IH"(2) [OF refl s(1,2)] s(3) sub rest place "3.prems"(2) ens by auto
  moreover have "IsOk (ValidateModelConfig cuda mc [])"
    using "3.prems"(2) s(1,2) by (auto simp: not_invalid_def)
  ultimately show ?case
    using place_step_typed [OF place] s ens step_typed_mono by (auto simp: step_sound_def intro: map_le_trans)
qed

section \<open>The validation is defined\<close>

text \<open>
  Every lookup finds its name as long as the map of the ensembles has all ensembles; errors are
  errors.
\<close>

definition covers :: "(string \<times> model_config) list \<Rightarrow> (string \<times> bool) list \<Rightarrow> bool" where
  "covers cm ensembles \<longleftrightarrow>
     (\<forall>n c. map_of cm n = Some c \<and> get_ensemble_scheduling c \<noteq> None \<longrightarrow> n \<in> keys ensembles)"

lemma covers_mono: "covers cm ensembles \<Longrightarrow> keys ensembles \<subseteq> keys ensembles1 \<Longrightarrow> covers cm ensembles1"
  unfolding covers_def by blast

lemma keys_update: "keys (AList.update k v m) = insert k (keys m)"
  using dom_update [of k v m] by (simp add: keys_def dom_map_of_conv_image_fst)

lemma place_tensor_error: "place_tensor ensemble t node g = Inl st \<Longrightarrow> \<not> IsOk st"
  by (auto simp: place_tensor_def return_if_error_val_def IsOk_def split: option.splits if_splits)

lemma place_input_error: "place_input ensemble s i im k g = Inl st \<Longrightarrow> \<not> IsOk st"
  by (induction ensemble s i im k g rule: place_input.induct)
    (auto simp: bind_status_def split: if_splits sum.splits dest: place_tensor_error)

lemma place_inputs_error: "place_inputs ensemble s mc inps g = Inl st \<Longrightarrow> \<not> IsOk st"
  by (induction ensemble s mc inps g rule: place_inputs.induct)
    (auto simp: bind_status_def split: if_splits sum.splits dest: place_input_error)

lemma place_output_error: "place_output ensemble s n t outs k g = Inl st \<Longrightarrow> \<not> IsOk st"
  by (induction ensemble s n t outs k g rule: place_output.induct)
    (auto simp: bind_status_def split: if_splits sum.splits dest: place_tensor_error)

lemma place_outputs_error: "place_outputs ensemble s mc om g = Inl st \<Longrightarrow> \<not> IsOk st"
  by (induction ensemble s mc om g rule: place_outputs.induct)
    (auto simp: bind_status_def split: if_splits sum.splits dest: place_output_error)

lemma place_step_error: "place_step ensemble s mc g = Inl st \<Longrightarrow> \<not> IsOk st"
  by (auto simp: place_step_def bind_status_def return_if_error_val_def IsOk_def [symmetric] split: if_splits sum.splits
      dest: place_inputs_error place_outputs_error)

lemma result_cases:
  assumes "case x of None \<Rightarrow> False | Some (Inl st) \<Rightarrow> P st | Some (Inr v) \<Rightarrow> Q v"
  obtains st where "x = Some (Inl st)" "P st" | v where "x = Some (Inr v)" "Q v"
  using assms by (auto split: option.splits sum.splits)

lemma validation_defined:
  "map_of cm e \<noteq> None \<Longrightarrow> e \<in> keys ensembles \<Longrightarrow> covers cm ensembles \<Longrightarrow>
   (case validate_ensemble cm invalid dependency ensembles e of None \<Rightarrow> False
    | Some (Inl st) \<Rightarrow> \<not> IsOk st | Some (Inr ensembles1) \<Rightarrow> keys ensembles \<subseteq> keys ensembles1)"
  "covers cm ensembles \<Longrightarrow>
   (case validate_steps cm invalid dependency ensembles e c ss g of None \<Rightarrow> False
    | Some (Inl st) \<Rightarrow> \<not> IsOk st | Some (Inr (ensembles1, g1)) \<Rightarrow> keys ensembles \<subseteq> keys ensembles1)"
proof (induction cm invalid dependency ensembles e and cm invalid dependency ensembles e c ss g
    rule: validate_ensemble_validate_steps.induct)
  case (1 cm invalid dependency ensembles e)
  then obtain c where c: "map_of cm e = Some c"
    by blast
  show ?case
    using "1.IH" [OF c "1.prems"(3)] "1.prems"(2) unfolding validate_ensemble.simps [of cm] c
    by (auto simp: Let_def map_of_keys keys_update split: option.splits sum.splits)
next
  case (2 cm invalid dependency ensembles e c g)
  then show ?case by simp
next
  case (3 cm invalid dependency ensembles e c s ss g)
  let ?m = "es_model_name s"
  show ?case
  proof (cases "map_of invalid ?m")
    case (Some why)
    then show ?thesis by (simp add: validate_steps.simps(2) Let_def)
  next
    case invalid: None
    show ?thesis
    proof (cases "map_of cm ?m")
      case None
      then show ?thesis by (simp add: validate_steps.simps(2) Let_def invalid)
    next
      case cm: (Some mc)
      show ?thesis
      proof (cases "mc_max_batch_size mc < mc_max_batch_size c \<or> get_ensemble_scheduling mc \<noteq> None \<and> ?m \<in> set dependency")
        case True
        then show ?thesis
          unfolding validate_steps.simps(2) Let_def invalid cm option.case by (auto simp del: get_ensemble_scheduling.simps)
      next
        case False
        then have batch: "\<not> mc_max_batch_size mc < mc_max_batch_size c"
          and fresh: "\<not> (get_ensemble_scheduling mc \<noteq> None \<and> ?m \<in> set dependency)"
          by simp_all
        let ?sub = "if get_ensemble_scheduling mc = None then Some (Inr ensembles)
          else (case map_of ensembles ?m of None \<Rightarrow> None
            | Some validated \<Rightarrow> if validated then Some (Inr ensembles) else validate_ensemble cm invalid (dependency @ [e]) ensembles ?m)"
        have sub: "case ?sub of None \<Rightarrow> False | Some (Inl st) \<Rightarrow> \<not> IsOk st | Some (Inr ensembles1) \<Rightarrow> keys ensembles \<subseteq> keys ensembles1"
        proof (cases "get_ensemble_scheduling mc = None")
          case False
          then have "?m \<in> keys ensembles"
            using "3.prems" cm unfolding covers_def by blast
          then obtain b where b: "map_of ensembles ?m = Some b"
            unfolding keys_iff by blast
          show ?thesis
            using "3.IH"(1) [OF refl invalid cm batch fresh False b] "3.prems" \<open>?m \<in> keys ensembles\<close> False b cm by simp
        qed simp
        have next_step: "case validate_steps cm invalid dependency ensembles1 e c ss g1 of None \<Rightarrow> False
            | Some (Inl st) \<Rightarrow> \<not> IsOk st | Some (Inr (ensembles2, g2)) \<Rightarrow> keys ensembles \<subseteq> keys ensembles2"
          if "?sub = Some (Inr ensembles1)" "place_step e s mc g = Inr g1" for ensembles1 g1
        proof -
          have "keys ensembles \<subseteq> keys ensembles1"
            using sub unfolding that(1) by simp
          then show ?thesis
            using "3.IH"(2) [OF refl invalid cm batch fresh that(1) refl that(2) covers_mono [OF "3.prems"]]
            by (auto split: option.splits sum.splits)
        qed
        show ?thesis
          unfolding validate_steps.simps(2) Let_def invalid cm option.case if_not_P [OF batch] if_not_P [OF fresh]
        proof (rule result_cases [OF sub])
          fix ensembles1 assume ens: "?sub = Some (Inr ensembles1)"
          show "case (case ?sub of None \<Rightarrow> None | Some (Inl st) \<Rightarrow> Some (Inl st)
              | Some (Inr ensembles1) \<Rightarrow>
                  (case place_step e s mc g of Inl st \<Rightarrow> Some (Inl st)
                   | Inr g1 \<Rightarrow> validate_steps cm invalid dependency ensembles1 e c ss g1))
            of None \<Rightarrow> False | Some (Inl st) \<Rightarrow> \<not> IsOk st | Some (Inr (ensembles1, g1)) \<Rightarrow> keys ensembles \<subseteq> keys ensembles1"
          proof (cases "place_step e s mc g")
            case (Inl st)
            show ?thesis
              unfolding ens Inl option.case sum.case using Inl by (rule place_step_error)
          next
            case (Inr g1)
            show ?thesis
              unfolding ens Inr option.case sum.case by (rule next_step [OF ens Inr])
          qed
        qed simp
      qed
    qed
  qed
qed

section \<open>All ensembles of a set\<close>

lemma keys_emplace [simp]: "keys (emplace k v m) = insert k (keys m)"
  by (auto simp: emplace_def keys_iff split: option.split)

lemma emplace_false: "map_of (emplace k False m) n = Some True \<longleftrightarrow> map_of m n = Some True"
  by (auto simp: emplace_def map_add_def split: option.splits)

lemma classified:
  assumes "classify_models cuda cm invalid ensembles = Inr (invalid1, ensembles1)"
  shows "keys invalid \<subseteq> keys invalid1 \<and> keys ensembles \<subseteq> keys ensembles1 \<and>
    (\<forall>(n, c) \<in> set cm. (IsOk (ValidateModelConfig cuda c []) \<or> n \<in> keys invalid1) \<and>
       (get_ensemble_scheduling c \<noteq> None \<longrightarrow> n \<in> keys ensembles1)) \<and>
    keys ensembles1 \<subseteq> keys ensembles \<union> keys cm \<and>
    (\<forall>n. map_of ensembles1 n = Some True \<longleftrightarrow> map_of ensembles n = Some True)"
  using assms
proof (induction cm arbitrary: invalid ensembles)
  case (Cons a cm)
  obtain n c where a: "a = (n, c)" by force
  show ?case
  proof (cases "IsOk (ValidateModelConfig cuda c [])")
    case True
    then show ?thesis
      using Cons.prems Cons.IH [of invalid "emplace n False ensembles"] Cons.IH [of invalid ensembles]
      by (cases "get_ensemble_scheduling c = None")
        (auto simp: a Let_def emplace_false simp del: get_ensemble_scheduling.simps)
  next
    case False
    then show ?thesis
      using Cons.prems Cons.IH [of "emplace n (st_msg (ValidateModelConfig cuda c [])) invalid" ensembles]
      by (cases "get_ensemble_scheduling c = None")
        (auto simp: a Let_def simp del: get_ensemble_scheduling.simps)
  qed
qed simp

lemma classify_error: "classify_models cuda cm invalid ensembles = Inl st \<Longrightarrow> \<not> IsOk st"
  by (induction cuda cm invalid ensembles rule: classify_models.induct)
    (auto simp: Let_def simp del: get_ensemble_scheduling.simps split: if_splits)

lemma all_validated:
  assumes "not_invalid cuda cm invalid" and "all_typed cuda cm ensembles" and "covers cm ensembles"
    and "set ns \<subseteq> keys cm \<inter> keys ensembles"
  shows "\<exists>st. validate_all cm invalid ns ensembles = Some st \<and> (IsOk st \<longrightarrow> (\<forall>n \<in> set ns. well_typed cuda cm n))"
  using assms(2-)
proof (induction ns arbitrary: ensembles)
  case (Cons n ns)
  show ?case
  proof (cases "map_of ensembles n = Some True")
    case True
    then show ?thesis
      using Cons by (auto simp: all_typed_def)
  next
    case False
    have n: "map_of cm n \<noteq> None" "n \<in> keys ensembles"
      using Cons.prems(3) by (auto simp: map_of_keys)
    note defd = validation_defined(1) [OF n Cons.prems(2), of invalid "[]"]
    show ?thesis
    proof (rule result_cases [OF defd])
      fix st assume "validate_ensemble cm invalid [] ensembles n = Some (Inl st)" "\<not> IsOk st"
      then show ?thesis using False by simp
    next
      fix ensembles1 assume v: "validate_ensemble cm invalid [] ensembles n = Some (Inr ensembles1)" "keys ensembles \<subseteq> keys ensembles1"
      have "all_typed cuda cm ensembles1" "well_typed cuda cm n"
        using validated_typed(1) [OF v(1) assms(1) Cons.prems(1)] by blast+
      then show ?thesis
        using Cons.IH [of ensembles1] covers_mono [OF Cons.prems(2) v(2)] Cons.prems(3) v False by auto
    qed
  qed
qed simp

lemma accepted_well_typed:
  "\<exists>st. ValidateEnsembleConfig cuda cm = Some st \<and>
    (IsOk st \<longrightarrow> (\<forall>n c. map_of cm n = Some c \<and> get_ensemble_scheduling c \<noteq> None \<longrightarrow> well_typed cuda cm n))"
proof (cases "classify_models cuda cm [] []")
  case (Inl st)
  then show ?thesis
    using classify_error [OF Inl] by (simp add: ValidateEnsembleConfig_def)
next
  case (Inr p)
  obtain invalid ensembles where p: "p = (invalid, ensembles)" by force
  note cl = classified [OF Inr [unfolded p]]
  have member: "(n, c) \<in> set cm" if "map_of cm n = Some c" for n c
    using that by (rule map_of_SomeD)
  have cov: "covers cm ensembles"
    using cl member unfolding covers_def by blast
  have "not_invalid cuda cm invalid"
    using cl member unfolding not_invalid_def map_of_keys by blast
  moreover have "all_typed cuda cm ensembles"
    using cl by (simp add: all_typed_def)
  moreover have "set (map fst ensembles) \<subseteq> keys cm \<inter> keys ensembles"
    using cl by (auto simp: keys_def)
  ultimately obtain st where "validate_all cm invalid (map fst ensembles) ensembles = Some st"
    "IsOk st \<longrightarrow> (\<forall>n \<in> set (map fst ensembles). well_typed cuda cm n)"
    using all_validated [OF _ _ cov] by blast
  moreover have "n \<in> set (map fst ensembles)" if "map_of cm n = Some c" "get_ensemble_scheduling c \<noteq> None" for n c
    using cov that unfolding covers_def keys_def by auto
  ultimately show ?thesis
    by (auto simp: ValidateEnsembleConfig_def Inr p simp del: get_ensemble_scheduling.simps)
qed

text \<open>
  Claim C13. Accepted ensembles are well typed: the validation of a set of model configurations always returns
  a status, and when it succeeds, the tensors of every ensemble of the set can be given a data type
  and a shape such that every model of the ensemble reads and writes its tensors at the types of its
  inputs and outputs, every input of a model reads exactly one tensor, the declared inputs and
  outputs of the ensemble have their types, all models are in the set, valid, and allow the batch
  size of the ensemble; the same holds for the ensembles among the models, and no ensemble contains
  itself at any depth.
\<close>

theorem accepted_ensembles_well_typed:
  "\<exists>st. ValidateEnsembleConfig cuda cm = Some st \<and>
    (IsOk st \<longrightarrow> (\<forall>n c. map_of cm n = Some c \<and> get_ensemble_scheduling c \<noteq> None \<longrightarrow>
       well_typed cuda cm n \<and> \<not> (contains cm)\<^sup>+\<^sup>+ n n))"
  using accepted_well_typed [of cuda cm] well_typed_acyclic by metis

definition typed_models :: "(string \<times> model_config) list" where
  "typed_models =
     (let model = (\<lambda>name i out. model_config_clear\<lparr>mc_name := name, mc_platform := ''custom'', mc_version_policy := Some Policy_not_set,
            mc_input := [i], mc_output := [out],
            mc_instance_group := [\<lparr>ig_name = ''g'', ig_kind = KIND_CPU, ig_count = 1, ig_gpus = []\<rparr>]\<rparr>);
          text = \<lparr>mi_name = ''IN'', mi_data_type = TYPE_STRING, mi_format = FORMAT_NONE, mi_dims = [1], mi_reshape = None\<rparr>;
          ids = \<lparr>mo_name = ''OUT'', mo_data_type = TYPE_INT32, mo_dims = [128], mo_reshape = None, mo_label_filename = []\<rparr>
      in [(''tokenize'', model ''tokenize'' text ids),
          (''classify'', model ''classify'' (text\<lparr>mi_name := ''IDS'', mi_data_type := TYPE_INT32, mi_dims := [128]\<rparr>)
             (ids\<lparr>mo_data_type := TYPE_FP32, mo_dims := [2]\<rparr>)),
          (''bert'', pipeline_config\<lparr>mc_version_policy := Some Policy_not_set\<rparr>)])"

theorem accepted_ensembles_well_typed_witness:
  "well_typed Cuda_error_no_device typed_models ''bert'' \<and> \<not> (contains typed_models)\<^sup>+\<^sup>+ ''bert'' ''bert''"
proof -
  have ok: "case ValidateEnsembleConfig Cuda_error_no_device typed_models of None \<Rightarrow> False | Some st \<Rightarrow> IsOk st"
    by code_simp
  have "case map_of typed_models ''bert'' of None \<Rightarrow> False | Some c \<Rightarrow> get_ensemble_scheduling c \<noteq> None"
    by code_simp
  then show ?thesis
    using accepted_ensembles_well_typed [of "Cuda_error_no_device" typed_models] ok by (auto split: option.splits)
qed

end
