(* ===== verification/Server_Main.thy ===== *)
theory Server_Main
  imports Grpc_Server
begin

text \<open>
  \<open>src/servers/main.cc\<close>: the server program. The globals of the file are one record. \<open>getopt_long\<close> is
  a parameter, the flags it finds and the arguments that are left; so are \<open>std::stof\<close>, the
  repository at each poll, and what \<open>Stop\<close> observes. Printing and logging are left out but for the
  levels the options set.
\<close>

section \<open>State\<close>

record globals =
  gl_exit_on_failed_init :: bool
  gl_http_port :: int
  gl_grpc_port :: int
  gl_http_health_port :: int
  gl_http_ports :: "int list"
  gl_metrics_port :: int
  gl_allow_http :: bool
  gl_allow_grpc :: bool
  gl_allow_metrics :: bool
  gl_allow_gpu_metrics :: bool
  gl_grpc_infer_thread_cnt :: int
  gl_grpc_stream_infer_thread_cnt :: int
  gl_http_thread_cnt :: int
  gl_log :: "bool \<times> bool \<times> bool \<times> int"

definition globals_init :: globals where
  "globals_init =
     \<lparr>gl_exit_on_failed_init = True, gl_http_port = 8000, gl_grpc_port = 8001, gl_http_health_port = -1,
      gl_http_ports = [], gl_metrics_port = 8002, gl_allow_http = True, gl_allow_grpc = True,
      gl_allow_metrics = True, gl_allow_gpu_metrics = False, gl_grpc_infer_thread_cnt = 1000,
      gl_grpc_stream_infer_thread_cnt = 1000, gl_http_thread_cnt = 8, gl_log = (True, True, True, 0)\<rparr>"

definition endpoint_names :: "string list" where
  "endpoint_names = [''status'', ''health'', ''profile'', ''infer'']"

text \<open>The server with the settings that only \<open>main.cc\<close> writes.\<close>

record server_process =
  sp_server :: inference_server
  sp_repository_poll_secs :: "32 word"
  sp_tf_allow_soft_placement :: bool
  sp_tf_gpu_memory_fraction :: "32 word"

definition new_process :: "timespec \<Rightarrow> string option \<Rightarrow> server_process" where
  "new_process now version_env =
     \<lparr>sp_server = InferenceServer now version_env, sp_repository_poll_secs = 15,
      sp_tf_allow_soft_placement = True, sp_tf_gpu_memory_fraction = 0\<rparr>"

record services =
  se_http :: "http_server option list"
  se_grpc :: "grpc_server option"
  se_exposer :: "string option"

definition no_services :: services where
  "no_services = \<lparr>se_http = [], se_grpc = None, se_exposer = None\<rparr>"

section \<open>The command line\<close>

datatype option_id =
    OPTION_HELP | OPTION_LOG_VERBOSE | OPTION_LOG_INFO | OPTION_LOG_WARNING | OPTION_LOG_ERROR | OPTION_ID
  | OPTION_MODEL_STORE | OPTION_EXIT_ON_ERROR | OPTION_STRICT_MODEL_CONFIG | OPTION_STRICT_READINESS
  | OPTION_ALLOW_PROFILING | OPTION_ALLOW_GRPC | OPTION_ALLOW_HTTP | OPTION_ALLOW_METRICS
  | OPTION_ALLOW_GPU_METRICS | OPTION_GRPC_PORT | OPTION_HTTP_PORT | OPTION_HTTP_HEALTH_PORT
  | OPTION_METRICS_PORT | OPTION_GRPC_INFER_THREAD_COUNT | OPTION_GRPC_STREAM_INFER_THREAD_COUNT
  | OPTION_HTTP_THREAD_COUNT | OPTION_ALLOW_POLL_REPO | OPTION_POLL_REPO_SECS | OPTION_EXIT_TIMEOUT_SECS
  | OPTION_TF_ALLOW_SOFT_PLACEMENT | OPTION_TF_GPU_MEMORY_FRACTION

text \<open>What \<open>getopt_long\<close> gives: an option with its argument, or a question mark.\<close>

datatype flag = Flag option_id string | Unknown_flag

text \<open>Parsing can succeed, return false, end the process with \<open>exit(1)\<close>, or throw.\<close>

datatype 'a parsed = Parsed 'a | Parse_false | Parse_exit | Parse_thrown

definition ParseBoolOption :: "string \<Rightarrow> bool option" where
  "ParseBoolOption arg =
     (if arg = ''true'' \<or> arg = ''True'' \<or> arg = ''1'' then Some True
      else if arg = ''false'' \<or> arg = ''False'' \<or> arg = ''0'' then Some False
      else None)"

text \<open>\<open>std::stoi\<close> throws when the text is not a number or the number does not fit.\<close>

definition ParseIntOption :: "string \<Rightarrow> int option" where
  "ParseIntOption arg =
     (case stoll arg of
        Inl e \<Rightarrow> None
      | Inr i \<Rightarrow> if - (2 ^ 31) \<le> i \<and> i < 2 ^ 31 then Some i else None)"

definition set_bool :: "string \<Rightarrow> (bool \<Rightarrow> 'a) \<Rightarrow> 'a parsed" where
  "set_bool arg f = (case ParseBoolOption arg of None \<Rightarrow> Parse_exit | Some b \<Rightarrow> Parsed (f b))"

definition set_int :: "string \<Rightarrow> (int \<Rightarrow> 'a) \<Rightarrow> 'a parsed" where
  "set_int arg f = (case ParseIntOption arg of None \<Rightarrow> Parse_thrown | Some i \<Rightarrow> Parsed (f i))"

text \<open>The local variables of \<open>Parse\<close>, with the three \<open>allow\<close> globals it sets on the way.\<close>

record parse_state =
  ps_server_id :: string
  ps_model_store_path :: string
  ps_strict_model_config :: bool
  ps_strict_readiness :: bool
  ps_allow_profiling :: bool
  ps_tf_allow_soft_placement :: bool
  ps_tf_gpu_memory_fraction :: "32 word"
  ps_exit_timeout_secs :: int
  ps_repository_poll_secs :: int
  ps_exit_on_error :: bool
  ps_allow_gpu_metrics :: bool
  ps_http_port :: int
  ps_grpc_port :: int
  ps_metrics_port :: int
  ps_grpc_infer_thread_cnt :: int
  ps_grpc_stream_infer_thread_cnt :: int
  ps_http_thread_cnt :: int
  ps_http_health_port :: int
  ps_allow_poll_model_repository :: bool
  ps_log_info :: bool
  ps_log_warn :: bool
  ps_log_error :: bool
  ps_log_verbose :: int
  ps_allow_http :: bool
  ps_allow_grpc :: bool
  ps_allow_metrics :: bool

definition parse_init :: "globals \<Rightarrow> server_process \<Rightarrow> parse_state" where
  "parse_init g sp =
     (let sv = sp_server sp; repository_poll_secs = sint (sp_repository_poll_secs sp) in
      \<lparr>ps_server_id = sv_id sv, ps_model_store_path = sv_model_store_path sv,
       ps_strict_model_config = sv_strict_model_config sv, ps_strict_readiness = sv_strict_readiness sv,
       ps_allow_profiling = sv_profiling_enabled sv, ps_tf_allow_soft_placement = sp_tf_allow_soft_placement sp,
       ps_tf_gpu_memory_fraction = sp_tf_gpu_memory_fraction sp,
       ps_exit_timeout_secs = sint (sv_exit_timeout_secs sv), ps_repository_poll_secs = repository_poll_secs,
       ps_exit_on_error = gl_exit_on_failed_init g, ps_allow_gpu_metrics = True, ps_http_port = gl_http_port g,
       ps_grpc_port = gl_grpc_port g, ps_metrics_port = gl_metrics_port g,
       ps_grpc_infer_thread_cnt = gl_grpc_infer_thread_cnt g,
       ps_grpc_stream_infer_thread_cnt = gl_grpc_stream_infer_thread_cnt g,
       ps_http_thread_cnt = gl_http_thread_cnt g, ps_http_health_port = gl_http_port g,
       ps_allow_poll_model_repository = repository_poll_secs > 0, ps_log_info = True, ps_log_warn = True,
       ps_log_error = True, ps_log_verbose = 0, ps_allow_http = gl_allow_http g, ps_allow_grpc = gl_allow_grpc g,
       ps_allow_metrics = gl_allow_metrics g\<rparr>)"

fun parse_flag :: "(string \<Rightarrow> 32 word option) \<Rightarrow> flag \<Rightarrow> parse_state \<Rightarrow> parse_state parsed" where
  "parse_flag stof Unknown_flag ps = Parse_false"
| "parse_flag stof (Flag opt arg) ps =
     (case opt of
        OPTION_HELP \<Rightarrow> Parse_false
      | OPTION_LOG_VERBOSE \<Rightarrow> set_int arg (\<lambda>i. ps\<lparr>ps_log_verbose := i\<rparr>)
      | OPTION_LOG_INFO \<Rightarrow> set_bool arg (\<lambda>b. ps\<lparr>ps_log_info := b\<rparr>)
      | OPTION_LOG_WARNING \<Rightarrow> set_bool arg (\<lambda>b. ps\<lparr>ps_log_warn := b\<rparr>)
      | OPTION_LOG_ERROR \<Rightarrow> set_bool arg (\<lambda>b. ps\<lparr>ps_log_error := b\<rparr>)
      | OPTION_ID \<Rightarrow> Parsed (ps\<lparr>ps_server_id := arg\<rparr>)
      | OPTION_MODEL_STORE \<Rightarrow> Parsed (ps\<lparr>ps_model_store_path := arg\<rparr>)
      | OPTION_EXIT_ON_ERROR \<Rightarrow> set_bool arg (\<lambda>b. ps\<lparr>ps_exit_on_error := b\<rparr>)
      | OPTION_STRICT_MODEL_CONFIG \<Rightarrow> set_bool arg (\<lambda>b. ps\<lparr>ps_strict_model_config := b\<rparr>)
      | OPTION_STRICT_READINESS \<Rightarrow> set_bool arg (\<lambda>b. ps\<lparr>ps_strict_readiness := b\<rparr>)
      | OPTION_ALLOW_PROFILING \<Rightarrow> set_bool arg (\<lambda>b. ps\<lparr>ps_allow_profiling := b\<rparr>)
      | OPTION_ALLOW_GRPC \<Rightarrow> set_bool arg (\<lambda>b. ps\<lparr>ps_allow_grpc := b\<rparr>)
      | OPTION_ALLOW_HTTP \<Rightarrow> set_bool arg (\<lambda>b. ps\<lparr>ps_allow_http := b\<rparr>)
      | OPTION_ALLOW_METRICS \<Rightarrow> set_bool arg (\<lambda>b. ps\<lparr>ps_allow_metrics := b\<rparr>)
      | OPTION_ALLOW_GPU_METRICS \<Rightarrow> set_bool arg (\<lambda>b. ps\<lparr>ps_allow_gpu_metrics := b\<rparr>)
      | OPTION_GRPC_PORT \<Rightarrow> set_int arg (\<lambda>i. ps\<lparr>ps_grpc_port := i\<rparr>)
      | OPTION_HTTP_PORT \<Rightarrow> set_int arg (\<lambda>i. ps\<lparr>ps_http_port := i, ps_http_health_port := i\<rparr>)
      | OPTION_HTTP_HEALTH_PORT \<Rightarrow> set_int arg (\<lambda>i. ps\<lparr>ps_http_health_port := i\<rparr>)
      | OPTION_METRICS_PORT \<Rightarrow> set_int arg (\<lambda>i. ps\<lparr>ps_metrics_port := i\<rparr>)
      | OPTION_GRPC_INFER_THREAD_COUNT \<Rightarrow> set_int arg (\<lambda>i. ps\<lparr>ps_grpc_infer_thread_cnt := i\<rparr>)
      | OPTION_GRPC_STREAM_INFER_THREAD_COUNT \<Rightarrow> set_int arg (\<lambda>i. ps\<lparr>ps_grpc_stream_infer_thread_cnt := i\<rparr>)
      | OPTION_HTTP_THREAD_COUNT \<Rightarrow> set_int arg (\<lambda>i. ps\<lparr>ps_http_thread_cnt := i\<rparr>)
      | OPTION_ALLOW_POLL_REPO \<Rightarrow> set_bool arg (\<lambda>b. ps\<lparr>ps_allow_poll_model_repository := b\<rparr>)
      | OPTION_POLL_REPO_SECS \<Rightarrow> set_int arg (\<lambda>i. ps\<lparr>ps_repository_poll_secs := i\<rparr>)
      | OPTION_EXIT_TIMEOUT_SECS \<Rightarrow> set_int arg (\<lambda>i. ps\<lparr>ps_exit_timeout_secs := i\<rparr>)
      | OPTION_TF_ALLOW_SOFT_PLACEMENT \<Rightarrow> set_bool arg (\<lambda>b. ps\<lparr>ps_tf_allow_soft_placement := b\<rparr>)
      | OPTION_TF_GPU_MEMORY_FRACTION \<Rightarrow>
          (case stof arg of None \<Rightarrow> Parse_thrown | Some f \<Rightarrow> Parsed (ps\<lparr>ps_tf_gpu_memory_fraction := f\<rparr>)))"

fun parse_flags :: "(string \<Rightarrow> 32 word option) \<Rightarrow> flag list \<Rightarrow> parse_state \<Rightarrow> parse_state parsed" where
  "parse_flags stof [] ps = Parsed ps"
| "parse_flags stof (f # fs) ps =
     (case parse_flag stof f ps of
        Parsed ps1 \<Rightarrow> parse_flags stof fs ps1
      | Parse_false \<Rightarrow> Parse_false
      | Parse_exit \<Rightarrow> Parse_exit
      | Parse_thrown \<Rightarrow> Parse_thrown)"

definition CheckPortCollision :: "globals \<Rightarrow> bool" where
  "CheckPortCollision g =
     (if gl_grpc_port g \<in> set (gl_http_ports g) \<and> gl_grpc_port g \<noteq> -1 \<and> gl_allow_http g \<and> gl_allow_grpc g then True
      else if gl_grpc_port g = gl_metrics_port g \<and> gl_metrics_port g \<noteq> -1 \<and> gl_allow_grpc g \<and> gl_allow_metrics g then True
      else if gl_metrics_port g \<in> set (gl_http_ports g) \<and> gl_metrics_port g \<noteq> -1 \<and> gl_allow_http g \<and> gl_allow_metrics g then True
      else False)"

definition Parse ::
  "(string \<Rightarrow> 32 word option) \<Rightarrow> flag list \<Rightarrow> string list \<Rightarrow> globals \<Rightarrow> server_process \<Rightarrow> (globals \<times> server_process) parsed" where
  "Parse stof flags rest g sp =
     (case parse_flags stof flags (parse_init g sp) of
        Parse_false \<Rightarrow> Parse_false
      | Parse_exit \<Rightarrow> Parse_exit
      | Parse_thrown \<Rightarrow> Parse_thrown
      | Parsed ps \<Rightarrow>
          (if rest \<noteq> [] then Parse_false
           else if \<not> ps_allow_http ps \<and> \<not> ps_allow_grpc ps then Parse_false
           else
             (let g1 = g\<lparr>gl_allow_http := ps_allow_http ps, gl_allow_grpc := ps_allow_grpc ps,
                    gl_allow_metrics := ps_allow_metrics ps,
                    gl_log := (ps_log_info ps, ps_log_warn ps, ps_log_error ps, ps_log_verbose ps),
                    gl_exit_on_failed_init := ps_exit_on_error ps, gl_http_port := ps_http_port ps,
                    gl_grpc_port := ps_grpc_port ps, gl_http_health_port := ps_http_health_port ps,
                    gl_metrics_port := (if ps_allow_metrics ps then ps_metrics_port ps else -1),
                    gl_http_ports := [ps_http_port ps, ps_http_health_port ps, ps_http_port ps, ps_http_port ps]\<rparr>
              in if CheckPortCollision g1 then Parse_false
                 else Parsed
                   (g1\<lparr>gl_allow_gpu_metrics := (if ps_allow_metrics ps then ps_allow_gpu_metrics ps else False),
                       gl_grpc_infer_thread_cnt := ps_grpc_infer_thread_cnt ps,
                       gl_grpc_stream_infer_thread_cnt := ps_grpc_stream_infer_thread_cnt ps,
                       gl_http_thread_cnt := ps_http_thread_cnt ps\<rparr>,
                    sp\<lparr>sp_server := (sp_server sp)\<lparr>sv_id := ps_server_id ps, sv_model_store_path := ps_model_store_path ps,
                         sv_strict_model_config := ps_strict_model_config ps, sv_strict_readiness := ps_strict_readiness ps,
                         sv_profiling_enabled := ps_allow_profiling ps,
                         sv_exit_timeout_secs := of_int (ps_exit_timeout_secs ps)\<rparr>,
                       sp_repository_poll_secs :=
                         (if ps_allow_poll_model_repository ps then of_int (max 0 (ps_repository_poll_secs ps)) else 0),
                       sp_tf_allow_soft_placement := ps_tf_allow_soft_placement ps,
                       sp_tf_gpu_memory_fraction := ps_tf_gpu_memory_fraction ps\<rparr>))))"

section \<open>The endpoints\<close>

definition StartGrpcService :: "globals \<Rightarrow> grpc_server option" where
  "StartGrpcService g =
     (let (status, service) = GRPCServer_Create (gl_grpc_port g) (gl_grpc_infer_thread_cnt g) (gl_grpc_stream_infer_thread_cnt g);
          (status1, service1) = (if IsOk status then grpc_Start service else (status, service))
      in if \<not> IsOk status1 then None else Some service1)"

text \<open>The status of the last server that is started is the status of all.\<close>

fun start_http_servers :: "status \<Rightarrow> http_server list \<Rightarrow> status \<times> http_server list" where
  "start_http_servers status [] = (status, [])"
| "start_http_servers status (hs # hss) =
     (let (status1, hs1) = http_Start hs; (status2, hss1) = start_http_servers status1 hss in (status2, hs1 # hss1))"

definition StartMultipleHttpService :: "(int \<times> string list) list \<Rightarrow> services \<Rightarrow> status \<times> services" where
  "StartMultipleHttpService port_map se =
     (case HTTPServer_Create port_map of
        Inl status \<Rightarrow> (status, se\<lparr>se_http := map (\<lambda>_. None) (se_http se)\<rparr>)
      | Inr created \<Rightarrow>
          (let (status, servers) = start_http_servers Status_Success
                 (map (\<lambda>(port, endpoints). \<lparr>hs_port = port, hs_endpoints = endpoints, hs_running = False\<rparr>) created)
           in if \<not> IsOk status then (status, se\<lparr>se_http := map (\<lambda>_. None) servers\<rparr>)
              else (status, se\<lparr>se_http := map Some servers\<rparr>)))"

text \<open>\<open>port_map[port].push_back(name)\<close> in a map ordered by port.\<close>

fun push_endpoint :: "int \<Rightarrow> string \<Rightarrow> (int \<times> string list) list \<Rightarrow> (int \<times> string list) list" where
  "push_endpoint port name [] = [(port, [name])]"
| "push_endpoint port name ((p, names) # m) =
     (if port < p then (port, [name]) # (p, names) # m
      else if port = p then (p, names @ [name]) # m
      else (p, names) # push_endpoint port name m)"

fun group_ports :: "int list \<Rightarrow> string list \<Rightarrow> (int \<times> string list) list \<Rightarrow> (int \<times> string list) list" where
  "group_ports (port # ports) (name # names) m =
     group_ports ports names (if port \<noteq> -1 then push_endpoint port name m else m)"
| "group_ports ports names m = m"

definition StartEndpoints :: "globals \<Rightarrow> services \<Rightarrow> bool \<times> services" where
  "StartEndpoints g se =
     (let se1 = (if gl_allow_grpc g \<and> gl_grpc_port g \<noteq> -1 then se\<lparr>se_grpc := StartGrpcService g\<rparr> else se) in
      if gl_allow_grpc g \<and> gl_grpc_port g \<noteq> -1 \<and> se_grpc se1 = None then (False, se1)
      else
        (let (create_status, se2) =
               (if gl_allow_http g then StartMultipleHttpService (group_ports (gl_http_ports g) endpoint_names []) se1
                else (Status_Success, se1))
         in if gl_allow_http g \<and> \<not> IsOk create_status then (False, se2)
            else
              (True, if gl_metrics_port g \<noteq> -1
                     then se2\<lparr>se_exposer := Some (''0.0.0.0:'' @ show_int (gl_metrics_port g))\<rparr> else se2)))"

section \<open>The program\<close>

text \<open>
  The passes of the main loop until a signal comes, with the repository each one finds. An error of
  a poll is logged.
\<close>

fun main_loop :: "repository list \<Rightarrow> server_process \<Rightarrow> server_process outcome" where
  "main_loop [] sp = Returned sp"
| "main_loop (rp # rps) sp =
     (if sp_repository_poll_secs sp > 0 then
        (case PollModelRepository rp (sp_server sp) of
           Thrown \<Rightarrow> Thrown
         | Returned (st, sv) \<Rightarrow> main_loop rps (sp\<lparr>sp_server := sv\<rparr>))
      else main_loop rps sp)"

definition stop_services :: "services \<Rightarrow> services" where
  "stop_services se =
     se\<lparr>se_grpc := map_option (snd \<circ> grpc_Stop) (se_grpc se),
        se_http := map (map_option (snd \<circ> http_Stop)) (se_http se)\<rparr>"

text \<open>
  \<open>main\<close>: the exit status, or \<open>Thrown\<close> when an exception that nothing catches ends the process. The
  servers listen before \<open>Init\<close>; what they are asked then is part of the theory of the server.
\<close>

definition main_program ::
  "(string \<Rightarrow> 32 word option) \<Rightarrow> flag list \<Rightarrow> string list \<Rightarrow> timespec \<Rightarrow> string option \<Rightarrow> repository \<Rightarrow> status \<Rightarrow>
   repository list \<Rightarrow> (nat \<Rightarrow> nat \<times> 64 word) \<Rightarrow> (int \<times> services) outcome" where
  "main_program stof flags rest now version_env rp profile_stop polls obs =
     (case Parse stof flags rest globals_init (new_process now version_env) of
        Parse_thrown \<Rightarrow> Thrown
      | Parse_false \<Rightarrow> Returned (1, no_services)
      | Parse_exit \<Rightarrow> Returned (1, no_services)
      | Parsed (g, sp) \<Rightarrow>
          (let (started, se) = StartEndpoints g no_services in
           if \<not> started then Returned (1, se)
           else
             (case Init rp profile_stop (sp_server sp) of
                Thrown \<Rightarrow> Thrown
              | Returned (ok, sv) \<Rightarrow>
                  (if \<not> ok \<and> gl_exit_on_failed_init g then Returned (1, se)
                   else
                     (case main_loop polls (sp\<lparr>sp_server := sv\<rparr>) of
                        Thrown \<Rightarrow> Thrown
                      | Returned sp1 \<Rightarrow>
                          (let (stop_status, sv1) = Stop obs (sp_server sp1)
                           in Returned (if stop_status then 0 else 1, stop_services se)))))))"

end
