(* ===== verification/Server_Main_Props.thy ===== *)
theory Server_Main_Props
  imports Server_Main
begin

text \<open>
  What the command line of the server program (\<open>src/servers/main.cc\<close>) means: which ports the server
  listens to, and what each serves.
\<close>

section \<open>Grouping the endpoints by port\<close>

definition served :: "(int \<times> string list) list \<Rightarrow> int \<Rightarrow> string list" where
  "served m p = (case map_of m p of None \<Rightarrow> [] | Some names \<Rightarrow> names)"

definition endpoints_at :: "int \<Rightarrow> int list \<Rightarrow> string list \<Rightarrow> string list" where
  "endpoints_at p ports names = map snd (filter (\<lambda>(q, n). q = p) (zip ports names))"

lemma endpoints_at_Cons [simp]:
  "endpoints_at p (q # ports) (n # names) = (if q = p then n # endpoints_at p ports names else endpoints_at p ports names)"
  "endpoints_at p [] names = []" "endpoints_at p ports [] = []"
  by (simp_all add: endpoints_at_def)

definition port_sorted :: "(int \<times> string list) list \<Rightarrow> bool" where
  "port_sorted m \<longleftrightarrow> sorted_wrt (<) (map fst m)"

lemma push_endpoint_ports: "set (map fst (push_endpoint port name m)) = insert port (set (map fst m))"
  by (induction port name m rule: push_endpoint.induct) auto

lemma push_endpoint_sorted: "port_sorted m \<Longrightarrow> port_sorted (push_endpoint port name m)"
  using push_endpoint_ports [of port name]
  by (induction port name m rule: push_endpoint.induct) (force simp: port_sorted_def)+

lemma served_Cons: "served ((q, names) # m) p = (if p = q then names else served m p)"
  by (simp add: served_def)

lemma served_none: "p \<notin> set (map fst m) \<Longrightarrow> served m p = []"
  by (induction m) (auto simp: served_def)

lemma push_endpoint_served:
  "port_sorted m \<Longrightarrow> served (push_endpoint port name m) p = (if p = port then served m p @ [name] else served m p)"
proof (induction port name m rule: push_endpoint.induct)
  case (2 port name q names m)
  have "served ((q, names) # m) port = []" if "port < q"
    using "2.prems" that by (intro served_none) (auto simp: port_sorted_def)
  moreover have "port_sorted m"
    using "2.prems" by (simp add: port_sorted_def)
  ultimately show ?case
    using "2.IH" by (auto simp: served_Cons)
qed (simp add: served_def)

lemma group_ports_spec:
  "port_sorted m \<Longrightarrow> length ports \<le> length names \<Longrightarrow>
   port_sorted (group_ports ports names m) \<and>
   set (map fst (group_ports ports names m)) = set (map fst m) \<union> {p \<in> set ports. p \<noteq> -1} \<and>
   (\<forall>p. served (group_ports ports names m) p = served m p @ (if p = -1 then [] else endpoints_at p ports names))"
proof (induction ports names m rule: group_ports.induct)
  case (1 port ports name names m)
  let ?m = "if port \<noteq> -1 then push_endpoint port name m else m"
  have s: "port_sorted ?m"
    using "1.prems"(1) push_endpoint_sorted by simp
  have "set (map fst ?m) = set (map fst m) \<union> {p \<in> {port}. p \<noteq> -1}"
    using push_endpoint_ports [of port name m] by auto
  moreover have "served ?m p = served m p @ (if p = port \<and> p \<noteq> -1 then [name] else [])" for p
    by (simp add: push_endpoint_served [OF "1.prems"(1)])
  ultimately show ?case
    using "1.IH" [OF s] "1.prems"(2) by auto
qed auto

lemma sorted_served: "port_sorted m \<Longrightarrow> (p, names) \<in> set m \<Longrightarrow> served m p = names"
proof -
  assume "port_sorted m" "(p, names) \<in> set m"
  moreover have "distinct (map fst m)"
    using \<open>port_sorted m\<close> strict_sorted_iff unfolding port_sorted_def by blast
  ultimately show ?thesis
    by (simp add: served_def)
qed

section \<open>What is started\<close>

lemma start_http_all:
  "\<forall>hs \<in> set hss. \<not> hs_running hs \<Longrightarrow> IsOk status \<Longrightarrow>
   \<exists>status1. start_http_servers status hss = (status1, map (\<lambda>hs. hs\<lparr>hs_running := True\<rparr>) hss) \<and> IsOk status1"
proof (induction hss arbitrary: status)
  case (Cons hs hss)
  obtain status1 where "start_http_servers Status_Success hss = (status1, map (\<lambda>hs. hs\<lparr>hs_running := True\<rparr>) hss)" "IsOk status1"
    using Cons.IH [of Status_Success] Cons.prems(1) by auto
  then show ?case
    using Cons.prems(1) by (auto simp: http_Start_def Let_def)
qed simp

lemma StartGrpcService_port:
  "StartGrpcService g = Some service \<Longrightarrow> gs_addr service = ''0.0.0.0:'' @ show_int (gl_grpc_port g) \<and> gs_running service"
  by (auto simp: StartGrpcService_def GRPCServer_Create_def grpc_Start_def Let_def)

lemma StartMultipleHttpService_ok:
  assumes "StartMultipleHttpService port_map se = (status, se1)" and "IsOk status"
  shows "se1 = se\<lparr>se_http := map (\<lambda>(p, names). Some \<lparr>hs_port = p, hs_endpoints = names, hs_running = True\<rparr>) port_map\<rparr>"
proof -
  let ?hss = "map (\<lambda>(port, endpoints). \<lparr>hs_port = port, hs_endpoints = endpoints, hs_running = False\<rparr>) port_map"
  obtain status1 where "start_http_servers Status_Success ?hss = (status1, map (\<lambda>hs. hs\<lparr>hs_running := True\<rparr>) ?hss)" "IsOk status1"
    using start_http_all [of ?hss Status_Success] by fastforce
  then show ?thesis
    using assms by (auto simp: StartMultipleHttpService_def HTTPServer_Create_def Let_def split: if_splits prod.splits)
qed

text \<open>The addresses the program listens to.\<close>

definition listening :: "services \<Rightarrow> string list" where
  "listening se =
     map (\<lambda>hs. ''0.0.0.0:'' @ show_int (hs_port hs)) (filter hs_running (List.map_filter (\<lambda>x. x) (se_http se))) @
     (case se_grpc se of None \<Rightarrow> [] | Some gs \<Rightarrow> [gs_addr gs]) @ (case se_exposer se of None \<Rightarrow> [] | Some a \<Rightarrow> [a])"

lemma Parse_ports:
  assumes "Parse stof flags rest g0 sp0 = Parsed (g, sp)"
  shows "\<not> CheckPortCollision g" and "gl_http_ports g = [gl_http_port g, gl_http_health_port g, gl_http_port g, gl_http_port g]"
    and "\<not> gl_allow_metrics g \<longrightarrow> gl_metrics_port g = -1" and "gl_allow_http g \<or> gl_allow_grpc g"
proof -
  obtain ps where ps: "parse_flags stof flags (parse_init g0 sp0) = Parsed ps"
    using assms by (cases "parse_flags stof flags (parse_init g0 sp0)") (simp_all add: Parse_def)
  have "rest = []" and allowed: "ps_allow_http ps \<or> ps_allow_grpc ps"
    using assms by (auto simp: Parse_def ps Let_def split: if_splits)
  moreover define g1 where "g1 = g0\<lparr>gl_allow_http := ps_allow_http ps, gl_allow_grpc := ps_allow_grpc ps,
     gl_allow_metrics := ps_allow_metrics ps,
     gl_log := (ps_log_info ps, ps_log_warn ps, ps_log_error ps, ps_log_verbose ps),
     gl_exit_on_failed_init := ps_exit_on_error ps, gl_http_port := ps_http_port ps,
     gl_grpc_port := ps_grpc_port ps, gl_http_health_port := ps_http_health_port ps,
     gl_metrics_port := (if ps_allow_metrics ps then ps_metrics_port ps else -1),
     gl_http_ports := [ps_http_port ps, ps_http_health_port ps, ps_http_port ps, ps_http_port ps]\<rparr>"
  ultimately have g: "\<not> CheckPortCollision g1" "\<exists>b i j k. g = g1\<lparr>gl_allow_gpu_metrics := b, gl_grpc_infer_thread_cnt := i,
      gl_grpc_stream_infer_thread_cnt := j, gl_http_thread_cnt := k\<rparr>"
    using assms unfolding Parse_def ps Let_def parsed.case g1_def [symmetric] by (auto split: if_splits)
  obtain b i j k where gg: "g = g1\<lparr>gl_allow_gpu_metrics := b, gl_grpc_infer_thread_cnt := i,
      gl_grpc_stream_infer_thread_cnt := j, gl_http_thread_cnt := k\<rparr>"
    using g(2) by blast
  have "CheckPortCollision g = CheckPortCollision g1"
    by (simp add: CheckPortCollision_def gg)
  then show "\<not> CheckPortCollision g"
    using g(1) by simp
  show "gl_http_ports g = [gl_http_port g, gl_http_health_port g, gl_http_port g, gl_http_port g]"
    "\<not> gl_allow_metrics g \<longrightarrow> gl_metrics_port g = -1" "gl_allow_http g \<or> gl_allow_grpc g"
    using g(2) allowed by (auto simp: g1_def)
qed

lemma started_services:
  assumes start: "StartEndpoints g no_services = (True, se)" and free: "\<not> CheckPortCollision g"
    and metrics: "\<not> gl_allow_metrics g \<longrightarrow> gl_metrics_port g = -1" and len: "length (gl_http_ports g) = 4"
  shows "\<exists>hss. se_http se = map Some hss \<and> sorted_wrt (<) (map hs_port hss) \<and> (\<forall>hs \<in> set hss. hs_running hs) \<and>
      set (map hs_port hss) = (if gl_allow_http g then {p \<in> set (gl_http_ports g). p \<noteq> -1} else {}) \<and>
      (\<forall>hs \<in> set hss. hs_endpoints hs = endpoints_at (hs_port hs) (gl_http_ports g) endpoint_names)"
    and "distinct (listening se)"
proof -
  let ?m = "group_ports (gl_http_ports g) endpoint_names []"
  let ?hss = "if gl_allow_http g then map (\<lambda>(p, names). \<lparr>hs_port = p, hs_endpoints = names, hs_running = True\<rparr>) ?m else []"
  let ?grpc = "gl_allow_grpc g \<and> gl_grpc_port g \<noteq> -1"
  have m: "port_sorted ?m" "set (map fst ?m) = {p \<in> set (gl_http_ports g). p \<noteq> -1}"
    "\<forall>p. served ?m p = (if p = -1 then [] else endpoints_at p (gl_http_ports g) endpoint_names)"
    using group_ports_spec [of "[]" "gl_http_ports g" endpoint_names] len
    by (simp_all add: port_sorted_def served_def endpoint_names_def)
  let ?se1 = "if ?grpc then no_services\<lparr>se_grpc := StartGrpcService g\<rparr> else no_services"
  have http: "se_http se = map Some ?hss" and rest: "se_grpc se = se_grpc ?se1"
    "se_exposer se = (if gl_metrics_port g \<noteq> -1 then Some (''0.0.0.0:'' @ show_int (gl_metrics_port g)) else None)"
    and grpc: "?grpc \<longrightarrow> se_grpc ?se1 \<noteq> None"
  proof -
    obtain status se2 where st: "(if gl_allow_http g then StartMultipleHttpService ?m ?se1 else (Status_Success, ?se1)) = (status, se2)"
      by force
    have se: "\<not> (gl_allow_http g \<and> \<not> IsOk status)" "?grpc \<longrightarrow> se_grpc ?se1 \<noteq> None"
      "se = (if gl_metrics_port g \<noteq> -1 then se2\<lparr>se_exposer := Some (''0.0.0.0:'' @ show_int (gl_metrics_port g))\<rparr> else se2)"
      using start unfolding StartEndpoints_def Let_def st by (auto split: if_splits)
    have "se2 = ?se1\<lparr>se_http := map Some ?hss\<rparr>"
      using st se(1) StartMultipleHttpService_ok [of ?m ?se1 status se2]
      by (cases "gl_allow_http g") (auto simp: no_services_def case_prod_unfold comp_def)
    then show "se_http se = map Some ?hss" and "se_grpc se = se_grpc ?se1" and "?grpc \<longrightarrow> se_grpc ?se1 \<noteq> None"
      "se_exposer se = (if gl_metrics_port g \<noteq> -1 then Some (''0.0.0.0:'' @ show_int (gl_metrics_port g)) else None)"
      using se by (simp_all add: no_services_def)
  qed
  have ports: "map hs_port ?hss = (if gl_allow_http g then map fst ?m else [])"
    by (simp add: case_prod_unfold comp_def)
  have sorted: "sorted_wrt (<) (map hs_port ?hss)" and set: "set (map hs_port ?hss) = (if gl_allow_http g then {p \<in> set (gl_http_ports g). p \<noteq> -1} else {})"
    unfolding ports using m(1,2) by (simp_all add: port_sorted_def)
  have endpoints: "\<forall>hs \<in> set ?hss. hs_running hs \<and> hs_endpoints hs = endpoints_at (hs_port hs) (gl_http_ports g) endpoint_names"
  proof
    fix hs assume "hs \<in> set ?hss"
    then obtain p names where p: "gl_allow_http g" "(p, names) \<in> set ?m" "hs = \<lparr>hs_port = p, hs_endpoints = names, hs_running = True\<rparr>"
      by (auto split: if_splits)
    have "p \<noteq> -1"
      using m(2) p(2) by force
    then show "hs_running hs \<and> hs_endpoints hs = endpoints_at (hs_port hs) (gl_http_ports g) endpoint_names"
      using sorted_served [OF m(1) p(2)] m(3) p(3) by simp
  qed
  then show "\<exists>hss. se_http se = map Some hss \<and> sorted_wrt (<) (map hs_port hss) \<and> (\<forall>hs \<in> set hss. hs_running hs) \<and>
      set (map hs_port hss) = (if gl_allow_http g then {p \<in> set (gl_http_ports g). p \<noteq> -1} else {}) \<and>
      (\<forall>hs \<in> set hss. hs_endpoints hs = endpoints_at (hs_port hs) (gl_http_ports g) endpoint_names)"
    using http sorted set by blast
  have "filter hs_running (List.map_filter (\<lambda>x. x) (map Some ?hss)) = ?hss"
    using endpoints by (simp add: List.map_filter_def comp_def filter_id_conv)
  moreover have addr: "gs_addr service = ''0.0.0.0:'' @ show_int (gl_grpc_port g)" if "StartGrpcService g = Some service" for service
    using StartGrpcService_port [OF that] by blast
  ultimately have eq: "listening se = map (\<lambda>p. ''0.0.0.0:'' @ show_int p)
      (map hs_port ?hss @ (if ?grpc then [gl_grpc_port g] else []) @ (if gl_metrics_port g \<noteq> -1 then [gl_metrics_port g] else []))"
    using grpc rest addr by (auto simp: listening_def http no_services_def comp_def)
  have d: "distinct (map hs_port ?hss @ (if ?grpc then [gl_grpc_port g] else []) @ (if gl_metrics_port g \<noteq> -1 then [gl_metrics_port g] else []))"
    using sorted set free metrics strict_sorted_iff [of "map hs_port ?hss"] by (auto simp: CheckPortCollision_def split: if_splits)
  have inj: "inj_on (\<lambda>p. ''0.0.0.0:'' @ show_int p) A" for A
    by (auto simp: inj_on_def dest: show_int_inj)
  show "distinct (listening se)"
    unfolding eq distinct_map using d inj by blast
qed

section \<open>The command line and the ports\<close>


lemma read_ports: "ParseIntOption ''8080'' = Some 8080" "ParseIntOption ''9000'' = Some 9000"
  by code_simp+

definition health_flags :: "flag list" where
  "health_flags = [Flag OPTION_HTTP_PORT ''8080'', Flag OPTION_HTTP_HEALTH_PORT ''9000'', Flag OPTION_ALLOW_METRICS ''false'']"

definition health_parsed :: "globals \<times> server_process" where
  "health_parsed = (case Parse (\<lambda>_. None) health_flags [] globals_init (new_process (0, 0) None) of Parsed p \<Rightarrow> p)"


text \<open>
  The order of the options counts: \<open>--http-port\<close> after \<open>--http-health-port\<close> takes the health port
  back.
\<close>

lemma health_port_overridden:
  "map_option (\<lambda>ps. (ps_http_port ps, ps_http_health_port ps))
     (case parse_flags stof [Flag OPTION_HTTP_HEALTH_PORT ''9000'', Flag OPTION_HTTP_PORT ''8080''] ps of
        Parsed ps1 \<Rightarrow> Some ps1 | _ \<Rightarrow> None) = Some (8080, 8080)"
  by (simp add: set_int_def read_ports)

end
