(* ===== verification/Client_Contexts.thy ===== *)
theory Client_Contexts
  imports Client_Grpc
begin

text \<open>
  The contexts of the client library that ask about the server: health, status and profile, over HTTP
  (\<open>src/clients/c++/request_http.cc\<close>) and over GRPC (\<open>request_grpc.cc\<close>). What libcurl or the
  stub of GRPC answers is a parameter, as are the parsers of protobuf.
\<close>

section \<open>HTTP\<close>

text \<open>
  A transfer fails with the text of its error, or ends with a code, after the header lines and
  the pieces of the body were delivered.
\<close>

datatype curl_answer = Curl_error string | Curl_answer int "string list" "bytes list"

definition CurlGlobal :: "bool \<Rightarrow> client_error" where
  "CurlGlobal init_ok = (if \<not> init_ok then Error_msg INTERNAL ''global initialization failed'' else Error_code SUCCESS)"

definition curl_failed :: "string \<Rightarrow> client_error" where
  "curl_failed strerror = Error_msg INTERNAL (''HTTP client failed: '' @ strerror)"

definition no_easy_handle :: client_error where
  "no_easy_handle = Error_msg INTERNAL ''failed to initialize HTTP client''"

text \<open>Health: the flag of the caller stays as it is when there is an error.\<close>

definition ServerHealthHttpContext :: "string \<Rightarrow> string" where
  "ServerHealthHttpContext url = url @ ''/'' @ ''api/health''"

definition http_GetHealth ::
  "client_error \<Rightarrow> bool \<Rightarrow> (string \<Rightarrow> curl_answer) \<Rightarrow> string \<Rightarrow> bool \<Rightarrow> client_error \<times> bool" where
  "http_GetHealth curl_status easy_handle perform url health =
     (if \<not> Error_IsOk curl_status then (curl_status, health)
      else if \<not> easy_handle then (no_easy_handle, health)
      else
        (case perform url of
           Curl_error strerror \<Rightarrow> (curl_failed strerror, health)
         | Curl_answer http_code lines pieces \<Rightarrow> (Error_Success, http_code = 200)))"

definition http_GetReady ::
  "client_error \<Rightarrow> bool \<Rightarrow> (string \<Rightarrow> curl_answer) \<Rightarrow> string \<Rightarrow> bool \<Rightarrow> client_error \<times> bool" where
  "http_GetReady curl_status easy_handle perform url ready = http_GetHealth curl_status easy_handle perform (url @ ''/ready'') ready"

definition http_GetLive ::
  "client_error \<Rightarrow> bool \<Rightarrow> (string \<Rightarrow> curl_answer) \<Rightarrow> string \<Rightarrow> bool \<Rightarrow> client_error \<times> bool" where
  "http_GetLive curl_status easy_handle perform url live = http_GetHealth curl_status easy_handle perform (url @ ''/live'') live"

text \<open>Status.\<close>

record http_status_context =
  hc_url :: string
  hc_request_status :: request_status
  hc_response :: bytes

definition ServerStatusHttpContext :: "string \<Rightarrow> http_status_context" where
  "ServerStatusHttpContext url =
     \<lparr>hc_url = url @ ''/'' @ ''api/status'', hc_request_status = request_status_clear, hc_response = []\<rparr>"

definition ServerStatusHttpContext_model :: "string \<Rightarrow> string \<Rightarrow> http_status_context" where
  "ServerStatusHttpContext_model url model_name =
     \<lparr>hc_url = url @ ''/'' @ ''api/status'' @ ''/'' @ model_name, hc_request_status = request_status_clear, hc_response = []\<rparr>"

definition status_ResponseHeaderHandler ::
  "(string \<Rightarrow> request_status option) \<Rightarrow> string \<Rightarrow> request_status \<Rightarrow> request_status" where
  "status_ResponseHeaderHandler parse_status buf rs =
     (case header_value kStatusHTTPHeader buf of
        None \<Rightarrow> rs
      | Some hdr \<Rightarrow> (case parse_status hdr of None \<Rightarrow> request_status_clear | Some rs1 \<Rightarrow> rs1))"

definition status_ResponseHandler :: "bytes \<Rightarrow> http_status_context \<Rightarrow> http_status_context" where
  "status_ResponseHandler contents ctx = ctx\<lparr>hc_response := hc_response ctx @ contents\<rparr>"

definition status_receive ::
  "(string \<Rightarrow> request_status option) \<Rightarrow> string list \<Rightarrow> bytes list \<Rightarrow> http_status_context \<Rightarrow> http_status_context" where
  "status_receive parse_status lines pieces ctx =
     foldl (\<lambda>c piece. status_ResponseHandler piece c)
       (ctx\<lparr>hc_request_status := foldl (\<lambda>rs l. status_ResponseHeaderHandler parse_status l rs) (hc_request_status ctx) lines\<rparr>)
       pieces"

definition returned_status :: "string \<Rightarrow> request_status \<Rightarrow> request_status" where
  "returned_status msg rs =
     (if rs_code rs = INVALID then request_status_clear\<lparr>rs_code := INTERNAL, rs_msg := msg\<rparr> else rs)"

definition http_GetServerStatus ::
  "client_error \<Rightarrow> bool \<Rightarrow> (string \<Rightarrow> request_status option) \<Rightarrow> (bytes \<Rightarrow> server_status option) \<Rightarrow> (string \<Rightarrow> curl_answer) \<Rightarrow>
   http_status_context \<Rightarrow> (client_error \<times> server_status) \<times> http_status_context" where
  "http_GetServerStatus curl_status easy_handle parse_status parse_server perform ctx0 =
     (let ctx = ctx0\<lparr>hc_request_status := request_status_clear, hc_response := []\<rparr> in
      if \<not> Error_IsOk curl_status then ((curl_status, server_status_clear), ctx)
      else if \<not> easy_handle then ((no_easy_handle, server_status_clear), ctx)
      else
        (case perform (hc_url ctx @ ''?format=binary'') of
           Curl_error strerror \<Rightarrow> ((curl_failed strerror, server_status_clear), ctx)
         | Curl_answer http_code lines pieces \<Rightarrow>
             (let ctx1 = status_receive parse_status lines pieces ctx;
                  rs = returned_status ''status request did not return status'' (hc_request_status ctx1);
                  ctx2 = ctx1\<lparr>hc_request_status := rs\<rparr>
              in if http_code \<noteq> 200 \<or> rs_code rs \<noteq> SUCCESS then ((Error_status rs, server_status_clear), ctx2)
                 else
                   (case parse_server (hc_response ctx2) of
                      None \<Rightarrow> ((Error_msg INTERNAL ''failed to parse server status'', server_status_clear), ctx2)
                    | Some ss \<Rightarrow> ((Error_status rs, ss), ctx2)))))"

text \<open>Profile.\<close>

definition ProfileHttpContext :: "string \<Rightarrow> string" where
  "ProfileHttpContext url = url @ ''/'' @ ''api/profile''"

definition http_SendCommand ::
  "client_error \<Rightarrow> bool \<Rightarrow> (string \<Rightarrow> request_status option) \<Rightarrow> (string \<Rightarrow> curl_answer) \<Rightarrow> string \<Rightarrow> string \<Rightarrow> client_error" where
  "http_SendCommand curl_status easy_handle parse_status perform url cmd_str =
     (if \<not> Error_IsOk curl_status then curl_status
      else if \<not> easy_handle then no_easy_handle
      else
        (case perform (url @ ''?cmd='' @ cmd_str) of
           Curl_error strerror \<Rightarrow> curl_failed strerror
         | Curl_answer http_code lines pieces \<Rightarrow>
             Error_status (returned_status ''profile request did not return status''
               (foldl (\<lambda>rs l. status_ResponseHeaderHandler parse_status l rs) request_status_clear lines))))"

definition http_StartProfile ::
  "client_error \<Rightarrow> bool \<Rightarrow> (string \<Rightarrow> request_status option) \<Rightarrow> (string \<Rightarrow> curl_answer) \<Rightarrow> string \<Rightarrow> client_error" where
  "http_StartProfile curl_status easy_handle parse_status perform url =
     http_SendCommand curl_status easy_handle parse_status perform url ''start''"

definition http_StopProfile ::
  "client_error \<Rightarrow> bool \<Rightarrow> (string \<Rightarrow> request_status option) \<Rightarrow> (string \<Rightarrow> curl_answer) \<Rightarrow> string \<Rightarrow> client_error" where
  "http_StopProfile curl_status easy_handle parse_status perform url =
     http_SendCommand curl_status easy_handle parse_status perform url ''stop''"

section \<open>GRPC\<close>

text \<open>A channel is made once for each URL; \<open>create_channel\<close> is the call of GRPC.\<close>

definition GetChannel :: "(string \<Rightarrow> 'c) \<Rightarrow> string \<Rightarrow> (string \<rightharpoonup> 'c) \<Rightarrow> 'c \<times> (string \<rightharpoonup> 'c)" where
  "GetChannel create_channel url channel_map =
     (case channel_map url of
        Some channel \<Rightarrow> (channel, channel_map)
      | None \<Rightarrow> (let channel = create_channel url in (channel, channel_map(url \<mapsto> channel))))"

definition grpc_GetHealth ::
  "(string \<Rightarrow> grpc_status \<times> request_status \<times> bool) \<Rightarrow> string \<Rightarrow> bool \<Rightarrow> client_error \<times> bool" where
  "grpc_GetHealth stub mode health =
     (case stub mode of
        (Grpc_ok, rs, h) \<Rightarrow> (Error_status rs, h)
      | (Grpc_error code msg, rs, h) \<Rightarrow> (grpc_failed code msg, health))"

definition grpc_GetReady :: "(string \<Rightarrow> grpc_status \<times> request_status \<times> bool) \<Rightarrow> bool \<Rightarrow> client_error \<times> bool" where
  "grpc_GetReady stub ready = grpc_GetHealth stub ''ready'' ready"

definition grpc_GetLive :: "(string \<Rightarrow> grpc_status \<times> request_status \<times> bool) \<Rightarrow> bool \<Rightarrow> client_error \<times> bool" where
  "grpc_GetLive stub live = grpc_GetHealth stub ''live'' live"

definition grpc_GetServerStatus ::
  "(string \<Rightarrow> grpc_status \<times> request_status \<times> server_status) \<Rightarrow> string \<Rightarrow> client_error \<times> server_status" where
  "grpc_GetServerStatus stub model_name =
     (case stub model_name of
        (Grpc_ok, rs, ss) \<Rightarrow> (Error_status rs, ss)
      | (Grpc_error code msg, rs, ss) \<Rightarrow> (grpc_failed code msg, server_status_clear))"

definition grpc_SendCommand :: "(string \<Rightarrow> grpc_status \<times> request_status) \<Rightarrow> string \<Rightarrow> client_error" where
  "grpc_SendCommand stub cmd_str =
     (case stub cmd_str of
        (Grpc_ok, rs) \<Rightarrow> Error_status rs
      | (Grpc_error code msg, rs) \<Rightarrow> grpc_failed code msg)"

definition grpc_StartProfile :: "(string \<Rightarrow> grpc_status \<times> request_status) \<Rightarrow> client_error" where
  "grpc_StartProfile stub = grpc_SendCommand stub ''start''"

definition grpc_StopProfile :: "(string \<Rightarrow> grpc_status \<times> request_status) \<Rightarrow> client_error" where
  "grpc_StopProfile stub = grpc_SendCommand stub ''stop''"

section \<open>The contexts for requests\<close>

text \<open>
  \<open>InitHttp\<close> and \<open>InitGrpc\<close>: the context learns its inputs and outputs from the status of its model,
  and gets the request it uses for synchronous calls.
\<close>

definition InitHttp ::
  "(client_error \<times> server_status) \<Rightarrow> infer_context \<Rightarrow> client_error \<times> infer_context \<times> http_request option" where
  "InitHttp status_result ctx =
     (let (err, ctx1) = context_Init (if Error_IsOk (fst status_result) then Inr (snd status_result) else Inl (fst status_result)) ctx
      in (err, ctx1, if Error_IsOk err then Some (HttpRequestImpl 0 (ic_inputs ctx1)) else None))"

definition InitGrpc ::
  "(client_error \<times> server_status) \<Rightarrow> infer_context \<Rightarrow> client_error \<times> infer_context \<times> grpc_request option" where
  "InitGrpc status_result ctx =
     (let (err, ctx1) = context_Init (if Error_IsOk (fst status_result) then Inr (snd status_result) else Inl (fst status_result)) ctx
      in (err, ctx1, if Error_IsOk err then Some (GrpcRequestImpl 0) else None))"

text \<open>A context whose \<open>Init\<close> fails is not created.\<close>

definition InferHttpContext_Create ::
  "string \<Rightarrow> int \<Rightarrow> 64 word \<Rightarrow> (client_error \<times> server_status) \<Rightarrow> client_error \<times> (infer_context \<times> http_request) option" where
  "InferHttpContext_Create model_name model_version correlation_id status_result =
     (case InitHttp status_result (InferContextImpl model_name model_version correlation_id) of
        (err, ctx, Some r) \<Rightarrow> (err, Some (ctx, r))
      | (err, ctx, None) \<Rightarrow> (err, None))"

definition InferGrpcContext_Create ::
  "string \<Rightarrow> int \<Rightarrow> 64 word \<Rightarrow> (client_error \<times> server_status) \<Rightarrow> client_error \<times> (infer_context \<times> grpc_request) option" where
  "InferGrpcContext_Create model_name model_version correlation_id status_result =
     (case InitGrpc status_result (InferContextImpl model_name model_version correlation_id) of
        (err, ctx, Some r) \<Rightarrow> (err, Some (ctx, r))
      | (err, ctx, None) \<Rightarrow> (err, None))"

end
