(* ===== verification/Client_Contexts_Props.thy ===== *)
theory Client_Contexts_Props
  imports Client_Contexts Http_Round_Trip Server_Props
begin

text \<open>
  What the client library sees of a server: the contexts of \<open>request_http.cc\<close> against the handlers of
  \<open>http_server.cc\<close>, and those of \<open>request_grpc.cc\<close> against the contexts of \<open>grpc_server.cc\<close>.
\<close>

section \<open>A server behind libcurl\<close>

text \<open>
  A URL is the address of the server, the path and, after a question mark, one parameter. \<open>si_cut\<close> is how
  libcurl cuts the body into pieces; \<open>si_front\<close> and \<open>si_back\<close> are the lines around the headers.
\<close>

definition url_path :: "string \<Rightarrow> string \<Rightarrow> string" where
  "url_path server_url url = takeWhile (\<lambda>c. c \<noteq> CHR ''?'') (drop (length server_url) url)"

definition url_query :: "string \<Rightarrow> string \<Rightarrow> string \<rightharpoonup> string" where
  "url_query server_url url =
     (case dropWhile (\<lambda>c. c \<noteq> CHR ''?'') (drop (length server_url) url) of
        [] \<Rightarrow> Map.empty
      | _ # q \<Rightarrow> [takeWhile (\<lambda>c. c \<noteq> CHR ''='') q \<mapsto> drop 1 (dropWhile (\<lambda>c. c \<noteq> CHR ''='') q)])"

definition reply_code :: "evhtp_res \<Rightarrow> int" where
  "reply_code res = (case res of EVHTP_RES_OK \<Rightarrow> 200 | EVHTP_RES_BADREQ \<Rightarrow> 400 | EVHTP_RES_METHNALLOWED \<Rightarrow> 405)"

record 'ev site =
  si_url :: string
  si_env :: "'ev http_env"
  si_backends :: "nat \<Rightarrow> inference_backend"
  si_reporter :: "nat \<Rightarrow> int option"
  si_start :: timespec
  si_now :: timespec
  si_start_all :: status
  si_stop_all :: status
  si_endpoints :: "string list"
  si_front :: "string list"
  si_back :: "string list"
  si_empty :: 'ev
  si_bytes :: "'ev \<Rightarrow> bytes"
  si_cut :: "bytes \<Rightarrow> bytes list"

definition get_request :: "'ev site \<Rightarrow> string \<Rightarrow> 'ev evhtp_request" where
  "get_request si url =
     \<lparr>hq_method = htp_method_GET, hq_path = url_path (si_url si) url, hq_query = url_query (si_url si) url,
      hq_header_in = Map.empty, hq_peek_count = 0, hq_peek = (\<lambda>_. (0, [])), hq_buffer_out = si_empty si, hq_headers_out = []\<rparr>"

definition site_answers :: "'ev site \<Rightarrow> inference_server \<Rightarrow> string \<Rightarrow> curl_answer" where
  "site_answers si sv url =
     (case Handle (si_env si) (si_backends si) (si_reporter si) (si_start si) (si_now si) (si_start_all si) (si_stop_all si)
             (si_endpoints si) (get_request si url) sv of
        Returned (Infer_replied reply, sv1) \<Rightarrow>
          Curl_answer (reply_code (hp_code reply)) (reply_lines (si_front si) reply (si_back si)) (si_cut si (si_bytes si (hp_buffer reply)))
      | _ \<Rightarrow> Curl_error [])"

text \<open>Both sides read what the other writes; the lines around the headers are not status headers.\<close>

definition site_ok ::
  "'ev site \<Rightarrow> (string \<Rightarrow> request_status option) \<Rightarrow> (bytes \<Rightarrow> server_status option) \<Rightarrow> request_status \<Rightarrow> server_status \<Rightarrow> bool" where
  "site_ok si parse_status parse_server rs ss \<longleftrightarrow>
     parse_status ('' '' @ he_status_text (si_env si) rs @ crlf) = Some rs \<and>
     parse_server (he_server_binary (si_env si) ss) = Some ss \<and>
     si_bytes si (he_add (si_env si) (he_server_binary (si_env si) ss) (si_empty si)) = he_server_binary (si_env si) ss \<and>
     (\<forall>l \<in> set (si_front si @ si_back si). other_line l) \<and> (\<forall>bs. concat (si_cut si bs) = bs)"

section \<open>Health\<close>

lemma health_answer:
  assumes "''health'' \<in> set (si_endpoints si)" and "HandleHealth (si_now si) mode sv = (rs, health, sv1)"
    and "mode = ''ready'' \<or> mode = ''live''"
  shows "\<exists>code lines pieces. site_answers si sv (ServerHealthHttpContext (si_url si) @ ''/'' @ mode) = Curl_answer code lines pieces \<and>
    (code = 200 \<longleftrightarrow> health)"
proof -
  have path: "match_api (url_path (si_url si) (ServerHealthHttpContext (si_url si) @ ''/'' @ mode)) = Some (''health'', ''/'' @ mode)"
    using assms(3) by (auto simp: url_path_def ServerHealthHttpContext_def match_api_def line_def)
  have health: "match_health (''/'' @ mode) = Some mode"
    using assms(3) by (auto simp: match_health_def)
  have "Handle (si_env si) (si_backends si) (si_reporter si) (si_start si) (si_now si) (si_start_all si) (si_stop_all si)
      (si_endpoints si) (get_request si (ServerHealthHttpContext (si_url si) @ ''/'' @ mode)) sv =
    Returned (Infer_replied (send_reply (if health then EVHTP_RES_OK else EVHTP_RES_BADREQ)
        (add_header header_status (he_status_text (si_env si) rs) (get_request si (ServerHealthHttpContext (si_url si) @ ''/'' @ mode)))),
      report_stat (si_start si) (si_now si) STAT_HEALTH sv1)"
    using assms(1,2) health path by (simp add: Handle_def http_HandleHealth_def get_request_def)
  then show ?thesis
    by (simp add: site_answers_def reply_code_def send_reply_def)
qed

section \<open>Status\<close>

lemma match_api_status: "line rest \<Longrightarrow> match_api (''/api/status'' @ rest) = Some (''status'', rest)"
  by (simp add: match_api_def)

lemma status_lines:
  assumes "\<forall>l \<in> set ls. other_line l"
  shows "foldl (\<lambda>rs l. status_ResponseHeaderHandler ps l rs) rs ls = rs"
  using assms by (induction ls arbitrary: rs) (simp_all add: status_ResponseHeaderHandler_def other_line_def)

lemma status_header_lines:
  "status_ResponseHeaderHandler ps (header_line (''NV-Status'', v)) rs =
     (case ps ('' '' @ v @ crlf) of None \<Rightarrow> request_status_clear | Some rs1 \<Rightarrow> rs1)"
  "status_ResponseHeaderHandler ps (header_line (''Content-Type'', v)) rs = rs"
  by (simp_all add: status_ResponseHeaderHandler_def header_line_values)

lemma status_pieces:
  "foldl (\<lambda>c piece. status_ResponseHandler piece c) ctx pieces = ctx\<lparr>hc_response := hc_response ctx @ concat pieces\<rparr>"
  by (induction pieces arbitrary: ctx) (simp_all add: status_ResponseHandler_def)

lemma HandleStatus_code:
  assumes "HandleStatus now name sv = Returned (rs, st, sv1)"
  shows "st \<noteq> None \<Longrightarrow> rs_code rs = SUCCESS"
  using assms by (auto simp: HandleStatus_def NextRequestId_def Let_def RequestStatus_Create_status_def
      RequestStatus_Create_msg_def Status_Success_def split: if_splits sum.splits)

lemma status_answer:
  assumes ep: "''status'' \<in> set (si_endpoints si)" and name: "CHR ''?'' \<notin> set name" "line name"
    and st: "HandleStatus (si_now si) name sv = Returned (rs, st, sv1)" and ok: "site_ok si ps pss rs (case st of None \<Rightarrow> server_status_clear | Some ss \<Rightarrow> ss)"
    and code: "rs_code rs \<noteq> INVALID" "st = None \<longrightarrow> rs_code rs \<noteq> SUCCESS"
  shows "fst (http_GetServerStatus Error_Success True ps pss (site_answers si sv) (ServerStatusHttpContext_model (si_url si) name)) =
    (Error_status rs, case st of None \<Rightarrow> server_status_clear | Some ss \<Rightarrow> ss)"
proof -
  define url where "url = si_url si @ ''/'' @ ''api/status'' @ ''/'' @ name @ ''?format=binary''"
  define req where "req = get_request si url"
  let ?ss = "case st of None \<Rightarrow> server_status_clear | Some ss \<Rightarrow> ss"
  have tw: "takeWhile (\<lambda>c. c \<noteq> CHR ''?'') (name @ ''?format=binary'') = name"
    "dropWhile (\<lambda>c. c \<noteq> CHR ''?'') (name @ ''?format=binary'') = ''?format=binary''"
    using name(1) by (auto simp: takeWhile_append dropWhile_append takeWhile_eq_all_conv dropWhile_eq_Nil_conv)
  have path: "hq_path req = ''/api/status'' @ ''/'' @ name" and fmt: "reply_format req = ''binary''" and get: "hq_method req = htp_method_GET"
    and clean: "hq_headers_out req = []" "hq_buffer_out req = si_empty si"
    using tw by (simp_all add: req_def url_def get_request_def url_path_def url_query_def reply_format_def)
  have "line (''/'' @ name)" and ms: "match_status (''/'' @ name) = Some name"
    using name(2) by (simp_all add: line_def match_status_def)
  then have api: "match_api (hq_path req) = Some (''status'', ''/'' @ name)"
    unfolding path by (intro match_api_status)
  let ?req1 = "if rs_code rs = SUCCESS then add_header header_content_type octet_stream
      (req\<lparr>hq_buffer_out := he_add (si_env si) (he_server_binary (si_env si) ?ss) (hq_buffer_out req)\<rparr>) else req"
  let ?reply = "send_reply (status_code rs) (add_header header_status (he_status_text (si_env si) rs) ?req1)"
  have "Handle (si_env si) (si_backends si) (si_reporter si) (si_start si) (si_now si) (si_start_all si) (si_stop_all si)
      (si_endpoints si) (get_request si url) sv = Returned (Infer_replied ?reply, report_stat (si_start si) (si_now si) STAT_STATUS sv1)"
    using ep st unfolding req_def [symmetric] by (simp add: Handle_def http_HandleStatus_def api ms [simplified] fmt get Let_def)
  then have answer: "site_answers si sv url = Curl_answer (reply_code (hp_code ?reply))
      (reply_lines (si_front si) ?reply (si_back si)) (si_cut si (si_bytes si (hp_buffer ?reply)))"
    by (simp add: site_answers_def)
  have front: "\<forall>l \<in> set (si_front si). other_line l" and trailer: "\<forall>l \<in> set (si_back si). other_line l"
    and wire: "ps ('' '' @ he_status_text (si_env si) rs @ crlf) = Some rs" "pss (he_server_binary (si_env si) ?ss) = Some ?ss"
      "si_bytes si (he_add (si_env si) (he_server_binary (si_env si) ?ss) (si_empty si)) = he_server_binary (si_env si) ?ss"
      "\<And>bs. concat (si_cut si bs) = bs"
    using ok by (auto simp: site_ok_def)
  have headers: "foldl (\<lambda>rs l. status_ResponseHeaderHandler ps l rs) rs0 (reply_lines (si_front si) ?reply (si_back si)) = rs" for rs0
    using wire(1) by (cases "rs_code rs = SUCCESS")
      (simp_all add: reply_lines_def status_lines [OF front] status_lines [OF trailer] send_reply_def add_header_def clean
        status_header_lines)
  have rs: "returned_status msg rs = rs" for msg
    using code(1) by (simp add: returned_status_def)
  have url: "hc_url (ServerStatusHttpContext_model (si_url si) name) @ ''?format=binary'' = url"
    by (simp add: url_def ServerStatusHttpContext_model_def)
  define reply where "reply = ?reply"
  have code_ok: "reply_code (hp_code reply) = 200 \<longleftrightarrow> rs_code rs = SUCCESS"
    by (simp add: reply_def send_reply_def reply_code_def status_code_def)
  have body: "rs_code rs = SUCCESS \<Longrightarrow> concat (si_cut si (si_bytes si (hp_buffer reply))) = he_server_binary (si_env si) ?ss"
    using wire(3,4) by (simp add: reply_def send_reply_def add_header_def clean)
  note seen = answer [folded reply_def] headers [folded reply_def]
  show ?thesis
  proof (cases "rs_code rs = SUCCESS")
    case True
    then show ?thesis
      using body code_ok wire(2)
      by (simp add: http_GetServerStatus_def Let_def url seen status_receive_def status_pieces rs)
  next
    case False
    then have "st = None"
      using HandleStatus_code [OF st] by blast
    then show ?thesis
      using False
      by (simp add: http_GetServerStatus_def Let_def url seen status_receive_def status_pieces rs)
  qed
qed

section \<open>The clients agree\<close>

text \<open>The stub of GRPC, when the call reaches the server.\<close>

definition health_stub :: "'ev site \<Rightarrow> inference_server \<Rightarrow> string \<Rightarrow> grpc_status \<times> request_status \<times> bool" where
  "health_stub si sv mode = (let ((rs, health), sv1) = grpc_Health (si_start si) (si_now si) mode sv in (Grpc_ok, rs, health))"

definition status_stub :: "'ev site \<Rightarrow> inference_server \<Rightarrow> string \<Rightarrow> grpc_status \<times> request_status \<times> server_status" where
  "status_stub si sv model_name =
     (case grpc_Status (si_start si) (si_now si) model_name sv of
        Thrown \<Rightarrow> (Grpc_error 14 [], request_status_clear, server_status_clear)
      | Returned ((rs, ss), sv1) \<Rightarrow> (Grpc_ok, rs, ss))"

lemma health_seen:
  assumes "''health'' \<in> set (si_endpoints si)" and "HandleHealth (si_now si) mode sv = (rs, health, sv1)"
    and "mode = ''ready'' \<or> mode = ''live''"
  shows "http_GetHealth Error_Success True (site_answers si sv) (ServerHealthHttpContext (si_url si) @ ''/'' @ mode) h0 = (Error_Success, health)"
    and "grpc_GetHealth (health_stub si sv) mode h0 = (Error_status rs, health)"
proof -
  show "http_GetHealth Error_Success True (site_answers si sv) (ServerHealthHttpContext (si_url si) @ ''/'' @ mode) h0 = (Error_Success, health)"
    using health_answer [OF assms] by (auto simp: http_GetHealth_def)
  show "grpc_GetHealth (health_stub si sv) mode h0 = (Error_status rs, health)"
    by (simp add: grpc_GetHealth_def health_stub_def grpc_Health_def assms(2))
qed

lemma contexts_agree:
  assumes ep: "''status'' \<in> set (si_endpoints si)" and name: "CHR ''?'' \<notin> set name" "line name"
    and st: "HandleStatus (si_now si) name sv = Returned (rs, st, sv1)" and ok: "site_ok si ps pss rs (case st of None \<Rightarrow> server_status_clear | Some ss \<Rightarrow> ss)"
    and code: "rs_code rs \<noteq> INVALID" "st = None \<longrightarrow> rs_code rs \<noteq> SUCCESS"
  shows "fst (http_GetServerStatus Error_Success True ps pss (site_answers si sv) (ServerStatusHttpContext_model (si_url si) name)) =
      grpc_GetServerStatus (status_stub si sv) name"
    and "grpc_GetServerStatus (status_stub si sv) name = (Error_status rs, case st of None \<Rightarrow> server_status_clear | Some ss \<Rightarrow> ss)"
proof -
  show "grpc_GetServerStatus (status_stub si sv) name = (Error_status rs, case st of None \<Rightarrow> server_status_clear | Some ss \<Rightarrow> ss)"
    by (simp add: grpc_GetServerStatus_def status_stub_def grpc_Status_def st)
  then show "fst (http_GetServerStatus Error_Success True ps pss (site_answers si sv) (ServerStatusHttpContext_model (si_url si) name)) =
      grpc_GetServerStatus (status_stub si sv) name"
    using status_answer [OF assms] by simp
qed


definition example_site :: "bytes site" where
  "example_site = \<lparr>si_url = ''host'', si_env = reply_env, si_backends = (\<lambda>_. inference_backend_new), si_reporter = (\<lambda>_. None),
     si_start = (0, 0), si_now = (2, 0), si_start_all = Status_Success, si_stop_all = Status_Success,
     si_endpoints = [''health'', ''status''], si_front = [''HTTP/1.1 200 OK''], si_back = [[]], si_empty = [],
     si_bytes = (\<lambda>bs. bs), si_cut = (\<lambda>bs. [bs])\<rparr>"


end
