(* ===== verification/Custom_Backend.thy ===== *)
theory Custom_Backend
  imports Request_Provider Response_Provider Server_Status
begin

text \<open>
  \<open>src/backends/custom/custom_backend.cc\<close> and \<open>loader.cc\<close>, with the C interface \<open>custom.h\<close>: a backend
  whose computation is a shared library. A library is the record of its functions, and gets the
  requests of a batch as C structures with two callbacks; \<open>dlopen\<close> is a parameter, and so is the
  response provider of a request with its virtual \<open>AllocateOutputBuffer\<close> and the memory behind its
  pointers.
\<close>

section \<open>The interface of a library\<close>

text \<open>
  \<open>CustomPayload\<close>: the arrays of names and shapes are lists; \<open>input_context\<close> and \<open>output_context\<close>, which
  are one pointer, are what the callbacks work on.
\<close>

record 's custom_payload =
  cp_batch_size :: "32 word"
  cp_inputs :: "(string \<times> int list) list"
  cp_outputs :: "string list"
  cp_context :: 's
  cp_error_code :: int

text \<open>
  \<open>CustomGetNextInput\<close> gets a name and a size hint, and gives success, the content and its size;
  \<open>CustomGetOutput\<close> gets a name, a shape and a size, and gives success and a pointer.
  \<open>fn_write p k bs\<close> copies bytes to the pointer \<open>p\<close> plus \<open>k\<close>.
\<close>

record 's custom_fns =
  fn_input :: "string \<Rightarrow> nat \<Rightarrow> 's \<Rightarrow> bool \<times> chunk \<times> 's"
  fn_output :: "string \<Rightarrow> int list \<Rightarrow> nat \<Rightarrow> 's \<Rightarrow> bool \<times> out_ptr \<times> 's"
  fn_write :: "out_ptr \<Rightarrow> nat \<Rightarrow> bytes \<Rightarrow> 's \<Rightarrow> 's"

record custom_initialize_data =
  in_instance_name :: string
  in_model_config :: model_config
  in_gpu_device_id :: int
  in_server_parameters :: "string list"

text \<open>The handle of a custom context may be null. An execution that does not return is \<open>None\<close>.\<close>

record ('c, 's) custom_library =
  InitializeFn :: "custom_initialize_data \<Rightarrow> int \<times> 'c option"
  FinalizeFn :: "'c option \<Rightarrow> int"
  ErrorStringFn :: "'c option \<Rightarrow> int \<Rightarrow> string option"
  ExecuteFn :: "'c option \<Rightarrow> 's custom_payload list \<Rightarrow> 's custom_fns \<Rightarrow> (int \<times> 'c option \<times> 's custom_payload list) option"

section \<open>Loading a library\<close>

text \<open>What \<open>dlsym\<close> finds for an entry point: the text of an error, or an address, which may be null.\<close>

type_synonym 'f entrypoint = "string + 'f option"

record ('c, 's) shared_object =
  sl_Initialize :: "(custom_initialize_data \<Rightarrow> int \<times> 'c option) entrypoint"
  sl_Finalize :: "('c option \<Rightarrow> int) entrypoint"
  sl_ErrorString :: "('c option \<Rightarrow> int \<Rightarrow> string option) entrypoint"
  sl_Execute :: "('c option \<Rightarrow> 's custom_payload list \<Rightarrow> 's custom_fns \<Rightarrow> (int \<times> 'c option \<times> 's custom_payload list) option) entrypoint"

definition GetEntrypoint :: "string \<Rightarrow> 'f entrypoint \<Rightarrow> status + 'f" where
  "GetEntrypoint name found =
     (case found of
        Inl errstr \<Rightarrow> Inl (Status NOT_FOUND (''unable to find '' @ quote name @ '' entrypoint in custom library: '' @ errstr))
      | Inr None \<Rightarrow> Inl (Status NOT_FOUND (''unable to find '' @ quote name @ '' entrypoint in custom library''))
      | Inr (Some fn) \<Rightarrow> Inr fn)"

definition LoadCustom ::
  "(string \<Rightarrow> string + ('c, 's) shared_object) \<Rightarrow> string \<Rightarrow> status + ('c, 's) custom_library" where
  "LoadCustom dlopen path =
     (case dlopen path of
        Inl errstr \<Rightarrow> Inl (Status NOT_FOUND (''unable to load custom library: '' @ errstr))
      | Inr handle \<Rightarrow>
          bind_status (GetEntrypoint ''CustomInitialize'' (sl_Initialize handle)) (\<lambda>init_fn.
          bind_status (GetEntrypoint ''CustomFinalize'' (sl_Finalize handle)) (\<lambda>fini_fn.
          bind_status (GetEntrypoint ''CustomErrorString'' (sl_ErrorString handle)) (\<lambda>errstr_fn.
          bind_status (GetEntrypoint ''CustomExecute'' (sl_Execute handle)) (\<lambda>exec_fn.
            Inr \<lparr>InitializeFn = init_fn, FinalizeFn = fini_fn, ErrorStringFn = errstr_fn, ExecuteFn = exec_fn\<rparr>)))))"

section \<open>Contexts\<close>

text \<open>A context has no functions before its library is loaded.\<close>

record ('c, 's) custom_context =
  cx_name :: string
  cx_gpu_device :: int
  cx_max_batch_size :: int
  cx_library :: "('c, 's) custom_library option"
  cx_library_context :: "'c option"

abbreviation (input) NO_GPU_DEVICE :: int where "NO_GPU_DEVICE \<equiv> - 1"

abbreviation (input) NO_BATCHING :: int where "NO_BATCHING \<equiv> 0"

definition Context :: "string \<Rightarrow> int \<Rightarrow> int \<Rightarrow> ('c, 's) custom_context" where
  "Context name gpu_device max_batch_size =
     \<lparr>cx_name = name, cx_gpu_device = gpu_device, cx_max_batch_size = max_batch_size, cx_library = None,
      cx_library_context = None\<rparr>"

definition LibraryErrorString :: "('c, 's) custom_context \<Rightarrow> int \<Rightarrow> string" where
  "LibraryErrorString ctx err =
     (case cx_library ctx of
        None \<Rightarrow> ''<no error string>''
      | Some lib \<Rightarrow>
          (case ErrorStringFn lib (cx_library_context ctx) err of None \<Rightarrow> ''<no error string>'' | Some str \<Rightarrow> str))"

text \<open>The destructor: what \<open>CustomFinalize\<close> says, if it is called.\<close>

definition Context_destroy :: "('c, 's) custom_context \<Rightarrow> int option" where
  "Context_destroy ctx = map_option (\<lambda>lib. FinalizeFn lib (cx_library_context ctx)) (cx_library ctx)"

section \<open>The backend\<close>

text \<open>
  \<open>cb_cc_model_filenames\<close> is the map of the configuration from a compute capability to a file. The properties
  of a device are the major and minor number of its compute capability, or the text of an error.
\<close>

record ('c, 's) custom_backend =
  cb_backend :: inference_backend
  cb_cc_model_filenames :: "string \<rightharpoonup> string"
  cb_server_params :: "string list"
  cb_contexts :: "('c, 's) custom_context list"

definition custom_Init ::
  "cuda_result \<Rightarrow> (string \<Rightarrow> int option) \<Rightarrow> (string \<Rightarrow> status + string) \<Rightarrow> string \<Rightarrow> string list \<Rightarrow>
   model_config \<Rightarrow> ('c, 's) custom_backend \<Rightarrow> status \<times> ('c, 's) custom_backend" where
  "custom_Init cuda simple_atoi read_text_file path server_params config be =
     (let st = ValidateModelConfig cuda config kCustomPlatform in
      if \<not> IsOk st then (st, be)
      else
        (let (st1, b) = SetModelConfig simple_atoi read_text_file path config (cb_backend be);
             be1 = be\<lparr>cb_backend := b\<rparr>
         in if \<not> IsOk st1 then (st1, be1) else (Status_Success, be1\<lparr>cb_server_params := server_params\<rparr>)))"

definition cc_filename ::
  "(int \<Rightarrow> string + int \<times> int) \<Rightarrow> int \<Rightarrow> ('c, 's) custom_backend \<Rightarrow> status + string" where
  "cc_filename device_properties gpu_device be =
     (if gpu_device = NO_GPU_DEVICE then Inr (mc_default_model_filename (ib_config (cb_backend be)))
      else
        (case device_properties gpu_device of
           Inl cuerr \<Rightarrow> Inl (Status INTERNAL (''unable to get CUDA device properties for '' @ ib_Name (cb_backend be) @ '': '' @ cuerr))
         | Inr (major, minor) \<Rightarrow>
             Inr (case cb_cc_model_filenames be (show_int major @ ''.'' @ show_int minor) of
                    None \<Rightarrow> mc_default_model_filename (ib_config (cb_backend be))
                  | Some f \<Rightarrow> f)))"

definition CreateExecutionContext ::
  "(int \<Rightarrow> string + int \<times> int) \<Rightarrow> (string \<Rightarrow> string + ('c, 's) shared_object) \<Rightarrow> (string \<rightharpoonup> string) \<Rightarrow> string \<Rightarrow> int \<Rightarrow>
   ('c, 's) custom_backend \<Rightarrow> status \<times> ('c, 's) custom_backend" where
  "CreateExecutionContext device_properties dlopen libraries instance_name gpu_device be =
     (case cc_filename device_properties gpu_device be of
        Inl e \<Rightarrow> (e, be)
      | Inr cc_model_filename \<Rightarrow>
          (case libraries cc_model_filename of
             None \<Rightarrow> (Status INTERNAL (''unable to find Custom model '' @ quote cc_model_filename @ '' for '' @ ib_Name (cb_backend be)), be)
           | Some path \<Rightarrow>
               (let config = ib_config (cb_backend be);
                    mbs = (if mc_max_batch_size config \<le> 0 then NO_BATCHING else mc_max_batch_size config);
                    context = Context instance_name gpu_device mbs
                in case LoadCustom dlopen path of
                     Inl e \<Rightarrow> (e, be\<lparr>cb_contexts := cb_contexts be @ [context]\<rparr>)
                   | Inr lib \<Rightarrow>
                       (Status_Success, be\<lparr>cb_contexts := cb_contexts be @ [context\<lparr>cx_library := Some lib\<rparr>]\<rparr>))))"

text \<open>The instances of a group, by the name and the device of each.\<close>

definition group_instances :: "instance_group \<Rightarrow> (string \<times> int) list" where
  "group_instances grp =
     concat (map (\<lambda>c. if ig_kind grp = KIND_CPU then [(ig_name grp @ ''_'' @ show_nat c @ ''_cpu'', NO_GPU_DEVICE)]
                      else map (\<lambda>gpu_device. (ig_name grp @ ''_'' @ show_nat c @ ''_gpu'' @ show_int gpu_device, gpu_device)) (ig_gpus grp))
       [0..<nat (ig_count grp)])"

fun create_contexts ::
  "(string \<Rightarrow> int \<Rightarrow> ('c, 's) custom_backend \<Rightarrow> status \<times> ('c, 's) custom_backend) \<Rightarrow> (string \<times> int) list \<Rightarrow>
   ('c, 's) custom_backend \<Rightarrow> status \<times> ('c, 's) custom_backend" where
  "create_contexts create [] be = (Status_Success, be)"
| "create_contexts create ((instance_name, gpu_device) # is) be =
     (let (st, be1) = create instance_name gpu_device be in
      if \<not> IsOk st then (st, be1) else create_contexts create is be1)"

text \<open>The second result is the number of runners the scheduler gets.\<close>

definition CreateExecutionContexts ::
  "(int \<Rightarrow> string + int \<times> int) \<Rightarrow> (string \<Rightarrow> string + ('c, 's) shared_object) \<Rightarrow> (model_config \<Rightarrow> status) \<Rightarrow>
   (string \<rightharpoonup> string) \<Rightarrow> ('c, 's) custom_backend \<Rightarrow> status \<times> nat \<times> ('c, 's) custom_backend" where
  "CreateExecutionContexts device_properties dlopen create_sequence libraries be =
     (let instances = concat (map group_instances (mc_instance_group (ib_config (cb_backend be))));
          (st, be1) = create_contexts (CreateExecutionContext device_properties dlopen libraries) instances be
      in if \<not> IsOk st then (st, 0, be1)
         else
           (let (st1, b) = SetConfiguredScheduler create_sequence (cb_backend be1)
            in (st1, if IsOk st1 then length instances else 0, be1\<lparr>cb_backend := b\<rparr>)))"

definition runner_error :: "nat \<Rightarrow> nat \<Rightarrow> status" where
  "runner_error runner_idx n =
     Status INTERNAL (''unexpected runner index'' @ show_nat runner_idx @ '', max allowed '' @ show_nat n)"

text \<open>A context whose library is not loaded is never reached by a runner: its backend is not created.\<close>

definition InitBackend :: "nat \<Rightarrow> ('c, 's) custom_backend \<Rightarrow> status \<times> ('c, 's) custom_backend" where
  "InitBackend runner_idx be =
     (if runner_idx \<ge> length (cb_contexts be) then (runner_error runner_idx (length (cb_contexts be)), be)
      else
        (let context = cb_contexts be ! runner_idx in
         case cx_library context of
           None \<Rightarrow> (Status INTERNAL [], be)
         | Some lib \<Rightarrow>
             (let (err, lc) = InitializeFn lib
                    \<lparr>in_instance_name = cx_name context, in_model_config = ib_config (cb_backend be),
                     in_gpu_device_id = cx_gpu_device context, in_server_parameters = cb_server_params be\<rparr>;
                  context1 = context\<lparr>cx_library_context := lc\<rparr>;
                  be1 = be\<lparr>cb_contexts := (cb_contexts be)[runner_idx := context1]\<rparr>
              in if err \<noteq> 0 then
                   (Status INTERNAL (''initialize error for '' @ quote (ib_Name (cb_backend be)) @ '': ('' @ show_int err @ '') '' @
                      LibraryErrorString context1 err), be1)
                 else (Status_Success, be1))))"

text \<open>Bytes written at an offset.\<close>

definition overwrite :: "nat \<Rightarrow> bytes \<Rightarrow> bytes \<Rightarrow> bytes" where
  "overwrite off bs old = take off old @ bs @ drop (off + length bs) old"

section \<open>Running a batch\<close>

text \<open>
  A payload with its providers, where \<open>Scheduler\<close> knows them by name only. The memory of the
  response provider is part of it.
\<close>

record 'r run_payload =
  rn_queue_timer :: "scoped_timer option"
  rn_stats :: "model_infer_stats option"
  rn_request :: infer_request_provider
  rn_response :: "'r option"
  rn_status :: status

record 'r response_ops =
  ro_allocate :: "string \<Rightarrow> nat \<Rightarrow> int list \<Rightarrow> 'r \<Rightarrow> status \<times> out_ptr \<times> 'r"
  ro_write :: "out_ptr \<Rightarrow> nat \<Rightarrow> bytes \<Rightarrow> 'r \<Rightarrow> 'r"

text \<open>\<open>GetInputOutputContext\<close>: what the callbacks can reach of a payload.\<close>

type_synonym 'r io_context = "infer_request_provider \<times> 'r option"

definition custom_GetNextInput :: "string \<Rightarrow> nat \<Rightarrow> 'r io_context \<Rightarrow> bool \<times> chunk \<times> 'r io_context" where
  "custom_GetNextInput name content_byte_size ctx =
     (let (status, out, p) = GetNextInputContent name (None, content_byte_size) False (fst ctx)
      in (IsOk status, out, (p, snd ctx)))"

definition custom_GetOutput ::
  "'r response_ops \<Rightarrow> string \<Rightarrow> int list \<Rightarrow> nat \<Rightarrow> 'r io_context \<Rightarrow> bool \<times> out_ptr \<times> 'r io_context" where
  "custom_GetOutput ops name shape content_byte_size ctx =
     (case snd ctx of
        None \<Rightarrow> (True, Null_ptr, ctx)
      | Some r \<Rightarrow>
          (let (status, content, r1) = ro_allocate ops name content_byte_size shape r
           in (IsOk status, content, (fst ctx, Some r1))))"

definition custom_callbacks :: "'r response_ops \<Rightarrow> 'r io_context custom_fns" where
  "custom_callbacks ops =
     \<lparr>fn_input = custom_GetNextInput, fn_output = custom_GetOutput ops,
      fn_write = (\<lambda>p k bs ctx. (fst ctx, map_option (ro_write ops p k bs) (snd ctx)))\<rparr>"

text \<open>The shapes are those of the first request; the sum of the batch sizes is a 32-bit number.\<close>

definition input_shapes :: "'r run_payload list \<Rightarrow> string \<rightharpoonup> int list" where
  "input_shapes payloads =
     (case payloads of
        [] \<Rightarrow> Map.empty
      | p # ps \<Rightarrow> foldl (\<lambda>m i. map_insert (ri_name i) (ri_dims i) m) Map.empty (rh_input (ip_request_header (rn_request p))))"

fun total_batch :: "string \<Rightarrow> 'r run_payload list \<Rightarrow> 32 word \<Rightarrow> status + 32 word" where
  "total_batch name [] total_batch_size = Inr total_batch_size"
| "total_batch name (p # ps) total_batch_size =
     (if \<not> IsOk (rn_status p) then
        Inl (Status INTERNAL (''unexpected payload with non-OK status given to custom runner for '' @ quote name))
      else total_batch name ps (total_batch_size + rh_batch_size (ip_request_header (rn_request p))))"

fun payload_inputs :: "string \<Rightarrow> (string \<rightharpoonup> int list) \<Rightarrow> request_input list \<Rightarrow> status + (string \<times> int list) list" where
  "payload_inputs name shapes [] = Inr []"
| "payload_inputs name shapes (i # is) =
     (case shapes (ri_name i) of
        None \<Rightarrow> Inl (Status INTERNAL (''unable to find shape for input '' @ quote (ri_name i) @ '' for '' @ quote name))
      | Some shape \<Rightarrow> bind_status (payload_inputs name shapes is) (\<lambda>xs. Inr ((ri_name i, shape) # xs)))"

definition custom_payload_of :: "(string \<times> int list) list \<Rightarrow> 'r run_payload \<Rightarrow> 'r io_context custom_payload" where
  "custom_payload_of inputs p =
     (let h = ip_request_header (rn_request p) in
      \<lparr>cp_batch_size = rh_batch_size h, cp_inputs = inputs, cp_outputs = map ro_name (rh_output h),
       cp_context = (rn_request p, rn_response p), cp_error_code = 0\<rparr>)"

fun custom_payloads ::
  "string \<Rightarrow> (string \<rightharpoonup> int list) \<Rightarrow> 'r run_payload list \<Rightarrow> status + 'r io_context custom_payload list" where
  "custom_payloads name shapes [] = Inr []"
| "custom_payloads name shapes (p # ps) =
     bind_status (payload_inputs name shapes (rh_input (ip_request_header (rn_request p)))) (\<lambda>inputs.
     bind_status (custom_payloads name shapes ps) (\<lambda>cps. Inr (custom_payload_of inputs p # cps)))"

text \<open>After the execution: the library has used the providers; its errors go back to the payloads.\<close>

definition used_payload :: "'r io_context custom_payload \<Rightarrow> 'r run_payload \<Rightarrow> 'r run_payload" where
  "used_payload cp p = p\<lparr>rn_request := fst (cp_context cp), rn_response := snd (cp_context cp)\<rparr>"

definition transfer_error ::
  "('c, 's) custom_context \<Rightarrow> 'r io_context custom_payload \<Rightarrow> 'r run_payload \<Rightarrow> 'r run_payload" where
  "transfer_error ctx cp p =
     (if cp_error_code cp \<noteq> 0 then
        p\<lparr>rn_status := Status INTERNAL (''payload error for '' @ quote (cx_name ctx) @ '': ('' @ show_int (cp_error_code cp) @ '') '' @
            LibraryErrorString ctx (cp_error_code cp))\<rparr>
      else p)"

definition Run ::
  "'r response_ops \<Rightarrow> ('c, 'r io_context) custom_context \<Rightarrow> 'r run_payload list \<Rightarrow>
   (status \<times> ('c, 'r io_context) custom_context \<times> 'r run_payload list) option" where
  "Run ops ctx payloads =
     (case total_batch (cx_name ctx) payloads 0 of
        Inl e \<Rightarrow> Some (e, ctx, payloads)
      | Inr total_batch_size \<Rightarrow>
          if total_batch_size = 0 then Some (Status_Success, ctx, payloads)
          else if total_batch_size \<noteq> 1 \<and> total_batch_size > of_int (cx_max_batch_size ctx) then
            Some (Status INTERNAL (''dynamic batch size '' @ show_nat (unat total_batch_size) @ '' for '' @ quote (cx_name ctx) @
              '', max allowed is '' @ show_int (cx_max_batch_size ctx)), ctx, payloads)
          else
            (case custom_payloads (cx_name ctx) (input_shapes payloads) payloads of
               Inl e \<Rightarrow> Some (e, ctx, payloads)
             | Inr cps \<Rightarrow>
                 (case cx_library ctx of
                    None \<Rightarrow> None
                  | Some lib \<Rightarrow>
                      (case ExecuteFn lib (cx_library_context ctx) cps (custom_callbacks ops) of
                         None \<Rightarrow> None
                       | Some (err, lc, cps1) \<Rightarrow>
                           (let ctx1 = ctx\<lparr>cx_library_context := lc\<rparr>;
                                payloads1 = map2 used_payload cps1 payloads
                            in if err \<noteq> 0 then
                                 Some (Status INTERNAL (''execute error for '' @ quote (cx_name ctx) @ '': ('' @ show_int err @ '') '' @
                                   LibraryErrorString ctx1 err), ctx1, payloads1)
                               else Some (Status_Success, ctx1, map2 (transfer_error ctx1) cps1 payloads1))))))"

text \<open>
  \<open>now\<close> is the time at which the queue timers stop and the compute timers start, \<open>finish\<close> the time at
  which \<open>RunBackend\<close> returns. The result is what \<open>OnCompleteQueuedPayloads\<close> gets, and the statistics
  as the compute timers leave them.
\<close>

definition start_payload :: "timespec \<Rightarrow> 'r run_payload \<Rightarrow> 'r run_payload" where
  "start_payload now p =
     (case rn_queue_timer p of
        None \<Rightarrow> p
      | Some tm \<Rightarrow> p\<lparr>rn_queue_timer := None, rn_stats := map_option (timer_destroy now tm) (rn_stats p)\<rparr>)"

definition stop_compute :: "timespec \<Rightarrow> timespec \<Rightarrow> 'r run_payload \<Rightarrow> 'r run_payload" where
  "stop_compute now finish p =
     p\<lparr>rn_stats := map_option (timer_destroy finish (StartTimer Compute_duration now ScopedTimer)) (rn_stats p)\<rparr>"

definition RunBackend ::
  "'r response_ops \<Rightarrow> timespec \<Rightarrow> timespec \<Rightarrow> nat \<Rightarrow> 'r run_payload list \<Rightarrow> ('c, 'r io_context) custom_backend \<Rightarrow>
   (status \<times> 'r run_payload list \<times> 'r run_payload list \<times> ('c, 'r io_context) custom_backend) option" where
  "RunBackend ops now finish runner_idx payloads be =
     (if runner_idx \<ge> length (cb_contexts be) then
        Some (runner_error runner_idx (length (cb_contexts be)), payloads, payloads, be)
      else
        (case Run ops (cb_contexts be ! runner_idx) (map (start_payload now) payloads) of
           None \<Rightarrow> None
         | Some (st, ctx, payloads1) \<Rightarrow>
             Some (st, payloads1, map (stop_compute now finish) payloads1,
               be\<lparr>cb_contexts := (cb_contexts be)[runner_idx := ctx]\<rparr>)))"

end
