(* ===== verification/Custom_Libraries.thy ===== *)
theory Custom_Libraries
  imports Custom_Backend Client_Input
begin

text \<open>
  The libraries for custom backends of the repository: \<open>src/custom/identity\<close>, \<open>param\<close>, \<open>addsub\<close> and \<open>sequence\<close>.
  Each is a context with \<open>Init\<close> and \<open>Execute\<close> behind the four functions of \<open>custom.h\<close>. The loops
  that read an input end only when the callback says so; a loop that does not end is \<open>None\<close>. Signed
  addition wraps around; the addition and subtraction of floats are parameters.
\<close>

abbreviation (input) CUSTOM_NO_GPU_DEVICE :: int where "CUSTOM_NO_GPU_DEVICE \<equiv> - 1"

abbreviation (input) kSuccess :: int where "kSuccess \<equiv> 0"

abbreviation (input) kUnknown :: int where "kUnknown \<equiv> 1"

definition element32 :: "bytes \<Rightarrow> nat \<Rightarrow> 32 word" where
  "element32 bs i = horner_sum ucast 256 (take 4 (drop (4 * i) bs))"

text \<open>
  The four functions: \<open>CustomExecute\<close> needs a context, \<open>CustomFinalize\<close> always succeeds; the
  configuration the server serializes is the one the library parses.
\<close>

definition library_of ::
  "(custom_initialize_data \<Rightarrow> int + 'c) \<Rightarrow> (int \<Rightarrow> string) \<Rightarrow>
   ('c \<Rightarrow> 's custom_payload list \<Rightarrow> 's custom_fns \<Rightarrow> (int \<times> 'c \<times> 's custom_payload list) option) \<Rightarrow>
   ('c, 's) custom_library" where
  "library_of create error_string execute =
     \<lparr>InitializeFn = (\<lambda>data. case create data of Inl err \<Rightarrow> (err, None) | Inr c \<Rightarrow> (kSuccess, Some c)),
      FinalizeFn = (\<lambda>_. kSuccess),
      ErrorStringFn = (\<lambda>_ err. Some (error_string err)),
      ExecuteFn = (\<lambda>context payloads fns.
        case context of
          None \<Rightarrow> Some (kUnknown, None, payloads)
        | Some c \<Rightarrow>
            (case execute c payloads fns of
               None \<Rightarrow> None
             | Some (err, c1, payloads1) \<Rightarrow> Some (err, Some c1, payloads1)))\<rparr>"

section \<open>identity\<close>

subsection \<open>Initialization\<close>

text \<open>\<open>kInvalidModelConfig\<close> is 2, \<open>kGpuNotSupported\<close> 3 and so on, in the order of the enumeration.\<close>

record identity_context =
  id_max_batch_size :: int
  id_copy_map :: "string \<rightharpoonup> string \<times> data_type"

fun identity_pairs :: "(model_input \<times> model_output) list \<Rightarrow> (string \<rightharpoonup> string \<times> data_type) \<Rightarrow> int + (string \<rightharpoonup> string \<times> data_type)" where
  "identity_pairs [] copy_map = Inr copy_map"
| "identity_pairs ((i, out) # ps) copy_map =
     (let input_shape = (case mi_reshape i of Some s \<Rightarrow> s | None \<Rightarrow> mi_dims i);
          output_shape = (case mo_reshape out of Some s \<Rightarrow> s | None \<Rightarrow> mo_dims out)
      in if \<not> CompareDims input_shape output_shape then Inl 4
         else if mi_data_type i \<noteq> mo_data_type out then Inl 6
         else if take 5 (mi_name i) \<noteq> ''INPUT'' \<or> take 6 (mo_name out) \<noteq> ''OUTPUT'' \<or>
            drop 5 (mi_name i) \<noteq> drop 6 (mo_name out) then Inl 5
         else identity_pairs ps (copy_map(mo_name out \<mapsto> (mi_name i, mo_data_type out))))"

definition identity_Init :: "int \<Rightarrow> model_config \<Rightarrow> int + identity_context" where
  "identity_Init gpu_device config =
     (if gpu_device \<noteq> CUSTOM_NO_GPU_DEVICE then Inl 3
      else if length (mc_input config) \<noteq> length (mc_output config) then Inl 4
      else
        (case identity_pairs (zip (mc_input config) (mc_output config)) Map.empty of
           Inl err \<Rightarrow> Inl err
         | Inr copy_map \<Rightarrow> Inr \<lparr>id_max_batch_size = mc_max_batch_size config, id_copy_map = copy_map\<rparr>))"

definition identity_ErrorString :: "int \<Rightarrow> string" where
  "identity_ErrorString errcode =
     (if errcode = 0 then ''success''
      else if errcode = 2 then ''invalid model configuration''
      else if errcode = 3 then ''execution on GPU not supported''
      else if errcode = 4 then ''model must have equal input/output pairs with matching shape''
      else if errcode = 5 then ''model input/output pairs must be named '' @ quote ''INPUTn'' @ '' and '' @ quote ''OUTPUTn''
      else if errcode = 6 then ''model input/output pairs must have same data-type''
      else if errcode = 7 then ''unable to get input tensor values''
      else if errcode = 8 then ''unexpected size for input tensor''
      else if errcode = 9 then ''inference request for unknown output''
      else if errcode = 10 then ''unable to get buffer for output tensor values''
      else ''unknown error'')"

subsection \<open>Execution\<close>

text \<open>The loop that copies an input to the output buffer, chunk by chunk.\<close>

partial_function (option) identity_copy ::
  "'s custom_fns \<Rightarrow> string \<Rightarrow> out_ptr \<Rightarrow> 64 word \<Rightarrow> 's \<Rightarrow> (int \<times> 's) option" where
  "identity_copy fns input_name output_buffer total_byte_size s =
     (case fn_input fns input_name (128 * 1024) s of
        (ok, (content, content_byte_size), s1) \<Rightarrow>
          if \<not> ok then Some (7, s1)
          else
            (case content of
               None \<Rightarrow> Some (0, s1)
             | Some b \<Rightarrow>
                 identity_copy fns input_name output_buffer (total_byte_size + of_nat content_byte_size)
                   (fn_write fns output_buffer (unat total_byte_size) (take content_byte_size b) s1)))"

definition identity_shape :: "int \<Rightarrow> string \<Rightarrow> 's custom_payload \<Rightarrow> int list" where
  "identity_shape max_batch_size input_name p =
     (if max_batch_size \<noteq> 0 then [int (unat (cp_batch_size p))] else []) @
     (case map_of (cp_inputs p) input_name of None \<Rightarrow> [] | Some dims \<Rightarrow> dims)"

fun identity_outputs ::
  "identity_context \<Rightarrow> 's custom_fns \<Rightarrow> string list \<Rightarrow> 's custom_payload \<Rightarrow> 's custom_payload option" where
  "identity_outputs c fns [] p = Some p"
| "identity_outputs c fns (output_cname # os) p =
     (if cp_error_code p \<noteq> 0 then Some p
      else
        (case id_copy_map c output_cname of
           None \<Rightarrow> Some (p\<lparr>cp_error_code := 9\<rparr>)
         | Some (input_name, datatype) \<Rightarrow>
             (let shape = identity_shape (id_max_batch_size c) input_name p;
                  batchn_byte_size = GetByteSize datatype shape
              in if batchn_byte_size < 0 then Some (p\<lparr>cp_error_code := 10\<rparr>)
                 else
                   (case fn_output fns output_cname shape (nat batchn_byte_size) (cp_context p) of
                      (ok, obuffer, s1) \<Rightarrow>
                        if \<not> ok then Some (p\<lparr>cp_context := s1, cp_error_code := 10\<rparr>)
                        else if obuffer = Null_ptr then identity_outputs c fns os (p\<lparr>cp_context := s1\<rparr>)
                        else
                          (case identity_copy fns input_name obuffer 0 s1 of
                             None \<Rightarrow> None
                           | Some (err, s2) \<Rightarrow>
                               identity_outputs c fns os
                                 (p\<lparr>cp_context := s2, cp_error_code := (if err = 0 then cp_error_code p else err)\<rparr>))))))"

fun each_payload :: "('s custom_payload \<Rightarrow> 's custom_payload option) \<Rightarrow> 's custom_payload list \<Rightarrow> 's custom_payload list option" where
  "each_payload f [] = Some []"
| "each_payload f (p # ps) =
     (case f p of
        None \<Rightarrow> None
      | Some p1 \<Rightarrow> map_option (\<lambda>qs. p1 # qs) (each_payload f ps))"

definition identity_Execute ::
  "identity_context \<Rightarrow> 's custom_payload list \<Rightarrow> 's custom_fns \<Rightarrow> (int \<times> identity_context \<times> 's custom_payload list) option" where
  "identity_Execute c payloads fns =
     map_option (\<lambda>ps. (kSuccess, c, ps)) (each_payload (\<lambda>p. identity_outputs c fns (cp_outputs p) p) payloads)"

definition identity_library :: "(identity_context, 's) custom_library" where
  "identity_library =
     library_of (\<lambda>data. identity_Init (in_gpu_device_id data) (in_model_config data)) identity_ErrorString identity_Execute"

section \<open>param\<close>

text \<open>\<open>kInvalidModelConfig\<close> 2, \<open>kBatching\<close> 3, \<open>kOutput\<close> 4, \<open>kOutputBuffer\<close> 5. \<open>parameters\<close> are those of the configuration.\<close>

record param_context =
  pm_server_params :: "string list"
  pm_parameters :: "(string \<times> string) list"

definition param_Init :: "(string \<times> string) list \<Rightarrow> string list \<Rightarrow> model_config \<Rightarrow> int + param_context" where
  "param_Init parameters server_parameters config =
     (if mc_max_batch_size config \<noteq> 0 then Inl 3
      else
        (case mc_output config of
           [out] \<Rightarrow>
             (if length (mo_dims out) \<noteq> 1 then Inl 4
              else if mo_dims out ! 0 \<noteq> -1 then Inl 4
              else if mo_data_type out \<noteq> TYPE_STRING then Inl 4
              else Inr \<lparr>pm_server_params = server_parameters, pm_parameters = parameters\<rparr>)
         | _ \<Rightarrow> Inl 4))"

definition param_ErrorString :: "int \<Rightarrow> string" where
  "param_ErrorString errcode =
     (if errcode = 0 then ''success''
      else if errcode = 2 then ''invalid model configuration''
      else if errcode = 3 then ''batching not supported''
      else if errcode = 4 then ''expected single output, variable-size vector of string''
      else if errcode = 5 then ''unable to get buffer for output tensor values''
      else ''unknown error'')"

definition string_bytes :: "string \<Rightarrow> bytes" where
  "string_bytes s = map of_char s"

definition append_param :: "string \<Rightarrow> string \<Rightarrow> bytes \<Rightarrow> bytes" where
  "append_param key val out = out @ le32 (of_nat (length key + length val)) @ string_bytes key @ string_bytes val"

definition param_output :: "param_context \<Rightarrow> bytes" where
  "param_output c =
     (let out = fold (\<lambda>(k, val). append_param (''server_'' @ show_nat k @ ''='') val)
                  (enumerate 0 (pm_server_params c)) []
      in fold (\<lambda>(key, val). append_param (key @ ''='') val) (pm_parameters c) out)"

definition param_Execute ::
  "param_context \<Rightarrow> 's custom_payload list \<Rightarrow> 's custom_fns \<Rightarrow> (int \<times> param_context \<times> 's custom_payload list) option" where
  "param_Execute c payloads fns =
     (case payloads of
        [p] \<Rightarrow>
          (if cp_batch_size p \<noteq> 1 then Some (kUnknown, c, payloads)
           else
             (case cp_outputs p of
                [] \<Rightarrow> Some (kSuccess, c, payloads)
              | output_name # _ \<Rightarrow>
                  (let out = param_output c;
                       param_cnt = length (pm_server_params c) + length (pm_parameters c)
                   in case fn_output fns output_name [int param_cnt] (length out) (cp_context p) of
                        (ok, obuffer, s1) \<Rightarrow>
                          if \<not> ok then Some (5, c, [p\<lparr>cp_context := s1\<rparr>])
                          else if obuffer = Null_ptr then Some (kSuccess, c, [p\<lparr>cp_context := s1\<rparr>])
                          else Some (kSuccess, c, [p\<lparr>cp_context := fn_write fns obuffer 0 out s1\<rparr>]))))
      | _ \<Rightarrow> Some (kUnknown, c, payloads))"

definition param_library :: "(string \<times> string) list \<Rightarrow> (param_context, 's) custom_library" where
  "param_library parameters =
     library_of (\<lambda>data. param_Init parameters (in_server_parameters data) (in_model_config data)) param_ErrorString param_Execute"

section \<open>Reading an input into memory\<close>

text \<open>
  The loop of \<open>GetInputTensorCPU\<close> (\<open>addsub\<close>) and \<open>GetInputTensor\<close> (\<open>sequence\<close>); they differ in the size
  they ask for. The codes are those of a failed callback and of a wrong size.
\<close>

partial_function (option) read_tensor ::
  "(64 word \<Rightarrow> 64 word) \<Rightarrow> int \<Rightarrow> int \<Rightarrow> 's custom_fns \<Rightarrow> string \<Rightarrow> 64 word \<Rightarrow> 64 word \<Rightarrow> bytes \<Rightarrow> 's \<Rightarrow> (int \<times> bytes \<times> 's) option" where
  "read_tensor ask bad_contents bad_size fns name expected_byte_size total_byte_size input s =
     (case fn_input fns name (unat (ask total_byte_size)) s of
        (ok, (content, content_byte_size), s1) \<Rightarrow>
          if \<not> ok then Some (bad_contents, input, s1)
          else
            (case content of
               None \<Rightarrow> Some (if total_byte_size \<noteq> expected_byte_size then bad_size else kSuccess, input, s1)
             | Some b \<Rightarrow>
                 if total_byte_size + of_nat content_byte_size > expected_byte_size then Some (bad_size, input, s1)
                 else read_tensor ask bad_contents bad_size fns name expected_byte_size (total_byte_size + of_nat content_byte_size)
                        (input @ take content_byte_size b) s1))"

definition GetInputTensorCPU :: "'s custom_fns \<Rightarrow> string \<Rightarrow> 64 word \<Rightarrow> 's \<Rightarrow> (int \<times> bytes \<times> 's) option" where
  "GetInputTensorCPU fns name expected_byte_size = read_tensor (\<lambda>_. expected_byte_size) 8 9 fns name expected_byte_size 0 []"

definition sequence_GetInputTensor :: "'s custom_fns \<Rightarrow> string \<Rightarrow> 64 word \<Rightarrow> 's \<Rightarrow> (int \<times> bytes \<times> 's) option" where
  "sequence_GetInputTensor fns name expected_byte_size =
     read_tensor (\<lambda>got. expected_byte_size - got) 10 11 fns name expected_byte_size 0 []"

end
