(* ===== verification/Custom_Sequence.thy ===== *)
theory Custom_Sequence
  imports Custom_Libraries
begin

text \<open>
  \<open>src/custom/sequence\<close>: a library that adds up the inputs of a sequence, one accumulator for each batch
  slot. The delay of an execution, which only takes time, is left out, with the parsing of its parameter (an
  \<open>execute_delay_ms\<close> that is not a number throws in the constructor); so is what the library prints.
\<close>

record sequence_context =
  sa_max_batch_size :: int
  sa_accumulator :: "32 word list"

definition sequence_check_config :: "int \<Rightarrow> model_config \<Rightarrow> int" where
  "sequence_check_config gpu_device config =
     (if gpu_device \<noteq> CUSTOM_NO_GPU_DEVICE then 3
      else
        (case get_sequence_batching config of
           None \<Rightarrow> 4
         | Some batcher \<Rightarrow>
             if map ci_name (sb_control_input batcher) \<notin> {[''START'', ''READY''], [''READY'', ''START'']} then 5
             else
               (case mc_input config of
                  [i] \<Rightarrow>
                    if mi_dims i \<noteq> [1] then 6
                    else if mi_data_type i \<noteq> TYPE_INT32 then 9
                    else if mi_name i \<noteq> ''INPUT'' then 7
                    else
                      (case mc_output config of
                         [out] \<Rightarrow>
                           if mo_dims out \<noteq> [1] then 6
                           else if mo_data_type out \<noteq> TYPE_INT32 then 9
                           else if mo_name out \<noteq> ''OUTPUT'' then 8
                           else kSuccess
                       | _ \<Rightarrow> 6)
                | _ \<Rightarrow> 6)))"

definition sequence_Init :: "int \<Rightarrow> model_config \<Rightarrow> int + sequence_context" where
  "sequence_Init gpu_device config =
     (let err = sequence_check_config gpu_device config in
      if err \<noteq> kSuccess then Inl err
      else Inr \<lparr>sa_max_batch_size = mc_max_batch_size config,
                sa_accumulator = replicate (nat (max 1 (mc_max_batch_size config))) 0\<rparr>)"

definition sequence_ErrorString :: "int \<Rightarrow> string" where
  "sequence_ErrorString errcode =
     (if errcode = 0 then ''success''
      else if errcode = 2 then ''invalid model configuration''
      else if errcode = 3 then ''execution on GPU not supported''
      else if errcode = 4 then ''model configuration must configure sequence batcher''
      else if errcode = 5 then quote ''START'' @ '' and '' @ quote ''READY'' @ '' must be configured as the control inputs''
      else if errcode = 6 then ''model must have two inputs and one output with shape [1]''
      else if errcode = 7 then ''model inputs must be named '' @ quote ''INPUT0'' @ '' and '' @ quote ''INPUT1''
      else if errcode = 8 then ''model output must be named '' @ quote ''OUTPUT''
      else if errcode = 9 then ''model inputs and output must have TYPE_INT32 data-type''
      else if errcode = 10 then ''unable to get input tensor values''
      else if errcode = 11 then ''unexpected size for input tensor''
      else if errcode = 12 then ''unable to get buffer for output tensor values''
      else if errcode = 13 then ''unable to execute batch larger than max-batch-size''
      else if errcode = 14 then ''unable to execute more than 1 timestep at a time''
      else ''unknown error'')"

text \<open>\<open>accumulate\<close> is the update of an accumulator that is ready.\<close>

definition accumulate :: "32 word \<Rightarrow> 32 word \<Rightarrow> 32 word \<Rightarrow> 32 word" where
  "accumulate start input acc = (if start = 0 then acc + input else input)"

definition sequence_output ::
  "int \<Rightarrow> 's custom_fns \<Rightarrow> 32 word \<Rightarrow> 's custom_payload \<Rightarrow> 's custom_payload" where
  "sequence_output max_batch_size fns out p =
     (if cp_error_code p = 0 \<and> cp_outputs p \<noteq> [] then
        (case fn_output fns (hd (cp_outputs p)) ((if max_batch_size \<noteq> 0 then [1] else []) @ [1]) 4 (cp_context p) of
           (ok, obuffer, s1) \<Rightarrow>
             if \<not> ok then p\<lparr>cp_context := s1, cp_error_code := 12\<rparr>
             else if obuffer = Null_ptr then p\<lparr>cp_context := s1\<rparr>
             else p\<lparr>cp_context := fn_write fns obuffer 0 (le32 out) s1\<rparr>)
      else p)"

fun read_tensors :: "'s custom_fns \<Rightarrow> string list \<Rightarrow> 's \<Rightarrow> (int \<times> bytes list \<times> 's) option" where
  "read_tensors fns [] s = Some (kSuccess, [], s)"
| "read_tensors fns (name # names) s =
     (case sequence_GetInputTensor fns name 4 s of
        None \<Rightarrow> None
      | Some (err, buffer, s1) \<Rightarrow>
          if err \<noteq> kSuccess then Some (err, [], s1)
          else map_option (\<lambda>(e, bs, s2). (e, buffer # bs, s2)) (read_tensors fns names s1))"

definition sequence_payload ::
  "int \<Rightarrow> 's custom_fns \<Rightarrow> 32 word \<Rightarrow> 's custom_payload \<Rightarrow> (32 word \<times> 's custom_payload) option" where
  "sequence_payload max_batch_size fns acc p =
     (if cp_batch_size p \<noteq> 1 then Some (acc, p\<lparr>cp_error_code := 14\<rparr>)
      else
        (case read_tensors fns [''START'', ''READY'', ''INPUT''] (cp_context p) of
           None \<Rightarrow> None
         | Some (err, buffers, s1) \<Rightarrow>
             if err \<noteq> kSuccess then Some (acc, p\<lparr>cp_context := s1, cp_error_code := err\<rparr>)
             else
               (let start = element32 (buffers ! 0) 0; ready = element32 (buffers ! 1) 0; input = element32 (buffers ! 2) 0;
                    p1 = p\<lparr>cp_context := s1\<rparr>
                in if ready = 0 then Some (acc, p1)
                   else Some (accumulate start input acc,
                          sequence_output max_batch_size fns (accumulate start input acc) p1))))"

fun sequence_payloads ::
  "int \<Rightarrow> 's custom_fns \<Rightarrow> 32 word list \<Rightarrow> 's custom_payload list \<Rightarrow> (32 word list \<times> 's custom_payload list) option" where
  "sequence_payloads max_batch_size fns accs [] = Some (accs, [])"
| "sequence_payloads max_batch_size fns [] (p # ps) = None"
| "sequence_payloads max_batch_size fns (acc # accs) (p # ps) =
     (case sequence_payload max_batch_size fns acc p of
        None \<Rightarrow> None
      | Some (acc1, p1) \<Rightarrow>
          map_option (\<lambda>(as, qs). (acc1 # as, p1 # qs)) (sequence_payloads max_batch_size fns accs ps))"

definition sequence_Execute ::
  "sequence_context \<Rightarrow> 's custom_payload list \<Rightarrow> 's custom_fns \<Rightarrow> (int \<times> sequence_context \<times> 's custom_payload list) option" where
  "sequence_Execute c payloads fns =
     (if length payloads > length (sa_accumulator c) then Some (13, c, payloads)
      else map_option (\<lambda>(accs, qs). (kSuccess, c\<lparr>sa_accumulator := accs\<rparr>, qs))
             (sequence_payloads (sa_max_batch_size c) fns (sa_accumulator c) payloads))"

definition sequence_library :: "(sequence_context, 's) custom_library" where
  "sequence_library =
     library_of (\<lambda>data. sequence_Init (in_gpu_device_id data) (in_model_config data)) sequence_ErrorString sequence_Execute"

end
