(* ===== verification/Custom_World.thy ===== *)
theory Custom_World
  imports Custom_Libraries
begin

text \<open>
  What a library for a custom backend can rely on: the contract of the two callbacks, and its proof for
  the request provider of the server together with a response provider.
\<close>

section \<open>The contract\<close>

text \<open>
  \<open>chunks s name\<close> are the pieces of an input that are still to be read, \<open>held s p\<close> is the memory at a
  pointer, \<open>outs s\<close> the outputs that have a buffer, and \<open>wants s name\<close> says that an output was requested.
\<close>

locale custom_inputs =
  fixes fns :: "'s custom_fns" and chunks :: "'s \<Rightarrow> string \<rightharpoonup> bytes list" and rest :: "'s \<Rightarrow> 'r"
  assumes input_chunk: "chunks s name = Some bs \<Longrightarrow> hint \<noteq> 0 \<Longrightarrow>
      \<exists>s'. fn_input fns name hint s = (True, (case bs of [] \<Rightarrow> (None, 0) | b # _ \<Rightarrow> (Some b, length b)), s') \<and>
        chunks s' = (chunks s)(name \<mapsto> tl bs) \<and> rest s' = rest s"
    and input_nothing: "fn_input fns name 0 s = (True, (None, 0), s)"

locale custom_outputs =
  fixes fns :: "'s custom_fns" and held :: "'r \<Rightarrow> out_ptr \<rightharpoonup> bytes"
    and outs :: "'r \<Rightarrow> (string \<times> int list \<times> out_ptr) list" and wants :: "'r \<Rightarrow> string \<Rightarrow> bool"
    and rest :: "'s \<Rightarrow> 'r" and chunks :: "'s \<Rightarrow> string \<rightharpoonup> bytes list"
  assumes output_buffer: "wants (rest s) name \<Longrightarrow> 0 < n \<Longrightarrow>
      \<exists>p s' b. fn_output fns name shape n s = (True, p, s') \<and> p \<noteq> Null_ptr \<and> chunks s' = chunks s \<and>
        wants (rest s') = wants (rest s) \<and> outs (rest s') = outs (rest s) @ [(name, shape, p)] \<and>
        held (rest s) p = None \<and> held (rest s) \<subseteq>\<^sub>m held (rest s') \<and> held (rest s') p = Some b \<and> length b = n"
    and write_buffer: "held (rest s) p = Some b \<Longrightarrow> k + length bs \<le> length b \<Longrightarrow>
      chunks (fn_write fns p k bs s) = chunks s \<and> wants (rest (fn_write fns p k bs s)) = wants (rest s) \<and>
      outs (rest (fn_write fns p k bs s)) = outs (rest s) \<and>
      held (rest (fn_write fns p k bs s)) = (held (rest s))(p \<mapsto> overwrite k bs b)"

locale custom_world = custom_inputs fns chunks rest + custom_outputs fns held outs wants rest chunks
  for fns :: "'s custom_fns" and chunks :: "'s \<Rightarrow> string \<rightharpoonup> bytes list" and rest :: "'s \<Rightarrow> 'r"
    and held :: "'r \<Rightarrow> out_ptr \<rightharpoonup> bytes" and outs :: "'r \<Rightarrow> (string \<times> int list \<times> out_ptr) list"
    and wants :: "'r \<Rightarrow> string \<Rightarrow> bool"

section \<open>Bytes and offsets\<close>

lemma overwrite_full: "length bs = length old \<Longrightarrow> overwrite 0 bs old = bs"
  by (simp add: overwrite_def)

lemma length_overwrite [simp]: "k + length bs \<le> length old \<Longrightarrow> length (overwrite k bs old) = length old"
  by (simp add: overwrite_def)

lemma overwrite_Nil [simp]: "overwrite k [] old = old"
  by (simp add: overwrite_def)

lemma overwrite_append:
  assumes "k + length bs + length cs \<le> length old"
  shows "overwrite (k + length bs) cs (overwrite k bs old) = overwrite k (bs @ cs) old"
proof -
  have "k \<le> length old" "k + length bs \<le> length old"
    using assms by simp_all
  then show ?thesis
    by (simp add: overwrite_def add.commute add.left_commute)
qed

lemma unat_add_size:
  assumes "unat (t :: 64 word) + n < 2 ^ 64"
  shows "unat (t + of_nat n) = unat t + n"
proof -
  have "n < 2 ^ 64"
    using assms by simp
  then have "unat (of_nat n :: 64 word) = n"
    by (simp add: unat_of_nat take_bit_nat_eq_self)
  then show ?thesis
    using assms by (simp add: unat_add_lem [THEN iffD1])
qed

section \<open>What identity expects of a request\<close>

text \<open>An output of the model, whose input has the size its shape says; \<open>source c out\<close> is the name of the input.\<close>

definition source :: "identity_context \<Rightarrow> string \<Rightarrow> string" where
  "source c out = fst (the (id_copy_map c out))"

definition echoes :: "identity_context \<Rightarrow> 's custom_payload \<Rightarrow> (string \<rightharpoonup> bytes list) \<Rightarrow> string \<Rightarrow> bool" where
  "echoes c p chunks out \<longleftrightarrow>
     (\<exists>dt bs. id_copy_map c out = Some (source c out, dt) \<and> chunks (source c out) = Some bs \<and> 0 < length (concat bs) \<and>
        length (concat bs) < 2 ^ 64 \<and>
        GetByteSize dt (identity_shape (id_max_batch_size c) (source c out) p) = int (length (concat bs)))"

definition echo :: "identity_context \<Rightarrow> 's custom_payload \<Rightarrow> (string \<rightharpoonup> bytes list) \<Rightarrow> string \<Rightarrow> string \<times> int list \<times> bytes" where
  "echo c p chunks out =
     (out, identity_shape (id_max_batch_size c) (source c out) p, concat (the (chunks (source c out))))"

lemma identity_shape_context [simp]:
  "identity_shape m name (p\<lparr>cp_context := s\<rparr>) = identity_shape m name p"
  by (simp add: identity_shape_def)

lemma echo_context [simp]: "echo c (p\<lparr>cp_context := s\<rparr>) = echo c p" "echoes c (p\<lparr>cp_context := s\<rparr>) = echoes c p"
  by (auto simp: echo_def echoes_def fun_eq_iff)

lemma echo_other:
  assumes "source c out \<noteq> name"
  shows "echo c p (chunks(name \<mapsto> bs)) out = echo c p chunks out"
    and "echoes c p (chunks(name \<mapsto> bs)) out = echoes c p chunks out"
  using assms by (simp_all add: echo_def echoes_def)

context custom_world
begin

text \<open>The pointers of the outputs have memory, so what an output holds is a value.\<close>

definition all_held :: "'s \<Rightarrow> bool" where
  "all_held s \<longleftrightarrow> (\<forall>(name, shape, p) \<in> set (outs (rest s)). held (rest s) p \<noteq> None)"

definition contents :: "'s \<Rightarrow> (string \<times> int list \<times> bytes) list" where
  "contents s = map (\<lambda>(name, shape, p). (name, shape, the (held (rest s) p))) (outs (rest s))"

lemma contents_read: "rest s' = rest s \<Longrightarrow> contents s' = contents s \<and> all_held s' = all_held s"
  by (simp add: contents_def all_held_def)

text \<open>Writing to the last output leaves the others alone.\<close>

lemma contents_write:
  assumes "all_held s" and "held (rest s) p = None" and "outs (rest s') = outs (rest s) @ [(name, shape, p)]"
    and "held (rest s) \<subseteq>\<^sub>m held (rest s')" and "held (rest s') p = Some b"
  shows "all_held s'" and "contents s' = contents s @ [(name, shape, b)]"
proof -
  have same: "held (rest s') q = held (rest s) q \<and> held (rest s) q \<noteq> None" if out: "(n, sh, q) \<in> set (outs (rest s))" for n sh q
  proof -
    obtain c where "held (rest s) q = Some c"
      using assms(1) out unfolding all_held_def by fastforce
    then show ?thesis
      using map_le_def [THEN iffD1, OF assms(4)] by (metis domI option.distinct(1))
  qed
  then show "all_held s'"
    using assms(3,5) by (fastforce simp: all_held_def)
  show "contents s' = contents s @ [(name, shape, b)]"
    using same assms(3,5) by (auto simp: contents_def)
qed

lemma map_le_write: "m \<subseteq>\<^sub>m m' \<Longrightarrow> m p = None \<Longrightarrow> m \<subseteq>\<^sub>m m'(p \<mapsto> c)"
  by (auto simp: map_le_def dom_def)

section \<open>identity\<close>

lemma identity_copy_bytes:
  assumes "chunks s name = Some bs" and "held (rest s) p = Some b" and "unat t + length (concat bs) \<le> length b"
    and "length b < 2 ^ 64"
  shows "\<exists>s'. identity_copy fns name p t s = Some (0, s') \<and> chunks s' = (chunks s)(name \<mapsto> []) \<and>
    wants (rest s') = wants (rest s) \<and> outs (rest s') = outs (rest s) \<and>
    held (rest s') = (held (rest s))(p \<mapsto> overwrite (unat t) (concat bs) b)"
  using assms
proof (induction bs arbitrary: s t b)
  case Nil
  obtain s1 where "fn_input fns name (128 * 1024) s = (True, (None, 0), s1)" "chunks s1 = (chunks s)(name \<mapsto> [])" "rest s1 = rest s"
    using input_chunk [OF Nil.prems(1), of "128 * 1024"] by auto
  then show ?case
    using Nil.prems(2) by (subst identity_copy.simps) (auto simp: fun_upd_idem)
next
  case (Cons c bs)
  obtain s1 where s1: "fn_input fns name (128 * 1024) s = (True, (Some c, length c), s1)" "chunks s1 = (chunks s)(name \<mapsto> bs)" "rest s1 = rest s"
    using input_chunk [OF Cons.prems(1), of "128 * 1024"] by auto
  let ?s2 = "fn_write fns p (unat t) c s1"
  have fit: "unat t + length c \<le> length b"
    using Cons.prems(3) by simp
  have h1: "held (rest s1) p = Some b"
    using Cons.prems(2) s1(3) by simp
  note w = write_buffer [OF h1 fit]
  have t: "unat (t + of_nat (length c)) = unat t + length c"
    using fit Cons.prems(4) by (intro unat_add_size) simp
  have p1: "chunks ?s2 name = Some bs" and p2: "held (rest ?s2) p = Some (overwrite (unat t) c b)"
    using w s1(2) by simp_all
  have p3: "unat (t + of_nat (length c)) + length (concat bs) \<le> length (overwrite (unat t) c b)"
    and p4: "length (overwrite (unat t) c b) < 2 ^ 64"
    using Cons.prems(3,4) fit t by simp_all
  obtain s' where s': "identity_copy fns name p (t + of_nat (length c)) ?s2 = Some (0, s')" "chunks s' = (chunks ?s2)(name \<mapsto> [])"
      "wants (rest s') = wants (rest ?s2)" "outs (rest s') = outs (rest ?s2)"
      "held (rest s') = (held (rest ?s2))(p \<mapsto> overwrite (unat t + length c) (concat bs) (overwrite (unat t) c b))"
    using Cons.IH [OF p1 p2 p3 p4] unfolding t by blast
  have "identity_copy fns name p t s = Some (0, s')"
    using s'(1) s1(1) by (simp add: identity_copy.simps [of fns name p t s])
  moreover have "chunks s' = (chunks s)(name \<mapsto> [])"
    unfolding s'(2) using w s1(2) by simp
  moreover have "held (rest s') = (held (rest s))(p \<mapsto> overwrite (unat t) (c @ concat bs) b)"
    unfolding s'(5) using w s1(3) Cons.prems(3) by (simp add: overwrite_append)
  ultimately show ?case
    using s'(3,4) w s1(3) by (intro exI [of _ s']) simp
qed

lemma identity_output:
  assumes "all_held (cp_context p)" and "wants (rest (cp_context p)) out" and "cp_error_code p = 0"
    and "echoes c p (chunks (cp_context p)) out"
  shows "\<exists>s'. identity_outputs c fns (out # os) p = identity_outputs c fns os (p\<lparr>cp_context := s'\<rparr>) \<and>
    chunks s' = (chunks (cp_context p))(source c out \<mapsto> []) \<and> wants (rest s') = wants (rest (cp_context p)) \<and> all_held s' \<and>
    contents s' = contents (cp_context p) @ [echo c p (chunks (cp_context p)) out]"
proof -
  let ?s = "cp_context p"
  obtain iname dt bs where io: "id_copy_map c out = Some (iname, dt)" "chunks ?s iname = Some bs"
    and pos: "0 < length (concat bs)" and small: "length (concat bs) < 2 ^ 64"
    and sz: "GetByteSize dt (identity_shape (id_max_batch_size c) iname p) = int (length (concat bs))"
    and src: "source c out = iname"
    using assms(4) unfolding echoes_def by blast
  let ?shape = "identity_shape (id_max_batch_size c) iname p"
  obtain q s1 b where s1: "fn_output fns out ?shape (length (concat bs)) ?s = (True, q, s1)" "q \<noteq> Null_ptr" "chunks s1 = chunks ?s"
      "wants (rest s1) = wants (rest ?s)" "outs (rest s1) = outs (rest ?s) @ [(out, ?shape, q)]" "held (rest ?s) q = None"
      "held (rest ?s) \<subseteq>\<^sub>m held (rest s1)" "held (rest s1) q = Some b" "length b = length (concat bs)"
    using output_buffer [OF assms(2) pos] by blast
  have i: "chunks s1 iname = Some bs"
    using s1(3) io(2) by simp
  have fit: "unat (0 :: 64 word) + length (concat bs) \<le> length b" and b: "length b < 2 ^ 64"
    using s1(9) small by simp_all
  obtain s' where s': "identity_copy fns iname q 0 s1 = Some (0, s')" "chunks s' = (chunks s1)(iname \<mapsto> [])"
      "wants (rest s') = wants (rest s1)" "outs (rest s') = outs (rest s1)"
      "held (rest s') = (held (rest s1))(q \<mapsto> overwrite (unat (0 :: 64 word)) (concat bs) b)"
    using identity_copy_bytes [OF i s1(8) fit b] by blast
  have written: "held (rest s') q = Some (concat bs)" "held (rest ?s) \<subseteq>\<^sub>m held (rest s')"
    using s'(5) s1(9) map_le_write [OF s1(7,6)] by (simp_all add: overwrite_full)
  have outs': "outs (rest s') = outs (rest ?s) @ [(out, ?shape, q)]"
    using s'(4) s1(5) by simp
  note c' = contents_write [OF assms(1) s1(6) outs' written(2,1)]
  have "identity_outputs c fns (out # os) p = identity_outputs c fns os (p\<lparr>cp_context := s'\<rparr>)"
    using assms(3) io(1) sz s1(1,2) s'(1) by (cases p) (simp add: Let_def)
  with c' s' s1 src io(2) show ?thesis
    by (intro exI [of _ s']) (simp add: echo_def)
qed

lemma identity_outputs_echo:
  assumes "all_held (cp_context p)" and "\<And>out. out \<in> set os \<Longrightarrow> wants (rest (cp_context p)) out" and "cp_error_code p = 0"
    and "\<And>out. out \<in> set os \<Longrightarrow> echoes c p (chunks (cp_context p)) out" and "distinct (map (source c) os)"
  shows "\<exists>s'. identity_outputs c fns os p = Some (p\<lparr>cp_context := s'\<rparr>) \<and> all_held s' \<and>
    contents s' = contents (cp_context p) @ map (echo c p (chunks (cp_context p))) os"
  using assms
proof (induction os arbitrary: p)
  case Nil
  then show ?case
    by (intro exI [of _ "cp_context p"]) simp
next
  case (Cons out os)
  obtain s1 where s1: "identity_outputs c fns (out # os) p = identity_outputs c fns os (p\<lparr>cp_context := s1\<rparr>)"
      "chunks s1 = (chunks (cp_context p))(source c out \<mapsto> [])" "wants (rest s1) = wants (rest (cp_context p))" "all_held s1"
      "contents s1 = contents (cp_context p) @ [echo c p (chunks (cp_context p)) out]"
    using identity_output [OF Cons.prems(1) _ Cons.prems(3), of out c os] Cons.prems(2,4) by (meson list.set_intros(1))
  have other: "source c o' \<noteq> source c out" if "o' \<in> set os" for o'
    using Cons.prems(5) image_eqI [OF refl that, of "source c"] by auto
  have "\<exists>s'. identity_outputs c fns os (p\<lparr>cp_context := s1\<rparr>) = Some (p\<lparr>cp_context := s'\<rparr>) \<and> all_held s' \<and>
      contents s' = contents s1 @ map (echo c p (chunks s1)) os"
  proof -
    let ?p = "p\<lparr>cp_context := s1\<rparr>"
    have p1: "all_held (cp_context ?p)" and p3: "cp_error_code ?p = 0" and p5: "distinct (map (source c) os)"
      using s1(4) Cons.prems(3,5) by simp_all
    have p2: "\<And>o'. o' \<in> set os \<Longrightarrow> wants (rest (cp_context ?p)) o'"
      using s1(3) Cons.prems(2) by simp
    have p4: "echoes c ?p (chunks (cp_context ?p)) o'" if "o' \<in> set os" for o'
    proof -
      have "echoes c p ((chunks (cp_context p))(source c out \<mapsto> [])) o'"
        by (rule echo_other(2) [OF other [OF that], THEN iffD2]) (use Cons.prems(4) [of o'] that in simp)
      then show ?thesis
        using s1(2) by simp
    qed
    show ?thesis
      using Cons.IH [OF p1 p2 p3 p4 p5] by simp
  qed
  moreover have "map (echo c p (chunks s1)) os = map (echo c p (chunks (cp_context p))) os"
    unfolding s1(2) by (intro map_cong refl echo_other(1) other)
  ultimately show ?case
    using s1(1,5) by auto
qed

section \<open>Reading an input into memory\<close>

text \<open>An input of the expected size is read as a whole, whatever its pieces.\<close>

lemma read_tensor_bytes:
  assumes "chunks s name = Some bs" and "unat t + length (concat bs) = unat n" and "\<And>k. k < n \<Longrightarrow> ask k \<noteq> 0"
  shows "\<exists>s' cs. read_tensor ask e1 e2 fns name n t inp s = Some (0, inp @ concat bs, s') \<and>
    chunks s' = (chunks s)(name \<mapsto> cs) \<and> rest s' = rest s"
  using assms
proof (induction bs arbitrary: s t inp)
  case Nil
  then have t: "t = n"
    by (simp add: word_unat_eq_iff)
  show ?case
  proof (cases "ask t = 0")
    case True
    then show ?thesis
      using t input_nothing [of name s] Nil.prems(1)
      by (intro exI [of _ s] exI [of _ "[]"]) (simp add: read_tensor.simps [of ask e1 e2 fns name n n inp s] fun_upd_idem)
  next
    case False
    then have "unat (ask t) \<noteq> 0"
      by (simp add: unat_eq_zero)
    from input_chunk [OF Nil.prems(1) this] obtain s' where
      "fn_input fns name (unat (ask t)) s = (True, (None, 0), s')" "chunks s' = (chunks s)(name \<mapsto> [])" "rest s' = rest s"
      by auto
    then show ?thesis
      using t by (intro exI [of _ s'] exI [of _ "[]"]) (simp add: read_tensor.simps [of ask e1 e2 fns name n n inp s])
  qed
next
  case (Cons b bs)
  show ?case
  proof (cases "ask t = 0")
    case True
    then have "\<not> t < n"
      using Cons.prems(3) by blast
    then have "unat n \<le> unat t"
      by (simp add: word_le_nat_alt not_less)
    with Cons.prems(2) have "unat t = unat n" "length (concat (b # bs)) = 0"
      by linarith+
    then have "t = n" "concat (b # bs) = []"
      by (simp_all only: word_unat_eq_iff length_0_conv)
    then show ?thesis
      using True input_nothing [of name s] Cons.prems(1)
      by (intro exI [of _ s] exI [of _ "b # bs"]) (simp add: read_tensor.simps [of ask e1 e2 fns name n n inp s] fun_upd_idem)
  next
    case False
    then have "unat (ask t) \<noteq> 0"
      by (simp add: unat_eq_zero)
    from input_chunk [OF Cons.prems(1) this] obtain s1 where
      s1: "fn_input fns name (unat (ask t)) s = (True, (Some b, length b), s1)" "chunks s1 = (chunks s)(name \<mapsto> bs)" "rest s1 = rest s"
      by auto
    have "unat n < 2 ^ 64"
      using unsigned_less [of n] by simp
    then have "unat t + length b < 2 ^ 64"
      using Cons.prems(2) by simp
    then have t: "unat (t + of_nat (length b)) = unat t + length b"
      by (rule unat_add_size)
    then have fit: "\<not> t + of_nat (length b) > n"
      using Cons.prems(2) by (simp add: word_less_nat_alt)
    have sum: "unat (t + of_nat (length b)) + length (concat bs) = unat n"
      using Cons.prems(2) t by simp
    have "chunks s1 name = Some bs"
      using s1(2) by simp
    from Cons.IH [OF this sum Cons.prems(3)] obtain s' cs where
      s': "read_tensor ask e1 e2 fns name n (t + of_nat (length b)) (inp @ b) s1 = Some (0, (inp @ b) @ concat bs, s')"
        "chunks s' = (chunks s1)(name \<mapsto> cs)" "rest s' = rest s1"
      by blast
    then show ?thesis
      using s1 fit by (intro exI [of _ s'] exI [of _ cs]) (simp add: read_tensor.simps [of ask e1 e2 fns name n t inp s])
  qed
qed

end

section \<open>The providers of the server\<close>

text \<open>A response provider as a library sees it.\<close>

locale response_target =
  fixes ops :: "'r response_ops" and held :: "'r \<Rightarrow> out_ptr \<rightharpoonup> bytes"
    and outs :: "'r \<Rightarrow> (string \<times> int list \<times> out_ptr) list" and wants :: "'r \<Rightarrow> string \<Rightarrow> bool"
  assumes allocates: "wants r name \<Longrightarrow> 0 < n \<Longrightarrow>
      \<exists>p r' b. ro_allocate ops name n shape r = (Status_Success, p, r') \<and> p \<noteq> Null_ptr \<and> wants r' = wants r \<and>
        outs r' = outs r @ [(name, shape, p)] \<and> held r p = None \<and> held r \<subseteq>\<^sub>m held r' \<and> held r' p = Some b \<and> length b = n"
    and writes: "held r p = Some b \<Longrightarrow> k + length bs \<le> length b \<Longrightarrow>
      wants (ro_write ops p k bs r) = wants r \<and> outs (ro_write ops p k bs r) = outs r \<and>
      held (ro_write ops p k bs r) = (held r)(p \<mapsto> overwrite k bs b)"

definition io_chunks :: "'r io_context \<Rightarrow> string \<rightharpoonup> bytes list" where
  "io_chunks ctx name =
     (case Option.bind (ip_overrides (fst ctx)) (\<lambda>ovr. map_of ovr name) of
        Some o' \<Rightarrow> Some (if name \<in> ip_overrides_consumed (fst ctx) then [] else [io_content o'])
      | None \<Rightarrow> map_option (\<lambda>(m, i). drop i (memory_blocks m)) (ip_input_buffer (fst ctx) name))"

lemma io_chunks_fst: "fst s = fst s' \<Longrightarrow> io_chunks s = io_chunks s'"
  by (intro ext) (simp add: io_chunks_def split: option.split)

lemma drop_blocks: "drop i (memory_blocks m) = (case BufferAt m i of None \<Rightarrow> [] | Some b \<Rightarrow> b # drop (i + 1) (memory_blocks m))"
  by (auto simp: mem.buffer_at_blocks Cons_nth_drop_Suc)

lemma GetNextInput_chunk:
  assumes "io_chunks s name = Some bs" and "hint \<noteq> 0"
  shows "\<exists>s'. custom_GetNextInput name hint s = (True, (case bs of [] \<Rightarrow> (None, 0) | b # _ \<Rightarrow> (Some b, length b)), s') \<and>
    io_chunks s' = (io_chunks s)(name \<mapsto> tl bs) \<and> snd s' = snd s"
proof (cases "Option.bind (ip_overrides (fst s)) (\<lambda>ovr. map_of ovr name)")
  case (Some o')
  then obtain ovr where ovr: "ip_overrides (fst s) = Some ovr" "map_of ovr name = Some o'"
    by (auto simp: bind_eq_Some_conv)
  show ?thesis
  proof (cases "name \<in> ip_overrides_consumed (fst s)")
    case True
    then have bs: "bs = []"
      using assms(1) Some by (simp add: io_chunks_def)
    have "(io_chunks s)(name \<mapsto> tl bs) = io_chunks s"
      using assms(1) bs by (simp add: fun_upd_idem)
    then show ?thesis
      using True ovr assms(2) bs
      by (intro exI [of _ s]) (simp add: custom_GetNextInput_def GetNextInputContent_def GetInputOverrideContent_def)
  next
    case False
    let ?s' = "((fst s)\<lparr>ip_overrides_consumed := insert name (ip_overrides_consumed (fst s))\<rparr>, snd s)"
    have bs: "bs = [io_content o']"
      using assms(1) Some False by (simp add: io_chunks_def)
    have "io_chunks ?s' = (io_chunks s)(name \<mapsto> [])"
      using Some by (intro ext) (simp add: io_chunks_def split: option.split)
    then show ?thesis
      using False ovr assms(2) bs
      by (intro exI [of _ ?s']) (simp add: custom_GetNextInput_def GetNextInputContent_def GetInputOverrideContent_def)
  qed
next
  case None
  then obtain m i where m: "ip_input_buffer (fst s) name = Some (m, i)" "bs = drop i (memory_blocks m)"
    using assms(1) by (auto simp: io_chunks_def)
  have "\<not> overridden name (fst s)"
    using None by (auto simp: overridden_def simp del: map_of_is_None)
  then have call: "custom_GetNextInput name hint s = (True, (BufferAt m i, block_size (BufferAt m i)),
      ((fst s)\<lparr>ip_input_buffer := (ip_input_buffer (fst s))(name \<mapsto> (m, i + 1))\<rparr>, snd s))" (is "_ = (_, _, ?s')")
    using m(1) assms(2) by (simp add: custom_GetNextInput_def GetNextInputContent_def)
  have "tl bs = drop (i + 1) (memory_blocks m)"
    by (simp add: m(2) drop_Suc tl_drop)
  then have "io_chunks ?s' = (io_chunks s)(name \<mapsto> tl bs)"
    using None by (intro ext) (simp add: io_chunks_def split: option.split)
  moreover have "(case bs of [] \<Rightarrow> (None, 0) | b # _ \<Rightarrow> (Some b, length b)) = (BufferAt m i, block_size (BufferAt m i))"
    using drop_blocks [of i m] m(2) by (simp add: block_size_def split: option.splits)
  ultimately show ?thesis
    using call by (intro exI [of _ ?s']) simp
qed

lemma GetNextInput_nothing: "custom_GetNextInput name 0 s = (True, (None, 0), s)"
  by (simp add: custom_GetNextInput_def GetNextInputContent_def)

context response_target
begin

lemma callback_buffer:
  assumes "case_option (\<lambda>_. False) wants (snd s) name" and "0 < n"
  shows "\<exists>p s' b. custom_GetOutput ops name shape n s = (True, p, s') \<and> p \<noteq> Null_ptr \<and> io_chunks s' = io_chunks s \<and>
    case_option (\<lambda>_. False) wants (snd s') = case_option (\<lambda>_. False) wants (snd s) \<and>
    case_option [] outs (snd s') = case_option [] outs (snd s) @ [(name, shape, p)] \<and>
    case_option Map.empty held (snd s) p = None \<and>
    case_option Map.empty held (snd s) \<subseteq>\<^sub>m case_option Map.empty held (snd s') \<and>
    case_option Map.empty held (snd s') p = Some b \<and> length b = n"
proof -
  obtain r where r: "snd s = Some r" "wants r name"
    using assms(1) by (auto split: option.splits)
  obtain p r' b where a: "ro_allocate ops name n shape r = (Status_Success, p, r')" "p \<noteq> Null_ptr" "wants r' = wants r"
      "outs r' = outs r @ [(name, shape, p)]" "held r p = None" "held r \<subseteq>\<^sub>m held r'" "held r' p = Some b" "length b = n"
    using allocates [OF r(2) assms(2)] by blast
  then show ?thesis
    using r io_chunks_fst [of "(fst s, Some r')" s]
    by (intro exI [of _ p] exI [of _ "(fst s, Some r')"] exI [of _ b]) (simp add: custom_GetOutput_def)
qed

lemma callback_write:
  assumes "case_option Map.empty held (snd s) p = Some b" and "k + length bs \<le> length b"
  shows "io_chunks (fst s, map_option (ro_write ops p k bs) (snd s)) = io_chunks s \<and>
    case_option (\<lambda>_. False) wants (map_option (ro_write ops p k bs) (snd s)) = case_option (\<lambda>_. False) wants (snd s) \<and>
    case_option [] outs (map_option (ro_write ops p k bs) (snd s)) = case_option [] outs (snd s) \<and>
    case_option Map.empty held (map_option (ro_write ops p k bs) (snd s)) =
      (case_option Map.empty held (snd s))(p \<mapsto> overwrite k bs b)"
proof -
  obtain r where r: "snd s = Some r" "held r p = Some b"
    using assms(1) by (auto split: option.splits)
  then show ?thesis
    using writes [OF r(2) assms(2)] io_chunks_fst [of "(fst s, Some (ro_write ops p k bs r))" s] by simp
qed

end

sublocale response_target \<subseteq> world: custom_world "custom_callbacks ops" io_chunks snd
  "case_option Map.empty held" "case_option [] outs" "case_option (\<lambda>_. False) wants"
proof (unfold_locales, goal_cases)
  case (1 s name bs hint)
  then show ?case
    using GetNextInput_chunk [OF 1] by (simp only: custom_callbacks_def custom_fns.select_convs)
next
  case (2 name s)
  then show ?case
    by (simp only: custom_callbacks_def custom_fns.select_convs GetNextInput_nothing)
next
  case (3 s name n shape)
  then show ?case
    using callback_buffer [OF 3] by (simp only: custom_callbacks_def custom_fns.select_convs)
next
  case (4 s p b k bs)
  then show ?case
    using callback_write [OF 4] by (simp only: custom_callbacks_def custom_fns.select_convs snd_conv)
qed

end
