(* ===== verification/Custom_Props.thy ===== *)
theory Custom_Props
  imports Custom_World
begin

text \<open>
  The response providers meet the contract of a custom library, and a batch that runs on the
  identity library gives every request its inputs back.
\<close>

section \<open>Response providers\<close>

definition grpc_held :: "grpc_provider \<Rightarrow> out_ptr \<rightharpoonup> bytes" where
  "grpc_held r p =
     (case p of
        Raw_output j \<Rightarrow> if j < length (gv_raw_output r) then Some (gv_raw_output r ! j) else None
      | Own_buffer j \<Rightarrow> if j < length (rv_outputs r) then op_buffer (rv_outputs r ! j) else None
      | _ \<Rightarrow> None)"

definition write_own :: "nat \<Rightarrow> nat \<Rightarrow> bytes \<Rightarrow> provider_output list \<Rightarrow> provider_output list" where
  "write_own j k bs os = (if j < length os then os[j := (os ! j)\<lparr>op_buffer := map_option (overwrite k bs) (op_buffer (os ! j))\<rparr>] else os)"

definition grpc_write :: "out_ptr \<Rightarrow> nat \<Rightarrow> bytes \<Rightarrow> grpc_provider \<Rightarrow> grpc_provider" where
  "grpc_write p k bs r =
     (case p of
        Raw_output j \<Rightarrow> r\<lparr>gv_raw_output := (gv_raw_output r)[j := overwrite k bs (gv_raw_output r ! j)]\<rparr>
      | Own_buffer j \<Rightarrow> r\<lparr>rv_outputs := write_own j k bs (rv_outputs r)\<rparr>
      | _ \<Rightarrow> r)"

definition grpc_ops :: "(nat \<Rightarrow> 8 word) \<Rightarrow> grpc_provider response_ops" where
  "grpc_ops garbage =
     \<lparr>ro_allocate = (\<lambda>name n shape r. grpc_AllocateOutputBuffer garbage name Null_ptr n shape r), ro_write = grpc_write\<rparr>"

definition own_held :: "response_provider \<Rightarrow> out_ptr \<rightharpoonup> bytes" where
  "own_held r p =
     (case p of Own_buffer j \<Rightarrow> if j < length (rv_outputs r) then op_buffer (rv_outputs r ! j) else None | _ \<Rightarrow> None)"

definition own_write :: "out_ptr \<Rightarrow> nat \<Rightarrow> bytes \<Rightarrow> response_provider \<Rightarrow> response_provider" where
  "own_write p k bs r = (case p of Own_buffer j \<Rightarrow> r\<lparr>rv_outputs := write_own j k bs (rv_outputs r)\<rparr> | _ \<Rightarrow> r)"

definition delegating_ops :: "(nat \<Rightarrow> 8 word) \<Rightarrow> response_provider response_ops" where
  "delegating_ops garbage = \<lparr>ro_allocate = delegating_AllocateOutputBuffer garbage, ro_write = own_write\<rparr>"

definition provider_outs :: "'a response_provider_scheme \<Rightarrow> (string \<times> int list \<times> out_ptr) list" where
  "provider_outs r = map (\<lambda>out. (op_name out, op_shape out, op_ptr out)) (rv_outputs r)"

definition provider_wants :: "'a response_provider_scheme \<Rightarrow> string \<Rightarrow> bool" where
  "provider_wants r name = RequiresOutput name r"

lemma write_own_sel:
  "map (\<lambda>out. (op_name out, op_shape out, op_ptr out)) (write_own j k bs os) = map (\<lambda>out. (op_name out, op_shape out, op_ptr out)) os"
  "length (write_own j k bs os) = length os"
  "i < length os \<Longrightarrow> op_buffer (write_own j k bs os ! i) = (if i = j then map_option (overwrite k bs) (op_buffer (os ! i)) else op_buffer (os ! i))"
  by (auto simp: write_own_def map_update nth_list_update intro!: list_update_same_conv [THEN iffD2])

interpretation grpc_target: response_target "grpc_ops garbage" grpc_held provider_outs provider_wants for garbage
proof
  fix r :: grpc_provider and name n shape
  assume "provider_wants r name" and "(0 :: nat) < n"
  then show "\<exists>p r' b. ro_allocate (grpc_ops garbage) name n shape r = (Status_Success, p, r') \<and> p \<noteq> Null_ptr \<and>
      provider_wants r' = provider_wants r \<and> provider_outs r' = provider_outs r @ [(name, shape, p)] \<and> grpc_held r p = None \<and>
      grpc_held r \<subseteq>\<^sub>m grpc_held r' \<and> grpc_held r' p = Some b \<and> length b = n"
    by (auto simp: grpc_ops_def grpc_AllocateOutputBuffer_def CheckAndSetIfBufferedOutput_def provider_wants_def RequiresOutput_def
        provider_outs_def grpc_held_def set_last_output_def map_le_def dom_def nth_append fun_eq_iff Let_def split: option.splits out_ptr.splits if_splits)
next
  fix r :: grpc_provider and p k and b bs :: bytes
  assume "grpc_held r p = Some b" and "k + length bs \<le> length b"
  then show "provider_wants (ro_write (grpc_ops garbage) p k bs r) = provider_wants r \<and>
      provider_outs (ro_write (grpc_ops garbage) p k bs r) = provider_outs r \<and>
      grpc_held (ro_write (grpc_ops garbage) p k bs r) = (grpc_held r)(p \<mapsto> overwrite k bs b)"
    by (auto simp: grpc_ops_def grpc_write_def grpc_held_def provider_wants_def RequiresOutput_def provider_outs_def write_own_sel
        nth_list_update fun_eq_iff split: out_ptr.splits if_splits)
qed

interpretation c_target: response_target "delegating_ops garbage" own_held provider_outs provider_wants for garbage
proof
  fix r :: response_provider and name n shape
  assume "provider_wants r name" and "(0 :: nat) < n"
  then show "\<exists>p r' b. ro_allocate (delegating_ops garbage) name n shape r = (Status_Success, p, r') \<and> p \<noteq> Null_ptr \<and>
      provider_wants r' = provider_wants r \<and> provider_outs r' = provider_outs r @ [(name, shape, p)] \<and> own_held r p = None \<and>
      own_held r \<subseteq>\<^sub>m own_held r' \<and> own_held r' p = Some b \<and> length b = n"
    by (auto simp: delegating_ops_def delegating_AllocateOutputBuffer_def CheckAndSetIfBufferedOutput_def provider_wants_def RequiresOutput_def
        provider_outs_def own_held_def set_last_output_def map_le_def dom_def nth_append fun_eq_iff Let_def split: option.splits out_ptr.splits if_splits)
next
  fix r :: response_provider and p k and b bs :: bytes
  assume "own_held r p = Some b" and "k + length bs \<le> length b"
  then show "provider_wants (ro_write (delegating_ops garbage) p k bs r) = provider_wants r \<and>
      provider_outs (ro_write (delegating_ops garbage) p k bs r) = provider_outs r \<and>
      own_held (ro_write (delegating_ops garbage) p k bs r) = (own_held r)(p \<mapsto> overwrite k bs b)"
    by (auto simp: delegating_ops_def own_write_def own_held_def provider_wants_def RequiresOutput_def provider_outs_def write_own_sel
        fun_eq_iff split: out_ptr.splits if_splits)
qed

section \<open>Running a batch\<close>

abbreviation rn_header :: "'r run_payload \<Rightarrow> request_header" where
  "rn_header p \<equiv> ip_request_header (rn_request p)"

definition payload_shapes :: "'r run_payload \<Rightarrow> (string \<times> int list) list" where
  "payload_shapes p = map (\<lambda>i. (ri_name i, ri_dims i)) (rh_input (rn_header p))"

text \<open>What the scheduler hands to a runner: requests of one shape that together fit the model.\<close>

definition same_shapes :: "'r run_payload list \<Rightarrow> bool" where
  "same_shapes ps \<longleftrightarrow> (\<forall>p \<in> set ps. \<forall>(name, dims) \<in> set (payload_shapes p). input_shapes ps name = Some dims)"

definition batch_fits :: "int \<Rightarrow> 'r run_payload list \<Rightarrow> bool" where
  "batch_fits max_batch_size ps \<longleftrightarrow>
     (let n = sum_list (map (\<lambda>p. unat (rh_batch_size (rn_header p))) ps)
      in 0 < n \<and> (n = 1 \<or> int n \<le> max_batch_size) \<and> max_batch_size < 2 ^ 31)"

lemma total_batch_sum:
  "\<forall>p \<in> set ps. IsOk (rn_status p) \<Longrightarrow>
   total_batch name ps t = Inr (t + of_nat (sum_list (map (\<lambda>p. unat (rh_batch_size (rn_header p))) ps)))"
  by (induction ps arbitrary: t) (simp_all add: add.assoc)

lemma payload_inputs_shapes:
  "\<forall>(name, dims) \<in> set (map (\<lambda>i. (ri_name i, ri_dims i)) is). shapes name = Some dims \<Longrightarrow>
   payload_inputs nm shapes is = Inr (map (\<lambda>i. (ri_name i, ri_dims i)) is)"
  by (induction "is") (simp_all add: bind_status_simps)

lemma custom_payloads_all:
  "\<forall>p \<in> set ps. \<forall>(name, dims) \<in> set (payload_shapes p). shapes name = Some dims \<Longrightarrow>
   custom_payloads nm shapes ps = Inr (map (\<lambda>p. custom_payload_of (payload_shapes p) p) ps)"
  by (induction ps) (simp_all add: bind_status_simps payload_inputs_shapes payload_shapes_def)

lemma Run_executes:
  assumes "\<forall>p \<in> set ps. IsOk (rn_status p)" and "same_shapes ps" and fits: "batch_fits (cx_max_batch_size ctx) ps"
    and "cx_library ctx = Some lib"
    and "ExecuteFn lib (cx_library_context ctx) (map (\<lambda>p. custom_payload_of (payload_shapes p) p) ps) (custom_callbacks ops) = Some (0, lc, cps)"
    and "\<forall>cp \<in> set cps. cp_error_code cp = 0"
  shows "Run ops ctx ps = Some (Status_Success, ctx\<lparr>cx_library_context := lc\<rparr>, map2 used_payload cps ps)"
proof -
  let ?n = "sum_list (map (\<lambda>p. unat (rh_batch_size (rn_header p))) ps)"
  have n: "0 < ?n" "?n = 1 \<or> int ?n \<le> cx_max_batch_size ctx" "cx_max_batch_size ctx < 2 ^ 31"
    using fits by (simp_all add: batch_fits_def Let_def)
  then have small: "?n < 2 ^ 31"
    by auto
  then have u: "unat (of_nat ?n :: 32 word) = ?n"
    by (simp add: unat_of_nat take_bit_nat_eq_self)
  have zero: "(of_nat ?n :: 32 word) \<noteq> 0"
    using u n(1) by (metis unat_0 less_numeral_extra(3))
  have fit: "(of_nat ?n :: 32 word) = 1 \<or> \<not> of_int (cx_max_batch_size ctx) < (of_nat ?n :: 32 word)"
  proof (cases "?n = 1")
    case False
    then have m: "int ?n \<le> cx_max_batch_size ctx"
      using n(2) by simp
    have "unat (of_int (cx_max_batch_size ctx) :: 32 word) = nat (cx_max_batch_size ctx)"
    proof -
      have "(of_int (cx_max_batch_size ctx) :: 32 word) = of_nat (nat (cx_max_batch_size ctx))"
        using m by simp
      moreover have "nat (cx_max_batch_size ctx) < 2 ^ 32"
        using n(3) by simp
      ultimately show ?thesis
        by (simp add: unat_of_nat take_bit_nat_eq_self)
    qed
    moreover have "?n \<le> nat (cx_max_batch_size ctx)"
      using m by linarith
    ultimately show ?thesis
      using u by (simp add: word_less_nat_alt)
  qed simp
  have shapes: "custom_payloads (cx_name ctx) (input_shapes ps) ps = Inr (map (\<lambda>p. custom_payload_of (payload_shapes p) p) ps)"
    using assms(2) by (intro custom_payloads_all) (simp add: same_shapes_def)
  have tr: "map2 (transfer_error ctx1) cps qs = map snd (zip cps qs)" for ctx1 :: "('c, 'a io_context) custom_context" and qs
    using assms(6) by (auto simp: transfer_error_def dest: set_zip_leftD)
  have len: "map snd (zip cps (map2 used_payload cps ps)) = map2 used_payload cps ps"
    by (rule nth_equalityI) auto
  show ?thesis
    using fit zero shapes assms(4,5)
    by (elim disjE) (simp_all add: Run_def total_batch_sum [OF assms(1)] Let_def tr len)
qed

section \<open>identity\<close>

definition reply_contents :: "grpc_provider \<Rightarrow> (string \<times> int list \<times> bytes) list" where
  "reply_contents r = map (\<lambda>out. (op_name out, op_shape out, the (grpc_held r (op_ptr out)))) (rv_outputs r)"

definition input_content :: "'r run_payload \<Rightarrow> string \<Rightarrow> bytes" where
  "input_content p name = (case ip_input_buffer (rn_request p) name of None \<Rightarrow> [] | Some (m, i) \<Rightarrow> memory_bytes m)"

text \<open>A payload of a request that was just created, with a GRPC response.\<close>

definition fresh_payload :: "grpc_provider run_payload \<Rightarrow> bool" where
  "fresh_payload p \<longleftrightarrow> IsOk (rn_status p) \<and>
     (\<exists>name version bufs. provider_Create name version (rn_header p) bufs = Inr (rn_request p)) \<and>
     (\<exists>label_provider. rn_response p = Some (grpc_Create (rn_header p) label_provider))"

text \<open>
  The outputs are of the model and different, and the input of each is in the request with the size its
  shape says.
\<close>

definition input_shape :: "int \<Rightarrow> grpc_provider run_payload \<Rightarrow> string \<Rightarrow> int list" where
  "input_shape max_batch_size p name =
     (if max_batch_size \<noteq> 0 then [int (unat (rh_batch_size (rn_header p)))] else []) @
     (case map_of (payload_shapes p) name of None \<Rightarrow> [] | Some dims \<Rightarrow> dims)"

definition echo_request :: "identity_context \<Rightarrow> grpc_provider run_payload \<Rightarrow> bool" where
  "echo_request c p \<longleftrightarrow> distinct (map ro_name (rh_output (rn_header p))) \<and>
     (\<forall>out \<in> ro_name ` set (rh_output (rn_header p)). \<exists>dt. id_copy_map c out = Some (source c out, dt) \<and>
        source c out \<in> ri_name ` set (rh_input (rn_header p)) \<and>
        0 < length (input_content p (source c out)) \<and> length (input_content p (source c out)) < 2 ^ 64 \<and>
        GetByteSize dt (input_shape (id_max_batch_size c) p (source c out)) = int (length (input_content p (source c out))))"

text \<open>The names of an accepted model pair each output with an input of its own.\<close>

lemma identity_pairs_names:
  assumes "identity_pairs ps m = Inr m'" and "\<And>out i dt. m out = Some (i, dt) \<Longrightarrow> \<exists>x. out = ''OUTPUT'' @ x \<and> i = ''INPUT'' @ x"
  shows "m' out = Some (i, dt) \<Longrightarrow> \<exists>x. out = ''OUTPUT'' @ x \<and> i = ''INPUT'' @ x"
  using assms
proof (induction ps m arbitrary: out i dt rule: identity_pairs.induct)
  case (2 i0 out0 ps m)
  then have ok: "take 5 (mi_name i0) = ''INPUT''" "take 6 (mo_name out0) = ''OUTPUT''" "drop 5 (mi_name i0) = drop 6 (mo_name out0)"
    and rec: "identity_pairs ps (m(mo_name out0 \<mapsto> (mi_name i0, mo_data_type out0))) = Inr m'"
    by (auto simp: Let_def split: if_splits)
  have names: "mo_name out0 = ''OUTPUT'' @ drop 6 (mo_name out0)" "mi_name i0 = ''INPUT'' @ drop 6 (mo_name out0)"
    using append_take_drop_id [of 6 "mo_name out0"] append_take_drop_id [of 5 "mi_name i0"] unfolding ok by simp_all
  have step: "\<exists>x. o1 = ''OUTPUT'' @ x \<and> i1 = ''INPUT'' @ x"
    if "(m(mo_name out0 \<mapsto> (mi_name i0, mo_data_type out0))) o1 = Some (i1, d1)" for o1 i1 d1
    using that names "2.prems"(3) by (cases "o1 = mo_name out0") auto
  show ?case
    using "2.IH" [OF refl refl _ _ _ "2.prems"(1) rec step] "2.prems"(2) by (simp add: Let_def split: if_splits)
qed auto

lemma sources_distinct:
  assumes "identity_Init gpu config = Inr c" and "distinct os" and "\<forall>out \<in> set os. id_copy_map c out = Some (source c out, dt out)"
  shows "distinct (map (source c) os)"
proof -
  have names: "\<exists>x. out = ''OUTPUT'' @ x \<and> source c out = ''INPUT'' @ x" if out: "out \<in> set os" for out
  proof -
    obtain ps where "identity_pairs ps Map.empty = Inr (id_copy_map c)"
      using assms(1) by (auto simp: identity_Init_def split: if_splits sum.splits)
    then show ?thesis
      using identity_pairs_names [of ps Map.empty "id_copy_map c" out "source c out" "dt out"] assms(3) out by simp
  qed
  have "inj_on (source c) (set os)"
  proof (rule inj_onI)
    fix a b
    assume "a \<in> set os" "b \<in> set os" and eq: "source c a = source c b"
    then obtain x y where "a = ''OUTPUT'' @ x" "source c a = ''INPUT'' @ x" "b = ''OUTPUT'' @ y" "source c b = ''INPUT'' @ y"
      using names by meson
    then show "a = b"
      using eq by simp
  qed
  then show ?thesis
    using assms(2) by (simp add: distinct_map)
qed

lemma fresh_chunks:
  assumes "fresh_payload p" and "name \<in> ri_name ` set (rh_input (rn_header p))"
  shows "\<exists>bs. io_chunks (rn_request p, r) name = Some bs \<and> concat bs = input_content p name"
proof -
  obtain nm v bufs where c: "provider_Create nm v (rn_header p) bufs = Inr (rn_request p)"
    using assms(1) by (auto simp: fresh_payload_def)
  obtain io where io: "io \<in> set (rh_input (rn_header p))" "name = ri_name io"
    using assms(2) by blast
  then obtain m where m: "bufs name = Some m"
    using bind_inputs_sel [OF c [unfolded provider_Create_def]] by blast
  show ?thesis
    using provider_Create_sel(1,3) [OF c io(1)] m io(2)
    by (simp add: io_chunks_def input_content_def memory_bytes_def)
qed

lemma fresh_wants:
  assumes "out \<in> ro_name ` set (rh_output h)"
  shows "provider_wants (grpc_Create h label_provider) out"
proof -
  have "find (\<lambda>io. ro_name io = out) (rh_output h) \<noteq> None"
    using assms by (auto simp: find_None_iff)
  then show ?thesis
    by (simp add: provider_wants_def RequiresOutput_def grpc_Create_def InferResponseProvider_def response_provider.defs
        fold_map_insert)
qed

lemma grpc_Create_outputs [simp]: "rv_outputs (grpc_Create h label_provider) = []"
  by (simp add: grpc_Create_def InferResponseProvider_def response_provider.defs)

definition echoed :: "identity_context \<Rightarrow> grpc_provider run_payload \<Rightarrow> (string \<times> int list \<times> bytes) list" where
  "echoed c p = map (\<lambda>out. (ro_name out, input_shape (id_max_batch_size c) p (source c (ro_name out)),
     input_content p (source c (ro_name out)))) (rh_output (rn_header p))"

lemma identity_payload:
  assumes "identity_Init gpu config = Inr c" and "fresh_payload p" and "echo_request c p"
  shows "\<exists>rq r. identity_outputs c (custom_callbacks (grpc_ops garbage)) (map ro_name (rh_output (rn_header p)))
      (custom_payload_of (payload_shapes p) p) =
      Some ((custom_payload_of (payload_shapes p) p)\<lparr>cp_context := (rq, Some r)\<rparr>) \<and> reply_contents r = echoed c p"
proof -
  let ?cp = "custom_payload_of (payload_shapes p) p" and ?os = "map ro_name (rh_output (rn_header p))"
  obtain lp where lp: "rn_response p = Some (grpc_Create (rn_header p) lp)"
    using assms(2) by (auto simp: fresh_payload_def)
  have ctx: "cp_context ?cp = (rn_request p, Some (grpc_Create (rn_header p) lp))"
    by (simp add: custom_payload_of_def Let_def lp)
  have shape: "identity_shape m name ?cp = input_shape m p name" for m name
    by (simp add: identity_shape_def input_shape_def custom_payload_of_def Let_def)
  have held: "grpc_target.world.all_held (cp_context ?cp)"
    by (simp add: grpc_target.world.all_held_def ctx provider_outs_def)
  have wants: "case_option (\<lambda>_. False) provider_wants (snd (cp_context ?cp)) out" if "out \<in> set ?os" for out
    using fresh_wants that by (simp add: ctx)
  have err: "cp_error_code ?cp = 0"
    by (simp add: custom_payload_of_def Let_def)
  obtain dt where io: "id_copy_map c out = Some (source c out, dt out)" "source c out \<in> ri_name ` set (rh_input (rn_header p))"
      "0 < length (input_content p (source c out))" "length (input_content p (source c out)) < 2 ^ 64"
      "GetByteSize (dt out) (input_shape (id_max_batch_size c) p (source c out)) = int (length (input_content p (source c out)))"
    if "out \<in> set ?os" for out
    using assms(3) unfolding echo_request_def set_map by metis
  have chunk: "\<exists>bs. io_chunks (cp_context ?cp) (source c out) = Some bs \<and> concat bs = input_content p (source c out)"
    if "out \<in> set ?os" for out
    unfolding ctx by (rule fresh_chunks [OF assms(2) io(2) [OF that]])
  have echoes: "echoes c ?cp (io_chunks (cp_context ?cp)) out" if out: "out \<in> set ?os" for out
    using chunk [OF out] io [OF out] unfolding echoes_def shape by metis
  have dist: "distinct (map (source c) ?os)"
    using sources_distinct [OF assms(1), of ?os dt] assms(3) io(1) by (simp add: echo_request_def)
  obtain s' where s': "identity_outputs c (custom_callbacks (grpc_ops garbage)) ?os ?cp = Some (?cp\<lparr>cp_context := s'\<rparr>)"
      "grpc_target.world.contents s' = grpc_target.world.contents (cp_context ?cp) @ map (echo c ?cp (io_chunks (cp_context ?cp))) ?os"
    using grpc_target.world.identity_outputs_echo [OF held wants err echoes dist] by blast
  have entries: "map (echo c ?cp (io_chunks (cp_context ?cp))) ?os = echoed c p"
    using chunk by (force simp: echo_def echoed_def shape)
  have before: "grpc_target.world.contents (cp_context ?cp) = []"
    by (simp add: grpc_target.world.contents_def ctx provider_outs_def)
  have "\<exists>r. snd s' = Some r"
  proof (cases ?os)
    case Nil
    then have "?cp\<lparr>cp_context := s'\<rparr> = ?cp"
      using s'(1) by simp
    then have "s' = cp_context ?cp"
      by (metis custom_payload.select_convs(4) custom_payload.surjective custom_payload.update_convs(4))
    then show ?thesis
      by (simp add: ctx)
  next
    case Cons
    then show ?thesis
      using s'(2) by (auto simp: grpc_target.world.contents_def split: option.splits)
  qed
  then obtain r where r: "s' = (fst s', Some r)"
    by (metis prod.collapse)
  have "reply_contents r = grpc_target.world.contents s'"
    by (subst r) (simp add: grpc_target.world.contents_def reply_contents_def provider_outs_def)
  then show ?thesis
    using s' before entries r by (intro exI [of _ "fst s'"] exI [of _ r]) simp
qed

lemma each_payload_all:
  assumes "\<And>p. p \<in> set ps \<Longrightarrow> f (g p) = Some (h p)"
  shows "each_payload f (map g ps) = Some (map h ps)"
  using assms by (induction ps) simp_all

text \<open>
  Claim C32. The identity library in the server. When it accepts the configuration of a model, every batch of
  requests whose inputs have the size of their shape runs without an error, and the GRPC response of each
  request holds, for every output it asked for and in that order, the shape and the bytes of the
  input that belongs to the output, in however many pieces the input came.
\<close>

theorem identity_echoes_inputs:
  assumes "identity_Init gpu config = Inr c" and "cx_library ctx = Some identity_library" and "cx_library_context ctx = Some c"
    and "same_shapes ps" and "batch_fits (cx_max_batch_size ctx) ps"
    and "\<forall>p \<in> set ps. fresh_payload p \<and> echo_request c p"
  shows "\<exists>ps'. Run (grpc_ops garbage) ctx ps = Some (Status_Success, ctx, ps') \<and>
    list_all2 (\<lambda>p p'. IsOk (rn_status p') \<and> map_option reply_contents (rn_response p') = Some (echoed c p)) ps ps'"
proof -
  let ?cp = "\<lambda>p. custom_payload_of (payload_shapes p) p"
  have "\<forall>p \<in> set ps. \<exists>x. identity_outputs c (custom_callbacks (grpc_ops garbage)) (map ro_name (rh_output (rn_header p))) (?cp p) =
      Some ((?cp p)\<lparr>cp_context := (fst x, Some (snd x))\<rparr>) \<and> reply_contents (snd x) = echoed c p"
    using identity_payload [OF assms(1)] assms(6) by fastforce
  from bchoice [OF this] obtain x where run: "\<forall>p \<in> set ps.
      identity_outputs c (custom_callbacks (grpc_ops garbage)) (map ro_name (rh_output (rn_header p))) (?cp p) =
        Some ((?cp p)\<lparr>cp_context := (fst (x p), Some (snd (x p)))\<rparr>) \<and> reply_contents (snd (x p)) = echoed c p"
    by blast
  let ?done = "\<lambda>p. (?cp p)\<lparr>cp_context := (fst (x p), Some (snd (x p)))\<rparr>"
  have outs: "cp_outputs (?cp p) = map ro_name (rh_output (rn_header p))" for p :: "grpc_provider run_payload"
    by (simp add: custom_payload_of_def Let_def)
  have "each_payload (\<lambda>p. identity_outputs c (custom_callbacks (grpc_ops garbage)) (cp_outputs p) p) (map ?cp ps) = Some (map ?done ps)"
    using run by (intro each_payload_all) (simp add: outs)
  then have exec: "ExecuteFn identity_library (cx_library_context ctx) (map ?cp ps) (custom_callbacks (grpc_ops garbage)) =
      Some (0, Some c, map ?done ps)"
    using assms(3) by (simp add: identity_library_def library_of_def identity_Execute_def)
  have ok: "\<forall>p \<in> set ps. IsOk (rn_status p)" and err: "\<forall>cp \<in> set (map ?done ps). cp_error_code cp = 0"
    using assms(6) by (auto simp: fresh_payload_def custom_payload_of_def Let_def)
  have ctx: "ctx\<lparr>cx_library_context := Some c\<rparr> = ctx"
    using assms(3) by simp
  have "Run (grpc_ops garbage) ctx ps = Some (Status_Success, ctx, map2 used_payload (map ?done ps) ps)"
    using Run_executes [OF ok assms(4,5,2) exec err] unfolding ctx .
  moreover have "list_all2 (\<lambda>p p'. IsOk (rn_status p') \<and> map_option reply_contents (rn_response p') = Some (echoed c p)) ps
      (map2 used_payload (map ?done ps) ps)"
    using run ok by (simp add: list_all2_conv_all_nth used_payload_def)
  ultimately show ?thesis
    by blast
qed

definition echo_config :: model_config where
  "echo_config = model_config_clear\<lparr>mc_name := ''m'', mc_max_batch_size := 2,
     mc_input := [\<lparr>mi_name = ''INPUT0'', mi_data_type = TYPE_UINT8, mi_format = FORMAT_NONE, mi_dims = [3], mi_reshape = None\<rparr>],
     mc_output := [\<lparr>mo_name = ''OUTPUT0'', mo_data_type = TYPE_UINT8, mo_dims = [3], mo_reshape = None, mo_label_filename = []\<rparr>]\<rparr>"

definition echo_context :: identity_context where
  "echo_context = \<lparr>id_max_batch_size = 2, id_copy_map = [''OUTPUT0'' \<mapsto> (''INPUT0'', TYPE_UINT8)]\<rparr>"

definition echo_header :: request_header where
  "echo_header = small_header\<lparr>rh_output := [\<lparr>ro_name = ''OUTPUT0'', ro_cls = None\<rparr>]\<rparr>"

definition echo_payload :: "grpc_provider run_payload" where
  "echo_payload = \<lparr>rn_queue_timer = None, rn_stats = None,
     rn_request = projr (provider_Create ''m'' 1 echo_header [''INPUT0'' \<mapsto> small_memory]),
     rn_response = Some (grpc_Create echo_header Map.empty), rn_status = Status_Success\<rparr>"

definition echo_instance :: "(identity_context, grpc_provider io_context) custom_context" where
  "echo_instance = (Context ''m_0_cpu'' NO_GPU_DEVICE 2)\<lparr>cx_library := Some identity_library, cx_library_context := Some echo_context\<rparr>"

lemma echo_created:
  "provider_Create ''m'' 1 echo_header [''INPUT0'' \<mapsto> small_memory] = Inr (rn_request echo_payload)"
  "rn_header echo_payload = echo_header" "ip_input_buffer (rn_request echo_payload) ''INPUT0'' = Some (small_memory, 0)"
  by (simp_all add: echo_payload_def provider_Create_def echo_header_def small_header_def small_memory_def InferRequestProvider_def
      SystemMemoryReference_def AddBuffer_def)

lemma echo_content: "input_content echo_payload ''INPUT0'' = [1, 2, 3]"
  by (simp add: input_content_def echo_created small_memory_def memory_bytes_def)

lemma echo_shape: "input_shape 2 echo_payload ''INPUT0'' = [1, 3]"
  by (simp add: input_shape_def payload_shapes_def echo_created echo_header_def small_header_def)

lemma identity_echoes_inputs_witness:
  "\<exists>p1 p2. Run (grpc_ops (\<lambda>_. 0)) echo_instance [echo_payload, echo_payload] = Some (Status_Success, echo_instance, [p1, p2]) \<and>
    map_option reply_contents (rn_response p1) = Some [(''OUTPUT0'', [1, 3], [1, 2, 3])] \<and>
    map_option reply_contents (rn_response p2) = Some [(''OUTPUT0'', [1, 3], [1, 2, 3])]"
proof -
  have init: "identity_Init NO_GPU_DEVICE echo_config = Inr echo_context"
    by (simp add: identity_Init_def echo_config_def echo_context_def model_config_clear_def CompareDims_iff)
  have source: "source echo_context ''OUTPUT0'' = ''INPUT0''" "id_max_batch_size echo_context = 2"
    by (simp_all add: source_def echo_context_def)
  have outs: "rh_output echo_header = [\<lparr>ro_name = ''OUTPUT0'', ro_cls = None\<rparr>]" "''INPUT0'' \<in> ri_name ` set (rh_input echo_header)"
    by (simp_all add: echo_header_def small_header_def)
  have size: "GetByteSize TYPE_UINT8 [1, 3] = 3"
    by code_simp
  have shapes: "same_shapes [echo_payload, echo_payload]"
    by (simp add: same_shapes_def input_shapes_def payload_shapes_def echo_created echo_header_def small_header_def map_insert_def)
  have fits: "batch_fits (cx_max_batch_size echo_instance) [echo_payload, echo_payload]"
    by (simp add: batch_fits_def echo_created echo_header_def small_header_def echo_instance_def Context_def)
  have fresh: "fresh_payload echo_payload"
    unfolding fresh_payload_def echo_created(2)
    by (intro conjI exI [of _ "''m''"] exI [of _ 1] exI [of _ "[''INPUT0'' \<mapsto> small_memory]"] exI [of _ Map.empty] echo_created(1))
      (simp_all add: echo_payload_def)
  have req: "echo_request echo_context echo_payload"
    using outs by (simp add: echo_request_def echo_created source echo_content echo_shape size)
      (simp add: echo_context_def size)
  have inst: "cx_library echo_instance = Some identity_library" "cx_library_context echo_instance = Some echo_context"
    by (simp_all add: echo_instance_def)
  have echoed: "echoed echo_context echo_payload = [(''OUTPUT0'', [1, 3], [1, 2, 3])]"
    by (simp add: echoed_def echo_created outs source echo_content echo_shape)
  show ?thesis
    using identity_echoes_inputs [OF init inst shapes fits, of "\<lambda>_. 0"] fresh req
    by (auto simp: list_all2_Cons1 echoed)
qed

end
