(* ===== verification/Custom_Sequence_Props.thy ===== *)
theory Custom_Sequence_Props
  imports Custom_Sequence Custom_Props Client_Strings
begin

text \<open>
  The sequence library adds up: however the batches of its slots follow one another, the output of a step is
  the sum of the inputs of its slot since the last start of a sequence.
\<close>

section \<open>Specification\<close>

record sequence_step =
  ss_start :: "32 word"
  ss_ready :: "32 word"
  ss_input :: "32 word"

text \<open>The ready steps from the last one that starts a sequence on; all of them, if none does.\<close>

definition current_sequence :: "sequence_step list \<Rightarrow> sequence_step list" where
  "current_sequence hist =
     (let steps = rev (filter (\<lambda>x. ss_ready x \<noteq> 0) hist)
      in rev (takeWhile (\<lambda>x. ss_start x = 0) steps @ take 1 (dropWhile (\<lambda>x. ss_start x = 0) steps)))"

definition since_start :: "sequence_step list \<Rightarrow> 32 word" where
  "since_start hist = sum_list (map ss_input (current_sequence hist))"

text \<open>A batch adds a step to the history of each slot it has a payload for.\<close>

definition extend_histories :: "sequence_step list list \<Rightarrow> sequence_step list \<Rightarrow> sequence_step list list" where
  "extend_histories hs xs = map2 (\<lambda>h x. h @ [x]) hs xs @ drop (length xs) hs"

fun expected :: "sequence_step list list \<Rightarrow> sequence_step list list \<Rightarrow> (sequence_step \<times> 32 word) list list" where
  "expected hs [] = []"
| "expected hs (xs # xss) =
     (let hs1 = extend_histories hs xs in zip xs (map since_start hs1) # expected hs1 xss)"

definition step_value :: "32 word \<Rightarrow> sequence_step \<Rightarrow> 32 word" where
  "step_value acc x = (if ss_ready x = 0 then acc else accumulate (ss_start x) (ss_input x) acc)"

lemma sum_list_rev_word: "sum_list (rev xs) = sum_list (xs :: 32 word list)"
  by (induction xs) simp_all

lemma since_start_snoc: "since_start (hist @ [x]) = step_value (since_start hist) x"
  by (simp add: since_start_def current_sequence_def step_value_def accumulate_def Let_def rev_map [symmetric] sum_list_rev_word add.commute)

lemma since_start_Nil [simp]: "since_start [] = 0"
  by (simp add: since_start_def current_sequence_def)

section \<open>Batches in a row\<close>

fun sequence_run ::
  "'s custom_fns \<Rightarrow> sequence_context \<Rightarrow> 's custom_payload list list \<Rightarrow> (sequence_context \<times> 's custom_payload list list) option" where
  "sequence_run fns c [] = Some (c, [])"
| "sequence_run fns c (ps # pss) =
     (case sequence_Execute c ps fns of
        Some (err, c1, qs) \<Rightarrow>
          if err \<noteq> 0 then None else map_option (\<lambda>(c2, qss). (c2, qs # qss)) (sequence_run fns c1 pss)
      | None \<Rightarrow> None)"

text \<open>A payload that carries a step: three inputs of four bytes each, and a response for one output.\<close>

definition available :: "'r io_context \<Rightarrow> string \<rightharpoonup> bytes" where
  "available ctx name = map_option concat (io_chunks ctx name)"

definition carries :: "grpc_provider io_context custom_payload \<Rightarrow> sequence_step \<Rightarrow> bool" where
  "carries p x \<longleftrightarrow> cp_batch_size p = 1 \<and> cp_error_code p = 0 \<and>
     (\<exists>out r. cp_outputs p = [out] \<and> snd (cp_context p) = Some r \<and> rv_outputs r = [] \<and> provider_wants r out) \<and>
     available (cp_context p) ''START'' = Some (le32 (ss_start x)) \<and>
     available (cp_context p) ''READY'' = Some (le32 (ss_ready x)) \<and>
     available (cp_context p) ''INPUT'' = Some (le32 (ss_input x))"

definition replies :: "grpc_provider io_context custom_payload \<Rightarrow> (string \<times> int list \<times> bytes) list" where
  "replies p = (case snd (cp_context p) of None \<Rightarrow> [] | Some r \<Rightarrow> reply_contents r)"

text \<open>A step that is ready is answered with the sum, one that is not with nothing.\<close>

definition answered ::
  "int \<Rightarrow> grpc_provider io_context custom_payload \<Rightarrow> sequence_step \<times> 32 word \<Rightarrow> bool" where
  "answered max_batch_size q xv \<longleftrightarrow> cp_error_code q = 0 \<and>
     replies q = (if ss_ready (fst xv) = 0 then []
                  else [(hd (cp_outputs q), (if max_batch_size \<noteq> 0 then [1] else []) @ [1], le32 (snd xv))])"

lemma element_le32 [simp]: "element32 (le32 w) 0 = w"
  by (simp add: element32_def)

section \<open>One payload\<close>

lemma GetInputTensor_read:
  assumes "available s name = Some (le32 w)"
  shows "\<exists>s' cs. sequence_GetInputTensor (custom_callbacks (grpc_ops g)) name 4 s = Some (0, le32 w, s') \<and>
    io_chunks s' = (io_chunks s)(name \<mapsto> cs) \<and> snd s' = snd s"
proof -
  obtain bs where bs: "io_chunks s name = Some bs" "concat bs = le32 w"
    using assms by (auto simp: available_def)
  have size: "unat (0 :: 64 word) + length (concat bs) = unat (4 :: 64 word)"
    by (simp add: bs(2))
  have ask: "4 - k \<noteq> 0" if "k < 4" for k :: "64 word"
    using that by simp
  show ?thesis
    using grpc_target.world.read_tensor_bytes [where ask = "\<lambda>k. 4 - k" and inp = "[]", OF bs(1) size ask] bs(2)
    by (simp add: sequence_GetInputTensor_def)
qed

lemma available_other: "io_chunks s' = (io_chunks s)(name \<mapsto> cs) \<Longrightarrow> name' \<noteq> name \<Longrightarrow> available s' name' = available s name'"
  by (simp add: available_def)

lemma read_tensors_step:
  assumes "carries p x"
  shows "\<exists>s'. read_tensors (custom_callbacks (grpc_ops g)) [''START'', ''READY'', ''INPUT''] (cp_context p) =
    Some (0, [le32 (ss_start x), le32 (ss_ready x), le32 (ss_input x)], s') \<and> snd s' = snd (cp_context p)"
proof -
  let ?read = "sequence_GetInputTensor (custom_callbacks (grpc_ops g))"
  have av: "available (cp_context p) ''START'' = Some (le32 (ss_start x))" "available (cp_context p) ''READY'' = Some (le32 (ss_ready x))"
    "available (cp_context p) ''INPUT'' = Some (le32 (ss_input x))"
    using assms by (simp_all add: carries_def)
  obtain s1 cs1 where s1: "?read ''START'' 4 (cp_context p) = Some (0, le32 (ss_start x), s1)"
      "io_chunks s1 = (io_chunks (cp_context p))(''START'' \<mapsto> cs1)" "snd s1 = snd (cp_context p)"
    using GetInputTensor_read [OF av(1)] by blast
  have "available s1 ''READY'' = Some (le32 (ss_ready x))"
    using available_other [OF s1(2)] av(2) by simp
  then obtain s2 cs2 where s2: "?read ''READY'' 4 s1 = Some (0, le32 (ss_ready x), s2)"
      "io_chunks s2 = (io_chunks s1)(''READY'' \<mapsto> cs2)" "snd s2 = snd s1"
    using GetInputTensor_read by blast
  have "available s2 ''INPUT'' = Some (le32 (ss_input x))"
    using available_other [OF s2(2)] available_other [OF s1(2)] av(3) by simp
  then obtain s3 cs3 where s3: "?read ''INPUT'' 4 s2 = Some (0, le32 (ss_input x), s3)" "snd s3 = snd s2"
    using GetInputTensor_read by blast
  show ?thesis
    using s1 s2 s3 by simp
qed

lemma sequence_payload_step:
  assumes "carries p x"
  shows "\<exists>q. sequence_payload m (custom_callbacks (grpc_ops g)) acc p = Some (step_value acc x, q) \<and>
    answered m q (x, step_value acc x)"
proof -
  obtain s' where s': "read_tensors (custom_callbacks (grpc_ops g)) [''START'', ''READY'', ''INPUT''] (cp_context p) =
      Some (0, [le32 (ss_start x), le32 (ss_ready x), le32 (ss_input x)], s')" "snd s' = snd (cp_context p)"
    using read_tensors_step [OF assms] by blast
  obtain out r where r: "cp_batch_size p = 1" "cp_error_code p = 0" "cp_outputs p = [out]" "snd (cp_context p) = Some r" "rv_outputs r = []" "provider_wants r out"
    using assms by (auto simp: carries_def)
  have empty: "reply_contents r = []"
    by (simp add: reply_contents_def r(5))
  show ?thesis
  proof (cases "ss_ready x = 0")
    case True
    then show ?thesis
      using s' r empty by (simp add: sequence_payload_def step_value_def answered_def replies_def Let_def)
  next
    case False
    let ?shape = "(if m \<noteq> 0 then [1] else []) @ [1 :: int]" and ?v = "accumulate (ss_start x) (ss_input x) acc"
    have wants: "case_option (\<lambda>_. False) provider_wants (snd s') out"
      using s'(2) r by simp
    obtain q s1 b where s1: "fn_output (custom_callbacks (grpc_ops g)) out ?shape 4 s' = (True, q, s1)" "q \<noteq> Null_ptr"
        "case_option [] provider_outs (snd s1) = case_option [] provider_outs (snd s') @ [(out, ?shape, q)]"
        "case_option Map.empty grpc_held (snd s1) q = Some b" "length b = 4"
      using grpc_target.world.output_buffer [OF wants, of 4 g ?shape] by auto
    let ?s2 = "fn_write (custom_callbacks (grpc_ops g)) q 0 (le32 ?v) s1"
    have "0 + length (le32 ?v) \<le> length b"
      by (simp add: s1(5))
    note w = grpc_target.world.write_buffer [OF s1(4) this]
    have "overwrite 0 (le32 ?v) b = le32 ?v"
      by (rule overwrite_full) (simp add: s1(5))
    then have held: "case_option Map.empty grpc_held (snd ?s2) q = Some (le32 ?v)"
      and outs: "case_option [] provider_outs (snd ?s2) = [(out, ?shape, q)]"
      using w s1(3) s'(2) r by (simp_all add: provider_outs_def)
    then obtain r2 where r2: "snd ?s2 = Some r2" "provider_outs r2 = [(out, ?shape, q)]" "grpc_held r2 q = Some (le32 ?v)"
      by (cases "snd ?s2") auto
    then have reply: "reply_contents r2 = [(out, ?shape, le32 ?v)]"
      by (auto simp: reply_contents_def provider_outs_def)
    show ?thesis
      using s' r s1(1,2) False r2(1) reply
      by (simp add: sequence_payload_def sequence_output_def step_value_def answered_def replies_def Let_def)
  qed
qed

section \<open>Batches\<close>

lemma sequence_payloads_steps:
  assumes "list_all2 carries ps xs" and "length xs \<le> length accs"
  shows "\<exists>qs. sequence_payloads m (custom_callbacks (grpc_ops g)) accs ps =
      Some (map2 step_value accs xs @ drop (length xs) accs, qs) \<and>
    list_all2 (answered m) qs (zip xs (map2 step_value accs xs))"
  using assms
proof (induction ps xs arbitrary: accs rule: list_all2_induct)
  case Nil
  then show ?case by simp
next
  case (Cons p ps x xs)
  then obtain acc as where accs: "accs = acc # as" "length xs \<le> length as"
    by (cases accs) auto
  obtain q where "sequence_payload m (custom_callbacks (grpc_ops g)) acc p = Some (step_value acc x, q)"
      "answered m q (x, step_value acc x)"
    using sequence_payload_step [OF Cons.hyps(1)] by blast
  then show ?case
    using Cons.IH [OF accs(2)] accs(1) by auto
qed

lemma sequence_Execute_steps:
  assumes "list_all2 carries ps xs" and "length xs \<le> length hs" and "sa_accumulator c = map since_start hs"
  shows "\<exists>qs. sequence_Execute c ps (custom_callbacks (grpc_ops g)) =
      Some (0, c\<lparr>sa_accumulator := map since_start (extend_histories hs xs)\<rparr>, qs) \<and>
    list_all2 (answered (sa_max_batch_size c)) qs (zip xs (map since_start (extend_histories hs xs)))"
proof -
  have "map2 step_value (map since_start hs) xs = map since_start (map2 (\<lambda>h x. h @ [x]) hs xs)"
    by (rule nth_equalityI) (simp_all add: since_start_snoc)
  then have ext: "map2 step_value (map since_start hs) xs @ drop (length xs) (map since_start hs) = map since_start (extend_histories hs xs)"
    by (simp add: extend_histories_def drop_map)
  then have "zip xs (map since_start (extend_histories hs xs)) = zip xs (map2 step_value (map since_start hs) xs)"
    using assms(2) by (simp add: zip_append2 min_def flip: ext)
  then show ?thesis
    using sequence_payloads_steps [OF assms(1), of "map since_start hs" "sa_max_batch_size c" g] assms ext
      list_all2_lengthD [OF assms(1)]
    by (auto simp: sequence_Execute_def)
qed

lemma length_extend_histories [simp]: "length xs \<le> length hs \<Longrightarrow> length (extend_histories hs xs) = length hs"
  by (simp add: extend_histories_def)

lemma sequence_run_steps:
  assumes "list_all2 (list_all2 carries) pss xss" and "\<forall>xs \<in> set xss. length xs \<le> length hs" and "sa_accumulator c = map since_start hs"
  shows "\<exists>c' qss. sequence_run (custom_callbacks (grpc_ops g)) c pss = Some (c', qss) \<and>
    list_all2 (list_all2 (answered (sa_max_batch_size c))) qss (expected hs xss)"
  using assms
proof (induction pss xss arbitrary: hs c rule: list_all2_induct)
  case Nil
  then show ?case by simp
next
  case (Cons ps pss xs xss)
  let ?hs = "extend_histories hs xs"
  have len: "length xs \<le> length hs"
    using Cons.prems(1) by simp
  obtain qs where qs: "sequence_Execute c ps (custom_callbacks (grpc_ops g)) = Some (0, c\<lparr>sa_accumulator := map since_start ?hs\<rparr>, qs)"
      "list_all2 (answered (sa_max_batch_size c)) qs (zip xs (map since_start ?hs))"
    using sequence_Execute_steps [OF Cons.hyps(1) len Cons.prems(2)] by blast
  have "\<forall>ys \<in> set xss. length ys \<le> length ?hs"
    using Cons.prems(1) len by simp
  then obtain c' qss where "sequence_run (custom_callbacks (grpc_ops g)) (c\<lparr>sa_accumulator := map since_start ?hs\<rparr>) pss = Some (c', qss)"
      "list_all2 (list_all2 (answered (sa_max_batch_size c))) qss (expected ?hs xss)"
    using Cons.IH [of ?hs "c\<lparr>sa_accumulator := map since_start ?hs\<rparr>"] by auto
  then show ?case
    using qs by (simp add: Let_def)
qed

text \<open>
  Claim C33. The sequence library adds up. From its creation on, whatever batches it runs, where each slot gets a
  step that may or may not be ready and may or may not start a sequence: every ready step is answered with the
  32-bit sum of the inputs of its slot since the last ready start, every other step with no output, and no
  step with an error.
\<close>

theorem sequence_library_adds_up:
  assumes "sequence_Init gpu config = Inr c" and "list_all2 (list_all2 carries) pss xss"
    and "\<forall>xs \<in> set xss. int (length xs) \<le> max 1 (mc_max_batch_size config)"
  shows "\<exists>c' qss. sequence_run (custom_callbacks (grpc_ops g)) c pss = Some (c', qss) \<and>
    list_all2 (list_all2 (answered (mc_max_batch_size config))) qss
      (expected (replicate (nat (max 1 (mc_max_batch_size config))) []) xss)"
proof -
  have c: "c = \<lparr>sa_max_batch_size = mc_max_batch_size config, sa_accumulator = replicate (nat (max 1 (mc_max_batch_size config))) 0\<rparr>"
    using assms(1) by (simp add: sequence_Init_def Let_def split: if_splits)
  have "\<forall>xs \<in> set xss. length xs \<le> length (replicate (nat (max 1 (mc_max_batch_size config))) ([] :: sequence_step list))"
    using assms(3) by (simp add: nat_le_iff le_nat_iff)
  then show ?thesis
    using sequence_run_steps [OF assms(2), of "replicate (nat (max 1 (mc_max_batch_size config))) []" c g] by (simp add: c)
qed

definition sum_config :: model_config where
  "sum_config = model_config_clear\<lparr>mc_name := ''m'', mc_max_batch_size := 2,
     mc_input := [\<lparr>mi_name = ''INPUT'', mi_data_type = TYPE_INT32, mi_format = FORMAT_NONE, mi_dims = [1], mi_reshape = None\<rparr>],
     mc_output := [\<lparr>mo_name = ''OUTPUT'', mo_data_type = TYPE_INT32, mo_dims = [1], mo_reshape = None, mo_label_filename = []\<rparr>],
     mc_scheduling := Sequence_batching \<lparr>sb_max_sequence_idle_microseconds = 0,
       sb_control_input = [\<lparr>ci_name = ''START'', ci_control = []\<rparr>, \<lparr>ci_name = ''READY'', ci_control = []\<rparr>]\<rparr>\<rparr>"

definition sum_override :: "32 word \<Rightarrow> input_override" where
  "sum_override w = \<lparr>io_content = le32 w, io_dims = [1], io_datatype = TYPE_INT32\<rparr>"

text \<open>The control tensors are overrides, as the sequence batcher sets them.\<close>

definition sum_payload :: "sequence_step \<Rightarrow> grpc_provider io_context custom_payload" where
  "sum_payload x = \<lparr>cp_batch_size = 1, cp_inputs = [(''INPUT'', [1])], cp_outputs = [''OUTPUT''],
     cp_context = ((InferRequestProvider ''m'' 1)
         \<lparr>ip_overrides := Some [(''START'', sum_override (ss_start x)), (''READY'', sum_override (ss_ready x))],
          ip_input_buffer := [''INPUT'' \<mapsto> (Reference (snd (AddBuffer (le32 (ss_input x)) SystemMemoryReference)), 0)]\<rparr>,
       Some (grpc_Create (request_header_clear\<lparr>rh_output := [\<lparr>ro_name = ''OUTPUT'', ro_cls = None\<rparr>]\<rparr>) Map.empty)),
     cp_error_code = 0\<rparr>"

lemma sum_payload_carries: "carries (sum_payload x) x"
  using fresh_wants [of "''OUTPUT''" "request_header_clear\<lparr>rh_output := [\<lparr>ro_name = ''OUTPUT'', ro_cls = None\<rparr>]\<rparr>" Map.empty]
  by (simp add: carries_def sum_payload_def available_def io_chunks_def sum_override_def InferRequestProvider_def)

lemma sequence_library_adds_up_witness:
  "\<exists>c c' q1 q2 q3. sequence_Init CUSTOM_NO_GPU_DEVICE sum_config = Inr c \<and>
    sequence_run (custom_callbacks (grpc_ops (\<lambda>_. 0))) c
      [[sum_payload \<lparr>ss_start = 1, ss_ready = 1, ss_input = 5\<rparr>], [sum_payload \<lparr>ss_start = 0, ss_ready = 0, ss_input = 9\<rparr>],
       [sum_payload \<lparr>ss_start = 0, ss_ready = 1, ss_input = 7\<rparr>]] = Some (c', [[q1], [q2], [q3]]) \<and>
    map snd (map snd (replies q1)) = [le32 5] \<and> replies q2 = [] \<and> map snd (map snd (replies q3)) = [le32 12]"
proof -
  let ?x1 = "\<lparr>ss_start = 1, ss_ready = 1, ss_input = 5\<rparr>" and ?x2 = "\<lparr>ss_start = 0, ss_ready = 0, ss_input = 9\<rparr>"
    and ?x3 = "\<lparr>ss_start = 0, ss_ready = 1, ss_input = 7\<rparr>"
  obtain c where c: "sequence_Init CUSTOM_NO_GPU_DEVICE sum_config = Inr c"
    by (simp add: sequence_Init_def sequence_check_config_def sum_config_def model_config_clear_def Let_def)
  have carry: "list_all2 (list_all2 carries) [[sum_payload ?x1], [sum_payload ?x2], [sum_payload ?x3]] [[?x1], [?x2], [?x3]]"
    by (simp add: sum_payload_carries)
  have fit: "\<forall>xs \<in> set [[?x1], [?x2], [?x3]]. int (length xs) \<le> max 1 (mc_max_batch_size sum_config)"
    by simp
  have "mc_max_batch_size sum_config = 2"
    by (simp add: sum_config_def)
  moreover have "expected (replicate 2 []) [[?x1], [?x2], [?x3]] = [[(?x1, 5)], [(?x2, 5)], [(?x3, 12)]]"
    by (simp add: extend_histories_def since_start_def current_sequence_def numeral_2_eq_2 Let_def)
  ultimately show ?thesis
    using sequence_library_adds_up [OF c carry fit, of "\<lambda>_. 0"] c
    by (fastforce simp: list_all2_Cons2 answered_def)
qed

end
