(* ===== verification/Spec2Isabelle.thy ===== *)
theory Spec2Isabelle
  imports Dynamic_Batch Config_Facts Sequence_Props Provider_Utils_Facts Ensemble_Props
    Server_Props Http_Round_Trip Client_Async_Runs Request_Round_Trip
    Grpc_Round_Trip Ensemble_Types Server_Main_Props Client_Contexts_Props
    Custom_Sequence_Props
begin

text \<open>
  The TensorRT Inference Server of \<open>src/bert-gpu/tensorrt-inference-server\<close> (paths below are relative to
  it): a server that loads the models of a repository and answers inference requests over HTTP and GRPC, and its
  C++ client library.

  \<^bold>\<open>The program.\<close> The program \<open>src/servers/main.cc\<close> reads the command line, creates the
  \<open>InferenceServer\<close> (\<open>src/core/server.cc\<close>) and starts the front ends \<open>http_server.cc\<close> and \<open>grpc_server.cc\<close>. The
  server owns a \<open>ModelRepositoryManager\<close>, which polls the model repository, normalizes and validates every
  configuration (\<open>model_config_utils.cc\<close>), and asks its \<open>BackendLifeCycle\<close> to load and unload versions, and a
  \<open>ServerStatusManager\<close> with the statistics. A front end turns a request into a request header and the contents of
  the inputs, \<open>provider_utils.cc\<close> checks them against the model and divides the body, and the request runs on
  the scheduler of the model: \<open>DynamicBatchScheduler\<close>, \<open>SequenceBatchScheduler\<close> or \<open>EnsembleScheduler\<close>. The backend
  reads the inputs from an \<open>InferRequestProvider\<close> and writes the outputs to an \<open>InferResponseProvider\<close>
  (\<open>provider.cc\<close>), whose contents the front end sends back. The client library (\<open>src/clients/c++\<close>) makes the
  requests and turns the replies into results.

  \<^bold>\<open>The theories.\<close> A theory with the definitions of a component names its file; the theories whose names
  end in Props, Facts, Safety, Runs, Types or Round_Trip hold lemmas.

  \<^item> Values: \<open>Prelude\<close> (fixed-width conversions, decimal text, \<open>transition_system\<close>, the locale of a step relation with an
    invariant), \<open>Status\<close> (\<open>status.cc\<close>, \<open>request_status.cc\<close>), \<open>Model_Config\<close> (\<open>model_config.proto\<close>,
    \<open>model_config.cc\<close>), \<open>Paths\<close> (\<open>filesystem.cc\<close>).
  \<^item> Configurations: \<open>Config_Utils\<close> (\<open>model_config_utils.cc\<close>), with \<open>Dataflow\<close> (the data flow check both ensemble
    validations run); \<open>Ensemble_Utils\<close> (\<open>ensemble_utils.cc\<close>). \<open>Config_Facts\<close>: sizes, control tensors, normalization is
    idempotent. \<open>Ensemble_Graph\<close>: what an accepted ensemble can do. \<open>Ensemble_Types\<close>: accepted ensembles are well typed and
    do not contain themselves.
  \<^item> Schedulers: \<open>Scheduler\<close> (\<open>scheduler.h\<close>), \<open>Dynamic_Batch\<close> (\<open>dynamic_batch_scheduler.cc\<close>; the choice of a batch against
    its specification, and every run of the scheduler), \<open>Sequence_Batch\<close> (\<open>sequence_batch_scheduler.cc\<close>) with
    \<open>Sequence_Safety\<close> (every slot has one owner, in every interleaving) and \<open>Sequence_Props\<close>, \<open>Ensemble_Scheduler\<close>
    (\<open>ensemble_scheduler.cc\<close>) with \<open>Ensemble_Runs\<close>, \<open>Ensemble_Build\<close> and \<open>Ensemble_Props\<close> (a request completes once, and
    ends).
  \<^item> Data: \<open>System_Memory\<close>, \<open>Request_Provider\<close>, \<open>Response_Provider\<close> (\<open>provider.cc\<close>), \<open>Backend\<close> (\<open>backend.cc\<close>,
    \<open>label_provider.cc\<close>), \<open>Provider_Utils\<close> (\<open>provider_utils.cc\<close>); \<open>Provider_Utils_Facts\<close> and \<open>Response_Facts\<close>.
  \<^item> Custom backends: \<open>Custom_Backend\<close> (\<open>src/backends/custom\<close>) and the libraries \<open>Custom_Libraries\<close> (\<open>src/custom\<close>).
    \<open>Custom_World\<close> is the contract between them, three locales that the GRPC provider and the provider of the C interface meet
    in \<open>Custom_Props\<close>; there a batch on the identity library gives every request its inputs back, and in
    \<open>Custom_Sequence_Props\<close> the sequence library (\<open>Custom_Sequence\<close>) adds up the steps of every sequence.
  \<^item> Models: \<open>Backend_Life_Cycle\<close> and \<open>Model_Repository\<close> (\<open>model_repository_manager.cc\<close>). \<open>Life_Cycle_Facts\<close>,
    \<open>Life_Cycle_Props\<close> and \<open>Life_Cycle_Work\<close>: the interleavings of the life cycle implement the last request
    made for every version, and come to an end; \<open>Model_Repository_Props\<close>: what a poll finds and requests.
  \<^item> Server: \<open>Server_Status\<close> (\<open>server_status.cc\<close>), \<open>Server\<close> (\<open>server.cc\<close>, \<open>profile.cc\<close>), \<open>Http_Server\<close>, \<open>Grpc_Server\<close>,
    \<open>Server_Main\<close> (\<open>src/servers\<close>), with \<open>Server_Status_Props\<close>, \<open>Server_Props\<close>, \<open>Server_Main_Props\<close>.
  \<^item> Client: \<open>Client_Input\<close>, \<open>Client_Result\<close> (\<open>request.cc\<close>, \<open>request_common.cc\<close>), \<open>Client_Http\<close> (\<open>request_http.cc\<close>),
    \<open>Client_Grpc\<close> (\<open>request_grpc.cc\<close>), \<open>Client_Async\<close> (asynchronous requests of both), \<open>Client_Contexts\<close> (health, status,
    profile). \<open>Byte_Sink\<close> is the contract of what consumes a stream in pieces; \<open>Client_Receive_Props\<close>,
    \<open>Client_Stream\<close>, \<open>Client_Strings\<close>, \<open>Client_Inplace\<close> rest on it; \<open>Client_Send_Props\<close> is about the body a client sends;
    \<open>Client_Async_Props\<close> and \<open>Client_Async_Runs\<close>: the transports implement one specification of outstanding requests.
  \<^item> End to end: \<open>Request_Round_Trip\<close> (the backend reads what the client set), \<open>Http_Round_Trip\<close> and
    \<open>Grpc_Round_Trip\<close> (the client gets what the backend wrote), \<open>Client_Contexts_Props\<close> (both clients see the same server).

  \<^bold>\<open>Conventions.\<close> A class is a record whose fields are its members, an operation that changes it returns it; an
  out parameter is a component of the result, or keeps its value where the code does not set it. A \<open>Status\<close> or
  \<open>Error\<close> is a value; an exception or a dereferenced null pointer is a result of its own (\<open>Thrown\<close>, \<open>None\<close>). Integers
  that can wrap around are words; signed quantities the code never lets overflow are \<open>int\<close>. A pointer with a
  size is the list of bytes from it on, a container that is shared is reached by an address in an explicit store.
  What a mutex protects is one step of a relation (\<open>dyn_step\<close>, \<open>seq_step\<close>, \<open>lc_step\<close>, \<open>ensemble_proceeds\<close>, \<open>sv_step\<close>, the steps of
  the clients), and the properties of runs hold for every interleaving of the steps.

  \<^bold>\<open>Bounds.\<close> Loops are structural recursion or functions with a measure. Two take fuel. \<open>read_input\<close> reads the chunks
  of an input: two more than the number of blocks is enough (\<open>read_input_all\<close>), and the properties that use it
  state that some fuel gives the contents. \<open>GetModifiedTime\<close> takes the depth of a directory tree, which is finite;
  more fuel does not change its result (\<open>Model_Repository_Props\<close>).

  \<^bold>\<open>Parameters.\<close> What is not in the repository is an argument of the definitions that use it: protobuf parsers and
  printers, libevent and libevhtp, libcurl, the stubs of GRPC, the file system, the clock, \<open>getopt_long\<close>, and the
  CUDA runtime. Round trips assume of a printer and a parser that one undoes the other.

  \<^bold>\<open>Not modelled.\<close> The memory model of C++ (the steps are atomic) and memory management beyond what a property needs.
  The backends under \<open>src/backends\<close>: those of the frameworks copy tensors to and from libraries that are not in the
  repository; the interface they use, the providers and the payloads, is modelled. The automatic completion of configurations (\<open>autofill\<close>)
  reads model files through the same frameworks. Metrics and logging, which no other part reads; the file system
  functions themselves; the in-process interface \<open>request_inprocess.cc\<close>, a second client of the modelled server; \<open>src/nvrpc\<close>,
  a copy of another library; the client programs; tests.
\<close>

section \<open>From the body of a request to the inputs of a model\<close>

text \<open>
  The parts of the HTTP path fit together: when a request whose inputs have different names
  is normalized and its body is divided among the inputs without an error, the request provider is
  created, and the backend that reads the inputs one after the other, chunk by chunk or
  contiguously, gets exactly the body.
\<close>

theorem http_request_reads_body:
  assumes "peek (int (length blocks)) = (int (length blocks), blocks)" and "[] \<notin> set blocks"
    and "distinct (map ri_name (rh_input h))"
    and "NormalizeRequestHeader is h = (st, h')" and "IsOk st"
    and "EVBufferToInputMap (int (length blocks)) peek name h' Map.empty = (st', input_map)" and "IsOk st'"
    and "hint \<noteq> 0"
  shows "\<exists>p fuel contents. provider_Create name version h' input_map = Inr p \<and>
    map (\<lambda>io. read_input fuel (ri_name io) hint force p) (rh_input h') = map Some contents \<and>
    concat contents = concat blocks"
proof -
  have "list_all2 (normalized is (rh_batch_size h)) (rh_input h) (rh_input h')"
    using NormalizeRequestHeader_split [OF assms(4)] assms(5) by blast
  then have d: "distinct (map ri_name (rh_input h'))"
    using normalized_names assms(3) by metis
  have bnd: "\<forall>io \<in> set (rh_input h'). bound input_map io"
    and body: "concat (map (content input_map) (rh_input h')) = concat blocks"
    using EVBufferToInputMap_parts [OF assms(1,2) d assms(6)] assms(7) by blast+
  then show ?thesis
    using bound_inputs_read [OF bnd assms(8)] by metis
qed

definition pair_normalized :: request_header where
  "pair_normalized = snd (NormalizeRequestHeader pair_backend (pair_request ''A'' ''B''))"

definition pair_bound :: "string \<rightharpoonup> system_memory" where
  "pair_bound = snd (EVBufferToInputMap (int (length pair_blocks)) pair_peek ''m'' pair_normalized Map.empty)"

theorem http_request_reads_body_witness:
  "\<exists>p fuel contents. provider_Create ''m'' 1 pair_normalized pair_bound = Inr p \<and>
    map (\<lambda>io. read_input fuel (ri_name io) 1 True p) (rh_input pair_normalized) = map Some contents \<and>
    concat contents = [1, 2, 3, 4]"
proof -
  have ok: "IsOk (fst (NormalizeRequestHeader pair_backend (pair_request ''A'' ''B'')))"
    "IsOk (fst (EVBufferToInputMap (int (length pair_blocks)) pair_peek ''m'' pair_normalized Map.empty))"
    by code_simp+
  have "\<exists>p fuel contents. provider_Create ''m'' 1 pair_normalized pair_bound = Inr p \<and>
    map (\<lambda>io. read_input fuel (ri_name io) 1 True p) (rh_input pair_normalized) = map Some contents \<and>
    concat contents = concat pair_blocks"
  proof (rule http_request_reads_body [of pair_peek pair_blocks "pair_request ''A'' ''B''" pair_backend
        "fst (NormalizeRequestHeader pair_backend (pair_request ''A'' ''B''))" _ "''m''"
        "fst (EVBufferToInputMap (int (length pair_blocks)) pair_peek ''m'' pair_normalized Map.empty)"])
    show "pair_peek (int (length pair_blocks)) = (int (length pair_blocks), pair_blocks)"
      by (simp add: pair_peek_def)
    show "[] \<notin> set pair_blocks"
      by (simp add: pair_blocks_def)
    show "distinct (map ri_name (rh_input (pair_request ''A'' ''B'')))"
      by (simp add: pair_request_def)
  qed (use ok in \<open>simp_all add: pair_normalized_def pair_bound_def\<close>)
  then show ?thesis
    by (simp add: pair_blocks_def)
qed

end
